(* ===== verification/Prelude.thy ===== *)
theory Prelude
  imports Main "HOL-Library.Word" "HOL-Library.Sublist"
begin

text \<open>
  Shared vocabulary of the development: the machine integers of the C code on its
  x86-64 target (little endian, signed \<open>char\<close>, 64-bit \<open>size_t\<close> and \<open>unsigned long\<close>), loads and
  stores of multi-byte integers, the C library routines the sources call on bytes and
  strings (\<open>isspace\<close>, \<open>iscntrl\<close>, \<open>strtoul\<close>, the \<open>%u\<close> conversion of \<open>snprintf\<close>), and the
  lemmas on lists and words that the component theories share.
\<close>

unbundle bit_operations_syntax

type_synonym byte = "8 word"
type_synonym u8 = "8 word"
type_synonym u16 = "16 word"
type_synonym u32 = "32 word"
type_synonym u64 = "64 word"

named_theorems wire_simps "loads, stores and byte swaps of multi-byte integers"

named_theorems word_inj "injectivity of the word operations hash steps are made of"

section \<open>Multi-byte loads and stores\<close>

definition le16 :: "byte \<Rightarrow> byte \<Rightarrow> u16" where
  "le16 b0 b1 = ucast b0 OR push_bit 8 (ucast b1)"

definition le32 :: "byte \<Rightarrow> byte \<Rightarrow> byte \<Rightarrow> byte \<Rightarrow> u32" where
  "le32 b0 b1 b2 b3 =
     ucast b0 OR push_bit 8 (ucast b1) OR push_bit 16 (ucast b2) OR push_bit 24 (ucast b3)"

definition le64 ::
  "byte \<Rightarrow> byte \<Rightarrow> byte \<Rightarrow> byte \<Rightarrow> byte \<Rightarrow> byte \<Rightarrow> byte \<Rightarrow> byte \<Rightarrow> u64" where
  "le64 b0 b1 b2 b3 b4 b5 b6 b7 =
     ucast (le32 b0 b1 b2 b3) OR push_bit 32 (ucast (le32 b4 b5 b6 b7))"

text \<open>The byte \<open>k\<close> of a word, least significant first.\<close>

definition byte_of :: "nat \<Rightarrow> 'a::len word \<Rightarrow> byte" where
  "byte_of k w = ucast (drop_bit (8 * k) w)"

definition st_le16 :: "u16 \<Rightarrow> byte list" where
  "st_le16 w = [byte_of 0 w, byte_of 1 w]"

definition st_le32 :: "u32 \<Rightarrow> byte list" where
  "st_le32 w = [byte_of 0 w, byte_of 1 w, byte_of 2 w, byte_of 3 w]"

definition st_le64 :: "u64 \<Rightarrow> byte list" where
  "st_le64 w = [byte_of 0 w, byte_of 1 w, byte_of 2 w, byte_of 3 w,
                byte_of 4 w, byte_of 5 w, byte_of 6 w, byte_of 7 w]"

text \<open>Loads at an offset of a buffer.\<close>

definition ld_le16 :: "byte list \<Rightarrow> nat \<Rightarrow> u16" where
  "ld_le16 m i = le16 (m ! i) (m ! (i + 1))"

definition ld_le32 :: "byte list \<Rightarrow> nat \<Rightarrow> u32" where
  "ld_le32 m i = le32 (m ! i) (m ! (i + 1)) (m ! (i + 2)) (m ! (i + 3))"

definition ld_le64 :: "byte list \<Rightarrow> nat \<Rightarrow> u64" where
  "ld_le64 m i = le64 (m ! i) (m ! (i + 1)) (m ! (i + 2)) (m ! (i + 3))
                      (m ! (i + 4)) (m ! (i + 5)) (m ! (i + 6)) (m ! (i + 7))"

text \<open>\<open>htons\<close>/\<open>ntohs\<close> and \<open>htonl\<close>/\<open>ntohl\<close> of a little-endian host: swap the bytes.\<close>

definition bswap16 :: "u16 \<Rightarrow> u16" where
  "bswap16 w = le16 (byte_of 1 w) (byte_of 0 w)"

definition bswap32 :: "u32 \<Rightarrow> u32" where
  "bswap32 w = le32 (byte_of 3 w) (byte_of 2 w) (byte_of 1 w) (byte_of 0 w)"

lemma byte_of_le16 [wire_simps]:
  "byte_of 0 (le16 b0 b1) = b0"
  "byte_of 1 (le16 b0 b1) = b1"
  "byte_of (Suc 0) (le16 b0 b1) = b1"
  by (rule bit_word_eqI; auto simp: byte_of_def le16_def bit_simps dest: bit_imp_le_length)+

lemma byte_of_le32 [wire_simps]:
  "byte_of 0 (le32 b0 b1 b2 b3) = b0"
  "byte_of 1 (le32 b0 b1 b2 b3) = b1"
  "byte_of (Suc 0) (le32 b0 b1 b2 b3) = b1"
  "byte_of 2 (le32 b0 b1 b2 b3) = b2"
  "byte_of 3 (le32 b0 b1 b2 b3) = b3"
  by (rule bit_word_eqI; auto simp: byte_of_def le32_def bit_simps dest: bit_imp_le_length)+

lemma byte_of_le64 [wire_simps]:
  "byte_of 0 (le64 b0 b1 b2 b3 b4 b5 b6 b7) = b0"
  "byte_of 1 (le64 b0 b1 b2 b3 b4 b5 b6 b7) = b1"
  "byte_of (Suc 0) (le64 b0 b1 b2 b3 b4 b5 b6 b7) = b1"
  "byte_of 2 (le64 b0 b1 b2 b3 b4 b5 b6 b7) = b2"
  "byte_of 3 (le64 b0 b1 b2 b3 b4 b5 b6 b7) = b3"
  "byte_of 4 (le64 b0 b1 b2 b3 b4 b5 b6 b7) = b4"
  "byte_of 5 (le64 b0 b1 b2 b3 b4 b5 b6 b7) = b5"
  "byte_of 6 (le64 b0 b1 b2 b3 b4 b5 b6 b7) = b6"
  "byte_of 7 (le64 b0 b1 b2 b3 b4 b5 b6 b7) = b7"
  by (rule bit_word_eqI; auto simp: byte_of_def le64_def le32_def bit_simps dest: bit_imp_le_length)+

lemma le16_bytes [wire_simps]: "le16 (byte_of 0 w) (byte_of 1 w) = w"
  by (rule bit_word_eqI) (auto simp: byte_of_def le16_def bit_simps not_le)

lemma le32_bytes [wire_simps]:
  "le32 (byte_of 0 w) (byte_of 1 w) (byte_of 2 w) (byte_of 3 w) = w"
proof (rule bit_word_eqI)
  fix n :: nat
  assume "n < LENGTH(32)"
  then consider "n < 8" | "8 \<le> n" "n < 16" | "16 \<le> n" "n < 24" | "24 \<le> n" "n < 32"
    by fastforce
  then show "bit (le32 (byte_of 0 w) (byte_of 1 w) (byte_of 2 w) (byte_of 3 w)) n \<longleftrightarrow> bit w n"
    by cases (auto simp: byte_of_def le32_def bit_simps less_diff_conv2)
qed

lemma byte_of_ucast_low:
  fixes w :: u64
  assumes "k < 4"
  shows "byte_of k (ucast w :: u32) = byte_of k w"
  by (rule bit_word_eqI) (use assms in \<open>auto simp: byte_of_def bit_simps\<close>)

lemma byte_of_ucast_high:
  fixes w :: u64
  assumes "k < 4"
  shows "byte_of k (ucast (drop_bit 32 w) :: u32) = byte_of (4 + k) w"
  by (rule bit_word_eqI) (use assms in \<open>auto simp: byte_of_def bit_simps ac_simps\<close>)

lemma le64_halves: "ucast (ucast w :: u32) OR push_bit 32 (ucast (ucast (drop_bit 32 w) :: u32)) = (w :: u64)"
  by (rule bit_word_eqI) (auto simp: bit_simps not_le)

lemma le64_bytes [wire_simps]:
  "le64 (byte_of 0 w) (byte_of 1 w) (byte_of 2 w) (byte_of 3 w)
        (byte_of 4 w) (byte_of 5 w) (byte_of 6 w) (byte_of 7 w) = w"
proof -
  have "le32 (byte_of 0 w) (byte_of 1 w) (byte_of 2 w) (byte_of 3 w) = ucast w"
    using le32_bytes [of "ucast w"] by (simp add: byte_of_ucast_low)
  moreover have "le32 (byte_of 4 w) (byte_of 5 w) (byte_of 6 w) (byte_of 7 w) = ucast (drop_bit 32 w)"
    using le32_bytes [of "ucast (drop_bit 32 w)"] by (simp add: byte_of_ucast_high)
  ultimately show ?thesis
    by (simp add: le64_def le64_halves)
qed

lemma bswap16_bswap16 [simp]: "bswap16 (bswap16 w) = w"
  unfolding bswap16_def by (simp only: byte_of_le16 le16_bytes)

lemma bswap32_bswap32 [simp]: "bswap32 (bswap32 w) = w"
  unfolding bswap32_def by (simp only: byte_of_le32 le32_bytes)

lemma length_st [simp]:
  "length (st_le16 a) = 2" "length (st_le32 b) = 4" "length (st_le64 c) = 8"
  by (simp_all add: st_le16_def st_le32_def st_le64_def)

section \<open>Injective word operations\<close>

lemma xorshift_inj [word_inj]:
  fixes x y :: "'a::len word"
  assumes n: "0 < n" and eq: "x XOR drop_bit n x = y XOR drop_bit n y"
  shows "x = y"
proof (rule bit_word_eqI)
  fix k :: nat
  have "bit x k = bit y k" for k
  proof (induction "LENGTH('a) - k" arbitrary: k rule: less_induct)
    case less
    show ?case
    proof (cases "k < LENGTH('a)")
      case True
      with n have "bit x (n + k) = bit y (n + k)"
        by (intro less) simp
      moreover have "bit (x XOR drop_bit n x) k = bit (y XOR drop_bit n y) k"
        using eq by simp
      ultimately show ?thesis by (auto simp: bit_simps)
    next
      case False
      then show ?thesis by (auto dest: bit_imp_le_length)
    qed
  qed
  then show "bit x k \<longleftrightarrow> bit y k" .
qed

lemma mult_unit_inj:
  fixes a b x y :: "'a::len word"
  assumes "b * a = 1" and "a * x = a * y"
  shows "x = y"
proof -
  have "(b * a) * x = (b * a) * y"
    using assms(2) by (simp add: mult.assoc)
  with assms(1) show ?thesis by simp
qed

lemma xor_left_inj [word_inj]: "x XOR z = y XOR z \<Longrightarrow> x = (y :: 'a::len word)"
  by (metis xor.assoc xor.right_neutral xor_self_eq)

lemma scast_byte_inj:
  assumes "(scast (c :: byte) :: 'a::len word) = scast d" and "8 \<le> LENGTH('a)"
  shows "c = d"
proof (rule bit_word_eqI)
  fix n :: nat
  assume n: "n < LENGTH(8)"
  with assms(2) have "n < LENGTH('a)" by simp
  moreover have "bit (scast c :: 'a word) n = bit (scast d :: 'a word) n"
    using assms(1) by simp
  ultimately have "bit c (min 7 n) = bit d (min 7 n)"
    by (simp add: bit_signed_iff)
  moreover from n have "min 7 n = n" by simp
  ultimately show "bit c n = bit d n" by simp
qed

lemma scast_byte_inj32 [word_inj]: "(scast (c :: byte) :: u32) = scast d \<Longrightarrow> c = d"
  by (erule scast_byte_inj) simp

section \<open>Little-endian words as sums\<close>

lemma le16_sum: "(ucast (le16 b0 b1) :: u32) = ucast b0 + push_bit 8 (ucast b1)"
proof -
  have "(ucast b0 :: u32) + push_bit 8 (ucast b1) = ucast b0 OR push_bit 8 (ucast b1)"
    by (rule disjunctive_add_eq_or) (rule bit_word_eqI, auto simp: bit_simps dest: bit_imp_le_length)
  also have "\<dots> = ucast (le16 b0 b1)"
    by (rule bit_word_eqI) (auto simp: le16_def bit_simps dest: bit_imp_le_length)
  finally show ?thesis by simp
qed

lemma le32_sum:
  "le32 b0 b1 b2 b3 =
     ucast b0 + push_bit 8 (ucast b1) + push_bit 16 (ucast b2) + push_bit 24 (ucast b3)"
proof -
  have "(ucast b0 :: u32) + push_bit 8 (ucast b1) = ucast b0 OR push_bit 8 (ucast b1)"
    by (rule disjunctive_add_eq_or) (rule bit_word_eqI, auto simp: bit_simps dest: bit_imp_le_length)
  moreover have "(ucast b0 OR push_bit 8 (ucast b1) :: u32) + push_bit 16 (ucast b2)
      = ucast b0 OR push_bit 8 (ucast b1) OR push_bit 16 (ucast b2)"
    by (subst disjunctive_add_eq_or)
       (rule bit_word_eqI, auto simp: bit_simps or.assoc dest: bit_imp_le_length)
  moreover have "(ucast b0 OR push_bit 8 (ucast b1) OR push_bit 16 (ucast b2) :: u32)
        + push_bit 24 (ucast b3)
      = ucast b0 OR push_bit 8 (ucast b1) OR push_bit 16 (ucast b2) OR push_bit 24 (ucast b3)"
    by (subst disjunctive_add_eq_or)
       (rule bit_word_eqI, auto simp: bit_simps or.assoc dest: bit_imp_le_length)
  ultimately show ?thesis by (simp add: le32_def)
qed

section \<open>Buffers and \<open>size_t\<close>\<close>

text \<open>\<open>memcpy\<close> into a buffer at an offset.\<close>

definition memcpy_at :: "'a list \<Rightarrow> nat \<Rightarrow> 'a list \<Rightarrow> 'a list" where
  "memcpy_at dst i src = take i dst @ src @ drop (i + length src) dst"

lemma length_memcpy_at [simp]: "i + length src \<le> length dst \<Longrightarrow> length (memcpy_at dst i src) = length dst"
  by (simp add: memcpy_at_def)

lemma take_memcpy_at: "take (length src) (memcpy_at dst 0 src) = src"
  by (simp add: memcpy_at_def)

lemma take_memcpy_at_end:
  "i \<le> length dst \<Longrightarrow> take (i + length src) (memcpy_at dst i src) = take i dst @ src"
  by (simp add: memcpy_at_def)

text \<open>Subtraction of \<open>size_t\<close> values, modulo \<open>2 ^ 64\<close>.\<close>

definition size_sub :: "nat \<Rightarrow> nat \<Rightarrow> nat" where
  "size_sub a b = (2 ^ 64 + a - b) mod 2 ^ 64"

lemma size_sub_le: "b \<le> a \<Longrightarrow> a < 2 ^ 64 \<Longrightarrow> size_sub a b = a - b"
  unfolding size_sub_def by (metis Nat.add_diff_assoc less_imp_diff_less mod_add_self1 mod_less)

section \<open>C characters and strings\<close>

definition bytes :: "string \<Rightarrow> byte list" where
  "bytes s = map (\<lambda>c. of_nat (of_char c)) s"

text \<open>The classification functions of \<open><ctype.h>\<close> in the C locale.\<close>

definition isspace :: "byte \<Rightarrow> bool" where
  "isspace c \<longleftrightarrow> c = 32 \<or> (9 \<le> c \<and> c \<le> 13)"

definition iscntrl :: "byte \<Rightarrow> bool" where
  "iscntrl c \<longleftrightarrow> c < 32 \<or> c = 127"

definition isdigit :: "byte \<Rightarrow> bool" where
  "isdigit c \<longleftrightarrow> 48 \<le> c \<and> c \<le> 57"

definition isgraph :: "byte \<Rightarrow> bool" where
  "isgraph c \<longleftrightarrow> 33 \<le> c \<and> c \<le> 126"

text \<open>The C string that starts at the head of a list: up to the first NUL, or the end.\<close>

definition c_str :: "byte list \<Rightarrow> byte list" where
  "c_str s = takeWhile (\<lambda>c. c \<noteq> 0) s"

text \<open>\<open>index(s, c)\<close>: the offset of the first \<open>c\<close>.\<close>

fun index_of :: "byte \<Rightarrow> byte list \<Rightarrow> nat option" where
  "index_of c [] = None"
| "index_of c (x # xs) = (if x = c then Some 0 else map_option Suc (index_of c xs))"

text \<open>
  \<open>strtoul(s, NULL, 10)\<close> (and \<open>strtoull\<close>, the same on this target): skip white space, an
  optional sign, then digits; the value saturates at \<open>ULONG_MAX\<close>, and a minus sign negates
  modulo \<open>2 ^ 64\<close>.
\<close>

definition digits_value :: "byte list \<Rightarrow> nat" where
  "digits_value ds = foldl (\<lambda>a d. 10 * a + (unat d - 48)) 0 ds"

definition strtoul10 :: "byte list \<Rightarrow> u64" where
  "strtoul10 s =
     (let s1 = dropWhile isspace (c_str s);
          neg = (s1 \<noteq> [] \<and> hd s1 = 45);
          s2 = (if s1 \<noteq> [] \<and> (hd s1 = 45 \<or> hd s1 = 43) then tl s1 else s1);
          v = digits_value (takeWhile isdigit s2)
      in if v \<ge> 2 ^ 64 then - 1 else if neg then - of_nat v else of_nat v)"

text \<open>The \<open>%u\<close>, \<open>%lu\<close>, \<open>%llu\<close> and \<open>%zu\<close> conversions of \<open>snprintf\<close>.\<close>

fun dec_digits :: "nat \<Rightarrow> byte list" where
  "dec_digits n = (if n < 10 then [of_nat (48 + n)]
                   else dec_digits (n div 10) @ [of_nat (48 + n mod 10)])"

declare dec_digits.simps [simp del]

lemma digits_value_snoc: "digits_value (ds @ [d]) = 10 * digits_value ds + (unat d - 48)"
  by (simp add: digits_value_def)

lemma unat_digit: "d < 10 \<Longrightarrow> unat (of_nat (48 + d) :: byte) = 48 + d"
  by (subst unat_of_nat) simp

lemma dec_digits_value [simp]: "digits_value (dec_digits n) = n"
proof (induction n rule: dec_digits.induct)
  case (1 n)
  show ?case
  proof (cases "n < 10")
    case True
    then show ?thesis
      using unat_digit [of n] by (simp add: dec_digits.simps [of n] digits_value_def)
  next
    case False
    with 1 show ?thesis
      using unat_digit [of "n mod 10"]
      by (simp add: dec_digits.simps [of n] digits_value_snoc)
  qed
qed

lemma isdigit_of_nat: "d < 10 \<Longrightarrow> isdigit (of_nat (48 + d))"
  using unat_digit [of d] by (simp add: isdigit_def word_le_nat_alt)

lemma dec_digits_isdigit: "c \<in> set (dec_digits n) \<Longrightarrow> isdigit c"
proof (induction n rule: dec_digits.induct)
  case (1 n)
  then show ?case
    using isdigit_of_nat [of n] isdigit_of_nat [of "n mod 10"]
    by (cases "n < 10") (auto simp: dec_digits.simps [of n])
qed

lemma dec_digits_nonempty [simp]: "dec_digits n \<noteq> []"
  by (simp add: dec_digits.simps [of n])

lemma isdigit_not: "isdigit c \<Longrightarrow> \<not> isspace c \<and> c \<noteq> 0 \<and> c \<noteq> 45 \<and> c \<noteq> 43 \<and> c \<noteq> 58 \<and> c \<noteq> 44 \<and> c \<noteq> 32"
  by (auto simp: isdigit_def isspace_def word_le_nat_alt)

text \<open>Parsing a printed number gives it back, whatever non-digit follows.\<close>

lemma strtoul10_dec_digits:
  assumes n: "n < 2 ^ 64" and rest: "rest = [] \<or> \<not> isdigit (hd rest)"
  shows "strtoul10 (dec_digits n @ rest) = of_nat n"
proof -
  have dig: "\<forall>c \<in> set (dec_digits n). isdigit c \<and> c \<noteq> 0"
    using dec_digits_isdigit isdigit_not by blast
  obtain d ds where d: "dec_digits n = d # ds"
    by (cases "dec_digits n") auto
  have c: "c_str (dec_digits n @ rest) = dec_digits n @ c_str rest"
    using dig by (simp add: c_str_def takeWhile_append2)
  have "c_str rest = [] \<or> \<not> isdigit (hd (c_str rest))"
    using rest by (cases rest) (auto simp: c_str_def)
  then have t: "takeWhile isdigit (dec_digits n @ c_str rest) = dec_digits n"
    using dig by (cases "c_str rest") (auto simp: takeWhile_append2)
  have nd: "\<not> isspace d \<and> d \<noteq> 45 \<and> d \<noteq> 43"
    using dig d isdigit_not by auto
  show ?thesis
    unfolding strtoul10_def c
    using n nd t by (simp add: d Let_def) (simp flip: d)
qed

end
