(* ===== verification/Constants.thy ===== *)
theory Constants
  imports Prelude
begin

text \<open>
  The enumerations and numeric constants of \<open>libmemcached/constants.h\<close>, with their numeric
  values where the code depends on them, and \<open>strerror.c\<close>.
\<close>

datatype memcached_return_t =
    MEMCACHED_SUCCESS
  | MEMCACHED_FAILURE
  | MEMCACHED_HOST_LOOKUP_FAILURE
  | MEMCACHED_CONNECTION_FAILURE
  | MEMCACHED_CONNECTION_BIND_FAILURE
  | MEMCACHED_WRITE_FAILURE
  | MEMCACHED_READ_FAILURE
  | MEMCACHED_UNKNOWN_READ_FAILURE
  | MEMCACHED_PROTOCOL_ERROR
  | MEMCACHED_CLIENT_ERROR
  | MEMCACHED_SERVER_ERROR
  | MEMCACHED_CONNECTION_SOCKET_CREATE_FAILURE
  | MEMCACHED_DATA_EXISTS
  | MEMCACHED_DATA_DOES_NOT_EXIST
  | MEMCACHED_NOTSTORED
  | MEMCACHED_STORED
  | MEMCACHED_NOTFOUND
  | MEMCACHED_MEMORY_ALLOCATION_FAILURE
  | MEMCACHED_PARTIAL_READ
  | MEMCACHED_SOME_ERRORS
  | MEMCACHED_NO_SERVERS
  | MEMCACHED_END
  | MEMCACHED_DELETED
  | MEMCACHED_VALUE
  | MEMCACHED_STAT
  | MEMCACHED_ITEM
  | MEMCACHED_ERRNO
  | MEMCACHED_FAIL_UNIX_SOCKET
  | MEMCACHED_NOT_SUPPORTED
  | MEMCACHED_NO_KEY_PROVIDED
  | MEMCACHED_FETCH_NOTFINISHED
  | MEMCACHED_TIMEOUT
  | MEMCACHED_BUFFERED
  | MEMCACHED_BAD_KEY_PROVIDED
  | MEMCACHED_INVALID_HOST_PROTOCOL
  | MEMCACHED_SERVER_MARKED_DEAD
  | MEMCACHED_UNKNOWN_STAT_KEY
  | MEMCACHED_E2BIG
  | MEMCACHED_INVALID_ARGUMENTS
  | MEMCACHED_KEY_TOO_BIG
  | MEMCACHED_AUTH_PROBLEM
  | MEMCACHED_AUTH_FAILURE
  | MEMCACHED_AUTH_CONTINUE
  | MEMCACHED_MAXIMUM_RETURN

datatype memcached_server_distribution_t =
    MEMCACHED_DISTRIBUTION_MODULA
  | MEMCACHED_DISTRIBUTION_CONSISTENT
  | MEMCACHED_DISTRIBUTION_CONSISTENT_KETAMA
  | MEMCACHED_DISTRIBUTION_RANDOM
  | MEMCACHED_DISTRIBUTION_CONSISTENT_KETAMA_SPY
  | MEMCACHED_DISTRIBUTION_CONSISTENT_MAX

datatype memcached_behavior_t =
    MEMCACHED_BEHAVIOR_NO_BLOCK
  | MEMCACHED_BEHAVIOR_TCP_NODELAY
  | MEMCACHED_BEHAVIOR_HASH
  | MEMCACHED_BEHAVIOR_KETAMA
  | MEMCACHED_BEHAVIOR_SOCKET_SEND_SIZE
  | MEMCACHED_BEHAVIOR_SOCKET_RECV_SIZE
  | MEMCACHED_BEHAVIOR_CACHE_LOOKUPS
  | MEMCACHED_BEHAVIOR_SUPPORT_CAS
  | MEMCACHED_BEHAVIOR_POLL_TIMEOUT
  | MEMCACHED_BEHAVIOR_DISTRIBUTION
  | MEMCACHED_BEHAVIOR_BUFFER_REQUESTS
  | MEMCACHED_BEHAVIOR_USER_DATA
  | MEMCACHED_BEHAVIOR_SORT_HOSTS
  | MEMCACHED_BEHAVIOR_VERIFY_KEY
  | MEMCACHED_BEHAVIOR_CONNECT_TIMEOUT
  | MEMCACHED_BEHAVIOR_RETRY_TIMEOUT
  | MEMCACHED_BEHAVIOR_KETAMA_WEIGHTED
  | MEMCACHED_BEHAVIOR_KETAMA_HASH
  | MEMCACHED_BEHAVIOR_BINARY_PROTOCOL
  | MEMCACHED_BEHAVIOR_SND_TIMEOUT
  | MEMCACHED_BEHAVIOR_RCV_TIMEOUT
  | MEMCACHED_BEHAVIOR_SERVER_FAILURE_LIMIT
  | MEMCACHED_BEHAVIOR_IO_MSG_WATERMARK
  | MEMCACHED_BEHAVIOR_IO_BYTES_WATERMARK
  | MEMCACHED_BEHAVIOR_IO_KEY_PREFETCH
  | MEMCACHED_BEHAVIOR_HASH_WITH_PREFIX_KEY
  | MEMCACHED_BEHAVIOR_NOREPLY
  | MEMCACHED_BEHAVIOR_USE_UDP
  | MEMCACHED_BEHAVIOR_AUTO_EJECT_HOSTS
  | MEMCACHED_BEHAVIOR_NUMBER_OF_REPLICAS
  | MEMCACHED_BEHAVIOR_RANDOMIZE_REPLICA_READ
  | MEMCACHED_BEHAVIOR_CORK
  | MEMCACHED_BEHAVIOR_TCP_KEEPALIVE
  | MEMCACHED_BEHAVIOR_TCP_KEEPIDLE
  | MEMCACHED_BEHAVIOR_MAX

datatype memcached_callback_t =
    MEMCACHED_CALLBACK_PREFIX_KEY
  | MEMCACHED_CALLBACK_USER_DATA
  | MEMCACHED_CALLBACK_CLEANUP_FUNCTION
  | MEMCACHED_CALLBACK_CLONE_FUNCTION
  | MEMCACHED_CALLBACK_GET_FAILURE
  | MEMCACHED_CALLBACK_DELETE_TRIGGER
  | MEMCACHED_CALLBACK_MAX

datatype memcached_hash_t =
    MEMCACHED_HASH_DEFAULT
  | MEMCACHED_HASH_MD5
  | MEMCACHED_HASH_CRC
  | MEMCACHED_HASH_FNV1_64
  | MEMCACHED_HASH_FNV1A_64
  | MEMCACHED_HASH_FNV1_32
  | MEMCACHED_HASH_FNV1A_32
  | MEMCACHED_HASH_HSIEH
  | MEMCACHED_HASH_MURMUR
  | MEMCACHED_HASH_JENKINS
  | MEMCACHED_HASH_CUSTOM
  | MEMCACHED_HASH_MAX

datatype memcached_connection_t =
    MEMCACHED_CONNECTION_UNKNOWN
  | MEMCACHED_CONNECTION_TCP
  | MEMCACHED_CONNECTION_UDP
  | MEMCACHED_CONNECTION_UNIX_SOCKET
  | MEMCACHED_CONNECTION_MAX

definition MEMCACHED_DEFAULT_PORT :: nat where "MEMCACHED_DEFAULT_PORT = 11211"
definition MEMCACHED_MAX_KEY :: nat where "MEMCACHED_MAX_KEY = 251"
definition MEMCACHED_MAX_BUFFER :: nat where "MEMCACHED_MAX_BUFFER = 8196"
definition MEMCACHED_MAX_HOST_SORT_LENGTH :: nat where "MEMCACHED_MAX_HOST_SORT_LENGTH = 86"
definition MEMCACHED_POINTS_PER_SERVER :: nat where "MEMCACHED_POINTS_PER_SERVER = 100"
definition MEMCACHED_POINTS_PER_SERVER_KETAMA :: nat where "MEMCACHED_POINTS_PER_SERVER_KETAMA = 160"
definition MEMCACHED_CONTINUUM_ADDITION :: nat where "MEMCACHED_CONTINUUM_ADDITION = 10"
definition MEMCACHED_PREFIX_KEY_MAX_SIZE :: nat where "MEMCACHED_PREFIX_KEY_MAX_SIZE = 128"

text \<open>The messages of \<open>memcached_strerror\<close>.\<close>

fun memcached_strerror :: "memcached_return_t \<Rightarrow> string" where
  "memcached_strerror MEMCACHED_SUCCESS = ''SUCCESS''"
| "memcached_strerror MEMCACHED_FAILURE = ''FAILURE''"
| "memcached_strerror MEMCACHED_HOST_LOOKUP_FAILURE = ''HOSTNAME LOOKUP FAILURE''"
| "memcached_strerror MEMCACHED_CONNECTION_FAILURE = ''CONNECTION FAILURE''"
| "memcached_strerror MEMCACHED_CONNECTION_BIND_FAILURE = ''CONNECTION BIND FAILURE''"
| "memcached_strerror MEMCACHED_WRITE_FAILURE = ''WRITE FAILURE''"
| "memcached_strerror MEMCACHED_READ_FAILURE = ''READ FAILURE''"
| "memcached_strerror MEMCACHED_UNKNOWN_READ_FAILURE = ''UNKNOWN READ FAILURE''"
| "memcached_strerror MEMCACHED_PROTOCOL_ERROR = ''PROTOCOL ERROR''"
| "memcached_strerror MEMCACHED_CLIENT_ERROR = ''CLIENT ERROR''"
| "memcached_strerror MEMCACHED_SERVER_ERROR = ''SERVER ERROR''"
| "memcached_strerror MEMCACHED_CONNECTION_SOCKET_CREATE_FAILURE = ''CONNECTION SOCKET CREATE FAILURE''"
| "memcached_strerror MEMCACHED_DATA_EXISTS = ''CONNECTION DATA EXISTS''"
| "memcached_strerror MEMCACHED_DATA_DOES_NOT_EXIST = ''CONNECTION DATA DOES NOT EXIST''"
| "memcached_strerror MEMCACHED_NOTSTORED = ''NOT STORED''"
| "memcached_strerror MEMCACHED_STORED = ''STORED''"
| "memcached_strerror MEMCACHED_NOTFOUND = ''NOT FOUND''"
| "memcached_strerror MEMCACHED_MEMORY_ALLOCATION_FAILURE = ''MEMORY ALLOCATION FAILURE''"
| "memcached_strerror MEMCACHED_PARTIAL_READ = ''PARTIAL READ''"
| "memcached_strerror MEMCACHED_SOME_ERRORS = ''SOME ERRORS WERE REPORTED''"
| "memcached_strerror MEMCACHED_NO_SERVERS = ''NO SERVERS DEFINED''"
| "memcached_strerror MEMCACHED_END = ''SERVER END''"
| "memcached_strerror MEMCACHED_DELETED = ''SERVER DELETE''"
| "memcached_strerror MEMCACHED_VALUE = ''SERVER VALUE''"
| "memcached_strerror MEMCACHED_STAT = ''STAT VALUE''"
| "memcached_strerror MEMCACHED_ITEM = ''ITEM VALUE''"
| "memcached_strerror MEMCACHED_ERRNO = ''SYSTEM ERROR''"
| "memcached_strerror MEMCACHED_FAIL_UNIX_SOCKET = ''COULD NOT OPEN UNIX SOCKET''"
| "memcached_strerror MEMCACHED_NOT_SUPPORTED = ''ACTION NOT SUPPORTED''"
| "memcached_strerror MEMCACHED_NO_KEY_PROVIDED = ''A KEY LENGTH OF ZERO WAS PROVIDED''"
| "memcached_strerror MEMCACHED_FETCH_NOTFINISHED = ''FETCH WAS NOT COMPLETED''"
| "memcached_strerror MEMCACHED_TIMEOUT = ''A TIMEOUT OCCURRED''"
| "memcached_strerror MEMCACHED_BUFFERED = ''ACTION QUEUED''"
| "memcached_strerror MEMCACHED_BAD_KEY_PROVIDED = ''A BAD KEY WAS PROVIDED/CHARACTERS OUT OF RANGE''"
| "memcached_strerror MEMCACHED_INVALID_HOST_PROTOCOL = ''THE HOST TRANSPORT PROTOCOL DOES NOT MATCH THAT OF THE CLIENT''"
| "memcached_strerror MEMCACHED_SERVER_MARKED_DEAD = ''SERVER IS MARKED DEAD''"
| "memcached_strerror MEMCACHED_UNKNOWN_STAT_KEY = ''ENCOUNTERED AN UNKNOWN STAT KEY''"
| "memcached_strerror MEMCACHED_E2BIG = ''ITEM TOO BIG''"
| "memcached_strerror MEMCACHED_INVALID_ARGUMENTS = ''INVALID ARGUMENTS''"
| "memcached_strerror MEMCACHED_KEY_TOO_BIG = ''KEY RETURNED FROM SERVER WAS TOO LARGE''"
| "memcached_strerror MEMCACHED_AUTH_PROBLEM = ''FAILED TO SEND AUTHENTICATION TO SERVER''"
| "memcached_strerror MEMCACHED_AUTH_FAILURE = ''AUTHENTICATION FAILURE''"
| "memcached_strerror MEMCACHED_AUTH_CONTINUE = ''CONTINUE AUTHENTICATION''"
| "memcached_strerror MEMCACHED_MAXIMUM_RETURN = ''Gibberish returned!''"

end
