(* ===== verification/Memc_String.thy ===== *)
theory Memc_String
  imports Constants
begin

text \<open>
  \<open>libmemcached/string.c\<close> and \<open>result.c\<close>: the growing buffer behind every value, and the result
  object. The block \<open>string\<close> points to is \<open>str_buf\<close> (\<open>None\<close> is \<open>NULL\<close>) and \<open>str_end\<close> is the offset
  \<open>end - string\<close>. Sizes are \<open>size_t\<close>: natural numbers with the reduction modulo \<open>2 ^ 64\<close> written out.
  The allocator is an argument: \<open>realloc old size\<close> is the new block, and \<open>realloc_ok\<close> states what
  \<open>realloc\<close> documents. The interface \<open>byte_buffer\<close> is what the users of a string rely on.
\<close>

type_synonym realloc_fn = "byte list option \<Rightarrow> nat \<Rightarrow> byte list option"

definition block :: "byte list option \<Rightarrow> byte list" where
  "block b = (case b of None \<Rightarrow> [] | Some bs \<Rightarrow> bs)"

lemma block_simps [simp]: "block None = []" "block (Some bs) = bs"
  by (simp_all add: block_def)

text \<open>
  A successful \<open>realloc\<close> returns a block of the size asked for, of at most \<open>PTRDIFF_MAX\<close> bytes,
  that keeps the old contents up to the smaller of the two sizes.
\<close>

definition realloc_ok :: "realloc_fn \<Rightarrow> bool" where
  "realloc_ok realloc \<longleftrightarrow>
     (\<forall>old size new. realloc old size = Some new \<longrightarrow>
        length new = size \<and> size < 2 ^ 63 \<and>
        take (min (length (block old)) size) new = take (min (length (block old)) size) (block old))"

section \<open>The interface of a growing buffer\<close>

text \<open>Appending a list of pieces, stopping at the first failure, as the callers do.\<close>

fun append_all ::
  "('s \<Rightarrow> byte list \<Rightarrow> memcached_return_t \<times> 's) \<Rightarrow> 's \<Rightarrow> byte list list \<Rightarrow> memcached_return_t \<times> 's" where
  "append_all put s [] = (MEMCACHED_SUCCESS, s)"
| "append_all put s (xs # xss) =
     (case put s xs of
        (rc, s') \<Rightarrow> if rc \<noteq> MEMCACHED_SUCCESS then (rc, s') else append_all put s' xss)"

locale byte_buffer =
  fixes inv :: "'s \<Rightarrow> bool"
    and contents :: "'s \<Rightarrow> byte list"
    and put :: "'s \<Rightarrow> byte list \<Rightarrow> memcached_return_t \<times> 's"
    and reset :: "'s \<Rightarrow> 's"
  assumes append_inv: "inv s \<Longrightarrow> length xs < 2 ^ 64 \<Longrightarrow> put s xs = (rc, s') \<Longrightarrow> inv s'"
    and append_success:
      "inv s \<Longrightarrow> length xs < 2 ^ 64 \<Longrightarrow> put s xs = (MEMCACHED_SUCCESS, s') \<Longrightarrow>
       contents s' = contents s @ xs"
    and append_failure:
      "inv s \<Longrightarrow> length xs < 2 ^ 64 \<Longrightarrow> put s xs = (rc, s') \<Longrightarrow> rc \<noteq> MEMCACHED_SUCCESS \<Longrightarrow>
       rc = MEMCACHED_MEMORY_ALLOCATION_FAILURE \<and> s' = s"
    and reset_contents: "inv s \<Longrightarrow> inv (reset s) \<and> contents (reset s) = []"
begin

lemma append_all_contents:
  assumes "inv s" and "\<forall>xs \<in> set xss. length xs < 2 ^ 64" and "append_all put s xss = (rc, s')"
  shows "inv s' \<and> (\<exists>k \<le> length xss. contents s' = contents s @ concat (take k xss) \<and>
           (rc = MEMCACHED_SUCCESS \<longleftrightarrow> k = length xss))"
  using assms
proof (induction xss arbitrary: s)
  case Nil
  then show ?case by simp
next
  case (Cons xs xss)
  obtain rc1 s1 where a: "put s xs = (rc1, s1)" by (cases "put s xs")
  have len: "length xs < 2 ^ 64" using Cons.prems by simp
  show ?case
  proof (cases "rc1 = MEMCACHED_SUCCESS")
    case True
    with a have a': "put s xs = (MEMCACHED_SUCCESS, s1)" by simp
    with True Cons.prems have "append_all put s1 xss = (rc, s')" by simp
    moreover have "inv s1" "contents s1 = contents s @ xs"
      using append_inv [OF Cons.prems(1) len a'] append_success [OF Cons.prems(1) len a'] by simp_all
    ultimately obtain k where "inv s'" "k \<le> length xss"
      "contents s' = contents s @ xs @ concat (take k xss)" "rc = MEMCACHED_SUCCESS \<longleftrightarrow> k = length xss"
      using Cons.IH [of s1] Cons.prems(2) by auto
    then show ?thesis by (intro conjI exI [of _ "Suc k"]) simp_all
  next
    case False
    then have "rc = rc1" "s' = s"
      using a Cons.prems append_failure [OF Cons.prems(1) len a] by simp_all
    with False Cons.prems(1) show ?thesis by (intro conjI exI [of _ 0]) simp_all
  qed
qed

end

section \<open>\<open>string.c\<close>\<close>

definition MEMCACHED_BLOCK_SIZE :: nat where "MEMCACHED_BLOCK_SIZE = 1024"

record memcached_string_st =
  str_buf :: "byte list option"
  str_end :: nat
  current_size :: nat
  str_is_allocated :: bool
  str_is_initialized :: bool

definition string_check ::
  "realloc_fn \<Rightarrow> memcached_string_st \<Rightarrow> nat \<Rightarrow> memcached_return_t \<times> memcached_string_st" where
  "string_check realloc string need =
     (let avail = size_sub (current_size string) (str_end string)
      in if need \<noteq> 0 \<and> avail < need
         then
           let adjust = size_sub need avail div MEMCACHED_BLOCK_SIZE + 1;
               new_size = (adjust * MEMCACHED_BLOCK_SIZE + current_size string) mod 2 ^ 64
           in if new_size < need then (MEMCACHED_MEMORY_ALLOCATION_FAILURE, string)
              else (case realloc (str_buf string) new_size of
                      None \<Rightarrow> (MEMCACHED_MEMORY_ALLOCATION_FAILURE, string)
                    | Some new_value \<Rightarrow>
                        (MEMCACHED_SUCCESS,
                         string\<lparr>str_buf := Some new_value,
                                current_size :=
                                  (current_size string + MEMCACHED_BLOCK_SIZE * adjust) mod 2 ^ 64\<rparr>))
         else (MEMCACHED_SUCCESS, string))"

definition init_string :: "memcached_string_st \<Rightarrow> memcached_string_st" where
  "init_string self = self\<lparr>current_size := 0, str_end := 0, str_buf := None\<rparr>"

text \<open>
  The created string, and whether \<open>libmemcached_free\<close> was called on \<open>self\<close>. \<open>malloc\<close> is the block
  for the structure, with arbitrary contents.
\<close>

definition memcached_string_create ::
  "realloc_fn \<Rightarrow> memcached_string_st option \<Rightarrow> memcached_string_st option \<Rightarrow> nat
   \<Rightarrow> memcached_string_st option \<times> bool" where
  "memcached_string_create realloc malloc self initial_size =
     (let self' = (case self of
                     Some s \<Rightarrow> Some (s\<lparr>str_is_allocated := False\<rparr>)
                   | None \<Rightarrow> map_option (\<lambda>s. s\<lparr>str_is_allocated := True\<rparr>) malloc)
      in case self' of
           None \<Rightarrow> (None, False)
         | Some s \<Rightarrow>
             (case string_check realloc (init_string s) initial_size of
                (rc, s) \<Rightarrow>
                  if rc \<noteq> MEMCACHED_SUCCESS then (None, True)
                  else (Some (s\<lparr>str_is_initialized := True\<rparr>), False)))"

definition memcached_string_append_character ::
  "realloc_fn \<Rightarrow> memcached_string_st \<Rightarrow> byte \<Rightarrow> memcached_return_t \<times> memcached_string_st" where
  "memcached_string_append_character realloc string character =
     (case string_check realloc string 1 of
        (rc, s) \<Rightarrow>
          if rc \<noteq> MEMCACHED_SUCCESS then (rc, s)
          else (MEMCACHED_SUCCESS,
                s\<lparr>str_buf := map_option (\<lambda>b. b[str_end s := character]) (str_buf s),
                  str_end := str_end s + 1\<rparr>))"

definition memcached_string_append ::
  "realloc_fn \<Rightarrow> memcached_string_st \<Rightarrow> byte list \<Rightarrow> memcached_return_t \<times> memcached_string_st" where
  "memcached_string_append realloc string value =
     (case string_check realloc string (length value) of
        (rc, s) \<Rightarrow>
          if rc \<noteq> MEMCACHED_SUCCESS then (rc, s)
          else (MEMCACHED_SUCCESS,
                s\<lparr>str_buf := map_option (\<lambda>b. memcpy_at b (str_end s) value) (str_buf s),
                  str_end := str_end s + length value\<rparr>))"

definition memcached_string_length :: "memcached_string_st \<Rightarrow> nat" where
  "memcached_string_length self = str_end self"

definition memcached_string_size :: "memcached_string_st \<Rightarrow> nat" where
  "memcached_string_size self = current_size self"

definition memcached_string_value :: "memcached_string_st \<Rightarrow> byte list option" where
  "memcached_string_value self = str_buf self"

definition memcached_string_c_copy :: "bool \<Rightarrow> memcached_string_st \<Rightarrow> byte list option" where
  "memcached_string_c_copy malloc_succeeds string =
     (if memcached_string_length string = 0 then None
      else if \<not> malloc_succeeds then None
      else Some (take (memcached_string_length string) (block (memcached_string_value string)) @ [0]))"

definition memcached_string_reset :: "memcached_string_st \<Rightarrow> memcached_string_st" where
  "memcached_string_reset string = string\<lparr>str_end := 0\<rparr>"

text \<open>
  Whether the block and the structure are freed, and the structure left behind when it is not.
\<close>

definition memcached_string_free ::
  "memcached_string_st \<Rightarrow> bool \<times> bool \<times> memcached_string_st option" where
  "memcached_string_free ptr =
     (str_buf ptr \<noteq> None, str_is_allocated ptr,
      if str_is_allocated ptr then None else Some (ptr\<lparr>str_is_initialized := False\<rparr>))"

definition memcached_string_check ::
  "realloc_fn \<Rightarrow> memcached_string_st \<Rightarrow> nat \<Rightarrow> memcached_return_t \<times> memcached_string_st" where
  "memcached_string_check realloc string need = string_check realloc string need"

definition memcached_string_set_length :: "memcached_string_st \<Rightarrow> nat \<Rightarrow> memcached_string_st" where
  "memcached_string_set_length self len = self\<lparr>str_end := len\<rparr>"

subsection \<open>Well-formed strings and what an operation does to the contents\<close>

definition string_wf :: "memcached_string_st \<Rightarrow> bool" where
  "string_wf s \<longleftrightarrow>
     length (block (str_buf s)) = current_size s \<and> str_end s \<le> current_size s \<and> current_size s < 2 ^ 63"

definition string_contents :: "memcached_string_st \<Rightarrow> byte list" where
  "string_contents s = take (str_end s) (block (str_buf s))"

text \<open>The growth computation: the new size does not wrap unless the overflow test catches it.\<close>

lemma grow_size:
  assumes "e \<le> c" and "c < 2 ^ 63" and "need < 2 ^ 64" and "c - e < need"
  defines "n \<equiv> ((size_sub need (size_sub c e) div 1024 + 1) * 1024 + c) mod 2 ^ 64"
  assumes "need \<le> n"
  shows "n = (need - (c - e)) div 1024 * 1024 + 1024 + c" and "need \<le> n - e" and "c \<le> n"
proof -
  define d where "d = need - (c - e)"
  define q where "q = d div 1024 * 1024"
  have sub: "size_sub need (size_sub c e) = d"
    using assms(1-4) by (simp add: size_sub_le d_def)
  have d: "need + e = d + c"
    using assms(1,4) by (simp add: d_def)
  have q: "q \<le> d" "d < q + 1024"
    using div_mult_mod_eq [of d 1024] mod_less_divisor [of 1024 d] unfolding q_def by linarith+
  define t where "t = q + 1024 + c"
  have n: "n = t mod 2 ^ 64"
    by (simp add: n_def sub t_def q_def algebra_simps)
  have t: "t \<le> need + e + 1024" "need + e < t"
    using q d by (simp_all add: t_def)
  have "t < 2 ^ 64"
  proof (rule ccontr)
    assume "\<not> t < 2 ^ 64"
    then have ge: "2 ^ 64 \<le> t" by (simp only: not_less)
    have "t - 2 ^ 64 < need"
      using t ge assms(1,2) by simp
    moreover have "n = t - 2 ^ 64"
      unfolding n le_mod_geq [OF ge] by (rule mod_less) (use \<open>t - 2 ^ 64 < need\<close> assms(3) in simp)
    ultimately show False using assms(6) by simp
  qed
  then have nt: "n = t" unfolding n by (rule mod_less)
  then show "n = (need - (c - e)) div 1024 * 1024 + 1024 + c"
    by (simp only: t_def q_def d_def)
  show "need \<le> n - e" "c \<le> n"
    unfolding nt using t by (simp_all add: t_def)
qed

lemma string_check_cases:
  assumes "realloc_ok realloc" and wf: "string_wf s" and need: "need < 2 ^ 64"
    and r: "string_check realloc s need = (rc, s')"
  shows "(rc = MEMCACHED_MEMORY_ALLOCATION_FAILURE \<and> s' = s) \<or>
         (rc = MEMCACHED_SUCCESS \<and> string_wf s' \<and> string_contents s' = string_contents s \<and>
          str_end s' = str_end s \<and> need \<le> current_size s' - str_end s' \<and>
          current_size s \<le> current_size s')"
proof -
  let ?e = "str_end s" and ?c = "current_size s"
  have wf': "?e \<le> ?c" "?c < 2 ^ 63" "length (block (str_buf s)) = ?c"
    using wf by (simp_all add: string_wf_def)
  then have avail: "size_sub ?c ?e = ?c - ?e" by (simp add: size_sub_le)
  let ?n = "((size_sub need (size_sub ?c ?e) div 1024 + 1) * 1024 + ?c) mod 2 ^ 64"
  consider (fits) "need = 0 \<or> need \<le> ?c - ?e" | (overflow) "?c - ?e < need" "?n < need"
    | (grow) "?c - ?e < need" "need \<le> ?n"
    by linarith
  then show ?thesis
  proof cases
    case fits
    then have "string_check realloc s need = (MEMCACHED_SUCCESS, s)"
      by (auto simp: string_check_def Let_def avail)
    with r fits wf show ?thesis by auto
  next
    case overflow
    then show ?thesis
      using r by (auto simp: string_check_def Let_def avail MEMCACHED_BLOCK_SIZE_def)
  next
    case grow
    note n = grow_size [OF wf'(1,2) need grow]
    show ?thesis
    proof (cases "realloc (str_buf s) ?n")
      case None
      with grow r show ?thesis
        by (auto simp: string_check_def Let_def avail MEMCACHED_BLOCK_SIZE_def)
    next
      case (Some new)
      from assms(1) Some have new: "length new = ?n" "?n < 2 ^ 63"
        "take (min ?c ?n) new = take (min ?c ?n) (block (str_buf s))"
        unfolding realloc_ok_def by (auto simp: wf'(3) dest!: spec)
      from new(3) n(3) have "take ?c new = take ?c (block (str_buf s))"
        by (simp add: min_def)
      then have keep: "take ?e new = take ?e (block (str_buf s))"
        using wf'(1) by (metis min.absorb1 take_take)
      have "rc = MEMCACHED_SUCCESS" "s' = s\<lparr>str_buf := Some new, current_size := ?n\<rparr>"
        using r grow Some
        by (auto simp: string_check_def Let_def avail MEMCACHED_BLOCK_SIZE_def ac_simps)
      with keep new n wf' show ?thesis
        by (auto simp: string_wf_def string_contents_def)
    qed
  qed
qed

lemma string_append_cases:
  assumes "realloc_ok realloc" and "string_wf s" and "length xs < 2 ^ 64"
    and r: "memcached_string_append realloc s xs = (rc, s')"
  shows "(rc = MEMCACHED_MEMORY_ALLOCATION_FAILURE \<and> s' = s) \<or>
         (rc = MEMCACHED_SUCCESS \<and> string_wf s' \<and> string_contents s' = string_contents s @ xs)"
proof -
  obtain rc1 s1 where c: "string_check realloc s (length xs) = (rc1, s1)"
    by (cases "string_check realloc s (length xs)")
  from string_check_cases [OF assms(1-3) c] show ?thesis
  proof
    assume "rc1 = MEMCACHED_MEMORY_ALLOCATION_FAILURE \<and> s1 = s"
    with r c show ?thesis by (simp add: memcached_string_append_def)
  next
    assume ok: "rc1 = MEMCACHED_SUCCESS \<and> string_wf s1 \<and> string_contents s1 = string_contents s \<and>
      str_end s1 = str_end s \<and> length xs \<le> current_size s1 - str_end s1 \<and> current_size s \<le> current_size s1"
    then have room: "str_end s1 + length xs \<le> length (block (str_buf s1))"
      by (auto simp: string_wf_def)
    have s': "rc = MEMCACHED_SUCCESS"
      "s' = s1\<lparr>str_buf := map_option (\<lambda>b. memcpy_at b (str_end s1) xs) (str_buf s1),
               str_end := str_end s1 + length xs\<rparr>"
      using r c ok by (simp_all add: memcached_string_append_def)
    show ?thesis
      using ok room unfolding s'
      by (cases "str_buf s1") (auto simp: string_wf_def string_contents_def take_memcpy_at_end)
  qed
qed

lemma string_append_character:
  assumes "realloc_ok realloc" and "string_wf s"
  shows "memcached_string_append_character realloc s c = memcached_string_append realloc s [c]"
proof -
  obtain rc1 s1 where r: "string_check realloc s 1 = (rc1, s1)"
    by (cases "string_check realloc s 1")
  from string_check_cases [OF assms _ r] have "rc1 = MEMCACHED_SUCCESS \<longrightarrow> str_end s1 < length (block (str_buf s1))"
    by (auto simp: string_wf_def)
  with r show ?thesis
    by (cases "str_buf s1") (auto simp: memcached_string_append_character_def
      memcached_string_append_def memcpy_at_def upd_conv_take_nth_drop)
qed

text \<open>With a correct allocator the string is a growing buffer.\<close>

locale heap_allocator =
  fixes realloc :: realloc_fn
  assumes realloc: "realloc_ok realloc"

sublocale heap_allocator \<subseteq> byte_buffer string_wf string_contents
  "memcached_string_append realloc" memcached_string_reset
proof unfold_locales
  fix s xs rc s'
  assume a: "string_wf s" "length xs < 2 ^ 64" "memcached_string_append realloc s xs = (rc, s')"
  note c = string_append_cases [OF realloc a]
  show "string_wf s'" using c a(1) by auto
  show "rc \<noteq> MEMCACHED_SUCCESS \<Longrightarrow> rc = MEMCACHED_MEMORY_ALLOCATION_FAILURE \<and> s' = s"
    using c by auto
next
  fix s xs s'
  assume a: "string_wf s" "length xs < 2 ^ 64"
    "memcached_string_append realloc s xs = (MEMCACHED_SUCCESS, s')"
  from string_append_cases [OF realloc a]
  show "string_contents s' = string_contents s @ xs" by auto
next
  fix s assume "string_wf s"
  then show "string_wf (memcached_string_reset s) \<and> string_contents (memcached_string_reset s) = []"
    by (simp add: string_wf_def string_contents_def memcached_string_reset_def)
qed

context heap_allocator
begin

lemmas string_append_all = append_all_contents

end

text \<open>
  The allocators of \<open>allocators.c\<close> call the C library; this is its \<open>realloc\<close> on a machine where
  blocks of up to \<open>limit\<close> bytes can be had, new bytes being zero.
\<close>

definition libmemcached_realloc :: "nat \<Rightarrow> realloc_fn" where
  "libmemcached_realloc limit old n =
     (if n \<le> limit \<and> n < 2 ^ 63
      then Some (take n (block old) @ replicate (n - length (block old)) 0) else None)"

lemma libmemcached_realloc_ok: "realloc_ok (libmemcached_realloc limit)"
  by (auto simp: realloc_ok_def libmemcached_realloc_def min_def split: if_splits)

interpretation default_string: heap_allocator "libmemcached_realloc limit" for limit
  by unfold_locales (rule libmemcached_realloc_ok)

lemma string_create_wf:
  assumes "realloc_ok realloc" and "n < 2 ^ 64"
    and "memcached_string_create realloc malloc self n = (Some s, freed)"
  shows "string_wf s \<and> string_contents s = [] \<and> n \<le> current_size s \<and> \<not> freed"
proof -
  have wf0: "string_wf (init_string s0) \<and> string_contents (init_string s0) = [] \<and> str_end (init_string s0) = 0"
    for s0 by (simp add: string_wf_def string_contents_def init_string_def)
  from assms(3) obtain s0 s1 where c: "string_check realloc (init_string s0) n = (MEMCACHED_SUCCESS, s1)"
    and s: "s = s1\<lparr>str_is_initialized := True\<rparr>" "\<not> freed"
    by (auto simp: memcached_string_create_def Let_def split: option.splits prod.splits if_splits)
  from string_check_cases [OF assms(1) _ assms(2) c] wf0 [of s0] s show ?thesis
    by (auto simp: string_wf_def string_contents_def)
qed

text \<open>
  C22: appending pieces to a fresh string gives their concatenation, up to the first piece for
  which there is no memory; the string stays well-formed, so that no append writes out of its
  block.
\<close>

lemma string_append_pieces:
  assumes "realloc_ok realloc"
    and "memcached_string_create realloc malloc self n = (Some s, freed)" and "n < 2 ^ 64"
    and "\<forall>xs \<in> set xss. length xs < 2 ^ 64"
    and "append_all (memcached_string_append realloc) s xss = (rc, s')"
  shows "string_wf s' \<and> (\<exists>k \<le> length xss. string_contents s' = concat (take k xss) \<and>
           (rc = MEMCACHED_SUCCESS \<longleftrightarrow> k = length xss))"
  using string_create_wf [OF assms(1,3,2)]
    heap_allocator.string_append_all [OF heap_allocator.intro [OF assms(1)] _ assms(4,5)]
  by simp

lemma string_append_pieces_witness:
  "string_contents (snd (append_all (memcached_string_append (libmemcached_realloc 4096))
     (the (fst (memcached_string_create (libmemcached_realloc 4096) None
        (Some \<lparr>str_buf = None, str_end = 0, current_size = 0, str_is_allocated = True,
               str_is_initialized = False\<rparr>) 0)))
     [[86, 65], [76], [32]])) = [86, 65, 76, 32]"
proof -
  let ?s = "\<lparr>str_buf = None, str_end = 0, current_size = 0, str_is_allocated = False,
             str_is_initialized = True\<rparr>"
  let ?r = "append_all (memcached_string_append (libmemcached_realloc 4096)) ?s [[86, 65], [76], [32]]"
  have c: "memcached_string_create (libmemcached_realloc 4096) None
        (Some \<lparr>str_buf = None, str_end = 0, current_size = 0, str_is_allocated = True,
               str_is_initialized = False\<rparr>) 0 = (Some ?s, False)"
    by (simp add: memcached_string_create_def string_check_def init_string_def)
  have rc: "fst ?r = MEMCACHED_SUCCESS"
    by (simp add: memcached_string_append_def string_check_def size_sub_def libmemcached_realloc_def
        MEMCACHED_BLOCK_SIZE_def)
  from string_append_pieces [OF libmemcached_realloc_ok c, of "[[86, 65], [76], [32]]" "fst ?r" "snd ?r"]
  show ?thesis unfolding c using rc by auto
qed

text \<open>
  when the block of the initial size cannot be had, \<open>memcached_string_create\<close> frees the
  structure, also when it is the caller's own and was never allocated by the library.
\<close>

lemma string_create_frees_caller:
  "memcached_string_create (\<lambda>old n. None) malloc (Some self) n = (None, True) \<longleftrightarrow> n \<noteq> 0"
  by (simp add: memcached_string_create_def string_check_def init_string_def size_sub_def Let_def)

section \<open>\<open>result.c\<close>\<close>

record memcached_result_st =
  item_flags :: u32
  item_expiration :: int
  key_length :: nat
  item_cas :: u64
  result_value_st :: memcached_string_st
  item_key :: "byte list"
  result_is_allocated :: bool
  result_is_initialized :: bool

definition result_init :: "memcached_result_st \<Rightarrow> memcached_result_st" where
  "result_init self =
     self\<lparr>item_flags := 0, item_expiration := 0, key_length := 0, item_cas := 0,
          item_key := (item_key self)[0 := 0]\<rparr>"

text \<open>
  The string of a result is created with no initial size, so that creating it cannot fail.
\<close>

definition memcached_result_create ::
  "realloc_fn \<Rightarrow> memcached_result_st option \<Rightarrow> memcached_result_st option \<Rightarrow> memcached_result_st option" where
  "memcached_result_create realloc malloc ptr =
     (let p = (case ptr of
                 Some r \<Rightarrow> Some (r\<lparr>result_is_allocated := False\<rparr>)
               | None \<Rightarrow> map_option (\<lambda>r. r\<lparr>result_is_allocated := True\<rparr>) malloc)
      in case p of
           None \<Rightarrow> None
         | Some r \<Rightarrow>
             (let r = result_init (r\<lparr>result_is_initialized := True\<rparr>)
              in case memcached_string_create realloc None (Some (result_value_st r)) 0 of
                   (Some s, freed) \<Rightarrow> Some (r\<lparr>result_value_st := s\<rparr>)
                 | (None, freed) \<Rightarrow> Some r))"

definition memcached_result_reset :: "memcached_result_st \<Rightarrow> memcached_result_st" where
  "memcached_result_reset ptr =
     ptr\<lparr>key_length := 0, result_value_st := memcached_string_reset (result_value_st ptr),
         item_flags := 0, item_cas := 0, item_expiration := 0\<rparr>"

text \<open>The blocks freed (value, string, result) and the object left behind.\<close>

definition memcached_result_free ::
  "memcached_result_st \<Rightarrow> bool \<times> bool \<times> bool \<times> memcached_result_st option" where
  "memcached_result_free ptr =
     (case memcached_string_free (result_value_st ptr) of
        (block_freed, string_freed, s) \<Rightarrow>
          (block_freed, string_freed, result_is_allocated ptr,
           if result_is_allocated ptr then None
           else Some (ptr\<lparr>result_value_st := (case s of None \<Rightarrow> result_value_st ptr | Some s \<Rightarrow> s),
                          result_is_initialized := False\<rparr>)))"

definition memcached_result_set_value ::
  "realloc_fn \<Rightarrow> memcached_result_st \<Rightarrow> byte list \<Rightarrow> memcached_return_t \<times> memcached_result_st" where
  "memcached_result_set_value realloc ptr value =
     (case memcached_string_append realloc (result_value_st ptr) value of
        (rc, s) \<Rightarrow> (rc, ptr\<lparr>result_value_st := s\<rparr>))"

definition memcached_result_key_value :: "memcached_result_st \<Rightarrow> byte list option" where
  "memcached_result_key_value self = (if key_length self \<noteq> 0 then Some (item_key self) else None)"

definition memcached_result_key_length :: "memcached_result_st \<Rightarrow> nat" where
  "memcached_result_key_length self = key_length self"

definition memcached_result_value :: "memcached_result_st \<Rightarrow> byte list option" where
  "memcached_result_value self = memcached_string_value (result_value_st self)"

definition memcached_result_length :: "memcached_result_st \<Rightarrow> nat" where
  "memcached_result_length self = memcached_string_length (result_value_st self)"

definition memcached_result_flags :: "memcached_result_st \<Rightarrow> u32" where
  "memcached_result_flags self = item_flags self"

definition memcached_result_cas :: "memcached_result_st \<Rightarrow> u64" where
  "memcached_result_cas self = item_cas self"

definition memcached_result_set_flags :: "memcached_result_st \<Rightarrow> u32 \<Rightarrow> memcached_result_st" where
  "memcached_result_set_flags self flags = self\<lparr>item_flags := flags\<rparr>"

definition memcached_result_set_expiration :: "memcached_result_st \<Rightarrow> int \<Rightarrow> memcached_result_st" where
  "memcached_result_set_expiration self expiration = self\<lparr>item_expiration := expiration\<rparr>"

end
