(* ===== verification/Servers.thy ===== *)
theory Servers
  imports Memc_String
begin

text \<open>
  Servers and lists of servers: \<open>server.c\<close>, \<open>server_list.c\<close>, \<open>parse.c\<close>, \<open>key.c\<close> and the UDP header of
  \<open>io.c\<close>. A server list is the array it points to; its length in hosts is the field
  \<open>number_of_hosts\<close> of the first element, as in the code. Memory a server is created in has
  arbitrary contents (an argument), and allocation is a predicate on the number of servers asked
  for. The output buffers are byte lists; sockets and addresses are left out.
\<close>

section \<open>Keys\<close>

definition memcached_validate_key_length :: "nat \<Rightarrow> bool \<Rightarrow> memcached_return_t" where
  "memcached_validate_key_length key_len binary =
     (if key_len = 0 then MEMCACHED_BAD_KEY_PROVIDED
      else if binary
           then (if key_len > 0xffff then MEMCACHED_BAD_KEY_PROVIDED else MEMCACHED_SUCCESS)
           else (if key_len \<ge> MEMCACHED_MAX_KEY then MEMCACHED_BAD_KEY_PROVIDED else MEMCACHED_SUCCESS))"

fun key_test_bytes :: "byte list \<Rightarrow> memcached_return_t" where
  "key_test_bytes [] = MEMCACHED_SUCCESS"
| "key_test_bytes (c # key) = (if \<not> isgraph c then MEMCACHED_BAD_KEY_PROVIDED else key_test_bytes key)"

fun memcached_key_test :: "byte list list \<Rightarrow> memcached_return_t" where
  "memcached_key_test [] = MEMCACHED_SUCCESS"
| "memcached_key_test (key # keys) =
     (let rc = memcached_validate_key_length (length key) False
      in if rc \<noteq> MEMCACHED_SUCCESS then rc
         else if key_test_bytes key \<noteq> MEMCACHED_SUCCESS then MEMCACHED_BAD_KEY_PROVIDED
         else memcached_key_test keys)"

section \<open>Servers\<close>

record memcached_server_st =
  server_is_allocated :: bool
  server_is_initialized :: bool
  sockaddr_inited :: bool
  is_shutting_down :: bool
  number_of_hosts :: u32
  cursor_active :: u32
  port :: u16
  cached_errno :: int
  fd :: int
  io_bytes_sent :: u32
  server_failure_counter :: u32
  weight :: u32
  is_corked :: bool
  is_dead :: bool
  major_version :: u8
  micro_version :: u8
  minor_version :: u8
  conn_type :: memcached_connection_t
  read_ptr :: nat
  cached_server_error :: "byte list option"
  read_buffer_length :: nat
  read_data_length :: nat
  write_buffer_offset :: nat
  address_info :: "nat option"
  next_retry :: int
  limit_maxbytes :: u64
  read_buffer :: "byte list"
  write_buffer :: "byte list"
  hostname :: "byte list"

definition NI_MAXHOST :: nat where "NI_MAXHOST = 1025"

text \<open>\<open>strncpy(dst, src, n)\<close> on an array of which \<open>dst\<close> is the contents.\<close>

definition strncpy :: "byte list \<Rightarrow> byte list \<Rightarrow> nat \<Rightarrow> byte list" where
  "strncpy dst src n = take n (c_str src @ replicate n 0) @ drop n dst"

text \<open>
  \<open>retry_timeout\<close> is the field of the root object, or \<open>None\<close> when the server has no root.
\<close>

definition server_init ::
  "memcached_server_st \<Rightarrow> int option \<Rightarrow> byte list option \<Rightarrow> u16 \<Rightarrow> u32 \<Rightarrow> memcached_connection_t
   \<Rightarrow> memcached_server_st" where
  "server_init self retry_timeout host p w t =
     self\<lparr>sockaddr_inited := False, is_shutting_down := False, number_of_hosts := 0,
          cursor_active := 0, port := p, cached_errno := 0, fd := - 1, io_bytes_sent := 0,
          server_failure_counter := 0, weight := w, is_corked := False, is_dead := False,
          major_version := 0, micro_version := 0, minor_version := 0, conn_type := t,
          read_ptr := 0, cached_server_error := None, read_buffer_length := 0,
          read_data_length := 0, write_buffer_offset := 0, address_info := None,
          next_retry := (case retry_timeout of Some r \<Rightarrow> r | None \<Rightarrow> 0),
          limit_maxbytes := 0,
          hostname := (case host of
                         None \<Rightarrow> (hostname self)[0 := 0]
                       | Some h \<Rightarrow> strncpy (hostname self) h (NI_MAXHOST - 1))\<rparr>"

subsection \<open>The UDP header (\<open>io.c\<close>, \<open>io.h\<close>)\<close>

definition UDP_DATAGRAM_HEADER_LENGTH :: nat where "UDP_DATAGRAM_HEADER_LENGTH = 8"
definition UDP_REQUEST_ID_MSG_SIG_DIGITS :: nat where "UDP_REQUEST_ID_MSG_SIG_DIGITS = 10"

text \<open>
  The macros compute in \<open>int\<close>, on values that fit 32 bits: \<open>0xFFFF << 10\<close> is the thread mask.
\<close>

definition UDP_REQUEST_ID_THREAD_MASK :: u32 where
  "UDP_REQUEST_ID_THREAD_MASK = push_bit UDP_REQUEST_ID_MSG_SIG_DIGITS 0xFFFF"

definition get_msg_num_from_request_id :: "u32 \<Rightarrow> u32" where
  "get_msg_num_from_request_id a = a AND NOT UDP_REQUEST_ID_THREAD_MASK"

text \<open>
  \<open>(A) & (MASK) >> DIGITS\<close>: the macro body is \<open>( (A) & (0xFFFF << 10) ) >> 10\<close>, with the mask in
  parentheses.
\<close>

definition get_thread_id_from_request_id :: "u32 \<Rightarrow> u32" where
  "get_thread_id_from_request_id a = drop_bit UDP_REQUEST_ID_MSG_SIG_DIGITS (a AND UDP_REQUEST_ID_THREAD_MASK)"

definition generate_udp_request_thread_id :: "u32 \<Rightarrow> u32" where
  "generate_udp_request_thread_id a = push_bit UDP_REQUEST_ID_MSG_SIG_DIGITS a"

definition UDP_REQUEST_ID_MAX_THREAD_ID :: u32 where
  "UDP_REQUEST_ID_MAX_THREAD_ID = get_thread_id_from_request_id 0xFFFF"

text \<open>
  The header is laid over the write buffer: request id, sequence number and number of
  datagrams, big endian; the reserved field is not written.
\<close>

definition memcached_io_init_udp_header ::
  "memcached_server_st \<Rightarrow> u16 \<Rightarrow> memcached_return_t \<times> memcached_server_st" where
  "memcached_io_init_udp_header ptr thread_id =
     (if UDP_REQUEST_ID_MAX_THREAD_ID < ucast thread_id then (MEMCACHED_FAILURE, ptr)
      else
        let request_id = ucast (generate_udp_request_thread_id (ucast thread_id)) :: u16;
            b = memcpy_at (write_buffer ptr) 0 (st_le16 (bswap16 request_id));
            b = memcpy_at b 4 (st_le16 (bswap16 1));
            b = memcpy_at b 2 (st_le16 (bswap16 0))
        in (MEMCACHED_SUCCESS, ptr\<lparr>write_buffer := b\<rparr>))"

definition next_request_id :: "u16 \<Rightarrow> u16" where
  "next_request_id cur_req =
     (let msg_num = get_msg_num_from_request_id (ucast cur_req);
          thread_id = get_thread_id_from_request_id (ucast cur_req);
          msg_num = msg_num + 1;
          msg_num = (if msg_num AND UDP_REQUEST_ID_THREAD_MASK \<noteq> 0 then 0 else msg_num)
      in ucast (thread_id OR msg_num))"

definition increment_udp_message_id :: "memcached_server_st \<Rightarrow> memcached_server_st" where
  "increment_udp_message_id ptr =
     (let cur_req = bswap16 (ld_le16 (write_buffer ptr) 0)
      in ptr\<lparr>write_buffer := memcpy_at (write_buffer ptr) 0 (st_le16 (bswap16 (next_request_id cur_req)))\<rparr>)"

subsection \<open>Creation, cloning\<close>

text \<open>
  \<open>self\<close> is the caller's memory, or \<open>None\<close> for \<open>NULL\<close>, when \<open>malloc\<close> gives the block.
\<close>

definition server_create ::
  "memcached_server_st option \<Rightarrow> memcached_server_st option \<Rightarrow> memcached_server_st option" where
  "server_create malloc self =
     (case self of
        None \<Rightarrow> map_option (\<lambda>s. s\<lparr>server_is_allocated := True, server_is_initialized := True\<rparr>) malloc
      | Some s \<Rightarrow> Some (s\<lparr>server_is_allocated := False, server_is_initialized := True\<rparr>))"

definition memcached_server_create_with ::
  "memcached_server_st option \<Rightarrow> int option \<Rightarrow> memcached_server_st option \<Rightarrow> byte list option
   \<Rightarrow> u16 \<Rightarrow> u32 \<Rightarrow> memcached_connection_t \<Rightarrow> memcached_server_st option" where
  "memcached_server_create_with malloc retry_timeout self host p w t =
     (case server_create malloc self of
        None \<Rightarrow> None
      | Some s \<Rightarrow>
          (let s = server_init s retry_timeout host p w t
           in if t = MEMCACHED_CONNECTION_UDP
              then Some (snd (memcached_io_init_udp_header
                                (s\<lparr>write_buffer_offset := UDP_DATAGRAM_HEADER_LENGTH\<rparr>) 0))
              else Some s))"

definition memcached_server_clone ::
  "memcached_server_st option \<Rightarrow> int option \<Rightarrow> memcached_server_st option \<Rightarrow> memcached_server_st option
   \<Rightarrow> memcached_server_st option" where
  "memcached_server_clone malloc retry_timeout destination source =
     (case source of
        None \<Rightarrow> None
      | Some src \<Rightarrow>
          map_option
            (\<lambda>d. d\<lparr>cached_errno := cached_errno src,
                   cached_server_error := (case cached_server_error src of
                                             Some e \<Rightarrow> Some e
                                           | None \<Rightarrow> cached_server_error d)\<rparr>)
            (memcached_server_create_with malloc retry_timeout destination (Some (hostname src))
               (port src) (weight src) (conn_type src)))"

definition memcached_server_name :: "memcached_server_st \<Rightarrow> byte list" where
  "memcached_server_name self = c_str (hostname self)"

definition memcached_server_port :: "memcached_server_st \<Rightarrow> u16" where
  "memcached_server_port self = port self"

definition memcached_server_response_count :: "memcached_server_st \<Rightarrow> u32" where
  "memcached_server_response_count self = cursor_active self"

definition memcached_server_error :: "memcached_server_st option \<Rightarrow> byte list option" where
  "memcached_server_error p = (case p of Some s \<Rightarrow> cached_server_error s | None \<Rightarrow> None)"

section \<open>Server lists\<close>

type_synonym server_list = "memcached_server_st list option"

definition memcached_server_list_count :: "server_list \<Rightarrow> u32" where
  "memcached_server_list_count self = (case self of None \<Rightarrow> 0 | Some l \<Rightarrow> number_of_hosts (l ! 0))"

definition memcached_servers_set_count :: "memcached_server_st list \<Rightarrow> u32 \<Rightarrow> memcached_server_st list" where
  "memcached_servers_set_count servers count = servers[0 := (servers ! 0)\<lparr>number_of_hosts := count\<rparr>]"

text \<open>
  \<open>junk\<close> is what a fresh array element contains, \<open>can_alloc n\<close> whether an array of \<open>n\<close> servers can
  be had. The result is the new list and what is stored in \<open>*error\<close>; the caller's array is kept
  by \<open>realloc\<close> in the first \<open>count - 1\<close> places.
\<close>

definition memcached_server_list_append_with_weight ::
  "memcached_server_st \<Rightarrow> (nat \<Rightarrow> bool) \<Rightarrow> server_list \<Rightarrow> byte list option \<Rightarrow> u16 \<Rightarrow> u32
   \<Rightarrow> server_list \<times> memcached_return_t option" where
  "memcached_server_list_append_with_weight junk can_alloc ptr host p w =
     (case host of
        None \<Rightarrow> (None, None)
      | Some h \<Rightarrow>
         (let p = (if p = 0 then of_nat MEMCACHED_DEFAULT_PORT else p);
              count = 1 + (case ptr of None \<Rightarrow> 0 | Some l \<Rightarrow> memcached_server_list_count ptr);
              n = unat count
          in if \<not> can_alloc n then (None, Some MEMCACHED_MEMORY_ALLOCATION_FAILURE)
             else
               let old = (case ptr of None \<Rightarrow> [] | Some l \<Rightarrow> l);
                   arr = take n (old @ replicate n junk);
                   arr = (case memcached_server_create_with None None (Some (arr ! (n - 1))) (Some h) p w
                                 MEMCACHED_CONNECTION_TCP of
                            Some s \<Rightarrow> arr[n - 1 := s]
                          | None \<Rightarrow> arr)
               in (Some (memcached_servers_set_count arr count), Some MEMCACHED_SUCCESS)))"

definition memcached_server_list_append ::
  "memcached_server_st \<Rightarrow> (nat \<Rightarrow> bool) \<Rightarrow> server_list \<Rightarrow> byte list option \<Rightarrow> u16
   \<Rightarrow> server_list \<times> memcached_return_t option" where
  "memcached_server_list_append junk can_alloc ptr host p =
     memcached_server_list_append_with_weight junk can_alloc ptr host p 0"

section \<open>Parsing a list of servers (\<open>parse.c\<close>)\<close>

definition HUGE_STRING_LEN :: nat where "HUGE_STRING_LEN = 8196"

text \<open>One segment, a C string in the local buffer: the host, the port and the weight.\<close>

definition parse_server :: "byte list \<Rightarrow> byte list \<times> u16 \<times> u32" where
  "parse_server buf =
     (case index_of 58 buf of
        None \<Rightarrow> (buf, 0, 0)
      | Some i \<Rightarrow>
         (let p = drop (i + 1) buf;
              prt = ucast (strtoul10 p);
              ptr2 = (case index_of 32 p of Some j \<Rightarrow> Some j | None \<Rightarrow> index_of 58 p);
              wt = (case ptr2 of Some j \<Rightarrow> ucast (strtoul10 (drop (j + 1) p)) | None \<Rightarrow> 0)
          in (take i buf, prt, wt)))"

lemma index_of_less: "index_of c s = Some i \<Longrightarrow> i < length s"
  by (induction s arbitrary: i) (auto split: if_splits)

text \<open>
  The loop, on the rest of the string from \<open>begin_ptr\<close>. \<open>None\<close>: a segment does not fit the local
  buffer of \<open>HUGE_STRING_LEN\<close> bytes with its terminator, and the copy writes behind it.
\<close>

function parse_loop ::
  "memcached_server_st \<Rightarrow> (nat \<Rightarrow> bool) \<Rightarrow> byte list \<Rightarrow> server_list \<Rightarrow> server_list option" where
  "parse_loop junk can_alloc rest servers =
     (if rest = [] then Some servers
      else
        let (seg, rest1) = (case index_of 44 rest of
                              Some i \<Rightarrow> (take i rest, drop (i + 1) rest)
                            | None \<Rightarrow> (rest, []))
        in if HUGE_STRING_LEN \<le> length seg then None
           else
             let (host, p, w) = parse_server seg;
                 servers1 = fst (memcached_server_list_append_with_weight junk can_alloc servers (Some host) p w)
             in parse_loop junk can_alloc
                  (if rest1 \<noteq> [] \<and> isspace (hd rest1) then tl rest1 else rest1) servers1)"
  by pat_completeness auto
termination
proof (relation "measure (\<lambda>(junk, can_alloc, rest, servers). length rest)", goal_cases)
  case (2 junk can_alloc rest servers x seg rest1)
  then have "length rest1 < length rest"
    by (cases "index_of 44 rest") (auto dest: index_of_less)
  then show ?case by (cases rest1) auto
qed simp

declare parse_loop.simps [simp del]

definition memcached_servers_parse ::
  "memcached_server_st \<Rightarrow> (nat \<Rightarrow> bool) \<Rightarrow> byte list \<Rightarrow> server_list option" where
  "memcached_servers_parse junk can_alloc server_strings =
     parse_loop junk can_alloc (c_str server_strings) None"

subsection \<open>What appending and parsing give\<close>

definition server_addr :: "memcached_server_st \<Rightarrow> byte list \<times> u16 \<times> u32 \<times> memcached_connection_t" where
  "server_addr s = (memcached_server_name s, port s, weight s, conn_type s)"

definition list_addrs :: "server_list \<Rightarrow> (byte list \<times> u16 \<times> u32 \<times> memcached_connection_t) list" where
  "list_addrs l = (case l of None \<Rightarrow> [] | Some arr \<Rightarrow> map server_addr arr)"

definition list_wf :: "server_list \<Rightarrow> bool" where
  "list_wf l = (case l of None \<Rightarrow> True
                | Some arr \<Rightarrow> arr \<noteq> [] \<and> length arr < 2 ^ 32 \<and> number_of_hosts (arr ! 0) = of_nat (length arr))"

text \<open>A host name a server can hold: a C string shorter than the array, which is long enough.\<close>

definition host_ok :: "byte list \<Rightarrow> bool" where
  "host_ok h \<longleftrightarrow> 0 \<notin> set h \<and> length h < NI_MAXHOST - 1"

lemma c_str_no_nul: "0 \<notin> set h \<Longrightarrow> c_str h = h"
  unfolding c_str_def by (rule takeWhile_eq_all_conv [THEN iffD2]) auto

lemma c_str_append_nul: "0 \<notin> set h \<Longrightarrow> c_str (h @ 0 # t) = h"
  by (induction h) (auto simp: c_str_def)

lemma c_str_strncpy:
  assumes "host_ok h"
  shows "c_str (strncpy dst h (NI_MAXHOST - 1)) = h"
proof -
  have h: "0 \<notin> set h" "length h < NI_MAXHOST - 1" using assms by (simp_all add: host_ok_def)
  then have "take (NI_MAXHOST - 1) (h @ replicate (NI_MAXHOST - 1) 0)
      = h @ 0 # replicate (NI_MAXHOST - 2 - length h) 0"
    by (simp add: Suc_diff_Suc NI_MAXHOST_def flip: replicate_Suc)
  then show ?thesis
    using h by (simp add: strncpy_def c_str_no_nul c_str_append_nul)
qed

lemma server_addr_simps [simp]:
  "server_addr (s\<lparr>number_of_hosts := n\<rparr>) = server_addr s"
  "server_addr (s\<lparr>write_buffer := b\<rparr>) = server_addr s"
  "server_addr (s\<lparr>write_buffer_offset := i\<rparr>) = server_addr s"
  by (simp_all add: server_addr_def memcached_server_name_def)

lemma server_addr_init:
  "host_ok h \<Longrightarrow> server_addr (server_init s r (Some h) p w t) = (h, p, w, t)"
  by (simp add: server_addr_def server_init_def memcached_server_name_def c_str_strncpy [simplified])

lemma server_addr_create_with:
  assumes "host_ok h"
  shows "\<exists>s'. memcached_server_create_with malloc r (Some s) (Some h) p w t = Some s' \<and>
              server_addr s' = (h, p, w, t)"
  using assms
  by (auto simp: memcached_server_create_with_def server_create_def Let_def server_addr_init
        memcached_io_init_udp_header_def)

lemma map_server_addr_update_hd:
  "map server_addr (arr[0 := (arr ! 0)\<lparr>number_of_hosts := n\<rparr>]) = map server_addr arr"
  by (cases arr) simp_all

lemma unat_count: "length l < 2 ^ 32 - 1 \<Longrightarrow> unat (1 + of_nat (length l) :: u32) = Suc (length l)"
  using unat_of_nat [of "Suc (length l)", where 'a = 32] by simp

lemma list_append_addrs:
  assumes wf: "list_wf l" and room: "length (list_addrs l) < 2 ^ 32 - 1"
    and alloc: "can_alloc (Suc (length (list_addrs l)))" and h: "host_ok h"
  shows "\<exists>arr. memcached_server_list_append_with_weight junk can_alloc l (Some h) p w
           = (Some arr, Some MEMCACHED_SUCCESS) \<and> list_wf (Some arr) \<and>
         list_addrs (Some arr) = list_addrs l @
           [(h, if p = 0 then of_nat MEMCACHED_DEFAULT_PORT else p, w, MEMCACHED_CONNECTION_TCP)]"
proof -
  define old where "old = (case l of None \<Rightarrow> [] | Some arr \<Rightarrow> arr)"
  have addrs: "list_addrs l = map server_addr old"
    by (simp add: old_def list_addrs_def split: option.splits)
  have count: "1 + (case l of None \<Rightarrow> 0 | Some arr \<Rightarrow> memcached_server_list_count l) = (1 + of_nat (length old) :: u32)"
    using wf by (auto simp: old_def list_wf_def memcached_server_list_count_def split: option.splits)
  have n: "unat (1 + of_nat (length old) :: u32) = Suc (length old)"
    using room by (intro unat_count) (simp add: addrs)
  let ?p = "if p = 0 then of_nat MEMCACHED_DEFAULT_PORT else p"
  obtain s where s: "memcached_server_create_with None None (Some junk) (Some h) ?p w
      MEMCACHED_CONNECTION_TCP = Some s" "server_addr s = (h, ?p, w, MEMCACHED_CONNECTION_TCP)"
    using server_addr_create_with [OF h] by blast
  let ?arr = "memcached_servers_set_count (old @ [s]) (1 + of_nat (length old))"
  have "memcached_server_list_append_with_weight junk can_alloc l (Some h) p w = (Some ?arr, Some MEMCACHED_SUCCESS)"
    using alloc s(1)
    by (simp add: memcached_server_list_append_with_weight_def Let_def count n addrs
        old_def [symmetric] nth_append)
  moreover have "list_wf (Some ?arr)"
    using room by (auto simp: list_wf_def memcached_servers_set_count_def addrs nth_list_update)
  moreover have "list_addrs (Some ?arr) = list_addrs l @ [(h, ?p, w, MEMCACHED_CONNECTION_TCP)]"
    unfolding addrs
    by (simp add: list_addrs_def memcached_servers_set_count_def map_server_addr_update_hd s(2)
       )
  ultimately show ?thesis by blast
qed

text \<open>Printing a list of servers in the syntax of \<open>memcached_servers_parse\<close>.\<close>

type_synonym server_spec = "byte list \<times> u16 \<times> u32"

fun print_server :: "server_spec \<Rightarrow> byte list" where
  "print_server (h, p, w) = h @ 58 # dec_digits (unat p) @ 58 # dec_digits (unat w)"

fun print_servers :: "server_spec list \<Rightarrow> byte list" where
  "print_servers [] = []"
| "print_servers [s] = print_server s"
| "print_servers (s # ss) = print_server s @ 44 # print_servers ss"

fun spec_ok :: "server_spec \<Rightarrow> bool" where
  "spec_ok (h, p, w) \<longleftrightarrow>
     h \<noteq> [] \<and> \<not> isspace (hd h) \<and> host_ok h \<and> 58 \<notin> set h \<and> 44 \<notin> set h \<and> p \<noteq> 0"

fun spec_addr :: "server_spec \<Rightarrow> byte list \<times> u16 \<times> u32 \<times> memcached_connection_t" where
  "spec_addr (h, p, w) = (h, p, w, MEMCACHED_CONNECTION_TCP)"

lemma index_of_append: "c \<notin> set xs \<Longrightarrow> index_of c (xs @ c # ys) = Some (length xs)"
  by (induction xs) auto

lemma index_of_none: "c \<notin> set xs \<Longrightarrow> index_of c xs = None"
  by (induction xs) auto

lemma digits_no: "c \<in> {0, 32, 44, 58} \<Longrightarrow> c \<notin> set (dec_digits n)"
  using dec_digits_isdigit isdigit_not by blast

lemma strtoul10_printed:
  "strtoul10 (dec_digits n @ 58 # rest) = of_nat n" "strtoul10 (dec_digits n) = of_nat n"
  if "n < 2 ^ 64"
  using strtoul10_dec_digits [OF that, of "58 # rest"] strtoul10_dec_digits [OF that, of "[]"]
  by (simp_all add: isdigit_def)

lemma ucast_of_unat:
  "(ucast (ucast p :: u64) :: u16) = p" "(ucast (ucast w :: u64) :: u32) = w"
  by (rule bit_word_eqI, auto simp: bit_simps)+

lemma parse_print_server:
  assumes "spec_ok (h, p, w)"
  shows "parse_server (print_server (h, p, w)) = (h, p, w)"
proof -
  have h: "58 \<notin> set h" using assms by simp
  have lt: "unat p < 2 ^ 64" "unat w < 2 ^ 64"
    using unsigned_less [of p, where 'a = nat] unsigned_less [of w, where 'a = nat] by simp_all
  have "index_of 32 (dec_digits (unat p) @ 58 # dec_digits (unat w)) = None"
    by (rule index_of_none) (simp add: digits_no)
  moreover have "index_of 58 (dec_digits (unat p) @ 58 # dec_digits (unat w))
      = Some (length (dec_digits (unat p)))"
    by (rule index_of_append) (simp add: digits_no)
  ultimately show ?thesis
    by (simp add: parse_server_def index_of_append [OF h] Let_def strtoul10_printed [OF lt(1)]
        strtoul10_printed [OF lt(2)] ucast_of_unat)
qed

lemma spec_props:
  assumes "spec_ok s"
  shows "44 \<notin> set (print_server s)" "0 \<notin> set (print_server s)" "print_server s \<noteq> []"
    "\<not> isspace (hd (print_server s))"
  using assms digits_no [of 44] digits_no [of 0] by (cases s; auto simp: host_ok_def)+

lemma parse_print_loop:
  assumes "\<forall>s \<in> set ss. spec_ok s \<and> length (print_server s) < HUGE_STRING_LEN"
    and "list_wf l" and "length (list_addrs l) + length ss < 2 ^ 32" and "\<forall>n. can_alloc n"
  shows "\<exists>r. parse_loop junk can_alloc (print_servers ss) l = Some r \<and> list_wf r \<and>
             list_addrs r = list_addrs l @ map spec_addr ss"
  using assms(1-3)
proof (induction ss arbitrary: l rule: print_servers.induct)
  case 1
  then show ?case by (simp add: parse_loop.simps)
next
  case (2 s)
  obtain h p w where s: "s = (h, p, w)" by (cases s)
  from 2 have ok: "spec_ok (h, p, w)" by (simp add: s)
  note pr = spec_props [OF ok]
  obtain arr where a: "memcached_server_list_append_with_weight junk can_alloc l (Some h) p w
      = (Some arr, Some MEMCACHED_SUCCESS)" "list_wf (Some arr)"
    "list_addrs (Some arr) = list_addrs l @ [(h, p, w, MEMCACHED_CONNECTION_TCP)]"
    using list_append_addrs [of l can_alloc h junk p w] 2 ok assms(4) by auto
  have "parse_loop junk can_alloc (print_server (h, p, w)) l = parse_loop junk can_alloc [] (Some arr)"
    using 2 pr parse_print_server [OF ok] a(1)
    by (subst parse_loop.simps) (simp add: index_of_none s)
  with a show ?case by (simp add: s parse_loop.simps [of _ _ "[]"])
next
  case (3 s s' ss)
  obtain h p w where s: "s = (h, p, w)" by (cases s)
  from 3 have ok: "spec_ok (h, p, w)" by (simp add: s)
  note pr = spec_props [OF ok]
  obtain arr where a: "memcached_server_list_append_with_weight junk can_alloc l (Some h) p w
      = (Some arr, Some MEMCACHED_SUCCESS)" "list_wf (Some arr)"
    "list_addrs (Some arr) = list_addrs l @ [(h, p, w, MEMCACHED_CONNECTION_TCP)]"
    using list_append_addrs [of l can_alloc h junk p w] 3 ok assms(4) by auto
  let ?rest = "print_servers (s' # ss)"
  have nospace: "\<not> isspace (hd ?rest)"
    using 3(2) spec_props [of s'] by (cases ss) auto
  have "parse_loop junk can_alloc (print_server (h, p, w) @ 44 # ?rest) l
      = parse_loop junk can_alloc ?rest (Some arr)"
    using 3(2) pr(3) parse_print_server [OF ok] a(1) nospace index_of_append [OF pr(1), of ?rest]
    by (subst parse_loop.simps) (simp add: s Let_def del: print_server.simps)
  with a 3(1) [of "Some arr"] 3(2-) show ?case by (simp add: s)
qed

lemma print_servers_no_nul: "\<forall>s \<in> set ss. spec_ok s \<Longrightarrow> 0 \<notin> set (print_servers ss)"
  by (induction ss rule: print_servers.induct) (auto dest: spec_props(2))

text \<open>
  C21: parsing a printed list of servers gives the servers, in order, when each segment fits the
  parser's buffer.
\<close>

lemma servers_parse_print:
  assumes "\<forall>s \<in> set ss. spec_ok s \<and> length (print_server s) < HUGE_STRING_LEN"
    and "length ss < 2 ^ 32" and "\<forall>n. can_alloc n"
  shows "\<exists>r. memcached_servers_parse junk can_alloc (print_servers ss) = Some r \<and>
             list_addrs r = map spec_addr ss \<and>
             memcached_server_list_count r = of_nat (length ss)"
proof -
  have nul: "0 \<notin> set (print_servers ss)"
    using assms(1) by (intro print_servers_no_nul) blast
  obtain r where r: "parse_loop junk can_alloc (print_servers ss) None = Some r" "list_wf r"
    "list_addrs r = map spec_addr ss"
    using parse_print_loop [of ss None can_alloc junk] assms by (auto simp: list_wf_def list_addrs_def)
  have "length (list_addrs r) = length ss" by (simp add: r(3))
  then have "memcached_server_list_count r = of_nat (length ss)"
    using r(2) by (auto simp: memcached_server_list_count_def list_wf_def list_addrs_def split: option.splits)
  with r show ?thesis
    by (simp add: memcached_servers_parse_def c_str_no_nul [OF nul])
qed

text \<open>Memory of zeros, for a server.\<close>

definition zero_server :: memcached_server_st where
  "zero_server =
     \<lparr>server_is_allocated = False, server_is_initialized = False, sockaddr_inited = False,
      is_shutting_down = False, number_of_hosts = 0, cursor_active = 0, port = 0, cached_errno = 0,
      fd = 0, io_bytes_sent = 0, server_failure_counter = 0, weight = 0, is_corked = False,
      is_dead = False, major_version = 0, micro_version = 0, minor_version = 0,
      conn_type = MEMCACHED_CONNECTION_UNKNOWN, read_ptr = 0, cached_server_error = None,
      read_buffer_length = 0, read_data_length = 0, write_buffer_offset = 0, address_info = None,
      next_retry = 0, limit_maxbytes = 0, read_buffer = replicate 8196 0,
      write_buffer = replicate 8196 0,
      hostname = replicate 1025 0\<rparr>"

lemma servers_parse_print_witness:
  "\<exists>r. memcached_servers_parse zero_server (\<lambda>n. True)
         (print_servers [(bytes ''db1'', 11212, 3), (bytes ''10.0.0.7'', 11211, 0)]) = Some r \<and>
       list_addrs r = [(bytes ''db1'', 11212, 3, MEMCACHED_CONNECTION_TCP),
                       (bytes ''10.0.0.7'', 11211, 0, MEMCACHED_CONNECTION_TCP)] \<and>
       memcached_server_list_count r = 2"
  using servers_parse_print [of "[(bytes ''db1'', 11212, 3), (bytes ''10.0.0.7'', 11211, 0)]"
      "\<lambda>n. True" zero_server]
  by (simp add: bytes_def host_ok_def NI_MAXHOST_def isspace_def HUGE_STRING_LEN_def dec_digits.simps)

text \<open>
  a segment of \<open>HUGE_STRING_LEN\<close> bytes or more overruns the parser's stack buffer; nothing
  checks its length.
\<close>

lemma servers_parse_overrun:
  "memcached_servers_parse junk can_alloc (replicate n 97) = None \<longleftrightarrow> HUGE_STRING_LEN \<le> n"
proof -
  have c: "c_str (replicate n 97) = replicate n 97"
    by (rule c_str_no_nul) simp
  have i: "index_of 44 (replicate n 97) = None" by (rule index_of_none) simp
  show ?thesis
    by (cases "n = 0")
       (simp_all add: memcached_servers_parse_def c c_str_def parse_loop.simps [of _ _ "replicate n 97"]
          parse_loop.simps [of _ _ "[]"] i HUGE_STRING_LEN_def case_prod_beta)
qed

lemma key_test_bytes_iff: "key_test_bytes key = MEMCACHED_SUCCESS \<longleftrightarrow> list_all isgraph key"
  by (induction key) auto

text \<open>
  a list of keys passes \<open>memcached_key_test\<close> exactly when each has between 1 and 250 bytes, all of
  them graphic characters.
\<close>

lemma key_test_correct:
  "memcached_key_test keys =
     (if list_all (\<lambda>key. 0 < length key \<and> length key \<le> 250 \<and> list_all isgraph key) keys
      then MEMCACHED_SUCCESS else MEMCACHED_BAD_KEY_PROVIDED)"
  by (induction keys)
     (auto simp: memcached_validate_key_length_def key_test_bytes_iff MEMCACHED_MAX_KEY_def Let_def)

subsection \<open>UDP request ids\<close>

lemma thread_mask: "UDP_REQUEST_ID_THREAD_MASK = 0x3FFFC00"
  by (simp add: UDP_REQUEST_ID_THREAD_MASK_def UDP_REQUEST_ID_MSG_SIG_DIGITS_def push_bit_eq_mult)

lemma bit_thread_mask: "bit UDP_REQUEST_ID_THREAD_MASK n \<longleftrightarrow> 10 \<le> n \<and> n < 26"
proof -
  have m: "(0xFFFF :: u32) = mask 16" by (simp add: mask_numeral)
  show ?thesis
    unfolding UDP_REQUEST_ID_THREAD_MASK_def UDP_REQUEST_ID_MSG_SIG_DIGITS_def m
    by (auto simp: bit_simps)
qed

lemma less_1024_bits: "(x :: u32) < 1024 \<Longrightarrow> 10 \<le> n \<Longrightarrow> \<not> bit x n"
proof -
  assume "x < 1024" "10 \<le> n"
  then have "take_bit 10 x = x"
    by (simp add: take_bit_eq_mod word_less_nat_alt unat_mod word_arith_nat_mod)
  with \<open>10 \<le> n\<close> show ?thesis by (metis bit_take_bit_iff not_less)
qed

lemma thread_mask_less: "x < 1024 \<Longrightarrow> x AND UDP_REQUEST_ID_THREAD_MASK = 0"
  by (rule bit_word_eqI) (auto simp: bit_simps bit_thread_mask less_1024_bits)

lemma next_request_id_thread:
  "get_thread_id_from_request_id (ucast (next_request_id r)) = 0"
proof -
  have m: "\<not> bit m n" if "m AND UDP_REQUEST_ID_THREAD_MASK = 0" "10 \<le> n" "n < 26" for m :: u32 and n
    using that by (metis bit_0_eq bit_and_iff bit_thread_mask bot_apply bot_bool_def)
  show ?thesis
    by (rule bit_word_eqI)
       (auto split: if_splits dest: bit_imp_le_length
          simp: get_thread_id_from_request_id_def next_request_id_def Let_def bit_simps bit_thread_mask
            UDP_REQUEST_ID_MSG_SIG_DIGITS_def get_msg_num_from_request_id_def m)
qed

lemma next_request_id_count:
  assumes "r < 1024"
  shows "unat (next_request_id r) = (unat r + 1) mod 1024"
proof -
  have ur: "unat (ucast r :: u32) = unat r" 
    using unsigned_less [of r, where 'a = nat] by (simp add: unsigned_ucast_eq take_bit_nat_eq_self_iff)
  have r: "(ucast r :: u32) < 1024" "unat r < 1024"
    using assms by (simp_all add: word_less_nat_alt ur)
  have t: "get_thread_id_from_request_id (ucast r) = 0"
    using thread_mask_less [OF r(1)] by (simp add: get_thread_id_from_request_id_def)
  have m: "get_msg_num_from_request_id (ucast r) = ucast r"
    unfolding get_msg_num_from_request_id_def
    by (rule bit_word_eqI) (use less_1024_bits [OF r(1)] in \<open>auto simp: bit_simps bit_thread_mask\<close>)
  show ?thesis
  proof (cases "r = 1023")
    case True
    then show ?thesis
      using t m by (simp add: True next_request_id_def thread_mask)
  next
    case False
    then have "unat r + 1 < 1024"
      using r(2) by (simp add: word_unat_eq_iff)
    moreover from this have u: "unat (ucast r + 1 :: u32) = unat r + 1"
      by (simp add: unat_word_ariths ur)
    ultimately have "(ucast r + 1 :: u32) < 1024"
      by (simp add: word_less_nat_alt)
    then have "next_request_id r = ucast (ucast r + 1 :: u32)"
      using thread_mask_less by (simp add: next_request_id_def t m)
    then have "unat (next_request_id r) = (unat r + 1) mod 65536"
      by (simp add: unsigned_ucast_eq u take_bit_eq_mod)
    with \<open>unat r + 1 < 1024\<close> show ?thesis by simp
  qed
qed

text \<open>
  the message number of a UDP request counts modulo 1024 for a request of thread 0, but
  incrementing the number clears the thread id of every other request.
\<close>

lemma udp_message_id:
  "get_thread_id_from_request_id (ucast (next_request_id r)) = 0 \<and>
   (1024 \<le> r \<or> unat (next_request_id r) = (unat r + 1) mod 1024)"
  using next_request_id_thread next_request_id_count by (metis not_le)

end
