(* ===== verification/Hashkit_Hashes.thy ===== *)
theory Hashkit_Hashes
  imports Prelude
begin

text \<open>
  The non-cryptographic hash functions of libhashkit: \<open>one_at_a_time.c\<close>, \<open>fnv.c\<close>, \<open>crc32.c\<close>,
  \<open>hsieh.c\<close>, \<open>murmur.c\<close> and \<open>jenkins.c\<close>. A key is the list of its bytes; \<open>char\<close> is signed on the
  target, so \<open>(uint32_t) key[x]\<close> is \<open>scast\<close> and reads through \<open>uint8_t *\<close> are \<open>ucast\<close>. The unused
  \<open>context\<close> argument is left out. The interface \<open>stream_hash\<close> captures the hashes that fold a
  reversible step over the bytes; it is interpreted for the one-at-a-time hash and three of the
  FNV hashes.
\<close>

unbundle bit_operations_syntax

section \<open>Hashes that fold a reversible step over the key\<close>

locale stream_hash =
  fixes init :: 's
    and step :: "'s \<Rightarrow> 'b \<Rightarrow> 's"
    and fin :: "'s \<Rightarrow> u32"
  assumes step_state: "step s c = step t c \<Longrightarrow> s = t"
    and step_byte: "step s c = step s d \<Longrightarrow> c = d"
    and fin_state: "fin s = fin t \<Longrightarrow> s = t"
begin

lemma run_state: "foldl step s xs = foldl step t xs \<Longrightarrow> s = t"
  by (induction xs arbitrary: s t) (auto dest: step_state)

lemma common_suffix:
  "fin (foldl step init (p @ s)) = fin (foldl step init (q @ s)) \<longleftrightarrow>
   fin (foldl step init p) = fin (foldl step init q)"
  by (auto dest!: fin_state run_state)

lemma single_byte:
  assumes "c \<noteq> d"
  shows "fin (foldl step init (p @ c # s)) \<noteq> fin (foldl step init (p @ d # s))"
  using assms by (auto dest!: fin_state run_state step_byte)

end

section \<open>\<open>one_at_a_time.c\<close>\<close>

definition one_at_a_time_step :: "u32 \<Rightarrow> byte \<Rightarrow> u32" where
  "one_at_a_time_step value0 c =
     (let val = scast c;
          value1 = value0 + val;
          value2 = value1 + push_bit 10 value1
      in value2 XOR drop_bit 6 value2)"

fun one_at_a_time_loop :: "byte list \<Rightarrow> u32 \<Rightarrow> u32" where
  "one_at_a_time_loop [] v = v"
| "one_at_a_time_loop (c # ptr) v = one_at_a_time_loop ptr (one_at_a_time_step v c)"

definition one_at_a_time_final :: "u32 \<Rightarrow> u32" where
  "one_at_a_time_final value0 =
     (let value1 = value0 + push_bit 3 value0;
          value2 = value1 XOR drop_bit 11 value1
      in value2 + push_bit 15 value2)"

definition hashkit_one_at_a_time :: "byte list \<Rightarrow> u32" where
  "hashkit_one_at_a_time key = one_at_a_time_final (one_at_a_time_loop key 0)"

lemma one_at_a_time_loop_foldl: "one_at_a_time_loop key v = foldl one_at_a_time_step v key"
  by (induction key arbitrary: v) simp_all

lemma shift_add_10: "(v :: u32) + push_bit 10 v = 1025 * v"
  by (simp add: push_bit_eq_mult algebra_simps)

lemma shift_add_3: "(v :: u32) + push_bit 3 v = 9 * v"
  by (simp add: push_bit_eq_mult algebra_simps)

lemma shift_add_15: "(v :: u32) + push_bit 15 v = 32769 * v"
  by (simp add: push_bit_eq_mult algebra_simps)

lemma unit_mult_inj [word_inj]:
  "1025 * x = 1025 * y \<Longrightarrow> x = (y :: u32)"
  "9 * x = 9 * y \<Longrightarrow> x = (y :: u32)"
  "32769 * x = 32769 * y \<Longrightarrow> x = (y :: u32)"
  "16777619 * x = 16777619 * y \<Longrightarrow> x = (y :: u32)"
  "435 * x = 435 * y \<Longrightarrow> x = (y :: u32)"
proof -
  note inj = mult_unit_inj [where 'a = 32]
  show "1025 * x = 1025 * y \<Longrightarrow> x = (y :: u32)"
    by (rule inj [of 3222273025 1025]) simp_all
  show "9 * x = 9 * y \<Longrightarrow> x = (y :: u32)"
    by (rule inj [of 954437177 9]) simp_all
  show "32769 * x = 32769 * y \<Longrightarrow> x = (y :: u32)"
    by (rule inj [of 1073709057 32769]) simp_all
  show "16777619 * x = 16777619 * y \<Longrightarrow> x = (y :: u32)"
    by (rule inj [of 899433627 16777619]) simp_all
  show "435 * x = 435 * y \<Longrightarrow> x = (y :: u32)"
    by (rule inj [of 2952172923 435]) simp_all
qed

lemma one_at_a_time_step_eq:
  "one_at_a_time_step v c = (let w = 1025 * (v + scast c) in w XOR drop_bit 6 w)"
  unfolding one_at_a_time_step_def Let_def shift_add_10 ..

lemma one_at_a_time_final_eq:
  "one_at_a_time_final v = (let w = 9 * v in 32769 * (w XOR drop_bit 11 w))"
  unfolding one_at_a_time_final_def Let_def shift_add_3 shift_add_15 ..

lemma one_at_a_time_step_inj:
  "one_at_a_time_step v c = one_at_a_time_step w d \<Longrightarrow> v + scast c = w + scast d"
  unfolding one_at_a_time_step_eq Let_def
  by (drule xorshift_inj [rotated], simp, erule unit_mult_inj)

lemma one_at_a_time_final_inj: "one_at_a_time_final v = one_at_a_time_final w \<Longrightarrow> v = w"
  unfolding one_at_a_time_final_eq Let_def
  by (drule unit_mult_inj(3), drule xorshift_inj [rotated], simp, erule unit_mult_inj)

interpretation oaat: stream_hash 0 one_at_a_time_step one_at_a_time_final
proof unfold_locales
  show "one_at_a_time_step s c = one_at_a_time_step t c \<Longrightarrow> s = t" for s t c
    by (drule one_at_a_time_step_inj) simp
  show "one_at_a_time_step s c = one_at_a_time_step s d \<Longrightarrow> c = d" for s c d
    by (drule one_at_a_time_step_inj) (simp add: scast_byte_inj32)
  show "one_at_a_time_final s = one_at_a_time_final t \<Longrightarrow> s = t" for s t
    by (rule one_at_a_time_final_inj)
qed

lemma hashkit_one_at_a_time_eq:
  "hashkit_one_at_a_time key = one_at_a_time_final (foldl one_at_a_time_step 0 key)"
  by (simp add: hashkit_one_at_a_time_def one_at_a_time_loop_foldl)

section \<open>\<open>fnv.c\<close>\<close>

definition FNV_64_INIT :: u64 where "FNV_64_INIT = 0xcbf29ce484222325"
definition FNV_64_PRIME :: u64 where "FNV_64_PRIME = 0x100000001b3"
definition FNV_32_INIT :: u32 where "FNV_32_INIT = 2166136261"
definition FNV_32_PRIME :: u32 where "FNV_32_PRIME = 16777619"

fun fnv1_64_loop :: "byte list \<Rightarrow> u64 \<Rightarrow> u64" where
  "fnv1_64_loop [] hash = hash"
| "fnv1_64_loop (c # key) hash = fnv1_64_loop key ((hash * FNV_64_PRIME) XOR scast c)"

definition hashkit_fnv1_64 :: "byte list \<Rightarrow> u32" where
  "hashkit_fnv1_64 key = ucast (fnv1_64_loop key FNV_64_INIT)"

fun fnv1a_64_loop :: "byte list \<Rightarrow> u32 \<Rightarrow> u32" where
  "fnv1a_64_loop [] hash = hash"
| "fnv1a_64_loop (c # key) hash =
     (let val = scast c in fnv1a_64_loop key ((hash XOR val) * ucast FNV_64_PRIME))"

definition hashkit_fnv1a_64 :: "byte list \<Rightarrow> u32" where
  "hashkit_fnv1a_64 key = fnv1a_64_loop key (ucast FNV_64_INIT)"

fun fnv1_32_loop :: "byte list \<Rightarrow> u32 \<Rightarrow> u32" where
  "fnv1_32_loop [] hash = hash"
| "fnv1_32_loop (c # key) hash =
     (let val = scast c in fnv1_32_loop key ((hash * FNV_32_PRIME) XOR val))"

definition hashkit_fnv1_32 :: "byte list \<Rightarrow> u32" where
  "hashkit_fnv1_32 key = fnv1_32_loop key FNV_32_INIT"

fun fnv1a_32_loop :: "byte list \<Rightarrow> u32 \<Rightarrow> u32" where
  "fnv1a_32_loop [] hash = hash"
| "fnv1a_32_loop (c # key) hash =
     (let val = scast c in fnv1a_32_loop key ((hash XOR val) * FNV_32_PRIME))"

definition hashkit_fnv1a_32 :: "byte list \<Rightarrow> u32" where
  "hashkit_fnv1a_32 key = fnv1a_32_loop key FNV_32_INIT"

lemma fnv1_32_foldl:
  "fnv1_32_loop key h = foldl (\<lambda>h c. (FNV_32_PRIME * h) XOR scast c) h key"
  by (induction key arbitrary: h) (simp_all add: mult.commute)

lemma fnv1a_32_foldl:
  "fnv1a_32_loop key h = foldl (\<lambda>h c. FNV_32_PRIME * (h XOR scast c)) h key"
  by (induction key arbitrary: h) (simp_all add: mult.commute)

lemma FNV_64_PRIME_32: "(ucast FNV_64_PRIME :: u32) = 435"
  by (simp add: FNV_64_PRIME_def)

lemma fnv1a_64_foldl:
  "fnv1a_64_loop key h = foldl (\<lambda>h c. 435 * (h XOR scast c)) h key"
  by (induction key arbitrary: h) (simp_all add: mult.commute FNV_64_PRIME_32)

lemma xor_right_inj: "z XOR x = z XOR y \<Longrightarrow> x = (y :: 'a::len word)"
  by (metis xor.commute xor_left_inj)

lemma xor_scast_inj: "(h :: u32) XOR scast (c :: byte) = h XOR scast d \<Longrightarrow> c = d"
  by (rule scast_byte_inj32) (rule xor_right_inj)

lemma fnv_mult_inj: "FNV_32_PRIME * x = FNV_32_PRIME * y \<Longrightarrow> x = y"
  unfolding FNV_32_PRIME_def by (rule unit_mult_inj(4))

interpretation fnv1: stream_hash FNV_32_INIT "\<lambda>h (c :: byte). (FNV_32_PRIME * h) XOR scast c" "\<lambda>h. h"
  by unfold_locales (blast dest: xor_left_inj fnv_mult_inj xor_scast_inj)+

interpretation fnv1a: stream_hash FNV_32_INIT "\<lambda>h (c :: byte). FNV_32_PRIME * (h XOR scast c)" "\<lambda>h. h"
  by unfold_locales (blast dest: xor_left_inj fnv_mult_inj xor_scast_inj)+

interpretation fnv1a64: stream_hash "ucast FNV_64_INIT" "\<lambda>h (c :: byte). 435 * (h XOR scast c)" "\<lambda>h. h"
  by unfold_locales (blast dest: xor_left_inj unit_mult_inj(5) xor_scast_inj)+

lemmas fnv_foldl =
  hashkit_fnv1_32_def hashkit_fnv1a_32_def hashkit_fnv1a_64_def
  fnv1_32_foldl fnv1a_32_foldl fnv1a_64_foldl

section \<open>\<open>hsieh.c\<close>\<close>

definition get16bits :: "byte \<Rightarrow> byte \<Rightarrow> u32" where
  "get16bits d0 d1 = push_bit 8 (ucast d1) + ucast d0"

fun hsieh_loop :: "byte list \<Rightarrow> u32 \<Rightarrow> u32 \<times> byte list" where
  "hsieh_loop (k0 # k1 # k2 # k3 # key) hash0 =
     (let hash1 = hash0 + get16bits k0 k1;
          tmp = push_bit 11 (get16bits k2 k3) XOR hash1;
          hash2 = push_bit 16 hash1 XOR tmp
      in hsieh_loop key (hash2 + drop_bit 11 hash2))"
| "hsieh_loop key hash = (hash, key)"

fun hsieh_tail :: "u32 \<Rightarrow> byte list \<Rightarrow> u32" where
  "hsieh_tail hash0 [k0, k1, k2] =
     (let hash1 = hash0 + get16bits k0 k1;
          hash2 = hash1 XOR push_bit 16 hash1;
          hash3 = hash2 XOR push_bit 18 (scast k2)
      in hash3 + drop_bit 11 hash3)"
| "hsieh_tail hash0 [k0, k1] =
     (let hash1 = hash0 + get16bits k0 k1;
          hash2 = hash1 XOR push_bit 11 hash1
      in hash2 + drop_bit 17 hash2)"
| "hsieh_tail hash0 [k0] =
     (let hash1 = hash0 + scast k0;
          hash2 = hash1 XOR push_bit 10 hash1
      in hash2 + drop_bit 1 hash2)"
| "hsieh_tail hash key = hash"

definition hsieh_avalanche :: "u32 \<Rightarrow> u32" where
  "hsieh_avalanche hash0 =
     (let hash1 = hash0 XOR push_bit 3 hash0;
          hash2 = hash1 + drop_bit 5 hash1;
          hash3 = hash2 XOR push_bit 4 hash2;
          hash4 = hash3 + drop_bit 17 hash3;
          hash5 = hash4 XOR push_bit 25 hash4
      in hash5 + drop_bit 6 hash5)"

definition hashkit_hsieh :: "byte list \<Rightarrow> u32" where
  "hashkit_hsieh key =
     (if key = [] then 0
      else case hsieh_loop key 0 of (hash, rest) \<Rightarrow> hsieh_avalanche (hsieh_tail hash rest))"

section \<open>\<open>murmur.c\<close>\<close>

definition murmur_m :: u32 where "murmur_m = 0x5bd1e995"

definition murmur_mix :: "u32 \<Rightarrow> u32 \<Rightarrow> u32" where
  "murmur_mix h k0 =
     (let k1 = k0 * murmur_m;
          k2 = k1 XOR drop_bit 24 k1;
          k3 = k2 * murmur_m
      in (h * murmur_m) XOR k3)"

fun murmur_loop :: "byte list \<Rightarrow> u32 \<Rightarrow> u32 \<times> byte list" where
  "murmur_loop (d0 # d1 # d2 # d3 # data) h = murmur_loop data (murmur_mix h (le32 d0 d1 d2 d3))"
| "murmur_loop data h = (h, data)"

fun murmur_tail :: "u32 \<Rightarrow> byte list \<Rightarrow> u32" where
  "murmur_tail h [d0, d1, d2] =
     (((h XOR push_bit 16 (ucast d2)) XOR push_bit 8 (ucast d1)) XOR ucast d0) * murmur_m"
| "murmur_tail h [d0, d1] = ((h XOR push_bit 8 (ucast d1)) XOR ucast d0) * murmur_m"
| "murmur_tail h [d0] = (h XOR ucast d0) * murmur_m"
| "murmur_tail h data = h"

definition murmur_final :: "u32 \<Rightarrow> u32" where
  "murmur_final h0 =
     (let h1 = h0 XOR drop_bit 13 h0;
          h2 = h1 * murmur_m
      in h2 XOR drop_bit 15 h2)"

definition hashkit_murmur :: "byte list \<Rightarrow> u32" where
  "hashkit_murmur key =
     (let seed = 0xdeadbeef * of_nat (length key);
          h = seed XOR of_nat (length key)
      in case murmur_loop key h of (h, data) \<Rightarrow> murmur_final (murmur_tail h data))"

lemma murmur_m_inj: "x * murmur_m = y * murmur_m \<Longrightarrow> x = y"
  by (rule mult_unit_inj [of 3852147133 murmur_m]) (simp_all add: murmur_m_def mult.commute)

lemma murmur_mix_state: "murmur_mix h k = murmur_mix h' k \<Longrightarrow> h = h'"
  unfolding murmur_mix_def Let_def by (drule xor_left_inj) (rule murmur_m_inj)

lemma murmur_mix_word: "murmur_mix h k = murmur_mix h k' \<Longrightarrow> k = k'"
  unfolding murmur_mix_def Let_def
  by (drule xor_right_inj, drule murmur_m_inj, drule xorshift_inj [rotated], simp,
      erule murmur_m_inj)

lemma murmur_final_inj: "murmur_final h = murmur_final h' \<Longrightarrow> h = h'"
  unfolding murmur_final_def Let_def
  by (drule xorshift_inj [rotated], simp, drule murmur_m_inj, drule xorshift_inj [rotated], simp)

interpretation murmur: stream_hash h murmur_mix murmur_final for h
  by unfold_locales (auto dest: murmur_mix_state murmur_mix_word murmur_final_inj)

definition murmur_run :: "u32 \<Rightarrow> byte list \<Rightarrow> u32" where
  "murmur_run h data = (case murmur_loop data h of (h, rest) \<Rightarrow> murmur_tail h rest)"

lemma murmur_run_simps:
  "murmur_run h (d0 # d1 # d2 # d3 # data) = murmur_run (murmur_mix h (le32 d0 d1 d2 d3)) data"
  "murmur_run h [] = h"
  "murmur_run h [d0] = (h XOR ucast d0) * murmur_m"
  "murmur_run h [d0, d1] = ((h XOR push_bit 8 (ucast d1)) XOR ucast d0) * murmur_m"
  "murmur_run h [d0, d1, d2] =
     (((h XOR push_bit 16 (ucast d2)) XOR push_bit 8 (ucast d1)) XOR ucast d0) * murmur_m"
  by (simp_all add: murmur_run_def)

lemma murmur_run_state: "murmur_run h data = murmur_run h' data \<Longrightarrow> h = h'"
  by (induction data h arbitrary: h' rule: murmur_loop.induct)
     (auto simp: murmur_run_simps dest!: murmur_m_inj dest: murmur_mix_state xor_left_inj)

lemma le32_inj: "le32 b0 b1 b2 b3 = le32 c0 c1 c2 c3 \<Longrightarrow> [b0, b1, b2, b3] = [c0, c1, c2, c3]"
  by (metis byte_of_le32(1,2,4,5))

lemma byte_lane_cancel:
  assumes "n \<le> 24"
  shows "push_bit n (ucast (b :: byte) :: u32) = push_bit n (ucast b') \<longleftrightarrow> b = b'"
proof
  assume eq: "push_bit n (ucast b :: u32) = push_bit n (ucast b')"
  show "b = b'"
  proof (rule bit_word_eqI)
    fix k :: nat
    assume "k < LENGTH(8)"
    with assms have "bit (push_bit n (ucast b :: u32)) (n + k) = bit b k"
      and "bit (push_bit n (ucast b' :: u32)) (n + k) = bit b' k"
      by (auto simp: bit_simps)
    with eq show "bit b k = bit b' k" by simp
  qed
qed simp

lemma byte_cancel: "(ucast (b :: byte) :: u32) = ucast b' \<longleftrightarrow> b = b'"
  using byte_lane_cancel [of 0] by simp

lemma xor_cancel:
  "x XOR z = y XOR z \<longleftrightarrow> x = (y :: 'a::len word)"
  "z XOR x = z XOR y \<longleftrightarrow> x = (y :: 'a::len word)"
  by (auto dest: xor_left_inj xor_right_inj)

lemma murmur_run_byte:
  assumes "murmur_run h (data[i := c]) = murmur_run h (data[i := d])" and "i < length data"
  shows "c = d"
  using assms
proof (induction data h arbitrary: i rule: murmur_loop.induct)
  case (1 d0 d1 d2 d3 data h)
  show ?case
  proof (cases "i < 4")
    case True
    then have "i = 0 \<or> i = 1 \<or> i = 2 \<or> i = 3" by auto
    with 1(2) show ?thesis
      by (auto simp: murmur_run_simps dest!: murmur_run_state murmur_mix_word le32_inj)
  next
    case False
    then obtain j where "i = Suc (Suc (Suc (Suc j)))"
      by (metis Suc_numeral add_2_eq_Suc less_eqE not_less numeral_2_eq_2 numeral_eq_Suc
          pred_numeral_simps(2,3) semiring_norm(26,27) add_Suc)
    with 1 show ?thesis by (auto simp: murmur_run_simps)
  qed
qed (auto simp: murmur_run_simps less_Suc_eq xor_cancel byte_lane_cancel byte_cancel
       dest!: murmur_m_inj)

lemma hashkit_murmur_run:
  "hashkit_murmur key =
   murmur_final (murmur_run ((0xdeadbeef * of_nat (length key)) XOR of_nat (length key)) key)"
  by (simp add: hashkit_murmur_def murmur_run_def Let_def split: prod.splits)

lemma murmur_byte:
  assumes "hashkit_murmur (p @ c # s) = hashkit_murmur (p @ d # s)"
  shows "c = d"
proof -
  let ?data = "p @ c # s"
  have upd: "?data[length p := c] = p @ c # s" "?data[length p := d] = p @ d # s"
    by (simp_all add: list_update_append)
  show ?thesis
    using assms murmur_run_byte [of _ ?data "length p" c d]
    unfolding hashkit_murmur_run upd by (auto dest: murmur_final_inj)
qed

text \<open>
  C32: two keys that differ in one byte only never collide under one-at-a-time, FNV-1 and FNV-1a (32 bits),
  FNV-1a (64 bits, folded) and Murmur: each step of these hashes is a bijection of the state.
\<close>

lemma single_byte_change:
  "(hashkit_one_at_a_time (p @ c # s) = hashkit_one_at_a_time (p @ d # s) \<longleftrightarrow> c = d) \<and>
   (hashkit_fnv1_32 (p @ c # s) = hashkit_fnv1_32 (p @ d # s) \<longleftrightarrow> c = d) \<and>
   (hashkit_fnv1a_32 (p @ c # s) = hashkit_fnv1a_32 (p @ d # s) \<longleftrightarrow> c = d) \<and>
   (hashkit_fnv1a_64 (p @ c # s) = hashkit_fnv1a_64 (p @ d # s) \<longleftrightarrow> c = d) \<and>
   (hashkit_murmur (p @ c # s) = hashkit_murmur (p @ d # s) \<longleftrightarrow> c = d)"
  unfolding hashkit_one_at_a_time_eq fnv_foldl
  using oaat.single_byte fnv1.single_byte fnv1a.single_byte fnv1a64.single_byte murmur_byte
  by blast

end
