(* ===== verification/Hashkit_CRC32.thy ===== *)
theory Hashkit_CRC32
  imports Prelude
begin

text \<open>
  \<open>libhashkit/crc32.c\<close>: the table-driven checksum, and its equivalence with the reflected
  CRC-32 polynomial division done one bit at a time.
\<close>

unbundle bit_operations_syntax

section \<open>\<open>crc32.c\<close>\<close>

definition crc32tab :: "u32 list" where
  "crc32tab =
  [0x00000000, 0x77073096, 0xee0e612c, 0x990951ba, 0x076dc419, 0x706af48f,
   0xe963a535, 0x9e6495a3, 0x0edb8832, 0x79dcb8a4, 0xe0d5e91e, 0x97d2d988,
   0x09b64c2b, 0x7eb17cbd, 0xe7b82d07, 0x90bf1d91, 0x1db71064, 0x6ab020f2,
   0xf3b97148, 0x84be41de, 0x1adad47d, 0x6ddde4eb, 0xf4d4b551, 0x83d385c7,
   0x136c9856, 0x646ba8c0, 0xfd62f97a, 0x8a65c9ec, 0x14015c4f, 0x63066cd9,
   0xfa0f3d63, 0x8d080df5, 0x3b6e20c8, 0x4c69105e, 0xd56041e4, 0xa2677172,
   0x3c03e4d1, 0x4b04d447, 0xd20d85fd, 0xa50ab56b, 0x35b5a8fa, 0x42b2986c,
   0xdbbbc9d6, 0xacbcf940, 0x32d86ce3, 0x45df5c75, 0xdcd60dcf, 0xabd13d59,
   0x26d930ac, 0x51de003a, 0xc8d75180, 0xbfd06116, 0x21b4f4b5, 0x56b3c423,
   0xcfba9599, 0xb8bda50f, 0x2802b89e, 0x5f058808, 0xc60cd9b2, 0xb10be924,
   0x2f6f7c87, 0x58684c11, 0xc1611dab, 0xb6662d3d, 0x76dc4190, 0x01db7106,
   0x98d220bc, 0xefd5102a, 0x71b18589, 0x06b6b51f, 0x9fbfe4a5, 0xe8b8d433,
   0x7807c9a2, 0x0f00f934, 0x9609a88e, 0xe10e9818, 0x7f6a0dbb, 0x086d3d2d,
   0x91646c97, 0xe6635c01, 0x6b6b51f4, 0x1c6c6162, 0x856530d8, 0xf262004e,
   0x6c0695ed, 0x1b01a57b, 0x8208f4c1, 0xf50fc457, 0x65b0d9c6, 0x12b7e950,
   0x8bbeb8ea, 0xfcb9887c, 0x62dd1ddf, 0x15da2d49, 0x8cd37cf3, 0xfbd44c65,
   0x4db26158, 0x3ab551ce, 0xa3bc0074, 0xd4bb30e2, 0x4adfa541, 0x3dd895d7,
   0xa4d1c46d, 0xd3d6f4fb, 0x4369e96a, 0x346ed9fc, 0xad678846, 0xda60b8d0,
   0x44042d73, 0x33031de5, 0xaa0a4c5f, 0xdd0d7cc9, 0x5005713c, 0x270241aa,
   0xbe0b1010, 0xc90c2086, 0x5768b525, 0x206f85b3, 0xb966d409, 0xce61e49f,
   0x5edef90e, 0x29d9c998, 0xb0d09822, 0xc7d7a8b4, 0x59b33d17, 0x2eb40d81,
   0xb7bd5c3b, 0xc0ba6cad, 0xedb88320, 0x9abfb3b6, 0x03b6e20c, 0x74b1d29a,
   0xead54739, 0x9dd277af, 0x04db2615, 0x73dc1683, 0xe3630b12, 0x94643b84,
   0x0d6d6a3e, 0x7a6a5aa8, 0xe40ecf0b, 0x9309ff9d, 0x0a00ae27, 0x7d079eb1,
   0xf00f9344, 0x8708a3d2, 0x1e01f268, 0x6906c2fe, 0xf762575d, 0x806567cb,
   0x196c3671, 0x6e6b06e7, 0xfed41b76, 0x89d32be0, 0x10da7a5a, 0x67dd4acc,
   0xf9b9df6f, 0x8ebeeff9, 0x17b7be43, 0x60b08ed5, 0xd6d6a3e8, 0xa1d1937e,
   0x38d8c2c4, 0x4fdff252, 0xd1bb67f1, 0xa6bc5767, 0x3fb506dd, 0x48b2364b,
   0xd80d2bda, 0xaf0a1b4c, 0x36034af6, 0x41047a60, 0xdf60efc3, 0xa867df55,
   0x316e8eef, 0x4669be79, 0xcb61b38c, 0xbc66831a, 0x256fd2a0, 0x5268e236,
   0xcc0c7795, 0xbb0b4703, 0x220216b9, 0x5505262f, 0xc5ba3bbe, 0xb2bd0b28,
   0x2bb45a92, 0x5cb36a04, 0xc2d7ffa7, 0xb5d0cf31, 0x2cd99e8b, 0x5bdeae1d,
   0x9b64c2b0, 0xec63f226, 0x756aa39c, 0x026d930a, 0x9c0906a9, 0xeb0e363f,
   0x72076785, 0x05005713, 0x95bf4a82, 0xe2b87a14, 0x7bb12bae, 0x0cb61b38,
   0x92d28e9b, 0xe5d5be0d, 0x7cdcefb7, 0x0bdbdf21, 0x86d3d2d4, 0xf1d4e242,
   0x68ddb3f8, 0x1fda836e, 0x81be16cd, 0xf6b9265b, 0x6fb077e1, 0x18b74777,
   0x88085ae6, 0xff0f6a70, 0x66063bca, 0x11010b5c, 0x8f659eff, 0xf862ae69,
   0x616bffd3, 0x166ccf45, 0xa00ae278, 0xd70dd2ee, 0x4e048354, 0x3903b3c2,
   0xa7672661, 0xd06016f7, 0x4969474d, 0x3e6e77db, 0xaed16a4a, 0xd9d65adc,
   0x40df0b66, 0x37d83bf0, 0xa9bcae53, 0xdebb9ec5, 0x47b2cf7f, 0x30b5ffe9,
   0xbdbdf21c, 0xcabac28a, 0x53b39330, 0x24b4a3a6, 0xbad03605, 0xcdd70693,
   0x54de5729, 0x23d967bf, 0xb3667a2e, 0xc4614ab8, 0x5d681b02, 0x2a6f2b94,
   0xb40bbe37, 0xc30c8ea1, 0x5a05df1b, 0x2d02ef8d]"

fun crc32_loop :: "byte list \<Rightarrow> u32 \<Rightarrow> u32" where
  "crc32_loop [] crc = crc"
| "crc32_loop (c # key) crc =
     crc32_loop key
       (drop_bit 8 crc XOR (crc32tab ! unat (((ucast crc XOR scast c) :: u64) AND 0xff)))"

definition hashkit_crc32 :: "byte list \<Rightarrow> u32" where
  "hashkit_crc32 key = drop_bit 16 (NOT (crc32_loop key (- 1))) AND 0x7fff"

text \<open>The reference: the reflected CRC-32 polynomial, one bit at a time.\<close>

definition crc_bit :: "u32 \<Rightarrow> u32" where
  "crc_bit x = (if bit x 0 then drop_bit 1 x XOR 0xedb88320 else drop_bit 1 x)"

definition crc_byte :: "u32 \<Rightarrow> u32" where
  "crc_byte x = (crc_bit ^^ 8) x"

definition crc32_bitwise :: "byte list \<Rightarrow> u32 \<Rightarrow> u32" where
  "crc32_bitwise key crc = foldl (\<lambda>crc c. crc_byte (crc XOR ucast c)) crc key"

lemma crc_byte_unrolled:
  "crc_byte x = crc_bit (crc_bit (crc_bit (crc_bit (crc_bit (crc_bit (crc_bit (crc_bit x)))))))"
  by (simp add: crc_byte_def eval_nat_numeral)

lemma crc_bit_xor: "crc_bit (x XOR y) = crc_bit x XOR crc_bit y"
  by (rule bit_word_eqI) (auto simp: crc_bit_def bit_simps)

lemma crc_bits_xor: "(crc_bit ^^ k) (x XOR y) = (crc_bit ^^ k) x XOR (crc_bit ^^ k) y"
  by (induction k) (simp_all add: crc_bit_xor)

lemma crc_bits_low_zero:
  assumes "\<forall>n < k. \<not> bit y n"
  shows "(crc_bit ^^ k) y = drop_bit k y"
  using assms
proof (induction k)
  case (Suc k)
  then have "(crc_bit ^^ k) y = drop_bit k y" and "\<not> bit y k" by auto
  moreover from this(2) have "crc_bit (drop_bit k y) = drop_bit (Suc k) y"
    by (simp add: crc_bit_def bit_simps)
  ultimately show ?case by simp
qed simp

text \<open>The 256 entries of the table, compared with the polynomial in four parts.\<close>

fun crc_table_from :: "u32 \<Rightarrow> u32 list \<Rightarrow> bool" where
  "crc_table_from i [] = True"
| "crc_table_from i (t # ts) = (crc_byte i = t \<and> crc_table_from (i + 1) ts)"

lemma crc_table_from_nth:
  "crc_table_from i ts \<Longrightarrow> n < length ts \<Longrightarrow> ts ! n = crc_byte (i + of_nat n)"
  by (induction ts arbitrary: i n) (auto simp: nth_Cons ac_simps split: nat.splits)

lemma crc_table_from_append:
  "crc_table_from i (xs @ ys) \<longleftrightarrow>
   crc_table_from i xs \<and> crc_table_from (i + of_nat (length xs)) ys"
  by (induction xs arbitrary: i) (auto simp: ac_simps)

lemma crc32tab_part_0: "crc_table_from 0 (take 64 crc32tab)"
  by (simp add: crc_byte_unrolled crc_bit_def crc32tab_def)

lemma crc32tab_part_1: "crc_table_from 64 (take 64 (drop 64 crc32tab))"
  by (simp add: crc_byte_unrolled crc_bit_def crc32tab_def)

lemma crc32tab_part_2: "crc_table_from 128 (take 64 (drop 128 crc32tab))"
  by (simp add: crc_byte_unrolled crc_bit_def crc32tab_def)

lemma crc32tab_part_3: "crc_table_from 192 (drop 192 crc32tab)"
  by (simp add: crc_byte_unrolled crc_bit_def crc32tab_def)

lemma length_crc32tab: "length crc32tab = 256"
  by (simp add: crc32tab_def)

lemma crc32tab_split:
  "crc32tab = take 64 crc32tab @ take 64 (drop 64 crc32tab) @ take 64 (drop 128 crc32tab)
              @ drop 192 crc32tab"
proof -
  have "drop 128 crc32tab = take 64 (drop 128 crc32tab) @ drop 192 crc32tab"
    using append_take_drop_id [of 64 "drop 128 crc32tab"] by simp
  moreover have "drop 64 crc32tab = take 64 (drop 64 crc32tab) @ drop 128 crc32tab"
    using append_take_drop_id [of 64 "drop 64 crc32tab"] by simp
  ultimately show ?thesis
    using append_take_drop_id [of 64 crc32tab] by simp
qed

lemma crc32tab_nth:
  assumes "i < 256"
  shows "crc32tab ! i = crc_byte (of_nat i)"
proof -
  have "crc_table_from 0 crc32tab"
    by (subst crc32tab_split)
       (simp add: crc_table_from_append length_crc32tab crc32tab_part_0 crc32tab_part_1
          crc32tab_part_2 crc32tab_part_3)
  from crc_table_from_nth [OF this, of i] assms show ?thesis
    by (simp add: length_crc32tab)
qed

text \<open>One step of the table-driven loop is eight steps of the polynomial division.\<close>

lemma crc32_step:
  fixes crc :: u32 and c :: byte
  shows "drop_bit 8 crc XOR (crc32tab ! unat (((ucast crc XOR scast c) :: u64) AND 0xff))
       = crc_byte (crc XOR ucast c)"
proof -
  let ?x = "crc XOR ucast c"
  let ?low = "?x AND 0xff"
  let ?i = "((ucast crc XOR scast c) :: u64) AND 0xff"
  have mask: "(0xff :: 'a::len word) = mask 8" by (simp add: mask_numeral)
  have i_low: "of_nat (unat ?i) = ?low"
    unfolding mask
    by (rule bit_word_eqI)
       (auto simp: bit_simps less_Suc_eq not_le numeral_eq_Suc)
  have "?i \<le> 0xff" by (rule word_and_le1)
  then have "unat ?i < 256"
    by (simp add: word_le_nat_alt)
  then have tab: "crc32tab ! unat ?i = (crc_bit ^^ 8) ?low"
    using i_low by (simp only: crc32tab_nth crc_byte_def)
  let ?high = "?x AND NOT 0xff"
  have "(crc_bit ^^ 8) ?high = drop_bit 8 ?high"
    unfolding mask by (rule crc_bits_low_zero) (auto simp: bit_simps)
  also have "\<dots> = drop_bit 8 crc"
    unfolding mask
    by (rule bit_word_eqI) (auto simp: bit_simps dest: bit_imp_le_length)
  finally have high: "(crc_bit ^^ 8) ?high = drop_bit 8 crc" .
  have "?x = ?high XOR ?low"
    by (rule bit_word_eqI) (auto simp: bit_simps)
  then have "crc_byte ?x = (crc_bit ^^ 8) ?high XOR (crc_bit ^^ 8) ?low"
    unfolding crc_byte_def by (metis crc_bits_xor)
  then show ?thesis
    by (simp only: high tab)
qed

lemma crc32_loop_bitwise: "crc32_loop key crc = crc32_bitwise key crc"
  unfolding crc32_bitwise_def
  by (induction key arbitrary: crc) (simp_all add: crc32_step)

lemma hashkit_crc32_less: "hashkit_crc32 key < 2 ^ 15"
proof -
  have "hashkit_crc32 key \<le> 0x7fff"
    unfolding hashkit_crc32_def by (rule word_and_le1)
  then show ?thesis by (simp add: word_le_nat_alt word_less_nat_alt)
qed

text \<open>
  C24: the table-driven hash is bits 16 to 30 of the complemented CRC-32 register after a bitwise
  division of the key by the reflected polynomial; so it is below 32768, and appending to a key
  continues the division.
\<close>

lemma crc32_reference:
  "hashkit_crc32 key = drop_bit 16 (NOT (crc32_bitwise key (- 1))) AND 0x7fff \<and>
   hashkit_crc32 key < 2 ^ 15 \<and>
   hashkit_crc32 (key @ rest) = drop_bit 16 (NOT (crc32_bitwise rest (crc32_bitwise key (- 1)))) AND 0x7fff"
  using hashkit_crc32_less [of key]
  by (simp add: hashkit_crc32_def crc32_loop_bitwise crc32_bitwise_def)

end
