(* ===== verification/Hashkit_Jenkins.thy ===== *)
theory Hashkit_Jenkins
  imports Prelude
begin

text \<open>
  \<open>libhashkit/jenkins.c\<close> on a little-endian machine. The code reads the key in 32-bit words, in
  16-bit halves or byte by byte, by the alignment of its address; the first variant reads up to
  three bytes beyond the key and masks them off. So a key is modelled as the memory from its
  address on, a byte list of which the first \<open>length\<close> bytes are the key. The theorem of this
  theory is that neither the alignment nor the bytes beyond the key change the hash.
\<close>

unbundle bit_operations_syntax

definition rot :: "u32 \<Rightarrow> nat \<Rightarrow> u32" where
  "rot x k = push_bit k x OR drop_bit (32 - k) x"

type_synonym abc = "u32 \<times> u32 \<times> u32"

fun mix :: "abc \<Rightarrow> abc" where
  "mix (a, b, c) =
     (let a = a - c; a = a XOR rot c 4; c = c + b;
          b = b - a; b = b XOR rot a 6; a = a + c;
          c = c - b; c = c XOR rot b 8; b = b + a;
          a = a - c; a = a XOR rot c 16; c = c + b;
          b = b - a; b = b XOR rot a 19; a = a + c;
          c = c - b; c = c XOR rot b 4; b = b + a
      in (a, b, c))"

fun final_mix :: "abc \<Rightarrow> abc" where
  "final_mix (a, b, c) =
     (let c = c XOR b; c = c - rot b 14;
          a = a XOR c; a = a - rot c 11;
          b = b XOR a; b = b - rot a 25;
          c = c XOR b; c = c - rot b 16;
          a = a XOR c; a = a - rot c 4;
          b = b XOR a; b = b - rot a 14;
          c = c XOR b; c = c - rot b 24
      in (a, b, c))"

declare mix.simps [simp del] final_mix.simps [simp del]

definition JENKINS_INITVAL :: u32 where "JENKINS_INITVAL = 13"

text \<open>
  \<open>w32 k i\<close> is \<open>k[i]\<close> of a \<open>uint32_t *\<close>, \<open>w16\<close> of a \<open>uint16_t *\<close> and \<open>w8\<close> of a \<open>uint8_t *\<close>, widened
  to 32 bits as the sums of the code do.
\<close>

definition w32 :: "byte list \<Rightarrow> nat \<Rightarrow> u32" where "w32 k i = ld_le32 k (4 * i)"
definition w16 :: "byte list \<Rightarrow> nat \<Rightarrow> u32" where "w16 k i = ucast (ld_le16 k (2 * i))"
definition w8 :: "byte list \<Rightarrow> nat \<Rightarrow> u32" where "w8 k i = ucast (k ! i)"

text \<open>
  The three \<open>switch (length)\<close> statements on the last block: \<open>Inl c\<close> is the early \<open>return c\<close>.
\<close>

fun jenkins_tail32 :: "byte list \<Rightarrow> nat \<Rightarrow> abc \<Rightarrow> u32 + abc" where
  "jenkins_tail32 k len (a, b, c) =
     (if len = 12 then Inr (a + w32 k 0, b + w32 k 1, c + w32 k 2)
      else if len = 11 then Inr (a + w32 k 0, b + w32 k 1, c + (w32 k 2 AND 0xffffff))
      else if len = 10 then Inr (a + w32 k 0, b + w32 k 1, c + (w32 k 2 AND 0xffff))
      else if len = 9 then Inr (a + w32 k 0, b + w32 k 1, c + (w32 k 2 AND 0xff))
      else if len = 8 then Inr (a + w32 k 0, b + w32 k 1, c)
      else if len = 7 then Inr (a + w32 k 0, b + (w32 k 1 AND 0xffffff), c)
      else if len = 6 then Inr (a + w32 k 0, b + (w32 k 1 AND 0xffff), c)
      else if len = 5 then Inr (a + w32 k 0, b + (w32 k 1 AND 0xff), c)
      else if len = 4 then Inr (a + w32 k 0, b, c)
      else if len = 3 then Inr (a + (w32 k 0 AND 0xffffff), b, c)
      else if len = 2 then Inr (a + (w32 k 0 AND 0xffff), b, c)
      else if len = 1 then Inr (a + (w32 k 0 AND 0xff), b, c)
      else Inl c)"

fun jenkins_tail16 :: "byte list \<Rightarrow> nat \<Rightarrow> abc \<Rightarrow> u32 + abc" where
  "jenkins_tail16 k len (a, b, c) =
     (let a4 = a + (w16 k 0 + push_bit 16 (w16 k 1));
          b4 = b + (w16 k 2 + push_bit 16 (w16 k 3))
      in if len = 12 then Inr (a4, b4, c + (w16 k 4 + push_bit 16 (w16 k 5)))
         else if len = 11 then Inr (a4, b4, c + push_bit 16 (w8 k 10) + w16 k 4)
         else if len = 10 then Inr (a4, b4, c + w16 k 4)
         else if len = 9 then Inr (a4, b4, c + w8 k 8)
         else if len = 8 then Inr (a4, b4, c)
         else if len = 7 then Inr (a4, b + push_bit 16 (w8 k 6) + w16 k 2, c)
         else if len = 6 then Inr (a4, b + w16 k 2, c)
         else if len = 5 then Inr (a4, b + w8 k 4, c)
         else if len = 4 then Inr (a4, b, c)
         else if len = 3 then Inr (a + push_bit 16 (w8 k 2) + w16 k 0, b, c)
         else if len = 2 then Inr (a + w16 k 0, b, c)
         else if len = 1 then Inr (a + w8 k 0, b, c)
         else Inl c)"

text \<open>Here every case falls through, down to \<open>case 1\<close>.\<close>

fun jenkins_tail8 :: "byte list \<Rightarrow> nat \<Rightarrow> abc \<Rightarrow> u32 + abc" where
  "jenkins_tail8 k len (a, b, c) =
     (if len = 0 \<or> 12 < len then Inl c
      else
        let c = (if 12 \<le> len then c + push_bit 24 (w8 k 11) else c);
            c = (if 11 \<le> len then c + push_bit 16 (w8 k 10) else c);
            c = (if 10 \<le> len then c + push_bit 8 (w8 k 9) else c);
            c = (if 9 \<le> len then c + w8 k 8 else c);
            b = (if 8 \<le> len then b + push_bit 24 (w8 k 7) else b);
            b = (if 7 \<le> len then b + push_bit 16 (w8 k 6) else b);
            b = (if 6 \<le> len then b + push_bit 8 (w8 k 5) else b);
            b = (if 5 \<le> len then b + w8 k 4 else b);
            a = (if 4 \<le> len then a + push_bit 24 (w8 k 3) else a);
            a = (if 3 \<le> len then a + push_bit 16 (w8 k 2) else a);
            a = (if 2 \<le> len then a + push_bit 8 (w8 k 1) else a);
            a = a + w8 k 0
        in Inr (a, b, c))"

declare jenkins_tail32.simps [simp del] jenkins_tail16.simps [simp del] jenkins_tail8.simps [simp del]

text \<open>The loops over all but the last block.\<close>

fun jenkins_loop32 :: "byte list \<Rightarrow> nat \<Rightarrow> abc \<Rightarrow> u32 + abc" where
  "jenkins_loop32 k len (a, b, c) =
     (if 12 < len
      then jenkins_loop32 (drop 12 k) (len - 12) (mix (a + w32 k 0, b + w32 k 1, c + w32 k 2))
      else jenkins_tail32 k len (a, b, c))"

fun jenkins_loop16 :: "byte list \<Rightarrow> nat \<Rightarrow> abc \<Rightarrow> u32 + abc" where
  "jenkins_loop16 k len (a, b, c) =
     (if 12 < len
      then jenkins_loop16 (drop 12 k) (len - 12)
             (mix (a + (w16 k 0 + push_bit 16 (w16 k 1)),
                   b + (w16 k 2 + push_bit 16 (w16 k 3)),
                   c + (w16 k 4 + push_bit 16 (w16 k 5))))
      else jenkins_tail16 k len (a, b, c))"

fun jenkins_loop8 :: "byte list \<Rightarrow> nat \<Rightarrow> abc \<Rightarrow> u32 + abc" where
  "jenkins_loop8 k len (a, b, c) =
     (if 12 < len
      then jenkins_loop8 (drop 12 k) (len - 12)
             (mix (a + w8 k 0 + push_bit 8 (w8 k 1) + push_bit 16 (w8 k 2) + push_bit 24 (w8 k 3),
                   b + w8 k 4 + push_bit 8 (w8 k 5) + push_bit 16 (w8 k 6) + push_bit 24 (w8 k 7),
                   c + w8 k 8 + push_bit 8 (w8 k 9) + push_bit 16 (w8 k 10) + push_bit 24 (w8 k 11)))
      else jenkins_tail8 k len (a, b, c))"

definition hashkit_jenkins :: "nat \<Rightarrow> byte list \<Rightarrow> nat \<Rightarrow> u32" where
  "hashkit_jenkins addr key len =
     (let v = 0xdeadbeef + of_nat len + JENKINS_INITVAL;
          r = (if addr mod 4 = 0 then jenkins_loop32 key len (v, v, v)
               else if addr mod 2 = 0 then jenkins_loop16 key len (v, v, v)
               else jenkins_loop8 key len (v, v, v))
      in case r of Inl c \<Rightarrow> c | Inr abc \<Rightarrow> snd (snd (final_mix abc)))"

declare jenkins_loop32.simps [simp del] jenkins_loop16.simps [simp del] jenkins_loop8.simps [simp del]

lemma w16_sum: "w16 k i = w8 k (2 * i) + push_bit 8 (w8 k (2 * i + 1))"
  by (simp add: w16_def w8_def ld_le16_def le16_sum)

lemma w32_sum:
  "w32 k i = w8 k (4 * i) + push_bit 8 (w8 k (4 * i + 1)) + push_bit 16 (w8 k (4 * i + 2))
             + push_bit 24 (w8 k (4 * i + 3))"
  by (simp add: w32_def w8_def ld_le32_def le32_sum)

lemma le32_mask:
  "le32 b0 b1 b2 b3 AND 0xff = le32 b0 0 0 0"
  "le32 b0 b1 b2 b3 AND 0xffff = le32 b0 b1 0 0"
  "le32 b0 b1 b2 b3 AND 0xffffff = le32 b0 b1 b2 0"
proof -
  have mask: "(0xff :: u32) = mask 8" "(0xffff :: u32) = mask 16" "(0xffffff :: u32) = mask 24"
    by (simp_all add: mask_numeral)
  show "le32 b0 b1 b2 b3 AND 0xff = le32 b0 0 0 0"
    "le32 b0 b1 b2 b3 AND 0xffff = le32 b0 b1 0 0"
    "le32 b0 b1 b2 b3 AND 0xffffff = le32 b0 b1 b2 0"
    unfolding mask le32_def
    by (rule bit_word_eqI; auto simp: bit_simps dest: bit_imp_le_length)+
qed

lemma w32_mask:
  "w32 k i AND 0xff = w8 k (4 * i)"
  "w32 k i AND 0xffff = w8 k (4 * i) + push_bit 8 (w8 k (4 * i + 1))"
  "w32 k i AND 0xffffff =
     w8 k (4 * i) + push_bit 8 (w8 k (4 * i + 1)) + push_bit 16 (w8 k (4 * i + 2))"
  unfolding w32_def ld_le32_def le32_mask by (simp_all add: w8_def le32_sum)

lemma push_bit_sum: "push_bit n (x + y) = push_bit n x + push_bit n (y :: u32)"
  by (simp add: push_bit_eq_mult algebra_simps)

lemma length_cases:
  "len \<le> 12 \<Longrightarrow> len = 0 \<or> len = 1 \<or> len = 2 \<or> len = 3 \<or> len = 4 \<or> len = 5 \<or> len = 6 \<or> len = 7
    \<or> len = 8 \<or> len = 9 \<or> len = 10 \<or> len = 11 \<or> len = (12 :: nat)"
  by presburger

lemma word_sums:
  "x + w32 k 0 = x + w8 k 0 + push_bit 8 (w8 k 1) + push_bit 16 (w8 k 2) + push_bit 24 (w8 k 3)"
  "x + w32 k 1 = x + w8 k 4 + push_bit 8 (w8 k 5) + push_bit 16 (w8 k 6) + push_bit 24 (w8 k 7)"
  "x + w32 k 2 = x + w8 k 8 + push_bit 8 (w8 k 9) + push_bit 16 (w8 k 10) + push_bit 24 (w8 k 11)"
  by (simp_all add: w32_sum add.assoc eval_nat_numeral)

lemma half_sums:
  "x + (w16 k 0 + push_bit 16 (w16 k 1)) =
     x + w8 k 0 + push_bit 8 (w8 k 1) + push_bit 16 (w8 k 2) + push_bit 24 (w8 k 3)"
  "x + (w16 k 2 + push_bit 16 (w16 k 3)) =
     x + w8 k 4 + push_bit 8 (w8 k 5) + push_bit 16 (w8 k 6) + push_bit 24 (w8 k 7)"
  "x + (w16 k 4 + push_bit 16 (w16 k 5)) =
     x + w8 k 8 + push_bit 8 (w8 k 9) + push_bit 16 (w8 k 10) + push_bit 24 (w8 k 11)"
  by (simp_all add: w16_sum push_bit_sum add.assoc eval_nat_numeral)

lemma mask_sums:
  "x + (w32 k 0 AND 0xff) = x + w8 k 0"
  "x + (w32 k 1 AND 0xff) = x + w8 k 4"
  "x + (w32 k 2 AND 0xff) = x + w8 k 8"
  "x + (w32 k 0 AND 0xffff) = x + w8 k 0 + push_bit 8 (w8 k 1)"
  "x + (w32 k 1 AND 0xffff) = x + w8 k 4 + push_bit 8 (w8 k 5)"
  "x + (w32 k 2 AND 0xffff) = x + w8 k 8 + push_bit 8 (w8 k 9)"
  "x + (w32 k 0 AND 0xffffff) = x + w8 k 0 + push_bit 8 (w8 k 1) + push_bit 16 (w8 k 2)"
  "x + (w32 k 1 AND 0xffffff) = x + w8 k 4 + push_bit 8 (w8 k 5) + push_bit 16 (w8 k 6)"
  "x + (w32 k 2 AND 0xffffff) = x + w8 k 8 + push_bit 8 (w8 k 9) + push_bit 16 (w8 k 10)"
  unfolding w32_mask by (simp_all add: add.assoc eval_nat_numeral)

lemma half_one_sums:
  "x + w16 k 0 = x + w8 k 0 + push_bit 8 (w8 k 1)"
  "x + w16 k 2 = x + w8 k 4 + push_bit 8 (w8 k 5)"
  "x + w16 k 4 = x + w8 k 8 + push_bit 8 (w8 k 9)"
  unfolding w16_sum by (simp_all add: add.assoc eval_nat_numeral)

lemma tail32_tail8:
  assumes "len \<le> 12"
  shows "jenkins_tail32 k len s = jenkins_tail8 k len s"
proof (cases s)
  case (fields a b c)
  show ?thesis
    using length_cases [OF assms]
    unfolding fields jenkins_tail32.simps jenkins_tail8.simps word_sums mask_sums
    by (elim disjE) (simp_all add: ac_simps)
qed

lemma tail16_tail8:
  assumes "len \<le> 12"
  shows "jenkins_tail16 k len s = jenkins_tail8 k len s"
proof (cases s)
  case (fields a b c)
  show ?thesis
    using length_cases [OF assms]
    unfolding fields jenkins_tail16.simps jenkins_tail8.simps Let_def half_sums half_one_sums
    by (elim disjE) (simp_all add: ac_simps)
qed

lemma loop32_loop8: "jenkins_loop32 k len s = jenkins_loop8 k len s"
proof (induction k len s rule: jenkins_loop32.induct)
  case (1 k len a b c)
  then show ?case
    unfolding jenkins_loop32.simps [of k len a b c] jenkins_loop8.simps [of k len a b c] word_sums
    by (simp add: tail32_tail8)
qed

lemma loop16_loop8: "jenkins_loop16 k len s = jenkins_loop8 k len s"
proof (induction k len s rule: jenkins_loop16.induct)
  case (1 k len a b c)
  then show ?case
    unfolding jenkins_loop16.simps [of k len a b c] jenkins_loop8.simps [of k len a b c] half_sums
    by (simp add: tail16_tail8)
qed

lemma tail8_beyond:
  "length key \<le> 12 \<Longrightarrow> jenkins_tail8 (key @ beyond) (length key) s = jenkins_tail8 key (length key) s"
  by (cases s) (simp add: jenkins_tail8.simps w8_def nth_append)

lemma loop8_beyond:
  "jenkins_loop8 (key @ beyond) (length key) s = jenkins_loop8 key (length key) s"
proof (induction key "length key" s rule: jenkins_loop8.induct)
  case (1 key a b c)
  then show ?case
    by (simp add: jenkins_loop8.simps [of _ "length key" a b c] tail8_beyond w8_def nth_append)
qed

text \<open>
  C20: the Jenkins hash of a key depends neither on the alignment of its address, which selects one
  of three ways of reading it, nor on the bytes behind it, which the aligned way reads and masks.
\<close>

lemma jenkins_alignment:
  "hashkit_jenkins addr (key @ beyond) (length key) = hashkit_jenkins addr' key (length key)"
  unfolding hashkit_jenkins_def loop32_loop8 loop16_loop8 loop8_beyond Let_def by simp

end
