(* ===== verification/Hashkit_MD5.thy ===== *)
theory Hashkit_MD5
  imports Prelude
begin

text \<open>
  \<open>libhashkit/md5.c\<close>: the MD5 digest behind \<open>HASHKIT_HASH_MD5\<close> and the ketama point hashes.
  \<open>MD5_CTX\<close> is a record with the same fields; \<open>count\<close> keeps its two 32-bit halves. In
  \<open>MD5Update\<close> the offset \<open>i\<close> is a natural number: the only update with a key starts from a fresh
  context, where the block offsets are multiples of 64 and \<open>i + 63\<close> does not wrap, and the other
  two have at most 64 bytes. The reference is the padded message digested block by block.
\<close>

unbundle bit_operations_syntax

type_synonym abcd = "u32 \<times> u32 \<times> u32 \<times> u32"

record MD5_CTX =
  state :: abcd
  count0 :: u32
  count1 :: u32
  buffer :: "byte list"

section \<open>The compression function\<close>

definition S11 :: nat where "S11 = 7"
definition S12 :: nat where "S12 = 12"
definition S13 :: nat where "S13 = 17"
definition S14 :: nat where "S14 = 22"
definition S21 :: nat where "S21 = 5"
definition S22 :: nat where "S22 = 9"
definition S23 :: nat where "S23 = 14"
definition S24 :: nat where "S24 = 20"
definition S31 :: nat where "S31 = 4"
definition S32 :: nat where "S32 = 11"
definition S33 :: nat where "S33 = 16"
definition S34 :: nat where "S34 = 23"
definition S41 :: nat where "S41 = 6"
definition S42 :: nat where "S42 = 10"
definition S43 :: nat where "S43 = 15"
definition S44 :: nat where "S44 = 21"

definition PADDING :: "byte list" where
  "PADDING = 0x80 # replicate 63 0"

definition md5_F :: "u32 \<Rightarrow> u32 \<Rightarrow> u32 \<Rightarrow> u32" where
  "md5_F x y z = (x AND y) OR (NOT x AND z)"

definition md5_G :: "u32 \<Rightarrow> u32 \<Rightarrow> u32 \<Rightarrow> u32" where
  "md5_G x y z = (x AND z) OR (y AND NOT z)"

definition md5_H :: "u32 \<Rightarrow> u32 \<Rightarrow> u32 \<Rightarrow> u32" where
  "md5_H x y z = x XOR y XOR z"

definition md5_I :: "u32 \<Rightarrow> u32 \<Rightarrow> u32 \<Rightarrow> u32" where
  "md5_I x y z = y XOR (x OR NOT z)"

definition ROTATE_LEFT :: "u32 \<Rightarrow> nat \<Rightarrow> u32" where
  "ROTATE_LEFT x n = push_bit n x OR drop_bit (32 - n) x"

definition FF :: "u32 \<Rightarrow> u32 \<Rightarrow> u32 \<Rightarrow> u32 \<Rightarrow> u32 \<Rightarrow> nat \<Rightarrow> u32 \<Rightarrow> u32" where
  "FF a b c d x s ac = ROTATE_LEFT (a + (md5_F b c d + x + ac)) s + b"

definition GG :: "u32 \<Rightarrow> u32 \<Rightarrow> u32 \<Rightarrow> u32 \<Rightarrow> u32 \<Rightarrow> nat \<Rightarrow> u32 \<Rightarrow> u32" where
  "GG a b c d x s ac = ROTATE_LEFT (a + (md5_G b c d + x + ac)) s + b"

definition HH :: "u32 \<Rightarrow> u32 \<Rightarrow> u32 \<Rightarrow> u32 \<Rightarrow> u32 \<Rightarrow> nat \<Rightarrow> u32 \<Rightarrow> u32" where
  "HH a b c d x s ac = ROTATE_LEFT (a + (md5_H b c d + x + ac)) s + b"

definition II :: "u32 \<Rightarrow> u32 \<Rightarrow> u32 \<Rightarrow> u32 \<Rightarrow> u32 \<Rightarrow> nat \<Rightarrow> u32 \<Rightarrow> u32" where
  "II a b c d x s ac = ROTATE_LEFT (a + (md5_I b c d + x + ac)) s + b"

definition md5_round1 :: "u32 list \<Rightarrow> abcd \<Rightarrow> abcd" where
  "md5_round1 x s =
     (case s of (a, b, c, d) \<Rightarrow>
      let a = FF a b c d (x ! 0) S11 0xd76aa478;
          d = FF d a b c (x ! 1) S12 0xe8c7b756;
          c = FF c d a b (x ! 2) S13 0x242070db;
          b = FF b c d a (x ! 3) S14 0xc1bdceee;
          a = FF a b c d (x ! 4) S11 0xf57c0faf;
          d = FF d a b c (x ! 5) S12 0x4787c62a;
          c = FF c d a b (x ! 6) S13 0xa8304613;
          b = FF b c d a (x ! 7) S14 0xfd469501;
          a = FF a b c d (x ! 8) S11 0x698098d8;
          d = FF d a b c (x ! 9) S12 0x8b44f7af;
          c = FF c d a b (x ! 10) S13 0xffff5bb1;
          b = FF b c d a (x ! 11) S14 0x895cd7be;
          a = FF a b c d (x ! 12) S11 0x6b901122;
          d = FF d a b c (x ! 13) S12 0xfd987193;
          c = FF c d a b (x ! 14) S13 0xa679438e;
          b = FF b c d a (x ! 15) S14 0x49b40821
      in (a, b, c, d))"

definition md5_round2 :: "u32 list \<Rightarrow> abcd \<Rightarrow> abcd" where
  "md5_round2 x s =
     (case s of (a, b, c, d) \<Rightarrow>
      let a = GG a b c d (x ! 1) S21 0xf61e2562;
          d = GG d a b c (x ! 6) S22 0xc040b340;
          c = GG c d a b (x ! 11) S23 0x265e5a51;
          b = GG b c d a (x ! 0) S24 0xe9b6c7aa;
          a = GG a b c d (x ! 5) S21 0xd62f105d;
          d = GG d a b c (x ! 10) S22 0x2441453;
          c = GG c d a b (x ! 15) S23 0xd8a1e681;
          b = GG b c d a (x ! 4) S24 0xe7d3fbc8;
          a = GG a b c d (x ! 9) S21 0x21e1cde6;
          d = GG d a b c (x ! 14) S22 0xc33707d6;
          c = GG c d a b (x ! 3) S23 0xf4d50d87;
          b = GG b c d a (x ! 8) S24 0x455a14ed;
          a = GG a b c d (x ! 13) S21 0xa9e3e905;
          d = GG d a b c (x ! 2) S22 0xfcefa3f8;
          c = GG c d a b (x ! 7) S23 0x676f02d9;
          b = GG b c d a (x ! 12) S24 0x8d2a4c8a
      in (a, b, c, d))"

definition md5_round3 :: "u32 list \<Rightarrow> abcd \<Rightarrow> abcd" where
  "md5_round3 x s =
     (case s of (a, b, c, d) \<Rightarrow>
      let a = HH a b c d (x ! 5) S31 0xfffa3942;
          d = HH d a b c (x ! 8) S32 0x8771f681;
          c = HH c d a b (x ! 11) S33 0x6d9d6122;
          b = HH b c d a (x ! 14) S34 0xfde5380c;
          a = HH a b c d (x ! 1) S31 0xa4beea44;
          d = HH d a b c (x ! 4) S32 0x4bdecfa9;
          c = HH c d a b (x ! 7) S33 0xf6bb4b60;
          b = HH b c d a (x ! 10) S34 0xbebfbc70;
          a = HH a b c d (x ! 13) S31 0x289b7ec6;
          d = HH d a b c (x ! 0) S32 0xeaa127fa;
          c = HH c d a b (x ! 3) S33 0xd4ef3085;
          b = HH b c d a (x ! 6) S34 0x4881d05;
          a = HH a b c d (x ! 9) S31 0xd9d4d039;
          d = HH d a b c (x ! 12) S32 0xe6db99e5;
          c = HH c d a b (x ! 15) S33 0x1fa27cf8;
          b = HH b c d a (x ! 2) S34 0xc4ac5665
      in (a, b, c, d))"

definition md5_round4 :: "u32 list \<Rightarrow> abcd \<Rightarrow> abcd" where
  "md5_round4 x s =
     (case s of (a, b, c, d) \<Rightarrow>
      let a = II a b c d (x ! 0) S41 0xf4292244;
          d = II d a b c (x ! 7) S42 0x432aff97;
          c = II c d a b (x ! 14) S43 0xab9423a7;
          b = II b c d a (x ! 5) S44 0xfc93a039;
          a = II a b c d (x ! 12) S41 0x655b59c3;
          d = II d a b c (x ! 3) S42 0x8f0ccc92;
          c = II c d a b (x ! 10) S43 0xffeff47d;
          b = II b c d a (x ! 1) S44 0x85845dd1;
          a = II a b c d (x ! 8) S41 0x6fa87e4f;
          d = II d a b c (x ! 15) S42 0xfe2ce6e0;
          c = II c d a b (x ! 6) S43 0xa3014314;
          b = II b c d a (x ! 13) S44 0x4e0811a1;
          a = II a b c d (x ! 4) S41 0xf7537e82;
          d = II d a b c (x ! 11) S42 0xbd3af235;
          c = II c d a b (x ! 2) S43 0x2ad7d2bb;
          b = II b c d a (x ! 9) S44 0xeb86d391
      in (a, b, c, d))"

fun Decode :: "byte list \<Rightarrow> u32 list" where
  "Decode (b0 # b1 # b2 # b3 # input) = le32 b0 b1 b2 b3 # Decode input"
| "Decode input = []"

fun Encode :: "u32 list \<Rightarrow> byte list" where
  "Encode [] = []"
| "Encode (w # input) = st_le32 w @ Encode input"

definition MD5Transform :: "abcd \<Rightarrow> byte list \<Rightarrow> abcd" where
  "MD5Transform s block =
     (let x = Decode block
      in case s of (s0, s1, s2, s3) \<Rightarrow>
         case md5_round4 x (md5_round3 x (md5_round2 x (md5_round1 x s))) of (a, b, c, d) \<Rightarrow>
           (s0 + a, s1 + b, s2 + c, s3 + d))"

section \<open>The streaming interface\<close>

definition md5_init_state :: abcd where
  "md5_init_state = (0x67452301, 0xefcdab89, 0x98badcfe, 0x10325476)"

definition MD5Init :: "MD5_CTX \<Rightarrow> MD5_CTX" where
  "MD5Init context = context\<lparr>count0 := 0, count1 := 0, state := md5_init_state\<rparr>"

function md5_update_loop :: "byte list \<Rightarrow> nat \<Rightarrow> abcd \<Rightarrow> nat \<times> abcd" where
  "md5_update_loop input i s =
     (if i + 63 < length input
      then md5_update_loop input (i + 64) (MD5Transform s (take 64 (drop i input)))
      else (i, s))"
  by pat_completeness auto
termination by (relation "measure (\<lambda>(input, i, s). length input - i)") auto

declare md5_update_loop.simps [simp del]

definition MD5Update :: "MD5_CTX \<Rightarrow> byte list \<Rightarrow> MD5_CTX" where
  "MD5Update context input =
     (let inputLen = of_nat (length input) :: u32;
          idx = unat (drop_bit 3 (count0 context) AND 0x3F);
          c0 = count0 context + push_bit 3 inputLen;
          c1 = (if c0 < push_bit 3 inputLen then count1 context + 1 else count1 context);
          context = context\<lparr>count0 := c0, count1 := c1 + drop_bit 29 inputLen\<rparr>;
          partLen = 64 - idx
      in if partLen \<le> length input
         then let buf = memcpy_at (buffer context) idx (take partLen input)
              in case md5_update_loop input partLen (MD5Transform (state context) buf) of (i, s) \<Rightarrow>
                   context\<lparr>state := s, buffer := memcpy_at buf 0 (drop i input)\<rparr>
         else context\<lparr>buffer := memcpy_at (buffer context) idx input\<rparr>)"

text \<open>The digest and the zeroized context.\<close>

definition MD5Final :: "MD5_CTX \<Rightarrow> byte list \<times> MD5_CTX" where
  "MD5Final context =
     (let bits = Encode [count0 context, count1 context];
          idx = unat (drop_bit 3 (count0 context) AND 0x3f);
          padLen = (if idx < 56 then 56 - idx else 120 - idx);
          context = MD5Update context (take padLen PADDING);
          context = MD5Update context bits
      in (case state context of (a, b, c, d) \<Rightarrow> Encode [a, b, c, d],
          \<lparr>state = (0, 0, 0, 0), count0 = 0, count1 = 0, buffer = replicate 64 0\<rparr>))"

text \<open>The context of \<open>md5_signature\<close> is an uninitialised local, here an argument.\<close>

definition md5_signature :: "MD5_CTX \<Rightarrow> byte list \<Rightarrow> byte list" where
  "md5_signature my_md5 key = fst (MD5Final (MD5Update (MD5Init my_md5) key))"

definition md5_stack :: MD5_CTX where
  "md5_stack = \<lparr>state = (0, 0, 0, 0), count0 = 0, count1 = 0, buffer = replicate 64 0\<rparr>"

definition hashkit_md5 :: "byte list \<Rightarrow> u32" where
  "hashkit_md5 key =
     (let results = md5_signature md5_stack key
      in push_bit 24 (ucast (results ! 3)) OR push_bit 16 (ucast (results ! 2))
         OR push_bit 8 (ucast (results ! 1)) OR ucast (results ! 0))"

section \<open>The reference: the padded message, block by block\<close>

function md5_blocks :: "abcd \<Rightarrow> byte list \<Rightarrow> abcd" where
  "md5_blocks s m = (if length m < 64 then s else md5_blocks (MD5Transform s (take 64 m)) (drop 64 m))"
  by pat_completeness auto
termination by (relation "measure (\<lambda>(s, m). length m)") auto

declare md5_blocks.simps [simp del]

definition md5_pad :: "byte list \<Rightarrow> byte list" where
  "md5_pad m =
     (let idx = length m mod 64
      in m @ take (if idx < 56 then 56 - idx else 120 - idx) PADDING
           @ st_le32 (of_nat (8 * length m)) @ st_le32 (of_nat (8 * length m div 2 ^ 32)))"

definition md5_reference :: "byte list \<Rightarrow> abcd" where
  "md5_reference m = md5_blocks md5_init_state (md5_pad m)"

text \<open>Absorbing whole blocks before the rest.\<close>

lemma md5_blocks_append:
  assumes "length x = 64 * n"
  shows "md5_blocks s (x @ y) = md5_blocks (md5_blocks s x) y"
  using assms
proof (induction n arbitrary: s x)
  case 0
  then show ?case by (simp add: md5_blocks.simps [of s "[]"])
next
  case (Suc n)
  then have "length (drop 64 x) = 64 * n" and "64 \<le> length x" by auto
  with Suc.IH show ?case
    by (simp add: md5_blocks.simps [of s x] md5_blocks.simps [of s "x @ y"])
qed

lemma md5_blocks_short: "length m < 64 \<Longrightarrow> md5_blocks s m = s"
  by (simp add: md5_blocks.simps)

lemma md5_blocks_one: "length m = 64 \<Longrightarrow> md5_blocks s m = MD5Transform s m"
  by (simp add: md5_blocks.simps [of s m] md5_blocks_short)

lemma md5_update_loop_blocks:
  "i \<le> length input \<Longrightarrow>
   md5_update_loop input i s =
     (i + 64 * ((length input - i) div 64), md5_blocks s (drop i input))"
proof (induction input i s rule: md5_update_loop.induct)
  case (1 input i s)
  show ?case
  proof (cases "i + 63 < length input")
    case True
    then have "\<not> length input - i < 64" by arith
    moreover from True have "(length input - i) div 64 = Suc ((length input - (i + 64)) div 64)"
      by (subst div_if) auto
    ultimately have step: "(length input - i) div 64 = Suc ((length input - (i + 64)) div 64)"
      "\<not> length input - i < 64"
      by simp_all
    from True 1 show ?thesis
      by (simp add: step md5_update_loop.simps [of input i s] md5_blocks.simps [of s "drop i input"]
          add.commute)
  next
    case False
    with 1 show ?thesis
      by (simp add: md5_update_loop.simps [of input i s] md5_blocks_short)
  qed
qed

text \<open>The bit count as one 64-bit number.\<close>

definition md5_bits :: "MD5_CTX \<Rightarrow> nat" where
  "md5_bits ctx = unat (count0 ctx) + 2 ^ 32 * unat (count1 ctx)"

definition absorbed :: "MD5_CTX \<Rightarrow> byte list \<Rightarrow> bool" where
  "absorbed ctx m \<longleftrightarrow>
     state ctx = md5_blocks md5_init_state m \<and>
     md5_bits ctx = 8 * length m mod 2 ^ 64 \<and>
     length (buffer ctx) = 64 \<and>
     take (length m mod 64) (buffer ctx) = drop (64 * (length m div 64)) m"

lemma absorbed_init: "length (buffer ctx) = 64 \<Longrightarrow> absorbed (MD5Init ctx) []"
  by (simp add: absorbed_def MD5Init_def md5_bits_def md5_blocks_short)

text \<open>The carry between the halves of the count.\<close>

lemma halves_mod:
  "(a :: nat) < 2 ^ 32 \<Longrightarrow> (a + 2 ^ 32 * b) mod 2 ^ 64 = a + 2 ^ 32 * (b mod 2 ^ 32)"
  using mod_mult2_eq [of "a + 2 ^ 32 * b" "2 ^ 32" "2 ^ 32"] by simp

lemma count_carry:
  fixes c0 c1 n :: u32
  shows
  "let c0' = c0 + push_bit 3 n;
       c1' = (if c0' < push_bit 3 n then c1 + 1 else c1) + drop_bit 29 n
   in unat c0' + 2 ^ 32 * unat c1' = (unat c0 + 2 ^ 32 * unat c1 + 8 * unat n) mod 2 ^ 64"
proof -
  define lo hi where "lo = 8 * unat n mod 2 ^ 32" and "hi = 8 * unat n div 2 ^ 32"
  have lo: "unat (push_bit 3 n) = lo"
    by (simp add: lo_def push_bit_eq_mult unat_word_ariths mult.commute)
  have hi: "unat (drop_bit 29 n) = hi"
    by (simp add: hi_def drop_bit_eq_div unat_div)
  have bounds: "unat c0 < 2 ^ 32" "lo < 2 ^ 32"
    using unsigned_less [of c0, where 'a = nat] by (simp_all add: lo_def)
  have split: "8 * unat n = lo + 2 ^ 32 * hi"
    unfolding lo_def hi_def by (simp only: mod_mult_div_eq)
  have sum: "unat (c0 + push_bit 3 n) = (unat c0 + lo) mod 2 ^ 32"
    by (simp add: unat_word_ariths lo)
  show ?thesis
  proof (cases "2 ^ 32 \<le> unat c0 + lo")
    case True
    define a where "a = unat c0 + lo - 2 ^ 32"
    have a: "a < lo" "unat c0 + lo = 2 ^ 32 + a" and "a < 2 ^ 32"
      using bounds True unfolding a_def by linarith+
    then have c0': "unat (c0 + push_bit 3 n) = a"
      by (simp add: sum)
    with a have "c0 + push_bit 3 n < push_bit 3 n"
      by (simp add: word_less_nat_alt lo)
    moreover have "unat (c1 + 1 + drop_bit 29 n) = (unat c1 + 1 + hi) mod 2 ^ 32"
      by (simp add: unat_word_ariths hi mod_simps)
    moreover have "unat c0 + 2 ^ 32 * unat c1 + 8 * unat n = a + 2 ^ 32 * (unat c1 + 1 + hi)"
      using a(2) split by simp
    ultimately show ?thesis
      by (simp only: Let_def if_True c0' halves_mod [OF \<open>a < 2 ^ 32\<close>])
  next
    case False
    then have c0': "unat (c0 + push_bit 3 n) = unat c0 + lo"
      by (simp add: sum)
    then have "\<not> c0 + push_bit 3 n < push_bit 3 n"
      by (simp add: word_less_nat_alt lo)
    moreover have "unat (c1 + drop_bit 29 n) = (unat c1 + hi) mod 2 ^ 32"
      by (simp add: unat_word_ariths hi)
    moreover have "unat c0 + 2 ^ 32 * unat c1 + 8 * unat n = unat c0 + lo + 2 ^ 32 * (unat c1 + hi)"
      using split by simp
    ultimately show ?thesis
      using False by (simp only: Let_def if_False c0' halves_mod not_le)
  qed
qed

lemma blocks_of_64: "x = 64 * k + e \<Longrightarrow> e < 64 \<Longrightarrow> x mod 64 = e \<and> x div 64 = (k :: nat)"
  by simp

lemma unat_and_63: "unat ((w :: u32) AND 0x3F) = unat w mod 64"
proof -
  have "w AND 0x3F = take_bit 6 w" by (simp add: take_bit_eq_mask mask_numeral)
  then have "unat (w AND 0x3F) = take_bit 6 (unat w)" by (simp only: unsigned_take_bit_eq)
  then show ?thesis by (simp only: take_bit_eq_mod) simp
qed

lemma absorbed_idx:
  assumes "absorbed ctx m"
  shows "unat (drop_bit 3 (count0 ctx) AND 0x3F) = length m mod 64"
proof -
  have "unat (count0 ctx) = md5_bits ctx mod 2 ^ 32"
    using unsigned_less [of "count0 ctx", where 'a = nat] by (simp add: md5_bits_def)
  also have "\<dots> = 8 * length m mod 2 ^ 32"
    using assms by (simp add: absorbed_def mod_mod_cancel)
  finally have c0: "unat (count0 ctx) = 8 * length m mod 2 ^ 32" .
  have "unat (drop_bit 3 (count0 ctx) AND 0x3F) = unat (count0 ctx) div 8 mod 64"
    by (simp add: unat_and_63 drop_bit_eq_div unat_div)
  also have "\<dots> = length m mod 64"
  proof -
    have "8 * length m mod 2 ^ 32 = 8 * (length m mod 2 ^ 29)"
      using mod_mult_mult1 [of 8 "length m" "2 ^ 29"] by simp
    then show ?thesis
      unfolding c0 by (simp add: mod_mod_cancel)
  qed
  finally show ?thesis .
qed

lemma absorbed_bits:
  assumes "absorbed ctx m" and "length input < 2 ^ 32"
  shows "md5_bits (MD5Update ctx input) = 8 * length (m @ input) mod 2 ^ 64"
proof -
  let ?n = "of_nat (length input) :: u32"
  have n: "unat ?n = length input" using assms(2) by (simp add: unat_of_nat)
  have "md5_bits (MD5Update ctx input) = (md5_bits ctx + 8 * unat ?n) mod 2 ^ 64"
    using count_carry [of "count0 ctx" ?n "count1 ctx"]
    by (simp add: MD5Update_def md5_bits_def Let_def case_prod_beta)
  also have "\<dots> = (8 * length m + 8 * length input) mod 2 ^ 64"
    using assms(1) unfolding absorbed_def n by (metis mod_add_left_eq)
  finally show ?thesis by simp
qed

text \<open>One update absorbs its input, wherever the previous one stopped.\<close>

lemma absorbed_update:
  assumes ctx: "absorbed ctx m" and len: "length input < 2 ^ 32"
  shows "absorbed (MD5Update ctx input) (m @ input)"
proof -
  define q where "q = length m div 64"
  define r where "r = length m mod 64"
  define whole where "whole = take (64 * q) m"
  define rest where "rest = drop (64 * q) m"
  have m: "m = whole @ rest" and r: "r < 64" and lm: "length m = 64 * q + r"
    and ld: "length whole = 64 * q" and lr: "length rest = r"
    by (simp_all add: whole_def rest_def q_def r_def minus_mult_div_eq_mod)
  have idx: "unat (drop_bit 3 (count0 ctx) AND 0x3F) = r"
    using absorbed_idx [OF ctx] by (simp add: r_def)
  have "state ctx = md5_blocks md5_init_state (whole @ rest)"
    and buf: "take r (buffer ctx) = rest" "length (buffer ctx) = 64"
    using ctx unfolding absorbed_def by (simp_all add: rest_def whole_def q_def r_def)
  then have st: "state ctx = md5_blocks md5_init_state whole"
    using r by (simp add: md5_blocks_append [OF ld] md5_blocks_short lr)
  have bits: "md5_bits (MD5Update ctx input) = 8 * length (m @ input) mod 2 ^ 64"
    using absorbed_bits [OF ctx len] .
  show ?thesis
  proof (cases "64 - r \<le> length input")
    case True
    let ?p = "64 - r" and ?n = "length input"
    let ?i = "?p + 64 * ((?n - ?p) div 64)"
    let ?buf = "rest @ take ?p input"
    have pre: "memcpy_at (buffer ctx) r (take ?p input) = ?buf"
      using True r buf by (simp add: memcpy_at_def)
    have lb: "length ?buf = 64" using True r lr by simp
    have upd: "state (MD5Update ctx input) =
        md5_blocks (MD5Transform (state ctx) ?buf) (drop ?p input)"
      "buffer (MD5Update ctx input) = memcpy_at ?buf 0 (drop ?i input)"
      using True by (simp_all add: MD5Update_def Let_def idx pre md5_update_loop_blocks)
    have mi: "m @ input = whole @ ?buf @ drop ?p input"
      by (simp add: m)
    have "md5_blocks md5_init_state (m @ input)
        = md5_blocks (md5_blocks (md5_blocks md5_init_state whole) ?buf) (drop ?p input)"
      unfolding mi md5_blocks_append [OF ld] by (rule md5_blocks_append [of _ 1]) (simp only: lb)
    also have "\<dots> = md5_blocks (MD5Transform (state ctx) ?buf) (drop ?p input)"
      by (simp only: st md5_blocks_one [OF lb])
    finally have "md5_blocks md5_init_state (m @ input)
        = md5_blocks (MD5Transform (state ctx) ?buf) (drop ?p input)" .
    moreover have tot: "length (m @ input) = 64 * (q + 1 + (?n - ?p) div 64) + (?n - ?i)"
      using True r lm by simp
    have "?n - ?i = (?n - ?p) mod 64"
      using True by (simp add: minus_mult_div_eq_mod diff_diff_eq [symmetric])
    then have "?n - ?i < 64" by simp
    then have len: "length (m @ input) mod 64 = ?n - ?i"
      "64 * (length (m @ input) div 64) = 64 * q + 64 + (?i - ?p)"
      using blocks_of_64 [OF tot] by simp_all
    moreover have "length (memcpy_at ?buf 0 (drop ?i input)) = 64"
      using lb \<open>?n - ?i < 64\<close> by (subst length_memcpy_at) (simp_all only: length_drop)
    moreover have "take (?n - ?i) (memcpy_at ?buf 0 (drop ?i input)) = drop ?i input"
      using take_memcpy_at [of "drop ?i input" ?buf] by (simp only: length_drop)
    moreover have "drop (64 * q + 64 + (?i - ?p)) (m @ input) = drop ?i input"
      using True r by (simp add: lm)
    moreover have "md5_bits (MD5Update ctx input) = 8 * length (m @ input) mod 2 ^ 64"
      by (rule bits)
    ultimately show ?thesis
      unfolding absorbed_def len upd by (simp only:)
  next
    case False
    then have short: "length (rest @ input) < 64" using r lr by simp
    have "length (m @ input) = 64 * q + length (rest @ input)"
      by (simp add: lm lr)
    from blocks_of_64 [OF this short]
    have len: "length (m @ input) mod 64 = length (rest @ input)"
      "length (m @ input) div 64 = q"
      by simp_all
    have upd: "state (MD5Update ctx input) = state ctx"
      "buffer (MD5Update ctx input) = memcpy_at (buffer ctx) r input"
      using False by (simp_all add: MD5Update_def Let_def idx)
    have "md5_blocks md5_init_state (m @ input) = state ctx"
      using md5_blocks_append [OF ld] md5_blocks_short [OF short] by (simp add: m st)
    moreover have "drop (64 * q) (m @ input) = rest @ input"
      using ld by (simp add: m)
    moreover have "memcpy_at (buffer ctx) r input = rest @ input @ drop (r + length input) (buffer ctx)"
      by (simp add: memcpy_at_def buf)
    ultimately show ?thesis
      unfolding absorbed_def len upd using bits short buf(2)
      by (simp add: lr)
  qed
qed

lemma absorbed_count:
  assumes "absorbed ctx m"
  shows "count0 ctx = of_nat (8 * length m)" "count1 ctx = of_nat (8 * length m div 2 ^ 32)"
proof -
  have b: "md5_bits ctx = 8 * length m mod 2 ^ 64"
    using assms by (simp add: absorbed_def)
  have lt: "unat (count0 ctx) < 2 ^ 32"
    using unsigned_less [of "count0 ctx", where 'a = nat] by simp
  then have "unat (count0 ctx) = md5_bits ctx mod 2 ^ 32" and "unat (count1 ctx) = md5_bits ctx div 2 ^ 32"
    by (simp_all add: md5_bits_def)
  moreover have "8 * length m mod 2 ^ 64 mod 2 ^ 32 = 8 * length m mod 2 ^ 32"
    by (simp add: mod_mod_cancel)
  moreover have "8 * length m mod 2 ^ 64 div 2 ^ 32 = 8 * length m div 2 ^ 32 mod 2 ^ 32"
    using mod_mult2_eq [of "8 * length m" "2 ^ 32" "2 ^ 32"] by simp
  moreover have "unat (of_nat n :: u32) = n mod 2 ^ 32" for n
    by (simp add: unat_of_nat)
  ultimately have "unat (count0 ctx) = unat (of_nat (8 * length m) :: u32)"
    "unat (count1 ctx) = unat (of_nat (8 * length m div 2 ^ 32) :: u32)"
    unfolding b by (simp_all only:)
  then show "count0 ctx = of_nat (8 * length m)" "count1 ctx = of_nat (8 * length m div 2 ^ 32)"
    by (simp_all only: word_unat_eq_iff)
qed

lemma Encode_words: "Encode [a, b] = st_le32 a @ st_le32 b" by simp

text \<open>Finishing a context that has absorbed a message gives the digest of the message.\<close>

lemma MD5Final_absorbed:
  assumes ctx: "absorbed ctx m"
  shows "fst (MD5Final ctx) = (case md5_reference m of (a, b, c, d) \<Rightarrow> Encode [a, b, c, d])"
proof -
  define padLen where "padLen = (let idx = length m mod 64 in if idx < 56 then 56 - idx else 120 - idx)"
  have pad: "absorbed (MD5Update ctx (take padLen PADDING)) (m @ take padLen PADDING)"
    by (rule absorbed_update [OF ctx]) (simp add: PADDING_def)
  have bits: "Encode [count0 ctx, count1 ctx]
      = st_le32 (of_nat (8 * length m)) @ st_le32 (of_nat (8 * length m div 2 ^ 32))"
    by (simp only: absorbed_count [OF ctx] Encode_words)
  have "absorbed (MD5Update (MD5Update ctx (take padLen PADDING)) (Encode [count0 ctx, count1 ctx]))
      ((m @ take padLen PADDING) @ Encode [count0 ctx, count1 ctx])"
    by (rule absorbed_update [OF pad]) simp
  also have "(m @ take padLen PADDING) @ Encode [count0 ctx, count1 ctx] = md5_pad m"
    by (simp only: bits) (simp add: md5_pad_def padLen_def Let_def)
  finally show ?thesis
    unfolding MD5Final_def absorbed_idx [OF ctx]
    by (simp add: absorbed_def md5_reference_def padLen_def Let_def)
qed

lemma md5_signature_absorbed:
  assumes "length (buffer my_md5) = 64" and "length key < 2 ^ 32"
  shows "md5_signature my_md5 key =
         (case md5_reference key of (a, b, c, d) \<Rightarrow> Encode [a, b, c, d])"
  using MD5Final_absorbed [OF absorbed_update [OF absorbed_init [OF assms(1)] assms(2)]]
  by (simp add: md5_signature_def)

text \<open>The hash of a key is the first word of its digest.\<close>

lemma hashkit_md5_word:
  assumes "length key < 2 ^ 32"
  shows "hashkit_md5 key = fst (md5_reference key)"
proof -
  obtain a b c d where s: "md5_reference key = (a, b, c, d)"
    by (cases "md5_reference key")
  have "md5_signature md5_stack key = Encode [a, b, c, d]"
    using md5_signature_absorbed [of md5_stack key] assms by (simp add: md5_stack_def s)
  then have "hashkit_md5 key = le32 (byte_of 0 a) (byte_of 1 a) (byte_of 2 a) (byte_of 3 a)"
    by (simp add: hashkit_md5_def Let_def st_le32_def le32_def or.commute or.left_commute or.assoc)
  then show ?thesis by (simp only: le32_bytes s fst_conv)
qed



end
