(* ===== verification/Hashkit.thy ===== *)
theory Hashkit
  imports Hashkit_Hashes Hashkit_CRC32 Hashkit_Jenkins Hashkit_MD5
begin

text \<open>
  The libhashkit object: \<open>hashkit.c\<close>, \<open>function.c\<close>, \<open>digest.c\<close>, \<open>algorithm.c\<close> and \<open>strerror.c\<close>. A
  function pointer is one of the library's hash functions or a caller's function, known by its
  address; \<open>custom\<close> gives the meaning of the caller's functions, \<open>have_hsieh\<close> is the build option
  \<open>HAVE_HSIEH_HASH\<close>, and a \<open>malloc\<close> is its result: \<open>None\<close> or a block with arbitrary contents.
\<close>

datatype hashkit_return_t =
    HASHKIT_SUCCESS
  | HASHKIT_FAILURE
  | HASHKIT_MEMORY_ALLOCATION_FAILURE
  | HASHKIT_MAXIMUM_RETURN

datatype hashkit_hash_algorithm_t =
    HASHKIT_HASH_DEFAULT
  | HASHKIT_HASH_MD5
  | HASHKIT_HASH_CRC
  | HASHKIT_HASH_FNV1_64
  | HASHKIT_HASH_FNV1A_64
  | HASHKIT_HASH_FNV1_32
  | HASHKIT_HASH_FNV1A_32
  | HASHKIT_HASH_HSIEH
  | HASHKIT_HASH_MURMUR
  | HASHKIT_HASH_JENKINS
  | HASHKIT_HASH_CUSTOM
  | HASHKIT_HASH_MAX

datatype hashkit_hash_fn =
    Fn_one_at_a_time
  | Fn_md5
  | Fn_crc32
  | Fn_fnv1_64
  | Fn_fnv1a_64
  | Fn_fnv1_32
  | Fn_fnv1a_32
  | Fn_hsieh
  | Fn_murmur
  | Fn_jenkins
  | Fn_custom nat

type_synonym ptr = "nat option"

type_synonym custom_hash = "nat \<Rightarrow> byte list \<Rightarrow> ptr \<Rightarrow> u32"

section \<open>\<open>algorithm.c\<close>\<close>

definition libhashkit_one_at_a_time :: "byte list \<Rightarrow> u32" where
  "libhashkit_one_at_a_time key = hashkit_one_at_a_time key"

definition libhashkit_md5 :: "byte list \<Rightarrow> u32" where
  "libhashkit_md5 key = hashkit_md5 key"

definition libhashkit_crc32 :: "byte list \<Rightarrow> u32" where
  "libhashkit_crc32 key = hashkit_crc32 key"

definition libhashkit_fnv1_64 :: "byte list \<Rightarrow> u32" where
  "libhashkit_fnv1_64 key = hashkit_fnv1_64 key"

definition libhashkit_fnv1a_64 :: "byte list \<Rightarrow> u32" where
  "libhashkit_fnv1a_64 key = hashkit_fnv1a_64 key"

definition libhashkit_fnv1_32 :: "byte list \<Rightarrow> u32" where
  "libhashkit_fnv1_32 key = hashkit_fnv1_32 key"

definition libhashkit_fnv1a_32 :: "byte list \<Rightarrow> u32" where
  "libhashkit_fnv1a_32 key = hashkit_fnv1a_32 key"

definition libhashkit_hsieh :: "byte list \<Rightarrow> u32" where
  "libhashkit_hsieh key = hashkit_hsieh key"

definition libhashkit_murmur :: "byte list \<Rightarrow> u32" where
  "libhashkit_murmur key = hashkit_murmur key"

text \<open>
  The key's address is taken odd, where only the bytes of the key are read; by
  \<open>jenkins_alignment\<close> every other address gives the same hash.
\<close>

definition libhashkit_jenkins :: "byte list \<Rightarrow> u32" where
  "libhashkit_jenkins key = hashkit_jenkins 1 key (length key)"

definition libhashkit_md5_signature :: "MD5_CTX \<Rightarrow> byte list \<Rightarrow> byte list" where
  "libhashkit_md5_signature stack key = md5_signature stack key"

section \<open>\<open>hashkit.c\<close>\<close>

record hashkit_function_st =
  function_ptr :: hashkit_hash_fn
  context_ptr :: ptr

record hashkit_st =
  base_hash :: hashkit_function_st
  distribution_hash :: hashkit_function_st
  is_base_same_distributed :: bool
  is_allocated :: bool

definition global_default_hash :: hashkit_function_st where
  "global_default_hash = \<lparr>function_ptr = Fn_one_at_a_time, context_ptr = None\<rparr>"

definition hashkit_init :: "hashkit_st \<Rightarrow> hashkit_st" where
  "hashkit_init self =
     self\<lparr>base_hash := global_default_hash, distribution_hash := global_default_hash,
          is_base_same_distributed := False\<rparr>"

definition hashkit_alloc :: "hashkit_st option \<Rightarrow> hashkit_st option \<Rightarrow> hashkit_st option" where
  "hashkit_alloc malloc self =
     (case self of
        None \<Rightarrow> (case malloc of None \<Rightarrow> None | Some block \<Rightarrow> Some (block\<lparr>is_allocated := True\<rparr>))
      | Some s \<Rightarrow> Some (s\<lparr>is_allocated := False\<rparr>))"

definition hashkit_create :: "hashkit_st option \<Rightarrow> hashkit_st option \<Rightarrow> hashkit_st option" where
  "hashkit_create malloc self =
     (case hashkit_alloc malloc self of None \<Rightarrow> None | Some s \<Rightarrow> Some (hashkit_init s))"

text \<open>Whether \<open>free\<close> is called on the object.\<close>

definition hashkit_free :: "hashkit_st \<Rightarrow> bool" where
  "hashkit_free self = is_allocated self"

definition hashkit_clone ::
  "hashkit_st option \<Rightarrow> hashkit_st option \<Rightarrow> hashkit_st option \<Rightarrow> hashkit_st option" where
  "hashkit_clone malloc destination source =
     (case source of
        None \<Rightarrow> hashkit_create malloc destination
      | Some src \<Rightarrow>
         (case hashkit_alloc malloc destination of
            None \<Rightarrow> None
          | Some d \<Rightarrow>
              Some (d\<lparr>base_hash := base_hash src, distribution_hash := distribution_hash src,
                      is_base_same_distributed := is_base_same_distributed src\<rparr>)))"

definition hashkit_compare :: "hashkit_st \<Rightarrow> hashkit_st \<Rightarrow> bool" where
  "hashkit_compare first second =
     (if function_ptr (base_hash first) = function_ptr (base_hash second) \<and>
         context_ptr (base_hash first) = context_ptr (base_hash second) \<and>
         function_ptr (distribution_hash first) = function_ptr (distribution_hash second) \<and>
         context_ptr (distribution_hash first) = context_ptr (distribution_hash second) \<and>
         is_base_same_distributed first = is_base_same_distributed second
      then True else False)"

section \<open>\<open>function.c\<close>\<close>

definition set_function ::
  "bool \<Rightarrow> hashkit_function_st \<Rightarrow> hashkit_hash_algorithm_t \<Rightarrow> hashkit_return_t \<times> hashkit_function_st" where
  "set_function have_hsieh self hash_algorithm =
     (let use = (\<lambda>f. (HASHKIT_SUCCESS, self\<lparr>function_ptr := f, context_ptr := None\<rparr>))
      in case hash_algorithm of
           HASHKIT_HASH_DEFAULT \<Rightarrow> use Fn_one_at_a_time
         | HASHKIT_HASH_MD5 \<Rightarrow> use Fn_md5
         | HASHKIT_HASH_CRC \<Rightarrow> use Fn_crc32
         | HASHKIT_HASH_FNV1_64 \<Rightarrow> use Fn_fnv1_64
         | HASHKIT_HASH_FNV1A_64 \<Rightarrow> use Fn_fnv1a_64
         | HASHKIT_HASH_FNV1_32 \<Rightarrow> use Fn_fnv1_32
         | HASHKIT_HASH_FNV1A_32 \<Rightarrow> use Fn_fnv1a_32
         | HASHKIT_HASH_HSIEH \<Rightarrow> (if have_hsieh then use Fn_hsieh else (HASHKIT_FAILURE, self))
         | HASHKIT_HASH_MURMUR \<Rightarrow> use Fn_murmur
         | HASHKIT_HASH_JENKINS \<Rightarrow> use Fn_jenkins
         | HASHKIT_HASH_CUSTOM \<Rightarrow> (HASHKIT_FAILURE, self)
         | HASHKIT_HASH_MAX \<Rightarrow> (HASHKIT_FAILURE, self))"

definition hashkit_set_function ::
  "bool \<Rightarrow> hashkit_st \<Rightarrow> hashkit_hash_algorithm_t \<Rightarrow> hashkit_return_t \<times> hashkit_st" where
  "hashkit_set_function have_hsieh self alg =
     (case set_function have_hsieh (base_hash self) alg of (rc, f) \<Rightarrow> (rc, self\<lparr>base_hash := f\<rparr>))"

definition hashkit_set_distribution_function ::
  "bool \<Rightarrow> hashkit_st \<Rightarrow> hashkit_hash_algorithm_t \<Rightarrow> hashkit_return_t \<times> hashkit_st" where
  "hashkit_set_distribution_function have_hsieh self alg =
     (case set_function have_hsieh (distribution_hash self) alg of
        (rc, f) \<Rightarrow> (rc, self\<lparr>distribution_hash := f\<rparr>))"

text \<open>A \<open>NULL\<close> function pointer is \<open>None\<close>.\<close>

definition set_custom_function ::
  "hashkit_function_st \<Rightarrow> hashkit_hash_fn option \<Rightarrow> ptr \<Rightarrow> hashkit_return_t \<times> hashkit_function_st" where
  "set_custom_function self function context =
     (case function of
        Some f \<Rightarrow> (HASHKIT_SUCCESS, self\<lparr>function_ptr := f, context_ptr := context\<rparr>)
      | None \<Rightarrow> (HASHKIT_FAILURE, self))"

definition hashkit_set_custom_function ::
  "hashkit_st \<Rightarrow> hashkit_hash_fn option \<Rightarrow> ptr \<Rightarrow> hashkit_return_t \<times> hashkit_st" where
  "hashkit_set_custom_function self function context =
     (case set_custom_function (base_hash self) function context of
        (rc, f) \<Rightarrow> (rc, self\<lparr>base_hash := f\<rparr>))"

definition hashkit_set_custom_distribution_function ::
  "hashkit_st \<Rightarrow> hashkit_hash_fn option \<Rightarrow> ptr \<Rightarrow> hashkit_return_t \<times> hashkit_st" where
  "hashkit_set_custom_distribution_function self function context =
     (case set_custom_function (distribution_hash self) function context of
        (rc, f) \<Rightarrow> (rc, self\<lparr>distribution_hash := f\<rparr>))"

definition get_function_type :: "bool \<Rightarrow> hashkit_hash_fn \<Rightarrow> hashkit_hash_algorithm_t" where
  "get_function_type have_hsieh function =
     (if function = Fn_one_at_a_time then HASHKIT_HASH_DEFAULT
      else if function = Fn_md5 then HASHKIT_HASH_MD5
      else if function = Fn_crc32 then HASHKIT_HASH_CRC
      else if function = Fn_fnv1_64 then HASHKIT_HASH_FNV1_64
      else if function = Fn_fnv1a_64 then HASHKIT_HASH_FNV1A_64
      else if function = Fn_fnv1_32 then HASHKIT_HASH_FNV1_32
      else if function = Fn_fnv1a_32 then HASHKIT_HASH_FNV1A_32
      else if have_hsieh \<and> function = Fn_hsieh then HASHKIT_HASH_HSIEH
      else if function = Fn_murmur then HASHKIT_HASH_MURMUR
      else if function = Fn_jenkins then HASHKIT_HASH_JENKINS
      else HASHKIT_HASH_CUSTOM)"

definition hashkit_get_function :: "bool \<Rightarrow> hashkit_st \<Rightarrow> hashkit_hash_algorithm_t" where
  "hashkit_get_function have_hsieh self = get_function_type have_hsieh (function_ptr (base_hash self))"

definition hashkit_get_distribution_function :: "bool \<Rightarrow> hashkit_st \<Rightarrow> hashkit_hash_algorithm_t" where
  "hashkit_get_distribution_function have_hsieh self =
     get_function_type have_hsieh (function_ptr (distribution_hash self))"

section \<open>\<open>digest.c\<close>\<close>

text \<open>The call through the function pointer.\<close>

fun call_hash :: "custom_hash \<Rightarrow> hashkit_hash_fn \<Rightarrow> byte list \<Rightarrow> ptr \<Rightarrow> u32" where
  "call_hash custom Fn_one_at_a_time key context = libhashkit_one_at_a_time key"
| "call_hash custom Fn_md5 key context = libhashkit_md5 key"
| "call_hash custom Fn_crc32 key context = libhashkit_crc32 key"
| "call_hash custom Fn_fnv1_64 key context = libhashkit_fnv1_64 key"
| "call_hash custom Fn_fnv1a_64 key context = libhashkit_fnv1a_64 key"
| "call_hash custom Fn_fnv1_32 key context = libhashkit_fnv1_32 key"
| "call_hash custom Fn_fnv1a_32 key context = libhashkit_fnv1a_32 key"
| "call_hash custom Fn_hsieh key context = libhashkit_hsieh key"
| "call_hash custom Fn_murmur key context = libhashkit_murmur key"
| "call_hash custom Fn_jenkins key context = libhashkit_jenkins key"
| "call_hash custom (Fn_custom f) key context = custom f key context"

definition hashkit_digest :: "custom_hash \<Rightarrow> hashkit_st \<Rightarrow> byte list \<Rightarrow> u32" where
  "hashkit_digest custom self key =
     call_hash custom (function_ptr (base_hash self)) key (context_ptr (base_hash self))"

definition libhashkit_digest :: "bool \<Rightarrow> byte list \<Rightarrow> hashkit_hash_algorithm_t \<Rightarrow> u32" where
  "libhashkit_digest have_hsieh key hash_algorithm =
     (case hash_algorithm of
        HASHKIT_HASH_DEFAULT \<Rightarrow> libhashkit_one_at_a_time key
      | HASHKIT_HASH_MD5 \<Rightarrow> libhashkit_md5 key
      | HASHKIT_HASH_CRC \<Rightarrow> libhashkit_crc32 key
      | HASHKIT_HASH_FNV1_64 \<Rightarrow> libhashkit_fnv1_64 key
      | HASHKIT_HASH_FNV1A_64 \<Rightarrow> libhashkit_fnv1a_64 key
      | HASHKIT_HASH_FNV1_32 \<Rightarrow> libhashkit_fnv1_32 key
      | HASHKIT_HASH_FNV1A_32 \<Rightarrow> libhashkit_fnv1a_32 key
      | HASHKIT_HASH_HSIEH \<Rightarrow> (if have_hsieh then libhashkit_hsieh key else 1)
      | HASHKIT_HASH_MURMUR \<Rightarrow> libhashkit_murmur key
      | HASHKIT_HASH_JENKINS \<Rightarrow> libhashkit_jenkins key
      | HASHKIT_HASH_CUSTOM \<Rightarrow> 1
      | HASHKIT_HASH_MAX \<Rightarrow> 1)"

section \<open>\<open>strerror.c\<close>\<close>

fun hashkit_strerror :: "hashkit_return_t \<Rightarrow> string" where
  "hashkit_strerror HASHKIT_SUCCESS = ''SUCCESS''"
| "hashkit_strerror HASHKIT_FAILURE = ''FAILURE''"
| "hashkit_strerror HASHKIT_MEMORY_ALLOCATION_FAILURE = ''MEMORY ALLOCATION FAILURE''"
| "hashkit_strerror HASHKIT_MAXIMUM_RETURN = ''Gibberish returned!''"

section \<open>Properties\<close>

text \<open>The algorithms a build supports.\<close>

definition supported :: "bool \<Rightarrow> hashkit_hash_algorithm_t \<Rightarrow> bool" where
  "supported have_hsieh alg \<longleftrightarrow>
     alg \<notin> {HASHKIT_HASH_CUSTOM, HASHKIT_HASH_MAX} \<and> (alg = HASHKIT_HASH_HSIEH \<longrightarrow> have_hsieh)"

lemma set_function_cases:
  "set_function have_hsieh self alg =
     (if supported have_hsieh alg
      then (HASHKIT_SUCCESS, snd (set_function have_hsieh self alg))
      else (HASHKIT_FAILURE, self))"
  by (cases alg) (simp_all add: set_function_def supported_def)

lemma get_set_function:
  "supported have_hsieh alg \<Longrightarrow>
   get_function_type have_hsieh (function_ptr (snd (set_function have_hsieh self alg))) = alg"
  by (cases alg) (simp_all add: set_function_def get_function_type_def supported_def)

lemma call_set_function:
  "supported have_hsieh alg \<Longrightarrow>
   call_hash custom (function_ptr (snd (set_function have_hsieh self alg))) key c
   = libhashkit_digest have_hsieh key alg"
  by (cases alg) (simp_all add: set_function_def libhashkit_digest_def supported_def)

text \<open>
  \<open>hashkit_set_function\<close> fails exactly on the algorithms the build does not have, and then
  changes nothing; otherwise the getter returns the algorithm, the digest is the one
  \<open>libhashkit_digest\<close> computes for it, and the distribution hash is untouched.
\<close>

lemma hashkit_set_function_correct:
  "case hashkit_set_function have_hsieh self alg of (rc, self') \<Rightarrow>
     if supported have_hsieh alg
     then rc = HASHKIT_SUCCESS \<and>
          hashkit_get_function have_hsieh self' = alg \<and>
          hashkit_digest custom self' key = libhashkit_digest have_hsieh key alg \<and>
          distribution_hash self' = distribution_hash self
     else rc = HASHKIT_FAILURE \<and> self' = self \<and> libhashkit_digest have_hsieh key alg = 1"
proof (cases "supported have_hsieh alg")
  case True
  then show ?thesis
    by (subst (1) hashkit_set_function_def, subst set_function_cases)
       (simp add: hashkit_get_function_def hashkit_digest_def get_set_function call_set_function)
next
  case False
  then have "libhashkit_digest have_hsieh key alg = 1"
    by (cases alg) (simp_all add: supported_def libhashkit_digest_def)
  with False show ?thesis
    by (subst hashkit_set_function_def, subst set_function_cases) simp
qed

text \<open>
  a clone compares equal to its source, digests every key as its source does, and is freed
  exactly when the library allocated it; without memory there is no clone.
\<close>

lemma hashkit_clone_correct:
  "case hashkit_clone malloc destination (Some source) of
     None \<Rightarrow> destination = None \<and> malloc = None
   | Some copy \<Rightarrow>
       hashkit_compare copy source \<and>
       hashkit_digest custom copy key = hashkit_digest custom source key \<and>
       hashkit_free copy = (destination = None)"
  by (auto simp: hashkit_clone_def hashkit_alloc_def hashkit_compare_def hashkit_digest_def
        hashkit_free_def split: option.splits)

end
