(* ===== verification/Memcached.thy ===== *)
theory Memcached
  imports Servers Hashkit
begin

text \<open>
  The client object \<open>memcached_st\<close> (\<open>memcached.h\<close>), its creation and the plain accessors of
  \<open>memcached.c\<close>, the allocator table of \<open>allocators.c\<close>. The flags are a record of their own, as in
  the structure. The server array is the list \<open>servers\<close> (\<open>NULL\<close> is the empty list), the
  continuum the list of its allocated entries. Pointers to user data, callbacks and the SASL
  object are addresses.
\<close>

record memcached_flags =
  auto_eject_hosts :: bool
  binary_protocol :: bool
  buffer_requests :: bool
  cork :: bool
  hash_with_prefix_key :: bool
  ketama_weighted :: bool
  no_block :: bool
  no_reply :: bool
  randomize_replica_read :: bool
  reuse_memory :: bool
  support_cas :: bool
  tcp_nodelay :: bool
  use_cache_lookups :: bool
  use_sort_hosts :: bool
  use_udp :: bool
  verify_key :: bool
  tcp_keepalive :: bool

record memcached_state =
  is_purging :: bool
  is_processing_input :: bool
  is_time_for_rebuild :: bool

text \<open>An allocation function of the library, or the caller's at some address.\<close>

datatype alloc_fn = Default_alloc_fn | Custom_alloc_fn nat

record allocators_st =
  alloc_calloc :: alloc_fn
  alloc_free :: alloc_fn
  alloc_malloc :: alloc_fn
  alloc_realloc :: alloc_fn
  alloc_context :: ptr

record memcached_continuum_item_st =
  point_index :: u32
  point_value :: u32

record memcached_st =
  memc_state :: memcached_state
  flags :: memcached_flags
  distribution :: memcached_server_distribution_t
  hashkit :: hashkit_st
  continuum_points_counter :: u32
  memc_number_of_hosts :: u32
  servers :: "memcached_server_st list"
  last_disconnected_server :: "memcached_server_st option"
  snd_timeout :: "32 word"
  rcv_timeout :: "32 word"
  server_failure_limit :: u32
  io_msg_watermark :: u32
  io_bytes_watermark :: u32
  io_key_prefetch :: u32
  tcp_keepidle :: u32
  memc_cached_errno :: int
  poll_timeout :: "32 word"
  connect_timeout :: "32 word"
  retry_timeout :: "32 word"
  continuum_count :: u32
  send_size :: "32 word"
  recv_size :: "32 word"
  user_data :: ptr
  next_distribution_rebuild :: int
  prefix_key_length :: nat
  number_of_replicas :: u32
  distribution_hashkit :: hashkit_st
  result :: memcached_result_st
  continuum :: "memcached_continuum_item_st list"
  allocators :: allocators_st
  on_clone :: ptr
  on_cleanup :: ptr
  get_key_failure :: ptr
  delete_trigger :: ptr
  callbacks :: ptr
  sasl :: ptr
  prefix_key :: "byte list"
  memc_is_allocated :: bool

section \<open>\<open>allocators.c\<close>\<close>

definition memcached_allocators_return_default :: allocators_st where
  "memcached_allocators_return_default =
     \<lparr>alloc_calloc = Default_alloc_fn, alloc_free = Default_alloc_fn, alloc_malloc = Default_alloc_fn,
      alloc_realloc = Default_alloc_fn, alloc_context = None\<rparr>"

definition memcached_set_memory_allocators ::
  "memcached_st \<Rightarrow> alloc_fn option \<Rightarrow> alloc_fn option \<Rightarrow> alloc_fn option \<Rightarrow> alloc_fn option \<Rightarrow> ptr
   \<Rightarrow> memcached_return_t \<times> memcached_st" where
  "memcached_set_memory_allocators ptr mem_malloc mem_free mem_realloc mem_calloc context =
     (if mem_malloc = None \<and> mem_free = None \<and> mem_realloc = None \<and> mem_calloc = None
      then (MEMCACHED_SUCCESS, ptr\<lparr>allocators := memcached_allocators_return_default\<rparr>)
      else if mem_malloc = None \<or> mem_free = None \<or> mem_realloc = None \<or> mem_calloc = None
      then (MEMCACHED_FAILURE, ptr)
      else (MEMCACHED_SUCCESS,
            ptr\<lparr>allocators := \<lparr>alloc_calloc = the mem_calloc, alloc_free = the mem_free,
                               alloc_malloc = the mem_malloc, alloc_realloc = the mem_realloc,
                               alloc_context = context\<rparr>\<rparr>))"

definition memcached_get_memory_allocators_context :: "memcached_st \<Rightarrow> ptr" where
  "memcached_get_memory_allocators_context ptr = alloc_context (allocators ptr)"

definition memcached_get_memory_allocators ::
  "memcached_st \<Rightarrow> alloc_fn \<times> alloc_fn \<times> alloc_fn \<times> alloc_fn" where
  "memcached_get_memory_allocators ptr =
     (alloc_malloc (allocators ptr), alloc_free (allocators ptr),
      alloc_realloc (allocators ptr), alloc_calloc (allocators ptr))"

section \<open>\<open>memcached.c\<close>\<close>

definition global_copy_state :: memcached_state where
  "global_copy_state =
     \<lparr>is_purging = False, is_processing_input = False, is_time_for_rebuild = False\<rparr>"

definition global_copy_flags :: memcached_flags where
  "global_copy_flags =
     \<lparr>auto_eject_hosts = False, binary_protocol = False, buffer_requests = False, cork = False,
      hash_with_prefix_key = False, ketama_weighted = False, no_block = False, no_reply = False,
      randomize_replica_read = False, reuse_memory = False, support_cas = False,
      tcp_nodelay = False, use_cache_lookups = False, use_sort_hosts = False, use_udp = False,
      verify_key = False, tcp_keepalive = False\<rparr>"

text \<open>Creating a hash object in the caller's memory cannot fail.\<close>

definition memcached_init :: "memcached_st \<Rightarrow> memcached_st" where
  "memcached_init self =
     self\<lparr>memc_state := global_copy_state, flags := global_copy_flags,
          distribution := MEMCACHED_DISTRIBUTION_MODULA,
          hashkit := the (hashkit_create None (Some (hashkit self))),
          continuum_points_counter := 0, memc_number_of_hosts := 0, servers := [],
          last_disconnected_server := None, snd_timeout := 0, rcv_timeout := 0,
          server_failure_limit := 0, io_msg_watermark := 500, io_bytes_watermark := 65 * 1024,
          tcp_keepidle := 0, io_key_prefetch := 0, memc_cached_errno := 0, poll_timeout := 5000,
          connect_timeout := 4000, retry_timeout := 0, continuum_count := 0, send_size := - 1,
          recv_size := - 1, user_data := None, next_distribution_rebuild := 0,
          prefix_key_length := 0, number_of_replicas := 0,
          distribution_hashkit := the (hashkit_create None (Some (distribution_hashkit self))),
          continuum := [], allocators := memcached_allocators_return_default, on_clone := None,
          on_cleanup := None, get_key_failure := None, delete_trigger := None, callbacks := None,
          sasl := None\<rparr>"

definition memcached_create ::
  "realloc_fn \<Rightarrow> memcached_st option \<Rightarrow> memcached_st option \<Rightarrow> memcached_st option" where
  "memcached_create realloc malloc ptr =
     (case (case ptr of
              None \<Rightarrow> map_option (\<lambda>p. p\<lparr>memc_is_allocated := True\<rparr>) malloc
            | Some p \<Rightarrow> Some (p\<lparr>memc_is_allocated := False\<rparr>)) of
        None \<Rightarrow> None
      | Some p \<Rightarrow>
          (let p = memcached_init p
           in case memcached_result_create realloc None (Some (result p)) of
                None \<Rightarrow> None
              | Some r \<Rightarrow> Some (p\<lparr>result := r\<rparr>)))"

definition memcached_get_user_data :: "memcached_st \<Rightarrow> ptr" where
  "memcached_get_user_data p = user_data p"

definition memcached_set_user_data :: "memcached_st \<Rightarrow> ptr \<Rightarrow> ptr \<times> memcached_st" where
  "memcached_set_user_data p data = (user_data p, p\<lparr>user_data := data\<rparr>)"

definition memcached_server_count :: "memcached_st \<Rightarrow> u32" where
  "memcached_server_count self = memc_number_of_hosts self"

definition memcached_server_list :: "memcached_st \<Rightarrow> memcached_server_st list" where
  "memcached_server_list self = servers self"

definition memcached_server_list_set :: "memcached_st \<Rightarrow> memcached_server_st list \<Rightarrow> memcached_st" where
  "memcached_server_list_set self l = self\<lparr>servers := l\<rparr>"

definition memcached_server_instance_by_position :: "memcached_st \<Rightarrow> u32 \<Rightarrow> memcached_server_st" where
  "memcached_server_instance_by_position p server_key = servers p ! unat server_key"

text \<open>The servers are freed, the continuum is kept.\<close>

definition memcached_servers_reset :: "memcached_st \<Rightarrow> memcached_st" where
  "memcached_servers_reset p =
     p\<lparr>servers := [], memc_number_of_hosts := 0, last_disconnected_server := None,
       server_failure_limit := 0\<rparr>"

definition memcached_reset_last_disconnected_server :: "memcached_st \<Rightarrow> memcached_st" where
  "memcached_reset_last_disconnected_server p =
     (if last_disconnected_server p \<noteq> None then p\<lparr>last_disconnected_server := None\<rparr> else p)"

definition is_auto_eject_host :: "memcached_st \<Rightarrow> bool" where
  "is_auto_eject_host p = auto_eject_hosts (flags p)"

definition memcached_get_hashkit :: "memcached_st \<Rightarrow> hashkit_st" where
  "memcached_get_hashkit p = hashkit p"

definition memcached_set_hashkit :: "memcached_st \<Rightarrow> hashkit_st option \<Rightarrow> memcached_return_t \<times> memcached_st" where
  "memcached_set_hashkit self hashk =
     (MEMCACHED_SUCCESS, self\<lparr>hashkit := the (hashkit_clone None (Some (hashkit self)) hashk)\<rparr>)"

end
