(* ===== verification/Float32.thy ===== *)
theory Float32
  imports Prelude "HOL-Library.Log_Nat" "HOL-Library.Multiset"
begin

text \<open>
  The C arithmetic on \<open>float\<close> and \<open>double\<close> that \<open>update_continuum\<close> does: IEEE 754 rounding to
  nearest, ties to even, on rational numbers, with 24 and 53 bits of significand. The values
  there lie far inside the normal range, so that neither overflow nor subnormal numbers occur.
  Also here: \<open>qsort\<close> with a comparison function, modelled as the stable sort of the C library on
  the target.
\<close>

definition round_half_even :: "rat \<Rightarrow> int" where
  "round_half_even x =
     (let f = \<lfloor>x\<rfloor>; r = x - of_int f
      in if r < 1 / 2 then f else if 1 / 2 < r then f + 1 else if even f then f else f + 1)"

text \<open>The exponent of the leading bit of a positive number: \<open>2 ^ e \<le> x < 2 ^ (e + 1)\<close>.\<close>

definition leading_exp :: "rat \<Rightarrow> int" where
  "leading_exp x =
     (case quotient_of x of
        (n, d) \<Rightarrow>
          (let e = int (floorlog 2 (nat n)) - int (floorlog 2 (nat d))
           in if 2 powi e \<le> x then e else e - 1))"

definition round_to :: "nat \<Rightarrow> rat \<Rightarrow> rat" where
  "round_to bits x =
     (if x \<le> 0 then 0
      else let u = 2 powi (leading_exp x - (int bits - 1)) in of_int (round_half_even (x / u)) * u)"

definition float32 :: "rat \<Rightarrow> rat" where "float32 = round_to 24"
definition float64 :: "rat \<Rightarrow> rat" where "float64 = round_to 53"

section \<open>The rounding error\<close>

lemma leading_exp_le:
  assumes "0 < x"
  shows "2 powi leading_exp x \<le> x"
proof -
  obtain n d where q: "quotient_of x = (n, d)" by (cases "quotient_of x")
  have d: "0 < d" and x: "x = of_int n / of_int d"
    using quotient_of_denom_pos [OF q] quotient_of_div [OF q] by simp_all
  then have n: "0 < n" using assms by (simp add: zero_less_divide_iff)
  let ?a = "floorlog 2 (nat n)" and ?b = "floorlog 2 (nat d)"
  have "2 ^ (?a - 1) \<le> nat n" "nat d < 2 ^ ?b"
    using floorlog_bounds [of "nat n" 2] floorlog_bounds [of "nat d" 2] n d by auto
  then have "int (2 ^ (?a - 1)) \<le> int (nat n)" "int (nat d) < int (2 ^ ?b)"
    by (simp_all only: of_nat_le_iff of_nat_less_iff)
  moreover have "int (nat n) = n" "int (nat d) = d" using n d by auto
  ultimately have "(2 :: int) ^ (?a - 1) \<le> n" "d < 2 ^ ?b"
    by (simp_all only: of_nat_power of_nat_numeral)
  have "0 < ?a" using n floorlog_eq_zero_iff [of 2 "nat n"] by auto
  from \<open>2 ^ (?a - 1) \<le> n\<close> \<open>d < 2 ^ ?b\<close> have nb: "(2 :: rat) ^ (?a - 1) \<le> of_int n" and db: "of_int d < (2 :: rat) ^ ?b"
    by (metis of_int_le_iff of_int_numeral of_int_power, metis of_int_less_iff of_int_numeral of_int_power)
  have "(2 :: rat) powi (int ?a - int ?b - 1) = 2 ^ (?a - 1) / 2 ^ ?b"
    using \<open>0 < ?a\<close> by (simp add: power_int_diff power_diff)
  also have "\<dots> \<le> of_int n / of_int d"
    using nb db n d by (intro frac_le) simp_all
  finally have "2 powi (int ?a - int ?b - 1) \<le> x" by (simp add: x)
  then show ?thesis by (simp add: leading_exp_def q Let_def)
qed

lemma round_half_even_error: "\<bar>of_int (round_half_even x) - x\<bar> \<le> 1 / 2"
proof -
  have "of_int \<lfloor>x\<rfloor> \<le> x" "x < of_int \<lfloor>x\<rfloor> + 1" by linarith+
  then show ?thesis by (auto simp: round_half_even_def Let_def abs_le_iff)
qed

lemma round_to_error:
  assumes "0 < x"
  shows "\<bar>round_to bits x - x\<bar> \<le> x / 2 ^ bits"
proof -
  let ?e = "leading_exp x" 
  define u :: rat where "u = 2 powi (?e - (int bits - 1))"
  have u: "0 < u" by (simp add: u_def)
  have "\<bar>of_int (round_half_even (x / u)) - x / u\<bar> * u \<le> 1 / 2 * u"
    using round_half_even_error u by (intro mult_right_mono) simp_all
  moreover have "(of_int (round_half_even (x / u)) - x / u) * u = of_int (round_half_even (x / u)) * u - x"
    using u by (simp add: left_diff_distrib)
  moreover have "\<bar>(of_int (round_half_even (x / u)) - x / u) * u\<bar>
      = \<bar>of_int (round_half_even (x / u)) - x / u\<bar> * u"
    using u by (simp add: abs_mult)
  ultimately have "\<bar>of_int (round_half_even (x / u)) * u - x\<bar> \<le> u / 2"
    by simp
  also have "u / 2 = 2 powi ?e / 2 ^ bits"
    by (simp add: u_def power_int_diff power_int_add)
  also have "\<dots> \<le> x / 2 ^ bits"
    using leading_exp_le [OF assms] by (simp add: divide_right_mono)
  finally show ?thesis
    using assms by (simp add: round_to_def u_def Let_def)
qed

lemma round_to_nonneg: "0 \<le> round_to bits x"
proof (cases "0 < x")
  case True
  then show ?thesis
  proof -
    have "0 \<le> round_half_even y" if "0 \<le> y" for y
      using that by (simp add: round_half_even_def Let_def)
    with True show ?thesis by (simp add: round_to_def Let_def)
  qed
qed (simp add: round_to_def)

lemma round_to_upper: "0 \<le> x \<Longrightarrow> round_to bits x \<le> x + x / 2 ^ bits"
  using round_to_error [of x bits] by (cases "x = 0") (simp add: round_to_def, linarith)

lemma round_to_lower: "0 \<le> x \<Longrightarrow> x - x / 2 ^ bits \<le> round_to bits x"
  using round_to_error [of x bits] by (cases "x = 0") (simp add: round_to_def, linarith)

lemma float32_upper: "0 \<le> x \<Longrightarrow> float32 x \<le> x * (1 + 1 / 2 ^ 24)"
  using round_to_upper [of x 24] by (simp add: float32_def algebra_simps)

lemma float32_lower: "0 \<le> x \<Longrightarrow> x * (1 - 1 / 2 ^ 24) \<le> float32 x"
  using round_to_lower [of x 24] by (simp add: float32_def algebra_simps)

lemma float64_upper: "0 \<le> x \<Longrightarrow> float64 x \<le> x * (1 + 1 / 2 ^ 53)"
  using round_to_upper [of x 53] by (simp add: float64_def algebra_simps)

lemma float_nonneg [simp]: "0 \<le> float32 x" "0 \<le> float64 x"
  by (simp_all add: float32_def float64_def round_to_nonneg)

text \<open>Integers that fit the significand are exact.\<close>

lemma round_half_even_int [simp]: "round_half_even (of_int k) = k"
  by (simp add: round_half_even_def Let_def)

lemma round_to_exact:
  assumes "0 \<le> k" and "k < 2 ^ bits"
  shows "round_to bits (of_int k) = of_int k"
proof (cases "k = 0")
  case False
  with assms have k: "0 < k" by simp
  let ?e = "leading_exp (of_int k)"
  have "2 powi ?e \<le> (of_int k :: rat)" using k by (intro leading_exp_le) simp
  also have "(of_int k :: rat) < 2 powi (int bits)"
    using assms(2) by (metis of_int_less_iff of_int_numeral of_int_power power_int_of_nat)
  finally have "2 powi ?e < (2 :: rat) powi int bits" .
  then have e: "?e < int bits"
    using power_int_increasing [of "int bits" ?e "2 :: rat"] by (rule_tac ccontr) simp
  define m where "m = nat (int bits - 1 - ?e)"
  have "(2 :: rat) powi (?e - (int bits - 1)) = 1 / 2 ^ m"
    using e by (auto simp: m_def power_int_def inverse_eq_divide power_one_over)
  then have "round_to bits (of_int k) = of_int (round_half_even (of_int (k * 2 ^ m))) * (1 / 2 ^ m)"
    using k by (simp add: round_to_def Let_def)
  then show ?thesis unfolding round_half_even_int by simp
qed (simp add: round_to_def)

lemma float32_exact: "0 \<le> k \<Longrightarrow> k < 2 ^ 24 \<Longrightarrow> float32 (of_int k) = of_int k"
  unfolding float32_def by (rule round_to_exact)

section \<open>\<open>qsort\<close>\<close>

fun insort_cmp :: "('a \<Rightarrow> 'a \<Rightarrow> int) \<Rightarrow> 'a \<Rightarrow> 'a list \<Rightarrow> 'a list" where
  "insort_cmp cmp x [] = [x]"
| "insort_cmp cmp x (y # ys) = (if cmp x y \<le> 0 then x # y # ys else y # insort_cmp cmp x ys)"

definition qsort :: "('a \<Rightarrow> 'a \<Rightarrow> int) \<Rightarrow> 'a list \<Rightarrow> 'a list" where
  "qsort cmp xs = foldr (insort_cmp cmp) xs []"

lemma mset_insort_cmp: "mset (insort_cmp cmp x ys) = add_mset x (mset ys)"
  by (induction ys) auto

lemma mset_qsort [simp]: "mset (qsort cmp xs) = mset xs"
  by (induction xs) (simp_all add: qsort_def mset_insort_cmp)

lemma set_qsort [simp]: "set (qsort cmp xs) = set xs"
  by (metis mset_qsort set_mset_mset)

lemma length_qsort [simp]: "length (qsort cmp xs) = length xs"
  by (metis mset_qsort size_mset)

text \<open>Sorting with a comparison of keys.\<close>

lemma insort_cmp_key:
  "(\<And>x y. cmp x y \<le> 0 \<longleftrightarrow> key x \<le> (key y :: 'k::linorder)) \<Longrightarrow> insort_cmp cmp x ys = insort_key key x ys"
  by (induction ys) auto

lemma qsort_key:
  assumes "\<And>x y. cmp x y \<le> 0 \<longleftrightarrow> key x \<le> (key y :: 'k::linorder)"
  shows "qsort cmp xs = sort_key key xs"
  by (induction xs) (simp_all add: qsort_def insort_cmp_key [OF assms] sort_key_def)

end
