(* ===== verification/Hosts.thy ===== *)
theory Hosts
  imports Memcached Float32
begin

text \<open>
  \<open>hosts.c\<close>: the server array of a client, the continuum of consistent hashing and the functions
  that add servers. What the code gets from its environment is the record \<open>memc_env\<close>: the caller's
  hash functions, the time of day (or the error of \<open>gettimeofday\<close>), whether arrays of a given
  number of entries can be had and what fresh memory contains, and the bytes of the stack behind
  the local buffer \<open>sort_host\<close>. The outcome \<open>None\<close> of \<open>update_continuum\<close> is a write behind the end
  of the continuum.
\<close>

record memc_env =
  e_custom :: custom_hash
  e_now :: "int + int"
  e_alloc_points :: "nat \<Rightarrow> bool"
  e_alloc_servers :: "nat \<Rightarrow> bool"
  e_junk_point :: memcached_continuum_item_st
  e_junk_server :: memcached_server_st
  e_beyond :: "byte list"

section \<open>Sorting the hosts\<close>

text \<open>The sign of \<open>strcmp\<close>: bytes are compared as \<open>unsigned char\<close>, a proper prefix is smaller.\<close>

fun strcmp_bytes :: "byte list \<Rightarrow> byte list \<Rightarrow> int" where
  "strcmp_bytes [] [] = 0"
| "strcmp_bytes [] (d # ds) = - 1"
| "strcmp_bytes (c # cs) [] = 1"
| "strcmp_bytes (c # cs) (d # ds) = (if c = d then strcmp_bytes cs ds else if c < d then - 1 else 1)"

definition strcmp :: "byte list \<Rightarrow> byte list \<Rightarrow> int" where
  "strcmp a b = strcmp_bytes (c_str a) (c_str b)"

definition compare_servers :: "memcached_server_st \<Rightarrow> memcached_server_st \<Rightarrow> int" where
  "compare_servers a b =
     (let return_value = strcmp (hostname a) (hostname b)
      in if return_value = 0 then int (unat (port a)) - int (unat (port b)) else return_value)"

definition set_host_count :: "memcached_st \<Rightarrow> memcached_st" where
  "set_host_count p = p\<lparr>servers := memcached_servers_set_count (servers p) (memcached_server_count p)\<rparr>"

definition sort_hosts :: "memcached_st \<Rightarrow> memcached_st" where
  "sort_hosts p =
     (if memcached_server_count p \<noteq> 0
      then let n = unat (memcached_server_count p)
           in set_host_count (p\<lparr>servers := qsort compare_servers (take n (servers p)) @ drop n (servers p)\<rparr>)
      else p)"

section \<open>The points of a server\<close>

definition ketama_server_hash :: "byte list \<Rightarrow> nat \<Rightarrow> u32" where
  "ketama_server_hash key alignment =
     (let results = libhashkit_md5_signature md5_stack key
      in push_bit 24 (ucast (results ! (3 + alignment * 4))) OR push_bit 16 (ucast (results ! (2 + alignment * 4)))
         OR push_bit 8 (ucast (results ! (1 + alignment * 4))) OR ucast (results ! (0 + alignment * 4)))"

definition continuum_item_cmp :: "memcached_continuum_item_st \<Rightarrow> memcached_continuum_item_st \<Rightarrow> int" where
  "continuum_item_cmp ct1 ct2 =
     (if point_value ct1 = point_value ct2 then 0
      else if point_value ct1 > point_value ct2 then 1 else - 1)"

text \<open>
  \<open>snprintf\<close> into \<open>sort_host\<close> returns the full length of the key, and the hash is given that length:
  of a longer key it sees the 85 bytes that fit, the terminator, and the stack behind the buffer.
\<close>

definition sort_host_bytes :: "byte list \<Rightarrow> byte list \<Rightarrow> byte list" where
  "sort_host_bytes beyond s =
     (if length s < MEMCACHED_MAX_HOST_SORT_LENGTH then s
      else take (length s) (take (MEMCACHED_MAX_HOST_SORT_LENGTH - 1) s @ 0 # beyond))"

definition spy_key :: "memcached_server_st \<Rightarrow> nat \<Rightarrow> byte list" where
  "spy_key s i = 47 # memcached_server_name s @ 58 # dec_digits (unat (port s)) @ 45 # dec_digits i"

definition ketama_key :: "memcached_server_st \<Rightarrow> nat \<Rightarrow> byte list" where
  "ketama_key s i =
     (if port s = of_nat MEMCACHED_DEFAULT_PORT then memcached_server_name s @ 45 # dec_digits i
      else memcached_server_name s @ 58 # dec_digits (unat (port s)) @ 45 # dec_digits i)"

definition sort_host_key :: "memcached_st \<Rightarrow> memcached_server_st \<Rightarrow> nat \<Rightarrow> byte list" where
  "sort_host_key p s i =
     (if distribution p = MEMCACHED_DISTRIBUTION_CONSISTENT_KETAMA_SPY then spy_key s i else ketama_key s i)"

text \<open>The values of the points of one server, \<open>n\<close> keys of one or of four points.\<close>

definition host_values :: "memc_env \<Rightarrow> memcached_st \<Rightarrow> memcached_server_st \<Rightarrow> nat \<Rightarrow> u32 list" where
  "host_values E p s n =
     concat (map (\<lambda>i. let key = sort_host_bytes (e_beyond E) (sort_host_key p s i)
                      in if ketama_weighted (flags p)
                         then map (ketama_server_hash key) [0..<4]
                         else [hashkit_digest (e_custom E) (distribution_hashkit p) key])
                 [0..<n])"

text \<open>\<open>pointer_per_server\<close> in the weighted case, in the float arithmetic of the code.\<close>

definition weighted_points :: "u32 \<Rightarrow> u64 \<Rightarrow> u32 \<Rightarrow> u32" where
  "weighted_points w tw live =
     (let pct = float32 (float32 (of_nat (unat w)) / float32 (of_nat (unat tw)));
          x = float32 (float32 (float32 (pct * of_nat MEMCACHED_POINTS_PER_SERVER_KETAMA) / 4)
                       * float32 (of_nat (unat live)));
          y = float32 (float64 (x + float64 (1 / 10 ^ 10)))
      in of_int \<lfloor>float32 (of_int \<lfloor>y\<rfloor> * 4)\<rfloor>)"

definition points_per_host :: "memcached_st \<Rightarrow> u64 \<Rightarrow> u32 \<Rightarrow> memcached_server_st \<Rightarrow> u32" where
  "points_per_host p tw live s =
     (if ketama_weighted (flags p) then weighted_points (weight s) tw live
      else of_nat MEMCACHED_POINTS_PER_SERVER)"

section \<open>\<open>update_continuum\<close>\<close>

text \<open>The number of live servers and the time of the next rebuild.\<close>

fun count_live :: "int \<Rightarrow> memcached_server_st list \<Rightarrow> u32 \<Rightarrow> int \<Rightarrow> u32 \<times> int" where
  "count_live now [] live rebuild = (live, rebuild)"
| "count_live now (s # ss) live rebuild =
     (if next_retry s \<le> now then count_live now ss (live + 1) rebuild
      else count_live now ss live
             (if rebuild = 0 \<or> next_retry s < rebuild then next_retry s else rebuild))"

definition live_and_rebuild :: "memcached_st \<Rightarrow> int \<Rightarrow> u32 \<times> int" where
  "live_and_rebuild p now =
     (if is_auto_eject_host p
      then count_live now (take (unat (memcached_server_count p)) (servers p)) 0 0
      else (memcached_server_count p, next_distribution_rebuild p))"

definition is_ejected :: "memcached_st \<Rightarrow> int \<Rightarrow> memcached_server_st \<Rightarrow> bool" where
  "is_ejected p now s \<longleftrightarrow> is_auto_eject_host p \<and> next_retry s > now"

fun total_weight :: "memcached_st \<Rightarrow> int \<Rightarrow> memcached_server_st list \<Rightarrow> u64" where
  "total_weight p now [] = 0"
| "total_weight p now (s # ss) =
     (if \<not> is_auto_eject_host p \<or> next_retry s \<le> now then ucast (weight s) else 0) + total_weight p now ss"

definition fix_weight :: "memcached_server_st \<Rightarrow> memcached_server_st" where
  "fix_weight s = (if weight s = 0 then s\<lparr>weight := 1\<rparr> else s)"

text \<open>The loop over the hosts: the points in the order they are written, and their counter.\<close>

fun continuum_points ::
  "memc_env \<Rightarrow> memcached_st \<Rightarrow> int \<Rightarrow> u64 \<Rightarrow> u32 \<Rightarrow> nat \<Rightarrow> memcached_server_st list
   \<Rightarrow> memcached_continuum_item_st list \<times> u32" where
  "continuum_points E p now tw live host_index [] = ([], 0)"
| "continuum_points E p now tw live host_index (s # ss) =
     (case continuum_points E p now tw live (host_index + 1) ss of
        (points, counter) \<Rightarrow>
          if is_ejected p now s then (points, counter)
          else
            let per_server = points_per_host p tw live s;
                per_hash = (if ketama_weighted (flags p) then 4 else 1)
            in (map (\<lambda>v. \<lparr>point_index = of_nat host_index, point_value = v\<rparr>)
                  (host_values E p s (unat per_server div per_hash)) @ points,
                per_server + counter))"

text \<open>Writing the points from the start of the array.\<close>

fun store_points ::
  "memcached_continuum_item_st list \<Rightarrow> memcached_continuum_item_st list
   \<Rightarrow> memcached_continuum_item_st list option" where
  "store_points c [] = Some c"
| "store_points [] (x # xs) = None"
| "store_points (y # c) (x # xs) = map_option ((#) x) (store_points c xs)"

definition grow_continuum :: "memc_env \<Rightarrow> memcached_st \<Rightarrow> u32 \<Rightarrow> nat \<Rightarrow> memcached_st option" where
  "grow_continuum E p live points_per_server =
     (if continuum_count p < live
      then let count = live + of_nat MEMCACHED_CONTINUUM_ADDITION;
               n = unat count * points_per_server
           in if e_alloc_points E n
              then Some (p\<lparr>continuum := take n (continuum p @ replicate n (e_junk_point E)),
                           continuum_count := count\<rparr>)
              else None
      else Some p)"

definition update_continuum :: "memc_env \<Rightarrow> memcached_st \<Rightarrow> (memcached_return_t \<times> memcached_st) option" where
  "update_continuum E p =
     (case e_now E of
        Inl errno \<Rightarrow> Some (MEMCACHED_ERRNO, p\<lparr>memc_cached_errno := errno\<rparr>)
      | Inr now \<Rightarrow>
          (let n = unat (memcached_server_count p);
               (live, rebuild) = live_and_rebuild p now;
               p = p\<lparr>next_distribution_rebuild := rebuild\<rparr>;
               weighted = ketama_weighted (flags p);
               points_per_server = (if weighted then MEMCACHED_POINTS_PER_SERVER_KETAMA
                                    else MEMCACHED_POINTS_PER_SERVER)
           in if live = 0 then Some (MEMCACHED_SUCCESS, p)
              else case grow_continuum E p live points_per_server of
                None \<Rightarrow> Some (MEMCACHED_MEMORY_ALLOCATION_FAILURE, p)
              | Some p \<Rightarrow>
                  (let hosts = (if weighted then map fix_weight (take n (servers p)) else take n (servers p));
                       tw = (if weighted then total_weight p now hosts else 0);
                       p = p\<lparr>servers := hosts @ drop n (servers p)\<rparr>;
                       (points, counter) = continuum_points E p now tw live 0 hosts
                   in case store_points (continuum p) points of
                        None \<Rightarrow> None
                      | Some c \<Rightarrow>
                          (let k = unat counter
                           in Some (MEMCACHED_SUCCESS,
                                    p\<lparr>continuum_points_counter := counter,
                                      continuum := qsort continuum_item_cmp (take k c) @ drop k c\<rparr>)))))"

definition run_distribution :: "memc_env \<Rightarrow> memcached_st \<Rightarrow> (memcached_return_t \<times> memcached_st) option" where
  "run_distribution E p =
     (let p = (if use_sort_hosts (flags p) then sort_hosts p else p)
      in case distribution p of
           MEMCACHED_DISTRIBUTION_CONSISTENT \<Rightarrow> update_continuum E p
         | MEMCACHED_DISTRIBUTION_CONSISTENT_KETAMA \<Rightarrow> update_continuum E p
         | MEMCACHED_DISTRIBUTION_CONSISTENT_KETAMA_SPY \<Rightarrow> update_continuum E p
         | MEMCACHED_DISTRIBUTION_MODULA \<Rightarrow> Some (MEMCACHED_SUCCESS, p)
         | MEMCACHED_DISTRIBUTION_RANDOM \<Rightarrow> Some (MEMCACHED_SUCCESS, p)
         | MEMCACHED_DISTRIBUTION_CONSISTENT_MAX \<Rightarrow> Some (MEMCACHED_SUCCESS, p))"

section \<open>Adding servers\<close>

definition memcached_server_instance_fetch :: "memcached_st \<Rightarrow> u32 \<Rightarrow> memcached_server_st" where
  "memcached_server_instance_fetch p server_key = servers p ! unat server_key"

text \<open>Creating a server in place, in the array of the client, and counting it.\<close>

definition create_in_place ::
  "memcached_st \<Rightarrow> byte list \<Rightarrow> u16 \<Rightarrow> u32 \<Rightarrow> memcached_connection_t \<Rightarrow> memcached_st" where
  "create_in_place p host prt w t =
     (let i = unat (memcached_server_count p);
          s = memcached_server_create_with None (Some (sint (retry_timeout p))) (Some (servers p ! i))
                (Some host) prt w t
      in p\<lparr>servers := (case s of Some s \<Rightarrow> (servers p)[i := s] | None \<Rightarrow> servers p),
           memc_number_of_hosts := memc_number_of_hosts p + 1\<rparr>)"

definition protocol_mismatch :: "memcached_st \<Rightarrow> memcached_connection_t \<Rightarrow> bool" where
  "protocol_mismatch p t \<longleftrightarrow>
     (use_udp (flags p) \<and> t \<noteq> MEMCACHED_CONNECTION_UDP) \<or>
     (t = MEMCACHED_CONNECTION_UDP \<and> \<not> use_udp (flags p))"

text \<open>\<open>realloc\<close> of the server array to \<open>n\<close> servers.\<close>

definition resize_servers :: "memc_env \<Rightarrow> memcached_st \<Rightarrow> nat \<Rightarrow> memcached_st option" where
  "resize_servers E p n =
     (if e_alloc_servers E n
      then Some (memcached_server_list_set p (take n (servers p @ replicate n (e_junk_server E))))
      else None)"

fun push_loop :: "memcached_st \<Rightarrow> memcached_server_st list \<Rightarrow> memcached_return_t \<times> memcached_st" where
  "push_loop p [] = (MEMCACHED_SUCCESS, p)"
| "push_loop p (s # ss) =
     (if protocol_mismatch p (conn_type s) then (MEMCACHED_INVALID_HOST_PROTOCOL, p)
      else push_loop (create_in_place p (hostname s) (port s) (weight s) (conn_type s)) ss)"

definition memcached_server_push ::
  "memc_env \<Rightarrow> memcached_st \<Rightarrow> server_list \<Rightarrow> (memcached_return_t \<times> memcached_st) option" where
  "memcached_server_push E p l =
     (case l of
        None \<Rightarrow> Some (MEMCACHED_SUCCESS, p)
      | Some arr \<Rightarrow>
         (let count = memcached_server_list_count l
          in case resize_servers E p (unat (count + memcached_server_count p)) of
               None \<Rightarrow> Some (MEMCACHED_MEMORY_ALLOCATION_FAILURE, p)
             | Some p \<Rightarrow>
                (case push_loop p (take (unat count) arr) of
                   (rc, p) \<Rightarrow>
                     if rc \<noteq> MEMCACHED_SUCCESS then Some (rc, p)
                     else run_distribution E (set_host_count p))))"

definition server_add ::
  "memc_env \<Rightarrow> memcached_st \<Rightarrow> byte list \<Rightarrow> u16 \<Rightarrow> u32 \<Rightarrow> memcached_connection_t
   \<Rightarrow> (memcached_return_t \<times> memcached_st) option" where
  "server_add E p host prt w t =
     (if protocol_mismatch p t then Some (MEMCACHED_INVALID_HOST_PROTOCOL, p)
      else case resize_servers E p (unat (memc_number_of_hosts p + 1)) of
             None \<Rightarrow> Some (MEMCACHED_MEMORY_ALLOCATION_FAILURE, p)
           | Some p \<Rightarrow> run_distribution E (set_host_count (create_in_place p host prt w t)))"

definition memcached_server_add_with_weight ::
  "memc_env \<Rightarrow> memcached_st \<Rightarrow> byte list option \<Rightarrow> u16 \<Rightarrow> u32 \<Rightarrow> (memcached_return_t \<times> memcached_st) option" where
  "memcached_server_add_with_weight E p host prt w =
     (let prt = (if prt = 0 then of_nat MEMCACHED_DEFAULT_PORT else prt);
          host = (case host of None \<Rightarrow> bytes ''localhost'' | Some h \<Rightarrow> h)
      in server_add E p host prt w MEMCACHED_CONNECTION_TCP)"

definition memcached_server_add ::
  "memc_env \<Rightarrow> memcached_st \<Rightarrow> byte list option \<Rightarrow> u16 \<Rightarrow> (memcached_return_t \<times> memcached_st) option" where
  "memcached_server_add E p host prt = memcached_server_add_with_weight E p host prt 0"

definition memcached_server_add_udp_with_weight ::
  "memc_env \<Rightarrow> memcached_st \<Rightarrow> byte list option \<Rightarrow> u16 \<Rightarrow> u32 \<Rightarrow> (memcached_return_t \<times> memcached_st) option" where
  "memcached_server_add_udp_with_weight E p host prt w =
     (let prt = (if prt = 0 then of_nat MEMCACHED_DEFAULT_PORT else prt);
          host = (case host of None \<Rightarrow> bytes ''localhost'' | Some h \<Rightarrow> h)
      in server_add E p host prt w MEMCACHED_CONNECTION_UDP)"

definition memcached_server_add_udp ::
  "memc_env \<Rightarrow> memcached_st \<Rightarrow> byte list option \<Rightarrow> u16 \<Rightarrow> (memcached_return_t \<times> memcached_st) option" where
  "memcached_server_add_udp E p host prt = memcached_server_add_udp_with_weight E p host prt 0"

definition memcached_server_add_unix_socket_with_weight ::
  "memc_env \<Rightarrow> memcached_st \<Rightarrow> byte list option \<Rightarrow> u32 \<Rightarrow> (memcached_return_t \<times> memcached_st) option" where
  "memcached_server_add_unix_socket_with_weight E p filename w =
     (case filename of
        None \<Rightarrow> Some (MEMCACHED_FAILURE, p)
      | Some f \<Rightarrow> server_add E p f 0 w MEMCACHED_CONNECTION_UNIX_SOCKET)"

definition memcached_server_add_unix_socket ::
  "memc_env \<Rightarrow> memcached_st \<Rightarrow> byte list option \<Rightarrow> (memcached_return_t \<times> memcached_st) option" where
  "memcached_server_add_unix_socket E p filename = memcached_server_add_unix_socket_with_weight E p filename 0"

definition memcached_push ::
  "memc_env \<Rightarrow> memcached_st \<Rightarrow> memcached_st \<Rightarrow> (memcached_return_t \<times> memcached_st) option" where
  "memcached_push E destination source =
     memcached_server_push E destination
       (if servers source = [] then None else Some (servers source))"

end
