(* ===== verification/Dispatch.thy ===== *)
theory Dispatch
  imports Hosts
begin

text \<open>
  \<open>hash.c\<close>: from a key to the position of its server, and \<open>memcached_server_by_key\<close> of \<open>server.c\<close>. The
  value of \<open>random()\<close> is an argument. \<open>None\<close> stands for the two ways in which the code leaves the
  defined behaviour: reading a continuum that has no entry, and reducing modulo no servers.
\<close>

definition memcached_generate_hash_value :: "bool \<Rightarrow> byte list \<Rightarrow> hashkit_hash_algorithm_t \<Rightarrow> u32" where
  "memcached_generate_hash_value have_hsieh key hash_algorithm = libhashkit_digest have_hsieh key hash_algorithm"

definition generate_hash :: "memc_env \<Rightarrow> memcached_st \<Rightarrow> byte list \<Rightarrow> u32" where
  "generate_hash E p key = hashkit_digest (e_custom E) (hashkit p) key"

text \<open>The binary search of \<open>dispatch_host\<close>, on positions instead of pointers.\<close>

function continuum_search :: "memcached_continuum_item_st list \<Rightarrow> u32 \<Rightarrow> nat \<Rightarrow> nat \<Rightarrow> nat" where
  "continuum_search c hash left right =
     (if left < right
      then let middle = left + (right - left) div 2
           in if point_value (c ! middle) < hash then continuum_search c hash (middle + 1) right
              else continuum_search c hash left middle
      else right)"
  by pat_completeness auto
termination by (relation "measure (\<lambda>(c, hash, left, right). right - left)") auto

declare continuum_search.simps [simp del]

definition modulo :: "u32 \<Rightarrow> u32 \<Rightarrow> u32 option" where
  "modulo a n = (if n = 0 then None else Some (a mod n))"

definition continuum_lookup :: "memcached_st \<Rightarrow> u32 \<Rightarrow> u32 option" where
  "continuum_lookup p hash =
     (let num = unat (continuum_points_counter p);
          right = continuum_search (continuum p) hash 0 num;
          right = (if right = num then 0 else right)
      in if right < length (continuum p) then Some (point_index (continuum p ! right)) else None)"

definition dispatch_host :: "u32 \<Rightarrow> memcached_st \<Rightarrow> u32 \<Rightarrow> u32 option" where
  "dispatch_host random p hash =
     (case distribution p of
        MEMCACHED_DISTRIBUTION_CONSISTENT \<Rightarrow> continuum_lookup p hash
      | MEMCACHED_DISTRIBUTION_CONSISTENT_KETAMA \<Rightarrow> continuum_lookup p hash
      | MEMCACHED_DISTRIBUTION_CONSISTENT_KETAMA_SPY \<Rightarrow> continuum_lookup p hash
      | MEMCACHED_DISTRIBUTION_MODULA \<Rightarrow> modulo hash (memcached_server_count p)
      | MEMCACHED_DISTRIBUTION_RANDOM \<Rightarrow> modulo random (memcached_server_count p)
      | MEMCACHED_DISTRIBUTION_CONSISTENT_MAX \<Rightarrow> modulo hash (memcached_server_count p))"

definition generate_hash_wrapper :: "memc_env \<Rightarrow> memcached_st \<Rightarrow> byte list \<Rightarrow> u32" where
  "generate_hash_wrapper E p key =
     (if memcached_server_count p = 1 then 0
      else if hash_with_prefix_key (flags p)
      then
        let temp_length = prefix_key_length p + length key;
            temp = take (prefix_key_length p) (c_str (prefix_key p) @ replicate (prefix_key_length p) 0)
                   @ take (length key) (c_str key @ replicate (length key) 0)
        in if temp_length > MEMCACHED_MAX_KEY - 1 then 0 else generate_hash E p temp
      else generate_hash E p key)"

definition regen_for_auto_eject :: "memc_env \<Rightarrow> memcached_st \<Rightarrow> memcached_st option" where
  "regen_for_auto_eject E p =
     (if is_auto_eject_host p \<and> next_distribution_rebuild p \<noteq> 0
      then (case e_now E of
              Inl errno \<Rightarrow> Some p
            | Inr now \<Rightarrow> if now > next_distribution_rebuild p then map_option snd (run_distribution E p)
                         else Some p)
      else Some p)"

definition memcached_autoeject :: "memc_env \<Rightarrow> memcached_st \<Rightarrow> memcached_st option" where
  "memcached_autoeject E p = regen_for_auto_eject E p"

definition memcached_generate_hash_with_redistribution ::
  "memc_env \<Rightarrow> u32 \<Rightarrow> memcached_st \<Rightarrow> byte list \<Rightarrow> (u32 \<times> memcached_st) option" where
  "memcached_generate_hash_with_redistribution E random p key =
     (let hash = generate_hash_wrapper E p key
      in case regen_for_auto_eject E p of
           None \<Rightarrow> None
         | Some p \<Rightarrow> map_option (\<lambda>i. (i, p)) (dispatch_host random p hash))"

definition memcached_generate_hash :: "memc_env \<Rightarrow> u32 \<Rightarrow> memcached_st \<Rightarrow> byte list \<Rightarrow> u32 option" where
  "memcached_generate_hash E random p key = dispatch_host random p (generate_hash_wrapper E p key)"

text \<open>
  The error code, and the position of the server when there is no error. \<open>None\<close> as above.
\<close>

definition memcached_server_by_key ::
  "memc_env \<Rightarrow> u32 \<Rightarrow> memcached_st \<Rightarrow> byte list \<Rightarrow> (memcached_return_t \<times> u32 option) option" where
  "memcached_server_by_key E random p key =
     (let error = memcached_validate_key_length (length key) (binary_protocol (flags p))
      in if error \<noteq> MEMCACHED_SUCCESS then Some (error, None)
         else if memcached_server_count p = 0 then Some (MEMCACHED_NO_SERVERS, None)
         else if verify_key (flags p) \<and> memcached_key_test [key] = MEMCACHED_BAD_KEY_PROVIDED
         then Some (MEMCACHED_BAD_KEY_PROVIDED, None)
         else map_option (\<lambda>i. (MEMCACHED_SUCCESS, Some i)) (memcached_generate_hash E random p key))"

section \<open>The binary search\<close>

lemma continuum_search_bounds:
  assumes "left \<le> right"
  shows "left \<le> continuum_search c hash left right \<and> continuum_search c hash left right \<le> right"
  using assms
proof (induction c hash left right rule: continuum_search.induct)
  case (1 c hash left right)
  show ?case
  proof (cases "left < right")
    case True
    define m where "m = left + (right - left) div 2"
    have m: "left \<le> m" "m < right" using True by (auto simp: m_def)
    show ?thesis
    proof (cases "point_value (c ! m) < hash")
      case less: True
      then have eq: "continuum_search c hash left right = continuum_search c hash (m + 1) right"
        using True by (subst continuum_search.simps) (simp add: m_def Let_def)
      from 1(1) [OF True m_def less] m show ?thesis unfolding eq by linarith
    next
      case False
      then have eq: "continuum_search c hash left right = continuum_search c hash left m"
        using True by (subst continuum_search.simps) (simp add: m_def Let_def)
      from 1(2) [OF True m_def False] m show ?thesis unfolding eq by linarith
    qed
  next
    case False
    with 1(3) show ?thesis by (subst (1 2) continuum_search.simps) simp
  qed
qed

text \<open>On sorted values the search returns the boundary between those below the hash and the rest.\<close>

lemma continuum_search_split:
  assumes "sorted (map point_value (take n c))" and "n \<le> length c" and "left \<le> right" "right \<le> n"
    and "\<forall>i < left. point_value (c ! i) < hash" and "\<forall>i. right \<le> i \<and> i < n \<longrightarrow> hash \<le> point_value (c ! i)"
  shows "(\<forall>i < continuum_search c hash left right. point_value (c ! i) < hash) \<and>
         (\<forall>i. continuum_search c hash left right \<le> i \<and> i < n \<longrightarrow> hash \<le> point_value (c ! i))"
  using assms
proof (induction c hash left right rule: continuum_search.induct)
  case (1 c hash left right)
  have mono: "point_value (c ! i) \<le> point_value (c ! j)" if "i \<le> j" "j < n" for i j
    using sorted_nth_mono [OF 1(3) that(1)] that 1(4) by simp
  show ?case
  proof (cases "left < right")
    case True
    define m where "m = left + (right - left) div 2"
    have m: "left \<le> m" "m < right" "m < n" using True 1(6) by (auto simp: m_def)
    show ?thesis
    proof (cases "point_value (c ! m) < hash")
      case less: True
      have eq: "continuum_search c hash left right = continuum_search c hash (m + 1) right"
        using True less by (subst continuum_search.simps) (simp add: m_def Let_def)
      have "point_value (c ! i) < hash" if "i < m + 1" for i
      proof -
        from that have "i \<le> m" by simp
        from mono [OF this m(3)] less show ?thesis by (rule le_less_trans)
      qed
      then have lo: "\<forall>i < m + 1. point_value (c ! i) < hash" by blast
      have "m + 1 \<le> right" using m(2) by simp
      show ?thesis
        unfolding eq by (rule 1(1) [OF True m_def less 1(3,4) \<open>m + 1 \<le> right\<close> 1(6) lo 1(8)])
    next
      case False
      have eq: "continuum_search c hash left right = continuum_search c hash left m"
        using True False by (subst continuum_search.simps) (simp add: m_def Let_def)
      have "hash \<le> point_value (c ! i)" if "m \<le> i" "i < n" for i
      proof -
        from False have "hash \<le> point_value (c ! m)" by (simp only: not_less)
        also have "\<dots> \<le> point_value (c ! i)" by (rule mono [OF that])
        finally show ?thesis .
      qed
      then have hi: "\<forall>i. m \<le> i \<and> i < n \<longrightarrow> hash \<le> point_value (c ! i)" by blast
      have "m \<le> n" using m(3) by simp
      show ?thesis
        unfolding eq by (rule 1(2) [OF True m_def False 1(3,4) m(1) \<open>m \<le> n\<close> 1(7) hi])
    qed
  next
    case False
    with 1(5) have "left = right" by simp
    with 1(7,8) show ?thesis by (simp add: continuum_search.simps)
  qed
qed

section \<open>The ring\<close>

text \<open>
  The specification of a lookup on a ring of points: the first point whose value is not below the
  hash, and the first of all when there is none.
\<close>

definition ring_lookup :: "memcached_continuum_item_st list \<Rightarrow> u32 \<Rightarrow> u32 option" where
  "ring_lookup ring hash =
     (case find (\<lambda>x. hash \<le> point_value x) ring of
        Some x \<Rightarrow> Some (point_index x)
      | None \<Rightarrow> (case ring of [] \<Rightarrow> None | x # xs \<Rightarrow> Some (point_index x)))"

definition ring_of :: "memcached_st \<Rightarrow> memcached_continuum_item_st list" where
  "ring_of p = take (unat (continuum_points_counter p)) (continuum p)"

lemma find_boundary:
  assumes "r \<le> length xs" and "\<forall>i < r. \<not> P (xs ! i)" and "r < length xs \<longrightarrow> P (xs ! r)"
  shows "find P xs = (if r < length xs then Some (xs ! r) else None)"
  using assms
proof (induction xs arbitrary: r)
  case (Cons x xs)
  show ?case
  proof (cases r)
    case 0
    with Cons.prems(3) show ?thesis by simp
  next
    case (Suc k)
    then have "\<not> P x" using Cons.prems(2) by auto
    moreover have "find P xs = (if k < length xs then Some (xs ! k) else None)"
      using Cons.prems Suc by (intro Cons.IH) auto
    ultimately show ?thesis using Suc by simp
  qed
qed simp

lemma continuum_lookup_ring:
  assumes "sorted (map point_value (ring_of p))" and "unat (continuum_points_counter p) \<le> length (continuum p)"
    and "ring_of p \<noteq> []"
  shows "continuum_lookup p hash = ring_lookup (ring_of p) hash"
proof -
  let ?c = "continuum p" and ?n = "unat (continuum_points_counter p)"
  let ?r = "continuum_search ?c hash 0 ?n"
  have n: "0 < ?n" "length (ring_of p) = ?n" using assms(2,3) by (auto simp: ring_of_def)
  have r: "?r \<le> ?n" using continuum_search_bounds [of 0 ?n] by simp
  have "(\<forall>i < ?r. point_value (?c ! i) < hash) \<and> (\<forall>i. ?r \<le> i \<and> i < ?n \<longrightarrow> hash \<le> point_value (?c ! i))"
    by (rule continuum_search_split) (use assms(1,2) in \<open>auto simp: ring_of_def\<close>)
  then have split: "\<forall>i < ?r. point_value (?c ! i) < hash"
    "\<forall>i. ?r \<le> i \<and> i < ?n \<longrightarrow> hash \<le> point_value (?c ! i)"
    by blast+
  have f: "find (\<lambda>x. hash \<le> point_value x) (ring_of p) = (if ?r < ?n then Some (?c ! ?r) else None)"
    using find_boundary [of ?r "ring_of p" "\<lambda>x. hash \<le> point_value x"] r split n(2)
    by (auto simp: ring_of_def not_le)
  obtain x xs where ring: "ring_of p = x # xs" using assms(3) by (cases "ring_of p") auto
  then have x: "?c ! 0 = x"
    using n(1) by (metis nth_Cons_0 nth_take ring_of_def)
  show ?thesis
    unfolding continuum_lookup_def ring_lookup_def f Let_def
    using r n(1) assms(2) x by (auto simp: ring)
qed

end
