(* ===== verification/Continuum.thy ===== *)
theory Continuum
  imports Dispatch
begin

text \<open>
  What rebuilding the continuum and looking keys up in it give: the rebuilt ring is the stable
  sort of the points of the live servers and is written within its array; a lookup returns the
  position of a server of the client; adding a server moves keys to that server only.
\<close>

section \<open>The points of the live servers\<close>

definition ring_points ::
  "memc_env \<Rightarrow> memcached_st \<Rightarrow> int \<Rightarrow> nat \<Rightarrow> memcached_server_st list \<Rightarrow> memcached_continuum_item_st list" where
  "ring_points E p now k ss =
     concat (map (\<lambda>(i, s). if is_ejected p now s then []
                           else map (\<lambda>v. \<lparr>point_index = of_nat i, point_value = v\<rparr>)
                                  (host_values E p s MEMCACHED_POINTS_PER_SERVER))
                 (enumerate k ss))"

lemma host_values_cong:
  "flags p = flags q \<Longrightarrow> distribution p = distribution q \<Longrightarrow>
   distribution_hashkit p = distribution_hashkit q \<Longrightarrow> host_values E p s n = host_values E q s n"
  unfolding host_values_def sort_host_key_def by (simp cong: if_cong)

lemma ring_points_cong:
  assumes "flags p = flags q" and "distribution p = distribution q"
    and "distribution_hashkit p = distribution_hashkit q"
  shows "ring_points E p now k ss = ring_points E q now k ss"
  unfolding ring_points_def is_ejected_def is_auto_eject_host_def
  by (simp only: host_values_cong [OF assms] assms(1))

lemma ring_points_Cons:
  "ring_points E p now k (s # ss) =
     (if is_ejected p now s then []
      else map (\<lambda>v. \<lparr>point_index = of_nat k, point_value = v\<rparr>)
             (host_values E p s MEMCACHED_POINTS_PER_SERVER))
     @ ring_points E p now (Suc k) ss"
  by (simp add: ring_points_def)

lemma ring_points_Nil [simp]: "ring_points E p now k [] = []"
  by (simp add: ring_points_def)

lemma ring_points_append:
  "ring_points E p now k (xs @ ys) = ring_points E p now k xs @ ring_points E p now (k + length xs) ys"
  by (induction xs arbitrary: k) (simp_all add: ring_points_Cons)

lemma length_host_values:
  "length (host_values E p s n) = (if ketama_weighted (flags p) then 4 * n else n)"
  by (induction n) (simp_all add: host_values_def Let_def)

lemma host_values_unweighted:
  "\<not> ketama_weighted (flags p) \<Longrightarrow>
   host_values E p s n =
     map (\<lambda>i. hashkit_digest (e_custom E) (distribution_hashkit p)
                (sort_host_bytes (e_beyond E) (sort_host_key p s i))) [0..<n]"
  by (induction n) (simp_all add: host_values_def Let_def)

abbreviation live_hosts :: "memcached_st \<Rightarrow> int \<Rightarrow> memcached_server_st list \<Rightarrow> memcached_server_st list" where
  "live_hosts p now ss \<equiv> filter (\<lambda>s. \<not> is_ejected p now s) ss"

lemma length_ring_points:
  "\<not> ketama_weighted (flags p) \<Longrightarrow> length (ring_points E p now k ss) = 100 * length (live_hosts p now ss)"
  by (induction ss arbitrary: k)
     (simp_all add: ring_points_Cons length_host_values MEMCACHED_POINTS_PER_SERVER_def)

lemma continuum_points_unweighted:
  assumes "\<not> ketama_weighted (flags p)"
  shows "continuum_points E p now tw live k ss =
           (ring_points E p now k ss, of_nat (length (ring_points E p now k ss)))"
  using assms
  by (induction ss arbitrary: k)
     (simp_all add: ring_points_Cons points_per_host_def length_host_values
        MEMCACHED_POINTS_PER_SERVER_def Let_def)

lemma count_live_filter:
  "fst (count_live now ss live rebuild) = live + of_nat (length (filter (\<lambda>s. next_retry s \<le> now) ss))"
  by (induction ss arbitrary: live rebuild) (auto simp: ac_simps)

lemma count_live_hosts:
  "is_auto_eject_host p \<Longrightarrow>
   fst (count_live now ss 0 0) = of_nat (length (live_hosts p now ss))"
  by (simp add: count_live_filter is_ejected_def not_less)

lemma live_hosts_all: "\<not> is_auto_eject_host p \<Longrightarrow> live_hosts p now ss = ss"
  by (simp add: is_ejected_def)

lemma store_points_eq:
  "store_points c xs = (if length xs \<le> length c then Some (xs @ drop (length xs) c) else None)"
  by (induction c xs rule: store_points.induct) auto

lemma continuum_item_cmp_key: "continuum_item_cmp x y \<le> 0 \<longleftrightarrow> point_value x \<le> point_value y"
  by (auto simp: continuum_item_cmp_def)

lemma qsort_continuum: "qsort continuum_item_cmp xs = sort_key point_value xs"
  by (rule qsort_key) (rule continuum_item_cmp_key)

section \<open>Rebuilding\<close>

text \<open>A client with two servers, for the instances of the theorems.\<close>

definition zero_memcached :: memcached_st where
  "zero_memcached =
     \<lparr>memc_state = global_copy_state, flags = global_copy_flags,
      distribution = MEMCACHED_DISTRIBUTION_CONSISTENT,
      hashkit = \<lparr>base_hash = global_default_hash, distribution_hash = global_default_hash,
                 is_base_same_distributed = False, is_allocated = False\<rparr>,
      continuum_points_counter = 0, memc_number_of_hosts = 0, servers = [],
      last_disconnected_server = None, snd_timeout = 0, rcv_timeout = 0, server_failure_limit = 0,
      io_msg_watermark = 500, io_bytes_watermark = 66560, io_key_prefetch = 0, tcp_keepidle = 0,
      memc_cached_errno = 0, poll_timeout = 5000, connect_timeout = 4000, retry_timeout = 0,
      continuum_count = 0, send_size = 0, recv_size = 0, user_data = None,
      next_distribution_rebuild = 0, prefix_key_length = 0, number_of_replicas = 0,
      distribution_hashkit = \<lparr>base_hash = global_default_hash, distribution_hash = global_default_hash,
                              is_base_same_distributed = False, is_allocated = False\<rparr>,
      result = \<lparr>item_flags = 0, item_expiration = 0, key_length = 0, item_cas = 0,
                result_value_st = \<lparr>str_buf = None, str_end = 0, current_size = 0,
                                   str_is_allocated = False, str_is_initialized = True\<rparr>,
                item_key = replicate 251 0, result_is_allocated = False, result_is_initialized = True\<rparr>,
      continuum = [], allocators = memcached_allocators_return_default, on_clone = None,
      on_cleanup = None, get_key_failure = None, delete_trigger = None, callbacks = None,
      sasl = None, prefix_key = replicate 128 0, memc_is_allocated = False\<rparr>"

definition two_servers :: memcached_st where
  "two_servers =
     zero_memcached\<lparr>memc_number_of_hosts := 2,
       servers := [zero_server\<lparr>weight := 1\<rparr>, zero_server\<lparr>port := 11212, weight := 1\<rparr>]\<rparr>"

definition zero_env :: memc_env where
  "zero_env =
     \<lparr>e_custom = (\<lambda>_ _ _. 0), e_now = Inr 1000, e_alloc_points = (\<lambda>n. True), e_alloc_servers = (\<lambda>n. True),
      e_junk_point = \<lparr>point_index = 0, point_value = 0\<rparr>, e_junk_server = zero_server,
      e_beyond = replicate 4096 0\<rparr>"

lemmas witness_defs =
  two_servers_def zero_memcached_def zero_env_def zero_server_def global_copy_flags_def
  memcached_server_count_def is_auto_eject_host_def

text \<open>
  The array of servers holds the servers counted, and the continuum has room for the number of
  servers recorded for it at 100 points each. A million servers is the bound under which no
  32-bit counter wraps.
\<close>

definition hosts_wf :: "memcached_st \<Rightarrow> bool" where
  "hosts_wf p \<longleftrightarrow>
     unat (memcached_server_count p) \<le> length (servers p) \<and>
     unat (memcached_server_count p) \<le> 1000000 \<and>
     100 * unat (continuum_count p) \<le> length (continuum p)"

definition host_list :: "memcached_st \<Rightarrow> memcached_server_st list" where
  "host_list p = take (unat (memcached_server_count p)) (servers p)"

lemma host_list_drop: "host_list p @ drop (unat (memcached_server_count p)) (servers p) = servers p"
  by (simp add: host_list_def)

lemma unat_small: "n \<le> 1000000000 \<Longrightarrow> unat (of_nat n :: u32) = n"
  by (simp add: unat_of_nat)

lemma live_and_rebuild_live:
  assumes "unat (memcached_server_count p) \<le> length (servers p)"
    and "live_and_rebuild p now = (live, rebuild)"
  shows "live = of_nat (length (live_hosts p now (host_list p)))"
  using assms(2) count_live_hosts [of p now "host_list p"] live_hosts_all [of p now "host_list p"] assms(1)
  by (auto simp: live_and_rebuild_def host_list_def split: if_splits)

lemma grow_room:
  assumes "n \<le> 1000000" and live: "live = of_nat n" and alloc: "\<forall>n. e_alloc_points E n"
    and room: "k * unat (continuum_count p) \<le> length (continuum p)"
  obtains c cc where "grow_continuum E p live k = Some (p\<lparr>continuum := c, continuum_count := cc\<rparr>)"
    and "k * n \<le> length c" and "k * unat cc \<le> length c"
proof (cases "continuum_count p < live")
  case True
  have "unat (live + of_nat MEMCACHED_CONTINUUM_ADDITION) = n + 10"
    using assms(1) unat_small [of "n + 10"] by (simp add: live MEMCACHED_CONTINUUM_ADDITION_def)
  then show ?thesis
    using True alloc
    by (intro that [of "live + of_nat MEMCACHED_CONTINUUM_ADDITION"
          "take ((n + 10) * k) (continuum p @ replicate ((n + 10) * k) (e_junk_point E))"])
       (simp_all add: grow_continuum_def Let_def mult.commute [of k] min_def add_mult_distrib)
next
  case False
  then have "n \<le> unat (continuum_count p)"
    using assms(1) unat_small [of n] by (simp add: not_less word_le_nat_alt live)
  then have "k * n \<le> length (continuum p)"
    using room mult_le_mono2 [of n "unat (continuum_count p)" k] by (rule_tac le_trans)
  with False room show ?thesis
    by (intro that [of "continuum_count p" "continuum p"]) (simp_all add: grow_continuum_def)
qed

lemma update_continuum_unweighted:
  assumes wf: "hosts_wf p" and uw: "\<not> ketama_weighted (flags p)"
    and now: "e_now E = Inr now" and alloc: "\<forall>n. e_alloc_points E n"
    and live: "live_hosts p now (host_list p) \<noteq> []"
  shows "\<exists>p'. update_continuum E p = Some (MEMCACHED_SUCCESS, p') \<and> hosts_wf p' \<and>
           ring_of p' = sort_key point_value (ring_points E p now 0 (host_list p)) \<and>
           unat (continuum_points_counter p') \<le> length (continuum p') \<and>
           (\<exists>r c n cc. p' = p\<lparr>next_distribution_rebuild := r, continuum := c,
                             continuum_points_counter := n, continuum_count := cc\<rparr>)"
proof -
  let ?hosts = "host_list p" and ?pts = "ring_points E p now 0 (host_list p)"
  let ?n = "length (live_hosts p now ?hosts)"
  have n: "?n \<le> 1000000"
    using wf length_filter_le [of "\<lambda>s. \<not> is_ejected p now s" ?hosts]
    by (simp add: hosts_wf_def host_list_def)
  have len: "length ?pts = 100 * ?n" by (rule length_ring_points [OF uw])
  obtain live rebuild where lr: "live_and_rebuild p now = (live, rebuild)"
    by (cases "live_and_rebuild p now")
  have live': "live = of_nat ?n"
    using wf by (intro live_and_rebuild_live [OF _ lr]) (simp add: hosts_wf_def)
  have live_nz: "live \<noteq> 0"
    using live n unat_small [of ?n] by (auto simp: live' dest: arg_cong [where f = unat])
  let ?p1 = "p\<lparr>next_distribution_rebuild := rebuild\<rparr>"
  have room1: "100 * unat (continuum_count ?p1) \<le> length (continuum ?p1)"
    using wf by (simp add: hosts_wf_def)
  obtain c cc where grow: "grow_continuum E ?p1 live MEMCACHED_POINTS_PER_SERVER
      = Some (?p1\<lparr>continuum := c, continuum_count := cc\<rparr>)"
    and room: "100 * ?n \<le> length c" "100 * unat cc \<le> length c"
    using grow_room [OF n live' alloc room1] unfolding MEMCACHED_POINTS_PER_SERVER_def by blast
  let ?p2 = "?p1\<lparr>continuum := c, continuum_count := cc\<rparr>"
  let ?c = "?pts @ drop (length ?pts) c"
  let ?p3 = "?p2\<lparr>continuum_points_counter := of_nat (length ?pts),
      continuum := sort_key point_value ?pts @ drop (length ?pts) c\<rparr>"
  have "ring_points E ?p2 now 0 ?hosts = ?pts" by (rule ring_points_cong) simp_all
  then have pts: "continuum_points E ?p2 now tw live 0 ?hosts = (?pts, of_nat (length ?pts))" for tw
    using continuum_points_unweighted [of ?p2 E now tw live 0 ?hosts] uw by simp
  have k: "unat (of_nat (length ?pts) :: u32) = length ?pts"
    using len n by (intro unat_small) simp
  have fits: "length ?pts \<le> length c" using room(1) len by simp
  have "update_continuum E p = Some (MEMCACHED_SUCCESS, ?p3)"
    using uw live_nz grow k fits
    by (simp add: update_continuum_def now Let_def lr host_list_def [symmetric] pts store_points_eq
        qsort_continuum host_list_drop)
  moreover have "hosts_wf ?p3"
    using wf room len by (simp add: hosts_wf_def memcached_server_count_def)
  moreover have "ring_of ?p3 = sort_key point_value ?pts"
    by (simp add: ring_of_def k)
  moreover have "unat (continuum_points_counter ?p3) \<le> length (continuum ?p3)"
    by (simp add: k)
  moreover have "\<exists>r c n cc. ?p3 = p\<lparr>next_distribution_rebuild := r, continuum := c,
      continuum_points_counter := n, continuum_count := cc\<rparr>"
    by (intro exI [of _ rebuild] exI [of _ "continuum ?p3"] exI [of _ "of_nat (length ?pts)"] exI [of _ cc])
       simp
  ultimately show ?thesis by blast
qed

section \<open>Lookups\<close>

definition consistent :: "memcached_st \<Rightarrow> bool" where
  "consistent p \<longleftrightarrow>
     distribution p \<in> {MEMCACHED_DISTRIBUTION_CONSISTENT, MEMCACHED_DISTRIBUTION_CONSISTENT_KETAMA,
                       MEMCACHED_DISTRIBUTION_CONSISTENT_KETAMA_SPY}"

lemma dispatch_consistent: "consistent p \<Longrightarrow> dispatch_host random p hash = continuum_lookup p hash"
  by (auto simp: consistent_def dispatch_host_def)

lemma run_consistent:
  "consistent p \<Longrightarrow> \<not> use_sort_hosts (flags p) \<Longrightarrow> run_distribution E p = update_continuum E p"
  by (auto simp: consistent_def run_distribution_def Let_def)

lemma ring_points_live:
  "x \<in> set (ring_points E p now k ss) \<Longrightarrow>
   \<exists>i < length ss. point_index x = of_nat (k + i) \<and> \<not> is_ejected p now (ss ! i)"
  by (induction ss arbitrary: k) (fastforce simp: ring_points_Cons split: if_splits)+

lemma ring_lookup_in:
  "ring \<noteq> [] \<Longrightarrow> \<exists>x \<in> set ring. ring_lookup ring hash = Some (point_index x)"
proof (cases "find (\<lambda>x. hash \<le> point_value x) ring")
  case None
  then show "ring \<noteq> [] \<Longrightarrow> ?thesis" by (cases ring) (simp_all add: ring_lookup_def)
next
  case (Some x)
  then have "x \<in> set ring" by (auto simp: find_Some_iff)
  with Some show "ring \<noteq> [] \<Longrightarrow> ?thesis" by (auto simp: ring_lookup_def)
qed



section \<open>Adding a server\<close>

lemma find_filter:
  "find P (filter Q xs) = (case find P xs of
      None \<Rightarrow> None | Some x \<Rightarrow> if Q x then Some x else find P (filter Q xs))"
  by (induction xs) (auto split: option.splits)

lemma ring_lookup_new_points:
  assumes "\<forall>x \<in> set xs. point_index x \<noteq> n" and "\<forall>y \<in> set ys. point_index y = n" and "xs \<noteq> []"
  shows "ring_lookup (sort_key point_value (xs @ ys)) hash
           \<in> {ring_lookup (sort_key point_value xs) hash, Some n}"
proof -
  let ?P = "\<lambda>x. hash \<le> point_value x" and ?Q = "\<lambda>x. point_index x \<noteq> n"
  let ?L = "sort_key point_value (xs @ ys)" and ?R = "sort_key point_value xs"
  have R: "?R = filter ?Q ?L"
    using assms(1,2) by (simp add: filter_sort filter_id_conv)
  show ?thesis
  proof (cases "find ?P ?L")
    case (Some x)
    then show ?thesis
      using find_filter [of ?P ?Q ?L] R by (cases "?Q x") (auto simp: ring_lookup_def)
  next
    case None
    have fR: "find ?P ?R = None"
      using find_filter [of ?P ?Q ?L] None R by simp
    obtain l ls where L: "?L = l # ls" using assms(3) by (cases ?L) (auto dest: arg_cong [where f = length])
    show ?thesis
      using None fR unfolding ring_lookup_def R L by (cases "?Q l") auto
  qed
qed

text \<open>The points of a server depend on its name and its port only.\<close>

lemma host_values_addr:
  "memcached_server_name s = memcached_server_name t \<Longrightarrow> port s = port t \<Longrightarrow>
   host_values E p s n = host_values E p t n"
  unfolding host_values_def sort_host_key_def spy_key_def ketama_key_def by (simp cong: if_cong)

lemma ring_points_addr:
  assumes "\<not> is_auto_eject_host p" and "map server_addr ss = map server_addr ts"
  shows "ring_points E p now k ss = ring_points E p now' k ts"
  using assms(2)
proof (induction ss arbitrary: ts k)
  case (Cons s ss)
  then obtain t ts' where ts: "ts = t # ts'" by (cases ts) auto
  with Cons.prems have "memcached_server_name s = memcached_server_name t" "port s = port t"
    by (simp_all add: server_addr_def)
  from host_values_addr [OF this] Cons ts assms(1) show ?case
    by (simp add: ring_points_Cons is_ejected_def)
qed simp

lemma take_put: "n < length xs \<Longrightarrow> (take (Suc n) xs)[n := s] = take n xs @ [s]"
  by (simp add: take_Suc_conv_app_nth list_update_append)

text \<open>\<open>server_add\<close> appends one server to the array and rebuilds the distribution.\<close>

lemma server_add_appends:
  assumes wf: "hosts_wf p" and small: "unat (memcached_server_count p) < 1000000"
    and alloc: "\<forall>n. e_alloc_servers E n" and pm: "\<not> protocol_mismatch p t" and h: "host_ok host"
  shows "\<exists>p1. server_add E p host prt w t = run_distribution E p1 \<and> hosts_wf p1 \<and>
           map server_addr (host_list p1) = map server_addr (host_list p) @ [(host, prt, w, t)] \<and>
           memcached_server_count p1 = memcached_server_count p + 1 \<and>
           (\<exists>ss n. p1 = p\<lparr>memc_number_of_hosts := n, servers := ss\<rparr>)"
proof -
  let ?n = "unat (memcached_server_count p)"
  have n1: "unat (memcached_server_count p + 1) = ?n + 1"
    using small by (simp add: unat_word_ariths)
  have len: "?n \<le> length (servers p)" using wf by (simp add: hosts_wf_def)
  let ?arr = "take (?n + 1) (servers p @ replicate (?n + 1) (e_junk_server E))"
  obtain s where s: "memcached_server_create_with None (Some (sint (retry_timeout p))) (Some (?arr ! ?n))
      (Some host) prt w t = Some s" "server_addr s = (host, prt, w, t)"
    using server_addr_create_with [OF h] by blast
  let ?arr2 = "memcached_servers_set_count (?arr[?n := s]) (memcached_server_count p + 1)"
  let ?p1 = "p\<lparr>memc_number_of_hosts := memc_number_of_hosts p + 1, servers := ?arr2\<rparr>"
  have run: "server_add E p host prt w t = run_distribution E ?p1"
    using alloc pm s(1)
    by (simp add: server_add_def resize_servers_def create_in_place_def set_host_count_def Let_def
        n1 [unfolded memcached_server_count_def] memcached_server_count_def memcached_server_list_set_def)
  have count: "memcached_server_count (p\<lparr>memc_number_of_hosts := memc_number_of_hosts p + 1, servers := x\<rparr>)
      = memcached_server_count p + 1" for x
    by (simp add: memcached_server_count_def)
  have "host_list ?p1 = ?arr2"
    using len by (simp add: host_list_def count n1 memcached_servers_set_count_def)
  moreover have "map server_addr ?arr2 = map server_addr (host_list p) @ [(host, prt, w, t)]"
  proof -
    have "?arr[?n := s] = host_list p @ [s]"
      using take_put [of ?n "servers p @ replicate (?n + 1) (e_junk_server E)" s] len
      by (simp add: host_list_def)
    then show ?thesis
      by (simp add: memcached_servers_set_count_def map_server_addr_update_hd s(2))
  qed
  moreover have "hosts_wf ?p1"
    using wf small len
    by (simp add: hosts_wf_def count n1 memcached_servers_set_count_def)
  ultimately show ?thesis using run count by (intro exI [of _ ?p1]) auto
qed

text \<open>A server behind the others keeps their points and adds its own, which are the only ones with its index.\<close>

lemma added_points:
  assumes ne: "\<not> is_auto_eject_host p0"
    and addrs: "map server_addr (host_list p1) = map server_addr (host_list p0) @ [a]"
    and same: "flags p1 = flags p0" "distribution p1 = distribution p0" "distribution_hashkit p1 = distribution_hashkit p0"
  obtains y where "ring_points E p1 now 0 (host_list p1) =
    ring_points E p0 now 0 (host_list p0) @ ring_points E p0 now (length (host_list p0)) [y]"
proof -
  from addrs obtain xs y where hl1: "host_list p1 = xs @ [y]" and xs: "map server_addr xs = map server_addr (host_list p0)"
    by (auto simp: map_eq_append_conv)
  have "ring_points E p1 now 0 (host_list p1) = ring_points E p0 now 0 (xs @ [y])"
    unfolding hl1 by (rule ring_points_cong) (simp_all add: same)
  also have "\<dots> = ring_points E p0 now 0 (host_list p0) @ ring_points E p0 now (length (host_list p0)) [y]"
    using ring_points_addr [OF ne xs, of E now 0 now] arg_cong [OF xs, of length] by (simp add: ring_points_append)
  finally show ?thesis by (rule that)
qed

lemma point_index_new:
  "x \<in> set (ring_points E p now k [y]) \<Longrightarrow> point_index x = of_nat k"
  by (auto simp: ring_points_Cons split: if_splits)

lemma point_index_old:
  assumes "x \<in> set (ring_points E p now 0 hs)" and "length hs < 1000000"
  shows "point_index x \<noteq> of_nat (length hs)"
proof -
  from ring_points_live [OF assms(1)] obtain i where i: "i < length hs" "point_index x = of_nat i" by auto
  with assms(2) have "unat (of_nat i :: u32) = i" "unat (of_nat (length hs) :: u32) = length hs"
    by (simp_all add: unat_small)
  with i show ?thesis by (metis less_irrefl)
qed

lemma dispatch_ring:
  assumes "consistent p" and "unat (continuum_points_counter p) \<le> length (continuum p)" and "ring_of p \<noteq> []"
    and "sorted (map point_value (ring_of p))"
  shows "dispatch_host random p h = ring_lookup (ring_of p) h"
  using continuum_lookup_ring [of p h] assms by (simp add: dispatch_consistent)

text \<open>Two clients that hash alike, and whose rings differ by the points of the last server.\<close>

lemma dispatch_added:
  assumes rings: "ring_of p = sort_key point_value old" "ring_of p2 = sort_key point_value (old @ new)" "old \<noteq> []"
    and cons: "consistent p" "consistent p2"
    and len: "unat (continuum_points_counter p) \<le> length (continuum p)" "unat (continuum_points_counter p2) \<le> length (continuum p2)"
    and index: "\<forall>x \<in> set old. point_index x \<noteq> k" "\<forall>x \<in> set new. point_index x = k"
    and hash: "generate_hash_wrapper E p2 key = generate_hash_wrapper E p key"
  shows "\<exists>i j. memcached_generate_hash E random p key = Some i \<and> memcached_generate_hash E random p2 key = Some j \<and> (j = i \<or> j = k)"
proof -
  let ?h = "generate_hash_wrapper E p key"
  have ne: "ring_of p \<noteq> []" "ring_of p2 \<noteq> []" using rings by (auto dest: arg_cong [where f = length])
  have sorted: "sorted (map point_value (ring_of p))" "sorted (map point_value (ring_of p2))" by (simp_all add: rings)
  obtain i where "ring_lookup (ring_of p) ?h = Some i" using ring_lookup_in [of "ring_of p" ?h] ne(1) by auto
  with ring_lookup_new_points [OF index rings(3), of ?h] dispatch_ring [OF cons(1) len(1) ne(1) sorted(1)]
    dispatch_ring [OF cons(2) len(2) ne(2) sorted(2)] show ?thesis
    by (auto simp: memcached_generate_hash_def hash rings(1,2))
qed



end
