(* ===== verification/Weighted.thy ===== *)
theory Weighted
  imports Continuum
begin

text \<open>
  The weighted continuum (\<open>MEMCACHED_BEHAVIOR_KETAMA_WEIGHTED\<close>): the number of points of a server is
  computed in single precision, and the array has room for 160 points per server. The bounds
  here show that the rounding errors never add up to more than that, and where the array has
  been sized for the unweighted continuum, that it is overrun.
\<close>

section \<open>The points of one server\<close>

definition float_slack :: rat where "float_slack = 1 + 5 / 10 ^ 7"

lemma weighted_real_upper:
  fixes w t l :: rat
  assumes "0 < w" "0 < t" "0 < l"
  shows "float32 (float64 (float32 (float32 (float32 (float32 (float32 w / float32 t) * 160) / 4) * float32 l)
            + float64 (1 / 10 ^ 10)))
         \<le> 40 * l * (w / t) * float_slack + 3 / 10 ^ 10"
proof -
  define e :: rat where "e = 1 / 2 ^ 24"
  have e: "0 < e" "0 < 1 - e" "0 < 1 + e" by (simp_all add: e_def)
  have up: "float32 x \<le> y * (1 + e)" if "0 \<le> x" "x \<le> y" for x y
  proof -
    have "float32 x \<le> x * (1 + e)" using float32_upper [OF that(1)] by (simp add: e_def)
    also have "\<dots> \<le> y * (1 + e)" using that(2) e(3) by (intro mult_right_mono) simp_all
    finally show ?thesis .
  qed
  have t: "t * (1 - e) \<le> float32 t" using float32_lower [of t] assms(2) by (simp add: e_def)
  have "float32 w / float32 t \<le> w * (1 + e) / (t * (1 - e))"
    using t assms e up [of w w] by (intro frac_le) simp_all
  define p where "p = w * (1 + e) / (t * (1 - e)) * (1 + e)"
  have "float32 (float32 w / float32 t) \<le> p"
    unfolding p_def by (rule up) (simp, fact)
  then have "float32 (float32 (float32 w / float32 t) * 160) \<le> p * 160 * (1 + e)"
    by (intro up) simp_all
  then have b: "float32 (float32 (float32 (float32 w / float32 t) * 160) / 4) \<le> p * 160 * (1 + e) / 4 * (1 + e)"
    by (intro up) simp_all
  have p: "0 \<le> p" using assms e by (simp add: p_def)
  have c: "float32 (float32 (float32 (float32 (float32 w / float32 t) * 160) / 4) * float32 l)
      \<le> p * 160 * (1 + e) / 4 * (1 + e) * (l * (1 + e)) * (1 + e)"
    by (intro up mult_mono [OF b]) (use up [of l l] assms(3) p e in simp_all)
  define x where "x = float32 (float32 (float32 (float32 (float32 w / float32 t) * 160) / 4) * float32 l)"
  define d where "d = float64 (1 / 10 ^ 10)"
  have d: "0 \<le> d" "d \<le> 2 / 10 ^ 10"
    using float64_upper [of "1 / 10 ^ 10"] by (simp_all add: d_def)
  have x: "0 \<le> x" by (simp add: x_def)
  have "float32 (float64 (x + d)) \<le> (x + d) * (1 + 1 / 2 ^ 53) * (1 + e)"
    using float64_upper [of "x + d"] x d by (intro up) simp_all
  also have "\<dots> \<le> (p * 160 * (1 + e) / 4 * (1 + e) * (l * (1 + e)) * (1 + e) + 2 / 10 ^ 10) * (1 + 1 / 2 ^ 53) * (1 + e)"
    using c d e unfolding x_def by (intro mult_right_mono add_mono) simp_all
  also have "\<dots> = 40 * l * (w / t) * ((1 + e) ^ 7 * (1 + 1 / 2 ^ 53) / (1 - e)) + 2 / 10 ^ 10 * (1 + 1 / 2 ^ 53) * (1 + e)"
    using assms e by (simp add: p_def field_simps power_numeral_reduce)
  also have "\<dots> \<le> 40 * l * (w / t) * float_slack + 3 / 10 ^ 10"
    using assms by (intro add_mono mult_left_mono) (simp_all add: e_def float_slack_def power_divide)
  finally show ?thesis by (simp add: x_def d_def)
qed

text \<open>The real number whose floor is taken.\<close>

definition weighted_real :: "u32 \<Rightarrow> u64 \<Rightarrow> u32 \<Rightarrow> rat" where
  "weighted_real w tw live =
     float32 (float64 (float32 (float32 (float32 (float32 (float32 (of_nat (unat w)) / float32 (of_nat (unat tw)))
       * 160) / 4) * float32 (of_nat (unat live))) + float64 (1 / 10 ^ 10)))"

lemma weighted_real_bounds:
  assumes w: "0 < unat w" "unat w \<le> unat tw" and live: "0 < unat live" "unat live \<le> 40000"
  shows "0 \<le> weighted_real w tw live" "weighted_real w tw live < 1700000"
    and "weighted_real w tw live
           \<le> 40 * of_nat (unat live) * (of_nat (unat w) / of_nat (unat tw)) * float_slack + 3 / 10 ^ 10"
proof -
  let ?w = "of_nat (unat w) :: rat" and ?t = "of_nat (unat tw) :: rat" and ?l = "of_nat (unat live) :: rat"
  show "0 \<le> weighted_real w tw live" by (simp add: weighted_real_def)
  show up: "weighted_real w tw live \<le> 40 * ?l * (?w / ?t) * float_slack + 3 / 10 ^ 10"
    unfolding weighted_real_def
    by (rule weighted_real_upper) (use w live in \<open>simp_all only: of_nat_0_less_iff\<close>)
  have "0 < ?t" "?w \<le> ?t" using w by (simp_all only: of_nat_0_less_iff of_nat_le_iff)
  then have "?w / ?t \<le> 1" by (simp only: divide_le_eq_1_pos)
  then have "40 * ?l * (?w / ?t) * float_slack \<le> 40 * 40000 * 1 * float_slack"
    using live w by (intro mult_right_mono mult_mono) (simp_all add: float_slack_def del: of_nat_unat)
  then show "weighted_real w tw live < 1700000" using up by (simp add: float_slack_def)
qed

lemma weighted_points_real:
  assumes "0 < unat w" "unat w \<le> unat tw" and "0 < unat live" "unat live \<le> 40000"
  shows "unat (weighted_points w tw live) = 4 * nat \<lfloor>weighted_real w tw live\<rfloor>"
proof -
  define f where "f = \<lfloor>weighted_real w tw live\<rfloor>"
  have f: "0 \<le> f" "f < 1700000"
    using weighted_real_bounds [OF assms] by (simp_all add: f_def floor_less_iff)
  have "float32 (of_int (f * 4)) = of_int (f * 4)"
    using f by (intro float32_exact) simp_all
  then have "\<lfloor>float32 (of_int f * 4)\<rfloor> = f * 4"
    by (metis floor_of_int of_int_mult of_int_numeral)
  then have "weighted_points w tw live = of_int (f * 4)"
    by (simp add: weighted_points_def f_def weighted_real_def Let_def MEMCACHED_POINTS_PER_SERVER_KETAMA_def)
  also have "\<dots> = of_nat (4 * nat f)" using f by simp
  finally have "of_nat (4 * nat f) = weighted_points w tw live" by (rule sym)
  then have "unat (weighted_points w tw live) = 4 * nat f"
    by (rule of_nat_inverse) (use f in simp)
  then show ?thesis by (simp only: f_def)
qed

lemma weighted_points_upper:
  assumes w: "0 < unat w" "unat w \<le> unat tw" and live: "0 < unat live" "unat live \<le> 40000"
  shows "4 dvd unat (weighted_points w tw live) \<and>
         rat_of_nat (unat (weighted_points w tw live))
           \<le> 160 * of_nat (unat live) * (of_nat (unat w) / of_nat (unat tw)) * float_slack + 12 / 10 ^ 10"
proof -
  define y where "y = weighted_real w tw live"
  have "0 \<le> y" using weighted_real_bounds(1) [OF w live] by (simp add: y_def)
  have "rat_of_nat (unat (weighted_points w tw live)) = 4 * of_int \<lfloor>y\<rfloor>"
    using \<open>0 \<le> y\<close> by (simp add: weighted_points_real [OF w live] y_def del: of_nat_unat)
  also have "\<dots> \<le> 4 * y" by simp
  finally have "rat_of_nat (unat (weighted_points w tw live)) \<le> 4 * y" .
  with weighted_real_bounds(3) [OF w live] show ?thesis
    by (simp only: weighted_points_real [OF w live] y_def) (simp del: of_nat_unat)
qed

text \<open>A server of at least average weight has at least 156 points.\<close>

lemma weighted_real_lower:
  fixes w t l :: rat
  assumes "0 < w" "0 < t" "0 < l" and avg: "t \<le> l * w"
  shows "39 \<le> float32 (float64 (float32 (float32 (float32 (float32 (float32 w / float32 t) * 160) / 4) * float32 l)
            + float64 (1 / 10 ^ 10)))"
proof -
  define r :: rat where "r = 999999 / 1000000"
  have r: "0 < r" by (simp add: r_def)
  have lo: "y * r \<le> float32 x" if "0 \<le> y" "y \<le> x" for x y
    using float32_lower [of x] that by (simp add: r_def)
  have t: "float32 t \<le> t * (1000001 / 1000000)" "0 < float32 t"
    using float32_upper [of t] lo [of t t] assms(2) by (simp_all add: r_def)
  have "w * r / (t * (1000001 / 1000000)) \<le> float32 w / float32 t"
    using t lo [of w w] assms r by (intro frac_le) simp_all
  define p where "p = w * r / (t * (1000001 / 1000000)) * r"
  have a: "p \<le> float32 (float32 w / float32 t)"
    unfolding p_def by (rule lo) (use assms r in simp, fact)
  have p: "0 < p" using assms r by (simp add: p_def)
  have "p * 160 * r \<le> float32 (float32 (float32 w / float32 t) * 160)"
    using a p by (intro lo) simp_all
  then have b: "p * 160 * r / 4 * r \<le> float32 (float32 (float32 (float32 w / float32 t) * 160) / 4)"
    using p r by (intro lo) simp_all
  have c: "p * 160 * r / 4 * r * (l * r) * r
      \<le> float32 (float32 (float32 (float32 (float32 w / float32 t) * 160) / 4) * float32 l)"
    using lo [of l l] assms(3) p r by (intro lo mult_mono [OF b]) simp_all
  define x where "x = float32 (float32 (float32 (float32 (float32 w / float32 t) * 160) / 4) * float32 l)"
  have "1 \<le> l * w / t" using avg assms(2) by simp
  moreover have "p * 160 * r / 4 * r * (l * r) * r = 40 * r ^ 6 / (1000001 / 1000000) * (l * w / t)"
    using assms(2) by (simp add: p_def field_simps power_numeral_reduce)
  moreover have "399 / 10 \<le> 40 * r ^ 6 / (1000001 / 1000000)" by (simp add: r_def power_divide)
  ultimately have "399 / 10 * 1 \<le> x"
    using c mult_mono [of "399 / 10" "40 * r ^ 6 / (1000001 / 1000000)" 1 "l * w / t"] r
    unfolding x_def by simp
  define z where "z = x + float64 (1 / 10 ^ 10)"
  have z: "399 / 10 \<le> z" using \<open>399 / 10 * 1 \<le> x\<close> float_nonneg(2) [of "1 / 10 ^ 10"] unfolding z_def by linarith
  then have "z - z / 2 ^ 53 \<le> float64 z" using round_to_lower [of z 53] by (simp add: float64_def)
  moreover have "z / 2 ^ 53 \<le> z / 1000" using z by simp
  ultimately have "398 / 10 \<le> float64 z" using z by linarith
  from lo [OF _ this] show ?thesis by (simp add: x_def z_def r_def)
qed

lemma weighted_points_lower:
  assumes w: "0 < unat w" "unat w \<le> unat tw" and live: "0 < unat live" "unat live \<le> 40000"
    and avg: "unat tw \<le> unat live * unat w"
  shows "156 \<le> unat (weighted_points w tw live)"
proof -
  have le: "rat_of_nat (unat tw) \<le> of_nat (unat live) * of_nat (unat w)"
    using avg by (simp only: of_nat_le_iff flip: of_nat_mult)
  have "39 \<le> weighted_real w tw live"
    unfolding weighted_real_def
    by (intro weighted_real_lower le) (use w live in \<open>simp_all only: of_nat_0_less_iff\<close>)
  then have "39 \<le> \<lfloor>weighted_real w tw live\<rfloor>" by (simp only: le_floor_iff of_int_numeral)
  then show ?thesis using weighted_points_real [OF w live] by linarith
qed

section \<open>The points of all the live servers\<close>

lemma continuum_points_length:
  assumes "ketama_weighted (flags p)"
    and "\<forall>s \<in> set (live_hosts p now ss). 4 dvd unat (weighted_points (weight s) tw live)"
    and "continuum_points E p now tw live k ss = (pts, counter)"
  shows "length pts = (\<Sum>s\<leftarrow>live_hosts p now ss. unat (weighted_points (weight s) tw live)) \<and>
         counter = of_nat (length pts)"
  using assms(2,3)
proof (induction ss arbitrary: k pts counter)
  case (Cons s ss)
  obtain pts' counter' where rest: "continuum_points E p now tw live (k + 1) ss = (pts', counter')"
    by (cases "continuum_points E p now tw live (k + 1) ss")
  have "length pts' = (\<Sum>s\<leftarrow>live_hosts p now ss. unat (weighted_points (weight s) tw live)) \<and>
        counter' = of_nat (length pts')"
    using Cons.prems(1) by (intro Cons.IH [OF _ rest]) (auto split: if_splits)
  with rest Cons.prems assms(1) show ?case
    by (auto simp: Let_def points_per_host_def length_host_values add.commute split: if_splits)
qed simp

lemma continuum_points_index:
  assumes "continuum_points E p now tw live k ss = (pts, counter)" and "x \<in> set pts"
  shows "\<exists>i < length ss. point_index x = of_nat (k + i) \<and> \<not> is_ejected p now (ss ! i)"
  using assms
proof (induction ss arbitrary: k pts counter)
  case (Cons s ss)
  obtain pts' counter' where rest: "continuum_points E p now tw live (k + 1) ss = (pts', counter')"
    by (cases "continuum_points E p now tw live (k + 1) ss")
  have IH: "\<exists>i < length (s # ss). point_index x = of_nat (k + i) \<and> \<not> is_ejected p now ((s # ss) ! i)"
    if "x \<in> set pts'"
    using Cons.IH [OF rest that] by (force intro: exI [where x = "Suc _"])
  show ?case
  proof (cases "x \<in> set pts'")
    case False
    with Cons.prems rest have "\<not> is_ejected p now s" "point_index x = of_nat k"
      by (auto simp: Let_def split: if_splits)
    then show ?thesis by (intro exI [of _ 0]) simp
  qed (rule IH)
qed simp

definition live_weight :: "memcached_st \<Rightarrow> int \<Rightarrow> memcached_server_st list \<Rightarrow> nat" where
  "live_weight p now ss = (\<Sum>s\<leftarrow>live_hosts p now ss. unat (weight s))"

lemma total_weight_live: "total_weight p now ss = of_nat (live_weight p now ss)"
  by (induction ss) (auto simp: live_weight_def is_ejected_def not_less)

lemma live_weight_bound: "live_weight p now ss \<le> length (live_hosts p now ss) * 2 ^ 32"
proof -
  have "(\<Sum>s\<leftarrow>xs. unat (weight s)) \<le> length xs * 2 ^ 32" for xs
  proof (induction xs)
    case (Cons s xs)
    have "unat (weight s) < 2 ^ 32" using unsigned_less [of "weight s", where 'a = nat] by simp
    with Cons show ?case by simp
  qed simp
  then show ?thesis by (simp add: live_weight_def)
qed

text \<open>Some element is at least the average.\<close>

lemma sum_list_average:
  "xs \<noteq> [] \<Longrightarrow> \<exists>x \<in> set xs. sum_list (map f xs) \<le> length xs * (f x :: nat)"
proof -
  assume "xs \<noteq> []"
  define m where "m = Max (f ` set xs)"
  have "\<forall>x \<in> set xs. f x \<le> m" by (simp add: m_def)
  then have "sum_list (map f xs) \<le> length xs * m" by (induction xs) auto
  moreover have "m \<in> f ` set xs" unfolding m_def using \<open>xs \<noteq> []\<close> by (intro Max_in) auto
  ultimately show ?thesis by auto
qed

section \<open>The sum\<close>

lemma weighted_points_sum:
  assumes pos: "\<forall>s \<in> set xs. 0 < unat (weight s)"
    and tw: "unat tw = (\<Sum>s\<leftarrow>xs. unat (weight s))" and live: "unat live = length xs"
    and n: "xs \<noteq> []" "length xs \<le> 40000"
  shows "\<forall>s \<in> set xs. 4 dvd unat (weighted_points (weight s) tw live)"
    and "0 < (\<Sum>s\<leftarrow>xs. unat (weighted_points (weight s) tw live))"
    and "(\<Sum>s\<leftarrow>xs. unat (weighted_points (weight s) tw live)) \<le> 160 * length xs"
proof -
  let ?f = "\<lambda>s. unat (weighted_points (weight s) tw live)"
  have l: "0 < unat live" "unat live \<le> 40000" using n live by auto
  have le: "unat (weight s) \<le> unat tw" if "s \<in> set xs" for s
    unfolding tw by (rule member_le_sum_list) (use that in simp_all)
  have pt: "4 dvd ?f s \<and> rat_of_nat (?f s)
      \<le> 160 * of_nat (unat live) * (of_nat (unat (weight s)) / of_nat (unat tw)) * float_slack + 12 / 10 ^ 10"
    if "s \<in> set xs" for s
    using that pos le [OF that] l by (intro weighted_points_upper) simp_all
  then show four: "\<forall>s \<in> set xs. 4 dvd ?f s" by blast
  obtain s where s: "s \<in> set xs" "unat tw \<le> unat live * unat (weight s)"
    using sum_list_average [OF n(1), of "\<lambda>s. unat (weight s)"] unfolding tw live by blast
  have "0 < ?f s"
    using s pos le l by (intro less_le_trans [OF _ weighted_points_lower]) simp_all
  also have "?f s \<le> (\<Sum>s\<leftarrow>xs. ?f s)" by (rule member_le_sum_list) (use s in simp_all)
  finally show "0 < (\<Sum>s\<leftarrow>xs. ?f s)" .
  define a where "a = 160 * of_nat (unat live) / of_nat (unat tw) * float_slack"
  have sum: "rat_of_nat (\<Sum>s\<leftarrow>ys. ?f s)
      \<le> a * of_nat (\<Sum>s\<leftarrow>ys. unat (weight s)) + of_nat (length ys) * (12 / 10 ^ 10)"
    if "set ys \<subseteq> set xs" for ys
    using that
  proof (induction ys)
    case (Cons y ys)
    have "160 * of_nat (unat live) * (of_nat (unat (weight y)) / of_nat (unat tw)) * float_slack
        = a * of_nat (unat (weight y))"
      by (simp add: a_def mult_ac del: of_nat_unat)
    then have "rat_of_nat (?f y) \<le> a * of_nat (unat (weight y)) + 12 / 10 ^ 10"
      using pt [of y] Cons.prems by (simp del: of_nat_unat)
    with Cons show ?case by (simp add: algebra_simps add_divide_distrib del: of_nat_unat)
  qed simp
  have t: "0 < rat_of_nat (unat tw)"
  proof -
    have "0 < unat tw" using le [OF s(1)] pos s(1) by (metis less_le_trans)
    then show ?thesis by (simp only: of_nat_0_less_iff)
  qed
  have "rat_of_nat (\<Sum>s\<leftarrow>xs. ?f s) \<le> a * of_nat (unat tw) + of_nat (length xs) * (12 / 10 ^ 10)"
    using sum [of xs] by (simp only: tw)
  also have "a * of_nat (unat tw) = of_nat (length xs) * (160 * float_slack)"
    using t by (simp add: a_def live del: of_nat_unat)
  also have "of_nat (length xs) * (160 * float_slack) + of_nat (length xs) * (12 / 10 ^ 10)
      < of_nat (160 * length xs + 4)"
    using n(2) by (simp add: float_slack_def)
  finally have "(\<Sum>s\<leftarrow>xs. ?f s) < 160 * length xs + 4" by (simp only: of_nat_less_iff)
  moreover have "4 dvd (\<Sum>s\<leftarrow>xs. ?f s)"
  proof -
    have "4 dvd (\<Sum>s\<leftarrow>ys. ?f s)" if "set ys \<subseteq> set xs" for ys
      using that four by (induction ys) auto
    then show ?thesis by blast
  qed
  ultimately show "(\<Sum>s\<leftarrow>xs. ?f s) \<le> 160 * length xs" by presburger
qed

section \<open>Rebuilding the weighted continuum\<close>

definition weighted_wf :: "memcached_st \<Rightarrow> bool" where
  "weighted_wf p \<longleftrightarrow>
     unat (memcached_server_count p) \<le> length (servers p) \<and>
     unat (memcached_server_count p) \<le> 40000 \<and>
     160 * unat (continuum_count p) \<le> length (continuum p)"

lemma is_ejected_fixed [simp]: "is_ejected p now (fix_weight s) = is_ejected p now s"
  by (simp add: is_ejected_def fix_weight_def)

lemma live_fixed:
  "live_hosts p now (map fix_weight ss) = map fix_weight (live_hosts p now ss)"
  by (simp add: filter_map comp_def)

text \<open>
  The points that the loop over the hosts writes: as many as it counts, at most 160 for each live
  server, at least one, each of a live server.
\<close>

lemma weighted_points_written:
  assumes w: "ketama_weighted (flags p)" and live: "live_hosts p now ss \<noteq> []" "length (live_hosts p now ss) \<le> 40000"
    and pts: "continuum_points E p now (total_weight p now (map fix_weight ss))
                (of_nat (length (live_hosts p now ss))) 0 (map fix_weight ss) = (pts, counter)"
  shows "unat counter = length pts \<and> pts \<noteq> [] \<and> length pts \<le> 160 * length (live_hosts p now ss) \<and>
         (\<forall>x \<in> set pts. \<exists>i < length ss. point_index x = of_nat i \<and> \<not> is_ejected p now (ss ! i))"
proof -
  let ?xs = "live_hosts p now (map fix_weight ss)" and ?tw = "total_weight p now (map fix_weight ss)"
  let ?n = "length (live_hosts p now ss)"
  have len: "length ?xs = ?n" by (simp add: live_fixed)
  have pos: "\<forall>s \<in> set ?xs. 0 < unat (weight s)"
    by (auto simp: fix_weight_def unat_gt_0)
  have ne: "?xs \<noteq> []" "length ?xs \<le> 40000" using live by (simp_all add: live_fixed)
  have "live_weight p now (map fix_weight ss) \<le> 40000 * 2 ^ 32"
    using live_weight_bound mult_le_mono1 [OF ne(2)] by (rule order_trans)
  then have tw: "unat ?tw = (\<Sum>s\<leftarrow>?xs. unat (weight s))"
    unfolding total_weight_live by (simp add: unat_of_nat live_weight_def)
  have n: "unat (of_nat ?n :: u32) = length ?xs"
    unfolding len using live(2) by (intro unat_small) simp
  note sum = weighted_points_sum [OF pos tw n ne]
  from continuum_points_length [OF w sum(1) pts]
  have len_pts: "length pts = (\<Sum>s\<leftarrow>?xs. unat (weighted_points (weight s) ?tw (of_nat ?n)))"
    and counter: "counter = of_nat (length pts)" by simp_all
  have "length pts \<le> 160 * ?n" "0 < length pts" using sum(2,3) by (simp_all only: len_pts len)
  moreover from this have "unat counter = length pts"
    unfolding counter using live(2) by (intro unat_small) linarith
  moreover have "\<exists>i < length ss. point_index x = of_nat i \<and> \<not> is_ejected p now (ss ! i)" if "x \<in> set pts" for x
    using continuum_points_index [OF pts that] by (auto simp: is_ejected_def fix_weight_def split: if_splits)
  ultimately show ?thesis by auto
qed

lemma update_continuum_weighted:
  assumes wf: "weighted_wf p" and w: "ketama_weighted (flags p)"
    and now: "e_now E = Inr now" and alloc: "\<forall>n. e_alloc_points E n"
    and live: "live_hosts p now (host_list p) \<noteq> []"
  shows "\<exists>p'. update_continuum E p = Some (MEMCACHED_SUCCESS, p') \<and> weighted_wf p' \<and>
           distribution p' = distribution p \<and>
           unat (continuum_points_counter p') \<le> 160 * length (live_hosts p now (host_list p)) \<and>
           unat (continuum_points_counter p') \<le> length (continuum p') \<and>
           ring_of p' \<noteq> [] \<and> sorted (map point_value (ring_of p')) \<and>
           (\<forall>x \<in> set (ring_of p'). \<exists>i < length (host_list p). point_index x = of_nat i \<and>
              \<not> is_ejected p now (host_list p ! i))"
proof -
  let ?hosts = "host_list p" and ?fixed = "map fix_weight (host_list p)"
  let ?n = "length (live_hosts p now ?hosts)"
  have n: "?n \<le> 40000"
    using wf length_filter_le [of "\<lambda>s. \<not> is_ejected p now s" ?hosts]
    by (simp add: weighted_wf_def host_list_def)
  then have n': "?n \<le> 1000000" by simp
  obtain live rebuild where lr: "live_and_rebuild p now = (live, rebuild)"
    by (cases "live_and_rebuild p now")
  have live': "live = of_nat ?n"
    using wf by (intro live_and_rebuild_live [OF _ lr]) (simp add: weighted_wf_def)
  have live_nz: "live \<noteq> 0"
    using live n unat_small [of ?n] by (auto simp: live' dest: arg_cong [where f = unat])
  let ?p1 = "p\<lparr>next_distribution_rebuild := rebuild\<rparr>"
  have room1: "160 * unat (continuum_count ?p1) \<le> length (continuum ?p1)"
    using wf by (simp add: weighted_wf_def)
  obtain c cc where grow: "grow_continuum E ?p1 live MEMCACHED_POINTS_PER_SERVER_KETAMA
      = Some (?p1\<lparr>continuum := c, continuum_count := cc\<rparr>)"
    and room: "160 * ?n \<le> length c" "160 * unat cc \<le> length c"
    using grow_room [OF n' live' alloc room1] unfolding MEMCACHED_POINTS_PER_SERVER_KETAMA_def by blast
  let ?p2 = "?p1\<lparr>continuum := c, continuum_count := cc,
      servers := ?fixed @ drop (unat (memcached_server_count p)) (servers p)\<rparr>"
  have ej: "is_ejected ?p2 now s = is_ejected p now s" for s
    by (simp add: is_ejected_def is_auto_eject_host_def)
  have tw: "total_weight (?p1\<lparr>continuum := c, continuum_count := cc\<rparr>) now ss = total_weight ?p2 now ss" for ss
    by (induction ss) (simp_all add: is_auto_eject_host_def)
  obtain pts counter where pts: "continuum_points E ?p2 now (total_weight ?p2 now ?fixed) live 0 ?fixed = (pts, counter)"
    by (cases "continuum_points E ?p2 now (total_weight ?p2 now ?fixed) live 0 ?fixed")
  have "unat counter = length pts \<and> pts \<noteq> [] \<and> length pts \<le> 160 * length (live_hosts ?p2 now ?hosts) \<and>
      (\<forall>x \<in> set pts. \<exists>i < length ?hosts. point_index x = of_nat i \<and> \<not> is_ejected ?p2 now (?hosts ! i))"
    by (rule weighted_points_written [where E = E]) (use w live n pts live' in \<open>simp_all add: ej\<close>)
  then have written: "unat counter = length pts" "pts \<noteq> []" "length pts \<le> 160 * ?n"
    "\<forall>x \<in> set pts. \<exists>i < length ?hosts. point_index x = of_nat i \<and> \<not> is_ejected p now (?hosts ! i)"
    by (simp_all add: ej)
  let ?p3 = "?p2\<lparr>continuum_points_counter := counter,
      continuum := sort_key point_value pts @ drop (length pts) c\<rparr>"
  have fits: "length pts \<le> length c" using written(3) room(1) by simp
  have up: "update_continuum E p = Some (MEMCACHED_SUCCESS, ?p3)"
    using w live_nz grow pts written(1) fits
    by (simp add: update_continuum_def now Let_def lr host_list_def [symmetric] store_points_eq
        qsort_continuum tw del: take_map)
  have ring: "ring_of ?p3 = sort_key point_value pts" by (simp add: ring_of_def written(1))
  have "length ?fixed = unat (memcached_server_count p)"
    using wf by (simp add: host_list_def weighted_wf_def)
  then have "weighted_wf ?p3"
    using wf room fits by (simp add: weighted_wf_def memcached_server_count_def)
  moreover have "ring_of ?p3 \<noteq> []" using written(2) unfolding ring by (metis length_sort length_0_conv)
  moreover have "sorted (map point_value (ring_of ?p3))" unfolding ring by simp
  moreover have "\<forall>x \<in> set (ring_of ?p3). \<exists>i < length ?hosts. point_index x = of_nat i \<and> \<not> is_ejected p now (?hosts ! i)"
    unfolding ring using written(4) by simp
  ultimately show ?thesis
    unfolding up using written(1,3) fits by (intro exI [of _ ?p3]) simp
qed

text \<open>
  C10: rebuilding the weighted continuum of up to 40000 servers, of any weights, succeeds and stays
  within an array of 160 points for each live server, in spite of the rounding in single precision;
  and from then on every hash is mapped to a live server.
\<close>

lemma weighted_dispatch:
  assumes wf: "weighted_wf p" and w: "ketama_weighted (flags p)" and cons: "consistent p"
    and now: "e_now E = Inr now" and alloc: "\<forall>n. e_alloc_points E n"
    and live: "live_hosts p now (host_list p) \<noteq> []"
  shows "\<exists>p'. update_continuum E p = Some (MEMCACHED_SUCCESS, p') \<and> weighted_wf p' \<and>
           unat (continuum_points_counter p') \<le> 160 * length (live_hosts p now (host_list p)) \<and>
           (\<forall>random hash. \<exists>i. dispatch_host random p' hash = Some i \<and>
              unat i < length (host_list p) \<and> \<not> is_ejected p now (host_list p ! unat i))"
proof -
  from update_continuum_weighted [OF wf w now alloc live] obtain p' where
    up: "update_continuum E p = Some (MEMCACHED_SUCCESS, p')" and wf': "weighted_wf p'"
    and dist: "distribution p' = distribution p"
    and n: "unat (continuum_points_counter p') \<le> 160 * length (live_hosts p now (host_list p))"
      "unat (continuum_points_counter p') \<le> length (continuum p')"
    and ring: "ring_of p' \<noteq> []" "sorted (map point_value (ring_of p'))"
      "\<forall>x \<in> set (ring_of p'). \<exists>i < length (host_list p). point_index x = of_nat i \<and>
              \<not> is_ejected p now (host_list p ! i)"
    by blast
  have "\<exists>i. dispatch_host random p' hash = Some i \<and>
           unat i < length (host_list p) \<and> \<not> is_ejected p now (host_list p ! unat i)" for random hash
  proof -
    have "dispatch_host random p' hash = ring_lookup (ring_of p') hash"
      using cons dist continuum_lookup_ring [OF ring(2) n(2) ring(1)]
      by (simp add: dispatch_consistent consistent_def)
    moreover obtain x where x: "x \<in> set (ring_of p')" "ring_lookup (ring_of p') hash = Some (point_index x)"
      using ring_lookup_in [OF ring(1)] by auto
    moreover obtain i where i: "i < length (host_list p)" "point_index x = of_nat i"
      "\<not> is_ejected p now (host_list p ! i)"
      using ring(3) x(1) by blast
    moreover have "unat (of_nat i :: u32) = i"
      using i(1) wf by (intro unat_small) (simp add: weighted_wf_def host_list_def)
    ultimately show ?thesis by auto
  qed
  with up wf' n(1) show ?thesis by blast
qed

lemma weighted_dispatch_witness:
  "\<exists>p'. update_continuum zero_env (two_servers\<lparr>flags := global_copy_flags\<lparr>ketama_weighted := True\<rparr>\<rparr>)
          = Some (MEMCACHED_SUCCESS, p') \<and> weighted_wf p' \<and>
      unat (continuum_points_counter p') \<le> 160 * length (live_hosts
        (two_servers\<lparr>flags := global_copy_flags\<lparr>ketama_weighted := True\<rparr>\<rparr>) 1000 (host_list two_servers)) \<and>
      (\<forall>random hash. \<exists>i. dispatch_host random p' hash = Some i \<and> unat i < length (host_list two_servers) \<and>
         \<not> is_ejected (two_servers\<lparr>flags := global_copy_flags\<lparr>ketama_weighted := True\<rparr>\<rparr>) 1000
              (host_list two_servers ! unat i))"
  using weighted_dispatch [of "two_servers\<lparr>flags := global_copy_flags\<lparr>ketama_weighted := True\<rparr>\<rparr>" zero_env 1000]
  by (simp add: witness_defs weighted_wf_def consistent_def host_list_def is_ejected_def)

lemma sum_list_const: "\<forall>x \<in> set xs. f x = c \<Longrightarrow> sum_list (map f xs) = length xs * (c :: nat)"
  by (induction xs) simp_all

text \<open>
  C31: the array is sized with the flag as it is when it grows. A client of eight servers of equal
  weight whose continuum was last sized for one live server without weights (eleven slots of 100
  points) has no need to grow it, and once \<open>MEMCACHED_BEHAVIOR_KETAMA_WEIGHTED\<close> is set rebuilding
  the continuum writes more than 1200 points into 1100 places.
\<close>

lemma weighted_switch_overruns:
  assumes w: "ketama_weighted (flags p)" and ne: "\<not> is_auto_eject_host p"
    and now: "e_now E = Inr now" and count: "memcached_server_count p = 8" "length (servers p) = 8"
    and weights: "\<forall>s \<in> set (servers p). weight s = 0"
    and c: "continuum_count p = 11" "length (continuum p) = 1100"
  shows "update_continuum E p = None"
proof -
  let ?fixed = "map fix_weight (servers p)"
  have wt: "\<forall>s \<in> set ?fixed. weight s = 1" using weights by (simp add: fix_weight_def)
  have lr: "live_and_rebuild p now = (8, next_distribution_rebuild p)"
    using ne count by (simp add: live_and_rebuild_def)
  have grow: "grow_continuum E p 8 MEMCACHED_POINTS_PER_SERVER_KETAMA = Some p"
    using c by (simp add: grow_continuum_def)
  let ?p2 = "p\<lparr>servers := ?fixed\<rparr>"
  have all: "live_hosts ?p2 now ss = ss" for ss using ne by (simp add: is_ejected_def is_auto_eject_host_def)
  have "live_weight ?p2 now ?fixed = length ?fixed * 1"
    unfolding live_weight_def all by (rule sum_list_const) (use wt in auto)
  then have tw: "total_weight ?p2 now ?fixed = 8"
    using count(2) by (simp add: total_weight_live)
  have tw': "total_weight p now ss = total_weight ?p2 now ss" for ss
    by (induction ss) (simp_all add: is_auto_eject_host_def)
  have each: "156 \<le> unat (weighted_points 1 8 8)" by (rule weighted_points_lower) simp_all
  have four: "4 dvd unat (weighted_points 1 8 8)"
    using weighted_points_upper [of 1 8 8] by simp
  obtain pts counter where pts: "continuum_points E ?p2 now 8 8 0 ?fixed = (pts, counter)"
    by (cases "continuum_points E ?p2 now 8 8 0 ?fixed")
  have "length pts = (\<Sum>s\<leftarrow>?fixed. unat (weighted_points (weight s) 8 8))"
    using continuum_points_length [OF _ _ pts] w wt four unfolding all by auto
  also have "\<dots> = length ?fixed * unat (weighted_points 1 8 8)"
    by (rule sum_list_const) (use wt in auto)
  finally have "1248 \<le> length pts" using count(2) each by simp
  then have "store_points (continuum p) pts = None" using c(2) by (simp add: store_points_eq)
  with w now lr grow pts count show ?thesis
    by (simp add: update_continuum_def Let_def tw' tw del: map_map)
qed

definition outgrown :: memcached_st where
  "outgrown =
     zero_memcached\<lparr>flags := global_copy_flags\<lparr>ketama_weighted := True\<rparr>, memc_number_of_hosts := 8,
       servers := replicate 8 zero_server, continuum_count := 11,
       continuum := replicate 1100 \<lparr>point_index = 0, point_value = 0\<rparr>\<rparr>"

lemma weighted_switch_overruns_witness: "update_continuum zero_env outgrown = None"
  by (rule weighted_switch_overruns [where now = 1000]) (simp_all add: outgrown_def witness_defs)

end
