(* ===== verification/Protocol_Binary.thy ===== *)
theory Protocol_Binary
  imports Prelude
begin

text \<open>
  The binary protocol: byte order (\<open>byteorder.c\<close>), the constants and the packet headers of
  \<open>memcached/protocol_binary.h\<close>. A header is a union of 24 bytes and a structure; its multibyte
  fields hold what is on the wire, and the code converts them with \<open>ntohs\<close>, \<open>ntohl\<close> and \<open>ntohll\<close>. The
  target is little endian.
\<close>

section \<open>Byte order\<close>

definition ntohs :: "u16 \<Rightarrow> u16" where "ntohs = bswap16"
definition htons :: "u16 \<Rightarrow> u16" where "htons = bswap16"
definition ntohl :: "u32 \<Rightarrow> u32" where "ntohl = bswap32"
definition htonl :: "u32 \<Rightarrow> u32" where "htonl = bswap32"

text \<open>The loop of \<open>swap64\<close>: eight times, the lowest byte of the input is pushed into the result.\<close>

fun swap64_loop :: "nat \<Rightarrow> u64 \<Rightarrow> u64 \<Rightarrow> u64" where
  "swap64_loop 0 rv i = rv"
| "swap64_loop (Suc x) rv i = swap64_loop x (push_bit 8 rv OR (i AND 0xff)) (drop_bit 8 i)"

definition swap64 :: "u64 \<Rightarrow> u64" where "swap64 i = swap64_loop 8 0 i"

definition ntohll :: "u64 \<Rightarrow> u64" where "ntohll v = swap64 v"
definition htonll :: "u64 \<Rightarrow> u64" where "htonll v = swap64 v"

text \<open>One byte at a time, the loop reverses the bytes.\<close>

lemma swap64_unrolled:
  "swap64 w =
     push_bit 8 (push_bit 8 (push_bit 8 (push_bit 8 (push_bit 8 (push_bit 8 (push_bit 8
       (push_bit 8 0 OR (w AND mask 8)) OR (drop_bit 8 w AND mask 8)) OR (drop_bit 16 w AND mask 8))
       OR (drop_bit 24 w AND mask 8)) OR (drop_bit 32 w AND mask 8)) OR (drop_bit 40 w AND mask 8))
       OR (drop_bit 48 w AND mask 8)) OR (drop_bit 56 w AND mask 8)"
  by (simp add: swap64_def eval_nat_numeral mask_eq_exp_minus_1)

lemma swap64_bytes:
  "swap64 w = le64 (byte_of 7 w) (byte_of 6 w) (byte_of 5 w) (byte_of 4 w)
                   (byte_of 3 w) (byte_of 2 w) (byte_of 1 w) (byte_of 0 w)"
proof (rule bit_word_eqI)
  fix n :: nat
  assume "n < LENGTH(64)"
  then consider "n < 8" | "8 \<le> n" "n < 16" | "16 \<le> n" "n < 24" | "24 \<le> n" "n < 32"
    | "32 \<le> n" "n < 40" | "40 \<le> n" "n < 48" | "48 \<le> n" "n < 56" | "56 \<le> n" "n < 64"
    by fastforce
  then show "bit (swap64 w) n \<longleftrightarrow>
      bit (le64 (byte_of 7 w) (byte_of 6 w) (byte_of 5 w) (byte_of 4 w)
                (byte_of 3 w) (byte_of 2 w) (byte_of 1 w) (byte_of 0 w)) n"
    by cases (auto simp: swap64_unrolled byte_of_def le64_def le32_def bit_simps less_diff_conv2)
qed

section \<open>Constants\<close>

abbreviation (input) PROTOCOL_BINARY_REQ :: byte where "PROTOCOL_BINARY_REQ \<equiv> 0x80"
abbreviation (input) PROTOCOL_BINARY_RES :: byte where "PROTOCOL_BINARY_RES \<equiv> 0x81"
abbreviation (input) PROTOCOL_BINARY_RAW_BYTES :: byte where "PROTOCOL_BINARY_RAW_BYTES \<equiv> 0x00"

text \<open>Response status, as the 16 bits of the header.\<close>

type_synonym protocol_binary_response_status = u16

abbreviation (input) PROTOCOL_BINARY_RESPONSE_SUCCESS :: u16 where
  "PROTOCOL_BINARY_RESPONSE_SUCCESS \<equiv> 0x00"
abbreviation (input) PROTOCOL_BINARY_RESPONSE_KEY_ENOENT :: u16 where
  "PROTOCOL_BINARY_RESPONSE_KEY_ENOENT \<equiv> 0x01"
abbreviation (input) PROTOCOL_BINARY_RESPONSE_KEY_EEXISTS :: u16 where
  "PROTOCOL_BINARY_RESPONSE_KEY_EEXISTS \<equiv> 0x02"
abbreviation (input) PROTOCOL_BINARY_RESPONSE_E2BIG :: u16 where
  "PROTOCOL_BINARY_RESPONSE_E2BIG \<equiv> 0x03"
abbreviation (input) PROTOCOL_BINARY_RESPONSE_EINVAL :: u16 where
  "PROTOCOL_BINARY_RESPONSE_EINVAL \<equiv> 0x04"
abbreviation (input) PROTOCOL_BINARY_RESPONSE_NOT_STORED :: u16 where
  "PROTOCOL_BINARY_RESPONSE_NOT_STORED \<equiv> 0x05"
abbreviation (input) PROTOCOL_BINARY_RESPONSE_DELTA_BADVAL :: u16 where
  "PROTOCOL_BINARY_RESPONSE_DELTA_BADVAL \<equiv> 0x06"
abbreviation (input) PROTOCOL_BINARY_RESPONSE_AUTH_ERROR :: u16 where
  "PROTOCOL_BINARY_RESPONSE_AUTH_ERROR \<equiv> 0x20"
abbreviation (input) PROTOCOL_BINARY_RESPONSE_AUTH_CONTINUE :: u16 where
  "PROTOCOL_BINARY_RESPONSE_AUTH_CONTINUE \<equiv> 0x21"
abbreviation (input) PROTOCOL_BINARY_RESPONSE_UNKNOWN_COMMAND :: u16 where
  "PROTOCOL_BINARY_RESPONSE_UNKNOWN_COMMAND \<equiv> 0x81"
abbreviation (input) PROTOCOL_BINARY_RESPONSE_ENOMEM :: u16 where
  "PROTOCOL_BINARY_RESPONSE_ENOMEM \<equiv> 0x82"
abbreviation (input) PROTOCOL_BINARY_RESPONSE_PAUSE :: u16 where
  "PROTOCOL_BINARY_RESPONSE_PAUSE \<equiv> 0xfe00"
abbreviation (input) PROTOCOL_BINARY_RESPONSE_EIO :: u16 where
  "PROTOCOL_BINARY_RESPONSE_EIO \<equiv> 0xff00"

text \<open>Command opcodes.\<close>

abbreviation (input) PROTOCOL_BINARY_CMD_GET :: byte where
  "PROTOCOL_BINARY_CMD_GET \<equiv> 0x00"
abbreviation (input) PROTOCOL_BINARY_CMD_SET :: byte where
  "PROTOCOL_BINARY_CMD_SET \<equiv> 0x01"
abbreviation (input) PROTOCOL_BINARY_CMD_ADD :: byte where
  "PROTOCOL_BINARY_CMD_ADD \<equiv> 0x02"
abbreviation (input) PROTOCOL_BINARY_CMD_REPLACE :: byte where
  "PROTOCOL_BINARY_CMD_REPLACE \<equiv> 0x03"
abbreviation (input) PROTOCOL_BINARY_CMD_DELETE :: byte where
  "PROTOCOL_BINARY_CMD_DELETE \<equiv> 0x04"
abbreviation (input) PROTOCOL_BINARY_CMD_INCREMENT :: byte where
  "PROTOCOL_BINARY_CMD_INCREMENT \<equiv> 0x05"
abbreviation (input) PROTOCOL_BINARY_CMD_DECREMENT :: byte where
  "PROTOCOL_BINARY_CMD_DECREMENT \<equiv> 0x06"
abbreviation (input) PROTOCOL_BINARY_CMD_QUIT :: byte where
  "PROTOCOL_BINARY_CMD_QUIT \<equiv> 0x07"
abbreviation (input) PROTOCOL_BINARY_CMD_FLUSH :: byte where
  "PROTOCOL_BINARY_CMD_FLUSH \<equiv> 0x08"
abbreviation (input) PROTOCOL_BINARY_CMD_GETQ :: byte where
  "PROTOCOL_BINARY_CMD_GETQ \<equiv> 0x09"
abbreviation (input) PROTOCOL_BINARY_CMD_NOOP :: byte where
  "PROTOCOL_BINARY_CMD_NOOP \<equiv> 0x0a"
abbreviation (input) PROTOCOL_BINARY_CMD_VERSION :: byte where
  "PROTOCOL_BINARY_CMD_VERSION \<equiv> 0x0b"
abbreviation (input) PROTOCOL_BINARY_CMD_GETK :: byte where
  "PROTOCOL_BINARY_CMD_GETK \<equiv> 0x0c"
abbreviation (input) PROTOCOL_BINARY_CMD_GETKQ :: byte where
  "PROTOCOL_BINARY_CMD_GETKQ \<equiv> 0x0d"
abbreviation (input) PROTOCOL_BINARY_CMD_APPEND :: byte where
  "PROTOCOL_BINARY_CMD_APPEND \<equiv> 0x0e"
abbreviation (input) PROTOCOL_BINARY_CMD_PREPEND :: byte where
  "PROTOCOL_BINARY_CMD_PREPEND \<equiv> 0x0f"
abbreviation (input) PROTOCOL_BINARY_CMD_STAT :: byte where
  "PROTOCOL_BINARY_CMD_STAT \<equiv> 0x10"
abbreviation (input) PROTOCOL_BINARY_CMD_SETQ :: byte where
  "PROTOCOL_BINARY_CMD_SETQ \<equiv> 0x11"
abbreviation (input) PROTOCOL_BINARY_CMD_ADDQ :: byte where
  "PROTOCOL_BINARY_CMD_ADDQ \<equiv> 0x12"
abbreviation (input) PROTOCOL_BINARY_CMD_REPLACEQ :: byte where
  "PROTOCOL_BINARY_CMD_REPLACEQ \<equiv> 0x13"
abbreviation (input) PROTOCOL_BINARY_CMD_DELETEQ :: byte where
  "PROTOCOL_BINARY_CMD_DELETEQ \<equiv> 0x14"
abbreviation (input) PROTOCOL_BINARY_CMD_INCREMENTQ :: byte where
  "PROTOCOL_BINARY_CMD_INCREMENTQ \<equiv> 0x15"
abbreviation (input) PROTOCOL_BINARY_CMD_DECREMENTQ :: byte where
  "PROTOCOL_BINARY_CMD_DECREMENTQ \<equiv> 0x16"
abbreviation (input) PROTOCOL_BINARY_CMD_QUITQ :: byte where
  "PROTOCOL_BINARY_CMD_QUITQ \<equiv> 0x17"
abbreviation (input) PROTOCOL_BINARY_CMD_FLUSHQ :: byte where
  "PROTOCOL_BINARY_CMD_FLUSHQ \<equiv> 0x18"
abbreviation (input) PROTOCOL_BINARY_CMD_APPENDQ :: byte where
  "PROTOCOL_BINARY_CMD_APPENDQ \<equiv> 0x19"
abbreviation (input) PROTOCOL_BINARY_CMD_PREPENDQ :: byte where
  "PROTOCOL_BINARY_CMD_PREPENDQ \<equiv> 0x1a"
abbreviation (input) PROTOCOL_BINARY_CMD_SASL_LIST_MECHS :: byte where
  "PROTOCOL_BINARY_CMD_SASL_LIST_MECHS \<equiv> 0x20"
abbreviation (input) PROTOCOL_BINARY_CMD_SASL_AUTH :: byte where
  "PROTOCOL_BINARY_CMD_SASL_AUTH \<equiv> 0x21"
abbreviation (input) PROTOCOL_BINARY_CMD_SASL_STEP :: byte where
  "PROTOCOL_BINARY_CMD_SASL_STEP \<equiv> 0x22"

section \<open>Headers\<close>

record protocol_binary_request_header =
  req_magic :: byte
  req_opcode :: byte
  req_keylen :: u16
  req_extlen :: byte
  req_datatype :: byte
  req_reserved :: u16
  req_bodylen :: u32
  req_opaque :: u32
  req_cas :: u64

record protocol_binary_response_header =
  res_magic :: byte
  res_opcode :: byte
  res_keylen :: u16
  res_extlen :: byte
  res_datatype :: byte
  res_status :: u16
  res_bodylen :: u32
  res_opaque :: u32
  res_cas :: u64

text \<open>The header that the first 24 bytes of a buffer are, and the bytes of a header.\<close>

definition request_at :: "byte list \<Rightarrow> protocol_binary_request_header" where
  "request_at b =
     \<lparr>req_magic = b ! 0, req_opcode = b ! 1, req_keylen = ld_le16 b 2, req_extlen = b ! 4,
      req_datatype = b ! 5, req_reserved = ld_le16 b 6, req_bodylen = ld_le32 b 8,
      req_opaque = ld_le32 b 12, req_cas = ld_le64 b 16\<rparr>"

definition request_bytes :: "protocol_binary_request_header \<Rightarrow> byte list" where
  "request_bytes h =
     [req_magic h, req_opcode h] @ st_le16 (req_keylen h) @ [req_extlen h, req_datatype h]
     @ st_le16 (req_reserved h) @ st_le32 (req_bodylen h) @ st_le32 (req_opaque h) @ st_le64 (req_cas h)"

definition response_at :: "byte list \<Rightarrow> protocol_binary_response_header" where
  "response_at b =
     \<lparr>res_magic = b ! 0, res_opcode = b ! 1, res_keylen = ld_le16 b 2, res_extlen = b ! 4,
      res_datatype = b ! 5, res_status = ld_le16 b 6, res_bodylen = ld_le32 b 8,
      res_opaque = ld_le32 b 12, res_cas = ld_le64 b 16\<rparr>"

definition response_bytes :: "protocol_binary_response_header \<Rightarrow> byte list" where
  "response_bytes h =
     [res_magic h, res_opcode h] @ st_le16 (res_keylen h) @ [res_extlen h, res_datatype h]
     @ st_le16 (res_status h) @ st_le32 (res_bodylen h) @ st_le32 (res_opaque h) @ st_le64 (res_cas h)"

lemma length_header_bytes [simp]: "length (request_bytes h) = 24" "length (response_bytes r) = 24"
  by (simp_all add: request_bytes_def response_bytes_def)

lemmas bytes_again = le16_bytes le32_bytes le64_bytes

lemmas header_layout =
  bytes_again [unfolded One_nat_def] st_le16_def st_le32_def st_le64_def ld_le16_def ld_le32_def ld_le64_def nth_append wire_simps

lemma request_roundtrip [simp]: "request_at (request_bytes h @ rest) = h"
  by (simp add: request_at_def request_bytes_def header_layout)

lemma response_roundtrip [simp]: "response_at (response_bytes h @ rest) = h"
  by (simp add: response_at_def response_bytes_def header_layout)

lemma byteorder_inverse [simp]:
  "ntohs (htons a) = a" "htons (ntohs a) = a" "ntohl (htonl b) = b" "htonl (ntohl b) = b"
  "ntohll (htonll c) = c" "htonll (ntohll c) = c" "ntohll (ntohll c) = c"
  by (simp_all add: ntohs_def htons_def ntohl_def htonl_def ntohll_def htonll_def swap64_bytes bytes_again [unfolded One_nat_def]
      wire_simps)

end
