(* ===== verification/Cache.thy ===== *)
theory Cache
  imports Prelude
begin

text \<open>
  \<open>protocol/cache.c\<close>, with its red zones (\<open>NDEBUG\<close> is not defined): a pool of equal blocks with a stack
  of free ones. A block is named by the number of its allocation; \<open>zones\<close> holds the two red zones
  of the blocks that are allocated, and \<open>Block b\<close> and \<open>Object b\<close> are the two pointers into a block,
  before and behind its first red zone. The array \<open>ptr\<close> is the list of its first \<open>freecurr\<close> entries.
  Whether the \<open>n\<close>-th \<open>malloc\<close> and a \<open>realloc\<close> to \<open>n\<close> entries succeed are arguments; each entry is
  a block of its own, so that the capacity never reaches the range of \<open>size_t\<close>. The mutex is left
  out: every operation holds it while it uses the stack, and the red zones are written to a block
  that only the caller knows.
\<close>

datatype cache_ptr = Block nat | Object nat

record cache_t =
  cache_name :: "byte list"
  free_ptrs :: "nat list"
  bufsize :: nat
  freetotal :: nat
  constructor :: "(nat \<Rightarrow> int) option"
  has_destructor :: bool
  next_block :: nat
  zones :: "nat \<Rightarrow> (u64 \<times> u64) option"
  destructed :: "cache_ptr list"

definition redzone_pattern :: u64 where "redzone_pattern = 0xdeadbeefcafebabe"

definition initial_pool_size :: nat where "initial_pool_size = 64"

text \<open>The three allocations of \<open>cache_create\<close> and the initialisation of its mutex may fail.\<close>

definition cache_create ::
  "bool \<Rightarrow> byte list \<Rightarrow> nat \<Rightarrow> (nat \<Rightarrow> int) option \<Rightarrow> bool \<Rightarrow> cache_t option" where
  "cache_create ok name objsize ctor dtor =
     (if \<not> ok then None
      else Some \<lparr>cache_name = name, free_ptrs = [], bufsize = objsize + 2 * 8, freetotal = initial_pool_size,
                 constructor = ctor, has_destructor = dtor, next_block = 0, zones = (\<lambda>_. None),
                 destructed = []\<rparr>)"

definition run_destructor :: "cache_ptr \<Rightarrow> cache_t \<Rightarrow> cache_t" where
  "run_destructor p c = (if has_destructor c then c\<lparr>destructed := destructed c @ [p]\<rparr> else c)"

definition free_block :: "nat \<Rightarrow> cache_t \<Rightarrow> cache_t" where
  "free_block b c = c\<lparr>zones := (zones c)(b := None)\<rparr>"

text \<open>The blocks are destroyed from the top of the stack.\<close>

fun destroy_loop :: "nat list \<Rightarrow> cache_t \<Rightarrow> cache_t" where
  "destroy_loop [] c = c"
| "destroy_loop (b # bs) c = destroy_loop bs (free_block b (run_destructor (Object b) c))"

definition cache_destroy :: "cache_t \<Rightarrow> cache_t" where
  "cache_destroy c = destroy_loop (rev (free_ptrs c)) (c\<lparr>free_ptrs := []\<rparr>)"

definition set_redzones :: "nat \<Rightarrow> cache_t \<Rightarrow> cache_t" where
  "set_redzones b c = c\<lparr>zones := (zones c)(b \<mapsto> (redzone_pattern, redzone_pattern))\<rparr>"

definition cache_alloc :: "(nat \<Rightarrow> bool) \<Rightarrow> cache_t \<Rightarrow> nat option \<times> cache_t" where
  "cache_alloc malloc c =
     (if free_ptrs c \<noteq> []
      then let b = last (free_ptrs c)
           in (Some b, set_redzones b (c\<lparr>free_ptrs := butlast (free_ptrs c)\<rparr>))
      else let b = next_block c; c = c\<lparr>next_block := b + 1\<rparr>
           in if \<not> malloc b then (None, c)
              else if (case constructor c of None \<Rightarrow> False | Some f \<Rightarrow> f b \<noteq> 0)
              then (None, free_block b c)
              else (Some b, set_redzones b c))"

text \<open>\<open>None\<close>: a red zone has been overwritten, or the block is not allocated, and the process aborts.\<close>

definition cache_free :: "(nat \<Rightarrow> bool) \<Rightarrow> nat \<Rightarrow> cache_t \<Rightarrow> cache_t option" where
  "cache_free realloc b c =
     (case zones c b of
        None \<Rightarrow> None
      | Some (pre, post) \<Rightarrow>
          if post \<noteq> redzone_pattern then None
          else if pre \<noteq> redzone_pattern then None
          else if length (free_ptrs c) < freetotal c then Some (c\<lparr>free_ptrs := free_ptrs c @ [b]\<rparr>)
          else
            let newtotal = freetotal c * 2
            in if realloc newtotal
               then Some (c\<lparr>freetotal := newtotal, free_ptrs := free_ptrs c @ [b]\<rparr>)
               else Some (free_block b (run_destructor (Block b) c)))"

section \<open>The interface of a pool\<close>

text \<open>
  What a client relies on: \<open>live p U\<close> says that the objects in \<open>U\<close> are handed out; an object that
  is handed out is new, and can be given back.
\<close>

locale object_pool =
  fixes live :: "'p \<Rightarrow> nat set \<Rightarrow> bool"
    and get :: "'p \<Rightarrow> nat option \<times> 'p"
    and put :: "nat \<Rightarrow> 'p \<Rightarrow> 'p option"
  assumes get_some: "live p U \<Longrightarrow> get p = (Some b, p') \<Longrightarrow> b \<notin> U \<and> live p' (insert b U)"
    and get_none: "live p U \<Longrightarrow> get p = (None, p') \<Longrightarrow> live p' U"
    and put_live: "live p U \<Longrightarrow> b \<in> U \<Longrightarrow> \<exists>p'. put b p = Some p' \<and> live p' (U - {b})"
begin

text \<open>
  A chain of objects, beside the objects \<open>V\<close> of other clients: a new one is linked at its end, the
  first one is given back.
\<close>

definition chain :: "'p \<Rightarrow> nat set \<Rightarrow> nat list \<Rightarrow> bool" where
  "chain p V bs \<longleftrightarrow> distinct bs \<and> set bs \<inter> V = {} \<and> live p (V \<union> set bs)"

lemma chain_extend: "chain p V bs \<Longrightarrow> get p = (Some b, p') \<Longrightarrow> chain p' V (bs @ [b])"
  using get_some [of p "V \<union> set bs" b p'] by (auto simp: chain_def)

lemma chain_fail: "chain p V bs \<Longrightarrow> get p = (None, p') \<Longrightarrow> chain p' V bs"
  using get_none [of p "V \<union> set bs" p'] by (simp add: chain_def)

lemma chain_drop:
  assumes "chain p V (b # bs)"
  shows "\<exists>p'. put b p = Some p' \<and> chain p' V bs"
proof -
  have "V \<union> set (b # bs) - {b} = V \<union> set bs" using assms by (auto simp: chain_def)
  with put_live [of p "V \<union> set (b # bs)" b] assms show ?thesis by (auto simp: chain_def)
qed

end

section \<open>Reachable caches\<close>

inductive cache_step ::
  "(nat \<Rightarrow> bool) \<Rightarrow> (nat \<Rightarrow> bool) \<Rightarrow> cache_t \<times> nat set \<Rightarrow> cache_t \<times> nat set \<Rightarrow> bool"
  for malloc realloc where
  Alloc: "cache_alloc malloc c = (Some b, c') \<Longrightarrow> cache_step malloc realloc (c, U) (c', insert b U)"
| Alloc_fails: "cache_alloc malloc c = (None, c') \<Longrightarrow> cache_step malloc realloc (c, U) (c', U)"
| Free: "b \<in> U \<Longrightarrow> cache_free realloc b c = Some c' \<Longrightarrow> cache_step malloc realloc (c, U) (c', U - {b})"

inductive_cases cache_stepE: "cache_step malloc realloc (c, U) s"

text \<open>
  \<open>U\<close> are the objects in use: the free blocks are different from each other and from these, and
  together they are all the blocks that are allocated.
\<close>

definition cache_inv :: "cache_t \<Rightarrow> nat set \<Rightarrow> bool" where
  "cache_inv c U \<longleftrightarrow>
     distinct (free_ptrs c) \<and> length (free_ptrs c) \<le> freetotal c \<and> set (free_ptrs c) \<inter> U = {} \<and>
     dom (zones c) = set (free_ptrs c) \<union> U \<and> (\<forall>b \<in> dom (zones c). b < next_block c) \<and>
     0 < freetotal c \<and> (\<forall>b z. zones c b = Some z \<longrightarrow> z = (redzone_pattern, redzone_pattern))"

lemma cache_inv_create: "cache_create ok name objsize ctor dtor = Some c \<Longrightarrow> cache_inv c {}"
  by (auto simp: cache_create_def cache_inv_def initial_pool_size_def split: if_splits)

lemma cache_inv_zone: "cache_inv c U \<Longrightarrow> b \<in> U \<Longrightarrow> zones c b = Some (redzone_pattern, redzone_pattern)"
  unfolding cache_inv_def by (metis UnCI domD)

lemma cache_inv_alloc_some:
  assumes inv: "cache_inv c U" and a: "cache_alloc malloc c = (Some b, c')"
  shows "b \<notin> U \<and> cache_inv c' (insert b U)"
proof (cases "free_ptrs c = []")
  case True
  with a have b: "b = next_block c"
    and c': "c' = set_redzones b (c\<lparr>next_block := next_block c + 1\<rparr>)"
    by (auto simp: cache_alloc_def Let_def split: if_splits option.splits)
  have "\<forall>x \<in> U. x < b" using inv b True by (auto simp: cache_inv_def)
  then show ?thesis
    using inv True unfolding c' by (auto simp: cache_inv_def set_redzones_def b less_Suc_eq)
next
  case False
  then obtain xs where xs: "free_ptrs c = xs @ [b]" and c': "c' = set_redzones b (c\<lparr>free_ptrs := xs\<rparr>)"
    using a by (cases "free_ptrs c" rule: rev_cases) (auto simp: cache_alloc_def Let_def)
  have b: "b \<in> dom (zones c)" using inv xs by (auto simp: cache_inv_def)
  then have "dom ((zones c)(b \<mapsto> z)) = dom (zones c)" for z by auto
  then show ?thesis
    using inv xs unfolding c' by (auto simp: cache_inv_def set_redzones_def)
qed

lemma cache_inv_alloc_none:
  assumes inv: "cache_inv c U" and a: "cache_alloc malloc c = (None, c')"
  shows "cache_inv c' U"
proof -
  have "zones c (next_block c) = None" using inv by (fastforce simp: cache_inv_def)
  then have z: "(zones c)(next_block c := None) = zones c" by auto
  from a have "c' = c\<lparr>next_block := next_block c + 1\<rparr> \<or>
      c' = free_block (next_block c) (c\<lparr>next_block := next_block c + 1\<rparr>)"
    by (auto simp: cache_alloc_def Let_def split: if_splits option.splits)
  then show ?thesis
    using inv by (auto simp: cache_inv_def free_block_def z intro: less_SucI)
qed

lemma cache_inv_free:
  assumes inv: "cache_inv c U" and b: "b \<in> U"
  shows "\<exists>c'. cache_free realloc b c = Some c' \<and> cache_inv c' (U - {b})"
proof -
  have z: "zones c b = Some (redzone_pattern, redzone_pattern)" by (rule cache_inv_zone [OF inv b])
  have new: "b \<notin> set (free_ptrs c)" "b \<in> dom (zones c)" using inv b by (auto simp: cache_inv_def)
  have len: "length (free_ptrs c) \<le> freetotal c" "0 < freetotal c" using inv by (simp_all add: cache_inv_def)
  consider (room) "length (free_ptrs c) < freetotal c" | (grow) "length (free_ptrs c) = freetotal c" "realloc (freetotal c * 2)"
    | (destroy) "length (free_ptrs c) = freetotal c" "\<not> realloc (freetotal c * 2)"
    using len by fastforce
  then show ?thesis
  proof cases
    case room
    then show ?thesis using inv b new by (auto simp: cache_free_def z cache_inv_def)
  next
    case grow
    then show ?thesis using inv b new by (auto simp: cache_free_def z cache_inv_def Let_def)
  next
    case destroy
    then show ?thesis
      using inv b new by (auto simp: cache_free_def z cache_inv_def Let_def free_block_def run_destructor_def)
  qed
qed

interpretation pool: object_pool cache_inv "cache_alloc malloc" "cache_free realloc"
  by unfold_locales (auto dest: cache_inv_alloc_some cache_inv_alloc_none intro: cache_inv_free)

lemma cache_step_inv:
  assumes "cache_inv c U" and "cache_step malloc realloc (c, U) (c', U')"
  shows "cache_inv c' U'"
proof -
  note get = pool.get_some [OF assms(1), of malloc] pool.get_none [OF assms(1), of malloc]
  have put: "cache_inv d (U - {b})" if "b \<in> U" "cache_free realloc b c = Some d" for b d
    using pool.put_live [OF assms(1) that(1), of realloc] that(2) by auto
  from assms(2) show ?thesis by (elim cache_stepE) (auto dest: get put)
qed

lemma cache_reachable_inv:
  assumes "(cache_step malloc realloc)\<^sup>*\<^sup>* (c, {}) (c', U)" and "cache_inv c {}"
  shows "cache_inv c' U"
  using assms
proof (induction "(c', U)" arbitrary: c' U rule: rtranclp_induct)
  case (step s)
  then show ?case by (cases s) (auto intro: cache_step_inv)
qed simp


definition small_cache :: cache_t where
  "small_cache = the (cache_create True (bytes ''c'') 32 None True)"


text \<open>
  the destructor of an object is given two different pointers: \<open>cache_destroy\<close> passes the object
  the constructor saw, while \<open>cache_free\<close>, when the array of free blocks cannot grow, passes the
  block, eight bytes before the object.
\<close>

lemma cache_destructor_pointers:
  assumes "cache_inv c U" and "b \<in> U" and "has_destructor c"
    and "length (free_ptrs c) = freetotal c" and "\<not> realloc (freetotal c * 2)"
  shows "map_option destructed (cache_free realloc b c) = Some (destructed c @ [Block b]) \<and>
         destructed (cache_destroy c) = destructed c @ map Object (rev (free_ptrs c))"
proof -
  have "destructed (destroy_loop bs d) = destructed d @ map Object bs" if "has_destructor d" for bs d
    using that by (induction bs arbitrary: d) (simp_all add: free_block_def run_destructor_def)
  with assms cache_inv_zone [OF assms(1,2)] show ?thesis
    by (simp add: cache_free_def Let_def cache_destroy_def free_block_def run_destructor_def)
qed

definition full_cache :: cache_t where
  "full_cache = small_cache\<lparr>free_ptrs := [1], freetotal := 1, next_block := 2,
     zones := [0 \<mapsto> (redzone_pattern, redzone_pattern), 1 \<mapsto> (redzone_pattern, redzone_pattern)]\<rparr>"

lemma cache_destructor_pointers_witness:
  "map_option destructed (cache_free (\<lambda>n. False) 0 full_cache) = Some [Block 0] \<and>
   destructed (cache_destroy full_cache) = [Object 1]"
proof -
  have "cache_inv full_cache {0}"
    by (auto simp: cache_inv_def full_cache_def split: if_splits)
  from cache_destructor_pointers [OF this, of 0 "\<lambda>n. False"] show ?thesis
    by (simp add: full_cache_def small_cache_def cache_create_def)
qed

end
