(* ===== verification/Protocol_Handler.thy ===== *)
theory Protocol_Handler
  imports Protocol_Binary Cache
begin

text \<open>
  The output side of the protocol server, \<open>protocol/protocol_handler.c\<close> and \<open>protocol/common.h\<close>: data
  for a client is spooled into a chain of chunks and drained to its socket. The instance is
  shared by its clients; the client record holds it as \<open>root\<close>. Its input buffer is its memory,
  \<open>input_buffer_size\<close> bytes. The socket is the two lists of the answers that \<open>send\<close> and \<open>recv\<close> will give,
  after which they would block, and \<open>wire\<close> is what it has accepted. A chunk keeps the \<open>nbytes\<close>
  bytes that have been written to it; \<open>client_input\<close> are the \<open>input_buffer_offset\<close> bytes that were saved
  in the buffer of the client; \<open>current_command\<close> is the memory from the header on.
\<close>

datatype send_outcome = Accepts nat | Would_block | Interrupted | Send_fails int

datatype recv_outcome = Received "byte list" | Closed | Recv_would_block | Recv_fails int

record chunk_st =
  chunk_block :: nat
  chunk_data :: "byte list"
  chunk_offset :: nat
  chunk_size :: nat

definition CHUNK_BUFFERSIZE :: nat where "CHUNK_BUFFERSIZE = 2048"

record memcached_protocol_st =
  input_buffer :: "byte list"
  pedantic :: bool
  buffer_cache :: cache_t

datatype work_function = Determine_protocol | Binary_process_data | Ascii_process_data

datatype ascii_cmd =
  GET_CMD | GETS_CMD | SET_CMD | ADD_CMD | REPLACE_CMD | CAS_CMD | APPEND_CMD | PREPEND_CMD | DELETE_CMD
  | INCR_CMD | DECR_CMD | STATS_CMD | FLUSH_ALL_CMD | VERSION_CMD | QUIT_CMD | VERBOSITY_CMD | UNKNOWN_CMD

record memcached_protocol_client_st =
  root :: memcached_protocol_st
  client_error :: int
  client_output :: "chunk_st list"
  client_input :: "byte list"
  work :: work_function
  mute :: bool
  current_command :: "byte list"
  ascii_command :: ascii_cmd
  recvs :: "recv_outcome list"
  sends :: "send_outcome list"
  wire :: "byte list"

text \<open>Which allocations succeed: of the cache, and of \<open>n\<close> bytes for input that is saved.\<close>

record proto_env =
  env_malloc :: "nat \<Rightarrow> bool"
  env_realloc :: "nat \<Rightarrow> bool"
  env_input :: "nat \<Rightarrow> bool"

definition set_cache :: "cache_t \<Rightarrow> memcached_protocol_client_st \<Rightarrow> memcached_protocol_client_st" where
  "set_cache p c = c\<lparr>root := (root c)\<lparr>buffer_cache := p\<rparr>\<rparr>"

section \<open>Draining\<close>

text \<open>
  The socket has accepted up to \<open>n\<close> bytes of the first chunk, which is released when it is empty.
  \<open>None\<close>: giving it back to the cache aborts.
\<close>

definition accepted ::
  "proto_env \<Rightarrow> nat \<Rightarrow> memcached_protocol_client_st \<Rightarrow> memcached_protocol_client_st option" where
  "accepted E n c =
     (case client_output c of
        [] \<Rightarrow> Some c
      | chunk # rest \<Rightarrow>
          (let buf = drop (chunk_offset chunk) (chunk_data chunk);
               len = min n (length buf);
               c = c\<lparr>wire := wire c @ take len buf\<rparr>;
               chunk = chunk\<lparr>chunk_offset := chunk_offset chunk + len\<rparr>
           in if chunk_offset chunk = length (chunk_data chunk)
              then map_option (\<lambda>p. set_cache p (c\<lparr>client_output := rest\<rparr>))
                     (cache_free (env_realloc E) (chunk_block chunk) (buffer_cache (root c)))
              else Some (c\<lparr>client_output := chunk # rest\<rparr>)))"

lemma set_cache_simps [simp]:
  "client_output (set_cache p c) = client_output c" "sends (set_cache p c) = sends c"
  "wire (set_cache p c) = wire c" "buffer_cache (root (set_cache p c)) = p" "mute (set_cache p c) = mute c"
  by (simp_all add: set_cache_def)

lemma accepted_sends: "accepted E n c = Some c' \<Longrightarrow> sends c' = sends c"
  by (auto simp: accepted_def Let_def split: list.splits if_splits)

function drain_output ::
  "proto_env \<Rightarrow> memcached_protocol_client_st \<Rightarrow> (bool \<times> memcached_protocol_client_st) option" where
  "drain_output E c =
     (if client_output c = [] then Some (True, c)
      else case sends c of
             [] \<Rightarrow> Some (True, c)
           | Would_block # ss \<Rightarrow> Some (True, c\<lparr>sends := ss\<rparr>)
           | Interrupted # ss \<Rightarrow> drain_output E (c\<lparr>sends := ss\<rparr>)
           | Send_fails e # ss \<Rightarrow> Some (False, c\<lparr>client_error := e, sends := ss\<rparr>)
           | Accepts n # ss \<Rightarrow>
               (case accepted E n (c\<lparr>sends := ss\<rparr>) of None \<Rightarrow> None | Some c' \<Rightarrow> drain_output E c'))"
  by pat_completeness auto
termination
  by (relation "measure (\<lambda>(E, c). length (sends c))") (auto dest: accepted_sends)

declare drain_output.simps [simp del]

section \<open>Spooling\<close>

definition allocate_output_chunk ::
  "proto_env \<Rightarrow> memcached_protocol_client_st \<Rightarrow> bool \<times> memcached_protocol_client_st" where
  "allocate_output_chunk E c =
     (case cache_alloc (env_malloc E) (buffer_cache (root c)) of
        (None, p) \<Rightarrow> (False, set_cache p c)
      | (Some b, p) \<Rightarrow>
          (True, (set_cache p c)\<lparr>client_output := client_output c @ [\<lparr>chunk_block = b, chunk_data = [], chunk_offset = 0,
                                                      chunk_size = CHUNK_BUFFERSIZE\<rparr>]\<rparr>))"

definition chunk_room :: "chunk_st \<Rightarrow> nat" where
  "chunk_room ch = chunk_size ch - length (chunk_data ch)"

text \<open>
  The chunk to write to: the one at position \<open>i\<close> of the chain (\<open>NULL\<close> is the position behind the
  last), or a new one when it is full.
\<close>

definition writable_chunk ::
  "proto_env \<Rightarrow> memcached_protocol_client_st \<Rightarrow> nat \<Rightarrow> nat option \<times> memcached_protocol_client_st" where
  "writable_chunk E c i =
     (if i < length (client_output c) \<and> chunk_room (client_output c ! i) \<noteq> 0 then (Some i, c)
      else case allocate_output_chunk E c of
             (False, c) \<Rightarrow> (None, c)
           | (True, c) \<Rightarrow> (Some (length (client_output c) - 1), c))"

lemma writable_chunk_room:
  "writable_chunk E c i = (Some j, c') \<Longrightarrow> j < length (client_output c') \<and> 0 < chunk_room (client_output c' ! j)"
  by (auto simp: writable_chunk_def allocate_output_chunk_def chunk_room_def CHUNK_BUFFERSIZE_def
        split: if_splits option.splits prod.splits bool.splits)

text \<open>Every copy starts at the head of \<open>data\<close>.\<close>

function spool_loop ::
  "proto_env \<Rightarrow> byte list \<Rightarrow> nat \<Rightarrow> nat \<Rightarrow> memcached_protocol_client_st
   \<Rightarrow> protocol_binary_response_status \<times> memcached_protocol_client_st" where
  "spool_loop E data offset i c =
     (if offset < length data
      then case writable_chunk E c i of
             (None, c') \<Rightarrow> (PROTOCOL_BINARY_RESPONSE_ENOMEM, c')
           | (Some j, c') \<Rightarrow>
               (let chunk = client_output c' ! j;
                    bulk = min (length data - offset) (chunk_room chunk);
                    chunk = chunk\<lparr>chunk_data := chunk_data chunk @ take bulk data\<rparr>
                in spool_loop E data (offset + bulk) j (c'\<lparr>client_output := (client_output c')[j := chunk]\<rparr>))
      else (PROTOCOL_BINARY_RESPONSE_SUCCESS, c))"
  by pat_completeness auto
termination
  by (relation "measure (\<lambda>(E, data, offset, i, c). length data - offset)")
     (auto dest!: writable_chunk_room [OF sym])

declare spool_loop.simps [simp del]

definition spool_output ::
  "proto_env \<Rightarrow> memcached_protocol_client_st \<Rightarrow> byte list
   \<Rightarrow> protocol_binary_response_status \<times> memcached_protocol_client_st" where
  "spool_output E c data =
     (if mute c then (PROTOCOL_BINARY_RESPONSE_SUCCESS, c) else spool_loop E data 0 0 c)"

section \<open>The pending output\<close>

definition chunk_pending :: "chunk_st \<Rightarrow> byte list" where
  "chunk_pending ch = drop (chunk_offset ch) (chunk_data ch)"

definition pending :: "memcached_protocol_client_st \<Rightarrow> byte list" where
  "pending c = concat (map chunk_pending (client_output c))"

definition chunk_ok :: "chunk_st \<Rightarrow> bool" where
  "chunk_ok ch \<longleftrightarrow>
     chunk_offset ch \<le> length (chunk_data ch) \<and> length (chunk_data ch) \<le> chunk_size ch \<and>
     chunk_size ch = CHUNK_BUFFERSIZE"

text \<open>The chunks are well-formed and hold different objects of the cache; \<open>V\<close> are those of other clients.\<close>

definition client_ok :: "nat set \<Rightarrow> memcached_protocol_client_st \<Rightarrow> bool" where
  "client_ok V c \<longleftrightarrow>
     pool.chain (buffer_cache (root c)) V (map chunk_block (client_output c)) \<and>
     (\<forall>ch \<in> set (client_output c). chunk_ok ch)"

lemma pending_Cons:
  "client_output c = ch # rest \<Longrightarrow> pending c = chunk_pending ch @ concat (map chunk_pending rest)"
  by (simp add: pending_def)

lemma client_ok_fields [simp]:
  "client_ok V (c\<lparr>sends := ss\<rparr>) = client_ok V c" "pending (c\<lparr>sends := ss\<rparr>) = pending c"
  "client_ok V (c\<lparr>client_error := e\<rparr>) = client_ok V c" "pending (c\<lparr>client_error := e\<rparr>) = pending c"
  by (simp_all add: client_ok_def pending_def)

lemma accepted_conserves:
  assumes ok: "client_ok V c"
  shows "\<exists>c'. accepted E n c = Some c' \<and> client_ok V c' \<and> wire c' @ pending c' = wire c @ pending c"
proof (cases "client_output c")
  case Nil
  with ok show ?thesis by (simp add: accepted_def)
next
  case (Cons ch rest)
  define len where "len = min n (length (chunk_pending ch))"
  have ch: "chunk_ok ch" using ok Cons by (simp add: client_ok_def)
  have pend: "pending c = chunk_pending ch @ concat (map chunk_pending rest)"
    by (rule pending_Cons [OF Cons])
  have done_iff: "chunk_offset ch + len = length (chunk_data ch) \<longleftrightarrow> len = length (chunk_pending ch)"
    using ch by (auto simp: chunk_ok_def chunk_pending_def)
  have "pool.chain (buffer_cache (root c)) V (chunk_block ch # map chunk_block rest)"
    using ok Cons by (simp add: client_ok_def)
  from pool.chain_drop [OF this, of "env_realloc E"] obtain p where p:
    "cache_free (env_realloc E) (chunk_block ch) (buffer_cache (root c)) = Some p"
    "pool.chain p V (map chunk_block rest)"
    by blast
  have unfold: "accepted E n c =
      (let d = c\<lparr>wire := wire c @ take len (chunk_pending ch)\<rparr>
       in if len = length (chunk_pending ch) then Some (set_cache p (d\<lparr>client_output := rest\<rparr>))
          else Some (d\<lparr>client_output := ch\<lparr>chunk_offset := chunk_offset ch + len\<rparr> # rest\<rparr>))"
    using Cons p(1) done_iff by (simp add: accepted_def chunk_pending_def len_def Let_def)
  have le: "len \<le> length (chunk_pending ch)" by (simp add: len_def)
  show ?thesis
  proof (cases "len = length (chunk_pending ch)")
    case True
    with unfold p(2) ok Cons show ?thesis
      by (simp add: Let_def client_ok_def pending_def pend)
  next
    case False
    have "chunk_pending (ch\<lparr>chunk_offset := chunk_offset ch + len\<rparr>) = drop len (chunk_pending ch)"
      by (simp add: chunk_pending_def add.commute)
    moreover have "chunk_ok (ch\<lparr>chunk_offset := chunk_offset ch + len\<rparr>)"
      using le ch by (auto simp: chunk_ok_def chunk_pending_def)
    ultimately show ?thesis
      using False unfold ok Cons by (simp add: Let_def client_ok_def pending_def)
  qed
qed

text \<open>
  C16: draining moves bytes from the head of the pending output to the wire: none is lost, repeated or
  reordered, whatever the socket answers, and no chunk is released twice.
\<close>

lemma drain_conserves:
  assumes "client_ok V c"
  shows "\<exists>b c'. drain_output E c = Some (b, c') \<and> client_ok V c' \<and>
           wire c' @ pending c' = wire c @ pending c"
  using assms
proof (induction "sends c" arbitrary: c)
  case Nil
  then show ?case by (subst drain_output.simps) (simp add: ex_bool_eq flip: Nil(1))
next
  case (Cons s ss)
  have ok: "client_ok V (c\<lparr>sends := ss\<rparr>)" using Cons.prems by simp
  show ?case
  proof (cases "client_output c = []")
    case True
    with Cons.prems show ?thesis by (subst drain_output.simps) (simp add: ex_bool_eq)
  next
    case False
    then have step: "drain_output E c = (case s of
        Would_block \<Rightarrow> Some (True, c\<lparr>sends := ss\<rparr>)
      | Interrupted \<Rightarrow> drain_output E (c\<lparr>sends := ss\<rparr>)
      | Send_fails e \<Rightarrow> Some (False, c\<lparr>client_error := e, sends := ss\<rparr>)
      | Accepts n \<Rightarrow> (case accepted E n (c\<lparr>sends := ss\<rparr>) of None \<Rightarrow> None | Some c' \<Rightarrow> drain_output E c'))"
      by (subst drain_output.simps) (simp flip: Cons(2) split: send_outcome.split)
    show ?thesis
    proof (cases s)
      case (Accepts n)
      from accepted_conserves [OF ok, of E n] obtain d where d: "accepted E n (c\<lparr>sends := ss\<rparr>) = Some d"
        "client_ok V d" "wire d @ pending d = wire c @ pending c" by auto
      with Cons.hyps(1) [of d] accepted_sends [OF d(1)] Accepts step show ?thesis by auto
    next
      case Interrupted
      with Cons.hyps(1) [of "c\<lparr>sends := ss\<rparr>"] ok step show ?thesis by simp
    qed (use Cons.prems step in \<open>simp_all add: ex_bool_eq\<close>)
  qed
qed

section \<open>What spooling does to the pending output\<close>

definition write_chunk ::
  "nat \<Rightarrow> byte list \<Rightarrow> memcached_protocol_client_st \<Rightarrow> memcached_protocol_client_st" where
  "write_chunk j d c =
     c\<lparr>client_output := (client_output c)[j := (client_output c ! j)
        \<lparr>chunk_data := chunk_data (client_output c ! j) @ d\<rparr>]\<rparr>"

lemma spool_loop_step:
  "offset < length data \<Longrightarrow> writable_chunk E c i = (Some j, c') \<Longrightarrow>
   spool_loop E data offset i c =
     (let bulk = min (length data - offset) (chunk_room (client_output c' ! j))
      in spool_loop E data (offset + bulk) j (write_chunk j (take bulk data) c'))"
  by (subst spool_loop.simps) (simp add: Let_def write_chunk_def)

lemma spool_loop_fails:
  "offset < length data \<Longrightarrow> writable_chunk E c i = (None, c') \<Longrightarrow>
   spool_loop E data offset i c = (PROTOCOL_BINARY_RESPONSE_ENOMEM, c')"
  by (subst spool_loop.simps) simp

lemma spool_loop_end: "length data \<le> offset \<Longrightarrow> spool_loop E data offset i c = (PROTOCOL_BINARY_RESPONSE_SUCCESS, c)"
  by (subst spool_loop.simps) simp

text \<open>Writing to a chunk inserts the bytes behind what is pending in it.\<close>

lemma pending_write:
  assumes "client_output c = xs @ ch # ys" and "chunk_ok ch"
  shows "pending (write_chunk (length xs) d c) =
           concat (map chunk_pending xs) @ chunk_pending ch @ d @ concat (map chunk_pending ys)"
  using assms by (simp add: write_chunk_def pending_def chunk_pending_def chunk_ok_def)

lemma client_ok_write:
  assumes ok: "client_ok V c" and j: "j < length (client_output c)"
    and d: "length d \<le> chunk_room (client_output c ! j)"
  shows "client_ok V (write_chunk j d c)"
proof -
  obtain xs ch ys where out: "client_output c = xs @ ch # ys" "length xs = j" "client_output c ! j = ch"
    using id_take_nth_drop [OF j] j by (metis length_take min.absorb4 nth_append_length)
  then show ?thesis
    using ok d by (auto simp: client_ok_def write_chunk_def chunk_ok_def chunk_room_def)
qed

lemma writable_chunk_new:
  assumes "i < length (client_output c) \<longrightarrow> chunk_room (client_output c ! i) = 0"
  shows "writable_chunk E c i =
    (case cache_alloc (env_malloc E) (buffer_cache (root c)) of
       (None, p) \<Rightarrow> (None, set_cache p c)
     | (Some b, p) \<Rightarrow>
         (Some (length (client_output c)),
          (set_cache p c)\<lparr>client_output := client_output c @
             [\<lparr>chunk_block = b, chunk_data = [], chunk_offset = 0, chunk_size = CHUNK_BUFFERSIZE\<rparr>]\<rparr>))"
  using assms by (auto simp: writable_chunk_def allocate_output_chunk_def split: option.split prod.split)

lemma client_ok_writable:
  assumes ok: "client_ok V c" and w: "writable_chunk E c i = (r, c')"
  shows "client_ok V c'"
proof (cases "i < length (client_output c) \<and> chunk_room (client_output c ! i) \<noteq> 0")
  case True
  with w ok show ?thesis by (auto simp: writable_chunk_def)
next
  case False
  then have new: "i < length (client_output c) \<longrightarrow> chunk_room (client_output c ! i) = 0" by simp
  have chain: "pool.chain (buffer_cache (root c)) V (map chunk_block (client_output c))"
    using ok by (simp add: client_ok_def)
  obtain r' p where a: "cache_alloc (env_malloc E) (buffer_cache (root c)) = (r', p)"
    by (cases "cache_alloc (env_malloc E) (buffer_cache (root c))")
  show ?thesis
  proof (cases r')
    case None
    with w a new pool.chain_fail [OF chain, of "env_malloc E" p] ok show ?thesis
      by (auto simp: writable_chunk_new client_ok_def)
  next
    case (Some b)
    with w a new pool.chain_extend [OF chain, of "env_malloc E" b p] ok show ?thesis
      by (auto simp: writable_chunk_new client_ok_def chunk_ok_def)
  qed
qed

lemma spool_loop_ok:
  "client_ok V c \<Longrightarrow> client_ok V (snd (spool_loop E data offset i c))"
proof (induction "length data - offset" arbitrary: offset i c rule: less_induct)
  case less
  show ?case
  proof (cases "offset < length data")
    case True
    obtain r c' where w: "writable_chunk E c i = (r, c')" by (cases "writable_chunk E c i")
    have ok: "client_ok V c'" by (rule client_ok_writable [OF less.prems w])
    show ?thesis
    proof (cases r)
      case None
      with True w ok show ?thesis by (simp add: spool_loop_fails)
    next
      case (Some j)
      define bulk where "bulk = min (length data - offset) (chunk_room (client_output c' ! j))"
      have j: "j < length (client_output c')" "0 < chunk_room (client_output c' ! j)"
        using writable_chunk_room w Some by blast+
      then have "client_ok V (write_chunk j (take bulk data) c')"
        using ok by (intro client_ok_write) (simp_all add: bulk_def)
      with less.hyps [of "offset + bulk" "write_chunk j (take bulk data) c'" j] True j(2) w Some
      show ?thesis by (simp add: spool_loop_step bulk_def Let_def)
    qed
  qed (simp add: spool_loop_end less.prems)
qed

lemma spool_output_ok: "client_ok V c \<Longrightarrow> client_ok V (snd (spool_output E c data))"
  by (simp add: spool_output_def spool_loop_ok)

lemma pending_set_cache [simp]: "pending (set_cache p c) = pending c"
  by (simp add: pending_def)

text \<open>One chunk takes all of the data.\<close>

lemma spool_one_chunk:
  assumes out: "client_output c' = xs @ ch # ys" and w: "writable_chunk E c i = (Some (length xs), c')"
    and ok: "chunk_ok ch" and len: "data \<noteq> []" "length data \<le> chunk_room ch"
  shows "spool_loop E data 0 i c = (PROTOCOL_BINARY_RESPONSE_SUCCESS, write_chunk (length xs) data c')"
  using spool_loop_step [OF _ w, of 0 data] out len
  by (simp add: min_absorb1 spool_loop_end)

lemma spool_loop_nil [simp]: "spool_loop E [] 0 i c = (PROTOCOL_BINARY_RESPONSE_SUCCESS, c)"
  by (simp add: spool_loop_end)

text \<open>
  as long as a client has at most one chunk and the data fits into what is left of it (or into
  a new one when there is none), spooling appends the data to the pending output.
\<close>

lemma spool_fits:
  assumes ok: "client_ok V c" and mute: "\<not> mute c"
    and fits: "client_output c = [] \<and> length data \<le> CHUNK_BUFFERSIZE \<and>
                 fst (cache_alloc (env_malloc E) (buffer_cache (root c))) \<noteq> None
               \<or> (\<exists>ch. client_output c = [ch] \<and> length data \<le> chunk_room ch)"
  shows "fst (spool_output E c data) = PROTOCOL_BINARY_RESPONSE_SUCCESS \<and>
         pending (snd (spool_output E c data)) = pending c @ data"
proof (cases "data = []")
  case True
  with mute show ?thesis by (simp add: spool_output_def)
next
  case False
  from fits show ?thesis
  proof (elim disjE conjE exE)
    assume out: "client_output c = []" and len: "length data \<le> CHUNK_BUFFERSIZE"
      and "fst (cache_alloc (env_malloc E) (buffer_cache (root c))) \<noteq> None"
    then obtain b p where a: "cache_alloc (env_malloc E) (buffer_cache (root c)) = (Some b, p)"
      by (cases "cache_alloc (env_malloc E) (buffer_cache (root c))") auto
    let ?ch = "\<lparr>chunk_block = b, chunk_data = [], chunk_offset = 0, chunk_size = CHUNK_BUFFERSIZE\<rparr>"
    let ?c = "(set_cache p c)\<lparr>client_output := [?ch]\<rparr>"
    have w: "writable_chunk E c 0 = (Some 0, ?c)" by (simp add: writable_chunk_new out a)
    have chunk: "chunk_ok ?ch" by (simp add: chunk_ok_def)
    from spool_one_chunk [of ?c "[]" ?ch "[]" E c 0 data] w chunk False len
    have "spool_loop E data 0 0 c = (PROTOCOL_BINARY_RESPONSE_SUCCESS, write_chunk 0 data ?c)"
      by (simp add: chunk_room_def)
    then show ?thesis
      using pending_write [of ?c "[]" ?ch "[]" data] chunk mute out
      by (simp add: spool_output_def chunk_pending_def pending_def)
  next
    fix ch assume out: "client_output c = [ch]" and len: "length data \<le> chunk_room ch"
    have w: "writable_chunk E c 0 = (Some 0, c)"
      using False len out by (auto simp: writable_chunk_def)
    have chunk: "chunk_ok ch" using ok out by (simp add: client_ok_def)
    from spool_one_chunk [of c "[]" ch "[]" E c 0 data] w chunk False len out
    have "spool_loop E data 0 0 c = (PROTOCOL_BINARY_RESPONSE_SUCCESS, write_chunk 0 data c)" by simp
    then show ?thesis
      using pending_write [of c "[]" ch "[]" data] chunk mute out
      by (simp add: spool_output_def pending_def)
  qed
qed

definition new_client :: memcached_protocol_client_st where
  "new_client =
     \<lparr>root = \<lparr>input_buffer = replicate 1048576 0, pedantic = False,
              buffer_cache = the (cache_create True (bytes ''protocol_handler'') 2088 None False)\<rparr>,
      client_error = 0, client_output = [], client_input = [], work = Determine_protocol, mute = False,
      current_command = [], ascii_command = GET_CMD, recvs = [], sends = [], wire = []\<rparr>"

definition all_memory :: proto_env where
  "all_memory = \<lparr>env_malloc = (\<lambda>n. True), env_realloc = (\<lambda>n. True), env_input = (\<lambda>n. True)\<rparr>"

lemma new_client_ok: "client_ok {} new_client"
  by (simp add: client_ok_def new_client_def pool.chain_def cache_create_def cache_inv_def initial_pool_size_def)

lemma spool_fits_witness:
  "pending (snd (spool_output all_memory new_client (bytes ''VERSION''))) = bytes ''VERSION''"
proof -
  have "fst (cache_alloc (env_malloc all_memory) (buffer_cache (root new_client))) \<noteq> None"
    by (simp add: all_memory_def new_client_def cache_create_def cache_alloc_def Let_def)
  with spool_fits [OF new_client_ok, of "bytes ''VERSION''" all_memory] show ?thesis
    by (simp add: new_client_def bytes_def CHUNK_BUFFERSIZE_def pending_def)
qed

section \<open>What spooling gets wrong\<close>

lemma pending_new_chunk:
  assumes "client_output c' = client_output c @ [ch]" and "chunk_data ch = []" and "chunk_offset ch = 0"
  shows "pending (write_chunk (length (client_output c)) d c') = pending c @ d"
  using assms by (simp add: write_chunk_def pending_def chunk_pending_def)

lemma spool_loop_new_chunk:
  assumes offset: "offset < length data" and new: "i < length (client_output c) \<longrightarrow> chunk_room (client_output c ! i) = 0"
    and succ: "fst (spool_loop E data offset i c) = PROTOCOL_BINARY_RESPONSE_SUCCESS"
  obtains j d where "spool_loop E data offset i c =
      spool_loop E data (offset + min (length data - offset) CHUNK_BUFFERSIZE) j d"
    "j < length (client_output d)"
    "chunk_room (client_output d ! j) = CHUNK_BUFFERSIZE - min (length data - offset) CHUNK_BUFFERSIZE"
    "pending d = pending c @ take (min (length data - offset) CHUNK_BUFFERSIZE) data"
proof -
  let ?n = "length (client_output c)"
  let ?bulk = "min (length data - offset) CHUNK_BUFFERSIZE"
  obtain r p where a: "cache_alloc (env_malloc E) (buffer_cache (root c)) = (r, p)"
    by (cases "cache_alloc (env_malloc E) (buffer_cache (root c))")
  show ?thesis
  proof (cases r)
    case None
    with writable_chunk_new [OF new, of E] a have "writable_chunk E c i = (None, set_cache p c)" by simp
    with spool_loop_fails offset succ show ?thesis by fastforce
  next
    case (Some b)
    define ch where "ch = \<lparr>chunk_block = b, chunk_data = [], chunk_offset = 0, chunk_size = CHUNK_BUFFERSIZE\<rparr>"
    define c' where "c' = (set_cache p c)\<lparr>client_output := client_output c @ [ch]\<rparr>"
    have w: "writable_chunk E c i = (Some ?n, c')"
      using writable_chunk_new [OF new, of E] a Some by (simp add: c'_def ch_def)
    have out: "client_output c' = client_output c @ [ch]" by (simp add: c'_def)
    have "spool_loop E data offset i c = spool_loop E data (offset + ?bulk) ?n (write_chunk ?n (take ?bulk data) c')"
      using spool_loop_step [OF offset w] by (simp add: out ch_def chunk_room_def Let_def)
    moreover have "?n < length (client_output (write_chunk ?n (take ?bulk data) c'))"
      by (simp add: write_chunk_def out)
    moreover have "chunk_room (client_output (write_chunk ?n (take ?bulk data) c') ! ?n) = CHUNK_BUFFERSIZE - ?bulk"
      by (simp add: write_chunk_def out chunk_room_def ch_def)
    moreover have "pending (write_chunk ?n (take ?bulk data) c') = pending c @ take ?bulk data"
      by (rule pending_new_chunk [OF out]) (simp_all add: ch_def)
    ultimately show ?thesis by (rule that)
  qed
qed

lemma take_blocks:
  assumes "m dvd offset" and "n \<le> m" and "n \<le> length data - offset"
  shows "map (\<lambda>k. data ! (k mod m)) [offset ..< offset + n] = take n data"
proof (rule nth_equalityI)
  fix k assume "k < length (map (\<lambda>k. data ! (k mod m)) [offset ..< offset + n])"
  then have k: "k < n" by simp
  then have "(offset + k) mod m = k" using assms by (auto elim!: dvdE)
  with k show "map (\<lambda>k. data ! (k mod m)) [offset ..< offset + n] ! k = take n data ! k" by simp
qed (use assms in simp)

lemma spool_loop_blocks:
  assumes "i < length (client_output c) \<longrightarrow> chunk_room (client_output c ! i) = 0"
    and "CHUNK_BUFFERSIZE dvd offset" and "offset \<le> length data"
    and "pending c = map (\<lambda>k. data ! (k mod CHUNK_BUFFERSIZE)) [0 ..< offset]"
    and "fst (spool_loop E data offset i c) = PROTOCOL_BINARY_RESPONSE_SUCCESS"
  shows "pending (snd (spool_loop E data offset i c)) = map (\<lambda>k. data ! (k mod CHUNK_BUFFERSIZE)) [0 ..< length data]"
  using assms
proof (induction "length data - offset" arbitrary: offset i c rule: less_induct)
  case less
  show ?case
  proof (cases "offset < length data")
    case True
    let ?bulk = "min (length data - offset) CHUNK_BUFFERSIZE"
    have pos: "0 < ?bulk" using True by (simp add: CHUNK_BUFFERSIZE_def)
    from spool_loop_new_chunk [OF True less.prems(1,5)] obtain j d where d:
      "spool_loop E data offset i c = spool_loop E data (offset + ?bulk) j d"
      "j < length (client_output d)" "chunk_room (client_output d ! j) = CHUNK_BUFFERSIZE - ?bulk"
      "pending d = pending c @ take ?bulk data" by blast
    have pend: "pending d = map (\<lambda>k. data ! (k mod CHUNK_BUFFERSIZE)) [0 ..< offset + ?bulk]"
      by (simp only: d(4) less.prems(4) take_blocks [OF less.prems(2) min.cobounded2 min.cobounded1, symmetric]
            upt_add_eq_append [OF le0] map_append)
    show ?thesis
    proof (cases "length data - offset \<le> CHUNK_BUFFERSIZE")
      case True
      then have "offset + ?bulk = length data" using less.prems(3) by simp
      then show ?thesis by (simp only: d(1) pend spool_loop_end order_refl snd_conv)
    next
      case False
      then have bulk: "?bulk = CHUNK_BUFFERSIZE" by simp
      have "pending (snd (spool_loop E data (offset + ?bulk) j d)) =
          map (\<lambda>k. data ! (k mod CHUNK_BUFFERSIZE)) [0 ..< length data]"
      proof (rule less.hyps)
        show "length data - (offset + ?bulk) < length data - offset" using True pos by linarith
        show "j < length (client_output d) \<longrightarrow> chunk_room (client_output d ! j) = 0" using d(3) bulk by simp
        show "CHUNK_BUFFERSIZE dvd offset + ?bulk" using less.prems(2) by (simp only: bulk dvd_add_triv_right_iff)
        show "offset + ?bulk \<le> length data" using less.prems(3) by linarith
        show "fst (spool_loop E data (offset + ?bulk) j d) = PROTOCOL_BINARY_RESPONSE_SUCCESS"
          using less.prems(5) by (simp only: d(1))
      qed (rule pend)
      then show ?thesis by (simp only: d(1))
    qed
  next
    case False
    with less.prems show ?thesis by (simp add: spool_loop_end)
  qed
qed

text \<open>
  C35: a message spooled successfully to a client without pending output keeps its length, but every
  block of 2048 bytes after the first repeats the head of the message.
\<close>

lemma spool_repeats:
  assumes "\<not> mute c" and "client_output c = []"
    and "fst (spool_output E c data) = PROTOCOL_BINARY_RESPONSE_SUCCESS"
  shows "pending (snd (spool_output E c data)) = map (\<lambda>k. data ! (k mod CHUNK_BUFFERSIZE)) [0 ..< length data]"
  using spool_loop_blocks [of 0 c 0 data E] assms by (simp add: spool_output_def pending_def)

text \<open>When memory does not run out, spooling succeeds.\<close>

lemma cache_alloc_constructor: "constructor (snd (cache_alloc malloc p)) = constructor p"
  by (simp add: cache_alloc_def Let_def set_redzones_def free_block_def split: option.split)

lemma cache_alloc_succeeds:
  "(\<And>n. malloc n) \<Longrightarrow> constructor p = None \<Longrightarrow> \<exists>b q. cache_alloc malloc p = (Some b, q) \<and> constructor q = None"
  by (simp add: cache_alloc_def Let_def set_redzones_def)

lemma writable_chunk_succeeds:
  assumes "\<And>n. env_malloc E n" and "constructor (buffer_cache (root c)) = None"
  shows "\<exists>j c'. writable_chunk E c i = (Some j, c') \<and> constructor (buffer_cache (root c')) = None"
  using cache_alloc_succeeds [of "env_malloc E", OF assms] assms(2)
  by (auto simp: writable_chunk_def allocate_output_chunk_def)

lemma spool_loop_succeeds:
  assumes "\<And>n. env_malloc E n" and "constructor (buffer_cache (root c)) = None"
  shows "fst (spool_loop E data offset i c) = PROTOCOL_BINARY_RESPONSE_SUCCESS"
  using assms(2)
proof (induction "length data - offset" arbitrary: offset i c rule: less_induct)
  case less
  show ?case
  proof (cases "offset < length data")
    case True
    from writable_chunk_succeeds [OF assms(1) less.prems] obtain j c' where
      w: "writable_chunk E c i = (Some j, c')" "constructor (buffer_cache (root c')) = None" by blast
    define bulk where "bulk = min (length data - offset) (chunk_room (client_output c' ! j))"
    have "0 < bulk" using writable_chunk_room [OF w(1)] True by (simp add: bulk_def)
    with True less.hyps [of "offset + bulk" "write_chunk j (take bulk data) c'" j] w show ?thesis
      by (simp add: spool_loop_step bulk_def write_chunk_def Let_def)
  qed (simp add: spool_loop_end)
qed

lemma new_client_simps [simp]:
  "client_output new_client = []" "mute new_client = False" "pending new_client = []"
  "constructor (buffer_cache (root new_client)) = None" "wire new_client = []" "sends new_client = []"
  by (simp_all add: new_client_def pending_def cache_create_def)

lemma spool_repeats_witness:
  "last (pending (snd (spool_output all_memory new_client (1 # replicate 2047 0 @ [2])))) = 1"
proof -
  have "fst (spool_output all_memory new_client (1 # replicate 2047 0 @ [2])) = PROTOCOL_BINARY_RESPONSE_SUCCESS"
    unfolding spool_output_def by (simp add: spool_loop_succeeds all_memory_def)
  from spool_repeats [OF _ _ this] show ?thesis by (simp add: CHUNK_BUFFERSIZE_def last_map)
qed

text \<open>
  when the first chunk of a client has room, what is spooled is sent before everything that
  waits in the chunks behind it.
\<close>

lemma spool_overtakes:
  assumes "\<not> mute c" and out: "client_output c = ch # rest" and "chunk_ok ch" and len: "length data \<le> chunk_room ch"
  shows "pending (snd (spool_output E c data)) =
           chunk_pending ch @ data @ concat (map chunk_pending rest)"
proof (cases "data = []")
  case True
  with assms show ?thesis by (simp add: spool_output_def pending_Cons)
next
  case False
  then have "writable_chunk E c 0 = (Some 0, c)" using len out by (auto simp: writable_chunk_def)
  with spool_one_chunk [of c "[]" ch rest E c 0 data] False assms
  have "spool_loop E data 0 0 c = (PROTOCOL_BINARY_RESPONSE_SUCCESS, write_chunk 0 data c)" by simp
  with assms pending_write [of c "[]" ch rest data] show ?thesis by (simp add: spool_output_def)
qed

text \<open>
  A client gets there: a message of 2052 bytes and one of two bytes are spooled, and the socket accepts
  the first chunk. The next message is sent before the message of two bytes.
\<close>

definition overtaking_client :: memcached_protocol_client_st where
  "overtaking_client =
     snd (the (drain_output all_memory
       ((snd (spool_output all_memory (snd (spool_output all_memory new_client (replicate 2052 0))) [1, 2]))
        \<lparr>sends := [Accepts 2048]\<rparr>)))"

lemma spool_loop_go:
  "offset < length data \<Longrightarrow> spool_loop E data offset i c =
     (case writable_chunk E c i of
        (None, c') \<Rightarrow> (PROTOCOL_BINARY_RESPONSE_ENOMEM, c')
      | (Some j, c') \<Rightarrow>
          (let bulk = min (length data - offset) (chunk_room (client_output c' ! j))
           in spool_loop E data (offset + bulk) j (write_chunk j (take bulk data) c')))"
  by (subst spool_loop.simps) (simp add: Let_def write_chunk_def split: option.split prod.split)

lemmas spooling = spool_loop_go spool_loop_end writable_chunk_def allocate_output_chunk_def chunk_room_def
  cache_alloc_def set_redzones_def write_chunk_def CHUNK_BUFFERSIZE_def all_memory_def set_cache_def

lemma overtaking_client_output:
  "\<not> mute overtaking_client \<and> client_output overtaking_client =
     [\<lparr>chunk_block = 1, chunk_data = replicate 4 0, chunk_offset = 0, chunk_size = CHUNK_BUFFERSIZE\<rparr>,
      \<lparr>chunk_block = 2, chunk_data = [1, 2], chunk_offset = 0, chunk_size = CHUNK_BUFFERSIZE\<rparr>]"
  by (simp add: overtaking_client_def spool_output_def spooling new_client_def cache_create_def Let_def
        drain_output.simps accepted_def cache_free_def initial_pool_size_def)

lemma spool_overtakes_witness:
  "pending (snd (spool_output all_memory overtaking_client [3])) = [0, 0, 0, 0] @ [3] @ [1, 2]"
  using spool_overtakes [of overtaking_client _ _ "[3]" all_memory,
      OF overtaking_client_output [THEN conjunct1] overtaking_client_output [THEN conjunct2]]
  by (simp add: chunk_ok_def chunk_room_def chunk_pending_def CHUNK_BUFFERSIZE_def numeral_eq_Suc)

lemma drain_conserves_witness:
  "\<exists>b c'. drain_output all_memory new_client = Some (b, c') \<and> wire c' @ pending c' = []"
  using drain_conserves [OF new_client_ok, of all_memory] by auto

section \<open>Draining makes progress\<close>

definition is_accept :: "send_outcome \<Rightarrow> bool" where
  "is_accept s = (case s of Accepts n \<Rightarrow> 0 < n | _ \<Rightarrow> False)"

definition backlog :: "memcached_protocol_client_st \<Rightarrow> nat" where
  "backlog c = length (pending c) + length (client_output c)"

lemma accepted_progress:
  assumes "accepted E n c = Some c'" and "0 < n" and "client_output c \<noteq> []" and "client_ok V c"
  shows "backlog c' < backlog c"
  using assms
  by (cases "client_output c")
     (auto simp: accepted_def backlog_def pending_def chunk_pending_def client_ok_def chunk_ok_def Let_def min_def split: if_splits)

text \<open>
  C17: a socket that accepts something at each attempt, up to interrupted calls, gets all of the
  pending output after at most one attempt for each byte and chunk, and every chunk is released.
\<close>

lemma drain_completes:
  assumes "client_ok V c" and "\<forall>s \<in> set (sends c). is_accept s \<or> s = Interrupted"
    and "backlog c \<le> length (filter is_accept (sends c))"
  shows "\<exists>c'. drain_output E c = Some (True, c') \<and> client_output c' = [] \<and> wire c' = wire c @ pending c"
  using assms
proof (induction "sends c" arbitrary: c)
  case Nil
  then show ?case by (subst drain_output.simps) (simp add: backlog_def pending_def flip: Nil(1))
next
  case (Cons s ss)
  show ?case
  proof (cases "client_output c = []")
    case True
    then show ?thesis by (subst drain_output.simps) (simp add: pending_def)
  next
    case False
    let ?c = "c\<lparr>sends := ss\<rparr>"
    have ok: "client_ok V ?c" and same: "backlog ?c = backlog c" using Cons.prems(1) by (simp_all add: backlog_def)
    have s: "is_accept s \<or> s = Interrupted" and ss: "\<forall>s \<in> set ss. is_accept s \<or> s = Interrupted"
      using Cons.prems(2) by (simp_all flip: Cons(2))
    show ?thesis
    proof (cases s)
      case (Accepts n)
      have n: "0 < n" using s Accepts by (simp add: is_accept_def)
      from accepted_conserves [OF ok, of E n] obtain d where d: "accepted E n ?c = Some d"
        "client_ok V d" "wire d @ pending d = wire c @ pending c" by auto
      have "sends d = ss" using accepted_sends [OF d(1)] by simp
      moreover have "backlog d < backlog c" using accepted_progress [OF d(1) n _ ok] False same by simp
      moreover have "drain_output E c = drain_output E d"
        using False Accepts d(1) by (subst drain_output.simps) (simp flip: Cons(2))
      moreover have "length (filter is_accept (sends c)) = Suc (length (filter is_accept ss))"
        using Accepts n by (simp add: is_accept_def flip: Cons(2))
      ultimately show ?thesis using Cons.hyps(1) [of d] d ss Cons.prems(3) by auto
    next
      case Interrupted
      then have "drain_output E c = drain_output E ?c"
        using False by (subst drain_output.simps) (simp flip: Cons(2))
      moreover have "filter is_accept (sends c) = filter is_accept ss"
        using Interrupted by (simp add: is_accept_def flip: Cons(2))
      ultimately show ?thesis using Cons.hyps(1) [of ?c] ok ss same Cons.prems(3) by auto
    qed (use s in \<open>simp_all add: is_accept_def\<close>)
  qed
qed

lemma drain_completes_witness:
  "\<exists>c'. drain_output all_memory
      ((snd (spool_output all_memory new_client [7]))\<lparr>sends := [Interrupted, Accepts 5, Accepts 1]\<rparr>) = Some (True, c') \<and>
    client_output c' = [] \<and> wire c' = [7]"
proof -
  let ?c = "snd (spool_output all_memory new_client [7])"
  have out: "client_output ?c = [\<lparr>chunk_block = 0, chunk_data = [7], chunk_offset = 0, chunk_size = CHUNK_BUFFERSIZE\<rparr>]"
    "wire ?c = []"
    by (simp_all add: spool_output_def spooling new_client_def cache_create_def Let_def)
  have "client_ok {} (?c\<lparr>sends := [Interrupted, Accepts 5, Accepts 1]\<rparr>)"
    using spool_output_ok [OF new_client_ok, of all_memory "[7]"] by simp
  from drain_completes [OF this, of all_memory] out show ?thesis
    by (simp add: is_accept_def backlog_def pending_def chunk_pending_def)
qed

end
