(* ===== verification/Pedantic.thy ===== *)
theory Pedantic
  imports Protocol_Binary
begin

text \<open>
  \<open>protocol/pedantic.c\<close>: the checks of request and response headers against the specification of the
  binary protocol. A failed \<open>ensure\<close> returns false.
\<close>

definition pedantic_check_request :: "protocol_binary_request_header \<Rightarrow> bool" where
  "pedantic_check_request h \<longleftrightarrow>
     req_magic h = PROTOCOL_BINARY_REQ \<and>
     req_datatype h = PROTOCOL_BINARY_RAW_BYTES \<and>
     byte_of 0 (req_reserved h) = 0 \<and> byte_of 1 (req_reserved h) = 0 \<and>
     (let opcode = req_opcode h;
          keylen = ucast (ntohs (req_keylen h)) :: u32;
          extlen = ucast (req_extlen h) :: u32;
          bodylen = ntohl (req_bodylen h)
      in keylen + extlen \<le> bodylen \<and>
         (if opcode \<in> {PROTOCOL_BINARY_CMD_GET, PROTOCOL_BINARY_CMD_GETK,
                        PROTOCOL_BINARY_CMD_GETKQ, PROTOCOL_BINARY_CMD_GETQ}
          then extlen = 0 \<and> 0 < keylen \<and> keylen = bodylen \<and> req_cas h = 0
          else if opcode \<in> {PROTOCOL_BINARY_CMD_ADD, PROTOCOL_BINARY_CMD_ADDQ}
          then req_cas h = 0 \<and> 0 < keylen \<and> extlen = 8
          else if opcode \<in> {PROTOCOL_BINARY_CMD_SET, PROTOCOL_BINARY_CMD_SETQ,
                             PROTOCOL_BINARY_CMD_REPLACE, PROTOCOL_BINARY_CMD_REPLACEQ}
          then 0 < keylen \<and> extlen = 8
          else if opcode \<in> {PROTOCOL_BINARY_CMD_DELETE, PROTOCOL_BINARY_CMD_DELETEQ}
          then extlen = 0 \<and> 0 < keylen \<and> keylen = bodylen
          else if opcode \<in> {PROTOCOL_BINARY_CMD_INCREMENT, PROTOCOL_BINARY_CMD_INCREMENTQ,
                             PROTOCOL_BINARY_CMD_DECREMENT, PROTOCOL_BINARY_CMD_DECREMENTQ}
          then extlen = 20 \<and> 0 < keylen \<and> keylen + extlen = bodylen
          else if opcode \<in> {PROTOCOL_BINARY_CMD_QUIT, PROTOCOL_BINARY_CMD_QUITQ,
                             PROTOCOL_BINARY_CMD_NOOP, PROTOCOL_BINARY_CMD_VERSION}
          then extlen = 0 \<and> keylen = 0 \<and> bodylen = 0
          else if opcode \<in> {PROTOCOL_BINARY_CMD_FLUSH, PROTOCOL_BINARY_CMD_FLUSHQ}
          then (extlen = 0 \<or> extlen = 4) \<and> keylen = 0 \<and> bodylen = extlen
          else if opcode = PROTOCOL_BINARY_CMD_STAT
          then extlen = 0 \<and> keylen = bodylen
          else if opcode \<in> {PROTOCOL_BINARY_CMD_APPEND, PROTOCOL_BINARY_CMD_APPENDQ,
                             PROTOCOL_BINARY_CMD_PREPEND, PROTOCOL_BINARY_CMD_PREPENDQ}
          then extlen = 0 \<and> 0 < keylen
          else True))"

text \<open>
  The fields of the response are compared as they are stored, except for the status and, for the
  counters, the length of the body.
\<close>

definition pedantic_check_response ::
  "protocol_binary_request_header \<Rightarrow> protocol_binary_response_header \<Rightarrow> bool" where
  "pedantic_check_response request r \<longleftrightarrow>
     res_magic r = PROTOCOL_BINARY_RES \<and>
     res_datatype r = PROTOCOL_BINARY_RAW_BYTES \<and>
     res_opaque r = req_opaque request \<and>
     (let status = ntohs (res_status r); opcode = res_opcode r
      in if status = PROTOCOL_BINARY_RESPONSE_SUCCESS
         then
           opcode \<notin> {PROTOCOL_BINARY_CMD_ADDQ, PROTOCOL_BINARY_CMD_APPENDQ, PROTOCOL_BINARY_CMD_DECREMENTQ,
                      PROTOCOL_BINARY_CMD_DELETEQ, PROTOCOL_BINARY_CMD_FLUSHQ, PROTOCOL_BINARY_CMD_INCREMENTQ,
                      PROTOCOL_BINARY_CMD_PREPENDQ, PROTOCOL_BINARY_CMD_QUITQ, PROTOCOL_BINARY_CMD_REPLACEQ,
                      PROTOCOL_BINARY_CMD_SETQ} \<and>
           (if opcode \<in> {PROTOCOL_BINARY_CMD_ADD, PROTOCOL_BINARY_CMD_REPLACE, PROTOCOL_BINARY_CMD_SET,
                          PROTOCOL_BINARY_CMD_APPEND, PROTOCOL_BINARY_CMD_PREPEND}
            then res_keylen r = 0 \<and> res_extlen r = 0 \<and> res_bodylen r = 0 \<and> res_cas r \<noteq> 0
            else if opcode \<in> {PROTOCOL_BINARY_CMD_FLUSH, PROTOCOL_BINARY_CMD_NOOP,
                               PROTOCOL_BINARY_CMD_QUIT, PROTOCOL_BINARY_CMD_DELETE}
            then res_keylen r = 0 \<and> res_extlen r = 0 \<and> res_bodylen r = 0 \<and> res_cas r = 0
            else if opcode \<in> {PROTOCOL_BINARY_CMD_DECREMENT, PROTOCOL_BINARY_CMD_INCREMENT}
            then res_keylen r = 0 \<and> res_extlen r = 0 \<and> ntohl (res_bodylen r) = 8 \<and> res_cas r \<noteq> 0
            else if opcode = PROTOCOL_BINARY_CMD_STAT
            then res_extlen r = 0 \<and> res_cas r = 0
            else if opcode = PROTOCOL_BINARY_CMD_VERSION
            then res_keylen r = 0 \<and> res_extlen r = 0 \<and> res_bodylen r \<noteq> 0 \<and> res_cas r = 0
            else if opcode \<in> {PROTOCOL_BINARY_CMD_GET, PROTOCOL_BINARY_CMD_GETQ}
            then res_keylen r = 0 \<and> res_extlen r = 4 \<and> res_cas r \<noteq> 0
            else if opcode \<in> {PROTOCOL_BINARY_CMD_GETK, PROTOCOL_BINARY_CMD_GETKQ}
            then res_keylen r \<noteq> 0 \<and> res_extlen r = 4 \<and> res_cas r \<noteq> 0
            else True)
         else
           res_cas r = 0 \<and> res_extlen r = 0 \<and>
           (opcode \<noteq> PROTOCOL_BINARY_CMD_GETK \<longrightarrow> res_keylen r = 0))"

section \<open>What the request check guarantees\<close>

text \<open>
  The length of the data of a request, as the command handlers compute it in 32 bits: the body
  without the extras the handler expects and the key.
\<close>

definition data_length :: "protocol_binary_request_header \<Rightarrow> u32 \<Rightarrow> u32" where
  "data_length h extras = ntohl (req_bodylen h) - ucast (ntohs (req_keylen h)) - extras"

definition expected_extras :: "byte \<Rightarrow> u32" where
  "expected_extras opcode =
     (if opcode \<in> {PROTOCOL_BINARY_CMD_ADD, PROTOCOL_BINARY_CMD_ADDQ, PROTOCOL_BINARY_CMD_SET,
                    PROTOCOL_BINARY_CMD_SETQ, PROTOCOL_BINARY_CMD_REPLACE, PROTOCOL_BINARY_CMD_REPLACEQ}
      then 8
      else if opcode \<in> {PROTOCOL_BINARY_CMD_INCREMENT, PROTOCOL_BINARY_CMD_INCREMENTQ,
                         PROTOCOL_BINARY_CMD_DECREMENT, PROTOCOL_BINARY_CMD_DECREMENTQ}
      then 20
      else 0)"

lemma fits_32:
  fixes k e b :: u32
  assumes "unat k < 2 ^ 16" "unat e < 2 ^ 8" "k + e \<le> b"
  shows "unat b = unat e + unat k + unat (b - k - e)"
proof -
  have "unat (k + e) = unat k + unat e"
    using assms by (intro unat_plus_simple [THEN iffD1]) (simp add: no_olen_add_nat)
  moreover have "b - k - e = b - (k + e)" by simp
  moreover have "unat (b - (k + e)) = unat b - unat (k + e)" by (rule unat_sub) (rule assms(3))
  ultimately have "unat (b - k - e) = unat b - (unat k + unat e)" by (simp only:)
  moreover have "unat k + unat e \<le> unat b"
    using assms(3) \<open>unat (k + e) = unat k + unat e\<close> by (simp only: word_le_nat_alt)
  ultimately show ?thesis by linarith
qed

lemma opcode_cases:
  assumes "(op :: byte) \<le> 0x1a"
  shows "op \<in> set (map of_nat [0..<27])"
proof -
  have "unat op \<le> 26" using assms by (simp add: word_le_nat_alt)
  then have "unat op \<in> set [0..<27]" by simp
  then have "of_nat (unat op) \<in> set (map (of_nat :: nat \<Rightarrow> byte) [0..<27])" by (simp only: set_map) (rule imageI)
  then show ?thesis by simp
qed

text \<open>Every command but the flushes has its extras fixed by the check.\<close>

lemma pedantic_extras:
  assumes check: "pedantic_check_request h" and op: "req_opcode h \<le> PROTOCOL_BINARY_CMD_PREPENDQ"
    and nf: "req_opcode h \<notin> {PROTOCOL_BINARY_CMD_FLUSH, PROTOCOL_BINARY_CMD_FLUSHQ}"
  shows "expected_extras (req_opcode h) = ucast (req_extlen h)"
proof -
  have "req_opcode h \<in> set [0,1,2,3,4,5,6,7,8,9,10,11,12,13,14,15,16,17,18,19,20,21,22,23,24,25,26]"
    using opcode_cases [OF op] by (simp add: upt_rec)
  then have "req_opcode h = 0 \<or> req_opcode h \<in> set [1,2,3,4,5,6,7] \<or> req_opcode h \<in> set [8,9,10,11,12,13,14,15,16]
      \<or> req_opcode h \<in> set [17,18,19,20,21,22,23,24,25,26]" by simp
  then show ?thesis
    unfolding list.set insert_iff empty_iff
    by (elim disjE) (use check nf in \<open>simp_all add: pedantic_check_request_def expected_extras_def Let_def\<close>)
qed

text \<open>
  C33: in a request that passes the check, the extras a handler expects, the key and the data are
  consecutive parts of the body that fill it exactly, so that nothing wraps around in the length
  of the data; and the reserved field is zero.
\<close>

lemma pedantic_request_fits:
  assumes "pedantic_check_request h"
    and "req_opcode h \<le> PROTOCOL_BINARY_CMD_PREPENDQ"
    and "req_opcode h \<notin> {PROTOCOL_BINARY_CMD_FLUSH, PROTOCOL_BINARY_CMD_FLUSHQ}"
  shows "unat (ntohl (req_bodylen h)) =
           unat (expected_extras (req_opcode h)) + unat (ntohs (req_keylen h))
           + unat (data_length h (expected_extras (req_opcode h)))
         \<and> req_reserved h = 0"
proof -
  have e: "expected_extras (req_opcode h) = ucast (req_extlen h)" by (rule pedantic_extras [OF assms])
  have le: "ucast (ntohs (req_keylen h)) + expected_extras (req_opcode h) \<le> ntohl (req_bodylen h)"
    and r: "byte_of 0 (req_reserved h) = 0" "byte_of 1 (req_reserved h) = 0"
    using assms(1) by (simp_all add: pedantic_check_request_def Let_def e)
  have k: "unat (ucast (ntohs (req_keylen h)) :: u32) = unat (ntohs (req_keylen h))"
    using unsigned_less [of "ntohs (req_keylen h)", where 'a = nat]
    by (simp add: unsigned_ucast_eq take_bit_nat_eq_self)
  have "unat (expected_extras (req_opcode h)) < 2 ^ 8" by (simp add: expected_extras_def)
  moreover have "unat (ucast (ntohs (req_keylen h)) :: u32) < 2 ^ 16"
    unfolding k using unsigned_less [of "ntohs (req_keylen h)", where 'a = nat] by simp
  ultimately show ?thesis
    using fits_32 [OF _ _ le] le16_bytes [of "req_reserved h"] by (simp add: data_length_def r r(2) [unfolded One_nat_def] k le16_def)
qed

lemma pedantic_request_fits_witness:
  "unat (ntohl (htonl 11)) = 8 + 1 + unat (data_length
      \<lparr>req_magic = 0x80, req_opcode = 0x01, req_keylen = htons 1, req_extlen = 8, req_datatype = 0,
       req_reserved = 0, req_bodylen = htonl 11, req_opaque = 7, req_cas = 0\<rparr> 8)"
  using pedantic_request_fits [of "\<lparr>req_magic = 0x80, req_opcode = 0x01, req_keylen = htons 1,
      req_extlen = 8, req_datatype = 0, req_reserved = 0, req_bodylen = htonl 11, req_opaque = 7, req_cas = 0\<rparr>"]
  by (simp add: pedantic_check_request_def expected_extras_def byte_of_def)

end
