(* ===== verification/Binary_Handler.thy ===== *)
theory Binary_Handler
  imports Protocol_Handler Pedantic "HOL-Library.Monad_Syntax"
begin

text \<open>
  The binary side of the protocol server, \<open>protocol/binary_handler.c\<close>. The callbacks of the
  application work on a state of type \<open>'a\<close> and on the client, their \<open>cookie\<close>. A pointer into the
  input buffer is the memory from there on, and a packet that is passed by its header is the memory
  from the header on, which does not change while it is processed. \<open>None\<close> is undefined behaviour (a
  read behind the memory that is there) or \<open>abort\<close>.
\<close>

type_synonym 'a conn = "'a \<times> memcached_protocol_client_st"
type_synonym ('a, 'r) act = "'a conn \<Rightarrow> ('r \<times> 'a conn) option"
type_synonym status = protocol_binary_response_status

type_synonym raw_response = "byte list \<Rightarrow> byte list \<Rightarrow> memcached_protocol_client_st
  \<Rightarrow> (status \<times> memcached_protocol_client_st) option"
type_synonym get_response = "byte list \<Rightarrow> u16 \<Rightarrow> byte list \<Rightarrow> u32 \<Rightarrow> u32 \<Rightarrow> u64 \<Rightarrow> memcached_protocol_client_st
  \<Rightarrow> (status \<times> memcached_protocol_client_st) option"
type_synonym stat_response = "(byte list) option \<Rightarrow> u16 \<Rightarrow> byte list \<Rightarrow> u32 \<Rightarrow> memcached_protocol_client_st
  \<Rightarrow> (status \<times> memcached_protocol_client_st) option"
type_synonym version_response = "byte list \<Rightarrow> u32 \<Rightarrow> memcached_protocol_client_st
  \<Rightarrow> (status \<times> memcached_protocol_client_st) option"
type_synonym 'a command_handler = "byte list \<Rightarrow> raw_response \<Rightarrow> ('a, status) act"

record 'a callback_v1 =
  v1_add :: "(byte list \<Rightarrow> u16 \<Rightarrow> byte list \<Rightarrow> u32 \<Rightarrow> u32 \<Rightarrow> u32 \<Rightarrow> ('a, status \<times> u64) act) option"
  v1_append :: "(byte list \<Rightarrow> u16 \<Rightarrow> byte list \<Rightarrow> u32 \<Rightarrow> u64 \<Rightarrow> ('a, status \<times> u64) act) option"
  v1_decrement :: "(byte list \<Rightarrow> u16 \<Rightarrow> u64 \<Rightarrow> u64 \<Rightarrow> u32 \<Rightarrow> ('a, status \<times> u64 \<times> u64) act) option"
  v1_delete :: "(byte list \<Rightarrow> u16 \<Rightarrow> u64 \<Rightarrow> ('a, status) act) option"
  v1_flush :: "(u32 \<Rightarrow> ('a, status) act) option"
  v1_get :: "(byte list \<Rightarrow> u16 \<Rightarrow> get_response \<Rightarrow> ('a, status) act) option"
  v1_increment :: "(byte list \<Rightarrow> u16 \<Rightarrow> u64 \<Rightarrow> u64 \<Rightarrow> u32 \<Rightarrow> ('a, status \<times> u64 \<times> u64) act) option"
  v1_noop :: "('a, status) act option"
  v1_prepend :: "(byte list \<Rightarrow> u16 \<Rightarrow> byte list \<Rightarrow> u32 \<Rightarrow> u64 \<Rightarrow> ('a, status \<times> u64) act) option"
  v1_quit :: "('a, status) act option"
  v1_replace :: "(byte list \<Rightarrow> u16 \<Rightarrow> byte list \<Rightarrow> u32 \<Rightarrow> u32 \<Rightarrow> u32 \<Rightarrow> u64 \<Rightarrow> ('a, status \<times> u64) act) option"
  v1_set :: "(byte list \<Rightarrow> u16 \<Rightarrow> byte list \<Rightarrow> u32 \<Rightarrow> u32 \<Rightarrow> u32 \<Rightarrow> u64 \<Rightarrow> ('a, status \<times> u64) act) option"
  v1_stat :: "(byte list \<Rightarrow> u16 \<Rightarrow> stat_response \<Rightarrow> ('a, status) act) option"
  v1_version :: "(version_response \<Rightarrow> ('a, status) act) option"

record 'a callback_st =
  interface_version :: nat
  pre_execute :: "(byte list \<Rightarrow> 'a conn \<Rightarrow> 'a conn) option"
  post_execute :: "(byte list \<Rightarrow> 'a conn \<Rightarrow> 'a conn) option"
  unknown :: "'a command_handler option"
  v0 :: "byte \<Rightarrow> 'a command_handler option"
  v1 :: "'a callback_v1"

text \<open>What a response handler does to the client, in the middle of a callback.\<close>

definition on_client ::
  "(memcached_protocol_client_st \<Rightarrow> (status \<times> memcached_protocol_client_st) option) \<Rightarrow> ('a, status) act" where
  "on_client f s = map_option (\<lambda>(r, c). (r, fst s, c)) (f (snd s))"

text \<open>Reads of memory.\<close>

definition rd16 :: "byte list \<Rightarrow> nat \<Rightarrow> u16 option" where
  "rd16 b i = (if i + 2 \<le> length b then Some (ld_le16 b i) else None)"
definition rd32 :: "byte list \<Rightarrow> nat \<Rightarrow> u32 option" where
  "rd32 b i = (if i + 4 \<le> length b then Some (ld_le32 b i) else None)"
definition rd64 :: "byte list \<Rightarrow> nat \<Rightarrow> u64 option" where
  "rd64 b i = (if i + 8 \<le> length b then Some (ld_le64 b i) else None)"

definition spool_mem ::
  "proto_env \<Rightarrow> memcached_protocol_client_st \<Rightarrow> byte list \<Rightarrow> nat \<Rightarrow> (status \<times> memcached_protocol_client_st) option" where
  "spool_mem E c data n =
     (if mute c \<or> n \<le> length data then Some (spool_output E c (take n data)) else None)"

section \<open>Sending responses\<close>

text \<open>
  \<open>send\<close> straight from the packet, until everything is sent or the socket would block; the
  result is how much has been sent, or \<open>None\<close> for an error.
\<close>

function direct_send ::
  "byte list \<Rightarrow> nat \<Rightarrow> memcached_protocol_client_st \<Rightarrow> nat option \<times> memcached_protocol_client_st" where
  "direct_send packet offset c =
     (case sends c of
        [] \<Rightarrow> (Some offset, c)
      | Would_block # ss \<Rightarrow> (Some offset, c\<lparr>sends := ss\<rparr>)
      | Interrupted # ss \<Rightarrow>
          if offset < length packet then direct_send packet offset (c\<lparr>sends := ss\<rparr>)
          else (Some offset, c\<lparr>sends := ss\<rparr>)
      | Send_fails e # ss \<Rightarrow> (None, c\<lparr>client_error := e, sends := ss\<rparr>)
      | Accepts n # ss \<Rightarrow>
          (let nw = min n (length packet - offset);
               c = c\<lparr>sends := ss, wire := wire c @ take nw (drop offset packet)\<rparr>;
               offset = offset + nw
           in if offset < length packet then direct_send packet offset c else (Some offset, c)))"
  by pat_completeness auto
termination
  by (relation "measure (\<lambda>(packet, offset, c). length (sends c))") (auto dest: sym)

declare direct_send.simps [simp del]

definition raw_response_handler :: "proto_env \<Rightarrow> raw_response" where
  "raw_response_handler E request response c =
     (if length response < 24 then None
      else if pedantic (root c) \<and> \<not> pedantic_check_response (request_at request) (response_at response)
      then Some (PROTOCOL_BINARY_RESPONSE_EINVAL, c)
      else do {
        (ok, c) \<leftarrow> drain_output E c;
        if \<not> ok then Some (PROTOCOL_BINARY_RESPONSE_EIO, c)
        else
          let len = 24 + unat (htonl (res_bodylen (response_at response)))
          in if client_output c \<noteq> [] then spool_mem E c response len
             else if length response < len then None
             else (case direct_send (take len response) 0 c of
                     (None, c) \<Rightarrow> Some (PROTOCOL_BINARY_RESPONSE_EIO, c)
                   | (Some offset, c) \<Rightarrow> spool_mem E c response (len - offset))
      })"

text \<open>The initialiser of a response sets the fields it does not name to zero.\<close>

definition zero_response :: protocol_binary_response_header where
  "zero_response = \<lparr>res_magic = 0, res_opcode = 0, res_keylen = 0, res_extlen = 0, res_datatype = 0,
                    res_status = 0, res_bodylen = 0, res_opaque = 0, res_cas = 0\<rparr>"

text \<open>Three pieces are spooled, up to the first that fails.\<close>

definition spool_then ::
  "(status \<times> memcached_protocol_client_st) option
   \<Rightarrow> (memcached_protocol_client_st \<Rightarrow> (status \<times> memcached_protocol_client_st) option)
   \<Rightarrow> (status \<times> memcached_protocol_client_st) option" where
  "spool_then m f = do { (rval, c) \<leftarrow> m; if rval \<noteq> PROTOCOL_BINARY_RESPONSE_SUCCESS then Some (rval, c) else f c }"

definition get_response_handler :: "proto_env \<Rightarrow> get_response" where
  "get_response_handler E key keylen body bodylen flags cas c =
     (let opcode = req_opcode (request_at (current_command c));
          keylen = (if opcode = PROTOCOL_BINARY_CMD_GET \<or> opcode = PROTOCOL_BINARY_CMD_GETQ then 0 else keylen);
          response = response_bytes (zero_response
            \<lparr>res_magic := PROTOCOL_BINARY_RES, res_opcode := opcode, res_keylen := htons keylen, res_extlen := 4,
             res_status := htons PROTOCOL_BINARY_RESPONSE_SUCCESS, res_bodylen := htonl (bodylen + ucast keylen + 4),
             res_opaque := req_opaque (request_at (current_command c)), res_cas := htonll cas\<rparr>)
      in spool_then (spool_mem E c (response @ st_le32 (htonl flags)) 28) (\<lambda>c.
         spool_then (spool_mem E c key (unat keylen)) (\<lambda>c.
         spool_then (spool_mem E c body (unat bodylen)) (\<lambda>c. Some (PROTOCOL_BINARY_RESPONSE_SUCCESS, c)))))"

definition stat_response_handler :: "proto_env \<Rightarrow> stat_response" where
  "stat_response_handler E key keylen body bodylen c =
     (let response = response_bytes (zero_response
            \<lparr>res_magic := PROTOCOL_BINARY_RES, res_opcode := req_opcode (request_at (current_command c)),
             res_keylen := htons keylen, res_status := htons PROTOCOL_BINARY_RESPONSE_SUCCESS,
             res_bodylen := htonl (bodylen + ucast keylen), res_opaque := req_opaque (request_at (current_command c))\<rparr>)
      in spool_then (spool_mem E c response 24) (\<lambda>c.
         spool_then (spool_mem E c (case key of None \<Rightarrow> [] | Some k \<Rightarrow> k) (unat keylen)) (\<lambda>c.
         spool_then (spool_mem E c body (unat bodylen)) (\<lambda>c. Some (PROTOCOL_BINARY_RESPONSE_SUCCESS, c)))))"

definition version_response_handler :: "proto_env \<Rightarrow> version_response" where
  "version_response_handler E txt textlen c =
     (let response = response_bytes (zero_response
            \<lparr>res_magic := PROTOCOL_BINARY_RES, res_opcode := req_opcode (request_at (current_command c)),
             res_status := htons PROTOCOL_BINARY_RESPONSE_SUCCESS, res_bodylen := htonl textlen,
             res_opaque := req_opaque (request_at (current_command c))\<rparr>)
      in spool_then (spool_mem E c response 24) (\<lambda>c.
         spool_then (spool_mem E c txt (unat textlen)) (\<lambda>c. Some (PROTOCOL_BINARY_RESPONSE_SUCCESS, c))))"

section \<open>The command handlers\<close>

text \<open>The positive response of a command without a body.\<close>

definition no_extras :: "byte \<Rightarrow> byte list \<Rightarrow> u64 \<Rightarrow> byte list" where
  "no_extras opcode header cas =
     response_bytes (zero_response
       \<lparr>res_magic := PROTOCOL_BINARY_RES, res_opcode := opcode, res_status := htons PROTOCOL_BINARY_RESPONSE_SUCCESS,
        res_opaque := req_opaque (request_at header), res_cas := ntohll cas\<rparr>)"

definition counter_response :: "byte \<Rightarrow> byte list \<Rightarrow> u64 \<Rightarrow> u64 \<Rightarrow> byte list" where
  "counter_response opcode header result cas =
     response_bytes (zero_response
       \<lparr>res_magic := PROTOCOL_BINARY_RES, res_opcode := opcode, res_status := htons PROTOCOL_BINARY_RESPONSE_SUCCESS,
        res_bodylen := htonl 8, res_opaque := req_opaque (request_at header), res_cas := ntohll cas\<rparr>)
     @ st_le64 (htonll result)"

definition add_command_handler :: "'a callback_st \<Rightarrow> 'a command_handler" where
  "add_command_handler cb header response_handler s =
     (case v1_add (v1 cb) of
        None \<Rightarrow> Some (PROTOCOL_BINARY_RESPONSE_UNKNOWN_COMMAND, s)
      | Some add \<Rightarrow>
          let request = request_at header;
              keylen = ntohs (req_keylen request);
              datalen = ntohl (req_bodylen request) - ucast keylen - 8;
              key = drop 32 header;
              data = drop (unat keylen) key
          in do {
            flags \<leftarrow> rd32 header 24;
            timeout \<leftarrow> rd32 header 28;
            ((rval, cas), s) \<leftarrow> add key keylen data datalen (ntohl flags) (ntohl timeout) s;
            if rval = PROTOCOL_BINARY_RESPONSE_SUCCESS \<and> req_opcode request = PROTOCOL_BINARY_CMD_ADD
            then on_client (response_handler header (no_extras PROTOCOL_BINARY_CMD_ADD header cas)) s
            else Some (rval, s)
          })"

definition decrement_command_handler :: "'a callback_st \<Rightarrow> 'a command_handler" where
  "decrement_command_handler cb header response_handler s =
     (case v1_decrement (v1 cb) of
        None \<Rightarrow> Some (PROTOCOL_BINARY_RESPONSE_UNKNOWN_COMMAND, s)
      | Some decr \<Rightarrow>
          let request = request_at header;
              keylen = ntohs (req_keylen request)
          in do {
            init \<leftarrow> rd64 header 32;
            delta \<leftarrow> rd64 header 24;
            timeout \<leftarrow> rd32 header 40;
            ((rval, result, cas), s) \<leftarrow>
              decr (drop 44 header) keylen (ntohll delta) (ntohll init) (ntohl timeout) s;
            if rval = PROTOCOL_BINARY_RESPONSE_SUCCESS \<and> req_opcode request = PROTOCOL_BINARY_CMD_DECREMENT
            then on_client (response_handler header (counter_response PROTOCOL_BINARY_CMD_DECREMENT header result cas)) s
            else Some (rval, s)
          })"

definition increment_command_handler :: "'a callback_st \<Rightarrow> 'a command_handler" where
  "increment_command_handler cb header response_handler s =
     (case v1_increment (v1 cb) of
        None \<Rightarrow> Some (PROTOCOL_BINARY_RESPONSE_UNKNOWN_COMMAND, s)
      | Some incr \<Rightarrow>
          let request = request_at header;
              keylen = ntohs (req_keylen request)
          in do {
            init \<leftarrow> rd64 header 32;
            delta \<leftarrow> rd64 header 24;
            timeout \<leftarrow> rd32 header 40;
            ((rval, result, cas), s) \<leftarrow>
              incr (drop 44 header) keylen (ntohll delta) (ntohll init) (ntohl timeout) s;
            if rval = PROTOCOL_BINARY_RESPONSE_SUCCESS \<and> req_opcode request = PROTOCOL_BINARY_CMD_INCREMENT
            then on_client (response_handler header (counter_response PROTOCOL_BINARY_CMD_INCREMENT header result cas)) s
            else Some (rval, s)
          })"

definition delete_command_handler :: "'a callback_st \<Rightarrow> 'a command_handler" where
  "delete_command_handler cb header response_handler s =
     (case v1_delete (v1 cb) of
        None \<Rightarrow> Some (PROTOCOL_BINARY_RESPONSE_UNKNOWN_COMMAND, s)
      | Some del \<Rightarrow>
          let request = request_at header
          in do {
            (rval, s) \<leftarrow> del (drop 24 header) (ntohs (req_keylen request)) (ntohll (req_cas request)) s;
            if rval = PROTOCOL_BINARY_RESPONSE_SUCCESS \<and> req_opcode request = PROTOCOL_BINARY_CMD_DELETE
            then on_client (response_handler header (no_extras PROTOCOL_BINARY_CMD_DELETE header 0)) s
            else Some (rval, s)
          })"

definition flush_command_handler :: "'a callback_st \<Rightarrow> 'a command_handler" where
  "flush_command_handler cb header response_handler s =
     (case v1_flush (v1 cb) of
        None \<Rightarrow> Some (PROTOCOL_BINARY_RESPONSE_UNKNOWN_COMMAND, s)
      | Some flush \<Rightarrow>
          let request = request_at header
          in do {
            timeout \<leftarrow> (if htonl (req_bodylen request) = 4 then map_option ntohl (rd32 header 24) else Some 0);
            (rval, s) \<leftarrow> flush timeout s;
            if rval = PROTOCOL_BINARY_RESPONSE_SUCCESS \<and> req_opcode request = PROTOCOL_BINARY_CMD_FLUSH
            then on_client (response_handler header (no_extras PROTOCOL_BINARY_CMD_FLUSH header 0)) s
            else Some (rval, s)
          })"

definition get_command_handler :: "proto_env \<Rightarrow> 'a callback_st \<Rightarrow> 'a command_handler" where
  "get_command_handler E cb header response_handler s =
     (case v1_get (v1 cb) of
        None \<Rightarrow> Some (PROTOCOL_BINARY_RESPONSE_UNKNOWN_COMMAND, s)
      | Some get \<Rightarrow>
          let request = request_at header
          in do {
            (rval, s) \<leftarrow> get (drop 24 header) (ntohs (req_keylen request)) (get_response_handler E) s;
            Some (if rval = PROTOCOL_BINARY_RESPONSE_KEY_ENOENT \<and>
                     (req_opcode request = PROTOCOL_BINARY_CMD_GETQ \<or> req_opcode request = PROTOCOL_BINARY_CMD_GETKQ)
                  then PROTOCOL_BINARY_RESPONSE_SUCCESS else rval, s)
          })"

definition noop_command_handler :: "'a callback_st \<Rightarrow> 'a command_handler" where
  "noop_command_handler cb header response_handler s = do {
     s \<leftarrow> (case v1_noop (v1 cb) of None \<Rightarrow> Some s | Some noop \<Rightarrow> map_option snd (noop s));
     on_client (response_handler header (no_extras PROTOCOL_BINARY_CMD_NOOP header 0)) s
   }"

definition append_command_handler :: "'a callback_st \<Rightarrow> 'a command_handler" where
  "append_command_handler cb header response_handler s =
     (case v1_append (v1 cb) of
        None \<Rightarrow> Some (PROTOCOL_BINARY_RESPONSE_UNKNOWN_COMMAND, s)
      | Some append_cb \<Rightarrow>
          let request = request_at header;
              keylen = ntohs (req_keylen request);
              datalen = ntohl (req_bodylen request) - ucast keylen;
              key = drop 24 header;
              data = drop (unat keylen) key
          in do {
            ((rval, result_cas), s) \<leftarrow> append_cb key keylen data datalen (ntohll (req_cas request)) s;
            if rval = PROTOCOL_BINARY_RESPONSE_SUCCESS \<and> req_opcode request = PROTOCOL_BINARY_CMD_APPEND
            then on_client (response_handler header (no_extras PROTOCOL_BINARY_CMD_APPEND header result_cas)) s
            else Some (rval, s)
          })"

definition prepend_command_handler :: "'a callback_st \<Rightarrow> 'a command_handler" where
  "prepend_command_handler cb header response_handler s =
     (case v1_prepend (v1 cb) of
        None \<Rightarrow> Some (PROTOCOL_BINARY_RESPONSE_UNKNOWN_COMMAND, s)
      | Some prepend_cb \<Rightarrow>
          let request = request_at header;
              keylen = ntohs (req_keylen request);
              datalen = ntohl (req_bodylen request) - ucast keylen;
              key = drop 24 header;
              data = drop (unat keylen) key
          in do {
            ((rval, result_cas), s) \<leftarrow> prepend_cb key keylen data datalen (ntohll (req_cas request)) s;
            if rval = PROTOCOL_BINARY_RESPONSE_SUCCESS \<and> req_opcode request = PROTOCOL_BINARY_CMD_PREPEND
            then on_client (response_handler header (no_extras PROTOCOL_BINARY_CMD_PREPEND header result_cas)) s
            else Some (rval, s)
          })"

definition quit_command_handler :: "'a callback_st \<Rightarrow> 'a command_handler" where
  "quit_command_handler cb header response_handler s = do {
     s \<leftarrow> (case v1_quit (v1 cb) of None \<Rightarrow> Some s | Some quit \<Rightarrow> map_option snd (quit s));
     s \<leftarrow> (if req_opcode (request_at header) = PROTOCOL_BINARY_CMD_QUIT
          then map_option snd (on_client (response_handler header (no_extras PROTOCOL_BINARY_CMD_QUIT header 0)) s)
          else Some s);
     Some (PROTOCOL_BINARY_RESPONSE_EIO, s)
   }"

definition replace_command_handler :: "'a callback_st \<Rightarrow> 'a command_handler" where
  "replace_command_handler cb header response_handler s =
     (case v1_replace (v1 cb) of
        None \<Rightarrow> Some (PROTOCOL_BINARY_RESPONSE_UNKNOWN_COMMAND, s)
      | Some replace_cb \<Rightarrow>
          let request = request_at header;
              keylen = ntohs (req_keylen request);
              datalen = ntohl (req_bodylen request) - ucast keylen - 8;
              key = drop 32 header;
              data = drop (unat keylen) key
          in do {
            flags \<leftarrow> rd32 header 24;
            timeout \<leftarrow> rd32 header 28;
            ((rval, result_cas), s) \<leftarrow>
              replace_cb key keylen data datalen (ntohl flags) (ntohl timeout) (ntohll (req_cas request)) s;
            if rval = PROTOCOL_BINARY_RESPONSE_SUCCESS \<and> req_opcode request = PROTOCOL_BINARY_CMD_REPLACE
            then on_client (response_handler header (no_extras PROTOCOL_BINARY_CMD_REPLACE header result_cas)) s
            else Some (rval, s)
          })"

definition set_command_handler :: "'a callback_st \<Rightarrow> 'a command_handler" where
  "set_command_handler cb header response_handler s =
     (case v1_set (v1 cb) of
        None \<Rightarrow> Some (PROTOCOL_BINARY_RESPONSE_UNKNOWN_COMMAND, s)
      | Some set_cb \<Rightarrow>
          let request = request_at header;
              keylen = ntohs (req_keylen request);
              datalen = ntohl (req_bodylen request) - ucast keylen - 8;
              key = drop 32 header;
              data = drop (unat keylen) key
          in do {
            flags \<leftarrow> rd32 header 24;
            timeout \<leftarrow> rd32 header 28;
            ((rval, result_cas), s) \<leftarrow>
              set_cb key keylen data datalen (ntohl flags) (ntohl timeout) (ntohll (req_cas request)) s;
            if rval = PROTOCOL_BINARY_RESPONSE_SUCCESS \<and> req_opcode request = PROTOCOL_BINARY_CMD_SET
            then on_client (response_handler header (no_extras PROTOCOL_BINARY_CMD_SET header result_cas)) s
            else Some (rval, s)
          })"

definition stat_command_handler :: "proto_env \<Rightarrow> 'a callback_st \<Rightarrow> 'a command_handler" where
  "stat_command_handler E cb header response_handler s =
     (case v1_stat (v1 cb) of
        None \<Rightarrow> Some (PROTOCOL_BINARY_RESPONSE_UNKNOWN_COMMAND, s)
      | Some stat \<Rightarrow> stat (drop 24 header) (ntohs (req_keylen (request_at header))) (stat_response_handler E) s)"

definition version_command_handler :: "proto_env \<Rightarrow> 'a callback_st \<Rightarrow> 'a command_handler" where
  "version_command_handler E cb header response_handler s =
     (case v1_version (v1 cb) of
        None \<Rightarrow> Some (PROTOCOL_BINARY_RESPONSE_UNKNOWN_COMMAND, s)
      | Some version \<Rightarrow> version (version_response_handler E) s)"

definition comcode_v0_v1_remap :: "proto_env \<Rightarrow> 'a callback_st \<Rightarrow> byte \<Rightarrow> 'a command_handler option" where
  "comcode_v0_v1_remap E cb cc =
     (if cc \<in> {PROTOCOL_BINARY_CMD_ADDQ, PROTOCOL_BINARY_CMD_ADD} then Some (add_command_handler cb)
      else if cc \<in> {PROTOCOL_BINARY_CMD_APPENDQ, PROTOCOL_BINARY_CMD_APPEND} then Some (append_command_handler cb)
      else if cc \<in> {PROTOCOL_BINARY_CMD_DECREMENTQ, PROTOCOL_BINARY_CMD_DECREMENT} then Some (decrement_command_handler cb)
      else if cc \<in> {PROTOCOL_BINARY_CMD_DELETEQ, PROTOCOL_BINARY_CMD_DELETE} then Some (delete_command_handler cb)
      else if cc \<in> {PROTOCOL_BINARY_CMD_FLUSHQ, PROTOCOL_BINARY_CMD_FLUSH} then Some (flush_command_handler cb)
      else if cc \<in> {PROTOCOL_BINARY_CMD_GETKQ, PROTOCOL_BINARY_CMD_GETK, PROTOCOL_BINARY_CMD_GETQ, PROTOCOL_BINARY_CMD_GET}
           then Some (get_command_handler E cb)
      else if cc \<in> {PROTOCOL_BINARY_CMD_INCREMENTQ, PROTOCOL_BINARY_CMD_INCREMENT} then Some (increment_command_handler cb)
      else if cc = PROTOCOL_BINARY_CMD_NOOP then Some (noop_command_handler cb)
      else if cc \<in> {PROTOCOL_BINARY_CMD_PREPENDQ, PROTOCOL_BINARY_CMD_PREPEND} then Some (prepend_command_handler cb)
      else if cc \<in> {PROTOCOL_BINARY_CMD_QUITQ, PROTOCOL_BINARY_CMD_QUIT} then Some (quit_command_handler cb)
      else if cc \<in> {PROTOCOL_BINARY_CMD_REPLACEQ, PROTOCOL_BINARY_CMD_REPLACE} then Some (replace_command_handler cb)
      else if cc \<in> {PROTOCOL_BINARY_CMD_SETQ, PROTOCOL_BINARY_CMD_SET} then Some (set_command_handler cb)
      else if cc = PROTOCOL_BINARY_CMD_STAT then Some (stat_command_handler E cb)
      else if cc = PROTOCOL_BINARY_CMD_VERSION then Some (version_command_handler E cb)
      else None)"

section \<open>Executing commands\<close>

text \<open>The result of the pedantic check of the request is not used.\<close>

definition error_response :: "byte \<Rightarrow> status \<Rightarrow> byte list \<Rightarrow> byte list" where
  "error_response cc rval header =
     response_bytes (zero_response
       \<lparr>res_magic := PROTOCOL_BINARY_RES, res_opcode := cc, res_status := htons rval,
        res_opaque := req_opaque (request_at header)\<rparr>)"

definition execute_handler :: "proto_env \<Rightarrow> 'a callback_st \<Rightarrow> byte list \<Rightarrow> ('a, status) act" where
  "execute_handler E cb header s =
     (let cc = req_opcode (request_at header)
      in if interface_version cb = 0
         then (case v0 cb cc of
                 None \<Rightarrow> Some (PROTOCOL_BINARY_RESPONSE_UNKNOWN_COMMAND, s)
               | Some f \<Rightarrow> f header (raw_response_handler E) s)
         else if interface_version cb = 1
         then (case comcode_v0_v1_remap E cb cc of
                 None \<Rightarrow> Some (PROTOCOL_BINARY_RESPONSE_UNKNOWN_COMMAND, s)
               | Some f \<Rightarrow> f header (raw_response_handler E) s)
         else None)"

definition execute_command :: "proto_env \<Rightarrow> 'a callback_st \<Rightarrow> byte list \<Rightarrow> ('a, status) act" where
  "execute_command E cb header s =
     (let s = (if pedantic (root (snd s)) \<and> pedantic_check_request (request_at header) then s else s);
          s = (case pre_execute cb of None \<Rightarrow> s | Some f \<Rightarrow> f header s);
          cc = req_opcode (request_at header)
      in do {
        (rval, s) \<leftarrow> execute_handler E cb header s;
        (rval, s) \<leftarrow> (case unknown cb of
           Some f \<Rightarrow> if rval = PROTOCOL_BINARY_RESPONSE_UNKNOWN_COMMAND
                      then f header (raw_response_handler E) s else Some (rval, s)
         | None \<Rightarrow> Some (rval, s));
        (rval, s) \<leftarrow> (if rval \<noteq> PROTOCOL_BINARY_RESPONSE_SUCCESS \<and> rval \<noteq> PROTOCOL_BINARY_RESPONSE_EIO
                         \<and> rval \<noteq> PROTOCOL_BINARY_RESPONSE_PAUSE
                      then on_client (raw_response_handler E header (error_response cc rval header)) s
                      else Some (rval, s));
        Some (rval, case post_execute cb of None \<Rightarrow> s | Some f \<Rightarrow> f header s)
      })"

end
