(* ===== verification/Binary_Process.thy ===== *)
theory Binary_Process
  imports Binary_Handler
begin

text \<open>
  \<open>memcached_binary_protocol_process_data\<close>: the packets in the input buffer are executed in order. A
  header that is not aligned is moved to the start of the buffer with everything behind it. \<open>length\<close>
  and \<open>endptr\<close> are the two output parameters; \<open>endptr\<close> is an offset into the input buffer, \<open>None\<close> as long
  as nothing has been stored in it. The buffer starts at an address that is divisible by eight.
\<close>

type_synonym memcached_protocol_event_t = u32

abbreviation (input) MEMCACHED_PROTOCOL_ERROR_EVENT :: memcached_protocol_event_t where
  "MEMCACHED_PROTOCOL_ERROR_EVENT \<equiv> 1"
abbreviation (input) MEMCACHED_PROTOCOL_READ_EVENT :: memcached_protocol_event_t where
  "MEMCACHED_PROTOCOL_READ_EVENT \<equiv> 2"
abbreviation (input) MEMCACHED_PROTOCOL_WRITE_EVENT :: memcached_protocol_event_t where
  "MEMCACHED_PROTOCOL_WRITE_EVENT \<equiv> 4"
abbreviation (input) MEMCACHED_PROTOCOL_PAUSE_EVENT :: memcached_protocol_event_t where
  "MEMCACHED_PROTOCOL_PAUSE_EVENT \<equiv> 8"

abbreviation (input) EINVAL :: int where "EINVAL \<equiv> 22"
abbreviation (input) ENOMEM :: int where "ENOMEM \<equiv> 12"

definition buffer :: "'a conn \<Rightarrow> byte list" where
  "buffer s = input_buffer (root (snd s))"

definition set_buffer :: "byte list \<Rightarrow> 'a conn \<Rightarrow> 'a conn" where
  "set_buffer m s = (fst s, (snd s)\<lparr>root := (root (snd s))\<lparr>input_buffer := m\<rparr>\<rparr>)"

definition set_command :: "byte list \<Rightarrow> 'a conn \<Rightarrow> 'a conn" where
  "set_command b s = (fst s, (snd s)\<lparr>current_command := b\<rparr>)"

definition packet_total :: "byte list \<Rightarrow> nat" where
  "packet_total b = 24 + unat (ntohl (req_bodylen (request_at b)))"

definition memmove_front :: "nat \<Rightarrow> nat \<Rightarrow> byte list \<Rightarrow> byte list" where
  "memmove_front ptr len m = take len (drop ptr m) @ drop len m"

function process_loop ::
  "(byte list \<Rightarrow> ('a, status) act) \<Rightarrow> nat \<Rightarrow> nat \<Rightarrow> nat \<Rightarrow> nat option \<Rightarrow> 'a conn
   \<Rightarrow> (memcached_protocol_event_t \<times> nat \<times> nat option \<times> 'a conn) option" where
  "process_loop exec header len len_out endptr s =
     (let b = drop header (buffer s); packet = packet_total b
      in if 24 \<le> len \<and> packet \<le> len
         then case exec b (set_command b s) of
                None \<Rightarrow> None
              | Some (rv, s) \<Rightarrow>
                  if rv = PROTOCOL_BINARY_RESPONSE_EIO
                  then Some (MEMCACHED_PROTOCOL_ERROR_EVENT, len, Some header, s)
                  else if rv = PROTOCOL_BINARY_RESPONSE_PAUSE
                  then Some (MEMCACHED_PROTOCOL_PAUSE_EVENT, len_out, endptr, s)
                  else
                    let len = len - packet; ptr = header + packet
                    in if 0 < len
                       then if ptr mod 8 = 0 then process_loop exec ptr len len (Some ptr) s
                            else process_loop exec 0 len len (Some 0) (set_buffer (memmove_front ptr len (buffer s)) s)
                       else process_loop exec header len len (Some header) s
         else Some (MEMCACHED_PROTOCOL_READ_EVENT, len_out, endptr, s))"
  by pat_completeness auto
termination
  by (relation "measure (\<lambda>(exec, header, len, len_out, endptr, s). len)") (auto simp: packet_total_def)

declare process_loop.simps [simp del]

definition memcached_binary_protocol_process_data ::
  "proto_env \<Rightarrow> 'a callback_st \<Rightarrow> nat \<Rightarrow> nat option \<Rightarrow> 'a conn
   \<Rightarrow> (memcached_protocol_event_t \<times> nat \<times> nat option \<times> 'a conn) option" where
  "memcached_binary_protocol_process_data E cb len endptr s =
     (if req_magic (request_at (buffer s)) \<noteq> PROTOCOL_BINARY_REQ
      then Some (MEMCACHED_PROTOCOL_ERROR_EVENT, len, endptr, (fst s, (snd s)\<lparr>client_error := EINVAL\<rparr>))
      else process_loop (execute_command E cb) 0 len len endptr s)"

section \<open>The stream of packets\<close>

text \<open>
  What the loop implements: the input is a stream, packets are taken off its front and executed, and
  the rest is returned. A packet is executed without the input buffer, on its own bytes.
\<close>

definition place :: "byte list \<Rightarrow> byte list \<Rightarrow> 'a conn \<Rightarrow> 'a conn" where
  "place k m s = set_command k (set_buffer m s)"

definition complete :: "byte list \<Rightarrow> bool" where
  "complete p \<longleftrightarrow> 24 \<le> length p \<and> packet_total p \<le> length p"

function run_stream ::
  "(byte list \<Rightarrow> ('a, status) act) \<Rightarrow> byte list \<Rightarrow> 'a conn
   \<Rightarrow> (memcached_protocol_event_t \<times> byte list \<times> 'a conn) option" where
  "run_stream exec bs s =
     (if complete bs
      then let p = take (packet_total bs) bs
           in case exec p (place p [] s) of
                None \<Rightarrow> None
              | Some (rv, s) \<Rightarrow>
                  if rv = PROTOCOL_BINARY_RESPONSE_EIO then Some (MEMCACHED_PROTOCOL_ERROR_EVENT, bs, s)
                  else if rv = PROTOCOL_BINARY_RESPONSE_PAUSE then Some (MEMCACHED_PROTOCOL_PAUSE_EVENT, bs, s)
                  else run_stream exec (drop (packet_total bs) bs) s
      else Some (MEMCACHED_PROTOCOL_READ_EVENT, bs, s))"
  by pat_completeness auto
termination
  by (relation "measure (\<lambda>(exec, bs, s). length bs)") (auto simp: complete_def packet_total_def)

declare run_stream.simps [simp del]

text \<open>Executing a packet depends on its bytes only, and leaves the input buffer alone.\<close>

definition packet_local :: "(byte list \<Rightarrow> ('a, status) act) \<Rightarrow> bool" where
  "packet_local exec \<longleftrightarrow>
     (\<forall>p r m s. 24 \<le> length p \<longrightarrow> packet_total p = length p \<longrightarrow>
        exec (p @ r) (place (p @ r) m s) = map_option (map_prod id (place (p @ r) m)) (exec p (place p [] s)))"

lemma place_simps [simp]:
  "buffer (place k m s) = m" "place k m (place k' m' s) = place k m s" "fst (place k m s) = fst s"
  "place k m (set_command k' s) = place k m s" "place k m (set_buffer m' s) = place k m s"
  by (simp_all add: place_def set_command_def set_buffer_def buffer_def)

lemma set_command_place: "set_command b s = place b (buffer s) s"
  by (simp add: place_def set_command_def set_buffer_def buffer_def)

lemma set_buffer_place: "set_buffer m s = place (current_command (snd s)) m s"
  by (simp add: place_def set_command_def set_buffer_def)

lemma request_at_take: "24 \<le> n \<Longrightarrow> request_at (take n b) = request_at b"
  by (simp add: request_at_def ld_le16_def ld_le32_def ld_le64_def)

lemma packet_total_take: "24 \<le> n \<Longrightarrow> packet_total (take n b) = packet_total b"
  by (simp add: packet_total_def request_at_take)

lemma packet_total_ge [simp]: "24 \<le> packet_total b"
  by (simp add: packet_total_def)

lemma exec_packet:
  assumes "packet_local exec" and "packet_total b \<le> length b"
  shows "exec b (set_command b s) =
    (let p = take (packet_total b) b in map_option (map_prod id (place b (buffer s))) (exec p (place p [] s)))"
proof -
  let ?p = "take (packet_total b) b" let ?r = "drop (packet_total b) b"
  have "packet_total ?p = length ?p" "24 \<le> length ?p"
    using assms(2) packet_total_ge [of b] by (simp_all add: packet_total_take del: packet_total_ge)
  with assms(1) have "exec (?p @ ?r) (place (?p @ ?r) (buffer s) s) =
      map_option (map_prod id (place (?p @ ?r) (buffer s))) (exec ?p (place ?p [] s))"
    unfolding packet_local_def by blast
  then show ?thesis by (simp add: set_command_place Let_def)
qed

text \<open>One round of the loop and of the stream.\<close>

lemma process_loop_stop:
  "\<not> (24 \<le> len \<and> packet_total (drop h (buffer s)) \<le> len) \<Longrightarrow>
   process_loop exec h len l ep s = Some (MEMCACHED_PROTOCOL_READ_EVENT, l, ep, s)"
  by (subst process_loop.simps) (auto simp: Let_def)

lemma run_stream_stop: "\<not> complete bs \<Longrightarrow> run_stream exec bs s = Some (MEMCACHED_PROTOCOL_READ_EVENT, bs, s)"
  by (subst run_stream.simps) simp

lemma complete_iff:
  assumes "h + len \<le> length (buffer s)"
  shows "complete (take len (drop h (buffer s))) \<longleftrightarrow> 24 \<le> len \<and> packet_total (drop h (buffer s)) \<le> len"
  using assms by (cases "24 \<le> len") (auto simp: complete_def packet_total_take)

definition same_app :: "'a conn \<Rightarrow> 'a conn \<Rightarrow> bool" where
  "same_app s t \<longleftrightarrow> place [] [] s = place [] [] t"

lemma same_app_place [simp]: "same_app (place k m s) t = same_app s t" "same_app s (place k m t) = same_app s t"
  by (simp_all add: same_app_def)

lemma same_app_refl [simp]: "same_app s s"
  by (simp add: same_app_def)

lemma same_app_exec: "same_app s t \<Longrightarrow> place p [] s = place p [] t"
  unfolding same_app_def by (metis place_simps(2))

definition stream_rest :: "nat \<Rightarrow> nat option \<Rightarrow> 'a conn \<Rightarrow> byte list \<Rightarrow> bool" where
  "stream_rest l ep s rest \<longleftrightarrow> l = length rest \<and> (\<exists>q. ep = Some q \<and> rest = take l (drop q (buffer s)))"

lemma process_loop_next:
  fixes h len :: nat and s :: "'a conn"
  defines "n \<equiv> packet_total (drop h (buffer s))"
  assumes fits: "h + len \<le> length (buffer s)" and n: "24 \<le> len" "n \<le> len"
    and s1: "exec (drop h (buffer s)) (set_command (drop h (buffer s)) s) = Some (rv, s1)" "buffer s1 = buffer s"
    and go: "rv \<noteq> PROTOCOL_BINARY_RESPONSE_EIO" "rv \<noteq> PROTOCOL_BINARY_RESPONSE_PAUSE"
  obtains h2 s2 where
    "process_loop exec h len l ep s = process_loop exec h2 (len - n) (len - n) (Some h2) s2"
    "h2 + (len - n) \<le> length (buffer s2)" "same_app s2 s1"
    "take (len - n) (drop h2 (buffer s2)) = take (len - n) (drop (h + n) (buffer s))"
proof
  define h2 where "h2 = (if n < len then if (h + n) mod 8 = 0 then h + n else 0 else h)"
  define s2 where "s2 = (if n < len \<and> (h + n) mod 8 \<noteq> 0
    then set_buffer (memmove_front (h + n) (len - n) (buffer s)) s1 else s1)"
  show "process_loop exec h len l ep s = process_loop exec h2 (len - n) (len - n) (Some h2) s2"
    using s1 go n unfolding n_def by (subst process_loop.simps) (simp add: Let_def s2_def h2_def n_def)
  show "h2 + (len - n) \<le> length (buffer s2)"
    and "take (len - n) (drop h2 (buffer s2)) = take (len - n) (drop (h + n) (buffer s))"
    using fits s1(2) n by (auto simp: h2_def s2_def memmove_front_def set_buffer_place)
  show "same_app s2 s1" by (simp add: s2_def set_buffer_place)
qed

lemma run_stream_next:
  fixes h len :: nat and m :: "byte list"
  defines "n \<equiv> packet_total (drop h m)"
  assumes "complete (take len (drop h m))" and n: "24 \<le> len" "n \<le> len"
  shows "run_stream exec (take len (drop h m)) t =
    (case exec (take n (drop h m)) (place (take n (drop h m)) [] t) of
       None \<Rightarrow> None
     | Some (rv, t) \<Rightarrow>
         if rv = PROTOCOL_BINARY_RESPONSE_EIO then Some (MEMCACHED_PROTOCOL_ERROR_EVENT, take len (drop h m), t)
         else if rv = PROTOCOL_BINARY_RESPONSE_PAUSE then Some (MEMCACHED_PROTOCOL_PAUSE_EVENT, take len (drop h m), t)
         else run_stream exec (take (len - n) (drop (h + n) m)) t)"
proof -
  have "packet_total (take len (drop h m)) = n" using n(1) by (simp add: packet_total_take n_def)
  moreover have "take n (take len (drop h m)) = take n (drop h m)"
    "drop n (take len (drop h m)) = take (len - n) (drop (h + n) m)"
    using n(2) by (simp_all add: min_absorb1 drop_take add.commute)
  ultimately show ?thesis
    using assms(2) by (subst run_stream.simps) (simp only: if_True Let_def)
qed

text \<open>
  The loop is the stream: the same packets are executed in the same order, and what is left in the
  buffer when it returns is the rest of the stream.
\<close>

lemma process_loop_stream:
  assumes "packet_local exec" and "h + len \<le> length (buffer s)" and "same_app s t"
  shows "case run_stream exec (take len (drop h (buffer s))) t of
           None \<Rightarrow> process_loop exec h len l ep s = None
         | Some (ev, rest, t') \<Rightarrow> \<exists>l' ep' s'. process_loop exec h len l ep s = Some (ev, l', ep', s') \<and> same_app s' t' \<and>
             (ev \<noteq> MEMCACHED_PROTOCOL_PAUSE_EVENT \<longrightarrow>
              complete (take len (drop h (buffer s))) \<or> l = len \<and> ep = Some h \<longrightarrow> stream_rest l' ep' s' rest)"
  using assms(2,3)
proof (induction len arbitrary: h l ep s t rule: less_induct)
  case (less len)
  let ?b = "drop h (buffer s)" let ?bs = "take len ?b"
  let ?n = "packet_total ?b" let ?p = "take (packet_total ?b) ?b"
  note complete = complete_iff [OF less.prems(1)]
  show ?case
  proof (cases "complete ?bs")
    case False
    with complete less.prems show ?thesis
      by (auto simp: run_stream_stop process_loop_stop stream_rest_def)
  next
    case True
    with complete have n: "24 \<le> len" "?n \<le> len" by simp_all
    have e: "exec ?b (set_command ?b s) = map_option (map_prod id (place ?b (buffer s))) (exec ?p (place ?p [] t))"
      using exec_packet [OF assms(1), of ?b s] n less.prems(1) same_app_exec [OF less.prems(2), of ?p]
      by (simp add: Let_def)
    note stream = run_stream_next [OF True n, of exec t]
    show ?thesis
    proof (cases "exec ?p (place ?p [] t)")
      case None
      with stream e n show ?thesis by (subst process_loop.simps) (simp add: Let_def)
    next
      case (Some x)
      then obtain rv t1 where x: "exec ?p (place ?p [] t) = Some (rv, t1)" by (cases x) auto
      define s1 where "s1 = place ?b (buffer s) t1"
      have s1: "exec ?b (set_command ?b s) = Some (rv, s1)" "buffer s1 = buffer s" "same_app s1 t1"
        using e x by (simp_all add: s1_def)
      consider (eio) "rv = PROTOCOL_BINARY_RESPONSE_EIO" | (pause) "rv = PROTOCOL_BINARY_RESPONSE_PAUSE"
        | (go) "rv \<noteq> PROTOCOL_BINARY_RESPONSE_EIO" "rv \<noteq> PROTOCOL_BINARY_RESPONSE_PAUSE" by blast
      then show ?thesis
      proof cases
        case eio
        with stream x s1 n less.prems(1) show ?thesis
          by (subst process_loop.simps) (simp add: Let_def stream_rest_def)
      next
        case pause
        with stream x s1 n show ?thesis
          by (subst process_loop.simps) (simp add: Let_def)
      next
        case go
        from process_loop_next [where exec = exec and s = s and h = h and len = len and l = l and ep = ep,
            OF less.prems(1) n s1(1,2) go] obtain h2 s2 where
          loop: "process_loop exec h len l ep s = process_loop exec h2 (len - ?n) (len - ?n) (Some h2) s2"
          and fits: "h2 + (len - ?n) \<le> length (buffer s2)" and same: "same_app s2 s1"
          and rest: "take (len - ?n) (drop h2 (buffer s2)) = take (len - ?n) (drop (h + ?n) (buffer s))" by blast
        have "len - ?n < len" using n packet_total_ge [of ?b] by (simp del: packet_total_ge)
        moreover have "same_app s2 t1" using same s1(3) by (simp add: same_app_def)
        ultimately show ?thesis
          using less.IH [of "len - ?n" h2 s2 t1 "len - ?n" "Some h2"] fits
          unfolding rest loop using stream x go by (auto split: option.splits prod.splits)
      qed
    qed
  qed
qed

section \<open>What the handlers use of the client\<close>

text \<open>Sending and spooling neither read nor change the input buffer and the current command.\<close>

definition place_client ::
  "byte list \<Rightarrow> byte list \<Rightarrow> memcached_protocol_client_st \<Rightarrow> memcached_protocol_client_st" where
  "place_client k m c = c\<lparr>root := (root c)\<lparr>input_buffer := m\<rparr>, current_command := k\<rparr>"

lemma place_client_eq: "place k m (a, c) = (a, place_client k m c)"
  by (simp add: place_def place_client_def set_command_def set_buffer_def)

lemma place_client_simps [simp]:
  "client_output (place_client k m c) = client_output c" "sends (place_client k m c) = sends c"
  "mute (place_client k m c) = mute c" "wire (place_client k m c) = wire c"
  "pedantic (root (place_client k m c)) = pedantic (root c)"
  "buffer_cache (root (place_client k m c)) = buffer_cache (root c)"
  "(place_client k m c)\<lparr>sends := ss\<rparr> = place_client k m (c\<lparr>sends := ss\<rparr>)"
  "(place_client k m c)\<lparr>sends := ss, wire := w\<rparr> = place_client k m (c\<lparr>sends := ss, wire := w\<rparr>)"
  "(place_client k m c)\<lparr>client_error := e, sends := ss\<rparr> = place_client k m (c\<lparr>client_error := e, sends := ss\<rparr>)"
  "(place_client k m c)\<lparr>client_output := out\<rparr> = place_client k m (c\<lparr>client_output := out\<rparr>)"
  "(place_client k m c)\<lparr>wire := w\<rparr> = place_client k m (c\<lparr>wire := w\<rparr>)"
  "set_cache p (place_client k m c) = place_client k m (set_cache p c)"
  by (simp_all add: place_client_def set_cache_def)

lemma accepted_place: "accepted E n (place_client k m c) = map_option (place_client k m) (accepted E n c)"
  by (auto simp: accepted_def Let_def option.map_comp comp_def split: list.split)

lemma drain_place:
  "drain_output E (place_client k m c) = map_option (map_prod id (place_client k m)) (drain_output E c)"
proof (induction "sends c" arbitrary: c)
  case Nil
  then show ?case by (subst (1 2) drain_output.simps) (simp flip: Nil)
next
  case (Cons s ss)
  show ?case
  proof (cases s)
    case (Accepts n)
    show ?thesis
    proof (cases "accepted E n (c\<lparr>sends := ss\<rparr>)")
      case None
      with Accepts show ?thesis
        by (subst (1 2) drain_output.simps) (simp add: accepted_place flip: Cons(2))
    next
      case (Some d)
      with accepted_sends [OF Some] Cons(1) [of d] Accepts show ?thesis
        by (subst (1 2) drain_output.simps) (simp add: accepted_place flip: Cons(2))
    qed
  next
    case Interrupted
    with Cons(1) [of "c\<lparr>sends := ss\<rparr>"] show ?thesis
      by (subst (1 2) drain_output.simps) (simp flip: Cons(2))
  qed (subst (1 2) drain_output.simps, simp flip: Cons(2))+
qed

lemma writable_place:
  "writable_chunk E (place_client k m c) i = map_prod id (place_client k m) (writable_chunk E c i)"
  by (auto simp: writable_chunk_def allocate_output_chunk_def split: option.split prod.split)

lemma write_chunk_place: "write_chunk j d (place_client k m c) = place_client k m (write_chunk j d c)"
  by (simp add: write_chunk_def)

lemma spool_loop_place:
  "spool_loop E data offset i (place_client k m c) = map_prod id (place_client k m) (spool_loop E data offset i c)"
proof (induction "length data - offset" arbitrary: offset i c rule: less_induct)
  case less
  show ?case
  proof (cases "offset < length data")
    case True
    obtain r c' where w: "writable_chunk E c i = (r, c')" by (cases "writable_chunk E c i")
    show ?thesis
    proof (cases r)
      case None
      with w True show ?thesis by (simp add: spool_loop_fails writable_place)
    next
      case (Some j)
      let ?bulk = "min (length data - offset) (chunk_room (client_output c' ! j))"
      have "0 < ?bulk" using writable_chunk_room w Some True by simp
      then have "length data - (offset + ?bulk) < length data - offset" using True by linarith
      from less [OF this, of j "write_chunk j (take ?bulk data) c'"] w Some True show ?thesis
        by (simp add: spool_loop_step writable_place write_chunk_place Let_def)
    qed
  qed (simp add: spool_loop_end)
qed

lemma spool_place: "spool_output E (place_client k m c) data = map_prod id (place_client k m) (spool_output E c data)"
  by (simp add: spool_output_def spool_loop_place)

lemma spool_mem_place:
  "spool_mem E (place_client k m c) data n = map_option (map_prod id (place_client k m)) (spool_mem E c data n)"
  by (simp add: spool_mem_def spool_place)

lemma direct_send_accepts:
  assumes "sends c = Accepts n # ss" and "nw = min n (length packet - offset)"
  shows "direct_send packet offset c =
    (if offset + nw < length packet
     then direct_send packet (offset + nw) (c\<lparr>sends := ss, wire := wire c @ take nw (drop offset packet)\<rparr>)
     else (Some (offset + nw), c\<lparr>sends := ss, wire := wire c @ take nw (drop offset packet)\<rparr>))"
  by (subst direct_send.simps) (simp only: assms Let_def list.case send_outcome.case)

lemma direct_send_place:
  "direct_send packet offset (place_client k m c) = map_prod id (place_client k m) (direct_send packet offset c)"
proof (induction "sends c" arbitrary: c offset)
  case Nil
  then show ?case by (subst (1 2) direct_send.simps) (simp flip: Nil)
next
  case (Cons s ss)
  show ?case
  proof (cases s)
    case (Accepts n)
    define nw where "nw = min n (length packet - offset)"
    have "sends c = Accepts n # ss" using Accepts Cons(2) by simp
    with direct_send_accepts [of _ n ss nw packet offset, OF _ nw_def]
      Cons(1) [of "c\<lparr>sends := ss, wire := wire c @ take nw (drop offset packet)\<rparr>" "offset + nw"] show ?thesis
      by simp
  next
    case Interrupted
    with Cons(1) [of "c\<lparr>sends := ss\<rparr>"] show ?thesis
      by (subst (1 2) direct_send.simps) (simp flip: Cons(2))
  qed (subst (1 2) direct_send.simps, simp flip: Cons(2))+
qed

lemma raw_response_place:
  "raw_response_handler E request response (place_client k m c) =
     map_option (map_prod id (place_client k m)) (raw_response_handler E request response c)"
proof -
  have "(case map_prod id (place_client k m) r of
           (None, c) \<Rightarrow> Some (PROTOCOL_BINARY_RESPONSE_EIO, c)
         | (Some offset, c) \<Rightarrow> spool_mem E c response (len - offset)) =
        map_option (map_prod id (place_client k m)) (case r of
           (None, c) \<Rightarrow> Some (PROTOCOL_BINARY_RESPONSE_EIO, c)
         | (Some offset, c) \<Rightarrow> spool_mem E c response (len - offset))" for r len
    by (simp add: spool_mem_place split: prod.split option.split)
  then show ?thesis
    by (cases "drain_output E c")
       (auto simp: raw_response_handler_def drain_place spool_mem_place direct_send_place Let_def split: prod.split)
qed

text \<open>A request is read from its first bytes.\<close>

lemma request_at_append: "24 \<le> length p \<Longrightarrow> request_at (p @ r) = request_at p"
  using request_at_take [of "length p" "p @ r"] request_at_take [of "length p" p] by simp

lemma raw_response_append:
  "24 \<le> length p \<Longrightarrow> raw_response_handler E (p @ r) response = raw_response_handler E p response"
  by (rule ext) (simp add: raw_response_handler_def request_at_append)

lemma on_client_place:
  assumes "\<And>c. f (place_client k m c) = map_option (map_prod id (place_client k m)) (f c)"
  shows "on_client f (place k m s) = map_option (map_prod id (place k m)) (on_client f s)"
  by (cases s) (auto simp: place_client_eq on_client_def assms option.map_comp comp_def map_prod_def case_prod_unfold)

text \<open>
  An application without callbacks but those that observe the connection: every command is
  answered by the library, with a response for \<open>noop\<close> and \<open>quit\<close>, and an error for the others.
\<close>

definition no_callbacks :: "'a callback_v1" where
  "no_callbacks =
     \<lparr>v1_add = None, v1_append = None, v1_decrement = None, v1_delete = None, v1_flush = None, v1_get = None,
      v1_increment = None, v1_noop = None, v1_prepend = None, v1_quit = None, v1_replace = None, v1_set = None,
      v1_stat = None, v1_version = None\<rparr>"

definition bare_application :: "'a callback_st" where
  "bare_application =
     \<lparr>interface_version = 1, pre_execute = None, post_execute = None, unknown = None, v0 = (\<lambda>_. None),
      v1 = no_callbacks\<rparr>"

lemma bare_execute_handler:
  "execute_handler E bare_application header s =
     (if req_opcode (request_at header) = PROTOCOL_BINARY_CMD_NOOP
      then on_client (raw_response_handler E header (no_extras PROTOCOL_BINARY_CMD_NOOP header 0)) s
      else if req_opcode (request_at header) = PROTOCOL_BINARY_CMD_QUIT
      then map_option (\<lambda>(_, s). (PROTOCOL_BINARY_RESPONSE_EIO, s))
             (on_client (raw_response_handler E header (no_extras PROTOCOL_BINARY_CMD_QUIT header 0)) s)
      else if req_opcode (request_at header) = PROTOCOL_BINARY_CMD_QUITQ then Some (PROTOCOL_BINARY_RESPONSE_EIO, s)
      else Some (PROTOCOL_BINARY_RESPONSE_UNKNOWN_COMMAND, s))"
  by (auto simp: execute_handler_def bare_application_def no_callbacks_def comcode_v0_v1_remap_def Let_def
        add_command_handler_def append_command_handler_def decrement_command_handler_def delete_command_handler_def
        flush_command_handler_def get_command_handler_def increment_command_handler_def noop_command_handler_def
        prepend_command_handler_def quit_command_handler_def replace_command_handler_def set_command_handler_def
        stat_command_handler_def version_command_handler_def case_prod_unfold map_conv_bind_option comp_def)

lemma bare_handler_place:
  "execute_handler E bare_application header (place k m s) =
     map_option (map_prod id (place k m)) (execute_handler E bare_application header s)"
  by (simp add: bare_execute_handler on_client_place raw_response_place option.map_comp comp_def case_prod_unfold)

lemma bare_handler_append:
  "24 \<le> length p \<Longrightarrow> execute_handler E bare_application (p @ r) = execute_handler E bare_application p"
  by (rule ext) (simp add: bare_execute_handler request_at_append raw_response_append no_extras_def)

lemma bare_execute:
  "execute_command E bare_application header s =
     (case execute_handler E bare_application header s of
        None \<Rightarrow> None
      | Some (rval, s) \<Rightarrow>
          if rval \<noteq> PROTOCOL_BINARY_RESPONSE_SUCCESS \<and> rval \<noteq> PROTOCOL_BINARY_RESPONSE_EIO
             \<and> rval \<noteq> PROTOCOL_BINARY_RESPONSE_PAUSE
          then on_client (raw_response_handler E header
                 (error_response (req_opcode (request_at header)) rval header)) s
          else Some (rval, s))"
  by (cases "execute_handler E bare_application header s")
     (auto simp: execute_command_def bare_application_def Let_def)

lemma bare_packet_local: "packet_local (execute_command E bare_application :: byte list \<Rightarrow> ('a, status) act)"
proof -
  have local: "execute_command E bare_application header (place k m s) =
      map_option (map_prod id (place k m)) (execute_command E bare_application header s)"
    for header k m and s :: "'a conn"
    by (cases "execute_handler E bare_application header s")
       (auto simp: bare_execute bare_handler_place on_client_place raw_response_place)
  have append: "execute_command E bare_application (p @ r) (s :: 'a conn) = execute_command E bare_application p s"
    if "24 \<le> length p" for p r s
    using that
    by (simp add: bare_execute bare_handler_append request_at_append raw_response_append error_response_def
        cong: if_cong option.case_cong)
  show ?thesis
    unfolding packet_local_def local [of _ "_ @ _"] local [of _ _ "[]"]
    by (simp add: append local option.map_comp comp_def map_prod_def case_prod_unfold)
qed


text \<open>Two packets, \<open>quitq\<close> and the start of another, which stays in the buffer.\<close>

definition quitq_packet :: "byte list" where
  "quitq_packet = [0x80, 0x17, 0, 0, 0, 0, 0, 0, 0, 0, 0, 0, 7, 0, 0, 0, 0, 0, 0, 0, 0, 0, 0, 0]"


end
