(* ===== verification/Binary_Execute.thy ===== *)
theory Binary_Execute
  imports Binary_Process
begin

text \<open>
  What the command handlers of \<open>protocol/binary_handler.c\<close> send, and when they leave the packet.
\<close>

section \<open>Responses and the pedantic check\<close>

text \<open>A response handler that is only given responses the specification allows.\<close>

definition checked :: "raw_response \<Rightarrow> raw_response" where
  "checked R request response c =
     (if pedantic_check_response (request_at request) (response_at response) then R request response c else None)"

lemma response_at_bytes [simp]: "response_at (response_bytes h) = h"
  using response_roundtrip [of h "[]"] by simp

lemma ntohll_0 [simp]: "ntohll 0 = 0"
  by (simp add: ntohll_def swap64_unrolled)

lemma ntohll_eq_0 [simp]: "ntohll c = 0 \<longleftrightarrow> c = 0"
  using byteorder_inverse(7) [of c] by (cases "ntohll c = 0") auto

lemma checked_no_extras:
  assumes "op \<in> {PROTOCOL_BINARY_CMD_ADD, PROTOCOL_BINARY_CMD_REPLACE, PROTOCOL_BINARY_CMD_SET,
                 PROTOCOL_BINARY_CMD_APPEND, PROTOCOL_BINARY_CMD_PREPEND} \<and> cas \<noteq> 0
         \<or> op \<in> {PROTOCOL_BINARY_CMD_FLUSH, PROTOCOL_BINARY_CMD_NOOP, PROTOCOL_BINARY_CMD_QUIT,
                  PROTOCOL_BINARY_CMD_DELETE} \<and> cas = 0"
  shows "checked R header (no_extras op header cas) = R header (no_extras op header cas)"
  using assms
  by (intro ext) (auto simp: checked_def no_extras_def zero_response_def pedantic_check_response_def Let_def)

lemma checked_counter:
  assumes "op \<in> {PROTOCOL_BINARY_CMD_INCREMENT, PROTOCOL_BINARY_CMD_DECREMENT}" and "cas \<noteq> 0"
  shows "checked R header (counter_response op header result cas) = R header (counter_response op header result cas)"
  using assms
  by (intro ext) (auto simp: checked_def counter_response_def zero_response_def pedantic_check_response_def Let_def)

text \<open>The \<open>CAS\<close> values of the application are not zero when it reports success.\<close>

definition gives_cas :: "('a, status \<times> u64) act \<Rightarrow> bool" where
  "gives_cas f \<longleftrightarrow> (\<forall>s cas s'. f s = Some ((PROTOCOL_BINARY_RESPONSE_SUCCESS, cas), s') \<longrightarrow> cas \<noteq> 0)"

definition gives_cas2 :: "('a, status \<times> u64 \<times> u64) act \<Rightarrow> bool" where
  "gives_cas2 f \<longleftrightarrow> (\<forall>s x cas s'. f s = Some ((PROTOCOL_BINARY_RESPONSE_SUCCESS, x, cas), s') \<longrightarrow> cas \<noteq> 0)"

definition cas_application :: "'a callback_st \<Rightarrow> bool" where
  "cas_application cb \<longleftrightarrow>
     (\<forall>f k kl d dl fl t. v1_add (v1 cb) = Some f \<longrightarrow> gives_cas (f k kl d dl fl t)) \<and>
     (\<forall>f k kl d dl cas. v1_append (v1 cb) = Some f \<longrightarrow> gives_cas (f k kl d dl cas)) \<and>
     (\<forall>f k kl d dl cas. v1_prepend (v1 cb) = Some f \<longrightarrow> gives_cas (f k kl d dl cas)) \<and>
     (\<forall>f k kl d dl fl t cas. v1_set (v1 cb) = Some f \<longrightarrow> gives_cas (f k kl d dl fl t cas)) \<and>
     (\<forall>f k kl d dl fl t cas. v1_replace (v1 cb) = Some f \<longrightarrow> gives_cas (f k kl d dl fl t cas)) \<and>
     (\<forall>f k kl delta init t. v1_increment (v1 cb) = Some f \<longrightarrow> gives_cas2 (f k kl delta init t)) \<and>
     (\<forall>f k kl delta init t. v1_decrement (v1 cb) = Some f \<longrightarrow> gives_cas2 (f k kl delta init t))"

text \<open>The response is sent behind the callback.\<close>

lemma checked_after:
  assumes "gives_cas f" and "op \<in> {PROTOCOL_BINARY_CMD_ADD, PROTOCOL_BINARY_CMD_REPLACE, PROTOCOL_BINARY_CMD_SET,
                 PROTOCOL_BINARY_CMD_APPEND, PROTOCOL_BINARY_CMD_PREPEND}"
  shows "Option.bind (f s) (\<lambda>((rval, cas), s).
           if rval = PROTOCOL_BINARY_RESPONSE_SUCCESS \<and> P
           then on_client (checked R header (no_extras op header cas)) s else Some (rval, s)) =
         Option.bind (f s) (\<lambda>((rval, cas), s).
           if rval = PROTOCOL_BINARY_RESPONSE_SUCCESS \<and> P
           then on_client (R header (no_extras op header cas)) s else Some (rval, s))"
proof (cases "f s")
  case (Some x)
  then obtain rval cas s' where x: "f s = Some ((rval, cas), s')" by (cases x) auto
  with assms(1) have "rval = PROTOCOL_BINARY_RESPONSE_SUCCESS \<Longrightarrow> cas \<noteq> 0" unfolding gives_cas_def by blast
  with x checked_no_extras [of op cas R header] assms(2) show ?thesis by auto
qed simp

lemma checked_counter_after:
  assumes "gives_cas2 f" and "op \<in> {PROTOCOL_BINARY_CMD_INCREMENT, PROTOCOL_BINARY_CMD_DECREMENT}"
  shows "Option.bind (f s) (\<lambda>((rval, result, cas), s).
           if rval = PROTOCOL_BINARY_RESPONSE_SUCCESS \<and> P
           then on_client (checked R header (counter_response op header result cas)) s else Some (rval, s)) =
         Option.bind (f s) (\<lambda>((rval, result, cas), s).
           if rval = PROTOCOL_BINARY_RESPONSE_SUCCESS \<and> P
           then on_client (R header (counter_response op header result cas)) s else Some (rval, s))"
proof (cases "f s")
  case (Some x)
  then obtain rval result cas s' where x: "f s = Some ((rval, result, cas), s')" by (cases x) auto
  with assms(1) have "rval = PROTOCOL_BINARY_RESPONSE_SUCCESS \<Longrightarrow> cas \<noteq> 0" unfolding gives_cas2_def by blast
  with x checked_counter [of op cas R header result] assms(2) show ?thesis by auto
qed simp

lemmas handler_defs = add_command_handler_def append_command_handler_def decrement_command_handler_def
  delete_command_handler_def flush_command_handler_def get_command_handler_def increment_command_handler_def
  noop_command_handler_def prepend_command_handler_def quit_command_handler_def replace_command_handler_def
  set_command_handler_def stat_command_handler_def version_command_handler_def


text \<open>
  the quiet variants of the commands that change something never send a response themselves.
\<close>

lemma quiet_commands_silent:
  assumes "cc \<in> {PROTOCOL_BINARY_CMD_ADDQ, PROTOCOL_BINARY_CMD_APPENDQ, PROTOCOL_BINARY_CMD_DECREMENTQ,
                 PROTOCOL_BINARY_CMD_DELETEQ, PROTOCOL_BINARY_CMD_FLUSHQ, PROTOCOL_BINARY_CMD_INCREMENTQ,
                 PROTOCOL_BINARY_CMD_PREPENDQ, PROTOCOL_BINARY_CMD_QUITQ, PROTOCOL_BINARY_CMD_REPLACEQ,
                 PROTOCOL_BINARY_CMD_SETQ}"
    and "req_opcode (request_at header) = cc" and "comcode_v0_v1_remap E cb cc = Some handler"
  shows "handler header R s = handler header (\<lambda>request response c. None) s"
  using assms
  by (elim insertE emptyE) (auto simp: comcode_v0_v1_remap_def handler_defs Let_def split: option.split)

section \<open>Sending a response\<close>

lemma spool_loop_wire: "wire (snd (spool_loop E data offset i c)) = wire c"
proof (induction "length data - offset" arbitrary: offset i c rule: less_induct)
  case less
  show ?case
  proof (cases "offset < length data")
    case True
    obtain r c' where w: "writable_chunk E c i = (r, c')" by (cases "writable_chunk E c i")
    then have wire: "wire c' = wire c"
      by (auto simp: writable_chunk_def allocate_output_chunk_def split: if_splits option.splits prod.splits)
    show ?thesis
    proof (cases r)
      case None
      with w True wire show ?thesis by (simp add: spool_loop_fails)
    next
      case (Some j)
      let ?bulk = "min (length data - offset) (chunk_room (client_output c' ! j))"
      have "0 < ?bulk" using writable_chunk_room w Some True by simp
      then have "length data - (offset + ?bulk) < length data - offset" using True by linarith
      from less [OF this, of j "write_chunk j (take ?bulk data) c'"] w Some True wire show ?thesis
        by (simp add: spool_loop_step Let_def write_chunk_def)
    qed
  qed (simp add: spool_loop_end)
qed

lemma spool_output_wire [simp]: "wire (snd (spool_output E c data)) = wire c"
  by (simp add: spool_output_def spool_loop_wire)

lemma spool_empty:
  assumes "\<And>n. env_malloc E n" and "constructor (buffer_cache (root c)) = None" and "client_output c = []" and "\<not> mute c"
    and len: "length data \<le> CHUNK_BUFFERSIZE"
  shows "fst (spool_output E c data) = PROTOCOL_BINARY_RESPONSE_SUCCESS \<and> pending (snd (spool_output E c data)) = data"
proof -
  have "map (\<lambda>k. data ! (k mod CHUNK_BUFFERSIZE)) [0 ..< 0 + length data] = take (length data) data"
    by (rule take_blocks) (use len in simp_all)
  moreover have "fst (spool_loop E data 0 0 c) = PROTOCOL_BINARY_RESPONSE_SUCCESS"
    by (rule spool_loop_succeeds) (use assms in simp_all)
  ultimately show ?thesis
    using spool_loop_blocks [of 0 c 0 data E] assms(3,4) by (simp add: spool_output_def pending_def)
qed

lemma direct_send_completes:
  assumes "offset < length packet" and "\<forall>s \<in> set (sends c). is_accept s \<or> s = Interrupted"
    and "length packet - offset \<le> length (filter is_accept (sends c))"
  shows "\<exists>c'. direct_send packet offset c = (Some (length packet), c') \<and>
           wire c' = wire c @ drop offset packet \<and> client_output c' = client_output c"
  using assms
proof (induction "sends c" arbitrary: c offset)
  case (Cons s ss)
  have s: "is_accept s \<or> s = Interrupted" and ss: "\<forall>s \<in> set ss. is_accept s \<or> s = Interrupted"
    using Cons.prems(2) by (simp_all flip: Cons(2))
  show ?case
  proof (cases s)
    case (Accepts n)
    define nw where "nw = min n (length packet - offset)"
    let ?c = "c\<lparr>sends := ss, wire := wire c @ take nw (drop offset packet)\<rparr>"
    have n: "0 < n" using s Accepts by (simp add: is_accept_def)
    have step: "direct_send packet offset c =
        (if offset + nw < length packet then direct_send packet (offset + nw) ?c else (Some (offset + nw), ?c))"
      using Accepts Cons(2) by (intro direct_send_accepts) (simp_all add: nw_def)
    have len: "length packet - offset \<le> Suc (length (filter is_accept ss))"
      using Cons.prems(3) Accepts n by (simp add: is_accept_def flip: Cons(2))
    have pos: "0 < nw" "nw \<le> length packet - offset" using n Cons.prems(1) by (simp_all add: nw_def)
    have split: "take nw (drop offset packet) @ drop (offset + nw) packet = drop offset packet"
      by (metis append_take_drop_id drop_drop add.commute)
    show ?thesis
    proof (cases "offset + nw < length packet")
      case True
      with Cons.hyps(1) [of ?c "offset + nw"] ss len pos step split show ?thesis by fastforce
    next
      case False
      with step pos split show ?thesis by simp
    qed
  next
    case Interrupted
    with Cons.hyps(1) [of "c\<lparr>sends := ss\<rparr>" offset] Cons.prems ss show ?thesis
      by (subst direct_send.simps) (simp add: is_accept_def flip: Cons(2))
  qed (use s in \<open>simp_all add: is_accept_def\<close>)
qed simp

definition response_length :: "byte list \<Rightarrow> nat" where
  "response_length response = 24 + unat (htonl (res_bodylen (response_at response)))"

lemma drain_empty: "client_output c = [] \<Longrightarrow> drain_output E c = Some (True, c)"
  by (subst drain_output.simps) simp

lemma raw_response_empty:
  assumes "client_output c = []" and "response_length response \<le> length response"
    and "\<not> (pedantic (root c) \<and> \<not> pedantic_check_response (request_at request) (response_at response))"
  shows "raw_response_handler E request response c =
    (case direct_send (take (response_length response) response) 0 c of
       (None, c) \<Rightarrow> Some (PROTOCOL_BINARY_RESPONSE_EIO, c)
     | (Some offset, c) \<Rightarrow> spool_mem E c response (response_length response - offset))"
  using assms unfolding response_length_def by (auto simp: raw_response_handler_def drain_empty Let_def)

lemma raw_response_refused:
  "24 \<le> length response \<Longrightarrow> pedantic (root c) \<Longrightarrow> \<not> pedantic_check_response (request_at request) (response_at response) \<Longrightarrow>
   raw_response_handler E request response c = Some (PROTOCOL_BINARY_RESPONSE_EINVAL, c)"
  by (simp add: raw_response_handler_def)

text \<open>
  C34: a response for a client without pending output goes to a socket that keeps accepting data,
  whole and straight, in pieces of any size; in pedantic mode a response that breaks the
  specification is refused, and nothing is sent.
\<close>

lemma raw_response_delivered:
  assumes "client_output c = []" and "response_length response \<le> length response"
    and "\<forall>s \<in> set (sends c). is_accept s \<or> s = Interrupted"
    and "response_length response \<le> length (filter is_accept (sends c))"
  shows "\<exists>r c'. raw_response_handler E request response c = Some (r, c') \<and> client_output c' = [] \<and>
           (if pedantic (root c) \<and> \<not> pedantic_check_response (request_at request) (response_at response)
            then r = PROTOCOL_BINARY_RESPONSE_EINVAL \<and> c' = c
            else r = PROTOCOL_BINARY_RESPONSE_SUCCESS \<and> wire c' = wire c @ take (response_length response) response)"
proof (cases "pedantic (root c) \<and> \<not> pedantic_check_response (request_at request) (response_at response)")
  case True
  with raw_response_refused [of response c request E] assms show ?thesis by (simp add: response_length_def)
next
  case False
  let ?packet = "take (response_length response) response"
  have len: "length ?packet = response_length response" "0 < length ?packet"
    using assms(2) by (simp_all add: response_length_def)
  from direct_send_completes [OF len(2) assms(3)] len(1) assms(4) obtain c' where
    "direct_send ?packet 0 c = (Some (length ?packet), c')" "wire c' = wire c @ ?packet" "client_output c' = client_output c"
    by auto
  with raw_response_empty [OF assms(1,2) False, of E] len(1) assms(1) False show ?thesis
    by (auto simp: spool_mem_def spool_output_def)
qed

text \<open>
  when the socket takes only the first \<open>k\<close> bytes of a response and then blocks, what is left to
  send is spooled from the start of the packet instead of from byte \<open>k\<close>: the client is sent the
  first bytes of the packet twice, and never its last ones.
\<close>

lemma raw_response_partial:
  assumes "client_output c = []" and "\<not> mute c" and "\<not> pedantic (root c)" and "sends c = [Accepts k]"
    and "0 < k" and "k < response_length response" and "response_length response \<le> length response"
    and "response_length response - k \<le> CHUNK_BUFFERSIZE"
    and "\<And>n. env_malloc E n" and "constructor (buffer_cache (root c)) = None"
  shows "\<exists>c'. raw_response_handler E request response c = Some (PROTOCOL_BINARY_RESPONSE_SUCCESS, c') \<and>
           wire c' @ pending c' = wire c @ take k response @ take (response_length response - k) response"
proof -
  let ?n = "response_length response"
  let ?c = "c\<lparr>sends := [], wire := wire c @ take k response\<rparr>"
  let ?data = "take (?n - k) response"
  have nw: "k = min k (length (take ?n response) - 0)" using assms(6,7) by simp
  have "direct_send (take ?n response) 0 c = direct_send (take ?n response) k ?c"
    using direct_send_accepts [OF assms(4) nw] assms(6,7) by (simp add: min_absorb1)
  also have "\<dots> = (Some k, ?c)" by (subst direct_send.simps) simp
  finally have "raw_response_handler E request response c = Some (spool_output E ?c ?data)"
    using raw_response_empty [OF assms(1,7)] assms(2,3,5-7) by (simp add: spool_mem_def)
  moreover have "fst (spool_output E ?c ?data) = PROTOCOL_BINARY_RESPONSE_SUCCESS \<and> pending (snd (spool_output E ?c ?data)) = ?data"
    by (rule spool_empty) (use assms in simp_all)
  ultimately show ?thesis by (cases "spool_output E ?c ?data") (auto dest: arg_cong [of _ _ "\<lambda>x. wire (snd x)"])
qed

section \<open>A request that is shorter than its handler expects\<close>

text \<open>
  C36: a \<open>set\<close> packet without a body makes the length of the data wrap around: the callback is told that
  it has four gigabytes less eight bytes of data, and an application that reads its data leaves
  the input buffer, in pedantic mode too, because the result of the request check is not used.
\<close>

lemma set_without_body:
  assumes "req_opcode (request_at header) \<in> {PROTOCOL_BINARY_CMD_SET, PROTOCOL_BINARY_CMD_SETQ}"
    and "req_keylen (request_at header) = 0" and "req_bodylen (request_at header) = 0"
    and "interface_version cb = 1" and "pre_execute cb = None" and "v1_set (v1 cb) = Some f"
    and reads: "\<And>key keylen data datalen flags timeout cas s.
                  length data < unat datalen \<Longrightarrow> f key keylen data datalen flags timeout cas s = None"
    and "length header \<le> 1048576"
  shows "execute_command E cb header s = None \<and> \<not> pedantic_check_request (request_at header)"
proof -
  have zero: "ntohs 0 = 0" "ntohl 0 = 0"
    by (simp_all add: ntohs_def ntohl_def bswap16_def bswap32_def le16_def le32_def byte_of_def)
  have "length (drop 32 header) < unat (- 8 :: u32)" using assms(8) by simp
  then have "set_command_handler cb header R s = None" for R
    using assms(2,3,6) reads by (cases "rd32 header 24"; cases "rd32 header 28") (simp_all add: set_command_handler_def zero Let_def)
  moreover have "comcode_v0_v1_remap E cb (req_opcode (request_at header)) = Some (set_command_handler cb)"
    using assms(1) by (auto simp: comcode_v0_v1_remap_def)
  ultimately have "execute_handler E cb header s = None"
    using assms(4) by (simp add: execute_handler_def Let_def)
  moreover have "\<not> pedantic_check_request (request_at header)"
    using assms(1-3) by (auto simp: pedantic_check_request_def zero Let_def)
  ultimately show ?thesis
    using assms(5) by (simp add: execute_command_def Let_def)
qed

section \<open>Witnesses\<close>

text \<open>An application that stores one value, with \<open>CAS\<close> value 1.\<close>

definition one_value :: "(byte list) callback_st" where
  "one_value = bare_application\<lparr>v1 := no_callbacks\<lparr>v1_set := Some (\<lambda>key keylen data datalen flags timeout cas s.
     if length data < unat datalen then None
     else Some ((PROTOCOL_BINARY_RESPONSE_SUCCESS, 1), take (unat datalen) data, snd s))\<rparr>\<rparr>"

lemma one_value_simps [simp]:
  "interface_version one_value = 1" "pre_execute one_value = None"
  "v1_set (v1 one_value) = Some (\<lambda>key keylen data datalen flags timeout cas s.
     if length data < unat datalen then None
     else Some ((PROTOCOL_BINARY_RESPONSE_SUCCESS, 1), take (unat datalen) data, snd s))"
  by (simp_all add: one_value_def bare_application_def)

lemma one_value_cas: "cas_application one_value"
  by (simp add: cas_application_def one_value_def bare_application_def no_callbacks_def gives_cas_def)

definition set_header :: "byte \<Rightarrow> byte list" where
  "set_header opcode = [0x80, opcode, 0, 0, 0, 0, 0, 0, 0, 0, 0, 0, 7, 0, 0, 0, 0, 0, 0, 0, 0, 0, 0, 0]"

lemma set_header_simps [simp]:
  "req_opcode (request_at (set_header op)) = op" "req_keylen (request_at (set_header op)) = 0"
  "req_bodylen (request_at (set_header op)) = 0" "length (set_header op) = 24"
  by (simp_all add: set_header_def request_at_def ld_le16_def ld_le32_def le16_def le32_def)


lemma quiet_commands_silent_witness:
  "set_command_handler one_value (set_header PROTOCOL_BINARY_CMD_SETQ) (raw_response_handler all_memory) ([], new_client) =
   set_command_handler one_value (set_header PROTOCOL_BINARY_CMD_SETQ) (\<lambda>request response c. None) ([], new_client)"
  by (rule quiet_commands_silent [of PROTOCOL_BINARY_CMD_SETQ _ all_memory one_value]) (simp_all add: comcode_v0_v1_remap_def)

lemma set_without_body_witness:
  "execute_command all_memory one_value (set_header PROTOCOL_BINARY_CMD_SET) ([], new_client) = None"
  using set_without_body [of "set_header PROTOCOL_BINARY_CMD_SET" one_value _ all_memory "([], new_client)"] by simp

definition sample_response :: "byte list" where
  "sample_response = no_extras PROTOCOL_BINARY_CMD_NOOP (set_header PROTOCOL_BINARY_CMD_NOOP) 0"

lemma sample_response_simps [simp]: "length sample_response = 24" "response_length sample_response = 24"
  by (simp_all add: sample_response_def no_extras_def response_length_def zero_response_def
        htonl_def bswap32_def le32_def byte_of_def)

lemma new_client_pedantic [simp]: "\<not> pedantic (root new_client)"
  by (simp add: new_client_def)

lemma raw_response_delivered_witness:
  "\<exists>r c'. raw_response_handler all_memory [] sample_response (new_client\<lparr>sends := replicate 24 (Accepts 10)\<rparr>) = Some (r, c') \<and>
     wire c' = sample_response"
  using raw_response_delivered [of "new_client\<lparr>sends := replicate 24 (Accepts 10)\<rparr>" sample_response all_memory "[]"]
  by (auto simp: is_accept_def)

lemma raw_response_partial_witness:
  "\<exists>c'. raw_response_handler all_memory [] sample_response (new_client\<lparr>sends := [Accepts 3]\<rparr>) =
           Some (PROTOCOL_BINARY_RESPONSE_SUCCESS, c') \<and>
         wire c' @ pending c' = take 3 sample_response @ take 21 sample_response"
  using raw_response_partial [of "new_client\<lparr>sends := [Accepts 3]\<rparr>" 3 sample_response all_memory "[]"]
  by (simp add: CHUNK_BUFFERSIZE_def all_memory_def)

end
