(* ===== verification/Ascii_Handler.thy ===== *)
theory Ascii_Handler
  imports Binary_Execute
begin

text \<open>
  The text protocol of the protocol server, \<open>protocol/ascii_handler.c\<close>, on top of the callbacks of the
  version 1 interface. A \<open>char *\<close> is an offset into the input buffer, which the tokenizer writes to;
  what is passed to a callback is the memory from there on. \<open>None\<close> is undefined behaviour: an access
  outside of the memory that is there, or \<open>abort\<close>.
\<close>

definition crlf :: "byte list" where "crlf = [13, 10]"

section \<open>Keys\<close>

text \<open>The two loops of the key parser; \<open>len\<close> has 16 bits.\<close>

function skip_space :: "byte list \<Rightarrow> nat \<Rightarrow> nat option" where
  "skip_space m c =
     (if c < length m then if isspace (m ! c) then skip_space m (c + 1) else Some c else None)"
  by pat_completeness auto
termination by (relation "measure (\<lambda>(m, c). length m - c)") auto

function scan_key :: "byte list \<Rightarrow> nat \<Rightarrow> u16 \<Rightarrow> (nat \<times> u16) option" where
  "scan_key m c len =
     (if c < length m
      then if m ! c \<noteq> 0 \<and> \<not> isspace (m ! c) \<and> \<not> iscntrl (m ! c) then scan_key m (c + 1) (len + 1)
           else Some (c, len)
      else None)"
  by pat_completeness auto
termination by (relation "measure (\<lambda>(m, c, len). length m - c)") auto

declare skip_space.simps [simp del] scan_key.simps [simp del]

definition parse_ascii_key :: "byte list \<Rightarrow> nat \<Rightarrow> (u16 \<times> nat) option" where
  "parse_ascii_key m start = do {
     start \<leftarrow> skip_space m start;
     (c, len) \<leftarrow> scan_key m start 0;
     Some (if len = 0 \<or> 240 < len \<or> m ! c \<noteq> 0 \<and> m ! c \<noteq> 13 \<and> iscntrl (m ! c) then 0 else len, start)
   }"

section \<open>Responses\<close>

definition spool_string ::
  "proto_env \<Rightarrow> byte list \<Rightarrow> memcached_protocol_client_st \<Rightarrow> memcached_protocol_client_st" where
  "spool_string E txt c = snd (spool_output E c txt)"

definition say :: "proto_env \<Rightarrow> byte list \<Rightarrow> 'a conn \<Rightarrow> 'a conn" where
  "say E txt s = (fst s, spool_string E txt (snd s))"

definition errmsg :: "ascii_cmd \<Rightarrow> byte list" where
  "errmsg cmd =
     (case cmd of
        GET_CMD \<Rightarrow> bytes ''CLIENT_ERROR: Syntax error: get <key>*'' @ crlf
      | GETS_CMD \<Rightarrow> bytes ''CLIENT_ERROR: Syntax error: gets <key>*'' @ crlf
      | SET_CMD \<Rightarrow> bytes ''CLIENT_ERROR: Syntax error: set <key> <flags> <exptime> <bytes> [noreply]'' @ crlf
      | ADD_CMD \<Rightarrow> bytes ''CLIENT_ERROR: Syntax error: add <key> <flags> <exptime> <bytes> [noreply]'' @ crlf
      | REPLACE_CMD \<Rightarrow> bytes ''CLIENT_ERROR: Syntax error: replace <key> <flags> <exptime> <bytes> [noreply]'' @ crlf
      | CAS_CMD \<Rightarrow> bytes ''CLIENT_ERROR: Syntax error: cas <key> <flags> <exptime> <bytes> <casid> [noreply]'' @ crlf
      | APPEND_CMD \<Rightarrow> bytes ''CLIENT_ERROR: Syntax error: append <key> <flags> <exptime> <bytes> [noreply]'' @ crlf
      | PREPEND_CMD \<Rightarrow> bytes ''CLIENT_ERROR: Syntax error: prepend <key> <flags> <exptime> <bytes> [noreply]'' @ crlf
      | DELETE_CMD \<Rightarrow> bytes ''CLIENT_ERROR: Syntax error: delete <key> [noreply]'' @ crlf
      | INCR_CMD \<Rightarrow> bytes ''CLIENT_ERROR: Syntax error: incr <key> <value> [noreply]'' @ crlf
      | DECR_CMD \<Rightarrow> bytes ''CLIENT_ERROR: Syntax error: decr <key> <value> [noreply]'' @ crlf
      | STATS_CMD \<Rightarrow> bytes ''CLIENT_ERROR: Syntax error: stats [key]'' @ crlf
      | FLUSH_ALL_CMD \<Rightarrow> bytes ''CLIENT_ERROR: Syntax error: flush_all [timeout] [noreply]'' @ crlf
      | VERSION_CMD \<Rightarrow> bytes ''CLIENT_ERROR: Syntax error: version'' @ crlf
      | QUIT_CMD \<Rightarrow> bytes ''CLIENT_ERROR: Syntax error: quit'' @ crlf
      | VERBOSITY_CMD \<Rightarrow> bytes ''CLIENT_ERROR: Syntax error: verbosity <num>'' @ crlf
      | UNKNOWN_CMD \<Rightarrow> bytes ''CLIENT_ERROR: Unknown command'' @ crlf)"

definition send_command_usage :: "proto_env \<Rightarrow> 'a conn \<Rightarrow> 'a conn" where
  "send_command_usage E s =
     (let c = (snd s)\<lparr>mute := False\<rparr> in (fst s, spool_string E (errmsg (ascii_command c)) c))"

definition ascii_version_response_handler :: "proto_env \<Rightarrow> version_response" where
  "ascii_version_response_handler E txt textlen c = do {
     (_, c) \<leftarrow> spool_mem E (spool_string E (bytes ''VERSION '') c) txt (unat textlen);
     Some (PROTOCOL_BINARY_RESPONSE_SUCCESS, spool_string E crlf c)
   }"

text \<open>
  The header of a value is built in \<open>char buffer[300]\<close>. The key may not overrun it; \<open>snprintf\<close> cuts
  off what does not fit behind the key, and needs a byte for the end of the string.
\<close>

definition value_header :: "byte list \<Rightarrow> byte list \<Rightarrow> byte list option" where
  "value_header key rest =
     (let used = 6 + length key
      in if 300 \<le> used then None else Some (bytes ''VALUE '' @ key @ take (300 - used - 1) rest))"

definition ascii_get_response_handler :: "proto_env \<Rightarrow> get_response" where
  "ascii_get_response_handler E key keylen body bodylen flags cas c =
     (let k = take (unat keylen) key;
          good = takeWhile (\<lambda>b. b \<noteq> 0 \<and> \<not> isspace b \<and> \<not> iscntrl b) k;
          sp = [32]; flags_txt = dec_digits (unat flags); len_txt = dec_digits (unat bodylen)
      in if 294 < length good then None
         else if length good < length k then Some (PROTOCOL_BINARY_RESPONSE_EINVAL, c)
         else if length k < unat keylen then None
         else do {
           buffer \<leftarrow> value_header k
             (if ascii_command c = GETS_CMD
              then sp @ flags_txt @ sp @ len_txt @ sp @ dec_digits (unat cas) @ crlf
              else sp @ flags_txt @ sp @ len_txt @ crlf);
           (_, c) \<leftarrow> spool_mem E (spool_string E buffer c) body (unat bodylen);
           Some (PROTOCOL_BINARY_RESPONSE_SUCCESS, spool_string E crlf c)
         })"

definition ascii_stat_response_handler :: "proto_env \<Rightarrow> stat_response" where
  "ascii_stat_response_handler E key keylen body bodylen c =
     (case key of
        Some key \<Rightarrow> do {
          (_, c) \<leftarrow> spool_mem E (spool_string E (bytes ''STAT '') c) key (unat keylen);
          (_, c) \<leftarrow> spool_mem E (spool_string E (bytes '' '') c) body (unat bodylen);
          Some (PROTOCOL_BINARY_RESPONSE_SUCCESS, spool_string E crlf c)
        }
      | None \<Rightarrow> Some (PROTOCOL_BINARY_RESPONSE_SUCCESS, spool_string E (bytes ''END'' @ crlf) c))"

section \<open>Retrieval\<close>

text \<open>The keys of a line; the result counts them.\<close>

lemma skip_space_le: "skip_space m c = Some d \<Longrightarrow> c \<le> d"
proof (induction m c rule: skip_space.induct)
  case (1 m c)
  then show ?case by (subst (asm) (2) skip_space.simps) (auto split: if_splits)
qed

lemma parse_ascii_key_le: "parse_ascii_key m p = Some (n, q) \<Longrightarrow> p \<le> q"
  by (auto simp: parse_ascii_key_def bind_eq_Some_conv dest: skip_space_le)

function gets_loop ::
  "proto_env \<Rightarrow> (byte list \<Rightarrow> u16 \<Rightarrow> get_response \<Rightarrow> ('a, status) act) \<Rightarrow> nat \<Rightarrow> nat \<Rightarrow> nat \<Rightarrow> 'a conn
   \<Rightarrow> (nat \<times> 'a conn) option" where
  "gets_loop E get key fin num_keys s =
     (if key < fin
      then case parse_ascii_key (buffer s) key of
             None \<Rightarrow> None
           | Some (nkey, key') \<Rightarrow>
               if nkey = 0 then Some (num_keys, s)
               else case get (drop key' (buffer s)) nkey (ascii_get_response_handler E) s of
                      None \<Rightarrow> None
                    | Some (_, s) \<Rightarrow> gets_loop E get (key' + unat nkey) fin (num_keys + 1) s
      else Some (num_keys, s))"
  by pat_completeness auto
termination
proof (relation "measure (\<lambda>(E, get, key, fin, num_keys, s). fin - key)")
  fix E get fin num_keys and s s' :: "'a conn" and r :: status and y key key' :: nat and x nkey z
  assume "key < fin" and "parse_ascii_key (buffer s) key = Some x" and "(nkey, key') = x" and "nkey \<noteq> 0"
  then have "key \<le> key'" "0 < unat nkey" by (auto dest: parse_ascii_key_le simp: unat_gt_0)
  with \<open>key < fin\<close> show "((E, get, key' + unat nkey, fin, num_keys + 1, z), E, get, key, fin, num_keys, s)
      \<in> measure (\<lambda>(E, get, key, fin, num_keys, s). fin - key)" by simp
qed simp

declare gets_loop.simps [simp del]

definition ascii_process_gets ::
  "proto_env \<Rightarrow> (byte list \<Rightarrow> u16 \<Rightarrow> get_response \<Rightarrow> ('a, status) act) \<Rightarrow> nat \<Rightarrow> nat \<Rightarrow> 'a conn
   \<Rightarrow> 'a conn option" where
  "ascii_process_gets E get ptr fin s = do {
     (num_keys, s) \<leftarrow> gets_loop E get (ptr + (if ascii_command (snd s) = GETS_CMD then 5 else 4)) fin 0 s;
     Some (if num_keys = 0 then send_command_usage E s else say E (bytes ''END'' @ crlf) s)
   }"

section \<open>Lines\<close>

function skip_blank :: "byte list \<Rightarrow> nat \<Rightarrow> nat \<Rightarrow> nat" where
  "skip_blank m str fin = (if str < fin \<and> isspace (m ! str) then skip_blank m (str + 1) fin else str)"
  by pat_completeness auto
termination by (relation "measure (\<lambda>(m, str, fin). fin - str)") auto

function skip_token :: "byte list \<Rightarrow> nat \<Rightarrow> nat \<Rightarrow> nat" where
  "skip_token m str fin = (if str < fin \<and> \<not> isspace (m ! str) then skip_token m (str + 1) fin else str)"
  by pat_completeness auto
termination by (relation "measure (\<lambda>(m, str, fin). fin - str)") auto

declare skip_blank.simps [simp del] skip_token.simps [simp del]

lemma skip_blank_ge: "str \<le> skip_blank m str fin"
  by (induction m str fin rule: skip_blank.induct) (subst skip_blank.simps, auto)

lemma skip_token_ge: "str \<le> skip_token m str fin"
  by (induction m str fin rule: skip_token.induct) (subst skip_token.simps, auto)

text \<open>The tokens, at most \<open>vec_size\<close>, and the memory, in which each is terminated by a zero.\<close>

function ascii_tokenize_command :: "byte list \<Rightarrow> nat \<Rightarrow> nat \<Rightarrow> nat list \<Rightarrow> nat \<Rightarrow> nat list \<times> byte list" where
  "ascii_tokenize_command m str fin vec vec_size =
     (if str < fin
      then let str = skip_blank m str fin
           in if str = fin then (vec, m)
              else let vec = vec @ [str];
                       str = skip_token m str fin;
                       m = m[str := 0]
                   in if length vec = vec_size then (vec, m)
                      else ascii_tokenize_command m (str + 1) fin vec vec_size
      else (vec, m))"
  by pat_completeness auto
termination
proof (relation "measure (\<lambda>(m, str, fin, vec, vec_size). fin - str)")
  fix m vec vec' m' and str fin vec_size p q :: nat
  assume "str < fin" "p = skip_blank m str fin" "q = skip_token m p fin"
  with skip_blank_ge [of str m fin] skip_token_ge [of p m fin]
  show "((m', q + 1, fin, vec', vec_size), m, str, fin, vec, vec_size)
      \<in> measure (\<lambda>(m, str, fin, vec, vec_size). fin - str)" by simp
qed simp

declare ascii_tokenize_command.simps [simp del]

definition recover_tokenize_command :: "byte list \<Rightarrow> nat \<Rightarrow> nat \<Rightarrow> byte list" where
  "recover_tokenize_command m start fin =
     (foldl (\<lambda>m p. if m ! p = 0 then m[p := 32] else m) m [start ..< fin])[fin := 10]"

definition ascii_commands :: "(byte list \<times> ascii_cmd) list" where
  "ascii_commands =
     [(bytes ''get'', GET_CMD), (bytes ''gets'', GETS_CMD), (bytes ''set'', SET_CMD), (bytes ''add'', ADD_CMD),
      (bytes ''replace'', REPLACE_CMD), (bytes ''cas'', CAS_CMD), (bytes ''append'', APPEND_CMD), (bytes ''prepend'', PREPEND_CMD),
      (bytes ''delete'', DELETE_CMD), (bytes ''incr'', INCR_CMD), (bytes ''decr'', DECR_CMD), (bytes ''stats'', STATS_CMD),
      (bytes ''flush_all'', FLUSH_ALL_CMD), (bytes ''version'', VERSION_CMD), (bytes ''quit'', QUIT_CMD), (bytes ''verbosity'', VERBOSITY_CMD)]"

definition ascii_to_cmd :: "byte list \<Rightarrow> nat \<Rightarrow> nat \<Rightarrow> ascii_cmd" where
  "ascii_to_cmd m start len =
     (case find (\<lambda>(cmd, cc). length cmd \<le> len \<and> take (length cmd) (drop start m) = cmd \<and>
                   (len = length cmd \<or> isspace (m ! (start + length cmd)))) ascii_commands of
        Some (cmd, cc) \<Rightarrow> cc
      | None \<Rightarrow> UNKNOWN_CMD)"

section \<open>Commands\<close>

definition not_implemented :: "byte list" where
  "not_implemented = bytes ''SERVER_ERROR: callback not implemented'' @ crlf"

definition process_delete :: "proto_env \<Rightarrow> 'a callback_v1 \<Rightarrow> nat list \<Rightarrow> nat \<Rightarrow> 'a conn \<Rightarrow> 'a conn option" where
  "process_delete E cb tokens ntokens s =
     (if ntokens \<noteq> 2 then Some (send_command_usage E s)
      else do {
        (nkey, key) \<leftarrow> parse_ascii_key (buffer s) (tokens ! 1);
        if nkey = 0 then Some (send_command_usage E s)
        else case v1_delete cb of
               None \<Rightarrow> Some (say E not_implemented s)
             | Some del \<Rightarrow> do {
                 (rval, s) \<leftarrow> del (drop key (buffer s)) nkey 0 s;
                 Some (say E
                   (if rval = PROTOCOL_BINARY_RESPONSE_SUCCESS then bytes ''DELETED'' @ crlf
                    else if rval = PROTOCOL_BINARY_RESPONSE_KEY_ENOENT then bytes ''NOT_FOUND'' @ crlf
                    else bytes ''SERVER_ERROR: delete failed '' @ dec_digits (unat rval) @ crlf) s)
               }
      })"

definition process_arithmetic ::
  "proto_env \<Rightarrow> 'a callback_v1 \<Rightarrow> nat list \<Rightarrow> nat \<Rightarrow> 'a conn \<Rightarrow> 'a conn option" where
  "process_arithmetic E cb tokens ntokens s =
     (if ntokens \<noteq> 3 then Some (send_command_usage E s)
      else do {
        (nkey, key) \<leftarrow> parse_ascii_key (buffer s) (tokens ! 1);
        if nkey = 0 then Some (send_command_usage E s)
        else
          let delta = strtoul10 (drop (tokens ! 2) (buffer s));
              callback = (if ascii_command (snd s) = INCR_CMD then v1_increment cb else v1_decrement cb)
          in case callback of
               None \<Rightarrow> Some (say E not_implemented s)
             | Some f \<Rightarrow> do {
                 ((rval, result, cas), s) \<leftarrow> f (drop key (buffer s)) nkey delta 0 0 s;
                 Some (say E
                   (if rval = PROTOCOL_BINARY_RESPONSE_SUCCESS then dec_digits (unat result) @ crlf
                    else bytes ''NOT_FOUND'' @ crlf) s)
               }
      })"

text \<open>\<open>key\<close> may move behind \<open>end\<close>; the difference is converted to 16 bits.\<close>

definition process_stats :: "proto_env \<Rightarrow> 'a callback_v1 \<Rightarrow> nat \<Rightarrow> nat \<Rightarrow> 'a conn \<Rightarrow> 'a conn option" where
  "process_stats E cb key fin s =
     (case v1_stat cb of
        None \<Rightarrow> Some (say E not_implemented s)
      | Some stat \<Rightarrow> do {
          key \<leftarrow> skip_space (buffer s) key;
          let nkey = (of_int (int fin - int key) :: u16);
          (_, s) \<leftarrow> stat (drop key (buffer s)) nkey (ascii_stat_response_handler E) s;
          Some s
        })"

definition process_version :: "proto_env \<Rightarrow> 'a callback_v1 \<Rightarrow> nat \<Rightarrow> 'a conn \<Rightarrow> 'a conn option" where
  "process_version E cb ntokens s =
     (if ntokens \<noteq> 1 then Some (send_command_usage E s)
      else case v1_version cb of
             None \<Rightarrow> Some (say E not_implemented s)
           | Some version \<Rightarrow> map_option snd (version (ascii_version_response_handler E) s))"

definition process_flush :: "proto_env \<Rightarrow> 'a callback_v1 \<Rightarrow> nat list \<Rightarrow> nat \<Rightarrow> 'a conn \<Rightarrow> 'a conn option" where
  "process_flush E cb tokens ntokens s =
     (if 2 < ntokens then Some (send_command_usage E s)
      else case v1_flush cb of
             None \<Rightarrow> Some (say E not_implemented s)
           | Some flush \<Rightarrow>
               let timeout = (if ntokens = 2 then ucast (strtoul10 (drop (tokens ! 1) (buffer s))) else 0)
               in do {
                 (rval, s) \<leftarrow> flush timeout s;
                 Some (say E (if rval = PROTOCOL_BINARY_RESPONSE_SUCCESS then bytes ''OK'' @ crlf
                              else bytes ''SERVER_ERROR: internal error'' @ crlf) s)
               })"

section \<open>Storage commands\<close>

text \<open>The callback of a storage command; a call through a null pointer is undefined.\<close>

definition store_callback ::
  "'a callback_v1 \<Rightarrow> ascii_cmd \<Rightarrow> byte list \<Rightarrow> u16 \<Rightarrow> byte list \<Rightarrow> u32 \<Rightarrow> u32 \<Rightarrow> u32 \<Rightarrow> u64 \<Rightarrow> ('a, status \<times> u64) act" where
  "store_callback cb cmd key nkey data nbytes flags timeout cas s =
     (case cmd of
        SET_CMD \<Rightarrow> (case v1_set cb of None \<Rightarrow> None | Some f \<Rightarrow> f key nkey data nbytes flags timeout 0 s)
      | ADD_CMD \<Rightarrow> (case v1_add cb of None \<Rightarrow> None | Some f \<Rightarrow> f key nkey data nbytes flags timeout s)
      | CAS_CMD \<Rightarrow> (case v1_replace cb of None \<Rightarrow> None | Some f \<Rightarrow> f key nkey data nbytes flags timeout cas s)
      | REPLACE_CMD \<Rightarrow> (case v1_replace cb of None \<Rightarrow> None | Some f \<Rightarrow> f key nkey data nbytes flags timeout 0 s)
      | APPEND_CMD \<Rightarrow> (case v1_append cb of None \<Rightarrow> None | Some f \<Rightarrow> f key nkey data nbytes 0 s)
      | PREPEND_CMD \<Rightarrow> (case v1_prepend cb of None \<Rightarrow> None | Some f \<Rightarrow> f key nkey data nbytes 0 s)
      | _ \<Rightarrow> None)"

definition store_answer :: "ascii_cmd \<Rightarrow> status \<Rightarrow> byte list" where
  "store_answer cmd rval =
     (if rval = PROTOCOL_BINARY_RESPONSE_SUCCESS then bytes ''STORED'' @ crlf
      else if cmd = CAS_CMD
      then if rval = PROTOCOL_BINARY_RESPONSE_KEY_EEXISTS then bytes ''EXISTS'' @ crlf
           else if rval = PROTOCOL_BINARY_RESPONSE_KEY_ENOENT then bytes ''NOT_FOUND'' @ crlf
           else bytes ''NOT_STORED'' @ crlf
      else bytes ''NOT_STORED'' @ crlf)"

text \<open>
  The result is -1 for an error, 0 for a completed command, 1 when more data is needed. The end
  of the command moves behind its data; a pointer outside of the buffer is undefined.
\<close>

definition process_storage_command ::
  "proto_env \<Rightarrow> 'a callback_v1 \<Rightarrow> nat list \<Rightarrow> nat \<Rightarrow> nat \<Rightarrow> nat \<Rightarrow> 'a conn \<Rightarrow> (int \<times> nat \<times> 'a conn) option" where
  "process_storage_command E cb tokens start fin len s = do {
     (nkey, key) \<leftarrow> parse_ascii_key (buffer s) (tokens ! 1);
     if nkey = 0 then Some (-1, fin, say E (bytes ''CLIENT_ERROR: bad key'' @ crlf) s)
     else
       let flags = ucast (strtoul10 (drop (tokens ! 2) (buffer s)));
           timeout = ucast (strtoul10 (drop (tokens ! 3) (buffer s)));
           nbytes = strtoul10 (drop (tokens ! 4) (buffer s));
           need = nbytes + of_nat (fin - start + 1) + 2
       in if int len < sint need
          then Some (1, fin, set_buffer (recover_tokenize_command (buffer s) start fin) s)
          else
            let cas = (if ascii_command (snd s) = CAS_CMD then strtoul10 (drop (tokens ! 5) (buffer s)) else 0)
            in do {
              ((rval, result_cas), s) \<leftarrow> store_callback cb (ascii_command (snd s)) (drop key (buffer s)) nkey
                 (drop (fin + 1) (buffer s)) (ucast nbytes) flags timeout cas s;
              let s = say E (store_answer (ascii_command (snd s)) rval) s;
              if length (buffer s) \<le> fin + unat nbytes + 2 then None else Some (0, fin + unat nbytes + 2, s)
            }
   }"

definition process_cas_command ::
  "proto_env \<Rightarrow> 'a callback_v1 \<Rightarrow> nat list \<Rightarrow> nat \<Rightarrow> nat \<Rightarrow> nat \<Rightarrow> nat \<Rightarrow> 'a conn \<Rightarrow> (int \<times> nat \<times> 'a conn) option" where
  "process_cas_command E cb tokens ntokens start fin len s =
     (if ntokens \<noteq> 6 then Some (0, fin, send_command_usage E s)
      else if v1_replace cb = None then Some (0, fin, say E not_implemented s)
      else process_storage_command E cb tokens start fin len s)"

definition process_set_command ::
  "proto_env \<Rightarrow> 'a callback_v1 \<Rightarrow> nat list \<Rightarrow> nat \<Rightarrow> nat \<Rightarrow> nat \<Rightarrow> nat \<Rightarrow> 'a conn \<Rightarrow> (int \<times> nat \<times> 'a conn) option" where
  "process_set_command E cb tokens ntokens start fin len s =
     (if ntokens \<noteq> 5 then Some (0, fin, send_command_usage E s)
      else if v1_set cb = None then Some (0, fin, say E not_implemented s)
      else process_storage_command E cb tokens start fin len s)"

definition process_add_command ::
  "proto_env \<Rightarrow> 'a callback_v1 \<Rightarrow> nat list \<Rightarrow> nat \<Rightarrow> nat \<Rightarrow> nat \<Rightarrow> nat \<Rightarrow> 'a conn \<Rightarrow> (int \<times> nat \<times> 'a conn) option" where
  "process_add_command E cb tokens ntokens start fin len s =
     (if ntokens \<noteq> 5 then Some (0, fin, send_command_usage E s)
      else if v1_add cb = None then Some (0, fin, say E not_implemented s)
      else process_storage_command E cb tokens start fin len s)"

definition process_replace_command ::
  "proto_env \<Rightarrow> 'a callback_v1 \<Rightarrow> nat list \<Rightarrow> nat \<Rightarrow> nat \<Rightarrow> nat \<Rightarrow> nat \<Rightarrow> 'a conn \<Rightarrow> (int \<times> nat \<times> 'a conn) option" where
  "process_replace_command E cb tokens ntokens start fin len s =
     (if ntokens \<noteq> 5 then Some (0, fin, send_command_usage E s)
      else if v1_replace cb = None then Some (0, fin, say E not_implemented s)
      else process_storage_command E cb tokens start fin len s)"

definition process_append_command ::
  "proto_env \<Rightarrow> 'a callback_v1 \<Rightarrow> nat list \<Rightarrow> nat \<Rightarrow> nat \<Rightarrow> nat \<Rightarrow> nat \<Rightarrow> 'a conn \<Rightarrow> (int \<times> nat \<times> 'a conn) option" where
  "process_append_command E cb tokens ntokens start fin len s =
     (if ntokens \<noteq> 5 then Some (0, fin, send_command_usage E s)
      else if v1_append cb = None then Some (0, fin, say E not_implemented s)
      else process_storage_command E cb tokens start fin len s)"

definition process_prepend_command ::
  "proto_env \<Rightarrow> 'a callback_v1 \<Rightarrow> nat list \<Rightarrow> nat \<Rightarrow> nat \<Rightarrow> nat \<Rightarrow> nat \<Rightarrow> 'a conn \<Rightarrow> (int \<times> nat \<times> 'a conn) option" where
  "process_prepend_command E cb tokens ntokens start fin len s =
     (if ntokens \<noteq> 5 then Some (0, fin, send_command_usage E s)
      else if v1_prepend cb = None then Some (0, fin, say E not_implemented s)
      else process_storage_command E cb tokens start fin len s)"

section \<open>The loop over the lines\<close>

text \<open>
  One command line: whether the loop goes on behind the position that is returned, or the function
  returns an event. \<open>mute\<close> is set from the last token, if there are fewer than ten; there is none to
  look at in an empty line.
\<close>

datatype 'a line_result = Next nat "'a conn" | Return memcached_protocol_event_t "'a conn"

definition set_ascii_command :: "ascii_cmd \<Rightarrow> 'a conn \<Rightarrow> 'a conn" where
  "set_ascii_command cmd s = (fst s, (snd s)\<lparr>ascii_command := cmd\<rparr>)"

definition set_mute :: "bool \<Rightarrow> 'a conn \<Rightarrow> 'a conn" where
  "set_mute b s = (fst s, (snd s)\<lparr>mute := b\<rparr>)"

definition is_noreply :: "byte list \<Rightarrow> nat \<Rightarrow> bool" where
  "is_noreply m p \<longleftrightarrow> c_str (drop p m) = bytes ''noreply''"

definition storage_result :: "(int \<times> nat \<times> 'a conn) option \<Rightarrow> 'a line_result option" where
  "storage_result r = do {
     (err, fin, s) \<leftarrow> r;
     Some (if err = -1 then Return MEMCACHED_PROTOCOL_ERROR_EVENT s
           else if err = 1 then Return MEMCACHED_PROTOCOL_READ_EVENT s
           else Next fin s)
   }"

definition tokenized_command ::
  "proto_env \<Rightarrow> 'a callback_v1 \<Rightarrow> nat list \<Rightarrow> nat \<Rightarrow> nat \<Rightarrow> nat \<Rightarrow> nat \<Rightarrow> 'a conn \<Rightarrow> 'a line_result option" where
  "tokenized_command E cb tokens ntokens ptr fin len s =
     (let usage = Some (Next fin (send_command_usage E s)); go_on = map_option (Next fin)
      in case ascii_command (snd s) of
           SET_CMD \<Rightarrow> storage_result (process_set_command E cb tokens ntokens ptr fin len s)
         | ADD_CMD \<Rightarrow> storage_result (process_add_command E cb tokens ntokens ptr fin len s)
         | REPLACE_CMD \<Rightarrow> storage_result (process_replace_command E cb tokens ntokens ptr fin len s)
         | CAS_CMD \<Rightarrow> storage_result (process_cas_command E cb tokens ntokens ptr fin len s)
         | APPEND_CMD \<Rightarrow> storage_result (process_append_command E cb tokens ntokens ptr fin len s)
         | PREPEND_CMD \<Rightarrow> storage_result (process_prepend_command E cb tokens ntokens ptr fin len s)
         | DELETE_CMD \<Rightarrow> go_on (process_delete E cb tokens ntokens s)
         | INCR_CMD \<Rightarrow> go_on (process_arithmetic E cb tokens ntokens s)
         | DECR_CMD \<Rightarrow> go_on (process_arithmetic E cb tokens ntokens s)
         | STATS_CMD \<Rightarrow>
             if mute (snd s) then usage
             else go_on (process_stats E cb (ptr + 6) fin
                    (set_buffer (recover_tokenize_command (buffer s) ptr fin) s))
         | FLUSH_ALL_CMD \<Rightarrow> go_on (process_flush E cb tokens ntokens s)
         | VERSION_CMD \<Rightarrow> if mute (snd s) then usage else go_on (process_version E cb ntokens s)
         | QUIT_CMD \<Rightarrow>
             if ntokens \<noteq> 1 \<or> mute (snd s) then usage
             else map_option (Return MEMCACHED_PROTOCOL_ERROR_EVENT)
                    (case v1_quit cb of None \<Rightarrow> Some s | Some quit \<Rightarrow> map_option snd (quit s))
         | VERBOSITY_CMD \<Rightarrow> if ntokens \<noteq> 2 then usage else Some (Next fin (say E (bytes ''OK'' @ crlf) s))
         | UNKNOWN_CMD \<Rightarrow> usage
         | _ \<Rightarrow> None)"

definition process_line ::
  "proto_env \<Rightarrow> 'a callback_v1 \<Rightarrow> nat \<Rightarrow> nat \<Rightarrow> nat \<Rightarrow> 'a conn \<Rightarrow> 'a line_result option" where
  "process_line E cb ptr fin len s =
     (let cmd = ascii_to_cmd (buffer s) ptr len; s = set_ascii_command cmd s
      in if cmd = GET_CMD \<or> cmd = GETS_CMD
         then map_option (Next fin)
                (case v1_get cb of
                   Some get \<Rightarrow> ascii_process_gets E get ptr fin s
                 | None \<Rightarrow> Some (say E (bytes ''SERVER_ERROR: Command not implemented'' @ [10]) s))
         else
           let (tokens, m) = ascii_tokenize_command (buffer s) ptr fin [] 10;
               ntokens = length tokens; s = set_buffer m s
           in if ntokens < 10
              then if ntokens = 0 then None
                   else let noreply = is_noreply m (tokens ! (ntokens - 1))
                        in tokenized_command E cb tokens (if noreply then ntokens - 1 else ntokens) ptr fin len
                             (set_mute noreply s)
              else tokenized_command E cb tokens ntokens ptr fin len s)"

text \<open>\<open>endptr\<close> is set to the start of the buffer at first, and to the current line only at two of the returns.\<close>

function ascii_loop ::
  "proto_env \<Rightarrow> 'a callback_v1 \<Rightarrow> nat \<Rightarrow> nat \<Rightarrow> 'a conn
   \<Rightarrow> (memcached_protocol_event_t \<times> nat \<times> nat \<times> 'a conn) option" where
  "ascii_loop E cb ptr len s =
     (case index_of 10 (take len (drop ptr (buffer s))) of
        None \<Rightarrow> Some (MEMCACHED_PROTOCOL_READ_EVENT, len, ptr, s)
      | Some i \<Rightarrow>
          (case process_line E cb ptr (ptr + i) len s of
             None \<Rightarrow> None
           | Some (Return event s) \<Rightarrow> Some (event, len, 0, s)
           | Some (Next fin s) \<Rightarrow>
               if fin < ptr then None
               else
                 let len' = len - (fin + 1 - ptr)
                 in if 0 < len' then ascii_loop E cb (fin + 1) len' s
                    else Some (MEMCACHED_PROTOCOL_READ_EVENT, len', fin + 1, s)))"
  by pat_completeness auto
termination
  by (relation "measure (\<lambda>(E, cb, ptr, len, s). len)") auto

declare ascii_loop.simps [simp del]

definition memcached_ascii_protocol_process_data ::
  "proto_env \<Rightarrow> 'a callback_v1 \<Rightarrow> nat \<Rightarrow> 'a conn \<Rightarrow> (memcached_protocol_event_t \<times> nat \<times> nat \<times> 'a conn) option" where
  "memcached_ascii_protocol_process_data E cb len s = ascii_loop E cb 0 len s"

end
