(* ===== verification/Ascii_Lines.thy ===== *)
theory Ascii_Lines
  imports Ascii_Handler
begin

text \<open>
  The tokenizer of \<open>protocol/ascii_handler.c\<close> on lines of words, and what a storage command and its
  continuation make of them.
\<close>

section \<open>Words\<close>

definition word_ok :: "byte list \<Rightarrow> bool" where
  "word_ok w \<longleftrightarrow> w \<noteq> [] \<and> (\<forall>b \<in> set w. \<not> isspace b)"

text \<open>Words with the byte that ends each, and the positions at which they start.\<close>

definition joined :: "(byte list \<times> byte) list \<Rightarrow> byte list" where
  "joined ws = concat (map (\<lambda>(w, c). w @ [c]) ws)"

fun starts :: "nat \<Rightarrow> (byte list \<times> byte) list \<Rightarrow> nat list" where
  "starts p [] = []"
| "starts p ((w, c) # ws) = p # starts (p + length w + 1) ws"

definition zeroed :: "(byte list \<times> byte) list \<Rightarrow> (byte list \<times> byte) list" where
  "zeroed ws = map (\<lambda>(w, c). (w, 0)) ws"

lemma joined_simps [simp]: "joined [] = []" "joined ((w, c) # ws) = w @ c # joined ws"
  by (simp_all add: joined_def)

lemma zeroed_simps [simp]: "zeroed [] = []" "zeroed ((w, c) # ws) = (w, 0) # zeroed ws"
  by (simp_all add: zeroed_def)

lemma length_zeroed [simp]: "length (joined (zeroed ws)) = length (joined ws)"
  by (induction ws) auto

lemma length_zeroed_list [simp]: "length (zeroed ws) = length ws"
  by (simp add: zeroed_def)

lemma length_starts [simp]: "length (starts p ws) = length ws"
  by (induction p ws rule: starts.induct) auto

lemma starts_zeroed [simp]: "starts p (zeroed ws) = starts p ws"
  by (induction p ws rule: starts.induct) simp_all

lemma drop_word: "i < length ws \<Longrightarrow> drop (starts (length pre) ws ! i) (pre @ joined ws @ post) = joined (drop i ws) @ post"
proof (induction ws arbitrary: i pre)
  case (Cons x ws)
  obtain w c where x: "x = (w, c)" by (cases x)
  show ?case
  proof (cases i)
    case (Suc k)
    with Cons.IH [of k "pre @ w @ [c]"] Cons.prems x show ?thesis by simp
  qed (simp add: x)
qed simp

lemma nth_at [simp]: "(pre @ w @ post) ! length pre = (w @ post) ! 0"
  by (simp add: nth_append)

lemma skip_token_word:
  "\<forall>b \<in> set w. \<not> isspace b \<Longrightarrow> isspace c \<Longrightarrow> length pre + length w \<le> fin \<Longrightarrow>
   skip_token (pre @ w @ c # post) (length pre) fin = length pre + length w"
proof (induction w arbitrary: pre)
  case Nil
  then show ?case by (subst skip_token.simps) simp
next
  case (Cons b w)
  have "skip_token (pre @ (b # w) @ c # post) (length pre) fin =
      skip_token ((pre @ [b]) @ w @ c # post) (length (pre @ [b])) fin"
    using Cons.prems by (subst skip_token.simps) simp
  with Cons.IH [of "pre @ [b]"] Cons.prems show ?case by simp
qed

lemma skip_blank_word:
  "word_ok w \<Longrightarrow> skip_blank (pre @ w @ post) (length pre) fin = length pre"
  by (cases w) (auto simp: word_ok_def intro: skip_blank.simps [THEN trans])

definition words_ok :: "(byte list \<times> byte) list \<Rightarrow> bool" where
  "words_ok ws \<longleftrightarrow> (\<forall>(w, c) \<in> set ws. word_ok w \<and> isspace c)"

lemma tokenize_step:
  assumes "word_ok w" and "isspace c" and "length pre + length w < fin" and "Suc (length vec) < n"
  shows "ascii_tokenize_command (pre @ w @ c # post) (length pre) fin vec n =
         ascii_tokenize_command (pre @ w @ 0 # post) (length pre + length w + 1) fin (vec @ [length pre]) n"
proof -
  let ?m = "pre @ w @ c # post"
  have "skip_blank ?m (length pre) fin = length pre" using assms(1) by (rule skip_blank_word)
  moreover have "skip_token ?m (length pre) fin = length pre + length w"
    using assms by (intro skip_token_word) (auto simp: word_ok_def)
  moreover have "?m[length pre + length w := 0] = pre @ w @ 0 # post" by (simp add: list_update_append)
  ultimately show ?thesis
    using assms(3,4) by (subst ascii_tokenize_command.simps) (simp add: Let_def)
qed

lemma tokenize_words:
  assumes "words_ok ws" and "fin = length pre + length (joined ws)" and "length vec + length ws < n"
  shows "ascii_tokenize_command (pre @ joined ws @ post) (length pre) fin vec n =
         (vec @ starts (length pre) ws, pre @ joined (zeroed ws) @ post)"
  using assms
proof (induction ws arbitrary: pre vec)
  case Nil
  then show ?case by (subst ascii_tokenize_command.simps) simp
next
  case (Cons x ws)
  obtain w c where x: "x = (w, c)" by (cases x)
  have "ascii_tokenize_command (pre @ w @ c # joined ws @ post) (length pre) fin vec n =
      ascii_tokenize_command (pre @ w @ 0 # joined ws @ post) (length pre + length w + 1) fin (vec @ [length pre]) n"
    by (rule tokenize_step) (use Cons.prems x in \<open>auto simp: words_ok_def\<close>)
  with Cons.IH [of "pre @ w @ [0]" "vec @ [length pre]"] Cons.prems x show ?case
    by (simp add: words_ok_def)
qed

text \<open>Recovering a tokenized line puts a space behind each word.\<close>

definition spaced :: "(byte list \<times> byte) list \<Rightarrow> (byte list \<times> byte) list" where
  "spaced ws = map (\<lambda>(w, c). (w, 32)) ws"

lemma foldl_recover:
  "length pre + length mid = fin \<Longrightarrow>
   foldl (\<lambda>m p. if m ! p = 0 then m[p := 32] else m) (pre @ mid @ post) [length pre ..< fin] =
   pre @ map (\<lambda>b. if b = 0 then 32 else b) mid @ (post :: byte list)"
proof (induction mid arbitrary: pre)
  case (Cons b mid)
  have "[length pre ..< fin] = length pre # [Suc (length pre) ..< fin]"
    using Cons.prems by (simp add: upt_conv_Cons)
  with Cons.IH [of "pre @ [if b = 0 then 32 else b]"] Cons.prems show ?case by auto
qed simp

lemma recover_words:
  assumes "\<forall>(w, c) \<in> set ws. 0 \<notin> set w" and "fin = length pre + length (joined ws)"
  shows "recover_tokenize_command (pre @ joined (zeroed ws) @ b # post) (length pre) fin =
         pre @ joined (spaced ws) @ 10 # post"
proof -
  have "map (\<lambda>b. if b = 0 then 32 else b) (joined (zeroed ws)) = joined (spaced ws)"
    using assms(1) by (induction ws) (auto simp: spaced_def intro!: map_idI)
  moreover have "length (joined (spaced ws)) = length (joined ws)"
    by (induction ws) (auto simp: spaced_def)
  ultimately show ?thesis
    using foldl_recover [of pre "joined (zeroed ws)" fin "b # post"] assms(2)
    by (simp add: recover_tokenize_command_def list_update_append)
qed

section \<open>Keys\<close>

definition key_ok :: "byte list \<Rightarrow> bool" where
  "key_ok key \<longleftrightarrow> key \<noteq> [] \<and> length key \<le> 240 \<and> (\<forall>b \<in> set key. b \<noteq> 0 \<and> \<not> isspace b \<and> \<not> iscntrl b)"

lemma scan_key_word:
  "\<forall>b \<in> set key. b \<noteq> 0 \<and> \<not> isspace b \<and> \<not> iscntrl b \<Longrightarrow> c = 0 \<or> isspace c \<or> iscntrl c \<Longrightarrow>
   scan_key (pre @ key @ c # post) (length pre) len = Some (length pre + length key, len + of_nat (length key))"
proof (induction key arbitrary: pre len)
  case Nil
  then show ?case by (subst scan_key.simps) auto
next
  case (Cons b key)
  have "scan_key (pre @ (b # key) @ c # post) (length pre) len =
      scan_key ((pre @ [b]) @ key @ c # post) (length (pre @ [b])) (len + 1)"
    using Cons.prems by (subst scan_key.simps) simp
  with Cons.IH [of "pre @ [b]"] Cons.prems show ?case by (simp add: algebra_simps)
qed

lemma parse_key_ok:
  assumes "key_ok key" and "c \<in> {0, 32, 13}"
  shows "parse_ascii_key (pre @ key @ c # post) (length pre) = Some (of_nat (length key), length pre)"
proof -
  obtain b ks where key: "key = b # ks" using assms(1) by (cases key) (auto simp: key_ok_def)
  have skip: "skip_space (pre @ key @ c # post) (length pre) = Some (length pre)"
    using assms(1) by (subst skip_space.simps) (auto simp: key key_ok_def)
  have scan: "scan_key (pre @ key @ c # post) (length pre) 0 = Some (length pre + length key, of_nat (length key))"
    using scan_key_word [of key c pre post 0] assms by (auto simp: key_ok_def isspace_def iscntrl_def)
  have len: "length key \<le> 240" "0 < length key" using assms(1) by (auto simp: key_ok_def)
  then have "unat (of_nat (length key) :: u16) = length key" by (simp add: unat_of_nat)
  with len have "(of_nat (length key) :: u16) \<noteq> 0" "\<not> 240 < (of_nat (length key) :: u16)"
    by (auto simp: word_less_nat_alt simp del: of_nat_unat)
  moreover have "(pre @ key @ c # post) ! (length pre + length key) = c" by (simp add: nth_append)
  ultimately show ?thesis
    using skip scan assms(2) by (auto simp: parse_ascii_key_def iscntrl_def)
qed

section \<open>Storage commands\<close>

fun command_name :: "ascii_cmd \<Rightarrow> string" where
  "command_name SET_CMD = ''set''"
| "command_name ADD_CMD = ''add''"
| "command_name REPLACE_CMD = ''replace''"
| "command_name APPEND_CMD = ''append''"
| "command_name PREPEND_CMD = ''prepend''"
| "command_name _ = []"

definition plain_storage :: "ascii_cmd set" where
  "plain_storage = {SET_CMD, ADD_CMD, REPLACE_CMD, APPEND_CMD, PREPEND_CMD}"

text \<open>The words of a storage command, as a client writes it.\<close>

definition store_words :: "ascii_cmd \<Rightarrow> byte list \<Rightarrow> nat \<Rightarrow> nat \<Rightarrow> nat \<Rightarrow> (byte list \<times> byte) list" where
  "store_words cmd key flags exptime n =
     [(bytes (command_name cmd), 32), (key, 32), (dec_digits flags, 32), (dec_digits exptime, 32), (dec_digits n, 13)]"

lemma word_ok_digits: "word_ok (dec_digits n)"
  using dec_digits_isdigit isdigit_not unfolding word_ok_def by fastforce

lemma word_ok_key: "key_ok key \<Longrightarrow> word_ok key"
  by (auto simp: key_ok_def word_ok_def)

lemma word_ok_name: "cmd \<in> plain_storage \<Longrightarrow> word_ok (bytes (command_name cmd))"
  by (auto simp: plain_storage_def word_ok_def bytes_def isspace_def)

lemma words_ok_store: "cmd \<in> plain_storage \<Longrightarrow> key_ok key \<Longrightarrow> words_ok (store_words cmd key flags exptime n)"
  by (simp add: words_ok_def store_words_def word_ok_digits word_ok_key word_ok_name) (simp add: isspace_def)

lemma no_zero_digits: "0 \<notin> set (dec_digits k)"
  using dec_digits_isdigit isdigit_not by blast

lemma no_zero_name: "cmd \<in> plain_storage \<Longrightarrow> 0 \<notin> set (bytes (command_name cmd))"
  by (auto simp: plain_storage_def bytes_def)

lemma no_zero_store:
  assumes "cmd \<in> plain_storage" and "key_ok key"
  shows "\<forall>(w, c) \<in> set (store_words cmd key flags exptime n). 0 \<notin> set w"
proof -
  have "0 \<notin> set key" using assms(2) unfolding key_ok_def by blast
  then show ?thesis unfolding store_words_def by (simp add: no_zero_digits no_zero_name [OF assms(1)])
qed

text \<open>The names of the commands as bytes; no name is the start of another one, except for \<open>get\<close>.\<close>

lemma command_bytes:
  "bytes ''get'' = [103, 101, 116]"
  "bytes ''gets'' = [103, 101, 116, 115]"
  "bytes ''set'' = [115, 101, 116]"
  "bytes ''add'' = [97, 100, 100]"
  "bytes ''replace'' = [114, 101, 112, 108, 97, 99, 101]"
  "bytes ''cas'' = [99, 97, 115]"
  "bytes ''append'' = [97, 112, 112, 101, 110, 100]"
  "bytes ''prepend'' = [112, 114, 101, 112, 101, 110, 100]"
  "bytes ''delete'' = [100, 101, 108, 101, 116, 101]"
  "bytes ''incr'' = [105, 110, 99, 114]"
  "bytes ''decr'' = [100, 101, 99, 114]"
  "bytes ''stats'' = [115, 116, 97, 116, 115]"
  "bytes ''flush_all'' = [102, 108, 117, 115, 104, 95, 97, 108, 108]"
  "bytes ''version'' = [118, 101, 114, 115, 105, 111, 110]"
  "bytes ''quit'' = [113, 117, 105, 116]"
  "bytes ''verbosity'' = [118, 101, 114, 98, 111, 115, 105, 116, 121]"
  by (simp_all add: bytes_def)

lemma ascii_to_cmd_at:
  "ascii_to_cmd (pre @ m) (length pre) len =
     (case find (\<lambda>(cmd, cc). length cmd \<le> len \<and> take (length cmd) m = cmd \<and>
                   (len = length cmd \<or> isspace (m ! length cmd))) ascii_commands of
        Some (cmd, cc) \<Rightarrow> cc
      | None \<Rightarrow> UNKNOWN_CMD)"
  by (simp add: ascii_to_cmd_def nth_append)

lemma ascii_to_cmd_store:
  assumes "cmd \<in> plain_storage" and "length (bytes (command_name cmd)) < len" and "isspace c"
  shows "ascii_to_cmd (pre @ bytes (command_name cmd) @ c # post) (length pre) len = cmd"
  unfolding ascii_to_cmd_at ascii_commands_def command_bytes
  using assms unfolding plain_storage_def
  by (elim insertE emptyE) (simp_all add: command_bytes)

lemma not_noreply_digits: "is_noreply (pre @ dec_digits n @ 0 # post) (length pre) = False"
proof -
  have "\<forall>b \<in> set (dec_digits n). b \<noteq> 0" using dec_digits_isdigit isdigit_not by blast
  then have "c_str (dec_digits n @ 0 # post) = dec_digits n" by (simp add: c_str_def takeWhile_append2)
  moreover have "dec_digits n \<noteq> bytes ''noreply''"
    using dec_digits_isdigit [of 110 n] by (auto simp: bytes_def isdigit_def)
  ultimately show ?thesis by (simp add: is_noreply_def)
qed

text \<open>The length a storage command waits for: its line, the data and the line end behind them.\<close>

lemma store_need:
  assumes "n + l + 3 < 2 ^ 63"
  shows "sint ((of_nat n :: u64) + of_nat (l + 1) + 2) = int (n + l + 3)"
proof -
  have "(of_nat n :: u64) + of_nat (l + 1) + 2 = of_nat (n + l + 3)" by simp
  moreover have "sint (of_nat (n + l + 3) :: u64) = int (n + l + 3)"
    using assms by (simp only: signed_of_nat) (simp add: signed_take_bit_int_eq_self)
  ultimately show ?thesis by (simp only:)
qed

lemma strtoul10_zero: "n < 2 ^ 64 \<Longrightarrow> strtoul10 (dec_digits n @ 0 # post) = of_nat n"
  by (rule strtoul10_dec_digits) (simp_all add: isdigit_def)

lemma ucast_of_nat_32: "n < 2 ^ 32 \<Longrightarrow> ucast (of_nat n :: u64) = (of_nat n :: u32)"
  by (simp add: unsigned_of_nat take_bit_nat_eq_self)

text \<open>Where the words of a tokenized storage command are.\<close>

definition store_at :: "byte list \<Rightarrow> ascii_cmd \<Rightarrow> byte list \<Rightarrow> nat \<Rightarrow> nat \<Rightarrow> nat \<Rightarrow> byte list \<Rightarrow> byte list" where
  "store_at pre cmd key flags exptime n tail =
     pre @ joined (zeroed (store_words cmd key flags exptime n)) @ 10 # tail"

definition store_tokens :: "byte list \<Rightarrow> ascii_cmd \<Rightarrow> byte list \<Rightarrow> nat \<Rightarrow> nat \<Rightarrow> nat \<Rightarrow> nat list" where
  "store_tokens pre cmd key flags exptime n = starts (length pre) (store_words cmd key flags exptime n)"

definition key_memory :: "byte list \<Rightarrow> nat \<Rightarrow> nat \<Rightarrow> nat \<Rightarrow> byte list \<Rightarrow> byte list" where
  "key_memory key flags exptime n tail =
     key @ 0 # dec_digits flags @ 0 # dec_digits exptime @ 0 # dec_digits n @ 0 # 10 # tail"

lemma store_tokens_drop:
  "i < 5 \<Longrightarrow> drop (store_tokens pre cmd key flags exptime n ! i) (store_at pre cmd key flags exptime n tail) =
     joined (drop i (zeroed (store_words cmd key flags exptime n))) @ 10 # tail"
  unfolding store_tokens_def store_at_def
  using drop_word [of i "zeroed (store_words cmd key flags exptime n)" pre "10 # tail"]
  by (simp add: store_words_def)

lemma store_tokens_length [simp]: "length (store_tokens pre cmd key flags exptime n) = 5"
  by (simp add: store_tokens_def store_words_def)

lemma store_words_drop:
  "joined (drop 1 (zeroed (store_words cmd key flags exptime n))) @ 10 # tail = key_memory key flags exptime n tail"
  "joined (drop 2 (zeroed (store_words cmd key flags exptime n))) @ 10 # tail =
     dec_digits flags @ 0 # dec_digits exptime @ 0 # dec_digits n @ 0 # 10 # tail"
  "joined (drop 3 (zeroed (store_words cmd key flags exptime n))) @ 10 # tail =
     dec_digits exptime @ 0 # dec_digits n @ 0 # 10 # tail"
  "joined (drop 4 (zeroed (store_words cmd key flags exptime n))) @ 10 # tail = dec_digits n @ 0 # 10 # tail"
  by (simp_all add: store_words_def key_memory_def)

lemmas store_tokens_nth = store_tokens_drop [of 1, unfolded store_words_drop, simplified]
  store_tokens_drop [of 2, unfolded store_words_drop, simplified]
  store_tokens_drop [of 3, unfolded store_words_drop, simplified]
  store_tokens_drop [of 4, unfolded store_words_drop, simplified]

lemma store_key:
  assumes "key_ok key"
  shows "parse_ascii_key (store_at pre cmd key flags exptime n tail) (store_tokens pre cmd key flags exptime n ! 1) =
    Some (of_nat (length key), store_tokens pre cmd key flags exptime n ! 1)"
  using parse_key_ok [OF assms, of 0 "pre @ bytes (command_name cmd) @ [0]"
      "dec_digits flags @ 0 # dec_digits exptime @ 0 # dec_digits n @ 0 # 10 # tail"]
  by (simp add: store_at_def store_tokens_def store_words_def)

lemma key_length_not_0: "key_ok key \<Longrightarrow> (of_nat (length key) :: u16) \<noteq> 0"
proof -
  assume "key_ok key"
  then have "0 < length key" "length key \<le> 240" by (auto simp: key_ok_def)
  moreover from this have "unat (of_nat (length key) :: u16) = length key" by (simp add: unat_of_nat)
  ultimately show ?thesis by (metis less_nat_zero_code unat_0)
qed

text \<open>What the command does when its line has been tokenized.\<close>

definition run_store ::
  "proto_env \<Rightarrow> 'a callback_v1 \<Rightarrow> ascii_cmd \<Rightarrow> byte list \<Rightarrow> nat \<Rightarrow> nat \<Rightarrow> nat \<Rightarrow> byte list \<Rightarrow> nat \<Rightarrow> 'a conn
   \<Rightarrow> (int \<times> nat \<times> 'a conn) option" where
  "run_store E cb cmd key flags exptime n tail fin s = do {
     ((rval, cas), s) \<leftarrow> store_callback cb cmd (key_memory key flags exptime n tail) (of_nat (length key)) tail (of_nat n)
        (of_nat flags) (of_nat exptime) 0 s;
     let s = say E (store_answer (ascii_command (snd s)) rval) s;
     if length (buffer s) \<le> fin + n + 2 then None else Some (0, fin + n + 2, s)
   }"

lemma joined_length: "fin = length pre + length (joined (store_words cmd key flags exptime n)) \<Longrightarrow>
   drop (fin + 1) (store_at pre cmd key flags exptime n tail) = tail"
  by (simp add: store_at_def)

lemma process_storage_line:
  assumes cmd: "ascii_command (snd s) = cmd" "cmd \<in> plain_storage" and key: "key_ok key"
    and buf: "buffer s = store_at pre cmd key flags exptime n tail"
    and fin: "fin = length pre + length (joined (store_words cmd key flags exptime n))"
    and small: "flags < 2 ^ 32" "exptime < 2 ^ 32" "n < 2 ^ 32" "fin - length pre < 2 ^ 32"
  shows "process_storage_command E cb (store_tokens pre cmd key flags exptime n) (length pre) fin len s =
    (if len < n + (fin - length pre) + 3
     then Some (1, fin, set_buffer (pre @ joined (spaced (store_words cmd key flags exptime n)) @ 10 # tail) s)
     else run_store E cb cmd key flags exptime n tail fin s)"
proof -
  let ?ts = "store_tokens pre cmd key flags exptime n"
  have numbers: "strtoul10 (drop (?ts ! 2) (buffer s)) = of_nat flags" "strtoul10 (drop (?ts ! 3) (buffer s)) = of_nat exptime"
    "strtoul10 (drop (?ts ! 4) (buffer s)) = of_nat n"
    using small by (simp_all add: buf store_tokens_nth strtoul10_zero)
  have need: "sint ((of_nat n :: u64) + of_nat (fin - length pre + 1) + 2) = int (n + (fin - length pre) + 3)"
    by (rule store_need) (use small in simp)
  have nocas: "cmd \<noteq> CAS_CMD" using cmd(2) by (auto simp: plain_storage_def)
  have n: "unat (of_nat n :: u64) = n" using small(3) by (simp add: unat_of_nat)
  have recover: "recover_tokenize_command (buffer s) (length pre) fin =
      pre @ joined (spaced (store_words cmd key flags exptime n)) @ 10 # tail"
    unfolding buf store_at_def by (rule recover_words [OF no_zero_store [OF cmd(2) key] fin])
  have parse: "parse_ascii_key (buffer s) (?ts ! 1) = Some (of_nat (length key), ?ts ! 1)"
    unfolding buf by (rule store_key [OF key])
  show ?thesis
    unfolding process_storage_command_def run_store_def parse Let_def numbers need recover n
    using key_length_not_0 [OF key] nocas cmd(1) joined_length [OF fin] small
    by (simp add: buf store_tokens_nth n ucast_of_nat_32 del: of_nat_unat)
qed

text \<open>The dispatch of a line with a storage command to its function.\<close>

definition has_callback :: "'a callback_v1 \<Rightarrow> ascii_cmd \<Rightarrow> bool" where
  "has_callback cb cmd \<longleftrightarrow>
     (case cmd of SET_CMD \<Rightarrow> v1_set cb \<noteq> None | ADD_CMD \<Rightarrow> v1_add cb \<noteq> None | REPLACE_CMD \<Rightarrow> v1_replace cb \<noteq> None
      | APPEND_CMD \<Rightarrow> v1_append cb \<noteq> None | PREPEND_CMD \<Rightarrow> v1_prepend cb \<noteq> None | _ \<Rightarrow> False)"

lemma tokenized_storage:
  assumes "ascii_command (snd s) = cmd" and "cmd \<in> plain_storage" and "has_callback cb cmd"
  shows "tokenized_command E cb tokens 5 ptr fin len s =
         storage_result (process_storage_command E cb tokens ptr fin len s)"
  using assms
  by (auto simp: plain_storage_def tokenized_command_def has_callback_def process_set_command_def
        process_add_command_def process_replace_command_def process_append_command_def process_prepend_command_def)

definition set_line_state :: "ascii_cmd \<Rightarrow> byte list \<Rightarrow> 'a conn \<Rightarrow> 'a conn" where
  "set_line_state cmd m s = set_mute False (set_buffer m (set_ascii_command cmd s))"

lemma set_line_state_simps [simp]:
  "buffer (set_line_state cmd m s) = m" "ascii_command (snd (set_line_state cmd m s)) = cmd"
  "mute (snd (set_line_state cmd m s)) = False" "fst (set_line_state cmd m s) = fst s"
  by (simp_all add: set_line_state_def set_mute_def set_buffer_def set_ascii_command_def buffer_def)

lemma buffer_set_ascii_command [simp]: "buffer (set_ascii_command cmd s) = buffer s"
  by (simp add: buffer_def set_ascii_command_def)

text \<open>A line with the words of a storage command, whatever white space ends them.\<close>

definition store_line ::
  "ascii_cmd \<Rightarrow> byte list \<Rightarrow> nat \<Rightarrow> nat \<Rightarrow> nat \<Rightarrow> (byte list \<times> byte) list \<Rightarrow> bool" where
  "store_line cmd key flags exptime n ws \<longleftrightarrow>
     words_ok ws \<and> zeroed ws = zeroed (store_words cmd key flags exptime n) \<and> (\<forall>(w, c) \<in> set ws. c \<noteq> 10)"

lemma store_line_words: "cmd \<in> plain_storage \<Longrightarrow> key_ok key \<Longrightarrow>
    store_line cmd key flags exptime n (store_words cmd key flags exptime n)"
  by (simp add: store_line_def words_ok_store) (simp add: store_words_def)

lemma zeroed_spaced [simp]: "zeroed (spaced ws) = zeroed ws"
  by (simp add: zeroed_def spaced_def case_prod_unfold comp_def)

lemma store_line_spaced:
  assumes "store_line cmd key flags exptime n ws"
  shows "store_line cmd key flags exptime n (spaced ws)"
  using assms by (auto simp: store_line_def words_ok_def) (auto simp: spaced_def isspace_def)

lemma store_line_length:
  assumes "store_line cmd key flags exptime n ws"
  shows "length (joined ws) = length (joined (store_words cmd key flags exptime n))" "starts p ws = starts p (store_words cmd key flags exptime n)"
    "length ws = 5" "joined (spaced (store_words cmd key flags exptime n)) = joined (spaced ws)"
proof -
  have z: "zeroed ws = zeroed (store_words cmd key flags exptime n)" using assms by (simp add: store_line_def)
  show "length (joined ws) = length (joined (store_words cmd key flags exptime n))"
    by (metis length_zeroed z)
  show "starts p ws = starts p (store_words cmd key flags exptime n)"
    by (metis starts_zeroed z)
  show "length ws = 5" using arg_cong [OF z, of length] by (simp add: store_words_def)
  have "spaced (zeroed vs) = spaced vs" for vs by (simp add: zeroed_def spaced_def case_prod_unfold comp_def)
  then show "joined (spaced (store_words cmd key flags exptime n)) = joined (spaced ws)"
    by (metis z)
qed

lemma store_line_name:
  assumes "store_line cmd key flags exptime n ws"
  obtains c vs where "joined ws = bytes (command_name cmd) @ c # joined vs" "isspace c"
proof -
  obtain w c vs where ws: "ws = (w, c) # vs" using store_line_length(3) [OF assms] by (cases ws) auto
  with assms have "w = bytes (command_name cmd)" "isspace c"
    by (auto simp: store_line_def store_words_def words_ok_def)
  with ws show ?thesis by (intro that [of c vs]) simp_all
qed

lemma process_line_storage:
  assumes cmd: "cmd \<in> plain_storage" "has_callback cb cmd" and key: "key_ok key"
    and line: "store_line cmd key flags exptime n ws" and buf: "buffer s = pre @ joined ws @ 10 # tail"
    and fin: "fin = length pre + length (joined ws)"
    and small: "flags < 2 ^ 32" "exptime < 2 ^ 32" "n < 2 ^ 32" "fin - length pre < 2 ^ 32"
    and len: "fin - length pre < len"
  shows "process_line E cb (length pre) fin len s =
    (let t = set_line_state cmd (store_at pre cmd key flags exptime n tail) s
     in storage_result
         (if len < n + (fin - length pre) + 3
          then Some (1, fin, set_buffer (pre @ joined (spaced ws) @ 10 # tail) t)
          else run_store E cb cmd key flags exptime n tail fin t))"
proof -
  let ?m = "store_at pre cmd key flags exptime n tail" and ?ts = "store_tokens pre cmd key flags exptime n"
  let ?t = "set_line_state cmd ?m s"
  note line_length = store_line_length [OF line]
  have fin': "fin = length pre + length (joined (store_words cmd key flags exptime n))"
    by (simp only: fin line_length(1))
  obtain c vs where c: "joined ws = bytes (command_name cmd) @ c # joined vs" "isspace c"
    by (rule store_line_name [OF line])
  have name: "ascii_to_cmd (buffer s) (length pre) len = cmd"
    using ascii_to_cmd_store [OF cmd(1) _ c(2), of len pre "joined vs @ 10 # tail"] len fin by (simp add: buf c(1))
  have not_get: "cmd \<noteq> GET_CMD" "cmd \<noteq> GETS_CMD" using cmd(1) by (auto simp: plain_storage_def)
  have tok: "ascii_tokenize_command (buffer s) (length pre) fin [] 10 = (?ts, ?m)"
    using tokenize_words [OF _ fin, of "[]" 10 "10 # tail"] line line_length(3)
    by (simp add: buf store_at_def store_tokens_def store_line_def line_length(2))
  have reply: "is_noreply ?m (?ts ! 4) = False"
    using not_noreply_digits [of "[]" n "10 # tail"] by (simp add: is_noreply_def store_tokens_nth)
  have "process_line E cb (length pre) fin len s = tokenized_command E cb ?ts 5 (length pre) fin len ?t"
    using not_get reply tok by (simp add: process_line_def name set_line_state_def Let_def)
  also have "\<dots> = storage_result (process_storage_command E cb ?ts (length pre) fin len ?t)"
    by (rule tokenized_storage) (use cmd in simp_all)
  also have "process_storage_command E cb ?ts (length pre) fin len ?t =
      (if len < n + (fin - length pre) + 3
       then Some (1, fin, set_buffer (pre @ joined (spaced ws) @ 10 # tail) ?t)
       else run_store E cb cmd key flags exptime n tail fin ?t)"
    unfolding line_length(4) [symmetric]
    by (rule process_storage_line) (use cmd key fin' small in simp_all)
  finally show ?thesis by (simp add: Let_def)
qed

end
