(* ===== verification/Ascii_Protocol.thy ===== *)
theory Ascii_Protocol
  imports Ascii_Lines
begin

text \<open>
  What the text protocol promises for storage commands, and where the loop over the lines of
  \<open>protocol/ascii_handler.c\<close> goes wrong.
\<close>

section \<open>Complete and incomplete storage commands\<close>

lemma index_of_line: "10 \<notin> set l \<Longrightarrow> index_of 10 (l @ 10 # rest) = Some (length l)"
  by (induction l) auto

lemma no_newline:
  assumes "words_ok ws" and "\<forall>(w, c) \<in> set ws. c \<noteq> 10"
  shows "10 \<notin> set (joined ws)"
  using assms
proof (induction ws)
  case (Cons x ws)
  obtain w c where x: "x = (w, c)" by (cases x)
  have "isspace 10" by (simp add: isspace_def)
  with Cons.prems(1) x have "10 \<notin> set w" unfolding words_ok_def word_ok_def by fastforce
  with Cons x show ?case by (simp add: words_ok_def)
qed simp

lemma ascii_loop_line:
  assumes "store_line cmd key flags exptime n ws" and "buffer s = pre @ joined ws @ 10 # tail"
    and "length (joined ws) < len"
  shows "ascii_loop E cb (length pre) len s =
    (case process_line E cb (length pre) (length pre + length (joined ws)) len s of
       None \<Rightarrow> None
     | Some (Return event s) \<Rightarrow> Some (event, len, 0, s)
     | Some (Next fin s) \<Rightarrow>
         if fin < length pre then None
         else
           let len' = len - (fin + 1 - length pre)
           in if 0 < len' then ascii_loop E cb (fin + 1) len' s
              else Some (MEMCACHED_PROTOCOL_READ_EVENT, len', fin + 1, s))"
proof -
  have "10 \<notin> set (joined ws)" using assms(1) by (intro no_newline) (auto simp: store_line_def)
  then have "index_of 10 (joined ws @ 10 # take k tail) = Some (length (joined ws))" for k by (rule index_of_line)
  moreover obtain k where k: "len = length (joined ws) + Suc k"
    using assms(3) by (metis less_imp_Suc_add add_Suc_right)
  have "take len (drop (length pre) (buffer s)) = joined ws @ 10 # take k tail"
    by (simp only: assms(2) k drop_append) simp
  ultimately have "index_of 10 (take len (drop (length pre) (buffer s))) = Some (length (joined ws))"
    by (simp only:)
  then show ?thesis by (subst ascii_loop.simps) simp
qed

text \<open>The application leaves the input buffer and the command of the client alone.\<close>

definition tidy :: "'a callback_v1 \<Rightarrow> bool" where
  "tidy cb \<longleftrightarrow> (\<forall>cmd key nkey data n flags timeout cas s r s'.
     store_callback cb cmd key nkey data n flags timeout cas s = Some (r, s') \<longrightarrow>
     buffer s' = buffer s \<and> ascii_command (snd s') = ascii_command (snd s))"

lemma buffer_say [simp]: "buffer (say E txt s) = buffer s"
proof -
  have loop: "input_buffer (root (snd (spool_loop E data offset i c))) = input_buffer (root c)" for data offset i c
    using spool_loop_place [of E data offset i "current_command c" "input_buffer (root c)" c]
    by (cases "spool_loop E data offset i c") (auto simp: place_client_def dest: arg_cong [of _ _ "\<lambda>c. input_buffer (root c)"])
  show ?thesis
    by (simp add: buffer_def say_def spool_string_def spool_output_def loop)
qed

definition store_message :: "(byte list \<times> byte) list \<Rightarrow> byte list \<Rightarrow> byte list" where
  "store_message ws data = joined ws @ 10 # data @ crlf"

lemma length_store_message [simp]: "length (store_message ws data) = length (joined ws) + length data + 3"
  by (simp add: store_message_def crlf_def)

lemma store_message_run:
  assumes cmd: "cmd \<in> plain_storage" "has_callback cb cmd" and key: "key_ok key" and tidy: "tidy cb"
    and line: "store_line cmd key flags exptime (length data) ws"
    and buf: "buffer s = store_message ws data @ rest"
    and small: "flags < 2 ^ 32" "exptime < 2 ^ 32" "length data < 2 ^ 32" "length (joined ws) < 2 ^ 32"
  shows "memcached_ascii_protocol_process_data E cb (length (store_message ws data)) s =
    (case store_callback cb cmd (key_memory key flags exptime (length data) (data @ crlf @ rest)) (of_nat (length key))
            (data @ crlf @ rest) (of_nat (length data)) (of_nat flags) (of_nat exptime) 0
            (set_line_state cmd (store_at [] cmd key flags exptime (length data) (data @ crlf @ rest)) s) of
       None \<Rightarrow> None
     | Some ((rval, cas), s) \<Rightarrow>
         Some (MEMCACHED_PROTOCOL_READ_EVENT, 0, length (store_message ws data), say E (store_answer cmd rval) s))"
proof -
  let ?n = "length data" and ?tail = "data @ crlf @ rest"
  let ?len = "length (store_message ws data)" and ?fin = "length (joined ws)"
  let ?t = "set_line_state cmd (store_at [] cmd key flags exptime ?n ?tail) s"
  have buf': "buffer s = [] @ joined ws @ 10 # ?tail" by (simp add: buf store_message_def)
  have run: "process_line E cb (length ([] :: byte list)) ?fin ?len s =
      storage_result (run_store E cb cmd key flags exptime ?n ?tail ?fin ?t)"
    using process_line_storage [OF cmd key line buf' _ small(1-3), of ?fin ?len E] small(4) by (simp add: Let_def)
  have step: "ascii_loop E cb 0 ?len s =
    (case storage_result (run_store E cb cmd key flags exptime ?n ?tail ?fin ?t) of
       None \<Rightarrow> None
     | Some (Return event s) \<Rightarrow> Some (event, ?len, 0, s)
     | Some (Next fin s) \<Rightarrow>
         let len' = ?len - (fin + 1)
         in if 0 < len' then ascii_loop E cb (fin + 1) len' s
            else Some (MEMCACHED_PROTOCOL_READ_EVENT, len', fin + 1, s))"
    using ascii_loop_line [OF line buf', of ?len E cb] run by (simp split: option.split line_result.split)
  show ?thesis
  proof (cases "store_callback cb cmd (key_memory key flags exptime ?n ?tail) (of_nat (length key)) ?tail (of_nat ?n)
                  (of_nat flags) (of_nat exptime) 0 ?t")
    case None
    with step show ?thesis
      by (simp add: memcached_ascii_protocol_process_data_def run_store_def storage_result_def)
  next
    case (Some x)
    then obtain rval cas s2 where x: "store_callback cb cmd (key_memory key flags exptime ?n ?tail) (of_nat (length key))
        ?tail (of_nat ?n) (of_nat flags) (of_nat exptime) 0 ?t = Some ((rval, cas), s2)" by (cases x) auto
    with tidy have "buffer s2 = buffer ?t" "ascii_command (snd s2) = cmd" unfolding tidy_def by fastforce+
    moreover have "length (buffer ?t) = length (joined ws) + ?n + 3 + length rest"
      by (simp add: store_at_def store_line_length(1) [OF line] crlf_def)
    ultimately show ?thesis
      using step x
      by (simp add: memcached_ascii_protocol_process_data_def run_store_def storage_result_def Let_def)
  qed
qed

text \<open>The memory the callback is given starts with the key and with the data.\<close>

lemma storage_executed:
  assumes "cmd \<in> plain_storage" and "has_callback cb cmd" and "key_ok key" and "tidy cb"
    and "buffer s = store_message (store_words cmd key flags exptime (length data)) data @ rest"
    and "flags < 2 ^ 32" and "exptime < 2 ^ 32" and "length data < 2 ^ 32"
    and "length (joined (store_words cmd key flags exptime (length data))) < 2 ^ 32"
  shows "\<exists>k d t. take (length key) k = key \<and> take (length data) d = data \<and> \<not> mute (snd t) \<and> fst t = fst s \<and>
    memcached_ascii_protocol_process_data E cb
      (length (store_message (store_words cmd key flags exptime (length data)) data)) s =
    (case store_callback cb cmd k (of_nat (length key)) d (of_nat (length data)) (of_nat flags) (of_nat exptime) 0 t of
       None \<Rightarrow> None
     | Some ((rval, cas), s) \<Rightarrow>
         Some (MEMCACHED_PROTOCOL_READ_EVENT, 0,
           length (store_message (store_words cmd key flags exptime (length data)) data), say E (store_answer cmd rval) s))"
  unfolding store_message_run [OF assms(1-4) store_line_words [OF assms(1,3)] assms(5-9)]
  by (intro exI [of _ "key_memory key flags exptime (length data) (data @ crlf @ rest)"] exI [of _ "data @ crlf @ rest"]
        exI [of _ "set_line_state cmd (store_at [] cmd key flags exptime (length data) (data @ crlf @ rest)) s"])
     (simp add: key_memory_def)

text \<open>
  C14: a storage command as a client writes it reaches the callback of the application with the key,
  the numbers and the data that were written, and is answered by the result of the callback; the
  whole message is consumed.
\<close>

lemma text_storage:
  assumes "cmd \<in> plain_storage" and "has_callback cb cmd" and "key_ok key" and "tidy cb"
    and "buffer s = store_message (store_words cmd key flags exptime (length data)) data @ rest"
    and "flags < 2 ^ 32" and "exptime < 2 ^ 32" and "length data < 2 ^ 32"
    and "length (joined (store_words cmd key flags exptime (length data))) < 2 ^ 32"
  shows "\<exists>k d t. take (length key) k = key \<and> take (length data) d = data \<and> \<not> mute (snd t) \<and> fst t = fst s \<and>
    memcached_ascii_protocol_process_data E cb
      (length (store_message (store_words cmd key flags exptime (length data)) data)) s =
    (case store_callback cb cmd k (of_nat (length key)) d (of_nat (length data)) (of_nat flags) (of_nat exptime) 0 t of
       None \<Rightarrow> None
     | Some ((rval, cas), s) \<Rightarrow>
         Some (MEMCACHED_PROTOCOL_READ_EVENT, 0,
           length (store_message (store_words cmd key flags exptime (length data)) data), say E (store_answer cmd rval) s))"
  by (rule storage_executed [OF assms])

text \<open>A storage command whose data is incomplete.\<close>

lemma store_incomplete:
  assumes cmd: "cmd \<in> plain_storage" "has_callback cb cmd" and key: "key_ok key"
    and line: "store_line cmd key flags exptime n ws" and buf: "buffer s = pre @ joined ws @ 10 # tail"
    and small: "flags < 2 ^ 32" "exptime < 2 ^ 32" "n < 2 ^ 32" "length (joined ws) < 2 ^ 32"
    and len: "length (joined ws) < len" "len < length (joined ws) + n + 3"
  shows "ascii_loop E cb (length pre) len s =
    Some (MEMCACHED_PROTOCOL_READ_EVENT, len, 0,
      set_buffer (pre @ joined (spaced ws) @ 10 # tail) (set_line_state cmd (store_at pre cmd key flags exptime n tail) s))"
proof -
  have "process_line E cb (length pre) (length pre + length (joined ws)) len s =
      Some (Return MEMCACHED_PROTOCOL_READ_EVENT
        (set_buffer (pre @ joined (spaced ws) @ 10 # tail) (set_line_state cmd (store_at pre cmd key flags exptime n tail) s)))"
    using process_line_storage [OF cmd key line buf refl small(1-3), of len E] small(4) len
    by (simp add: storage_result_def Let_def)
  with ascii_loop_line [OF line buf len(1), of E cb] show ?thesis by simp
qed

text \<open>
  a storage command whose data has not arrived in full waits: the function reports all of its
  bytes as unread, and puts the line back, so that it is executed as if it had arrived whole when
  the rest is there.
\<close>

lemma text_storage_resumes:
  assumes "cmd \<in> plain_storage" and "has_callback cb cmd" and "key_ok key" and "tidy cb"
    and "buffer s = store_message (store_words cmd key flags exptime (length data)) data @ rest"
    and "flags < 2 ^ 32" and "exptime < 2 ^ 32" and "length data < 2 ^ 32"
    and "length (joined (store_words cmd key flags exptime (length data))) < 2 ^ 32"
    and "length (joined (store_words cmd key flags exptime (length data))) < len"
    and "len < length (store_message (store_words cmd key flags exptime (length data)) data)"
  shows "\<exists>t. memcached_ascii_protocol_process_data E cb len s = Some (MEMCACHED_PROTOCOL_READ_EVENT, len, 0, t) \<and>
    fst t = fst s \<and>
    memcached_ascii_protocol_process_data E cb
      (length (store_message (store_words cmd key flags exptime (length data)) data)) t =
    memcached_ascii_protocol_process_data E cb
      (length (store_message (store_words cmd key flags exptime (length data)) data)) s"
proof -
  let ?ws = "store_words cmd key flags exptime (length data)"
  note line = store_line_words [OF assms(1,3), of flags exptime "length data"]
  define t where "t = set_buffer (joined (spaced ?ws) @ 10 # data @ crlf @ rest)
    (set_line_state cmd (store_at [] cmd key flags exptime (length data) (data @ crlf @ rest)) s)"
  have wait: "memcached_ascii_protocol_process_data E cb len s = Some (MEMCACHED_PROTOCOL_READ_EVENT, len, 0, t)"
    using store_incomplete [OF assms(1-3) line, of s "[]" "data @ crlf @ rest" len E] assms
    by (simp add: memcached_ascii_protocol_process_data_def t_def store_message_def crlf_def)
  have same: "length (joined (spaced ?ws)) = length (joined ?ws)"
    by (metis length_zeroed zeroed_spaced)
  have t: "buffer t = store_message (spaced ?ws) data @ rest"
    "set_line_state cmd m t = set_line_state cmd m s" for m
    by (simp_all add: t_def set_buffer_def buffer_def store_message_def set_line_state_def set_mute_def set_ascii_command_def)
  have "memcached_ascii_protocol_process_data E cb (length (store_message (spaced ?ws) data)) t =
      memcached_ascii_protocol_process_data E cb (length (store_message ?ws data)) s"
    unfolding store_message_run [OF assms(1-4) store_line_spaced [OF line] t(1) assms(6-8) assms(9) [folded same]]
      store_message_run [OF assms(1-4) line assms(5-9)] t(2)
    by (simp only: length_store_message same)
  with wait show ?thesis by (intro exI [of _ t]) (simp add: same t_def set_buffer_def)
qed

text \<open>
  when an incomplete storage command is not the first command in the buffer, the pointer that is
  returned is still the start of the buffer: what the caller keeps are bytes of the commands that
  have been executed, and the incomplete command is lost.
\<close>

lemma text_storage_misplaced:
  assumes "cmd \<in> plain_storage" and "has_callback cb cmd" and "key_ok key"
    and first: "index_of 10 (take len (buffer s)) = Some i"
      "process_line E cb 0 i len s = Some (Next i s1)" "buffer s1 = pre @ joined (store_words cmd key flags exptime n) @ 10 # tail"
      "length pre = i + 1"
    and "flags < 2 ^ 32" and "exptime < 2 ^ 32" and "n < 2 ^ 32" and "length (joined (store_words cmd key flags exptime n)) < 2 ^ 32"
    and "length pre + length (joined (store_words cmd key flags exptime n)) < len"
    and "len < length pre + length (joined (store_words cmd key flags exptime n)) + n + 3"
  shows "\<exists>t. memcached_ascii_protocol_process_data E cb len s =
           Some (MEMCACHED_PROTOCOL_READ_EVENT, len - length pre, 0, t) \<and>
         take (length pre) (buffer t) = pre"
proof -
  let ?ws = "store_words cmd key flags exptime n"
  note line = store_line_words [OF assms(1,3), of flags exptime n]
  have "memcached_ascii_protocol_process_data E cb len s = ascii_loop E cb (length pre) (len - length pre) s1"
    using first assms(12) by (simp add: memcached_ascii_protocol_process_data_def ascii_loop.simps [of E cb 0 len s])
  also have "\<dots> = Some (MEMCACHED_PROTOCOL_READ_EVENT, len - length pre, 0,
      set_buffer (pre @ joined (spaced ?ws) @ 10 # tail) (set_line_state cmd (store_at pre cmd key flags exptime n tail) s1))"
    by (rule store_incomplete [OF assms(1-3) line first(3)]) (use assms in simp_all)
  finally show ?thesis by (simp add: set_buffer_def buffer_def)
qed

section \<open>Lines that go wrong\<close>

lemma isspace_newline: "isspace 10"
  by (simp add: isspace_def)

lemma minus_one_16: "(65535 :: u16) = - 1"
  by simp

lemma skip_blank_spaces:
  "\<forall>b \<in> set w. isspace b \<Longrightarrow> skip_blank (pre @ w @ post) (length pre) (length pre + length w) = length pre + length w"
proof (induction w arbitrary: pre)
  case Nil
  then show ?case by (subst skip_blank.simps) simp
next
  case (Cons b w)
  have "skip_blank (pre @ (b # w) @ post) (length pre) (length pre + length (b # w)) =
      skip_blank ((pre @ [b]) @ w @ post) (length (pre @ [b])) (length (pre @ [b]) + length w)"
    using Cons.prems by (subst skip_blank.simps) simp
  with Cons.IH [of "pre @ [b]"] Cons.prems show ?case by simp
qed

lemma ascii_to_cmd_blank:
  assumes "isspace b"
  shows "ascii_to_cmd (b # m) 0 len = UNKNOWN_CMD"
proof -
  have "b \<noteq> 97" "b \<noteq> 99" "b \<noteq> 100" "b \<noteq> 102" "b \<noteq> 103" "b \<noteq> 105" "b \<noteq> 112" "b \<noteq> 113" "b \<noteq> 114" "b \<noteq> 115" "b \<noteq> 118"
    using assms by (auto simp: isspace_def)
  then show ?thesis
    using ascii_to_cmd_at [of "[]" "b # m" len] by (simp add: ascii_commands_def command_bytes)
qed

text \<open>
  a line of nothing but white space, such as an empty line, has no tokens, and the function looks
  at the one before the first: its behaviour is undefined.
\<close>

lemma blank_line_undefined:
  assumes "buffer s = w @ 10 # rest" and "\<forall>b \<in> set w. isspace b" and "10 \<notin> set w" and "length w < len"
  shows "memcached_ascii_protocol_process_data E cb len s = None"
proof -
  obtain k where k: "len = length w + Suc k" using assms(4) by (metis less_imp_Suc_add add_Suc_right)
  have "take len (buffer s) = w @ 10 # take k rest" by (simp only: assms(1) k) simp
  then have index: "index_of 10 (take len (buffer s)) = Some (length w)"
    using index_of_line [OF assms(3)] by simp
  obtain b m where "buffer s = b # m" "isspace b"
    using assms(1,2) by (cases w) (auto simp: isspace_def)
  then have unknown: "ascii_to_cmd (buffer s) 0 len = UNKNOWN_CMD" by (simp add: ascii_to_cmd_blank)
  have "skip_blank (w @ 10 # rest) 0 (length w) = length w"
    using skip_blank_spaces [OF assms(2), of "[]" "10 # rest"] by simp
  then have "ascii_tokenize_command (buffer s) 0 (length w) [] 10 = ([], buffer s)"
    by (subst ascii_tokenize_command.simps) (simp add: assms(1) Let_def)
  then have "process_line E cb 0 (length w) len s = None"
    by (simp add: process_line_def unknown Let_def)
  then show ?thesis
    using index by (simp add: memcached_ascii_protocol_process_data_def ascii_loop.simps [of E cb 0 len s])
qed

text \<open>
  for a plain \<open>stats\<close> command the scan for a key runs over the end of the line: the callback is asked
  for a key of 65535 bytes that starts with the bytes behind the line.
\<close>

lemma stats_without_key:
  assumes "buffer s = pre @ bytes ''stats'' @ crlf @ b # rest" and "\<not> isspace b" and "7 \<le> len" and "v1_stat cb = Some f"
  shows "\<exists>t. fst t = fst s \<and> process_line E cb (length pre) (length pre + 6) len s =
           map_option (\<lambda>(_, s). Next (length pre + 6) s) (f (b # rest) 65535 (ascii_stat_response_handler E) t)"
proof -
  let ?ws = "[(bytes ''stats'', 13)]"
  have buf: "buffer s = pre @ joined ?ws @ 10 # b # rest" by (simp add: assms(1) crlf_def)
  have ok: "words_ok ?ws" by (simp add: words_ok_def word_ok_def command_bytes isspace_def)
  have fin: "length pre + 6 = length pre + length (joined ?ws)" by (simp add: bytes_def)
  have cmd: "ascii_to_cmd (buffer s) (length pre) len = STATS_CMD"
    unfolding buf ascii_to_cmd_at using assms(3) by (simp add: ascii_commands_def command_bytes isspace_def)
  let ?m = "pre @ joined (zeroed ?ws) @ 10 # b # rest"
  have tok: "ascii_tokenize_command (buffer s) (length pre) (length pre + 6) [] 10 = ([length pre], ?m)"
    unfolding buf using tokenize_words [OF ok fin, of "[]" 10 "10 # b # rest"] by simp
  have reply: "is_noreply ?m (length pre) = False"
    by (simp add: is_noreply_def c_str_def bytes_def)
  let ?m' = "pre @ joined (spaced ?ws) @ 10 # b # rest"
  have rec: "recover_tokenize_command ?m (length pre) (length pre + 6) = ?m'"
    by (rule recover_words [OF _ fin]) (simp add: bytes_def)
  let ?t = "set_mute False (set_buffer ?m (set_ascii_command STATS_CMD s))"
  have "process_line E cb (length pre) (length pre + 6) len s =
      tokenized_command E cb [length pre] 1 (length pre) (length pre + 6) len ?t"
    using tok reply by (simp add: process_line_def cmd Let_def)
  also have "\<dots> = map_option (Next (length pre + 6)) (process_stats E cb (length pre + 6) (length pre + 6) (set_buffer ?m' ?t))"
    using rec by (simp add: tokenized_command_def set_mute_def set_buffer_def set_ascii_command_def buffer_def Let_def)
  also have "skip_space ?m' (length pre + 6) = Some (length pre + 7)"
    using assms(2) isspace_newline
    by (subst skip_space.simps, subst skip_space.simps) (simp add: spaced_def bytes_def nth_append)
  then have "process_stats E cb (length pre + 6) (length pre + 6) t =
      map_option snd (f (b # rest) 65535 (ascii_stat_response_handler E) t)" if "buffer t = ?m'" for t
    using that by (simp add: process_stats_def assms(4) minus_one_16 map_conv_bind_option case_prod_unfold comp_def)
      (simp add: spaced_def bytes_def)
  then have "process_stats E cb (length pre + 6) (length pre + 6) (set_buffer ?m' ?t) =
      map_option snd (f (b # rest) 65535 (ascii_stat_response_handler E) (set_buffer ?m' ?t))"
    by (simp add: buffer_def set_buffer_def)
  finally show ?thesis
    by (intro exI [of _ "set_buffer ?m' ?t"])
       (simp add: set_buffer_def set_mute_def set_ascii_command_def option.map_comp comp_def case_prod_unfold)
qed

text \<open>The application sees the client only through the response handler it is given.\<close>

definition answers_only :: "(byte list \<Rightarrow> u16 \<Rightarrow> get_response \<Rightarrow> ('a, status) act) \<Rightarrow> bool" where
  "answers_only f \<longleftrightarrow>
     (\<forall>key nkey resp s r s' P. f key nkey resp s = Some (r, s') \<longrightarrow> P (snd s) \<longrightarrow>
        (\<forall>k kl b bl fl cas c r' c'. P c \<longrightarrow> resp k kl b bl fl cas c = Some (r', c') \<longrightarrow> P c') \<longrightarrow> P (snd s'))"

lemma muted_get_response:
  "mute c \<Longrightarrow> ascii_get_response_handler E k kl b bl fl cas c = Some (r, c') \<Longrightarrow> c' = c"
  by (auto simp: ascii_get_response_handler_def Let_def bind_eq_Some_conv spool_string_def spool_mem_def
        spool_output_def split: if_splits)

lemma muted_gets_loop:
  "answers_only f \<Longrightarrow> mute (snd s) \<Longrightarrow> gets_loop E f key fin k s = Some (n, s') \<Longrightarrow> snd s' = snd s \<and> k \<le> n"
proof (induction E f key fin k s rule: gets_loop.induct)
  case (1 E f key fin k s)
  show ?case
  proof (cases "key < fin \<and> (\<exists>nkey key'. parse_ascii_key (buffer s) key = Some (nkey, key') \<and> nkey \<noteq> 0)")
    case False
    with "1.prems" show ?thesis by (subst (asm) gets_loop.simps) (auto split: if_splits option.splits)
  next
    case True
    then obtain nkey key' where p: "key < fin" "parse_ascii_key (buffer s) key = Some (nkey, key')" "nkey \<noteq> 0" by blast
    with "1.prems"(3) obtain r t where t: "f (drop key' (buffer s)) nkey (ascii_get_response_handler E) s = Some (r, t)"
      "gets_loop E f (key' + unat nkey) fin (k + 1) t = Some (n, s')"
      by (subst (asm) gets_loop.simps) (auto split: option.splits)
    have "snd t = snd s"
    proof (rule "1.prems"(1) [unfolded answers_only_def, rule_format, OF t(1), of "\<lambda>c. c = snd s"])
      fix k kl b bl fl cas c r' c'
      assume "c = snd s" "ascii_get_response_handler E k kl b bl fl cas c = Some (r', c')"
      with "1.prems"(2) muted_get_response [of c E k kl b bl fl cas r' c'] show "c' = snd s" by simp
    qed simp
    with "1.IH" [OF p(1,2) refl p(3) t(1) refl] t(2) "1.prems"(1,2) show ?thesis by auto
  qed
qed

lemma gets_loop_counts:
  assumes "gets_loop E f key fin k s = Some (n, s')" and "key < fin" and "parse_ascii_key (buffer s) key = Some (nkey, key')"
    and "nkey \<noteq> 0" and "answers_only f" and "mute (snd s)"
  shows "k < n"
proof -
  from assms(1-4) obtain r t where t: "f (drop key' (buffer s)) nkey (ascii_get_response_handler E) s = Some (r, t)"
    "gets_loop E f (key' + unat nkey) fin (k + 1) t = Some (n, s')"
    by (subst (asm) gets_loop.simps) (auto split: option.splits)
  have "mute (snd t)"
    by (rule assms(5) [unfolded answers_only_def, rule_format, OF t(1), of mute])
       (use assms(6) muted_get_response in blast)+
  with muted_gets_loop [OF assms(5) _ t(2)] show ?thesis by simp
qed

text \<open>
  \<open>noreply\<close> outlives its command: the retrieval commands do not reset it, so that a \<open>get\<close> or \<open>gets\<close>
  that follows is executed but sends nothing, neither its values nor the line that ends them.
\<close>

lemma noreply_mutes_get:
  assumes "mute (snd s)" and "ascii_to_cmd (buffer s) ptr len = cmd" and "cmd = GET_CMD \<or> cmd = GETS_CMD"
    and "v1_get cb = Some f" and "answers_only f"
    and "ptr + (if cmd = GETS_CMD then 5 else 4) < fin"
    and "parse_ascii_key (buffer s) (ptr + (if cmd = GETS_CMD then 5 else 4)) = Some (nkey, key)" and "nkey \<noteq> 0"
    and "process_line E cb ptr fin len s = Some r"
  shows "\<exists>s'. r = Next fin s' \<and> snd s' = (snd s)\<lparr>ascii_command := cmd\<rparr>"
proof -
  let ?s = "set_ascii_command cmd s" and ?key = "ptr + (if cmd = GETS_CMD then 5 else 4)"
  have cmd: "ascii_command (snd ?s) = cmd" "mute (snd ?s)" using assms(1) by (simp_all add: set_ascii_command_def)
  from assms(2-4,9) obtain s' where s': "ascii_process_gets E f ptr fin ?s = Some s'" "r = Next fin s'"
    by (auto simp: process_line_def Let_def)
  then obtain n t where t: "gets_loop E f ?key fin 0 ?s = Some (n, t)"
    "s' = (if n = 0 then send_command_usage E t else say E (bytes ''END'' @ crlf) t)"
    by (auto simp: ascii_process_gets_def cmd bind_eq_Some_conv)
  have "0 < n" by (rule gets_loop_counts [OF t(1)]) (use assms(5-8) cmd in simp_all)
  moreover have "snd t = snd ?s" using muted_gets_loop [OF assms(5) cmd(2) t(1)] by simp
  ultimately have "snd s' = snd ?s"
    using t(2) cmd(2) by (simp add: say_def spool_string_def spool_output_def)
  with s'(2) show ?thesis by (simp add: set_ascii_command_def)
qed

section \<open>Witnesses\<close>

definition with_buffer :: "byte list \<Rightarrow> (byte list) conn" where
  "with_buffer m = set_buffer m ([], new_client)"

lemma with_buffer_simps [simp]: "buffer (with_buffer m) = m" "mute (snd (with_buffer m)) = False" "fst (with_buffer m) = []"
  by (simp_all add: with_buffer_def set_buffer_def buffer_def)

lemma one_value_tidy: "tidy (v1 one_value)"
  by (auto simp: tidy_def store_callback_def one_value_def bare_application_def no_callbacks_def buffer_def
        split: ascii_cmd.splits if_splits)

lemma one_value_has_set: "has_callback (v1 one_value) SET_CMD"
  by (simp add: has_callback_def)

abbreviation (input) sample_words :: "(byte list \<times> byte) list" where
  "sample_words \<equiv> store_words SET_CMD [107] 0 0 (length [97 :: byte])"

lemma sample_key: "key_ok [107]"
  by (simp add: key_ok_def isspace_def iscntrl_def)

lemma length_sample: "length (joined sample_words) = 12" "length (joined (store_words SET_CMD [107] 0 0 (Suc 0))) = 12"
  by (simp_all add: store_words_def bytes_def dec_digits.simps)

lemma text_storage_witness:
  "\<exists>s'. memcached_ascii_protocol_process_data all_memory (v1 one_value) (length (store_message sample_words [97]))
      (with_buffer (store_message sample_words [97] @ [])) =
    Some (MEMCACHED_PROTOCOL_READ_EVENT, 0, length (store_message sample_words [97]), s') \<and> fst s' = [97]"
proof -
  have "\<exists>k d t. take (length [107 :: byte]) k = [107 :: byte] \<and> take (length [97 :: byte]) d = [97 :: byte] \<and> \<not> mute (snd t) \<and>
      fst t = fst (with_buffer (store_message sample_words [97] @ [])) \<and>
      memcached_ascii_protocol_process_data all_memory (v1 one_value) (length (store_message sample_words [97]))
        (with_buffer (store_message sample_words [97] @ [])) =
      (case store_callback (v1 one_value) SET_CMD k (of_nat (length [107 :: byte])) d (of_nat (length [97 :: byte])) (of_nat 0) (of_nat 0) 0 t of
         None \<Rightarrow> None
       | Some ((rval, cas), s) \<Rightarrow> Some (MEMCACHED_PROTOCOL_READ_EVENT, 0, length (store_message sample_words [97]),
           say all_memory (store_answer SET_CMD rval) s))"
    by (rule text_storage) (simp_all add: plain_storage_def one_value_has_set sample_key one_value_tidy length_sample)
  then obtain k d t where d: "take 1 d = [97 :: byte]" and run:
    "memcached_ascii_protocol_process_data all_memory (v1 one_value) (length (store_message sample_words [97]))
        (with_buffer (store_message sample_words [97] @ [])) =
      (case store_callback (v1 one_value) SET_CMD k 1 d 1 0 0 0 t of
         None \<Rightarrow> None
       | Some ((rval, cas), s) \<Rightarrow> Some (MEMCACHED_PROTOCOL_READ_EVENT, 0, length (store_message sample_words [97]),
           say all_memory (store_answer SET_CMD rval) s))"
    by auto
  from d have "\<not> length d < 1" by (cases d) auto
  then show ?thesis unfolding run using d by (simp add: store_callback_def say_def)
qed

lemma text_storage_resumes_witness:
  "\<exists>t. memcached_ascii_protocol_process_data all_memory (v1 one_value) 13 (with_buffer (store_message sample_words [97] @ [])) =
      Some (MEMCACHED_PROTOCOL_READ_EVENT, 13, 0, t)"
  using text_storage_resumes [of SET_CMD "v1 one_value" "[107]" "with_buffer (store_message sample_words [97] @ [])" 0 0 "[97]" "[]" 13 all_memory]
    plain_storage_def one_value_has_set sample_key one_value_tidy length_sample
  by auto

lemma blank_line_undefined_witness:
  "memcached_ascii_protocol_process_data all_memory (v1 one_value) 2 (with_buffer [13, 10, 0, 0]) = None"
  using blank_line_undefined [of "with_buffer [13, 10, 0, 0]" "[13]" "[0, 0]" 2 all_memory "v1 one_value"]
  by (simp add: isspace_def)

definition stat_reader :: "unit callback_v1" where
  "stat_reader = no_callbacks\<lparr>v1_stat := Some (\<lambda>key nkey resp s.
     if length key < unat nkey then None else Some (PROTOCOL_BINARY_RESPONSE_SUCCESS, s))\<rparr>"

lemma stats_without_key_witness:
  "process_line all_memory stat_reader 0 6 7 (set_buffer (bytes ''stats'' @ crlf @ [0]) ((), new_client)) = None"
  using stats_without_key [of "set_buffer (bytes ''stats'' @ crlf @ [0]) ((), new_client)" "[]" 0 "[]" 7 stat_reader _ all_memory]
  by (simp add: stat_reader_def set_buffer_def buffer_def isspace_def)

definition one_item :: "(byte list) callback_v1" where
  "one_item = no_callbacks\<lparr>v1_get := Some (\<lambda>key nkey resp s. on_client (resp key nkey (fst s) 1 0 0) s)\<rparr>"

lemma one_item_answers: "answers_only (\<lambda>key nkey resp s. on_client (resp key nkey (fst s) 1 0 0) s)"
  by (auto simp: answers_only_def on_client_def)

lemma noreply_mutes_get_witness:
  "\<exists>s'. process_line all_memory one_item 0 6 7 (set_mute True (with_buffer (bytes ''get k'' @ crlf @ [0]))) = Some (Next 6 s') \<and>
     wire (snd s') = [] \<and> pending (snd s') = []"
proof -
  let ?s = "set_mute True (with_buffer (bytes ''get k'' @ crlf @ [0]))"
  have buf: "buffer ?s = [103, 101, 116, 32, 107, 13, 10, 0]"
    by (simp add: set_mute_def buffer_def with_buffer_def set_buffer_def bytes_def crlf_def)
  have cmd: "ascii_to_cmd (buffer ?s) 0 7 = GET_CMD"
    unfolding buf by (simp add: ascii_to_cmd_def ascii_commands_def command_bytes isspace_def)
  have key: "parse_ascii_key (buffer ?s) 4 = Some (1, 4)"
    using parse_key_ok [OF sample_key, of 13 "[103, 101, 116, 32]" "[10, 0]"] unfolding buf by (simp add: eval_nat_numeral)
  have stop: "parse_ascii_key (buffer ?s) 5 = Some (0, 7)"
    unfolding buf by (simp add: parse_ascii_key_def skip_space.simps scan_key.simps isspace_def)
  let ?t = "set_ascii_command GET_CMD ?s"
  let ?f = "\<lambda>key nkey (resp :: get_response) s. on_client (resp key nkey (fst s) 1 0 0) (s :: (byte list) conn)"
  have "gets_loop all_memory ?f 5 6 1 ?t = Some (1, ?t)"
    by (subst gets_loop.simps) (simp add: stop)
  moreover have "?f [107, 13, 10, 0] 1 (ascii_get_response_handler all_memory) ?t = Some (PROTOCOL_BINARY_RESPONSE_SUCCESS, ?t)"
    by (simp add: on_client_def ascii_get_response_handler_def value_header_def spool_mem_def spool_string_def
          spool_output_def set_ascii_command_def set_mute_def isspace_def iscntrl_def Let_def)
  ultimately have "gets_loop all_memory ?f 4 6 0 ?t = Some (1, ?t)"
    by (subst gets_loop.simps) (simp add: key, simp add: buf)
  then have "process_line all_memory one_item 0 6 7 ?s \<noteq> None"
    by (simp add: process_line_def cmd one_item_def ascii_process_gets_def set_ascii_command_def Let_def)
  then obtain r where r: "process_line all_memory one_item 0 6 7 ?s = Some r" by auto
  have "mute (snd ?s)" by (simp add: set_mute_def)
  with noreply_mutes_get [OF this cmd _ _ one_item_answers _ _ _ r] key obtain s' where
    "r = Next 6 s'" "snd s' = (snd ?s)\<lparr>ascii_command := GET_CMD\<rparr>"
    by (auto simp: one_item_def)
  with r show ?thesis by (simp add: set_mute_def with_buffer_def set_buffer_def pending_def)
qed

text \<open>A \<open>verbosity\<close> command in front of an incomplete storage command.\<close>

definition verbosity_words :: "(byte list \<times> byte) list" where
  "verbosity_words = [(bytes ''verbosity'', 32), ([49], 13)]"

lemma verbosity_line:
  assumes "buffer s = joined verbosity_words @ 10 # tail" and "12 \<le> len"
  shows "\<exists>s1. process_line E cb 0 12 len s = Some (Next 12 s1) \<and> buffer s1 = joined (zeroed verbosity_words) @ 10 # tail"
proof -
  have buf: "buffer s = [] @ joined verbosity_words @ 10 # tail" by (simp add: assms(1))
  have ok: "words_ok verbosity_words"
    by (simp add: words_ok_def word_ok_def verbosity_words_def command_bytes isspace_def)
  have fin: "12 = length ([] :: byte list) + length (joined verbosity_words)" by (simp add: verbosity_words_def bytes_def)
  have cmd: "ascii_to_cmd (buffer s) 0 len = VERBOSITY_CMD"
    unfolding assms(1) using assms(2) ascii_to_cmd_at [of "[]" "joined verbosity_words @ 10 # tail" len]
    by (simp add: verbosity_words_def ascii_commands_def command_bytes isspace_def)
  have tok: "ascii_tokenize_command (buffer s) 0 12 [] 10 = ([0, 10], joined (zeroed verbosity_words) @ 10 # tail)"
    using tokenize_words [OF ok fin, of "[]" 10 "10 # tail"] by (simp add: assms(1)) (simp add: verbosity_words_def bytes_def)
  have reply: "is_noreply (joined (zeroed verbosity_words) @ 10 # tail) 10 = False"
    by (simp add: is_noreply_def verbosity_words_def c_str_def bytes_def)
  let ?t = "set_mute False (set_buffer (joined (zeroed verbosity_words) @ 10 # tail) (set_ascii_command VERBOSITY_CMD s))"
  have "process_line E cb 0 12 len s = tokenized_command E cb [0, 10] (Suc (Suc 0)) 0 12 len ?t"
    using tok reply by (simp add: process_line_def cmd Let_def)
  also have "\<dots> = Some (Next 12 (say E (bytes ''OK'' @ crlf) ?t))"
    by (simp add: tokenized_command_def set_mute_def set_buffer_def set_ascii_command_def Let_def)
  finally show ?thesis by (simp add: set_mute_def set_buffer_def) (simp add: buffer_def)
qed

lemma length_verbosity [simp]: "length (joined verbosity_words) = 12"
  by (simp add: verbosity_words_def bytes_def)

lemma text_storage_misplaced_witness:
  "\<exists>t. memcached_ascii_protocol_process_data all_memory (v1 one_value) 26
      (with_buffer (joined verbosity_words @ 10 # joined sample_words @ 10 # [97, 13, 10])) =
        Some (MEMCACHED_PROTOCOL_READ_EVENT, 13, 0, t) \<and>
    take 13 (buffer t) = joined (zeroed verbosity_words) @ [10]"
proof -
  let ?tail = "joined sample_words @ 10 # [97, 13, 10]"
  let ?s = "with_buffer (joined verbosity_words @ 10 # ?tail)"
  from verbosity_line [of ?s ?tail 26 all_memory "v1 one_value"] obtain s1 where s1:
    "process_line all_memory (v1 one_value) 0 12 26 ?s = Some (Next 12 s1)"
    "buffer s1 = (joined (zeroed verbosity_words) @ [10]) @ joined sample_words @ 10 # [97, 13, 10]" by auto
  have index: "index_of 10 (take 26 (buffer ?s)) = Some 12"
    by (simp add: verbosity_words_def bytes_def)
  have len: "length (joined (zeroed verbosity_words) @ [10]) = 12 + 1"
    by (simp add: verbosity_words_def bytes_def)
  show ?thesis
    using text_storage_misplaced [of SET_CMD "v1 one_value" "[107]" 26 ?s 12 all_memory s1 "joined (zeroed verbosity_words) @ [10]",
        OF _ one_value_has_set sample_key index s1 len]
    by (simp add: plain_storage_def length_sample len)
qed

end
