(* ===== verification/Protocol_Client.thy ===== *)
theory Protocol_Client
  imports Ascii_Protocol
begin

text \<open>
  The public functions of \<open>protocol/protocol_handler.c\<close>: instances, clients, and the function that
  lets a client work. \<open>recv\<close> answers from the list \<open>recvs\<close>; what does not fit into the buffer stays
  in the socket.
\<close>

section \<open>Instances and clients\<close>

text \<open>
  The three allocations of an instance: the structure, the input buffer and the cache. When the
  cache cannot be had, the structure has been freed, but the pointer to it is returned.
\<close>

datatype 'i new_instance = Null | Instance 'i | Freed

definition memcached_protocol_create_instance :: "bool \<Rightarrow> bool \<Rightarrow> bool \<Rightarrow> memcached_protocol_st new_instance" where
  "memcached_protocol_create_instance calloc_ok malloc_ok cache_ok =
     (if \<not> calloc_ok then Null
      else if \<not> malloc_ok then Null
      else case cache_create cache_ok (bytes ''protocol_handler'') (CHUNK_BUFFERSIZE + 40) None False of
             None \<Rightarrow> Freed
           | Some cache \<Rightarrow> Instance \<lparr>input_buffer = replicate 1048576 0, pedantic = False, buffer_cache = cache\<rparr>)"

definition memcached_protocol_create_client ::
  "bool \<Rightarrow> memcached_protocol_st \<Rightarrow> recv_outcome list \<Rightarrow> send_outcome list \<Rightarrow> memcached_protocol_client_st option" where
  "memcached_protocol_create_client calloc_ok instance' rs ss =
     (if calloc_ok
      then Some \<lparr>root = instance', client_error = 0, client_output = [], client_input = [], work = Determine_protocol,
             mute = False, current_command = [], ascii_command = GET_CMD, recvs = rs, sends = ss, wire = []\<rparr>
      else None)"

definition memcached_binary_protocol_set_pedantic :: "memcached_protocol_st \<Rightarrow> bool \<Rightarrow> memcached_protocol_st" where
  "memcached_binary_protocol_set_pedantic i enable = i\<lparr>pedantic := enable\<rparr>"

definition memcached_binary_protocol_get_pedantic :: "memcached_protocol_st \<Rightarrow> bool" where
  "memcached_binary_protocol_get_pedantic i = pedantic i"

section \<open>Working\<close>

definition set_work :: "work_function \<Rightarrow> 'a conn \<Rightarrow> 'a conn" where
  "set_work w s = (fst s, (snd s)\<lparr>work := w\<rparr>)"

definition drain_conn :: "proto_env \<Rightarrow> 'a conn \<Rightarrow> (bool \<times> 'a conn) option" where
  "drain_conn E s = map_option (\<lambda>(b, c). (b, fst s, c)) (drain_output E (snd s))"

definition run_work ::
  "proto_env \<Rightarrow> 'a callback_st \<Rightarrow> work_function \<Rightarrow> nat \<Rightarrow> nat option \<Rightarrow> 'a conn
   \<Rightarrow> (memcached_protocol_event_t \<times> nat \<times> nat option \<times> 'a conn) option" where
  "run_work E cb w len endptr s =
     (if w = Binary_process_data then memcached_binary_protocol_process_data E cb len endptr s
      else map_option (\<lambda>(event, len, endptr, s). (event, len, Some endptr, s))
             (memcached_ascii_protocol_process_data E (v1 cb) len s))"

definition determine_protocol ::
  "proto_env \<Rightarrow> 'a callback_st \<Rightarrow> nat \<Rightarrow> nat option \<Rightarrow> 'a conn
   \<Rightarrow> (memcached_protocol_event_t \<times> nat \<times> nat option \<times> 'a conn) option" where
  "determine_protocol E cb len endptr s =
     (if buffer s ! 0 = PROTOCOL_BINARY_REQ
      then run_work E cb Binary_process_data len endptr (set_work Binary_process_data s)
      else if interface_version cb = 1
      then run_work E cb Ascii_process_data len endptr (set_work Ascii_process_data s)
      else map_option (\<lambda>(_, s). (MEMCACHED_PROTOCOL_ERROR_EVENT, len, endptr, s))
             (drain_conn E (say E (bytes ''CLIENT_ERROR: Unsupported protocol'' @ crlf) s)))"

definition client_process ::
  "proto_env \<Rightarrow> 'a callback_st \<Rightarrow> nat \<Rightarrow> nat option \<Rightarrow> 'a conn
   \<Rightarrow> (memcached_protocol_event_t \<times> nat \<times> nat option \<times> 'a conn) option" where
  "client_process E cb len endptr s =
     (if work (snd s) = Determine_protocol then determine_protocol E cb len endptr s
      else run_work E cb (work (snd s)) len endptr s)"

text \<open>
  \<open>recv\<close> stores the bytes behind those of the client that are saved, which are then copied to the front.
\<close>

definition store_input :: "byte list \<Rightarrow> 'a conn \<Rightarrow> 'a conn" where
  "store_input bs s =
     (let c = snd s; all = client_input c @ bs
      in (fst s, c\<lparr>client_input := [],
                   root := (root c)\<lparr>input_buffer := all @ drop (length all) (input_buffer (root c))\<rparr>\<rparr>))"

definition save_input :: "byte list \<Rightarrow> 'a conn \<Rightarrow> 'a conn" where
  "save_input bs s = (fst s, (snd s)\<lparr>client_input := bs\<rparr>)"

definition set_recvs :: "recv_outcome list \<Rightarrow> 'a conn \<Rightarrow> 'a conn" where
  "set_recvs rs s = (fst s, (snd s)\<lparr>recvs := rs\<rparr>)"

definition set_error :: "int \<Rightarrow> 'a conn \<Rightarrow> 'a conn" where
  "set_error e s = (fst s, (snd s)\<lparr>client_error := e\<rparr>)"

text \<open>The end of the function: the output is drained, and the event tells what to wait for.\<close>

definition finish_work :: "proto_env \<Rightarrow> 'a conn \<Rightarrow> (memcached_protocol_event_t \<times> 'a conn) option" where
  "finish_work E s =
     (case drain_conn E s of
        None \<Rightarrow> None
      | Some (ok, s) \<Rightarrow>
          if \<not> ok then Some (MEMCACHED_PROTOCOL_ERROR_EVENT, s)
          else Some (if client_output (snd s) \<noteq> []
                     then MEMCACHED_PROTOCOL_READ_EVENT OR MEMCACHED_PROTOCOL_READ_EVENT
                     else MEMCACHED_PROTOCOL_READ_EVENT, s))"

text \<open>One round of the loop: an event that is returned, or whether there may be more data.\<close>

datatype 'a round_result = Return_event memcached_protocol_event_t "'a conn" | Go_on bool "'a conn"

definition work_round ::
  "proto_env \<Rightarrow> 'a callback_st \<Rightarrow> byte list \<Rightarrow> 'a conn \<Rightarrow> 'a round_result option" where
  "work_round E cb bs s =
     (let len = length (client_input (snd s)) + length bs
      in case client_process E cb len None (store_input bs s) of
           None \<Rightarrow> None
         | Some (event, len, endptr, s) \<Rightarrow>
             if event = MEMCACHED_PROTOCOL_ERROR_EVENT then Some (Return_event MEMCACHED_PROTOCOL_ERROR_EVENT s)
             else if 0 < len
             then if \<not> env_input E len then Some (Return_event MEMCACHED_PROTOCOL_ERROR_EVENT (set_error ENOMEM s))
                  else (case endptr of
                          None \<Rightarrow> None
                        | Some p \<Rightarrow>
                            if length (buffer s) < p + len then None
                            else Some (Go_on False (save_input (take len (drop p (buffer s))) s)))
             else Some (Go_on True s))"

fun recv_weight :: "recv_outcome list \<Rightarrow> nat" where
  "recv_weight [] = 0"
| "recv_weight (Received bs # rs) = length bs + 1 + recv_weight rs"
| "recv_weight (r # rs) = 1 + recv_weight rs"

text \<open>The callbacks of the application do not touch the socket, so that the list of answers is kept aside.\<close>

function work_loop ::
  "proto_env \<Rightarrow> 'a callback_st \<Rightarrow> recv_outcome list \<Rightarrow> 'a conn \<Rightarrow> (memcached_protocol_event_t \<times> 'a conn) option" where
  "work_loop E cb rs s =
     (case rs of
        [] \<Rightarrow> finish_work E (set_recvs [] s)
      | Recv_would_block # rs \<Rightarrow> finish_work E (set_recvs rs s)
      | Recv_fails e # rs \<Rightarrow> Some (MEMCACHED_PROTOCOL_ERROR_EVENT, set_error e (set_recvs rs s))
      | Closed # rs \<Rightarrow> map_option (\<lambda>(_, s). (MEMCACHED_PROTOCOL_ERROR_EVENT, s)) (drain_conn E (set_recvs rs s))
      | Received bs # rs \<Rightarrow>
          (let space = length (buffer s) - length (client_input (snd s));
               got = take space bs;
               rs = (if space < length bs then Received (drop space bs) # rs else rs)
           in if got = [] then map_option (\<lambda>(_, s). (MEMCACHED_PROTOCOL_ERROR_EVENT, s)) (drain_conn E (set_recvs rs s))
              else case work_round E cb got s of
                     None \<Rightarrow> None
                   | Some (Return_event event s) \<Rightarrow> Some (event, set_recvs rs s)
                   | Some (Go_on again s) \<Rightarrow>
                       if again then work_loop E cb rs s else finish_work E (set_recvs rs s)))"
  by pat_completeness auto
termination
  by (relation "measure (\<lambda>(E, cb, rs, s). recv_weight rs)") auto

declare work_loop.simps [simp del]

definition memcached_protocol_client_work ::
  "proto_env \<Rightarrow> 'a callback_st \<Rightarrow> 'a conn \<Rightarrow> (memcached_protocol_event_t \<times> 'a conn) option" where
  "memcached_protocol_client_work E cb s = work_loop E cb (recvs (snd s)) s"

section \<open>The events a client asks for\<close>

lemma finish_work_events: "finish_work E s = Some (ev, t) \<Longrightarrow> ev = MEMCACHED_PROTOCOL_ERROR_EVENT \<or> ev = MEMCACHED_PROTOCOL_READ_EVENT"
  by (auto simp: finish_work_def split: option.splits if_splits)

lemma work_round_event: "work_round E cb bs s = Some (Return_event ev t) \<Longrightarrow> ev = MEMCACHED_PROTOCOL_ERROR_EVENT"
  by (auto simp: work_round_def Let_def split: option.splits if_splits)

text \<open>
  the function that lets a client work never asks to be told when the socket can be written to,
  even when output is pending, and never reports that the application has paused the client.
\<close>

lemma client_work_events:
  "memcached_protocol_client_work E cb s = Some (ev, t) \<Longrightarrow>
     ev = MEMCACHED_PROTOCOL_ERROR_EVENT \<or> ev = MEMCACHED_PROTOCOL_READ_EVENT"
proof -
  have "work_loop E cb rs s = Some (ev, t) \<Longrightarrow> ev = MEMCACHED_PROTOCOL_ERROR_EVENT \<or> ev = MEMCACHED_PROTOCOL_READ_EVENT" for rs
  proof (induction E cb rs s rule: work_loop.induct)
    case (1 E cb rs s)
    show ?case
    proof (cases rs)
      case Nil
      with "1.prems" show ?thesis by (subst (asm) work_loop.simps) (auto dest: finish_work_events)
    next
      case (Cons r rs')
      show ?thesis
      proof (cases r)
        case (Received bs)
        define space where "space = length (buffer s) - length (client_input (snd s))"
        define rs2 where "rs2 = (if space < length bs then Received (drop space bs) # rs' else rs')"
        have step: "work_loop E cb rs s =
            (if take space bs = [] then map_option (\<lambda>(_, s). (MEMCACHED_PROTOCOL_ERROR_EVENT, s)) (drain_conn E (set_recvs rs2 s))
             else case work_round E cb (take space bs) s of
                    None \<Rightarrow> None
                  | Some (Return_event event s) \<Rightarrow> Some (event, set_recvs rs2 s)
                  | Some (Go_on again s) \<Rightarrow> if again then work_loop E cb rs2 s else finish_work E (set_recvs rs2 s))"
          unfolding Cons Received space_def rs2_def by (subst work_loop.simps) (simp only: Let_def list.case recv_outcome.case)
        note IH = "1.IH" [OF Cons Received space_def refl rs2_def]
        show ?thesis
          using "1.prems" IH unfolding step
          by (auto split: if_splits option.splits round_result.splits dest: finish_work_events work_round_event)
      qed (use Cons "1.prems" in \<open>subst (asm) work_loop.simps, auto dest: finish_work_events\<close>)+
    qed
  qed
  then show "memcached_protocol_client_work E cb s = Some (ev, t) \<Longrightarrow> ?thesis"
    unfolding memcached_protocol_client_work_def by blast
qed

section \<open>Packets that arrive in pieces\<close>

lemma buffer_set_work [simp]: "buffer (set_work w s) = buffer s"
  by (simp add: buffer_def set_work_def)

lemma work_store_input [simp]: "work (snd (store_input bs s)) = work (snd s)"
  by (simp add: store_input_def Let_def)

lemma set_work_same: "work (snd s) = w \<Longrightarrow> set_work w s = s"
  by (cases s) (auto simp: set_work_def)

lemma buffer_store_input:
  "buffer (store_input bs s) = (client_input (snd s) @ bs) @ drop (length (client_input (snd s) @ bs)) (buffer s)"
  by (simp add: buffer_def store_input_def Let_def)

text \<open>
  C37: when the start of a packet of the binary protocol arrives without the rest, the function saves
  it from a pointer that has not been set: the behaviour is undefined.
\<close>

lemma binary_fragment_undefined:
  assumes "work (snd s) = Determine_protocol \<or> work (snd s) = Binary_process_data" and "client_input (snd s) = []"
    and "recvs (snd s) = Received bs # rs" and "bs \<noteq> []" and "length bs \<le> length (buffer s)"
    and "bs ! 0 = PROTOCOL_BINARY_REQ" and "\<not> complete bs" and "\<And>n. env_input E n"
  shows "memcached_protocol_client_work E cb s = None"
proof -
  define t where "t = store_input bs s"
  have buf: "buffer t = bs @ drop (length bs) (buffer s)" using assms(2) by (simp add: t_def buffer_store_input)
  then have magic: "buffer t ! 0 = PROTOCOL_BINARY_REQ" using assms(4,6) by (simp add: nth_append)
  have "\<not> (24 \<le> length bs \<and> packet_total (buffer t) \<le> length bs)"
    using assms(7) packet_total_take [of "length bs" "buffer t"] buf by (auto simp: complete_def)
  then have "memcached_binary_protocol_process_data E cb (length bs) None (set_work Binary_process_data t) =
      Some (MEMCACHED_PROTOCOL_READ_EVENT, length bs, None, set_work Binary_process_data t)"
    using magic process_loop_stop [of "length bs" 0 "set_work Binary_process_data t"]
    by (simp add: memcached_binary_protocol_process_data_def request_at_def)
  moreover have "client_process E cb (length bs) None t =
      memcached_binary_protocol_process_data E cb (length bs) None (set_work Binary_process_data t)"
    using assms(1) magic set_work_same [of t Binary_process_data]
    by (auto simp: client_process_def determine_protocol_def run_work_def t_def)
  ultimately have "work_round E cb bs s = None"
    using assms(2,4,8) by (simp add: work_round_def t_def [symmetric])
  moreover have nonempty: "buffer s \<noteq> []" "\<not> length (buffer s) < length bs" using assms(4,5) by auto
  ultimately show ?thesis
    using assms(2-4) by (simp add: memcached_protocol_client_work_def work_loop.simps [of E cb "Received bs # rs" s] Let_def)
qed

text \<open>A storage command of the text protocol, of which some bytes have arrived.\<close>

definition line_state :: "'a conn \<Rightarrow> 'a conn \<Rightarrow> bool" where
  "line_state s t \<longleftrightarrow>
     fst t = fst s \<and> client_output (snd t) = client_output (snd s) \<and> wire (snd t) = wire (snd s) \<and>
     client_input (snd t) = client_input (snd s) \<and> work (snd t) = work (snd s) \<and> length (buffer t) = length (buffer s)"

definition split_of :: "byte list \<Rightarrow> byte list \<Rightarrow> byte list \<Rightarrow> bool" where
  "split_of msg a b \<longleftrightarrow> a @ b = msg \<and> a \<noteq> [] \<and> b \<noteq> []"

lemma index_of_absent: "10 \<notin> set l \<Longrightarrow> index_of 10 l = None"
  by (induction l) auto

lemma text_fragment:
  assumes cmd: "cmd \<in> plain_storage" "has_callback cb cmd" and key: "key_ok key"
    and small: "flags < 2 ^ 32" "exptime < 2 ^ 32" "length data < 2 ^ 32"
      "length (joined (store_words cmd key flags exptime (length data))) < 2 ^ 32"
    and split: "split_of (store_message (store_words cmd key flags exptime (length data)) data) a b"
    and buf: "buffer s = a @ junk"
  shows "\<exists>ws a' t. memcached_ascii_protocol_process_data E cb (length a) s =
           Some (MEMCACHED_PROTOCOL_READ_EVENT, length a, 0, t) \<and> line_state s t \<and>
         take (length a) (buffer t) = a' \<and> length a' = length a \<and>
         store_line cmd key flags exptime (length data) ws \<and> a' @ b = store_message ws data"
proof -
  let ?ws = "store_words cmd key flags exptime (length data)"
  note line = store_line_words [OF cmd(1) key, of flags exptime "length data"]
  have msg: "a @ b = joined ?ws @ 10 # data @ crlf" using split by (simp add: split_of_def store_message_def)
  show ?thesis
  proof (cases "length a \<le> length (joined ?ws)")
    case True
    then have "a = take (length a) (joined ?ws)" using arg_cong [OF msg, of "take (length a)"] by simp
    then have "10 \<notin> set a"
      using no_newline [of ?ws] line by (metis in_set_takeD store_line_def)
    then have "memcached_ascii_protocol_process_data E cb (length a) s = Some (MEMCACHED_PROTOCOL_READ_EVENT, length a, 0, s)"
      by (simp add: memcached_ascii_protocol_process_data_def ascii_loop.simps [of E cb 0 "length a" s] buf index_of_absent)
    with line msg buf show ?thesis
      by (intro exI [of _ ?ws] exI [of _ a] exI [of _ s]) (simp add: line_state_def store_message_def)
  next
    case False
    define n c where "n = Suc (length (joined ?ws))" and "c = drop n a"
    have "n \<le> length a" using False by (simp add: n_def)
    with arg_cong [OF msg, of "take n"] arg_cong [OF msg, of "drop n"]
    have "take n a = joined ?ws @ [10]" "c @ b = data @ crlf" by (simp_all add: n_def c_def)
    then have c: "a = joined ?ws @ 10 # c" "c @ b = data @ crlf"
      using append_take_drop_id [of n a] by (simp_all add: c_def)
    define t where "t = set_buffer (joined (spaced ?ws) @ 10 # c @ junk)
      (set_line_state cmd (store_at [] cmd key flags exptime (length data) (c @ junk)) s)"
    have len: "length a < length (joined ?ws) + length data + 3"
      using arg_cong [OF c(2), of length] c(1) split by (cases b) (simp_all add: split_of_def crlf_def)
    have same: "length (joined (spaced ?ws)) = length (joined ?ws)" by (metis length_zeroed zeroed_spaced)
    have "memcached_ascii_protocol_process_data E cb (length a) s = Some (MEMCACHED_PROTOCOL_READ_EVENT, length a, 0, t)"
      using store_incomplete [OF cmd key line, of s "[]" "c @ junk" "length a" E] buf c(1) small len
      by (simp add: memcached_ascii_protocol_process_data_def t_def)
    moreover have "line_state s t"
      using same buf c(1)
      by (simp add: t_def line_state_def set_buffer_def set_line_state_def set_mute_def set_ascii_command_def buffer_def)
    moreover have "take (length a) (buffer t) = joined (spaced ?ws) @ 10 # c"
      using c(1) same by (simp add: t_def set_buffer_def buffer_def)
    ultimately show ?thesis
      using c same store_line_spaced [OF line]
      by (intro exI [of _ "spaced ?ws"] exI [of _ "joined (spaced ?ws) @ 10 # c"] exI [of _ t])
         (simp add: store_message_def)
  qed
qed

lemma ascii_round:
  assumes w: "work (snd s) = Determine_protocol \<or> work (snd s) = Ascii_process_data" and "interface_version cb = 1"
    and first: "buffer (store_input bs s) ! 0 \<noteq> PROTOCOL_BINARY_REQ" and len: "len = length (client_input (snd s)) + length bs"
  shows "client_process E cb len None (store_input bs s) =
    map_option (\<lambda>(event, len, endptr, s). (event, len, Some endptr, s))
      (memcached_ascii_protocol_process_data E (v1 cb) len (set_work Ascii_process_data (store_input bs s)))"
  using assms set_work_same [of "store_input bs s" Ascii_process_data]
  by (auto simp: client_process_def determine_protocol_def run_work_def)

lemma finish_work_empty:
  "client_output (snd s) = [] \<Longrightarrow> finish_work E s = Some (MEMCACHED_PROTOCOL_READ_EVENT, s)"
  by (cases s) (simp add: finish_work_def drain_conn_def drain_empty)

lemma work_loop_nil: "work_loop E cb [] s = finish_work E (set_recvs [] s)"
  by (subst work_loop.simps) simp

lemma work_loop_received:
  assumes "bs \<noteq> []" and "length (client_input (snd s)) + length bs \<le> length (buffer s)"
  shows "work_loop E cb (Received bs # rs) s =
    (case work_round E cb bs s of
       None \<Rightarrow> None
     | Some (Return_event event s) \<Rightarrow> Some (event, set_recvs rs s)
     | Some (Go_on again s) \<Rightarrow> if again then work_loop E cb rs s else finish_work E (set_recvs rs s))"
proof -
  have "0 < length bs" using assms(1) by simp
  then have "\<not> length (buffer s) - length (client_input (snd s)) < length bs"
    "\<not> length (buffer s) \<le> length (client_input (snd s))" using assms(2) by linarith+
  with assms(1) show ?thesis by (subst work_loop.simps) (simp add: Let_def)
qed

lemma store_message_head:
  assumes "cmd \<in> plain_storage" and "store_line cmd key flags exptime n ws" and "a @ b = store_message ws data" and "a \<noteq> []"
  shows "a ! 0 \<noteq> PROTOCOL_BINARY_REQ"
proof -
  obtain c vs where c: "joined ws = bytes (command_name cmd) @ c # joined vs"
    by (rule store_line_name [OF assms(2)])
  obtain x xs where x: "bytes (command_name cmd) = x # xs" "x \<noteq> PROTOCOL_BINARY_REQ"
    using assms(1) by (auto simp: plain_storage_def command_bytes)
  then have "(a @ b) ! 0 = x" using assms(3) c by (simp add: store_message_def)
  with assms(4) x(2) show ?thesis by (simp add: nth_append)
qed

text \<open>The first part of the message is saved, with its line put back if it was complete.\<close>

lemma text_first_part:
  assumes cmd: "cmd \<in> plain_storage" "has_callback (v1 cb) cmd" and key: "key_ok key" and version: "interface_version cb = 1"
    and small: "flags < 2 ^ 32" "exptime < 2 ^ 32" "length data < 2 ^ 32"
      "length (joined (store_words cmd key flags exptime (length data))) < 2 ^ 32"
    and split: "split_of (store_message (store_words cmd key flags exptime (length data)) data) a b"
    and client: "client_input (snd s) = []" "client_output (snd s) = []" "recvs (snd s) = [Received a]"
      "work (snd s) = Determine_protocol \<or> work (snd s) = Ascii_process_data" "length a \<le> length (buffer s)"
    and memory: "\<And>n. env_input E n"
  shows "\<exists>ws t. memcached_protocol_client_work E cb s = Some (MEMCACHED_PROTOCOL_READ_EVENT, t) \<and>
      fst t = fst s \<and> wire (snd t) = wire (snd s) \<and> client_output (snd t) = [] \<and> work (snd t) = Ascii_process_data \<and>
      length (buffer t) = length (buffer s) \<and> length (client_input (snd t)) = length a \<and>
      store_line cmd key flags exptime (length data) ws \<and> client_input (snd t) @ b = store_message ws data"
proof -
  define s1 where "s1 = set_work Ascii_process_data (store_input a s)"
  have a: "a \<noteq> []" using split by (simp add: split_of_def)
  have buf: "buffer (store_input a s) = a @ drop (length a) (buffer s)" using client(1) by (simp add: buffer_store_input)
  from text_fragment [OF cmd key small split, of s1 "drop (length a) (buffer s)" E] obtain ws a' t where t:
    "memcached_ascii_protocol_process_data E (v1 cb) (length a) s1 = Some (MEMCACHED_PROTOCOL_READ_EVENT, length a, 0, t)"
    "line_state s1 t" "take (length a) (buffer t) = a'" "length a' = length a"
    "store_line cmd key flags exptime (length data) ws" "a' @ b = store_message ws data"
    using buf by (auto simp: s1_def)
  have "a ! 0 \<noteq> PROTOCOL_BINARY_REQ"
    using store_message_head [OF cmd(1) store_line_words [OF cmd(1) key], of a b flags exptime "length data" data] split a
    by (simp add: split_of_def)
  then have "buffer (store_input a s) ! 0 \<noteq> PROTOCOL_BINARY_REQ" using a by (simp add: buf nth_append)
  with ascii_round [OF client(4) version, of a "length a" E] client(1) t(1)
  have "client_process E cb (length a) None (store_input a s) = Some (MEMCACHED_PROTOCOL_READ_EVENT, length a, Some 0, t)"
    by (simp add: s1_def)
  moreover have len: "length (buffer t) = length (buffer s)" "length a \<le> length (buffer t)"
    using t(2) buf client(5) by (simp_all add: line_state_def s1_def)
  ultimately have "work_round E cb a s = Some (Go_on False (save_input a' t))"
    using client(1) memory a t(3) by (simp add: work_round_def)
  moreover have state: "client_output (snd t) = []" "fst t = fst s" "wire (snd t) = wire (snd s)" "work (snd t) = Ascii_process_data"
    using t(2) client(2) by (simp_all add: line_state_def s1_def set_work_def store_input_def Let_def)
  ultimately have "memcached_protocol_client_work E cb s = Some (MEMCACHED_PROTOCOL_READ_EVENT, set_recvs [] (save_input a' t))"
    using work_loop_received [OF a, of s E cb "[]"] client finish_work_empty [of "set_recvs [] (save_input a' t)"]
    by (simp add: memcached_protocol_client_work_def set_recvs_def save_input_def)
  with t(4-6) state len show ?thesis
    by (intro exI [of _ ws] exI [of _ "set_recvs [] (save_input a' t)"])
       (simp add: set_recvs_def save_input_def buffer_def)
qed

text \<open>The rest of the message completes it.\<close>

lemma text_last_part:
  assumes cmd: "cmd \<in> plain_storage" "has_callback (v1 cb) cmd" and key: "key_ok key" and version: "interface_version cb = 1"
    and tidy: "tidy (v1 cb)" and small: "flags < 2 ^ 32" "exptime < 2 ^ 32" "length data < 2 ^ 32" "length (joined ws) < 2 ^ 32"
    and line: "store_line cmd key flags exptime (length data) ws"
    and msg: "client_input (snd t) @ b = store_message ws data" and b: "b \<noteq> []" "client_input (snd t) \<noteq> []"
    and client: "work (snd t) = Ascii_process_data" "recvs (snd t) = [Received b]"
      "length (client_input (snd t)) + length b \<le> length (buffer t)"
  shows "\<exists>k d u. take (length key) k = key \<and> take (length data) d = data \<and> \<not> mute (snd u) \<and> fst u = fst t \<and>
    memcached_protocol_client_work E cb t =
    (case store_callback (v1 cb) cmd k (of_nat (length key)) d (of_nat (length data)) (of_nat flags) (of_nat exptime) 0 u of
       None \<Rightarrow> None
     | Some ((rval, cas), v) \<Rightarrow> finish_work E (set_recvs [] (say E (store_answer cmd rval) v)))"
proof -
  let ?s = "set_work Ascii_process_data (store_input b t)" and ?n = "length (store_message ws data)"
  define rest where "rest = drop ?n (buffer t)"
  define tail where "tail = data @ crlf @ rest"
  have buf: "buffer (store_input b t) = store_message ws data @ rest" using msg by (simp add: buffer_store_input rest_def)
  have n: "?n = length (client_input (snd t)) + length b" using arg_cong [OF msg, of length] by simp
  have "(store_message ws data @ rest) ! 0 = client_input (snd t) ! 0" using b(2) by (simp add: nth_append flip: msg)
  then have "buffer (store_input b t) ! 0 \<noteq> PROTOCOL_BINARY_REQ"
    using store_message_head [OF cmd(1) line msg b(2)] by (simp add: buf)
  with ascii_round [of t cb b ?n E] client(1) version n
  have process: "client_process E cb ?n None (store_input b t) =
      map_option (\<lambda>(event, len, endptr, s). (event, len, Some endptr, s)) (memcached_ascii_protocol_process_data E (v1 cb) ?n ?s)"
    by simp
  define k u where "k = key_memory key flags exptime (length data) tail"
    and "u = set_line_state cmd (store_at [] cmd key flags exptime (length data) tail) ?s"
  have run: "memcached_ascii_protocol_process_data E (v1 cb) ?n ?s =
    (case store_callback (v1 cb) cmd k (of_nat (length key)) tail (of_nat (length data)) (of_nat flags) (of_nat exptime) 0 u of
       None \<Rightarrow> None
     | Some ((rval, cas), s) \<Rightarrow> Some (MEMCACHED_PROTOCOL_READ_EVENT, 0, ?n, say E (store_answer cmd rval) s))"
    unfolding k_def u_def tail_def by (rule store_message_run [OF cmd key tidy line _ small]) (simp add: buf)
  have "memcached_protocol_client_work E cb t = (case work_round E cb b t of
       None \<Rightarrow> None
     | Some (Return_event event s) \<Rightarrow> Some (event, set_recvs [] s)
     | Some (Go_on again s) \<Rightarrow> finish_work E (set_recvs [] s))"
    using work_loop_received [OF b(1) client(3), of E cb "[]"]
    by (simp add: memcached_protocol_client_work_def client(2) work_loop_nil split: option.split round_result.split)
  also have "\<dots> = (case store_callback (v1 cb) cmd k (of_nat (length key)) tail (of_nat (length data)) (of_nat flags) (of_nat exptime) 0 u of
       None \<Rightarrow> None
     | Some ((rval, cas), v) \<Rightarrow> finish_work E (set_recvs [] (say E (store_answer cmd rval) v)))"
    unfolding work_round_def n [symmetric] Let_def process run by (simp split: option.split)
  finally show ?thesis
    by (intro exI [of _ k] exI [of _ tail] exI [of _ u])
       (simp add: k_def u_def tail_def key_memory_def set_work_def store_input_def Let_def)
qed

text \<open>
  C8: a storage command of the text protocol may arrive in two pieces, cut anywhere: the first call
  keeps what has arrived, and the second call passes the key, the numbers and the data that were
  written to the callback of the application and answers with its result.
\<close>

lemma text_fragments:
  assumes "cmd \<in> plain_storage" and "has_callback (v1 cb) cmd" and "key_ok key" and "interface_version cb = 1" and "tidy (v1 cb)"
    and "flags < 2 ^ 32" and "exptime < 2 ^ 32" and "length data < 2 ^ 32"
    and "length (joined (store_words cmd key flags exptime (length data))) < 2 ^ 32"
    and "split_of (store_message (store_words cmd key flags exptime (length data)) data) a b"
    and "client_input (snd s) = []" and "client_output (snd s) = []" and "recvs (snd s) = [Received a]"
    and "work (snd s) = Determine_protocol \<or> work (snd s) = Ascii_process_data"
    and "length a + length b \<le> length (buffer s)" and "\<And>n. env_input E n"
  shows "\<exists>t. memcached_protocol_client_work E cb s = Some (MEMCACHED_PROTOCOL_READ_EVENT, t) \<and>
    fst t = fst s \<and> wire (snd t) = wire (snd s) \<and> client_output (snd t) = [] \<and>
    (\<exists>k d u. take (length key) k = key \<and> take (length data) d = data \<and> \<not> mute (snd u) \<and> fst u = fst s \<and>
      memcached_protocol_client_work E cb (set_recvs [Received b] t) =
      (case store_callback (v1 cb) cmd k (of_nat (length key)) d (of_nat (length data)) (of_nat flags) (of_nat exptime) 0 u of
         None \<Rightarrow> None
       | Some ((rval, cas), v) \<Rightarrow> finish_work E (set_recvs [] (say E (store_answer cmd rval) v))))"
proof -
  have split: "a \<noteq> []" "b \<noteq> []" using assms(10) by (simp_all add: split_of_def)
  from text_first_part [OF assms(1-4,6-14) _ assms(16)] assms(15) obtain ws t where t:
    "memcached_protocol_client_work E cb s = Some (MEMCACHED_PROTOCOL_READ_EVENT, t)" "fst t = fst s"
    "wire (snd t) = wire (snd s)" "client_output (snd t) = []" "work (snd t) = Ascii_process_data"
    "length (buffer t) = length (buffer s)" "length (client_input (snd t)) = length a"
    "store_line cmd key flags exptime (length data) ws" "client_input (snd t) @ b = store_message ws data" by auto
  let ?t = "set_recvs [Received b] t"
  have same: "fst ?t = fst t" "client_input (snd ?t) = client_input (snd t)" "buffer ?t = buffer t"
    "work (snd ?t) = work (snd t)" "recvs (snd ?t) = [Received b]" by (simp_all add: set_recvs_def buffer_def)
  have "length (joined ws) < 2 ^ 32" using assms(9) store_line_length(1) [OF t(8)] by simp
  moreover have "client_input (snd t) \<noteq> []" using t(7) split(1) by auto
  ultimately show ?thesis
    using text_last_part [OF assms(1-8) _ t(8), of ?t b E] t same split(2) assms(15) by (intro exI [of _ t]) simp
qed

section \<open>Witnesses\<close>

text \<open>A client with a small input buffer.\<close>

definition small_client :: "recv_outcome list \<Rightarrow> memcached_protocol_client_st" where
  "small_client rs = new_client\<lparr>root := (root new_client)\<lparr>input_buffer := replicate 64 0\<rparr>, recvs := rs\<rparr>"

lemma small_client_simps [simp]:
  "client_input (small_client rs) = []" "client_output (small_client rs) = []" "recvs (small_client rs) = rs"
  "work (small_client rs) = Determine_protocol" "length (buffer (a, small_client rs)) = 64" "wire (small_client rs) = []"
  by (simp_all add: small_client_def new_client_def buffer_def)

lemma client_work_events_witness:
  "\<exists>ev t. memcached_protocol_client_work all_memory bare_application ((), small_client []) = Some (ev, t) \<and>
     (ev = MEMCACHED_PROTOCOL_ERROR_EVENT \<or> ev = MEMCACHED_PROTOCOL_READ_EVENT)"
proof -
  have "memcached_protocol_client_work all_memory bare_application ((), small_client []) =
      Some (MEMCACHED_PROTOCOL_READ_EVENT, set_recvs [] ((), small_client []))"
    using finish_work_empty [of "set_recvs [] ((), small_client [])" all_memory]
    by (simp add: memcached_protocol_client_work_def work_loop_nil set_recvs_def)
  from client_work_events [OF this] this show ?thesis by blast
qed

lemma binary_fragment_undefined_witness:
  "memcached_protocol_client_work all_memory bare_application ((), small_client [Received [0x80, 0x0a]]) = None"
  by (rule binary_fragment_undefined [of _ "[0x80, 0x0a]" "[]"]) (simp_all add: complete_def all_memory_def)

lemma text_fragments_witness:
  "\<exists>t. memcached_protocol_client_work all_memory one_value
      ([], small_client [Received (take 3 (store_message sample_words [97]))]) = Some (MEMCACHED_PROTOCOL_READ_EVENT, t) \<and>
    fst t = []"
proof -
  have "length (store_message sample_words [97 :: byte]) = 16" by (simp add: length_sample)
  then have "split_of (store_message sample_words [97]) (take 3 (store_message sample_words [97]))
      (drop 3 (store_message sample_words [97]))"
    by (simp add: split_of_def) (simp add: store_message_def)
  from text_fragments [OF _ _ sample_key _ one_value_tidy _ _ _ _ this, of "([], small_client [Received (take 3 (store_message sample_words [97]))])" all_memory]
  show ?thesis
    by (auto simp: plain_storage_def one_value_has_set length_sample all_memory_def)
qed

end
