(* ===== verification/Client_IO.thy ===== *)
theory Client_IO
  imports Memcached
begin

text \<open>
  The input side of \<open>io.c\<close>: a server of the client reads from its socket into \<open>read_buffer\<close> and hands
  the bytes on. The state is the server structure, the client object it belongs to and the socket:
  the lists of what the next calls of \<open>read\<close>, \<open>write\<close> and \<open>poll\<close> give, the bytes written, and the
  results that were handed to the callbacks. A list that is used up stands for a peer that is gone:
  \<open>read\<close> sees the end of the file, \<open>write\<close> fails, and \<open>poll\<close> times out. Calls on the descriptor \<open>- 1\<close>
  fail with \<open>EBADF\<close>.
\<close>

section \<open>The socket\<close>

datatype read_answer = Received "byte list" | Read_error int
datatype write_answer = Sent nat | Write_error int

text \<open>An error of \<open>poll\<close> comes with \<open>errno\<close>, with whether \<open>POLLERR\<close> is set, and with \<open>SO_ERROR\<close>.\<close>

datatype poll_answer = Poll_ready | Poll_timeout | Poll_error int bool int

abbreviation (input) EINTR :: int where "EINTR \<equiv> 4"
abbreviation (input) EBADF :: int where "EBADF \<equiv> 9"
abbreviation (input) EAGAIN :: int where "EAGAIN \<equiv> 11"
abbreviation (input) EPIPE :: int where "EPIPE \<equiv> 32"
abbreviation (input) ERESTART :: int where "ERESTART \<equiv> 85"
abbreviation (input) ENOBUFS :: int where "ENOBUFS \<equiv> 105"

record io_st =
  server :: memcached_server_st
  memc :: memcached_st
  net_reads :: "read_answer list"
  net_writes :: "write_answer list"
  net_polls :: "poll_answer list"
  net_sent :: "byte list"
  net_log :: "memcached_result_st list"

text \<open>
  The allocator, the block that \<open>malloc\<close> gives for a server structure, what is on the stack in
  fresh buffers, a fresh result, whether setting \<open>TCP_CORK\<close> succeeds, and the callbacks behind an
  address: each sees all the results that were handed to callbacks so far.
\<close>

record io_env =
  io_realloc :: realloc_fn
  io_malloc_server :: "memcached_server_st option"
  io_stack :: "byte list"
  io_junk_result :: memcached_result_st
  io_cork_works :: bool
  io_callbacks :: "nat \<Rightarrow> (memcached_result_st list \<Rightarrow> memcached_return_t) list"

definition local_buffer :: "io_env \<Rightarrow> nat \<Rightarrow> byte list" where
  "local_buffer E n = take n (io_stack E @ replicate n 0)"

lemma length_local_buffer [simp]: "length (local_buffer E n) = n"
  by (simp add: local_buffer_def)

text \<open>\<open>read(fd, buffer, n)\<close>: the errno, or the bytes read.\<close>

definition sys_read :: "nat \<Rightarrow> io_st \<Rightarrow> (int + byte list) \<times> io_st" where
  "sys_read n s =
     (if fd (server s) = - 1 then (Inl EBADF, s)
      else case net_reads s of
             [] \<Rightarrow> (Inr [], s)
           | Received bs # rs \<Rightarrow>
               (Inr (take n bs), s\<lparr>net_reads := (if length bs \<le> n then rs else Received (drop n bs) # rs)\<rparr>)
           | Read_error e # rs \<Rightarrow> (Inl e, s\<lparr>net_reads := rs\<rparr>))"

definition sys_poll :: "io_st \<Rightarrow> poll_answer \<times> io_st" where
  "sys_poll s = (case net_polls s of [] \<Rightarrow> (Poll_timeout, s) | a # as \<Rightarrow> (a, s\<lparr>net_polls := as\<rparr>))"

definition on_server :: "(memcached_server_st \<Rightarrow> memcached_server_st) \<Rightarrow> io_st \<Rightarrow> io_st" where
  "on_server f s = s\<lparr>server := f (server s)\<rparr>"

lemma on_server_simps [simp]:
  "server (on_server f s) = f (server s)" "memc (on_server f s) = memc s"
  "net_reads (on_server f s) = net_reads s" "net_writes (on_server f s) = net_writes s"
  "net_polls (on_server f s) = net_polls s" "net_sent (on_server f s) = net_sent s"
  "net_log (on_server f s) = net_log s"
  by (simp_all add: on_server_def)

section \<open>Closing a broken connection\<close>

definition memcached_io_close :: "io_st \<Rightarrow> memcached_return_t \<times> io_st" where
  "memcached_io_close s =
     (if fd (server s) = - 1 then (MEMCACHED_SUCCESS, s)
      else (MEMCACHED_SUCCESS, s\<lparr>net_reads := [], net_writes := [], net_polls := []\<rparr>))"

definition set_last_disconnected_host :: "io_env \<Rightarrow> io_st \<Rightarrow> io_st" where
  "set_last_disconnected_host E s =
     s\<lparr>memc := (memc s)\<lparr>last_disconnected_server :=
          memcached_server_clone (io_malloc_server E) (Some (sint (retry_timeout (memc s)))) None
            (Some (server s))\<rparr>\<rparr>"

definition memcached_server_response_increment :: "memcached_server_st \<Rightarrow> memcached_server_st" where
  "memcached_server_response_increment p = p\<lparr>cursor_active := cursor_active p + 1\<rparr>"

definition memcached_server_response_decrement :: "memcached_server_st \<Rightarrow> memcached_server_st" where
  "memcached_server_response_decrement p = p\<lparr>cursor_active := cursor_active p - 1\<rparr>"

definition memcached_server_response_reset :: "memcached_server_st \<Rightarrow> memcached_server_st" where
  "memcached_server_response_reset p = p\<lparr>cursor_active := 0\<rparr>"

text \<open>The fields that \<open>memcached_quit_server\<close> sets after it has closed the socket.\<close>

definition disconnected :: "memcached_server_st \<Rightarrow> memcached_server_st" where
  "disconnected p =
     memcached_server_response_reset
       (p\<lparr>fd := - 1,
          write_buffer_offset := (if conn_type p = MEMCACHED_CONNECTION_UDP then UDP_DATAGRAM_HEADER_LENGTH else 0),
          read_buffer_length := 0, read_ptr := 0, is_shutting_down := False\<rparr>)"

text \<open>\<open>memcached_quit_server\<close> with \<open>io_death\<close>.\<close>

definition quit_dead_server :: "io_env \<Rightarrow> io_st \<Rightarrow> io_st" where
  "quit_dead_server E s =
     (let s = (if fd (server s) \<noteq> - 1 then snd (memcached_io_close s) else s);
          s = on_server disconnected s;
          s = on_server (\<lambda>p. p\<lparr>server_failure_counter := server_failure_counter p + 1\<rparr>) s
      in set_last_disconnected_host E s)"

definition memcached_io_reset :: "io_env \<Rightarrow> io_st \<Rightarrow> io_st" where
  "memcached_io_reset E s = quit_dead_server E s"

section \<open>Waiting\<close>

definition set_cached_errno :: "int \<Rightarrow> io_st \<Rightarrow> io_st" where
  "set_cached_errno e s = on_server (\<lambda>p. p\<lparr>cached_errno := e\<rparr>) s"

text \<open>
  The loop of \<open>io_wait\<close>: \<open>loop_max\<close> starts at 5 and is decremented first, so that there are four calls
  of \<open>poll\<close>; \<open>errno\<close> is what the last call left.
\<close>

fun poll_loop :: "io_env \<Rightarrow> nat \<Rightarrow> int \<Rightarrow> io_st \<Rightarrow> memcached_return_t \<times> io_st" where
  "poll_loop E 0 errno s = (MEMCACHED_FAILURE, quit_dead_server E (set_cached_errno errno s))"
| "poll_loop E (Suc loop_max) errno s =
     (case sys_poll s of
        (Poll_ready, s) \<Rightarrow> (MEMCACHED_SUCCESS, s)
      | (Poll_timeout, s) \<Rightarrow> (MEMCACHED_TIMEOUT, s)
      | (Poll_error e pollerr err, s) \<Rightarrow>
          if e = ERESTART \<or> e = EINTR then poll_loop E loop_max e s
          else (MEMCACHED_FAILURE,
                quit_dead_server E (set_cached_errno (if pollerr then (if err = 0 then e else err) else e) s)))"

text \<open>\<open>io_wait\<close> with \<open>MEM_READ\<close>; waiting for writing purges first, see the theory of the output side.\<close>

definition io_wait_read :: "io_env \<Rightarrow> io_st \<Rightarrow> memcached_return_t \<times> io_st" where
  "io_wait_read E s = poll_loop E 4 0 s"

lemma io_wait_read_success:
  "io_wait_read E s = (MEMCACHED_SUCCESS, s') \<Longrightarrow> \<exists>polls. s' = s\<lparr>net_polls := polls\<rparr>"
proof -
  have "poll_loop E n errno s = (MEMCACHED_SUCCESS, s') \<Longrightarrow> \<exists>polls. s' = s\<lparr>net_polls := polls\<rparr>" for n errno s
  proof (induction n arbitrary: errno s)
    case (Suc n)
    show ?case
    proof (cases "net_polls s")
      case (Cons a as)
      with Suc show ?thesis
        by (cases a) (fastforce simp: sys_poll_def split: if_splits)+
    qed (use Suc.prems in \<open>simp add: sys_poll_def\<close>)
  qed simp
  then show "io_wait_read E s = (MEMCACHED_SUCCESS, s') \<Longrightarrow> \<exists>polls. s' = s\<lparr>net_polls := polls\<rparr>"
    by (simp add: io_wait_read_def)
qed

section \<open>Reading\<close>

definition filled :: "byte list \<Rightarrow> memcached_server_st \<Rightarrow> memcached_server_st" where
  "filled data p =
     p\<lparr>io_bytes_sent := 0, read_data_length := length data, read_buffer_length := length data, read_ptr := 0,
       read_buffer := memcpy_at (read_buffer p) 0 data\<rparr>"

lemma filled_length [simp]: "read_buffer_length (filled data p) = length data"
  by (simp add: filled_def)

text \<open>The inner loop of \<open>memcached_io_read\<close>: refill the empty buffer.\<close>

function fill_read_buffer :: "io_env \<Rightarrow> io_st \<Rightarrow> memcached_return_t \<times> io_st" where
  "fill_read_buffer E s =
     (case sys_read MEMCACHED_MAX_BUFFER s of
        (Inr data, s) \<Rightarrow>
          if data \<noteq> []
          then (MEMCACHED_SUCCESS, on_server (filled data) s)
          else (MEMCACHED_UNKNOWN_READ_FAILURE, quit_dead_server E s)
      | (Inl errno, s) \<Rightarrow>
          let s = set_cached_errno errno s
          in if errno = EAGAIN \<or> errno = EINTR \<or> errno = ERESTART
             then (case io_wait_read E s of
                     (rc, s) \<Rightarrow> if rc = MEMCACHED_SUCCESS then fill_read_buffer E s else (rc, quit_dead_server E s))
             else (MEMCACHED_ERRNO, quit_dead_server E s))"
  by pat_completeness auto
termination
  by (relation "measure (\<lambda>(E, s). length (net_reads s))")
     (auto simp: sys_read_def set_cached_errno_def split: if_splits list.splits read_answer.splits
           dest!: io_wait_read_success [OF sym])

declare fill_read_buffer.simps [simp del]

lemma fill_read_buffer_length:
  "fill_read_buffer E s = (MEMCACHED_SUCCESS, s') \<Longrightarrow> 0 < read_buffer_length (server s')"
proof (induction E s rule: fill_read_buffer.induct)
  case (1 E s)
  show ?case
    using 1(2)
    apply (subst (asm) fill_read_buffer.simps)
    apply (auto simp: Let_def split: prod.splits sum.splits if_splits intro: 1(1) [OF sym _ refl _ sym])
    done
qed

definition refill :: "io_env \<Rightarrow> io_st \<Rightarrow> memcached_return_t \<times> io_st" where
  "refill E s = (if read_buffer_length (server s) = 0 then fill_read_buffer E s else (MEMCACHED_SUCCESS, s))"

lemma refill_length: "refill E s = (MEMCACHED_SUCCESS, s') \<Longrightarrow> 0 < read_buffer_length (server s')"
  by (auto simp: refill_def dest: fill_read_buffer_length split: if_splits)

text \<open>The next \<open>n\<close> bytes at \<open>read_ptr\<close>, and moving past them.\<close>

definition buffer_bytes :: "nat \<Rightarrow> memcached_server_st \<Rightarrow> byte list" where
  "buffer_bytes n p = map (\<lambda>i. read_buffer p ! i) [read_ptr p ..< read_ptr p + n]"

definition advance :: "nat \<Rightarrow> memcached_server_st \<Rightarrow> memcached_server_st" where
  "advance n p = p\<lparr>read_buffer_length := read_buffer_length p - n, read_ptr := read_ptr p + n\<rparr>"

lemma length_buffer_bytes [simp]: "length (buffer_bytes n p) = n"
  by (simp add: buffer_bytes_def)

lemma buffer_bytes_Nil [simp]: "buffer_bytes n p = [] \<longleftrightarrow> n = 0"
  by (auto simp: buffer_bytes_def)

text \<open>
  The return code, the bytes that were put into the caller's buffer and the state; \<open>nread\<close> is \<open>- 1\<close> on
  an error and the number of bytes otherwise.
\<close>

function memcached_io_read :: "io_env \<Rightarrow> nat \<Rightarrow> io_st \<Rightarrow> memcached_return_t \<times> byte list \<times> io_st" where
  "memcached_io_read E len s =
     (if len = 0 then (MEMCACHED_SUCCESS, [], on_server (\<lambda>p. p\<lparr>server_failure_counter := 0\<rparr>) s)
      else
        case refill E s of
          (rc, s) \<Rightarrow>
            if rc \<noteq> MEMCACHED_SUCCESS then (rc, [], s)
            else
              let n = (if len > 1 then min len (read_buffer_length (server s)) else 1);
                  data = buffer_bytes n (server s); s = on_server (advance n) s
              in if len > 1
                 then (case memcached_io_read E (len - n) s of (rc, rest, s) \<Rightarrow> (rc, data @ rest, s))
                 else (MEMCACHED_SUCCESS, data, on_server (\<lambda>p. p\<lparr>server_failure_counter := 0\<rparr>) s))"
  by pat_completeness auto
termination
  by (relation "measure (\<lambda>(E, len, s). len)")
     (auto split: if_splits dest!: refill_length [OF sym])

declare memcached_io_read.simps [simp del]

lemma io_read_length:
  "memcached_io_read E len s = (MEMCACHED_SUCCESS, data, s') \<Longrightarrow> length data = len"
proof (induction len arbitrary: s data s' rule: less_induct)
  case (less len)
  show ?case
  proof (cases "1 < len")
    case True
    obtain s1 where r: "refill E s = (MEMCACHED_SUCCESS, s1)"
      using less.prems True by (subst (asm) memcached_io_read.simps) (auto split: prod.splits if_splits)
    define n where "n = min len (read_buffer_length (server s1))"
    have n: "0 < n" "n \<le> len" using refill_length [OF r] True by (auto simp: n_def)
    obtain rest where "memcached_io_read E (len - n) (on_server (advance n) s1) = (MEMCACHED_SUCCESS, rest, s')"
      "data = buffer_bytes n (server s1) @ rest"
      using less.prems True r by (subst (asm) memcached_io_read.simps) (auto simp: Let_def n_def split: prod.splits)
    with less.IH [of "len - n"] n show ?thesis by simp
  next
    case False
    with less.prems show ?thesis
      by (subst (asm) memcached_io_read.simps) (auto simp: Let_def split: prod.splits if_splits)
  qed
qed

function memcached_safe_read :: "io_env \<Rightarrow> nat \<Rightarrow> io_st \<Rightarrow> memcached_return_t \<times> byte list \<times> io_st" where
  "memcached_safe_read E len s =
     (if len = 0 then (MEMCACHED_SUCCESS, [], s)
      else case memcached_io_read E len s of
             (rc, data, s) \<Rightarrow>
               if rc \<noteq> MEMCACHED_SUCCESS then (rc, data, s)
               else (case memcached_safe_read E (len - length data) s of (rc, rest, s) \<Rightarrow> (rc, data @ rest, s)))"
  by pat_completeness auto
termination
  by (relation "measure (\<lambda>(E, len, s). len)") (auto dest: io_read_length [OF sym])

declare memcached_safe_read.simps [simp del]

text \<open>The loop of \<open>memcached_safe_read\<close> runs at most once.\<close>

lemma safe_read_once:
  "memcached_safe_read E len s = (if len = 0 then (MEMCACHED_SUCCESS, [], s) else memcached_io_read E len s)"
  by (auto simp: memcached_safe_read.simps [of E len] memcached_safe_read.simps [of E 0] dest: io_read_length
      split: prod.splits)

text \<open>The inner loop of \<open>memcached_io_readline\<close> copies up to \<open>room\<close> bytes, up to a newline.\<close>

fun copy_line :: "nat \<Rightarrow> byte list \<Rightarrow> byte list" where
  "copy_line room [] = []"
| "copy_line room (c # cs) = (if room = 0 then [] else if c = 10 then [c] else c # copy_line (room - 1) cs)"

lemma length_copy_line: "length (copy_line room cs) \<le> room"
  by (induction room cs rule: copy_line.induct) auto

lemma copy_line_Nil [simp]: "copy_line room cs = [] \<longleftrightarrow> room = 0 \<or> cs = []"
  by (cases cs) auto

text \<open>\<open>room\<close> is \<open>size - total_nr\<close>, which is positive at the head of the loop.\<close>

function readline_loop :: "io_env \<Rightarrow> nat \<Rightarrow> io_st \<Rightarrow> memcached_return_t \<times> byte list \<times> io_st" where
  "readline_loop E room s =
     (if room = 0 then (MEMCACHED_PROTOCOL_ERROR, [], s)
      else
        case (if read_buffer_length (server s) = 0 then memcached_io_read E 1 s else (MEMCACHED_SUCCESS, [], s)) of
          (rc, first, s) \<Rightarrow>
            if rc \<noteq> MEMCACHED_SUCCESS then (rc, first, s)
            else
              let more = (if first = [10] then []
                          else copy_line (room - length first) (buffer_bytes (read_buffer_length (server s)) (server s)));
                  line = first @ more; s = on_server (advance (length more)) s
              in if length line = room then (MEMCACHED_PROTOCOL_ERROR, line, s)
                 else if last line = 10 then (MEMCACHED_SUCCESS, line, s)
                 else (case readline_loop E (room - length line) s of (rc, rest, s) \<Rightarrow> (rc, line @ rest, s)))"
  by pat_completeness auto
termination
  by (relation "measure (\<lambda>(E, room, s). room)")
     (auto split: if_splits dest!: io_read_length [OF sym] intro!: diff_less)

declare readline_loop.simps [simp del]

definition memcached_io_readline :: "io_env \<Rightarrow> nat \<Rightarrow> io_st \<Rightarrow> memcached_return_t \<times> byte list \<times> io_st" where
  "memcached_io_readline E len s = readline_loop E len s"

section \<open>The stream of incoming bytes\<close>

text \<open>
  What is still to come: the bytes buffered and those that the socket will give. A buffer is well
  formed when the unread bytes are inside of it.
\<close>

fun received :: "read_answer \<Rightarrow> byte list" where
  "received (Received bs) = bs"
| "received (Read_error e) = []"

definition buffered :: "memcached_server_st \<Rightarrow> byte list" where
  "buffered p = buffer_bytes (read_buffer_length p) p"

definition incoming :: "io_st \<Rightarrow> byte list" where
  "incoming s = buffered (server s) @ concat (map received (net_reads s))"

definition input_wf :: "memcached_server_st \<Rightarrow> bool" where
  "input_wf p \<longleftrightarrow> length (read_buffer p) = MEMCACHED_MAX_BUFFER \<and> read_ptr p + read_buffer_length p \<le> MEMCACHED_MAX_BUFFER"

text \<open>What reading leaves alone.\<close>

definition input_only :: "io_st \<Rightarrow> io_st \<Rightarrow> bool" where
  "input_only s s' \<longleftrightarrow>
     memc s' = memc s \<and> net_sent s' = net_sent s \<and> net_writes s' = net_writes s \<and> net_log s' = net_log s \<and>
     fd (server s') = fd (server s) \<and> cursor_active (server s') = cursor_active (server s) \<and>
     conn_type (server s') = conn_type (server s) \<and> write_buffer (server s') = write_buffer (server s) \<and>
     write_buffer_offset (server s') = write_buffer_offset (server s) \<and>
     cached_server_error (server s') = cached_server_error (server s)"

lemma input_only_refl [simp]: "input_only s s"
  by (simp add: input_only_def)

lemma input_only_trans: "input_only s t \<Longrightarrow> input_only t u \<Longrightarrow> input_only s u"
  by (simp add: input_only_def)

lemma advance_buffer:
  assumes "n \<le> read_buffer_length p" and "input_wf p"
  shows "input_wf (advance n p) \<and> buffered p = buffer_bytes n p @ buffered (advance n p)"
proof -
  have "[read_ptr p ..< read_ptr p + read_buffer_length p] =
        [read_ptr p ..< read_ptr p + n] @ [read_ptr p + n ..< read_ptr p + n + (read_buffer_length p - n)]"
    using assms(1) upt_add_eq_append [of "read_ptr p" "read_ptr p + n" "read_buffer_length p - n"] by simp
  then show ?thesis
    using assms by (simp add: advance_def input_wf_def buffered_def buffer_bytes_def)
qed

lemma buffered_empty [simp]: "read_buffer_length p = 0 \<Longrightarrow> buffered p = []"
  by (simp add: buffered_def)

lemma filled_buffer:
  assumes "length data \<le> MEMCACHED_MAX_BUFFER" and "input_wf p"
  shows "input_wf (filled data p) \<and> buffered (filled data p) = data"
proof -
  have "map (\<lambda>i. memcpy_at (read_buffer p) 0 data ! i) [0 ..< length data] = data"
    by (rule nth_equalityI) (simp_all add: memcpy_at_def nth_append)
  then show ?thesis
    using assms by (simp add: filled_def input_wf_def buffered_def buffer_bytes_def)
qed

lemma input_only_filled:
  "server s' = filled data (server s) \<Longrightarrow> memc s' = memc s \<Longrightarrow> net_sent s' = net_sent s \<Longrightarrow> net_writes s' = net_writes s \<Longrightarrow>
   net_log s' = net_log s \<Longrightarrow> input_only s s'"
  by (simp add: input_only_def filled_def)

lemma fill_read_buffer_stream:
  assumes "fill_read_buffer E s = (MEMCACHED_SUCCESS, s')" and "input_wf (server s)" and "read_buffer_length (server s) = 0"
  shows "input_wf (server s') \<and> incoming s' = incoming s \<and> input_only s s'"
  using assms
proof (induction E s rule: fill_read_buffer.induct)
  case (1 E s)
  show ?case
  proof (cases "net_reads s")
    case Nil
    with 1(2) show ?thesis
      by (subst (asm) fill_read_buffer.simps) (auto simp: sys_read_def split: if_splits)
  next
    case (Cons a rs)
    show ?thesis
    proof (cases a)
      case (Received bs)
      with Cons 1(2-4) show ?thesis
        by (subst (asm) fill_read_buffer.simps)
           (auto simp: sys_read_def filled_buffer incoming_def input_only_filled split: if_splits)
    next
      case (Read_error e)
      define s1 where "s1 = set_cached_errno e (s\<lparr>net_reads := rs\<rparr>)"
      have fd: "fd (server s) \<noteq> - 1"
        using Cons Read_error 1(2) by (subst (asm) fill_read_buffer.simps) (auto simp: sys_read_def)
      have sys: "sys_read MEMCACHED_MAX_BUFFER s = (Inl e, s\<lparr>net_reads := rs\<rparr>)"
        using Cons Read_error fd by (simp add: sys_read_def)
      obtain s2 where e: "e = EAGAIN \<or> e = EINTR \<or> e = ERESTART" and w: "io_wait_read E s1 = (MEMCACHED_SUCCESS, s2)"
        and f: "fill_read_buffer E s2 = (MEMCACHED_SUCCESS, s')"
        using 1(2) sys by (subst (asm) fill_read_buffer.simps) (auto simp: s1_def Let_def split: if_splits prod.splits)
      obtain polls where s2: "s2 = s1\<lparr>net_polls := polls\<rparr>" using io_wait_read_success [OF w] by blast
      have "input_wf (server s2)" "read_buffer_length (server s2) = 0"
        using 1(3,4) by (simp_all add: s2 s1_def set_cached_errno_def input_wf_def)
      from 1(1) [OF sys [symmetric] refl s1_def e w [symmetric] refl f this]
      show ?thesis
        using Cons Read_error by (auto simp: s2 s1_def set_cached_errno_def incoming_def input_only_def buffered_def buffer_bytes_def)
    qed
  qed
qed

lemma refill_stream:
  assumes "refill E s = (MEMCACHED_SUCCESS, s')" and "input_wf (server s)"
  shows "input_wf (server s') \<and> incoming s' = incoming s \<and> input_only s s'"
  using assms fill_read_buffer_stream [of E s s'] by (auto simp: refill_def split: if_splits)

lemma advance_stream:
  assumes "n \<le> read_buffer_length (server s)" and "input_wf (server s)"
  shows "input_wf (server (on_server (advance n) s)) \<and> buffer_bytes n (server s) @ incoming (on_server (advance n) s) = incoming s \<and>
         input_only s (on_server (advance n) s)"
  using advance_buffer [OF assms] by (simp add: incoming_def input_only_def) (simp add: advance_def)

text \<open>A broken connection leaves an empty, well-formed buffer.\<close>

lemma quit_dead_server_simps [simp]:
  "server (quit_dead_server E s) = (disconnected (server s))\<lparr>server_failure_counter := server_failure_counter (server s) + 1\<rparr>"
  "net_sent (quit_dead_server E s) = net_sent s" "net_log (quit_dead_server E s) = net_log s"
  by (simp_all add: quit_dead_server_def set_last_disconnected_host_def memcached_io_close_def disconnected_def
      memcached_server_response_reset_def Let_def)

lemma disconnected_simps [simp]:
  "read_buffer (disconnected p) = read_buffer p" "read_ptr (disconnected p) = 0" "fd (disconnected p) = - 1"
  "read_buffer_length (disconnected p) = 0" "cursor_active (disconnected p) = 0" "conn_type (disconnected p) = conn_type p"
  by (simp_all add: disconnected_def memcached_server_response_reset_def)

lemma input_wf_disconnected [simp]:
  "input_wf p \<Longrightarrow> input_wf (disconnected p)"
  by (simp add: input_wf_def)

lemma input_wf_update [simp]:
  "input_wf (p\<lparr>cached_errno := e\<rparr>) = input_wf p" "input_wf (p\<lparr>server_failure_counter := n\<rparr>) = input_wf p"
  "input_wf (p\<lparr>cursor_active := c\<rparr>) = input_wf p" "input_wf (p\<lparr>cached_server_error := m\<rparr>) = input_wf p"
  by (simp_all add: input_wf_def)

lemma poll_loop_wf: "poll_loop E n errno s = (rc, s') \<Longrightarrow> input_wf (server s) \<Longrightarrow> input_wf (server s')"
proof (induction n arbitrary: errno s)
  case 0
  then show ?case by (auto simp: set_cached_errno_def)
next
  case (Suc n)
  then show ?case
    by (auto simp: sys_poll_def set_cached_errno_def split: list.splits poll_answer.splits if_splits)
qed

lemma fill_read_buffer_wf: "fill_read_buffer E s = (rc, s') \<Longrightarrow> input_wf (server s) \<Longrightarrow> input_wf (server s')"
proof (induction E s rule: fill_read_buffer.induct)
  case (1 E s)
  obtain a s1 where a: "sys_read MEMCACHED_MAX_BUFFER s = (a, s1)" by (cases "sys_read MEMCACHED_MAX_BUFFER s")
  then have s1: "server s1 = server s" "\<And>data. a = Inr data \<Longrightarrow> length data \<le> MEMCACHED_MAX_BUFFER"
    by (auto simp: sys_read_def split: if_splits list.splits read_answer.splits)
  show ?case
  proof (cases a)
    case (Inr data)
    with 1(2,3) a s1 show ?thesis
      by (subst (asm) fill_read_buffer.simps) (auto simp: filled_buffer split: if_splits)
  next
    case (Inl e)
    define s2 where "s2 = set_cached_errno e s1"
    have s2: "input_wf (server s2)" using 1(3) s1 by (simp add: s2_def set_cached_errno_def)
    show ?thesis
    proof (cases "e = EAGAIN \<or> e = EINTR \<or> e = ERESTART")
      case True
      obtain rc2 s3 where w: "io_wait_read E s2 = (rc2, s3)" by (cases "io_wait_read E s2")
      then have s3: "input_wf (server s3)"
        using s2 poll_loop_wf by (auto simp: io_wait_read_def)
      have eq: "fill_read_buffer E s = (if rc2 = MEMCACHED_SUCCESS then fill_read_buffer E s3 else (rc2, quit_dead_server E s3))"
        using True Inl a w by (subst fill_read_buffer.simps) (simp add: s2_def Let_def)
      show ?thesis
      proof (cases "rc2 = MEMCACHED_SUCCESS")
        case rc2: True
        from 1(1) [OF a [symmetric] Inl s2_def True w [symmetric] rc2 _ s3] 1(2) eq rc2 show ?thesis by simp
      next
        case False
        with eq 1(2) s3 show ?thesis by auto
      qed
    next
      case False
      with Inl a s2 1(2) show ?thesis
        by (subst (asm) fill_read_buffer.simps) (auto simp: s2_def Let_def)
    qed
  qed
qed

lemma refill_wf: "refill E s = (rc, s') \<Longrightarrow> input_wf (server s) \<Longrightarrow> input_wf (server s')"
  by (auto simp: refill_def dest: fill_read_buffer_wf split: if_splits)

text \<open>One round of \<open>memcached_io_read\<close>.\<close>

lemma io_read_round:
  assumes "0 < len" and "refill E s = (rc, s1)"
  shows "memcached_io_read E len s =
     (if rc \<noteq> MEMCACHED_SUCCESS then (rc, [], s1)
      else let n = min len (read_buffer_length (server s1)); data = buffer_bytes n (server s1); s2 = on_server (advance n) s1
           in if len = 1 then (MEMCACHED_SUCCESS, data, on_server (\<lambda>p. p\<lparr>server_failure_counter := 0\<rparr>) s2)
              else (case memcached_io_read E (len - n) s2 of (rc, rest, s) \<Rightarrow> (rc, data @ rest, s)))"
  using assms refill_length [of E s s1]
  by (subst memcached_io_read.simps) (auto simp: Let_def min_def)

lemma io_read_zero: "memcached_io_read E 0 s = (MEMCACHED_SUCCESS, [], on_server (\<lambda>p. p\<lparr>server_failure_counter := 0\<rparr>) s)"
  by (simp add: memcached_io_read.simps)

lemma io_read_wf: "memcached_io_read E len s = (rc, data, s') \<Longrightarrow> input_wf (server s) \<Longrightarrow> input_wf (server s')"
proof (induction len arbitrary: s data rule: less_induct)
  case (less len)
  show ?case
  proof (cases "len = 0")
    case True
    with less.prems show ?thesis by (auto simp: io_read_zero)
  next
    case False
    obtain rc1 s1 where r: "refill E s = (rc1, s1)" by (cases "refill E s")
    then have s1: "input_wf (server s1)" using less.prems refill_wf by blast
    show ?thesis
    proof (cases "rc1 = MEMCACHED_SUCCESS")
      case True
      define n where "n = min len (read_buffer_length (server s1))"
      define s2 where "s2 = on_server (advance n) s1"
      have n: "0 < n" using refill_length [of E s s1] r True False by (simp add: n_def)
      have s2: "input_wf (server s2)" using advance_buffer [of n "server s1"] s1 by (simp add: s2_def n_def)
      show ?thesis
        using less.prems(1) less.IH [of "len - n" s2] n s2 False True
        by (auto simp: io_read_round [OF _ r] n_def s2_def Let_def split: if_splits prod.splits)
    next
      case rc1: False
      with False less.prems r s1 show ?thesis by (auto simp: io_read_round [OF _ r])
    qed
  qed
qed

lemma io_read_stream:
  "memcached_io_read E len s = (MEMCACHED_SUCCESS, data, s') \<Longrightarrow> input_wf (server s) \<Longrightarrow>
   data @ incoming s' = incoming s \<and> input_only s s'"
proof (induction len arbitrary: s data rule: less_induct)
  case (less len)
  have counter: "incoming (on_server (\<lambda>p. p\<lparr>server_failure_counter := 0\<rparr>) t) = incoming t"
    "input_only u (on_server (\<lambda>p. p\<lparr>server_failure_counter := 0\<rparr>) t) = input_only u t" for t u
    by (simp_all add: incoming_def buffered_def buffer_bytes_def input_only_def)
  show ?case
  proof (cases "len = 0")
    case True
    with less.prems show ?thesis by (auto simp: io_read_zero counter)
  next
    case False
    obtain s1 where r: "refill E s = (MEMCACHED_SUCCESS, s1)"
      using False less.prems(1) by (cases "refill E s") (auto simp: io_read_round split: if_splits)
    define n where "n = min len (read_buffer_length (server s1))"
    define s2 where "s2 = on_server (advance n) s1"
    have n: "0 < n" "n \<le> read_buffer_length (server s1)" using refill_length [OF r] False by (simp_all add: n_def)
    have s1: "input_wf (server s1)" "incoming s1 = incoming s" "input_only s s1"
      using refill_stream [OF r less.prems(2)] by simp_all
    have s2: "input_wf (server s2)" "buffer_bytes n (server s1) @ incoming s2 = incoming s1" "input_only s s2"
      using advance_stream [OF n(2) s1(1)] s1(3) by (auto simp: s2_def intro: input_only_trans)
    show ?thesis
    proof (cases "len = 1")
      case True
      with less.prems(1) s1(2) s2(2,3) [unfolded s2_def n_def] show ?thesis
        by (auto simp: io_read_round [OF _ r] counter Let_def)
    next
      case len: False
      then obtain rest where "memcached_io_read E (len - n) s2 = (MEMCACHED_SUCCESS, rest, s')" "data = buffer_bytes n (server s1) @ rest"
        using less.prems(1) False by (auto simp: io_read_round [OF _ r] Let_def simp flip: n_def s2_def split: prod.splits)
      with less.IH [of "len - n" s2 rest] n s1 s2 False show ?thesis
        by (auto intro: input_only_trans)
    qed
  qed
qed

end
