(* ===== verification/Client_Stream.thy ===== *)
theory Client_Stream
  imports Client_IO
begin

text \<open>
  What reading from a server gives: the interface of a source of bytes, total correctness on a healthy
  connection for blocks and for lines, and a measure that every successful read decreases.
\<close>

section \<open>The interface of a source of bytes\<close>

text \<open>
  What the readers of responses rely on: a call that succeeds gives the next \<open>n\<close> bytes of the stream,
  and every call keeps the buffer well formed.
\<close>

locale byte_source =
  fixes inv :: "'s \<Rightarrow> bool"
    and stream :: "'s \<Rightarrow> byte list"
    and get :: "nat \<Rightarrow> 's \<Rightarrow> memcached_return_t \<times> byte list \<times> 's"
  assumes get_inv: "inv s \<Longrightarrow> get n s = (rc, data, s') \<Longrightarrow> inv s'"
    and get_stream: "inv s \<Longrightarrow> get n s = (MEMCACHED_SUCCESS, data, s') \<Longrightarrow> data @ stream s' = stream s"
    and get_length: "get n s = (MEMCACHED_SUCCESS, data, s') \<Longrightarrow> length data = n"
begin

lemma get_take:
  assumes "inv s" and "get n s = (MEMCACHED_SUCCESS, data, s')"
  shows "data = take n (stream s) \<and> stream s' = drop n (stream s) \<and> n \<le> length (stream s) \<and> inv s'"
  using get_stream [OF assms] get_length [OF assms(2)] get_inv [OF assms]
  by (metis append_eq_conv_conj length_append le_add1)

text \<open>A header and its body, read one after the other, are one piece of the stream.\<close>

lemma get_twice:
  assumes "inv s" and "get n s = (MEMCACHED_SUCCESS, data, t)" and "get m t = (MEMCACHED_SUCCESS, body, u)"
  shows "data @ body = take (n + m) (stream s) \<and> stream u = drop (n + m) (stream s)"
  using get_take [OF assms(1,2)] get_take [of t m body u] assms(3)
  by (auto simp: take_add) (simp add: add.commute)

end

interpretation socket: byte_source "\<lambda>s. input_wf (server s)" incoming "memcached_io_read E" for E
  by unfold_locales (auto dest: io_read_wf io_read_stream io_read_length)

interpretation safe_socket: byte_source "\<lambda>s. input_wf (server s)" incoming "memcached_safe_read E" for E
  by unfold_locales (auto simp: safe_read_once dest: io_read_wf io_read_stream io_read_length split: if_splits)

section \<open>A healthy connection\<close>

text \<open>
  The peer sends without closing the connection, and whenever \<open>read\<close> would block, \<open>poll\<close> reports
  that it can go on.
\<close>

definition retried :: "int \<Rightarrow> bool" where
  "retried e \<longleftrightarrow> e = EAGAIN \<or> e = EINTR \<or> e = ERESTART"

fun read_fails :: "read_answer \<Rightarrow> bool" where
  "read_fails (Received bs) = False"
| "read_fails (Read_error e) = True"

definition healthy :: "io_st \<Rightarrow> bool" where
  "healthy s \<longleftrightarrow>
     input_wf (server s) \<and> fd (server s) \<noteq> - 1 \<and>
     (\<forall>a \<in> set (net_reads s). a \<noteq> Received [] \<and> (\<forall>e. a = Read_error e \<longrightarrow> retried e)) \<and>
     set (net_polls s) \<subseteq> {Poll_ready} \<and> length (filter read_fails (net_reads s)) \<le> length (net_polls s)"

lemma healthy_wf: "healthy s \<Longrightarrow> input_wf (server s)"
  by (simp add: healthy_def)

lemma fill_read_buffer_total:
  assumes "healthy s" and "read_buffer_length (server s) = 0" and "incoming s \<noteq> []"
  shows "\<exists>s'. fill_read_buffer E s = (MEMCACHED_SUCCESS, s') \<and> healthy s'"
  using assms
proof (induction "net_reads s" arbitrary: s)
  case Nil
  then show ?case by (simp add: incoming_def)
next
  case (Cons a rs)
  note reads = Cons.hyps(2) [symmetric]
  show ?case
  proof (cases a)
    case (Received bs)
    define s1 where "s1 = s\<lparr>net_reads := (if length bs \<le> MEMCACHED_MAX_BUFFER then rs else Received (drop MEMCACHED_MAX_BUFFER bs) # rs)\<rparr>"
    have "sys_read MEMCACHED_MAX_BUFFER s = (Inr (take MEMCACHED_MAX_BUFFER bs), s1)" "take MEMCACHED_MAX_BUFFER bs \<noteq> []"
      using Cons.prems reads Received by (auto simp: sys_read_def healthy_def s1_def MEMCACHED_MAX_BUFFER_def)
    then have "fill_read_buffer E s = (MEMCACHED_SUCCESS, on_server (filled (take MEMCACHED_MAX_BUFFER bs)) s1)"
      by (subst fill_read_buffer.simps) simp
    moreover have "healthy (on_server (filled (take MEMCACHED_MAX_BUFFER bs)) s1)"
      using Cons.prems reads Received by (auto simp: healthy_def s1_def filled_buffer) (simp_all add: filled_def)
    ultimately show ?thesis by blast
  next
    case (Read_error e)
    define s2 where "s2 = (set_cached_errno e (s\<lparr>net_reads := rs\<rparr>))\<lparr>net_polls := tl (net_polls s)\<rparr>"
    have p: "net_polls s \<noteq> []" "retried e" "fd (server s) \<noteq> - 1"
      using Cons.prems reads Read_error by (auto simp: healthy_def)
    then obtain ps where "net_polls s = Poll_ready # ps"
      using Cons.prems(1) by (cases "net_polls s") (auto simp: healthy_def)
    then have w: "io_wait_read E (set_cached_errno e (s\<lparr>net_reads := rs\<rparr>)) = (MEMCACHED_SUCCESS, s2)"
      by (simp add: io_wait_read_def sys_poll_def eval_nat_numeral s2_def set_cached_errno_def)
    have h: "healthy s2" "read_buffer_length (server s2) = 0" "net_reads s2 = rs" "incoming s2 \<noteq> []"
      using Cons.prems reads Read_error p
      by (auto simp: healthy_def s2_def set_cached_errno_def incoming_def dest: list.set_sel(2))
    have "fill_read_buffer E s = fill_read_buffer E s2"
      using p w reads Read_error
      by (subst fill_read_buffer.simps) (auto simp: sys_read_def retried_def Let_def)
    with Cons.hyps(1) [of s2] h show ?thesis by simp
  qed
qed

lemma refill_total:
  "healthy s \<Longrightarrow> incoming s \<noteq> [] \<Longrightarrow> \<exists>s'. refill E s = (MEMCACHED_SUCCESS, s') \<and> healthy s'"
  using fill_read_buffer_total by (auto simp: refill_def)

lemma healthy_advance:
  "healthy s \<Longrightarrow> n \<le> read_buffer_length (server s) \<Longrightarrow> healthy (on_server (advance n) s)"
  using advance_buffer [of n "server s"] by (simp add: healthy_def) (simp add: advance_def)

lemma io_read_healthy:
  assumes "healthy s" and "len \<le> length (incoming s)"
  shows "\<exists>data s'. memcached_io_read E len s = (MEMCACHED_SUCCESS, data, s') \<and> healthy s'"
  using assms
proof (induction len arbitrary: s rule: less_induct)
  case (less len)
  have counter: "healthy t \<Longrightarrow> healthy (on_server (\<lambda>p. p\<lparr>server_failure_counter := 0\<rparr>) t)" for t
    by (simp add: healthy_def)
  show ?case
  proof (cases "len = 0")
    case True
    with less.prems show ?thesis by (auto simp: io_read_zero counter)
  next
    case False
    have "incoming s \<noteq> []" using less.prems(2) False by auto
    then obtain s1 where r: "refill E s = (MEMCACHED_SUCCESS, s1)" "healthy s1"
      using refill_total [OF less.prems(1)] by blast
    define n where "n = min len (read_buffer_length (server s1))"
    define s2 where "s2 = on_server (advance n) s1"
    have n: "0 < n" "n \<le> read_buffer_length (server s1)" "n \<le> len" using refill_length [OF r(1)] False by (simp_all add: n_def)
    have s2: "healthy s2" "length (incoming s2) = length (incoming s) - n"
      using healthy_advance [OF r(2) n(2)] advance_stream [OF n(2) healthy_wf [OF r(2)]]
        refill_stream [OF r(1) healthy_wf [OF less.prems(1)]]
      by (auto simp: s2_def dest: arg_cong [where f = length])
    show ?thesis
    proof (cases "len = 1")
      case True
      with r s2(1) [unfolded s2_def n_def] show ?thesis by (auto simp: io_read_round [OF _ r(1)] Let_def counter)
    next
      case len: False
      have le: "len - n \<le> length (incoming s2)" using s2(2) less.prems(2) by simp
      have "len - n < len" using n by simp
      from less.IH [OF this s2(1) le] obtain rest s' where
        "memcached_io_read E (len - n) s2 = (MEMCACHED_SUCCESS, rest, s')" "healthy s'" by blast
      with False len show ?thesis
        by (auto simp: io_read_round [OF _ r(1)] Let_def simp flip: n_def s2_def)
    qed
  qed
qed

lemma io_read_total:
  assumes "healthy s" and "len \<le> length (incoming s)"
  shows "\<exists>s'. memcached_io_read E len s = (MEMCACHED_SUCCESS, take len (incoming s), s') \<and> incoming s' = drop len (incoming s) \<and>
              healthy s' \<and> input_only s s'"
proof -
  obtain data s' where r: "memcached_io_read E len s = (MEMCACHED_SUCCESS, data, s')" "healthy s'"
    using io_read_healthy [OF assms] by blast
  with socket.get_take [OF healthy_wf [OF assms(1)] r(1)] io_read_stream [OF r(1) healthy_wf [OF assms(1)]]
  show ?thesis by blast
qed

lemma safe_read_total:
  assumes "healthy s" and "len \<le> length (incoming s)"
  shows "\<exists>s'. memcached_safe_read E len s = (MEMCACHED_SUCCESS, take len (incoming s), s') \<and> incoming s' = drop len (incoming s) \<and>
              healthy s' \<and> input_only s s'"
  using io_read_total [OF assms] assms(1) by (auto simp: safe_read_once)

section \<open>Lines\<close>

lemma append_split:
  "ys @ t = xs @ zs \<Longrightarrow> length ys \<le> length xs \<Longrightarrow> ys = take (length ys) xs \<and> t = drop (length ys) xs @ zs"
  by (simp add: append_eq_append_conv_if)

lemma copy_line_take:
  "copy_line room bs = take (length (copy_line room bs)) bs \<and> length (copy_line room bs) \<le> length bs"
  by (induction room bs rule: copy_line.induct) auto

lemma take_buffered: "n \<le> read_buffer_length p \<Longrightarrow> take n (buffered p) = buffer_bytes n p"
  by (simp add: buffered_def buffer_bytes_def take_map)

lemma copy_line_prefix:
  assumes "bs @ r = xs @ 10 # rest" and "10 \<notin> set xs" and "length xs < room"
  shows "copy_line room bs = take (length xs + 1) bs"
  using assms
proof (induction xs arbitrary: bs room)
  case Nil
  then show ?case by (cases bs) auto
next
  case (Cons x xs)
  show ?case
  proof (cases bs)
    case (Cons b cs)
    with Cons.prems have "cs @ r = xs @ 10 # rest" "b = x" by auto
    with Cons.IH [of cs "room - 1"] Cons.prems Cons show ?thesis by auto
  qed simp
qed

lemma line_copied:
  assumes "first @ bs @ ts = xs @ 10 # rest" and "10 \<notin> set xs" and "length xs + 1 < room" and "length first \<le> 1"
    and m: "m = (if first = [10] then [] else copy_line (room - length first) bs)"
  shows "first @ m = take (length xs + 1) (first @ bs)"
proof (cases first)
  case Nil
  with assms show ?thesis by (simp add: copy_line_prefix)
next
  case (Cons c cs)
  with assms(4) have c: "first = [c]" by simp
  show ?thesis
  proof (cases xs)
    case (Cons x ys)
    with c assms(1,2) have "bs @ ts = ys @ 10 # rest" "c \<noteq> 10" by auto
    with c Cons assms(2-) show ?thesis by (simp add: copy_line_prefix)
  qed (use c assms in simp)
qed

lemma first_byte:
  assumes "healthy s" and "incoming s \<noteq> []"
  shows "\<exists>first s1. (if read_buffer_length (server s) = 0 then memcached_io_read E 1 s else (MEMCACHED_SUCCESS, [], s)) =
      (MEMCACHED_SUCCESS, first, s1) \<and> healthy s1 \<and> input_only s s1 \<and> first @ incoming s1 = incoming s \<and>
      length first \<le> 1 \<and> (first = [] \<longrightarrow> read_buffer_length (server s1) \<noteq> 0)"
proof (cases "read_buffer_length (server s) = 0")
  case True
  obtain c cs where c: "incoming s = c # cs" using assms(2) by (cases "incoming s") auto
  then have "1 \<le> length (incoming s)" by simp
  from io_read_total [OF assms(1) this, of E] c True show ?thesis by auto
qed (use assms(1) in simp)

lemma readline_round:
  assumes "0 < room"
    and "(if read_buffer_length (server s) = 0 then memcached_io_read E 1 s else (MEMCACHED_SUCCESS, [], s)) =
           (MEMCACHED_SUCCESS, first, s1)"
  shows "readline_loop E room s =
     (let m = (if first = [10] then [] else copy_line (room - length first) (buffered (server s1)));
          s2 = on_server (advance (length m)) s1
      in if length (first @ m) = room then (MEMCACHED_PROTOCOL_ERROR, first @ m, s2)
         else if last (first @ m) = 10 then (MEMCACHED_SUCCESS, first @ m, s2)
         else (case readline_loop E (room - length (first @ m)) s2 of (rc, rest, s) \<Rightarrow> (rc, (first @ m) @ rest, s)))"
  using assms by (subst readline_loop.simps) (simp add: Let_def buffered_def)

lemma readline_total:
  assumes "healthy s" and "incoming s = xs @ 10 # rest" and "10 \<notin> set xs" and "length xs + 1 < room"
  shows "\<exists>s'. memcached_io_readline E room s = (MEMCACHED_SUCCESS, xs @ [10], s') \<and> incoming s' = rest \<and>
              healthy s' \<and> input_only s s'"
  using assms unfolding memcached_io_readline_def
proof (induction "length xs" arbitrary: s xs room rule: less_induct)
  case less
  have "incoming s \<noteq> []" using less.prems(2) by simp
  from first_byte [OF less.prems(1) this] obtain first s1 where
    first: "(if read_buffer_length (server s) = 0 then memcached_io_read E 1 s else (MEMCACHED_SUCCESS, [], s)) =
      (MEMCACHED_SUCCESS, first, s1)"
    and s1: "healthy s1" "input_only s s1" "first @ incoming s1 = incoming s" "length first \<le> 1" and
      bs: "first = [] \<Longrightarrow> read_buffer_length (server s1) \<noteq> 0" by blast
  define m where "m = (if first = [10] then [] else copy_line (room - length first) (buffered (server s1)))"
  define s2 where "s2 = on_server (advance (length m)) s1"
  have line: "first @ m = take (length xs + 1) (first @ buffered (server s1))"
    using s1(3,4) less.prems(2-4) by (intro line_copied [of _ _ _ _ rest room]) (simp_all add: m_def incoming_def)
  have m: "length m \<le> read_buffer_length (server s1)" "m = buffer_bytes (length m) (server s1)"
  proof -
    have "m = take (length m) (buffered (server s1)) \<and> length m \<le> length (buffered (server s1))"
      using copy_line_take [of "room - length first" "buffered (server s1)"] by (simp add: m_def)
    then show "length m \<le> read_buffer_length (server s1)" "m = buffer_bytes (length m) (server s1)"
      using take_buffered [of "length m" "server s1"] by (auto simp: buffered_def)
  qed
  have s2: "healthy s2" "(first @ m) @ incoming s2 = xs @ 10 # rest" "input_only s s2"
    using healthy_advance [OF s1(1) m(1)] advance_stream [OF m(1) healthy_wf [OF s1(1)]] s1(2,3) m(2) less.prems(2)
    by (auto simp: s2_def intro: input_only_trans)
  define k where "k = length (first @ m)"
  have "0 < room" using less.prems(4) by simp
  note step = readline_round [OF this first, folded m_def, unfolded Let_def, folded s2_def, folded k_def]
  show ?case
  proof (cases "k = length xs + 1")
    case True
    with s2(2) have "first @ m = xs @ [10]" "incoming s2 = rest"
      by (auto simp: k_def append_eq_append_conv2 append_eq_Cons_conv)
    with step True less.prems(4) s2 show ?thesis by (intro exI [of _ s2]) simp
  next
    case False
    have k: "0 < k" "k \<le> length xs"
      using line bs False by (auto simp: k_def buffered_def)
    have fm: "first @ m = take k xs" "incoming s2 = drop k xs @ 10 # rest"
      using append_split [OF s2(2)] k(2) unfolding k_def by simp_all
    then have "last (first @ m) \<noteq> 10"
      using k less.prems(3) by (metis in_set_takeD last_in_set length_greater_0_conv k_def)
    with step k less.prems(4) have "readline_loop E room s =
      (case readline_loop E (room - k) s2 of (rc, rest, s) \<Rightarrow> (rc, (first @ m) @ rest, s))" by simp
    moreover
    have "length (drop k xs) < length xs" "10 \<notin> set (drop k xs)" "length (drop k xs) + 1 < room - k"
      using k less.prems(3,4) in_set_dropD [of 10 k xs] by auto
    from less.hyps [OF this(1) s2(1) fm(2) this(2,3)] obtain s' where "readline_loop E (room - k) s2 = (MEMCACHED_SUCCESS, drop k xs @ [10], s')" "incoming s' = rest"
      "healthy s'" "input_only s2 s'" by blast
    ultimately show ?thesis using fm(1) s2(3) by (auto intro: input_only_trans)
  qed
qed

section \<open>Reading consumes the stream\<close>

text \<open>A measure for the loops over responses: every answer of \<open>read\<close> counts one more than its bytes.\<close>

definition backlog_of :: "read_answer list \<Rightarrow> nat" where
  "backlog_of rs = (\<Sum>a \<leftarrow> rs. length (received a) + 1)"

definition avail :: "io_st \<Rightarrow> nat" where
  "avail s = read_buffer_length (server s) + backlog_of (net_reads s)"

lemma fill_read_buffer_avail: "fill_read_buffer E s = (MEMCACHED_SUCCESS, s') \<Longrightarrow> avail s' \<le> avail s"
proof (induction E s rule: fill_read_buffer.induct)
  case (1 E s)
  obtain a s1 where a: "sys_read MEMCACHED_MAX_BUFFER s = (a, s1)" by (cases "sys_read MEMCACHED_MAX_BUFFER s")
  show ?case
  proof (cases a)
    case (Inr data)
    then have "length data + backlog_of (net_reads s1) \<le> backlog_of (net_reads s)"
      using a by (auto simp: sys_read_def backlog_of_def split: if_splits list.splits read_answer.splits)
    with 1(2) a Inr show ?thesis
      by (subst (asm) fill_read_buffer.simps) (auto simp: avail_def split: if_splits)
  next
    case (Inl e)
    define s2 where "s2 = set_cached_errno e s1"
    obtain s3 where e: "e = EAGAIN \<or> e = EINTR \<or> e = ERESTART" and w: "io_wait_read E s2 = (MEMCACHED_SUCCESS, s3)"
      and f: "fill_read_buffer E s3 = (MEMCACHED_SUCCESS, s')"
      using 1(2) a Inl by (subst (asm) fill_read_buffer.simps) (auto simp: s2_def Let_def split: if_splits prod.splits)
    from 1(1) [OF a [symmetric] Inl s2_def e w [symmetric] refl f] have "avail s' \<le> avail s3" .
    also have "avail s3 = avail s1"
      using io_wait_read_success [OF w] by (auto simp: avail_def s2_def set_cached_errno_def)
    also have "\<dots> \<le> avail s"
      using a by (auto simp: avail_def backlog_of_def sys_read_def split: if_splits list.splits read_answer.splits)
    finally show ?thesis .
  qed
qed

lemma refill_avail: "refill E s = (MEMCACHED_SUCCESS, s') \<Longrightarrow> avail s' \<le> avail s"
  by (auto simp: refill_def dest: fill_read_buffer_avail split: if_splits)

lemma advance_avail: "n \<le> read_buffer_length (server s) \<Longrightarrow> avail (on_server (advance n) s) + n = avail s"
  by (simp add: avail_def advance_def)

lemma io_read_avail: "memcached_io_read E len s = (MEMCACHED_SUCCESS, data, s') \<Longrightarrow> avail s' + len \<le> avail s"
proof (induction len arbitrary: s data rule: less_induct)
  case (less len)
  have counter: "avail (on_server (\<lambda>p. p\<lparr>server_failure_counter := 0\<rparr>) t) = avail t" for t
    by (simp add: avail_def)
  show ?case
  proof (cases "len = 0")
    case True
    with less.prems show ?thesis by (auto simp: io_read_zero counter)
  next
    case False
    obtain s1 where r: "refill E s = (MEMCACHED_SUCCESS, s1)"
      using False less.prems by (cases "refill E s") (auto simp: io_read_round split: if_splits)
    define n where "n = min len (read_buffer_length (server s1))"
    define s2 where "s2 = on_server (advance n) s1"
    have n: "0 < n" "n \<le> len" using refill_length [OF r] False by (simp_all add: n_def)
    have s2: "avail s2 + n \<le> avail s"
      using refill_avail [OF r] advance_avail [of n s1] by (simp add: s2_def n_def)
    show ?thesis
    proof (cases "len = 1")
      case True
      with less.prems s2 [unfolded s2_def n_def] show ?thesis
        using refill_length [OF r] by (auto simp: io_read_round [OF _ r] counter Let_def min_def split: if_splits)
    next
      case len: False
      then obtain rest where "memcached_io_read E (len - n) s2 = (MEMCACHED_SUCCESS, rest, s')"
        using less.prems False by (auto simp: io_read_round [OF _ r] Let_def simp flip: n_def s2_def split: prod.splits)
      with less.IH [of "len - n" s2 rest] n s2 False show ?thesis by simp
    qed
  qed
qed

lemma safe_read_avail: "memcached_safe_read E len s = (MEMCACHED_SUCCESS, data, s') \<Longrightarrow> avail s' + len \<le> avail s"
  by (auto simp: safe_read_once dest: io_read_avail split: if_splits)

lemma readline_avail: "memcached_io_readline E room s = (MEMCACHED_SUCCESS, line, s') \<Longrightarrow> avail s' < avail s"
  unfolding memcached_io_readline_def
proof (induction room arbitrary: s line rule: less_induct)
  case (less room)
  have r: "0 < room"
  proof (rule ccontr)
    assume "\<not> 0 < room"
    with less.prems show False by (subst (asm) readline_loop.simps) simp
  qed
  obtain first s1 where first: "(if read_buffer_length (server s) = 0 then memcached_io_read E 1 s else (MEMCACHED_SUCCESS, [], s)) =
      (MEMCACHED_SUCCESS, first, s1)"
    using less.prems r by (subst (asm) readline_loop.simps) (auto split: prod.splits if_splits)
  define m where "m = (if first = [10] then [] else copy_line (room - length first) (buffered (server s1)))"
  define s2 where "s2 = on_server (advance (length m)) s1"
  note round = readline_round [OF r first, folded m_def, unfolded Let_def, folded s2_def]
  have m: "length m \<le> read_buffer_length (server s1)"
    using copy_line_take [of "room - length first" "buffered (server s1)"] by (auto simp: m_def buffered_def)
  have "length first + avail s1 \<le> avail s"
    using first io_read_avail [of E 1 s first s1] io_read_length [of E 1 s first s1] by (auto split: if_splits)
  then have a: "avail s2 + length (first @ m) \<le> avail s"
    using advance_avail [OF m] by (simp add: s2_def)
  have n: "0 < length (first @ m)"
    using first r io_read_length [of E 1 s first s1] by (auto simp: m_def buffered_def split: if_splits)
  have "avail s2 < avail s" using a n by linarith
  show ?case
  proof (cases "last (first @ m) = 10")
    case True
    with less.prems round have "s' = s2" by (simp split: if_splits)
    with \<open>avail s2 < avail s\<close> show ?thesis by simp
  next
    case False
    then obtain rest where "readline_loop E (room - length (first @ m)) s2 = (MEMCACHED_SUCCESS, rest, s')"
      using less.prems round by (auto split: if_splits prod.splits)
    with less.IH [of "room - length (first @ m)" s2 rest] r n a show ?thesis by simp
  qed
qed

section \<open>How reading fails\<close>

definition io_failure :: "memcached_return_t \<Rightarrow> bool" where
  "io_failure rc \<longleftrightarrow> rc = MEMCACHED_FAILURE \<or> rc = MEMCACHED_TIMEOUT \<or> rc = MEMCACHED_ERRNO \<or> rc = MEMCACHED_UNKNOWN_READ_FAILURE"

lemma poll_loop_rc: "poll_loop E n errno s = (rc, s') \<Longrightarrow> rc = MEMCACHED_SUCCESS \<or> rc = MEMCACHED_FAILURE \<or> rc = MEMCACHED_TIMEOUT"
  by (induction n arbitrary: errno s) (auto split: prod.splits poll_answer.splits if_splits)

lemma fill_read_buffer_rc:
  "fill_read_buffer E s = (rc, s') \<Longrightarrow> rc = MEMCACHED_SUCCESS \<or> io_failure rc \<and> fd (server s') = - 1 \<and> read_buffer_length (server s') = 0"
proof (induction E s rule: fill_read_buffer.induct)
  case (1 E s)
  obtain a s1 where a: "sys_read MEMCACHED_MAX_BUFFER s = (a, s1)" by (cases "sys_read MEMCACHED_MAX_BUFFER s")
  show ?case
  proof (cases a)
    case (Inr data)
    with 1(2) a show ?thesis
      by (subst (asm) fill_read_buffer.simps) (auto simp: io_failure_def split: if_splits)
  next
    case (Inl e)
    obtain rc2 s3 where w: "io_wait_read E (set_cached_errno e s1) = (rc2, s3)" by (cases "io_wait_read E (set_cached_errno e s1)")
    then have "rc2 = MEMCACHED_SUCCESS \<or> rc2 = MEMCACHED_FAILURE \<or> rc2 = MEMCACHED_TIMEOUT"
      by (auto simp: io_wait_read_def dest: poll_loop_rc)
    moreover have "fill_read_buffer E s =
        (if retried e then if rc2 = MEMCACHED_SUCCESS then fill_read_buffer E s3 else (rc2, quit_dead_server E s3)
         else (MEMCACHED_ERRNO, quit_dead_server E (set_cached_errno e s1)))"
      using a Inl w by (subst fill_read_buffer.simps) (simp add: retried_def Let_def)
    ultimately show ?thesis
      using 1(2) 1(1) [OF a [symmetric] Inl refl _ w [symmetric]]
      by (auto simp: io_failure_def retried_def split: if_splits)
  qed
qed

lemma io_read_rc:
  "memcached_io_read E len s = (rc, data, s') \<Longrightarrow> rc = MEMCACHED_SUCCESS \<or> io_failure rc \<and> fd (server s') = - 1 \<and> read_buffer_length (server s') = 0"
proof (induction len arbitrary: s data rule: less_induct)
  case (less len)
  show ?case
  proof (cases "len = 0")
    case True
    with less.prems show ?thesis by (auto simp: io_read_zero)
  next
    case False
    obtain rc1 s1 where r: "refill E s = (rc1, s1)" by (cases "refill E s")
    then have "rc1 = MEMCACHED_SUCCESS \<or> io_failure rc1 \<and> fd (server s1) = - 1 \<and> read_buffer_length (server s1) = 0"
      by (auto simp: refill_def dest: fill_read_buffer_rc split: if_splits)
    moreover have "len - min len (read_buffer_length (server s1)) < len" if "rc1 = MEMCACHED_SUCCESS"
      using refill_length [of E s s1] r that False by auto
    ultimately show ?thesis
      using less False by (auto simp: io_read_round [OF _ r] Let_def split: if_splits prod.splits)
  qed
qed

lemma readline_rc:
  "memcached_io_readline E room s = (rc, line, s') \<Longrightarrow> rc = MEMCACHED_SUCCESS \<or> rc = MEMCACHED_PROTOCOL_ERROR \<or> io_failure rc"
  unfolding memcached_io_readline_def
proof (induction room arbitrary: s line rule: less_induct)
  case (less room)
  obtain rc1 first s1 where first:
    "(if read_buffer_length (server s) = 0 then memcached_io_read E 1 s else (MEMCACHED_SUCCESS, [], s)) = (rc1, first, s1)"
    by (cases "if read_buffer_length (server s) = 0 then memcached_io_read E 1 s else (MEMCACHED_SUCCESS, [], s)") auto
  then have rc1: "rc1 = MEMCACHED_SUCCESS \<or> io_failure rc1" by (auto split: if_splits dest: io_read_rc)
  show ?case
  proof (cases "0 < room \<and> rc1 = MEMCACHED_SUCCESS")
    case True
    define m where "m = (if first = [10] then [] else copy_line (room - length first) (buffered (server s1)))"
    have "0 < length (first @ m)"
      using True first io_read_length [of E 1 s first s1] by (auto simp: m_def buffered_def split: if_splits)
    then have "room - length (first @ m) < room" using True by linarith
    from less.IH [OF this] less.prems True first readline_round [of room s E first s1, folded m_def, unfolded Let_def]
    show ?thesis by (auto split: if_splits prod.splits)
  next
    case False
    with less.prems first rc1 show ?thesis
      by (subst (asm) readline_loop.simps) (auto split: if_splits)
  qed
qed

end
