(* ===== verification/Client_Response.thy ===== *)
theory Client_Response
  imports Client_Stream Protocol_Binary "HOL-Library.Monad_Syntax"
begin

text \<open>
  \<open>response.c\<close>: the client reads what a server answers. A response is read into the buffer of the
  caller, an array of at least 350 bytes (or the eight bytes of a counter, for the binary protocol), and into a
  result. The outcome \<open>None\<close> stands for leaving the defined behaviour: a read or write behind the end
  of a buffer, of \<open>item_key\<close>, or of the block of a string.
\<close>

definition MEMCACHED_DEFAULT_COMMAND_SIZE :: nat where "MEMCACHED_DEFAULT_COMMAND_SIZE = 350"
definition SMALL_STRING_LEN :: nat where "SMALL_STRING_LEN = 1024"

type_synonym response = "memcached_return_t \<times> byte list \<times> memcached_result_st \<times> io_st"

section \<open>Scanning numbers\<close>

text \<open>
  \<open>strtoul(p, &p, 10)\<close> on the array \<open>m\<close>: the value and the new position, which is the old one when there
  are no digits. \<open>None\<close>: the scan leaves the array.
\<close>

definition number_end :: "byte list \<Rightarrow> nat" where
  "number_end s =
     (let spaces = takeWhile isspace s; s1 = dropWhile isspace s;
          sign = (if s1 \<noteq> [] \<and> (hd s1 = 45 \<or> hd s1 = 43) then 1 else 0);
          digits = takeWhile isdigit (drop sign s1)
      in length spaces + sign + length digits)"

definition number_digits :: "byte list \<Rightarrow> byte list" where
  "number_digits s =
     (let s1 = dropWhile isspace s
      in takeWhile isdigit (if s1 \<noteq> [] \<and> (hd s1 = 45 \<or> hd s1 = 43) then tl s1 else s1))"

definition scan_number :: "byte list \<Rightarrow> nat \<Rightarrow> (u64 \<times> nat) option" where
  "scan_number m p =
     (let s = drop p m
      in if length s \<le> number_end s then None
         else if number_digits s = [] then Some (0, p)
         else Some (strtoul10 s, p + number_end s))"

text \<open>\<open>sscanf(buffer, "%llu", &v) == 1\<close>\<close>

definition scans_llu :: "byte list \<Rightarrow> bool" where
  "scans_llu m \<longleftrightarrow> number_digits m \<noteq> []"

section \<open>The text protocol\<close>

text \<open>The loop that copies the key without the prefix: the bytes up to a control character or a space.\<close>

definition key_word :: "byte list \<Rightarrow> nat \<Rightarrow> byte list option" where
  "key_word buf p =
     (let w = takeWhile (\<lambda>c. \<not> (iscntrl c \<or> isspace c)) (drop p buf)
      in if length (drop p buf) \<le> length w then None else Some w)"

definition read_error :: "io_env \<Rightarrow> byte list \<Rightarrow> memcached_result_st \<Rightarrow> io_st \<Rightarrow> response" where
  "read_error E buf res s = (MEMCACHED_PARTIAL_READ, buf, res, memcached_io_reset E s)"

text \<open>The value and its line end are read into the string, which is then cut to the value.\<close>

definition read_value ::
  "io_env \<Rightarrow> byte list \<Rightarrow> u64 \<Rightarrow> memcached_result_st \<Rightarrow> io_st \<Rightarrow> response option" where
  "read_value E buf value_length res s =
     (let to_read = unat (value_length + 2)
      in case memcached_string_check (io_realloc E) (result_value_st res) to_read of
           (rc, str) \<Rightarrow>
             let res = res\<lparr>result_value_st := str\<rparr>
             in if rc \<noteq> MEMCACHED_SUCCESS then Some (MEMCACHED_MEMORY_ALLOCATION_FAILURE, buf, res, s)
                else case memcached_io_read E to_read s of
                  (rrc, data, s) \<Rightarrow>
                    let res = res\<lparr>result_value_st := str\<lparr>str_buf := map_option (\<lambda>b. memcpy_at b 0 data) (str_buf str)\<rparr>\<rparr>
                    in if rrc \<noteq> MEMCACHED_SUCCESS then Some (rrc, buf, res, s)
                       else if length data < unat value_length then None
                       else
                         let str = result_value_st res; n = unat value_length
                         in Some (MEMCACHED_SUCCESS, buf,
                                  res\<lparr>result_value_st :=
                                    memcached_string_set_length
                                      (str\<lparr>str_buf := map_option (\<lambda>b. memcpy_at b n [0, 0]) (str_buf str)\<rparr>) n\<rparr>, s))"

definition textual_value_fetch ::
  "io_env \<Rightarrow> byte list \<Rightarrow> memcached_result_st \<Rightarrow> io_st \<Rightarrow> response option" where
  "textual_value_fetch E buf res s =
     (if use_udp (flags (memc s)) then Some (MEMCACHED_NOT_SUPPORTED, buf, res, s)
      else
        let end_ptr = MEMCACHED_DEFAULT_COMMAND_SIZE; res = memcached_result_reset res
        in do {
          w \<leftarrow> key_word buf 6;
          let key = drop (prefix_key_length (memc s)) w;
          if MEMCACHED_MAX_KEY \<le> length key then None else
          let res = res\<lparr>key_length := length key, item_key := memcpy_at (item_key res) 0 (key @ [0])\<rparr>;
              p = 6 + length w in
          if p = end_ptr then Some (read_error E buf res s) else
          let p = p + 1 in
          if p = end_ptr then Some (read_error E buf res s) else do {
            (fl, p) \<leftarrow> scan_number buf p;
            let res = res\<lparr>item_flags := ucast fl\<rparr>;
            if p = end_ptr then Some (read_error E buf res s) else
            let p = p + 1 in
            if p = end_ptr then Some (read_error E buf res s) else do {
              (value_length, p) \<leftarrow> scan_number buf p;
              if p = end_ptr then Some (read_error E buf res s) else do {
                (res, p) \<leftarrow>
                  (if length buf \<le> p then None
                   else if buf ! p = 13 then Some (res, p + 2)
                   else map_option (\<lambda>(cas, p). (res\<lparr>item_cas := cas\<rparr>, p)) (scan_number buf (p + 1)));
                if end_ptr < p then Some (read_error E buf res s)
                else read_value E buf value_length res s
              }
            }
          }
        })"

text \<open>The message behind \<open>SERVER_ERROR \<close> is kept in the server.\<close>

definition keep_server_error :: "io_env \<Rightarrow> byte list \<Rightarrow> io_st \<Rightarrow> io_st option" where
  "keep_server_error E buf s =
     (let m = takeWhile (\<lambda>c. c \<noteq> 13 \<and> c \<noteq> 10) (drop 13 buf)
      in if length (drop 13 buf) \<le> length m then None
         else case io_realloc E (cached_server_error (server s)) (length m + 1) of
                None \<Rightarrow> Some (on_server (\<lambda>p. p\<lparr>cached_server_error :=
                                map_option (\<lambda>e. e[0 := 0]) (cached_server_error p)\<rparr>) s)
              | Some rel_ptr \<Rightarrow>
                  Some (on_server (\<lambda>p. p\<lparr>cached_server_error := Some (memcpy_at rel_ptr 0 (m @ [0]))\<rparr>) s))"

text \<open>The characters of the response line decide: \<open>V\<close> is 86, \<open>A\<close> 65, \<open>E\<close> 69 and so on.\<close>

definition textual_read_one_response ::
  "io_env \<Rightarrow> byte list \<Rightarrow> memcached_result_st \<Rightarrow> io_st \<Rightarrow> response option" where
  "textual_read_one_response E buf res s =
     (case memcached_io_readline E (length buf) s of
        (rc, line, s) \<Rightarrow>
          let buf = memcpy_at buf 0 line;
              answer = (\<lambda>rc s. Some (rc, buf, res, s));
              again = on_server memcached_server_response_increment s;
              c0 = buf ! 0; c1 = buf ! 1
          in if rc \<noteq> MEMCACHED_SUCCESS then answer rc s
             else if c0 = 86
             then (if c1 = 65 then textual_value_fetch E buf res again
                   else if c1 = 69 then answer MEMCACHED_SUCCESS s
                   else answer MEMCACHED_UNKNOWN_READ_FAILURE s)
             else if c0 = 79 then answer MEMCACHED_SUCCESS s
             else if c0 = 83
             then (if buf ! 2 = 65 then answer MEMCACHED_STAT again
                   else if c1 = 69
                   then (case keep_server_error E buf s of
                           None \<Rightarrow> None | Some s \<Rightarrow> answer MEMCACHED_SERVER_ERROR s)
                   else if c1 = 84 then answer MEMCACHED_STORED s
                   else answer MEMCACHED_UNKNOWN_READ_FAILURE s)
             else if c0 = 68 then answer MEMCACHED_DELETED s
             else if c0 = 78
             then (if buf ! 4 = 70 then answer MEMCACHED_NOTFOUND s
                   else if buf ! 4 = 83 then answer MEMCACHED_NOTSTORED s
                   else answer MEMCACHED_UNKNOWN_READ_FAILURE s)
             else if c0 = 69
             then (if c1 = 78 then answer MEMCACHED_END s
                   else if c1 = 82 then answer MEMCACHED_PROTOCOL_ERROR s
                   else if c1 = 88 then answer MEMCACHED_DATA_EXISTS s
                   else answer MEMCACHED_UNKNOWN_READ_FAILURE s)
             else if c0 = 73 then answer MEMCACHED_ITEM again
             else if c0 = 67 then answer MEMCACHED_CLIENT_ERROR s
             else if scans_llu buf then answer MEMCACHED_SUCCESS s
             else answer MEMCACHED_UNKNOWN_READ_FAILURE s)"

section \<open>The binary protocol\<close>

text \<open>The string of a result is given the body of a packet.\<close>

definition read_string_body ::
  "io_env \<Rightarrow> byte list \<Rightarrow> u32 \<Rightarrow> memcached_result_st \<Rightarrow> io_st \<Rightarrow> response" where
  "read_string_body E buf bodylen res s =
     (case memcached_string_check (io_realloc E) (result_value_st res) (unat bodylen) of
        (rc, str) \<Rightarrow>
          if rc \<noteq> MEMCACHED_SUCCESS
          then (MEMCACHED_MEMORY_ALLOCATION_FAILURE, buf, res\<lparr>result_value_st := str\<rparr>, s)
          else case memcached_safe_read E (unat bodylen) s of
            (rc, data, s) \<Rightarrow>
              let str = str\<lparr>str_buf := map_option (\<lambda>b. memcpy_at b 0 data) (str_buf str)\<rparr>
              in if rc \<noteq> MEMCACHED_SUCCESS then (MEMCACHED_UNKNOWN_READ_FAILURE, buf, res\<lparr>result_value_st := str\<rparr>, s)
                 else (MEMCACHED_SUCCESS, buf,
                       res\<lparr>result_value_st := memcached_string_set_length str (unat bodylen)\<rparr>, s))"

text \<open>Flags, key and value of \<open>GETK\<close> and \<open>GETKQ\<close>.\<close>

definition read_item ::
  "io_env \<Rightarrow> byte list \<Rightarrow> protocol_binary_response_header \<Rightarrow> memcached_result_st \<Rightarrow> io_st \<Rightarrow> response option" where
  "read_item E buf header res s =
     (let keylen = res_keylen header; res = (memcached_result_reset res)\<lparr>item_cas := res_cas header\<rparr>
      in case memcached_safe_read E 4 s of
           (rc, data, s) \<Rightarrow>
             let res = res\<lparr>item_flags := ld_le32 (memcpy_at (st_le32 (item_flags res)) 0 data) 0\<rparr>
             in if rc \<noteq> MEMCACHED_SUCCESS then Some (MEMCACHED_UNKNOWN_READ_FAILURE, buf, res, s)
                else
                  let res = res\<lparr>item_flags := ntohl (item_flags res), key_length := unat keylen\<rparr>;
                      bodylen = res_bodylen header - ucast (res_extlen header)
                  in if MEMCACHED_MAX_KEY < unat keylen then None
                     else case memcached_safe_read E (unat keylen) s of
                       (rc, data, s) \<Rightarrow>
                         let res = res\<lparr>item_key := memcpy_at (item_key res) 0 data\<rparr>
                         in if rc \<noteq> MEMCACHED_SUCCESS then Some (MEMCACHED_UNKNOWN_READ_FAILURE, buf, res, s)
                            else Some (read_string_body E buf (bodylen - ucast keylen) res s))"

definition read_counter :: "io_env \<Rightarrow> byte list \<Rightarrow> u32 \<Rightarrow> memcached_result_st \<Rightarrow> io_st \<Rightarrow> response" where
  "read_counter E buf bodylen res s =
     (if bodylen \<noteq> 8 \<or> length buf \<noteq> 8 then (MEMCACHED_PROTOCOL_ERROR, buf, res, s)
      else case memcached_safe_read E 8 s of
        (rc, data, s) \<Rightarrow>
          if rc \<noteq> MEMCACHED_SUCCESS then (MEMCACHED_UNKNOWN_READ_FAILURE, buf, res, s)
          else (MEMCACHED_SUCCESS, memcpy_at buf 0 (st_le64 (ntohll (ld_le64 data 0))), res, s))"

definition read_text :: "io_env \<Rightarrow> byte list \<Rightarrow> u32 \<Rightarrow> memcached_result_st \<Rightarrow> io_st \<Rightarrow> response" where
  "read_text E buf bodylen res s =
     (let buf = replicate (length buf) 0
      in if length buf \<le> unat bodylen then (MEMCACHED_UNKNOWN_READ_FAILURE, buf, res, s)
         else case memcached_safe_read E (unat bodylen) s of
           (rc, data, s) \<Rightarrow>
             (if rc \<noteq> MEMCACHED_SUCCESS then MEMCACHED_UNKNOWN_READ_FAILURE else MEMCACHED_SUCCESS,
              memcpy_at buf 0 data, res, s))"

text \<open>Name and value of a statistic, each with a NUL behind it.\<close>

definition read_stat :: "io_env \<Rightarrow> byte list \<Rightarrow> u16 \<Rightarrow> u32 \<Rightarrow> memcached_result_st \<Rightarrow> io_st \<Rightarrow> response option" where
  "read_stat E buf keylen bodylen res s =
     (if bodylen = 0 then Some (MEMCACHED_END, buf, res, s)
      else if length buf < unat (bodylen + 1) then Some (MEMCACHED_UNKNOWN_READ_FAILURE, buf, res, s)
      else
        let k = unat keylen; n = size_sub (unat bodylen) k; buf = replicate (length buf) 0
        in if length buf < k then None
           else case memcached_safe_read E k s of
             (rc, data, s) \<Rightarrow>
               let buf = memcpy_at buf 0 data
               in if rc \<noteq> MEMCACHED_SUCCESS then Some (MEMCACHED_UNKNOWN_READ_FAILURE, buf, res, s)
                  else if 0 < n \<and> length buf < k + 1 + n then None
                  else case memcached_safe_read E n s of
                    (rc, data, s) \<Rightarrow>
                      Some (if rc \<noteq> MEMCACHED_SUCCESS then MEMCACHED_UNKNOWN_READ_FAILURE else MEMCACHED_SUCCESS,
                            if n = 0 then buf else memcpy_at buf (k + 1) data, res, s))"

text \<open>The body of an error is read in pieces and dropped.\<close>

function discard_body :: "io_env \<Rightarrow> nat \<Rightarrow> io_st \<Rightarrow> memcached_return_t \<times> io_st" where
  "discard_body E bodylen s =
     (if bodylen = 0 then (MEMCACHED_SUCCESS, s)
      else let nr = (if SMALL_STRING_LEN < bodylen then SMALL_STRING_LEN else bodylen)
           in case memcached_safe_read E nr s of
                (rc, hole, s) \<Rightarrow>
                  if rc \<noteq> MEMCACHED_SUCCESS then (MEMCACHED_UNKNOWN_READ_FAILURE, s)
                  else discard_body E (bodylen - nr) s)"
  by pat_completeness auto
termination
  by (relation "measure (\<lambda>(E, bodylen, s). bodylen)") (auto simp: SMALL_STRING_LEN_def split: if_splits)

declare discard_body.simps [simp del]

definition status_return :: "u16 \<Rightarrow> memcached_return_t" where
  "status_return status =
     (if status = PROTOCOL_BINARY_RESPONSE_SUCCESS then MEMCACHED_SUCCESS
      else if status = PROTOCOL_BINARY_RESPONSE_KEY_ENOENT then MEMCACHED_NOTFOUND
      else if status = PROTOCOL_BINARY_RESPONSE_KEY_EEXISTS then MEMCACHED_DATA_EXISTS
      else if status = PROTOCOL_BINARY_RESPONSE_NOT_STORED then MEMCACHED_NOTSTORED
      else if status = PROTOCOL_BINARY_RESPONSE_E2BIG then MEMCACHED_E2BIG
      else if status = PROTOCOL_BINARY_RESPONSE_ENOMEM then MEMCACHED_MEMORY_ALLOCATION_FAILURE
      else if status = PROTOCOL_BINARY_RESPONSE_AUTH_CONTINUE then MEMCACHED_AUTH_CONTINUE
      else if status = PROTOCOL_BINARY_RESPONSE_AUTH_ERROR then MEMCACHED_AUTH_FAILURE
      else MEMCACHED_PROTOCOL_ERROR)"

text \<open>The header with its fields in the byte order of the host.\<close>

definition host_header :: "protocol_binary_response_header \<Rightarrow> protocol_binary_response_header" where
  "host_header h =
     h\<lparr>res_keylen := ntohs (res_keylen h), res_status := ntohs (res_status h), res_bodylen := ntohl (res_bodylen h),
       res_cas := ntohll (res_cas h)\<rparr>"

text \<open>
  One packet: whether the next one is to be read instead, which is so for the errors of quiet commands, and
  the outcome. A switch that ends in \<open>break\<close> is followed by the translation of the status.
\<close>

definition after_switch :: "u16 \<Rightarrow> response \<Rightarrow> response" where
  "after_switch status r = (case r of (rc, rest) \<Rightarrow> if rc = MEMCACHED_SUCCESS then (status_return status, rest) else r)"

definition binary_read_packet ::
  "io_env \<Rightarrow> byte list \<Rightarrow> memcached_result_st \<Rightarrow> io_st \<Rightarrow> (bool \<times> response) option" where
  "binary_read_packet E buf res s =
     (case memcached_safe_read E 24 s of
        (rc, data, s) \<Rightarrow>
          if rc \<noteq> MEMCACHED_SUCCESS then Some (False, rc, buf, res, s)
          else
            let header = host_header (response_at data); status = res_status header; bodylen = res_bodylen header;
                opcode = res_opcode header; go_on = map_option (\<lambda>r. (False, after_switch status r))
            in if res_magic header \<noteq> PROTOCOL_BINARY_RES then Some (False, MEMCACHED_PROTOCOL_ERROR, buf, res, s)
               else if status = PROTOCOL_BINARY_RESPONSE_SUCCESS \<or> status = PROTOCOL_BINARY_RESPONSE_AUTH_CONTINUE
               then
                 (if opcode = PROTOCOL_BINARY_CMD_GETKQ
                  then go_on (read_item E buf header res (on_server memcached_server_response_increment s))
                  else if opcode = PROTOCOL_BINARY_CMD_GETK then go_on (read_item E buf header res s)
                  else if opcode = PROTOCOL_BINARY_CMD_INCREMENT \<or> opcode = PROTOCOL_BINARY_CMD_DECREMENT
                  then go_on (Some (read_counter E buf bodylen res s))
                  else if opcode = PROTOCOL_BINARY_CMD_SASL_LIST_MECHS \<or> opcode = PROTOCOL_BINARY_CMD_VERSION
                  then go_on (Some (read_text E buf bodylen res s))
                  else if opcode \<in> {PROTOCOL_BINARY_CMD_FLUSH, PROTOCOL_BINARY_CMD_QUIT, PROTOCOL_BINARY_CMD_SET,
                                    PROTOCOL_BINARY_CMD_ADD, PROTOCOL_BINARY_CMD_REPLACE, PROTOCOL_BINARY_CMD_APPEND,
                                    PROTOCOL_BINARY_CMD_PREPEND, PROTOCOL_BINARY_CMD_DELETE}
                  then Some (False, MEMCACHED_SUCCESS, buf, res, s)
                  else if opcode = PROTOCOL_BINARY_CMD_NOOP then Some (False, MEMCACHED_END, buf, res, s)
                  else if opcode = PROTOCOL_BINARY_CMD_STAT
                  then go_on (read_stat E buf (res_keylen header) bodylen res s)
                  else if opcode = PROTOCOL_BINARY_CMD_SASL_AUTH \<or> opcode = PROTOCOL_BINARY_CMD_SASL_STEP
                  then go_on (Some (read_string_body E buf bodylen ((memcached_result_reset res)\<lparr>item_cas := res_cas header\<rparr>) s))
                  else Some (False, MEMCACHED_PROTOCOL_ERROR, buf, res, s))
               else if bodylen \<noteq> 0
               then (case discard_body E (unat bodylen) s of
                       (rc, s) \<Rightarrow>
                         if rc \<noteq> MEMCACHED_SUCCESS then Some (False, rc, buf, res, s)
                         else if opcode \<in> {PROTOCOL_BINARY_CMD_SETQ, PROTOCOL_BINARY_CMD_ADDQ, PROTOCOL_BINARY_CMD_REPLACEQ,
                                           PROTOCOL_BINARY_CMD_APPENDQ, PROTOCOL_BINARY_CMD_PREPENDQ}
                         then Some (True, MEMCACHED_SUCCESS, buf, res, s)
                         else Some (False, status_return status, buf, res, s))
               else Some (False, status_return status, buf, res, s))"

lemma discard_body_avail: "discard_body E n s = (MEMCACHED_SUCCESS, s') \<Longrightarrow> avail s' \<le> avail s"
proof (induction E n s rule: discard_body.induct)
  case (1 E bodylen s)
  show ?case
    using 1(2) 1(1) [OF _ refl _ refl]
    by (subst (asm) discard_body.simps) (fastforce simp: Let_def split: prod.splits if_splits dest: safe_read_avail)
qed

lemma read_packet_again:
  "binary_read_packet E buf res s = Some (True, rc, buf', res', s') \<Longrightarrow> avail s' < avail s"
  by (auto simp: binary_read_packet_def Let_def split: prod.splits if_splits dest!: safe_read_avail discard_body_avail)

function binary_read_one_response ::
  "io_env \<Rightarrow> byte list \<Rightarrow> memcached_result_st \<Rightarrow> io_st \<Rightarrow> response option" where
  "binary_read_one_response E buf res s =
     (case binary_read_packet E buf res s of
        None \<Rightarrow> None
      | Some (again, rc, buf, res, s) \<Rightarrow>
          if again then binary_read_one_response E buf res s else Some (rc, buf, res, s))"
  by pat_completeness auto
termination
  by (relation "measure (\<lambda>(E, buf, res, s). avail s)") (auto dest: read_packet_again)

declare binary_read_one_response.simps [simp del]

section \<open>\<open>memcached_response\<close>\<close>

definition resets_io :: "memcached_return_t \<Rightarrow> bool" where
  "resets_io rc \<longleftrightarrow> rc = MEMCACHED_UNKNOWN_READ_FAILURE \<or> rc = MEMCACHED_PROTOCOL_ERROR \<or> rc = MEMCACHED_CLIENT_ERROR \<or>
     rc = MEMCACHED_MEMORY_ALLOCATION_FAILURE"

text \<open>
  The caller gives the result; when it gives none, that of the client object is used, see
  \<open>with_root_result\<close>.
\<close>

definition memcached_read_one_response ::
  "io_env \<Rightarrow> byte list \<Rightarrow> memcached_result_st \<Rightarrow> io_st \<Rightarrow> response option" where
  "memcached_read_one_response E buf res s =
     (let s = on_server memcached_server_response_decrement s
      in case (if binary_protocol (flags (memc s)) then binary_read_one_response E buf res s
               else textual_read_one_response E buf res s) of
           None \<Rightarrow> None
         | Some (rc, buf, res, s) \<Rightarrow> Some (rc, buf, res, if resets_io rc then memcached_io_reset E s else s))"

text \<open>The answers that do not end the loop over the older responses.\<close>

definition passed_over :: "memcached_return_t \<Rightarrow> bool" where
  "passed_over rc \<longleftrightarrow> rc = MEMCACHED_END \<or> rc = MEMCACHED_STORED \<or> rc = MEMCACHED_SUCCESS \<or> rc = MEMCACHED_STAT \<or>
     rc = MEMCACHED_DELETED \<or> rc = MEMCACHED_NOTFOUND \<or> rc = MEMCACHED_NOTSTORED \<or> rc = MEMCACHED_DATA_EXISTS"

lemma read_value_avail:
  "read_value E buf n res s = Some (rc, buf', res', s') \<Longrightarrow> passed_over rc \<Longrightarrow> avail s' \<le> avail s"
  by (auto simp: read_value_def Let_def passed_over_def io_failure_def split: prod.splits if_splits
      dest: io_read_avail io_read_rc)

lemma value_fetch_avail:
  "textual_value_fetch E buf res s = Some (rc, buf', res', s') \<Longrightarrow> passed_over rc \<Longrightarrow> avail s' \<le> avail s"
  by (auto simp: textual_value_fetch_def read_error_def Let_def passed_over_def bind_eq_Some_conv
      split: prod.splits if_splits dest: read_value_avail)

lemma keep_server_error_avail: "keep_server_error E buf s = Some s' \<Longrightarrow> avail s' = avail s"
  by (auto simp: keep_server_error_def Let_def avail_def split: if_splits option.splits)

lemma textual_avail:
  assumes "textual_read_one_response E buf res s = Some (rc, buf', res', s')" and "passed_over rc"
  shows "avail s' < avail s"
proof -
  obtain rc1 line s1 where l: "memcached_io_readline E (length buf) s = (rc1, line, s1)"
    by (cases "memcached_io_readline E (length buf) s") auto
  have bump: "avail (on_server memcached_server_response_increment s1) = avail s1"
    by (simp add: avail_def memcached_server_response_increment_def)
  have rc1: "rc1 = MEMCACHED_SUCCESS"
    using readline_rc [OF l] assms l by (auto simp: textual_read_one_response_def passed_over_def io_failure_def)
  have "avail s' \<le> avail s1"
    using assms(1) l rc1 bump assms(2)
    by (auto simp: textual_read_one_response_def Let_def split: if_splits option.splits
        dest!: keep_server_error_avail dest: value_fetch_avail)
  with readline_avail [OF l [unfolded rc1]] show ?thesis by simp
qed

lemma read_one_avail:
  assumes "\<not> binary_protocol (flags (memc s))" and "memcached_read_one_response E buf res s = Some (rc, buf', res', s')"
    and "passed_over rc"
  shows "avail s' < avail s"
proof -
  have "\<not> resets_io rc" using assms(3) by (auto simp: resets_io_def passed_over_def)
  moreover have "avail (on_server memcached_server_response_decrement s) = avail s"
    by (simp add: avail_def memcached_server_response_decrement_def)
  ultimately show ?thesis
    using assms by (auto simp: memcached_read_one_response_def Let_def split: option.splits dest: textual_avail)
qed

text \<open>
  \<open>memcached_response\<close> without the flush of the write buffer at its head: with the text protocol,
  all responses but the last are read and passed over.
\<close>

function response_loop :: "io_env \<Rightarrow> byte list \<Rightarrow> memcached_result_st \<Rightarrow> io_st \<Rightarrow> response option" where
  "response_loop E buf res s =
     (if \<not> binary_protocol (flags (memc s)) \<and> 1 < memcached_server_response_count (server s)
      then case memcached_read_one_response E buf res s of
             None \<Rightarrow> None
           | Some (rc, buf, res, s) \<Rightarrow>
               if passed_over rc then response_loop E buf res s else Some (rc, buf, res, s)
      else memcached_read_one_response E buf res s)"
  by pat_completeness auto
termination
  by (relation "measure (\<lambda>(E, buf, res, s). avail s)") (auto dest: read_one_avail)

declare response_loop.simps [simp del]

definition with_root_result :: "(memcached_result_st \<Rightarrow> io_st \<Rightarrow> response option) \<Rightarrow> io_st \<Rightarrow> (memcached_return_t \<times> byte list \<times> io_st) option" where
  "with_root_result f s =
     (case f (result (memc s)) s of
        None \<Rightarrow> None
      | Some (rc, buf, res, s) \<Rightarrow> Some (rc, buf, s\<lparr>memc := (memc s)\<lparr>result := res\<rparr>\<rparr>))"

end
