(* ===== verification/Client_Write.thy ===== *)
theory Client_Write
  imports Client_Response
begin

text \<open>
  The output side of \<open>io.c\<close>, with \<open>purge.c\<close> and \<open>memcached_response\<close>. Requests collect in
  \<open>write_buffer\<close>; flushing it may first read old responses (\<open>memcached_purge\<close>), and that reading flushes
  in turn. While \<open>is_purging\<close> is set a purge does nothing, so that the recursion has two levels: \<open>io_flush_purging\<close> is
  \<open>io_flush\<close> during a purge, and \<open>io_flush\<close> is the function that the rest of the library calls. That both are the
  same function of the source is lemma \<open>io_flush_while_purging\<close>. The number \<open>- 1\<close> is returned for failure, as in the code.
\<close>

definition MAX_UDP_DATAGRAM_LENGTH :: nat where "MAX_UDP_DATAGRAM_LENGTH = 1400"

section \<open>Writing to the socket\<close>

definition sys_write :: "byte list \<Rightarrow> io_st \<Rightarrow> (int + nat) \<times> io_st" where
  "sys_write data s =
     (if fd (server s) = - 1 then (Inl EBADF, s)
      else case net_writes s of
             [] \<Rightarrow> (Inl EPIPE, s)
           | Sent n # ws \<Rightarrow>
               (Inr (min n (length data)), s\<lparr>net_writes := ws, net_sent := net_sent s @ take n data\<rparr>)
           | Write_error e # ws \<Rightarrow> (Inl e, s\<lparr>net_writes := ws\<rparr>))"

text \<open>
  Make room at the end of the input buffer and read what is there. \<open>read_data_length\<close> is trusted when the
  unread bytes are at the start of the buffer already.
\<close>

definition repack_input_buffer :: "io_st \<Rightarrow> bool \<times> io_st" where
  "repack_input_buffer s =
     (let s = (if read_ptr (server s) \<noteq> 0
               then on_server (\<lambda>p. p\<lparr>read_buffer := memcpy_at (read_buffer p) 0 (buffered p), read_ptr := 0,
                                      read_data_length := read_buffer_length p\<rparr>) s
               else s);
          p = server s
      in if read_buffer_length p \<noteq> MEMCACHED_MAX_BUFFER
         then (case sys_read (MEMCACHED_MAX_BUFFER - read_data_length p) s of
                 (Inr data, s) \<Rightarrow>
                   if data \<noteq> []
                   then (True, on_server (\<lambda>p. p\<lparr>read_buffer := memcpy_at (read_buffer p) (read_ptr p + read_data_length p) data,
                                               read_data_length := read_data_length p + length data,
                                               read_buffer_length := read_buffer_length p + length data\<rparr>) s)
                   else (False, s)
               | (Inl e, s) \<Rightarrow> (False, s))
         else (False, s))"

fun run_callbacks :: "(memcached_result_st list \<Rightarrow> memcached_return_t) list \<Rightarrow> memcached_result_st \<Rightarrow> io_st \<Rightarrow> io_st" where
  "run_callbacks [] res s = s"
| "run_callbacks (cb # cbs) res s =
     (let s = s\<lparr>net_log := net_log s @ [res]\<rparr>
      in if cb (net_log s) \<noteq> MEMCACHED_SUCCESS then s else run_callbacks cbs res s)"

definition set_state :: "(memcached_state \<Rightarrow> memcached_state) \<Rightarrow> io_st \<Rightarrow> io_st" where
  "set_state f s = s\<lparr>memc := (memc s)\<lparr>memc_state := f (memc_state (memc s))\<rparr>\<rparr>"

definition memcached_set_processing_input :: "bool \<Rightarrow> io_st \<Rightarrow> io_st" where
  "memcached_set_processing_input b s = set_state (\<lambda>t. t\<lparr>is_processing_input := b\<rparr>) s"

definition memcached_set_purging :: "bool \<Rightarrow> io_st \<Rightarrow> io_st" where
  "memcached_set_purging b s = set_state (\<lambda>t. t\<lparr>is_purging := b\<rparr>) s"

text \<open>While input is processed, \<open>memcached_response\<close> does not flush: it is \<open>response_loop\<close>.\<close>

definition process_input_buffer :: "io_env \<Rightarrow> io_st \<Rightarrow> (bool \<times> io_st) option" where
  "process_input_buffer E s =
     (case callbacks (memc s) of
        None \<Rightarrow> Some (False, s)
      | Some cb \<Rightarrow>
          if use_udp (flags (memc s)) then Some (False, s)
          else case with_root_result (response_loop E (local_buffer E MEMCACHED_DEFAULT_COMMAND_SIZE))
                       (memcached_set_processing_input True s) of
                 None \<Rightarrow> None
               | Some (error, buf, s) \<Rightarrow>
                   (let s = memcached_set_processing_input False s
                    in Some (True, if error = MEMCACHED_SUCCESS then run_callbacks (io_callbacks E cb) (result (memc s)) s else s)))"

definition memcached_io_cork_push :: "io_env \<Rightarrow> io_st \<Rightarrow> io_st" where
  "memcached_io_cork_push E s =
     (if \<not> cork (flags (memc s)) \<or> is_corked (server s) then s
      else if io_cork_works E then on_server (\<lambda>p. p\<lparr>is_corked := True\<rparr>) s else s)"

definition memcached_io_cork_pop :: "io_env \<Rightarrow> io_st \<Rightarrow> io_st" where
  "memcached_io_cork_pop E s =
     (if \<not> cork (flags (memc s)) \<or> \<not> is_corked (server s) then s
      else if io_cork_works E then on_server (\<lambda>p. p\<lparr>is_corked := False\<rparr>) s else s)"

section \<open>Flushing\<close>

type_synonym purge = "io_st \<Rightarrow> (memcached_return_t \<times> io_st) option"

text \<open>\<open>io_wait\<close> with \<open>MEM_WRITE\<close>\<close>

definition io_wait_write :: "io_env \<Rightarrow> purge \<Rightarrow> purge" where
  "io_wait_write E purge s =
     (case purge s of
        None \<Rightarrow> None
      | Some (rc, s) \<Rightarrow>
          Some (if rc \<noteq> MEMCACHED_SUCCESS \<and> rc \<noteq> MEMCACHED_STORED then (MEMCACHED_FAILURE, s) else poll_loop E 4 0 s))"

datatype flush_next = Flush_failed | Flush_retry | Flush_wrote nat

text \<open>The switch over \<open>errno\<close> after a failed \<open>write\<close>: try again or give up.\<close>

definition flush_error :: "io_env \<Rightarrow> purge \<Rightarrow> int \<Rightarrow> io_st \<Rightarrow> (flush_next \<times> io_st) option" where
  "flush_error E purge errno s =
     (let s = set_cached_errno errno s
      in if errno = ENOBUFS then Some (Flush_retry, s)
         else if errno = EAGAIN
         then (case repack_input_buffer s of
                 (True, s) \<Rightarrow> Some (Flush_retry, s)
               | (False, s) \<Rightarrow>
                   (case process_input_buffer E s of
                      None \<Rightarrow> None
                    | Some (True, s) \<Rightarrow> Some (Flush_retry, s)
                    | Some (False, s) \<Rightarrow>
                        (case io_wait_write E purge s of
                           None \<Rightarrow> None
                         | Some (rc, s) \<Rightarrow>
                             if rc = MEMCACHED_SUCCESS \<or> rc = MEMCACHED_TIMEOUT then Some (Flush_retry, s)
                             else Some (Flush_failed, quit_dead_server E s))))
         else Some (Flush_failed, quit_dead_server E s))"

text \<open>One round of the loop of \<open>io_flush\<close>: \<open>len\<close> bytes at offset \<open>local\<close> of the write buffer are left.\<close>

definition flush_round :: "io_env \<Rightarrow> purge \<Rightarrow> nat \<Rightarrow> nat \<Rightarrow> io_st \<Rightarrow> (flush_next \<times> io_st) option" where
  "flush_round E purge local len s =
     (let udp = (conn_type (server s) = MEMCACHED_CONNECTION_UDP);
          s = (if udp then on_server increment_udp_message_id s else s)
      in case sys_write (take len (drop local (write_buffer (server s)))) s of
           (Inl errno, s) \<Rightarrow> flush_error E purge errno s
         | (Inr sent_length, s) \<Rightarrow>
             if udp \<and> sent_length \<noteq> len then Some (Flush_failed, quit_dead_server E s)
             else Some (Flush_wrote sent_length,
                        on_server (\<lambda>p. p\<lparr>io_bytes_sent := io_bytes_sent p + of_nat sent_length\<rparr>) s))"

text \<open>The end of \<open>io_flush\<close>, and what it does before its loop.\<close>

definition empty_write_buffer :: "io_st \<Rightarrow> io_st" where
  "empty_write_buffer s =
     on_server (\<lambda>p. p\<lparr>write_buffer_offset :=
                  (if conn_type p = MEMCACHED_CONNECTION_UDP then UDP_DATAGRAM_HEADER_LENGTH else 0)\<rparr>) s"

definition flush_with :: "purge \<Rightarrow> (nat \<Rightarrow> nat \<Rightarrow> nat \<Rightarrow> io_st \<Rightarrow> (int \<times> io_st) option) \<Rightarrow> io_st \<Rightarrow> (int \<times> io_st) option" where
  "flush_with purge loop s =
     (case purge s of
        None \<Rightarrow> None
      | Some (rc, s) \<Rightarrow>
          if rc \<noteq> MEMCACHED_SUCCESS \<and> rc \<noteq> MEMCACHED_STORED then Some (- 1, s)
          else
            let p = server s; udp = (conn_type p = MEMCACHED_CONNECTION_UDP); write_length = write_buffer_offset p
            in if udp \<and> MAX_UDP_DATAGRAM_LENGTH < write_length then Some (- 1, s)
               else if write_length = 0 \<or> (udp \<and> write_length = UDP_DATAGRAM_HEADER_LENGTH) then Some (0, s)
               else loop 0 write_length 0 s)"

definition no_purge :: purge where
  "no_purge s = Some (MEMCACHED_SUCCESS, s)"

section \<open>What reading leaves alone\<close>

text \<open>
  Whatever happens while responses are read: nothing is written, the write buffer keeps its bytes, the flags and the
  purging state stay, and the connection is at most closed.
\<close>

definition sizes :: "memcached_st \<Rightarrow> 32 word \<times> 32 word \<times> u32" where
  "sizes m = (send_size m, recv_size m, tcp_keepidle m)"

lemma sizes_simps [simp]:
  "sizes (m\<lparr>memc_state := a\<rparr>) = sizes m" "sizes (m\<lparr>last_disconnected_server := b\<rparr>) = sizes m" "sizes (m\<lparr>result := r\<rparr>) = sizes m"
  "sizes (m\<lparr>poll_timeout := t\<rparr>) = sizes m" "sizes (m\<lparr>memc_cached_errno := e\<rparr>) = sizes m" "sizes (m\<lparr>servers := ss\<rparr>) = sizes m"
  by (simp_all add: sizes_def)

definition quiet :: "io_st \<Rightarrow> io_st \<Rightarrow> bool" where
  "quiet s s' \<longleftrightarrow>
     net_sent s' = net_sent s \<and> length (net_writes s') \<le> length (net_writes s) \<and>
     write_buffer (server s') = write_buffer (server s) \<and> conn_type (server s') = conn_type (server s) \<and>
     is_purging (memc_state (memc s')) = is_purging (memc_state (memc s)) \<and>
     flags (memc s') = flags (memc s) \<and> callbacks (memc s') = callbacks (memc s) \<and> sizes (memc s') = sizes (memc s) \<and>
     (fd (server s') = fd (server s) \<and> write_buffer_offset (server s') = write_buffer_offset (server s) \<or> fd (server s') = - 1)"

lemma quiet_refl [simp]: "quiet s s"
  by (simp add: quiet_def)

lemma quiet_trans [trans]: "quiet s t \<Longrightarrow> quiet t u \<Longrightarrow> quiet s u"
  by (auto simp: quiet_def)

lemma quiet_on_server:
  assumes "write_buffer (f (server s)) = write_buffer (server s)" "conn_type (f (server s)) = conn_type (server s)"
    "fd (f (server s)) = fd (server s)" "write_buffer_offset (f (server s)) = write_buffer_offset (server s)"
  shows "quiet s (on_server f s)"
  using assms by (simp add: quiet_def)

lemma quiet_simple [simp]:
  "quiet s (set_cached_errno e s)" "quiet s (on_server (advance n) s)" "quiet s (on_server (filled data) s)"
  "quiet s (on_server memcached_server_response_increment s)" "quiet s (on_server memcached_server_response_decrement s)"
  "quiet s (on_server (server_failure_counter_update (\<lambda>_. k)) s)"
  "quiet s (s\<lparr>net_polls := polls\<rparr>)" "quiet s (s\<lparr>net_log := l\<rparr>)"
  "quiet s (memcached_set_processing_input b s)"
  by (simp_all add: quiet_def set_cached_errno_def advance_def filled_def memcached_server_response_increment_def
      memcached_server_response_decrement_def memcached_set_processing_input_def set_state_def)

lemma quiet_quit [simp]: "quiet s (quit_dead_server E s)"
  by (simp add: quiet_def quit_dead_server_def set_last_disconnected_host_def memcached_io_close_def disconnected_def
      memcached_server_response_reset_def Let_def)

lemma quiet_then_quit: "quiet s t \<Longrightarrow> quiet s (quit_dead_server E t)"
  by (erule quiet_trans) simp

lemma quiet_errno_quit [simp]: "quiet s (quit_dead_server E (set_cached_errno e s))"
  by (simp add: quiet_then_quit)

lemma quiet_after_advance: "quiet (on_server (advance n) s) t \<Longrightarrow> quiet s t"
  by (rule quiet_trans [OF quiet_simple(2)])

lemma quiet_advance_counter [simp]:
  "quiet s (on_server (server_failure_counter_update (\<lambda>_. k)) (on_server (advance n) s))"
  by (rule quiet_after_advance [of n]) simp

lemma quiet_sys_read: "sys_read n s = (r, s') \<Longrightarrow> quiet s s'"
  by (auto simp: sys_read_def quiet_def split: if_splits list.splits read_answer.splits)

lemma quiet_poll_loop: "poll_loop E n errno s = (rc, s') \<Longrightarrow> quiet s s'"
proof (induction n arbitrary: errno s)
  case 0
  then show ?case by (auto intro: quiet_trans [OF quiet_simple(1)])
next
  case (Suc n)
  obtain a s1 where a: "sys_poll s = (a, s1)" by (cases "sys_poll s")
  then have "quiet s s1" by (auto simp: sys_poll_def split: list.splits)
  moreover have "quiet s1 s'"
    using Suc a by (auto split: poll_answer.splits if_splits intro: quiet_trans [OF quiet_simple(1)])
  ultimately show ?case by (rule quiet_trans)
qed

lemma quiet_fill: "fill_read_buffer E s = (rc, s') \<Longrightarrow> quiet s s'"
proof (induction E s rule: fill_read_buffer.induct)
  case (1 E s)
  obtain a s1 where a: "sys_read MEMCACHED_MAX_BUFFER s = (a, s1)" by (cases "sys_read MEMCACHED_MAX_BUFFER s")
  have "quiet s1 s'"
  proof (cases a)
    case (Inr data)
    with 1(2) a show ?thesis
      by (subst (asm) fill_read_buffer.simps) (auto split: if_splits)
  next
    case (Inl e)
    obtain rc2 s3 where w: "io_wait_read E (set_cached_errno e s1) = (rc2, s3)" by (cases "io_wait_read E (set_cached_errno e s1)")
    then have s3: "quiet s1 s3"
      using quiet_poll_loop quiet_trans [OF quiet_simple(1)] by (fastforce simp: io_wait_read_def)
    have "fill_read_buffer E s =
        (if retried e then if rc2 = MEMCACHED_SUCCESS then fill_read_buffer E s3 else (rc2, quit_dead_server E s3)
         else (MEMCACHED_ERRNO, quit_dead_server E (set_cached_errno e s1)))"
      using a Inl w by (subst fill_read_buffer.simps) (simp add: retried_def Let_def)
    with 1(2) 1(1) [OF a [symmetric] Inl refl _ w [symmetric]] s3 show ?thesis
      by (auto simp: retried_def split: if_splits intro: quiet_trans [OF quiet_simple(1)] quiet_trans [OF s3])
  qed
  with quiet_sys_read [OF a] show ?case by (rule quiet_trans)
qed

lemma quiet_refill: "refill E s = (rc, s') \<Longrightarrow> quiet s s'"
  by (auto simp: refill_def dest: quiet_fill split: if_splits)

lemma quiet_io_read: "memcached_io_read E len s = (rc, data, s') \<Longrightarrow> quiet s s'"
proof (induction len arbitrary: s data rule: less_induct)
  case (less len)
  show ?case
  proof (cases "len = 0")
    case True
    with less.prems show ?thesis by (auto simp: io_read_zero)
  next
    case False
    obtain rc1 s1 where r: "refill E s = (rc1, s1)" by (cases "refill E s")
    define n where "n = min len (read_buffer_length (server s1))"
    define s2 where "s2 = on_server (advance n) s1"
    have s2: "quiet s1 s2" by (simp add: s2_def)
    have "quiet s1 s'"
    proof (cases "rc1 = MEMCACHED_SUCCESS \<and> len \<noteq> 1")
      case True
      then have "len - n < len" using refill_length [of E s s1] r False by (simp add: n_def)
      with less.IH [of "len - n" s2] less.prems True False s2 show ?thesis
        by (auto simp: io_read_round [OF _ r] Let_def n_def s2_def split: prod.splits intro: quiet_after_advance)
    next
      case False2: False
      with less.prems False show ?thesis
        by (auto simp: io_read_round [OF _ r] Let_def split: if_splits)
    qed
    with quiet_refill [OF r] show ?thesis by (rule quiet_trans)
  qed
qed

lemma quiet_safe_read: "memcached_safe_read E len s = (rc, data, s') \<Longrightarrow> quiet s s'"
  by (auto simp: safe_read_once dest: quiet_io_read split: if_splits)

lemma quiet_readline: "memcached_io_readline E room s = (rc, line, s') \<Longrightarrow> quiet s s'"
  unfolding memcached_io_readline_def
proof (induction room arbitrary: s line rule: less_induct)
  case (less room)
  obtain rc1 first s1 where first:
    "(if read_buffer_length (server s) = 0 then memcached_io_read E 1 s else (MEMCACHED_SUCCESS, [], s)) = (rc1, first, s1)"
    by (cases "if read_buffer_length (server s) = 0 then memcached_io_read E 1 s else (MEMCACHED_SUCCESS, [], s)") auto
  then have s1: "quiet s s1" by (auto split: if_splits dest: quiet_io_read)
  show ?case
  proof (cases "0 < room \<and> rc1 = MEMCACHED_SUCCESS")
    case True
    define m where "m = (if first = [10] then [] else copy_line (room - length first) (buffered (server s1)))"
    have "0 < length (first @ m)"
      using True first io_read_length [of E 1 s first s1] by (auto simp: m_def buffered_def split: if_splits)
    then have "room - length (first @ m) < room" using True by linarith
    from less.IH [OF this] less.prems True first readline_round [of room s E first s1, folded m_def, unfolded Let_def]
    have "quiet s1 s'" by (auto split: if_splits prod.splits intro: quiet_after_advance)
    with s1 show ?thesis by (rule quiet_trans)
  next
    case False
    with less.prems first s1 show ?thesis
      by (subst (asm) readline_loop.simps) (auto split: if_splits)
  qed
qed

lemma quiet_server_error: "keep_server_error E buf s = Some s' \<Longrightarrow> quiet s s'"
  by (auto simp: keep_server_error_def Let_def quiet_def split: if_splits option.splits)

lemma quiet_read_value: "read_value E buf n res s = Some (rc, buf', res', s') \<Longrightarrow> quiet s s'"
  by (auto simp: read_value_def Let_def split: prod.splits if_splits dest: quiet_io_read)

lemma quiet_read_error: "read_error E buf res s = (rc, buf', res', s') \<Longrightarrow> quiet s s'"
  by (auto simp: read_error_def memcached_io_reset_def)

lemma quiet_value_fetch: "textual_value_fetch E buf res s = Some (rc, buf', res', s') \<Longrightarrow> quiet s s'"
  by (auto simp: textual_value_fetch_def Let_def bind_eq_Some_conv split: prod.splits if_splits
      dest: quiet_read_value quiet_read_error)

lemma quiet_increment: "quiet (on_server memcached_server_response_increment s) t \<Longrightarrow> quiet s t"
  by (rule quiet_trans [OF quiet_simple(4)])

lemma quiet_decrement: "quiet (on_server memcached_server_response_decrement s) t \<Longrightarrow> quiet s t"
  by (rule quiet_trans [OF quiet_simple(5)])

lemma quiet_textual:
  assumes "textual_read_one_response E buf res s = Some (rc, buf', res', s')"
  shows "quiet s s'"
proof -
  obtain rc1 line s1 where l: "memcached_io_readline E (length buf) s = (rc1, line, s1)"
    by (cases "memcached_io_readline E (length buf) s") auto
  have "quiet s1 s'"
    using assms l
    by (auto simp: textual_read_one_response_def Let_def split: if_splits option.splits
        dest!: quiet_server_error dest: quiet_value_fetch intro: quiet_increment)
  with quiet_readline [OF l] show ?thesis by (rule quiet_trans)
qed

lemma quiet_discard: "discard_body E n s = (rc, s') \<Longrightarrow> quiet s s'"
proof (induction E n s rule: discard_body.induct)
  case (1 E bodylen s)
  define nr where "nr = (if SMALL_STRING_LEN < bodylen then SMALL_STRING_LEN else bodylen)"
  obtain rc1 hole s1 where r: "memcached_safe_read E nr s = (rc1, hole, s1)" by (cases "memcached_safe_read E nr s")
  show ?case
  proof (cases "bodylen \<noteq> 0 \<and> rc1 = MEMCACHED_SUCCESS")
    case True
    with 1(2) r have "discard_body E (bodylen - nr) s1 = (rc, s')"
      by (subst (asm) discard_body.simps) (simp add: nr_def Let_def)
    with 1(1) [OF _ nr_def r [symmetric] refl] True have "quiet s1 s'" by simp
    with quiet_safe_read [OF r] show ?thesis by (rule quiet_trans)
  next
    case False
    with 1(2) r quiet_safe_read [OF r] show ?thesis
      by (subst (asm) discard_body.simps) (auto simp: nr_def Let_def split: if_splits)
  qed
qed

lemma quiet_read_string_body: "read_string_body E buf n res s = (rc, buf', res', s') \<Longrightarrow> quiet s s'"
  by (auto simp: read_string_body_def Let_def split: prod.splits if_splits dest: quiet_safe_read)

lemma quiet_read_item: "read_item E buf h res s = Some (rc, buf', res', s') \<Longrightarrow> quiet s s'"
  by (auto simp: read_item_def Let_def split: prod.splits if_splits dest!: quiet_safe_read quiet_read_string_body intro: quiet_trans)

lemma quiet_read_counter: "read_counter E buf n res s = (rc, buf', res', s') \<Longrightarrow> quiet s s'"
  by (auto simp: read_counter_def split: prod.splits if_splits dest: quiet_safe_read)

lemma quiet_read_text: "read_text E buf n res s = (rc, buf', res', s') \<Longrightarrow> quiet s s'"
  by (auto simp: read_text_def Let_def split: prod.splits if_splits dest: quiet_safe_read)

lemma quiet_read_stat: "read_stat E buf k n res s = Some (rc, buf', res', s') \<Longrightarrow> quiet s s'"
  by (auto simp: read_stat_def Let_def split: prod.splits if_splits dest!: quiet_safe_read intro: quiet_trans)

lemmas quiet_bodies = quiet_read_item quiet_read_counter quiet_read_text quiet_read_stat quiet_read_string_body

lemma quiet_after_switch: "after_switch status r = (rc, buf, res, s) \<Longrightarrow> \<exists>rc'. r = (rc', buf, res, s)"
  by (auto simp: after_switch_def split: prod.splits if_splits)

lemma quiet_packet:
  assumes "binary_read_packet E buf res s = Some (again, rc, buf', res', s')"
  shows "quiet s s'"
proof -
  obtain rc1 data s1 where r: "memcached_safe_read E 24 s = (rc1, data, s1)" by (cases "memcached_safe_read E 24 s")
  have "quiet s1 s'"
    using assms r
    by (auto simp: binary_read_packet_def Let_def split: if_splits prod.splits
        dest!: quiet_after_switch quiet_bodies quiet_discard intro: quiet_increment)
  with quiet_safe_read [OF r] show ?thesis by (rule quiet_trans)
qed

lemma quiet_binary: "binary_read_one_response E buf res s = Some (rc, buf', res', s') \<Longrightarrow> quiet s s'"
proof (induction E buf res s rule: binary_read_one_response.induct)
  case (1 E buf res s)
  obtain again rc1 buf1 res1 s1 where p: "binary_read_packet E buf res s = Some (again, rc1, buf1, res1, s1)"
    using 1(2) by (subst (asm) binary_read_one_response.simps) (auto split: option.splits)
  have "quiet s1 s'"
    using 1(2) [unfolded binary_read_one_response.simps [of E buf res s]] p 1(1) [OF p refl refl refl refl]
    by (auto split: if_splits)
  with quiet_packet [OF p] show ?case by (rule quiet_trans)
qed

lemma quiet_read_one: "memcached_read_one_response E buf res s = Some (rc, buf', res', s') \<Longrightarrow> quiet s s'"
  by (auto simp: memcached_read_one_response_def Let_def memcached_io_reset_def split: option.splits if_splits
      dest!: quiet_binary quiet_textual quiet_decrement intro: quiet_then_quit)

lemma quiet_response_loop: "response_loop E buf res s = Some (rc, buf', res', s') \<Longrightarrow> quiet s s'"
proof (induction E buf res s rule: response_loop.induct)
  case (1 E buf res s)
  show ?case
  proof (cases "\<not> binary_protocol (flags (memc s)) \<and> 1 < memcached_server_response_count (server s)")
    case True
    then obtain rc1 buf1 res1 s1 where p: "memcached_read_one_response E buf res s = Some (rc1, buf1, res1, s1)"
      using 1(2) by (subst (asm) response_loop.simps) (auto split: option.splits)
    have "quiet s1 s'"
      using 1(2) [unfolded response_loop.simps [of E buf res s]] p 1(1) [OF True p refl refl refl] True
      by (auto split: if_splits)
    with quiet_read_one [OF p] show ?thesis by (rule quiet_trans)
  next
    case False
    with 1(2) show ?thesis
      by (subst (asm) response_loop.simps) (auto dest: quiet_read_one)
  qed
qed

lemma quiet_callbacks: "quiet s (run_callbacks cbs res s)"
proof (induction cbs arbitrary: s)
  case (Cons cb cbs)
  show ?case
    using quiet_trans [OF quiet_simple(8) Cons.IH] by (auto simp: Let_def)
qed simp

lemma quiet_root_result:
  "with_root_result f s = Some (rc, buf, s') \<Longrightarrow> (\<And>res rc buf res' s'. f res s = Some (rc, buf, res', s') \<Longrightarrow> quiet s s') \<Longrightarrow> quiet s s'"
  by (fastforce simp: with_root_result_def quiet_def split: option.splits)

lemma quiet_repack: "repack_input_buffer s = (b, s') \<Longrightarrow> quiet s s'"
  by (auto simp: repack_input_buffer_def Let_def sys_read_def quiet_def split: if_splits list.splits read_answer.splits)

lemma quiet_process_input:
  assumes "process_input_buffer E s = Some (b, s')"
  shows "quiet s s'"
proof (cases "callbacks (memc s) = None \<or> use_udp (flags (memc s))")
  case True
  with assms show ?thesis by (auto simp: process_input_buffer_def split: option.splits)
next
  case False
  then obtain cb where "callbacks (memc s) = Some cb" by auto
  with False assms obtain rc buf s1 where
    w: "with_root_result (response_loop E (local_buffer E MEMCACHED_DEFAULT_COMMAND_SIZE)) (memcached_set_processing_input True s) =
        Some (rc, buf, s1)"
    and s': "quiet (memcached_set_processing_input False s1) s'"
    by (auto simp: process_input_buffer_def Let_def quiet_callbacks split: option.splits if_splits)
  have "quiet (memcached_set_processing_input True s) s1"
    by (rule quiet_root_result [OF w]) (rule quiet_response_loop)
  then have "quiet s (memcached_set_processing_input False s1)"
    by (meson quiet_simple(9) quiet_trans)
  then show ?thesis using s' by (rule quiet_trans)
qed

section \<open>Flushing during a purge\<close>

lemma quiet_writes: "quiet s s' \<Longrightarrow> length (net_writes s') \<le> length (net_writes s)"
  by (simp add: quiet_def)

text \<open>A round that does not fail uses up an answer of \<open>write\<close>, if purging does not add any.\<close>

definition writes_shrink :: "purge \<Rightarrow> bool" where
  "writes_shrink purge \<longleftrightarrow> (\<forall>s rc s'. purge s = Some (rc, s') \<longrightarrow> length (net_writes s') \<le> length (net_writes s))"

lemma io_wait_write_writes:
  assumes "writes_shrink purge" and "io_wait_write E purge s = Some (rc, s')"
  shows "length (net_writes s') \<le> length (net_writes s)"
proof -
  obtain rc1 s1 where p: "purge s = Some (rc1, s1)" and "s' = s1 \<or> poll_loop E 4 0 s1 = (rc, s')"
    using assms(2) by (auto simp: io_wait_write_def split: option.splits if_splits)
  then have "length (net_writes s') \<le> length (net_writes s1)"
    using quiet_writes [OF quiet_poll_loop] by auto
  also have "\<dots> \<le> length (net_writes s)"
    using assms(1) p by (simp add: writes_shrink_def)
  finally show ?thesis .
qed

lemma set_cached_errno_writes [simp]: "net_writes (set_cached_errno e s) = net_writes s"
  by (simp add: set_cached_errno_def)

lemma flush_error_writes:
  assumes "writes_shrink purge" and "flush_error E purge errno s = Some (nxt, s')" and "nxt \<noteq> Flush_failed"
  shows "length (net_writes s') \<le> length (net_writes s) \<and> (errno = ENOBUFS \<or> errno = EAGAIN)"
proof (cases "errno = EAGAIN")
  case True
  obtain b s1 where r: "repack_input_buffer (set_cached_errno errno s) = (b, s1)"
    by (cases "repack_input_buffer (set_cached_errno errno s)")
  have s1: "length (net_writes s1) \<le> length (net_writes s)"
    using quiet_writes [OF quiet_repack [OF r]] by simp
  show ?thesis
  proof (cases b)
    case b: True
    with True assms(2) r s1 show ?thesis by (simp add: flush_error_def Let_def)
  next
    case False
    with True assms(2,3) r obtain b2 s2 where p: "process_input_buffer E s1 = Some (b2, s2)"
      and "b2 \<and> s' = s2 \<or> \<not> b2 \<and> (\<exists>rc. io_wait_write E purge s2 = Some (rc, s'))"
      by (auto simp: flush_error_def Let_def split: option.splits bool.splits if_splits)
    then have "length (net_writes s') \<le> length (net_writes s2)"
      using io_wait_write_writes [OF assms(1)] by auto
    with s1 quiet_writes [OF quiet_process_input [OF p]] True show ?thesis by simp
  qed
qed (use assms in \<open>auto simp: flush_error_def Let_def split: if_splits\<close>)

lemma flush_round_writes:
  assumes "writes_shrink purge" and round: "flush_round E purge local len s = Some (nxt, s')" and nf: "nxt \<noteq> Flush_failed"
  shows "length (net_writes s') < length (net_writes s)"
proof -
  define s0 where "s0 = (if conn_type (server s) = MEMCACHED_CONNECTION_UDP then on_server increment_udp_message_id s else s)"
  obtain r s1 where w: "sys_write (take len (drop local (write_buffer (server s0)))) s0 = (r, s1)"
    by (cases "sys_write (take len (drop local (write_buffer (server s0)))) s0")
  have s0: "net_writes s0 = net_writes s" by (simp add: s0_def)
  show ?thesis
  proof (cases r)
    case (Inr n)
    then have "length (net_writes s1) < length (net_writes s)"
      using w s0 by (auto simp: sys_write_def split: if_splits list.splits write_answer.splits)
    with round nf w Inr show ?thesis
      by (auto simp: flush_round_def Let_def simp flip: s0_def split: if_splits)
  next
    case (Inl e)
    with round w have f: "flush_error E purge e s1 = Some (nxt, s')"
      by (auto simp: flush_round_def Let_def simp flip: s0_def split: if_splits)
    from flush_error_writes [OF assms(1) this nf] w s0 Inl show ?thesis
      by (auto simp: sys_write_def split: if_splits list.splits write_answer.splits)
  qed
qed

lemma no_purge_writes [simp]: "writes_shrink no_purge"
  by (simp add: writes_shrink_def no_purge_def)

function flush_loop_purging :: "io_env \<Rightarrow> nat \<Rightarrow> nat \<Rightarrow> nat \<Rightarrow> io_st \<Rightarrow> (int \<times> io_st) option" where
  "flush_loop_purging E local len sent s =
     (if len = 0 then Some (int sent, empty_write_buffer s)
      else case flush_round E no_purge local len s of
             None \<Rightarrow> None
           | Some (Flush_failed, s) \<Rightarrow> Some (- 1, s)
           | Some (Flush_retry, s) \<Rightarrow> flush_loop_purging E local len sent s
           | Some (Flush_wrote n, s) \<Rightarrow> flush_loop_purging E (local + n) (len - n) (sent + n) s)"
  by pat_completeness auto
termination
  by (relation "measure (\<lambda>(E, local, len, sent, s). length (net_writes s))") (auto dest: flush_round_writes [OF no_purge_writes])

declare flush_loop_purging.simps [simp del]

definition io_flush_purging :: "io_env \<Rightarrow> io_st \<Rightarrow> (int \<times> io_st) option" where
  "io_flush_purging E s = flush_with no_purge (flush_loop_purging E) s"

text \<open>\<open>memcached_io_write(ptr, NULL, 0, true)\<close> during a purge.\<close>

definition write_nothing_purging :: "io_env \<Rightarrow> io_st \<Rightarrow> (int \<times> io_st) option" where
  "write_nothing_purging E s =
     (case io_flush_purging E s of
        None \<Rightarrow> None
      | Some (n, s) \<Rightarrow> if n = - 1 then Some (- 1, s) else Some (0, memcached_io_cork_pop E s))"

section \<open>\<open>memcached_purge\<close>\<close>

definition purge_needed :: "io_st \<Rightarrow> bool" where
  "purge_needed s \<longleftrightarrow>
     (let ptr = server s; root = memc s
      in \<not> (is_purging (memc_state root) \<or>
            (memcached_server_response_count ptr < io_msg_watermark root \<and> io_bytes_sent ptr < io_bytes_watermark root) \<or>
            (io_bytes_watermark root \<le> io_bytes_sent ptr \<and> memcached_server_response_count ptr < 2)))"

text \<open>\<open>no_msg\<close> responses are read; \<open>ret\<close> is the last error that matters.\<close>

fun purge_loop ::
  "io_env \<Rightarrow> nat \<Rightarrow> byte list \<Rightarrow> memcached_result_st \<Rightarrow> memcached_return_t \<Rightarrow> io_st \<Rightarrow> (memcached_return_t \<times> io_st) option" where
  "purge_loop E 0 buf res ret s = Some (ret, s)"
| "purge_loop E (Suc no_msg) buf res ret s =
     (case memcached_read_one_response E buf (memcached_result_reset res) s of
        None \<Rightarrow> None
      | Some (rc, buf, res, s) \<Rightarrow>
          let lost = (rc = MEMCACHED_PROTOCOL_ERROR \<or> rc = MEMCACHED_UNKNOWN_READ_FAILURE);
              s = (if lost then memcached_io_reset E s else s);
              s = (case callbacks (memc s) of
                     None \<Rightarrow> s
                   | Some cb \<Rightarrow> if rc = MEMCACHED_SUCCESS then run_callbacks (io_callbacks E cb) res s else s)
          in purge_loop E no_msg buf res (if lost then rc else ret) s)"

definition set_poll_timeout :: "32 word \<Rightarrow> io_st \<Rightarrow> io_st" where
  "set_poll_timeout t s = s\<lparr>memc := (memc s)\<lparr>poll_timeout := t\<rparr>\<rparr>"

definition memcached_purge :: "io_env \<Rightarrow> purge" where
  "memcached_purge E s =
     (if \<not> purge_needed s then Some (MEMCACHED_SUCCESS, s)
      else case write_nothing_purging E (memcached_set_purging True s) of
        None \<Rightarrow> None
      | Some (n, s) \<Rightarrow>
          if n = - 1 then Some (MEMCACHED_WRITE_FAILURE, memcached_set_purging True s)
          else
            let no_msg = memcached_server_response_count (server s) - 1; timeo = poll_timeout (memc s)
            in if no_msg = 0 then Some (MEMCACHED_SUCCESS, memcached_set_purging False s)
               else case memcached_result_create (io_realloc E) None (Some (io_junk_result E)) of
                 None \<Rightarrow> None
               | Some res \<Rightarrow>
                   map_option (\<lambda>(ret, s). (ret, memcached_set_purging False (set_poll_timeout timeo s)))
                     (purge_loop E (unat no_msg) (local_buffer E SMALL_STRING_LEN) res MEMCACHED_SUCCESS
                        (set_poll_timeout 2000 s)))"

end
