(* ===== verification/Client_Flush.thy ===== *)
theory Client_Flush
  imports Client_Write
begin

text \<open>
  \<open>io_flush\<close>, \<open>memcached_io_write\<close>, \<open>memcached_io_writev\<close> and \<open>memcached_response\<close>, as the rest of the library calls
  them: a flush purges first, and may purge again while it waits. On a connection that takes all bytes, and when no purge
  is due, the bytes written reach the socket in order; the last section shows what a purge within a flush does to them.
\<close>

section \<open>A purge does not add answers of \<open>write\<close>\<close>

lemma empty_write_buffer_simps [simp]:
  "net_writes (empty_write_buffer s) = net_writes s" "memc (empty_write_buffer s) = memc s"
  "write_buffer_offset (server (empty_write_buffer s)) =
     (if conn_type (server s) = MEMCACHED_CONNECTION_UDP then UDP_DATAGRAM_HEADER_LENGTH else 0)"
  by (simp_all add: empty_write_buffer_def)

lemma empty_write_buffer_purging [simp]: "conn_type (server (empty_write_buffer s)) = conn_type (server s)"
  by (simp add: empty_write_buffer_def)

text \<open>
  A relation between states that every step of a flush respects holds between the states before and after it.
\<close>

locale flush_relation =
  fixes R :: "io_st \<Rightarrow> io_st \<Rightarrow> bool" and purge :: purge
  assumes R_trans: "R s t \<Longrightarrow> R t u \<Longrightarrow> R s u"
    and R_quiet: "quiet s t \<Longrightarrow> R s t"
    and R_write: "sys_write data s = (r, t) \<Longrightarrow> R s t"
    and R_udp: "R s (on_server increment_udp_message_id s)"
    and R_sent: "R s (on_server (\<lambda>p. p\<lparr>io_bytes_sent := io_bytes_sent p + w\<rparr>) s)"
    and R_empty: "R s (empty_write_buffer s)"
    and R_purge: "purge s = Some (rc, t) \<Longrightarrow> R s t"
begin

lemma io_wait_write_R: "io_wait_write E purge s = Some (rc, t) \<Longrightarrow> R s t"
  by (auto simp: io_wait_write_def split: option.splits if_splits
      dest!: R_purge R_quiet [OF quiet_poll_loop] intro: R_trans)

lemma flush_error_R:
  assumes "flush_error E purge errno s = Some (nxt, t)"
  shows "R s t"
proof (cases "errno = EAGAIN")
  case True
  obtain b s1 where r: "repack_input_buffer (set_cached_errno errno s) = (b, s1)"
    by (cases "repack_input_buffer (set_cached_errno errno s)")
  have s1: "R s s1"
    by (rule R_quiet) (meson quiet_repack [OF r] quiet_simple(1) quiet_trans)
  show ?thesis
  proof (cases b)
    case b: True
    with True assms r s1 show ?thesis by (simp add: flush_error_def Let_def)
  next
    case False
    with True assms r obtain b2 s2 where p: "process_input_buffer E s1 = Some (b2, s2)"
      and "t = s2 \<or> (\<exists>rc u. io_wait_write E purge s2 = Some (rc, u) \<and> (t = u \<or> t = quit_dead_server E u))"
      by (auto simp: flush_error_def Let_def split: option.splits bool.splits if_splits)
    moreover have "R s s2" by (rule R_trans [OF s1 R_quiet [OF quiet_process_input [OF p]]])
    moreover have "R u (quit_dead_server E u)" for u by (rule R_quiet) simp
    ultimately show ?thesis using io_wait_write_R by (metis R_trans)
  qed
qed (use assms in \<open>auto simp: flush_error_def Let_def intro!: R_quiet split: if_splits\<close>)

lemma flush_round_R:
  assumes "flush_round E purge local len s = Some (nxt, t)"
  shows "R s t"
proof -
  define s0 where "s0 = (if conn_type (server s) = MEMCACHED_CONNECTION_UDP then on_server increment_udp_message_id s else s)"
  obtain r s1 where w: "sys_write (take len (drop local (write_buffer (server s0)))) s0 = (r, s1)"
    by (cases "sys_write (take len (drop local (write_buffer (server s0)))) s0")
  have "R s s0" using R_udp R_quiet [OF quiet_refl] by (simp add: s0_def)
  with R_write [OF w] have s1: "R s s1" by (rule R_trans [rotated])
  have "R s1 t"
  proof (cases r)
    case (Inl e)
    with assms w have "flush_error E purge e s1 = Some (nxt, t)"
      by (auto simp: flush_round_def Let_def simp flip: s0_def split: if_splits)
    then show ?thesis by (rule flush_error_R)
  next
    case (Inr n)
    with assms w show ?thesis
      using R_sent R_quiet by (auto simp: flush_round_def Let_def simp flip: s0_def split: if_splits)
  qed
  with s1 show ?thesis by (rule R_trans)
qed

end

lemma flush_loop_purging_R:
  assumes "flush_relation R no_purge"
  shows "flush_loop_purging E local len sent s = Some (n, t) \<Longrightarrow> R s t"
proof (induction E local len sent s rule: flush_loop_purging.induct)
  case (1 E local len sent s)
  show ?case
  proof (cases "len = 0")
    case True
    with 1(3) flush_relation.R_empty [OF assms] show ?thesis
      by (subst (asm) flush_loop_purging.simps) auto
  next
    case False
    with 1(3) obtain nxt s1 where r: "flush_round E no_purge local len s = Some (nxt, s1)"
      by (subst (asm) flush_loop_purging.simps) (auto split: option.splits)
    have "s1 = t \<or> R s1 t"
      using 1(3) [unfolded flush_loop_purging.simps [of E local len sent s]] r False 1(1,2) [OF False r refl]
      by (auto split: flush_next.splits)
    with flush_relation.flush_round_R [OF assms r] flush_relation.R_trans [OF assms] show ?thesis by blast
  qed
qed

text \<open>Flushing during a purge keeps the purging state and the settings of the client, and uses up answers.\<close>

definition shrinks :: "io_st \<Rightarrow> io_st \<Rightarrow> bool" where
  "shrinks s t \<longleftrightarrow> length (net_writes t) \<le> length (net_writes s)"

definition settled :: "io_st \<Rightarrow> io_st \<Rightarrow> bool" where
  "settled s t \<longleftrightarrow> is_purging (memc_state (memc t)) = is_purging (memc_state (memc s)) \<and> flags (memc t) = flags (memc s) \<and>
     callbacks (memc t) = callbacks (memc s) \<and> sizes (memc t) = sizes (memc s) \<and> conn_type (server t) = conn_type (server s)"

lemma shrinks_relation: "writes_shrink purge \<Longrightarrow> flush_relation shrinks purge"
  by unfold_locales
     (auto simp: shrinks_def quiet_def writes_shrink_def sys_write_def split: if_splits list.splits write_answer.splits)

lemma settled_relation: "(\<And>s rc t. purge s = Some (rc, t) \<Longrightarrow> settled s t) \<Longrightarrow> flush_relation settled purge"
  by unfold_locales
     (auto simp: settled_def quiet_def sys_write_def increment_udp_message_id_def Let_def
       split: if_splits list.splits write_answer.splits)

interpretation purging_shrinks: flush_relation shrinks no_purge
  by (rule shrinks_relation) simp

interpretation purging_settled: flush_relation settled no_purge
  by (rule settled_relation) (simp add: no_purge_def settled_def)

lemma write_nothing_R:
  assumes "flush_relation R no_purge" and "\<And>s. R s (memcached_io_cork_pop E s)"
    and "write_nothing_purging E s = Some (n, t)"
  shows "R s t"
proof -
  obtain m u where f: "io_flush_purging E s = Some (m, u)" and t: "t = u \<or> t = memcached_io_cork_pop E u"
    using assms(3) by (auto simp: write_nothing_purging_def split: option.splits if_splits)
  have "R s u"
    using f flush_relation.R_quiet [OF assms(1) quiet_refl] flush_loop_purging_R [OF assms(1)]
    by (auto simp: io_flush_purging_def flush_with_def no_purge_def Let_def split: if_splits)
  with t assms(2) flush_relation.R_trans [OF assms(1)] show ?thesis by blast
qed

lemma cork_pop_simps [simp]:
  "net_writes (memcached_io_cork_pop E s) = net_writes s" "memc (memcached_io_cork_pop E s) = memc s"
  "conn_type (server (memcached_io_cork_pop E s)) = conn_type (server s)"
  "write_buffer_offset (server (memcached_io_cork_pop E s)) = write_buffer_offset (server s)"
  by (simp_all add: memcached_io_cork_pop_def)

lemma purge_loop_quiet: "purge_loop E n buf res ret s = Some (rc, s') \<Longrightarrow> quiet s s'"
proof (induction n arbitrary: buf res ret s)
  case (Suc no_msg)
  obtain rc1 buf1 res1 s1 where r: "memcached_read_one_response E buf (memcached_result_reset res) s = Some (rc1, buf1, res1, s1)"
    using Suc.prems by (auto split: option.splits)
  define s2 where "s2 = (if rc1 = MEMCACHED_PROTOCOL_ERROR \<or> rc1 = MEMCACHED_UNKNOWN_READ_FAILURE then memcached_io_reset E s1 else s1)"
  define s3 where "s3 = (case callbacks (memc s2) of None \<Rightarrow> s2
     | Some cb \<Rightarrow> if rc1 = MEMCACHED_SUCCESS then run_callbacks (io_callbacks E cb) res1 s2 else s2)"
  have "quiet s1 s2" by (simp add: s2_def memcached_io_reset_def)
  then have "quiet s1 s3" using quiet_callbacks by (auto simp: s3_def split: option.splits intro: quiet_trans)
  moreover have "purge_loop E no_msg buf1 res1
      (if rc1 = MEMCACHED_PROTOCOL_ERROR \<or> rc1 = MEMCACHED_UNKNOWN_READ_FAILURE then rc1 else ret) s3 = Some (rc, s')"
    unfolding s3_def s2_def using Suc.prems r by (simp add: Let_def)
  then have "quiet s3 s'" by (rule Suc.IH)
  ultimately show ?case using quiet_read_one [OF r] by (blast intro: quiet_trans)
qed simp

lemma set_simps [simp]:
  "net_writes (memcached_set_purging b s) = net_writes s" "net_writes (set_poll_timeout p s) = net_writes s"
  "server (memcached_set_purging b s) = server s" "server (set_poll_timeout p s) = server s"
  by (simp_all add: memcached_set_purging_def set_state_def set_poll_timeout_def)

lemma purge_writes: "writes_shrink (memcached_purge E)"
proof -
  have "length (net_writes t) \<le> length (net_writes s)" if p: "memcached_purge E s = Some (rc, t)" for s rc t
  proof (cases "purge_needed s")
    case True
    with p obtain n u where w: "write_nothing_purging E (memcached_set_purging True s) = Some (n, u)"
      and t: "net_writes t = net_writes u \<or>
        (\<exists>k buf res ret rc v. purge_loop E k buf res ret (set_poll_timeout 2000 u) = Some (rc, v) \<and> net_writes t = net_writes v)"
      by (fastforce simp: memcached_purge_def Let_def split: option.splits if_splits)
    have "length (net_writes u) \<le> length (net_writes s)"
      using write_nothing_R [OF purging_shrinks.flush_relation_axioms _ w] by (simp add: shrinks_def)
    moreover have "length (net_writes t) \<le> length (net_writes u)"
      using t quiet_writes [OF purge_loop_quiet] by fastforce
    ultimately show ?thesis by simp
  qed (use p in \<open>simp add: memcached_purge_def\<close>)
  then show ?thesis by (auto simp: writes_shrink_def)
qed

section \<open>Flushing\<close>

function flush_loop :: "io_env \<Rightarrow> nat \<Rightarrow> nat \<Rightarrow> nat \<Rightarrow> io_st \<Rightarrow> (int \<times> io_st) option" where
  "flush_loop E local len sent s =
     (if len = 0 then Some (int sent, empty_write_buffer s)
      else case flush_round E (memcached_purge E) local len s of
             None \<Rightarrow> None
           | Some (Flush_failed, s) \<Rightarrow> Some (- 1, s)
           | Some (Flush_retry, s) \<Rightarrow> flush_loop E local len sent s
           | Some (Flush_wrote n, s) \<Rightarrow> flush_loop E (local + n) (len - n) (sent + n) s)"
  by pat_completeness auto
termination
  by (relation "measure (\<lambda>(E, local, len, sent, s). length (net_writes s))") (auto dest: flush_round_writes [OF purge_writes])

declare flush_loop.simps [simp del]

definition io_flush :: "io_env \<Rightarrow> io_st \<Rightarrow> (int \<times> io_st) option" where
  "io_flush E s = flush_with (memcached_purge E) (flush_loop E) s"

text \<open>A flush that succeeds leaves the buffer empty, up to the header of a datagram.\<close>

lemma flush_loop_offset:
  "flush_loop E local len sent s = Some (n, s') \<Longrightarrow> n \<noteq> - 1 \<Longrightarrow> write_buffer_offset (server s') \<le> UDP_DATAGRAM_HEADER_LENGTH"
proof (induction E local len sent s rule: flush_loop.induct)
  case (1 E local len sent s)
  show ?case
  proof (cases "len = 0")
    case True
    with 1(3) show ?thesis by (subst (asm) flush_loop.simps) auto
  next
    case False
    with 1(3) obtain nxt s1 where r: "flush_round E (memcached_purge E) local len s = Some (nxt, s1)"
      by (subst (asm) flush_loop.simps) (auto split: option.splits)
    show ?thesis
      using 1(3) [unfolded flush_loop.simps [of E local len sent s]] 1(4) r False 1(1,2) [OF False r refl]
      by (auto split: flush_next.splits)
  qed
qed

lemma io_flush_offset:
  "io_flush E s = Some (n, s') \<Longrightarrow> n \<noteq> - 1 \<Longrightarrow> write_buffer_offset (server s') \<le> UDP_DATAGRAM_HEADER_LENGTH"
  by (auto simp: io_flush_def flush_with_def Let_def split: option.splits if_splits dest: flush_loop_offset)

section \<open>Writing\<close>

definition append_to_buffer :: "byte list \<Rightarrow> memcached_server_st \<Rightarrow> memcached_server_st" where
  "append_to_buffer data p =
     p\<lparr>write_buffer := memcpy_at (write_buffer p) (write_buffer_offset p) data,
       write_buffer_offset := write_buffer_offset p + length data\<rparr>"

text \<open>
  The loop of \<open>_io_write\<close>: whether all bytes were taken. \<open>None\<close> also stands for an offset behind the end of the buffer.
\<close>

function io_write_loop :: "io_env \<Rightarrow> byte list \<Rightarrow> io_st \<Rightarrow> (bool \<times> io_st) option" where
  "io_write_loop E data s =
     (if data = [] then Some (True, s)
      else if conn_type (server s) = MEMCACHED_CONNECTION_UDP
      then (if MAX_UDP_DATAGRAM_LENGTH < write_buffer_offset (server s) + length data then Some (False, s)
            else Some (True, on_server (append_to_buffer data) s))
      else if MEMCACHED_MAX_BUFFER < write_buffer_offset (server s) then None
      else
        let should_write = min (MEMCACHED_MAX_BUFFER - write_buffer_offset (server s)) (length data);
            s = on_server (append_to_buffer (take should_write data)) s; data = drop should_write data
        in if write_buffer_offset (server s) = MEMCACHED_MAX_BUFFER
           then (case io_flush E s of
                   None \<Rightarrow> None
                 | Some (sent_length, s) \<Rightarrow> if sent_length = - 1 then Some (False, s) else io_write_loop E data s)
           else io_write_loop E data s)"
  by pat_completeness auto
termination
proof (relation "measure (\<lambda>(E, data, s). 2 * length data + (if MEMCACHED_MAX_BUFFER \<le> write_buffer_offset (server s) then 1 else 0))")
  show "wf (measure (\<lambda>(E :: io_env, data :: byte list, s). 2 * length data + (if MEMCACHED_MAX_BUFFER \<le> write_buffer_offset (server s) then 1 else 0)))"
    by simp
next
  fix E :: io_env and data :: "byte list" and s w s1 rest x n s2
  assume d: "data \<noteq> []" "w = min (MEMCACHED_MAX_BUFFER - write_buffer_offset (server s)) (length data)"
    and s1: "s1 = on_server (append_to_buffer (take w data)) s" "rest = drop w data"
    and "write_buffer_offset (server s1) = MEMCACHED_MAX_BUFFER"
    and f: "io_flush E s1 = Some x" "(n, s2) = x" "n \<noteq> - 1"
  have "write_buffer_offset (server s2) \<le> 8" using io_flush_offset [of E s1 n s2] f by (simp add: UDP_DATAGRAM_HEADER_LENGTH_def)
  moreover have "0 < w \<or> MEMCACHED_MAX_BUFFER \<le> write_buffer_offset (server s)" using d by auto
  ultimately show "((E, rest, s2), E, data, s) \<in> measure (\<lambda>(E, data, s). 2 * length data + (if MEMCACHED_MAX_BUFFER \<le> write_buffer_offset (server s) then 1 else 0))"
    using d(1) s1(2) by (auto simp: MEMCACHED_MAX_BUFFER_def)
next
  fix E :: io_env and data :: "byte list" and s w s1 rest
  assume d: "data \<noteq> []" "w = min (MEMCACHED_MAX_BUFFER - write_buffer_offset (server s)) (length data)"
    and le: "\<not> MEMCACHED_MAX_BUFFER < write_buffer_offset (server s)"
    and s1: "s1 = on_server (append_to_buffer (take w data)) s" "rest = drop w data"
    and nf: "write_buffer_offset (server s1) \<noteq> MEMCACHED_MAX_BUFFER"
  then show "((E, rest, s1), E, data, s) \<in> measure (\<lambda>(E, data, s). 2 * length data + (if MEMCACHED_MAX_BUFFER \<le> write_buffer_offset (server s) then 1 else 0))"
    by (auto simp: append_to_buffer_def min_def split: if_splits)
qed

declare io_write_loop.simps [simp del]

definition io_write_bytes :: "io_env \<Rightarrow> byte list \<Rightarrow> bool \<Rightarrow> io_st \<Rightarrow> (int \<times> io_st) option" where
  "io_write_bytes E data with_flush s =
     (case io_write_loop E data (if with_flush then s else memcached_io_cork_push E s) of
        None \<Rightarrow> None
      | Some (False, s) \<Rightarrow> Some (- 1, s)
      | Some (True, s) \<Rightarrow>
          if with_flush
          then (case io_flush E s of
                  None \<Rightarrow> None
                | Some (n, s) \<Rightarrow> if n = - 1 then Some (- 1, s) else Some (int (length data), memcached_io_cork_pop E s))
          else Some (int (length data), s))"

definition memcached_io_write :: "io_env \<Rightarrow> byte list \<Rightarrow> bool \<Rightarrow> io_st \<Rightarrow> (int \<times> io_st) option" where
  "memcached_io_write E data with_flush s = io_write_bytes E data with_flush s"

fun writev_loop :: "io_env \<Rightarrow> byte list list \<Rightarrow> int \<Rightarrow> io_st \<Rightarrow> (int \<times> io_st) option" where
  "writev_loop E [] tot s = Some (tot, s)"
| "writev_loop E (v # vector) tot s =
     (case io_write_bytes E v False s of
        None \<Rightarrow> None
      | Some (returnable, s) \<Rightarrow> if returnable = - 1 then Some (- 1, s) else writev_loop E vector (tot + returnable) s)"

definition memcached_io_writev :: "io_env \<Rightarrow> byte list list \<Rightarrow> bool \<Rightarrow> io_st \<Rightarrow> (int \<times> io_st) option" where
  "memcached_io_writev E vector with_flush s =
     (case writev_loop E vector 0 s of
        None \<Rightarrow> None
      | Some (tot, s) \<Rightarrow>
          if tot = - 1 then Some (- 1, s)
          else if with_flush
          then (case memcached_io_write E [] True s of
                  None \<Rightarrow> None
                | Some (n, s) \<Rightarrow> Some (if n = - 1 then - 1 else tot, s))
          else Some (tot, s))"

text \<open>\<open>memcached_response\<close>: with non-blocking IO, buffered requests are sent first.\<close>

definition send_before_reading :: "io_env \<Rightarrow> io_st \<Rightarrow> io_st option" where
  "send_before_reading E s =
     (if no_block (flags (memc s)) \<and> \<not> is_processing_input (memc_state (memc s))
      then map_option snd (memcached_io_write E [] True s) else Some s)"

definition memcached_response :: "io_env \<Rightarrow> byte list \<Rightarrow> memcached_result_st \<Rightarrow> io_st \<Rightarrow> response option" where
  "memcached_response E buf res s = do {
     s \<leftarrow> send_before_reading E s;
     response_loop E buf res s
   }"

text \<open>While input is processed it is the loop alone.\<close>

lemma response_while_processing:
  "is_processing_input (memc_state (memc s)) \<Longrightarrow> memcached_response E buf res s = response_loop E buf res s"
  by (simp add: memcached_response_def send_before_reading_def)

end
