(* ===== verification/Client_Output.thy ===== *)
theory Client_Output
  imports Client_Flush
begin

text \<open>
  What writing to a server gives. During a purge \<open>io_flush\<close> is \<open>io_flush_purging\<close>; on a connection that takes what it is given,
  and as long as no purge is due, the bytes of the requests go out in order, none lost and none twice; and when a purge is due
  in the middle of a flush, bytes that were sent already are sent again.
\<close>

section \<open>The recursion of \<open>io_flush\<close>\<close>

lemma purge_while_purging:
  "is_purging (memc_state (memc s)) \<Longrightarrow> memcached_purge E s = Some (MEMCACHED_SUCCESS, s)"
  by (simp add: memcached_purge_def purge_needed_def Let_def)

lemma flush_error_while_purging:
  assumes "is_purging (memc_state (memc s))"
  shows "flush_error E (memcached_purge E) errno s = flush_error E no_purge errno s"
proof -
  have wait: "io_wait_write E (memcached_purge E) u = io_wait_write E no_purge u" if "quiet s u" for u
    using that assms by (simp add: io_wait_write_def purge_while_purging no_purge_def quiet_def)
  have "quiet s u" if "repack_input_buffer (set_cached_errno errno s) = (b, t)" "process_input_buffer E t = Some (c, u)" for b c t u
    using quiet_repack [OF that(1)] quiet_process_input [OF that(2)] by (meson quiet_simple(1) quiet_trans)
  with wait show ?thesis
    by (auto simp: flush_error_def Let_def split: prod.splits bool.splits option.splits)
qed

lemma flush_round_while_purging:
  assumes "is_purging (memc_state (memc s))"
  shows "flush_round E (memcached_purge E) local len s = flush_round E no_purge local len s"
proof -
  have "is_purging (memc_state (memc t))" if "sys_write data u = (r, t)" "memc u = memc s" for data u r t
    using that assms by (auto simp: sys_write_def split: if_splits list.splits write_answer.splits)
  then show ?thesis
    by (auto simp: flush_round_def Let_def flush_error_while_purging split: prod.splits sum.splits)
qed

lemma flush_loop_while_purging:
  "is_purging (memc_state (memc s)) \<Longrightarrow> flush_loop E local len sent s = flush_loop_purging E local len sent s"
proof (induction E local len sent s rule: flush_loop_purging.induct)
  case (1 E local len sent s)
  have "is_purging (memc_state (memc t))" if "flush_round E no_purge local len s = Some (nxt, t)" for nxt t
    using purging_settled.flush_round_R [OF that] 1(3) by (simp add: settled_def)
  with 1 show ?case
    by (subst flush_loop.simps, subst flush_loop_purging.simps)
       (auto simp: flush_round_while_purging split: option.splits flush_next.splits)
qed

text \<open>The same function of the source.\<close>

lemma io_flush_while_purging:
  "is_purging (memc_state (memc s)) \<Longrightarrow> io_flush E s = io_flush_purging E s"
  by (simp add: io_flush_def io_flush_purging_def flush_with_def purge_while_purging no_purge_def
      flush_loop_while_purging Let_def)

lemma write_nothing_while_purging:
  "is_purging (memc_state (memc s)) \<Longrightarrow> memcached_io_write E [] True s = write_nothing_purging E s"
  by (simp add: memcached_io_write_def io_write_bytes_def write_nothing_purging_def io_flush_while_purging
      io_write_loop.simps split: option.splits)

section \<open>The stream of outgoing bytes\<close>

text \<open>What was sent and what waits in the buffer.\<close>

definition waiting :: "memcached_server_st \<Rightarrow> byte list" where
  "waiting p = take (write_buffer_offset p) (write_buffer p)"

definition outgoing :: "io_st \<Rightarrow> byte list" where
  "outgoing s = net_sent s @ waiting (server s)"

definition output_wf :: "memcached_server_st \<Rightarrow> bool" where
  "output_wf p \<longleftrightarrow> length (write_buffer p) = MEMCACHED_MAX_BUFFER \<and> write_buffer_offset p < MEMCACHED_MAX_BUFFER"

text \<open>
  The socket takes at least one byte in each of the next \<open>n\<close> calls, and fewer than two responses are pending, so that there
  is nothing to purge.
\<close>

definition accepting :: "nat \<Rightarrow> io_st \<Rightarrow> bool" where
  "accepting n s \<longleftrightarrow>
     fd (server s) \<noteq> - 1 \<and> conn_type (server s) \<noteq> MEMCACHED_CONNECTION_UDP \<and>
     n \<le> length (net_writes s) \<and> (\<forall>a \<in> set (net_writes s). \<exists>k > 0. a = Sent k) \<and>
     cursor_active (server s) < 2 \<and> cursor_active (server s) < io_msg_watermark (memc s)"

text \<open>What writing leaves alone.\<close>

definition output_only :: "io_st \<Rightarrow> io_st \<Rightarrow> bool" where
  "output_only s s' \<longleftrightarrow>
     memc s' = memc s \<and> net_reads s' = net_reads s \<and> net_polls s' = net_polls s \<and> net_log s' = net_log s \<and>
     fd (server s') = fd (server s) \<and> cursor_active (server s') = cursor_active (server s) \<and>
     conn_type (server s') = conn_type (server s) \<and> buffered (server s') = buffered (server s) \<and>
     (input_wf (server s) \<longrightarrow> input_wf (server s')) \<and> cached_server_error (server s') = cached_server_error (server s)"

lemma output_only_refl [simp]: "output_only s s"
  by (simp add: output_only_def)

lemma output_only_trans: "output_only s t \<Longrightarrow> output_only t u \<Longrightarrow> output_only s u"
  by (simp add: output_only_def)

lemma accepting_no_purge: "accepting n s \<Longrightarrow> memcached_purge E s = Some (MEMCACHED_SUCCESS, s)"
  by (auto simp: memcached_purge_def purge_needed_def accepting_def memcached_server_response_count_def Let_def)

lemma accepting_le: "accepting n s \<Longrightarrow> m \<le> n \<Longrightarrow> accepting m s"
  by (simp add: accepting_def)

lemma flush_round_accepts:
  assumes "accepting n s" and "0 < len" and "0 < n" and "local + len \<le> length (write_buffer (server s))"
  shows "\<exists>k t. flush_round E purge local len s = Some (Flush_wrote k, t) \<and> 0 < k \<and> k \<le> len \<and>
     accepting (n - 1) t \<and> net_sent t = net_sent s @ take k (drop local (write_buffer (server s))) \<and>
     write_buffer (server t) = write_buffer (server s) \<and> output_only s t"
proof -
  obtain m ws where w: "net_writes s = Sent m # ws" "0 < m" "n - 1 \<le> length ws" "\<forall>a \<in> set ws. \<exists>k > 0. a = Sent k"
    using assms(1,3) by (cases "net_writes s") (auto simp: accepting_def)
  define t where "t = on_server (\<lambda>p. p\<lparr>io_bytes_sent := io_bytes_sent p + of_nat (min m len)\<rparr>)
    (s\<lparr>net_writes := ws, net_sent := net_sent s @ take (min m len) (drop local (write_buffer (server s)))\<rparr>)"
  have "length (take len (drop local (write_buffer (server s)))) = len" using assms(4) by simp
  then have "sys_write (take len (drop local (write_buffer (server s)))) s =
      (Inr (min m len), s\<lparr>net_writes := ws, net_sent := net_sent s @ take (min m len) (drop local (write_buffer (server s)))\<rparr>)"
    using assms(1) w(1) by (simp add: sys_write_def accepting_def)
  then have "flush_round E purge local len s = Some (Flush_wrote (min m len), t)"
    using assms(1) by (simp add: flush_round_def accepting_def t_def)
  moreover have "accepting (n - 1) t" using assms(1) w by (simp add: accepting_def t_def)
  moreover have "output_only s t" by (simp add: output_only_def t_def buffered_def buffer_bytes_def input_wf_def)
  ultimately show ?thesis
    using w(2) assms(2) by (intro exI [of _ "min m len"] exI [of _ t]) (simp add: t_def)
qed

lemma flush_loop_accepts:
  assumes "accepting n s" and "len \<le> n" and "local + len \<le> length (write_buffer (server s))"
  shows "\<exists>t. flush_loop E local len sent s = Some (int (sent + len), t) \<and> accepting (n - len) t \<and>
     net_sent t = net_sent s @ take len (drop local (write_buffer (server s))) \<and> write_buffer_offset (server t) = 0 \<and>
     write_buffer (server t) = write_buffer (server s) \<and> output_only s t"
  using assms
proof (induction len arbitrary: n local sent s rule: less_induct)
  case (less len)
  show ?case
  proof (cases "len = 0")
    case True
    with less.prems show ?thesis
      by (subst flush_loop.simps)
         (auto simp: accepting_def output_only_def empty_write_buffer_def buffered_def buffer_bytes_def input_wf_def)
  next
    case False
    from flush_round_accepts [OF less.prems(1) _ _ less.prems(3), of E "memcached_purge E"] False less.prems(2)
    obtain k t where r: "flush_round E (memcached_purge E) local len s = Some (Flush_wrote k, t)" and k: "0 < k" "k \<le> len"
      and t: "accepting (n - 1) t" "net_sent t = net_sent s @ take k (drop local (write_buffer (server s)))"
        "write_buffer (server t) = write_buffer (server s)" "output_only s t" by auto
    have "len - k < len" "len - k \<le> n - 1" "local + k + (len - k) \<le> length (write_buffer (server t))"
      using k less.prems(2,3) t(3) by simp_all
    from less.IH [OF this(1) t(1) this(2,3), of "sent + k"] obtain u where
      u: "flush_loop E (local + k) (len - k) (sent + k) t = Some (int (sent + k + (len - k)), u)" "accepting (n - 1 - (len - k)) u"
        "net_sent u = net_sent t @ take (len - k) (drop (local + k) (write_buffer (server t)))" "write_buffer_offset (server u) = 0"
        "write_buffer (server u) = write_buffer (server t)" "output_only t u" by blast
    have "take len (drop local (write_buffer (server s))) =
        take k (drop local (write_buffer (server s))) @ take (len - k) (drop (local + k) (write_buffer (server s)))"
      using k take_add [of k "len - k" "drop local (write_buffer (server s))"] by (simp add: add.commute)
    with r u t k False show ?thesis
      by (subst flush_loop.simps) (auto intro: output_only_trans elim: accepting_le)
  qed
qed

text \<open>Ready for \<open>n\<close> more bytes: the socket has an answer for each byte that waits and for \<open>n\<close> more.\<close>

definition ready :: "nat \<Rightarrow> io_st \<Rightarrow> bool" where
  "ready n s \<longleftrightarrow> output_wf (server s) \<and> accepting (n + write_buffer_offset (server s)) s"

text \<open>\<open>data\<close> was added to the outgoing stream.\<close>

definition queued :: "io_st \<Rightarrow> byte list \<Rightarrow> io_st \<Rightarrow> bool" where
  "queued s data t \<longleftrightarrow> outgoing t = outgoing s @ data \<and> output_only s t"

lemma queued_trans: "queued s d t \<Longrightarrow> queued t e u \<Longrightarrow> queued s (d @ e) u"
  by (auto simp: queued_def intro: output_only_trans)

lemma queued_Nil: "output_only s t \<Longrightarrow> outgoing t = outgoing s \<Longrightarrow> queued s [] t"
  by (simp add: queued_def)

lemma ready_le: "ready n s \<Longrightarrow> m \<le> n \<Longrightarrow> ready m s"
  by (auto simp: ready_def elim: accepting_le)

text \<open>A flush sends what waits, also when the buffer is full.\<close>

lemma io_flush_accepts:
  assumes "accepting (n + write_buffer_offset (server s)) s" and "write_buffer_offset (server s) \<le> length (write_buffer (server s))"
    and "length (write_buffer (server s)) = MEMCACHED_MAX_BUFFER"
  shows "\<exists>k t. io_flush E s = Some (int k, t) \<and> ready n t \<and> queued s [] t \<and> write_buffer_offset (server t) = 0"
proof -
  have tcp: "conn_type (server s) \<noteq> MEMCACHED_CONNECTION_UDP" using assms(1) by (simp add: accepting_def)
  show ?thesis
  proof (cases "write_buffer_offset (server s) = 0")
    case True
    with assms tcp show ?thesis
      by (intro exI [of _ 0] exI [of _ s])
         (simp add: io_flush_def flush_with_def accepting_no_purge ready_def queued_def output_wf_def MEMCACHED_MAX_BUFFER_def Let_def)
  next
    case False
    from flush_loop_accepts [OF assms(1), of "write_buffer_offset (server s)" 0 E 0] assms(2,3) tcp False show ?thesis
      by (auto simp: io_flush_def flush_with_def accepting_no_purge [OF assms(1)] outgoing_def waiting_def ready_def queued_def
          output_wf_def MEMCACHED_MAX_BUFFER_def Let_def)
  qed
qed

section \<open>Requests go out in order\<close>

lemma append_to_buffer_simps [simp]:
  "write_buffer_offset (append_to_buffer data p) = write_buffer_offset p + length data"
  "fd (append_to_buffer data p) = fd p" "conn_type (append_to_buffer data p) = conn_type p"
  "cursor_active (append_to_buffer data p) = cursor_active p" "buffered (append_to_buffer data p) = buffered p"
  "input_wf (append_to_buffer data p) = input_wf p" "cached_server_error (append_to_buffer data p) = cached_server_error p"
  by (simp_all add: append_to_buffer_def buffered_def buffer_bytes_def input_wf_def)

lemma append_to_buffer_waiting:
  assumes "write_buffer_offset p + length data \<le> length (write_buffer p)"
  shows "waiting (append_to_buffer data p) = waiting p @ data \<and> length (write_buffer (append_to_buffer data p)) = length (write_buffer p)"
  using assms by (simp add: append_to_buffer_def waiting_def take_memcpy_at_end)

lemma append_output_only: "output_only s (on_server (append_to_buffer data) s)"
  by (simp add: output_only_def)

lemma cork_simps [simp]:
  "output_only s (memcached_io_cork_push E s)" "output_only s (memcached_io_cork_pop E s)"
  "accepting n (memcached_io_cork_push E s) = accepting n s" "accepting n (memcached_io_cork_pop E s) = accepting n s"
  "outgoing (memcached_io_cork_push E s) = outgoing s" "outgoing (memcached_io_cork_pop E s) = outgoing s"
  "output_wf (server (memcached_io_cork_push E s)) = output_wf (server s)"
  "output_wf (server (memcached_io_cork_pop E s)) = output_wf (server s)"
  "net_sent (memcached_io_cork_pop E s) = net_sent s"
  "write_buffer_offset (server (memcached_io_cork_push E s)) = write_buffer_offset (server s)"
  by (simp_all add: memcached_io_cork_push_def memcached_io_cork_pop_def output_only_def accepting_def outgoing_def
      output_wf_def waiting_def buffered_def buffer_bytes_def input_wf_def)

text \<open>The bytes given to \<open>_io_write\<close> extend the outgoing stream.\<close>

lemma io_write_loop_accepts:
  assumes "ready (n + length data) s"
  shows "\<exists>t. io_write_loop E data s = Some (True, t) \<and> ready n t \<and> queued s data t"
  using assms
proof (induction "length data" arbitrary: data s rule: less_induct)
  case less
  have tcp: "conn_type (server s) \<noteq> MEMCACHED_CONNECTION_UDP" and wf: "output_wf (server s)"
    using less.prems by (simp_all add: ready_def accepting_def)
  show ?case
  proof (cases "data = []")
    case True
    with less.prems show ?thesis
      by (subst io_write_loop.simps) (auto simp: queued_def)
  next
    case False
    define w where "w = min (MEMCACHED_MAX_BUFFER - write_buffer_offset (server s)) (length data)"
    define s1 where "s1 = on_server (append_to_buffer (take w data)) s"
    have w: "0 < w" "w \<le> length data" "write_buffer_offset (server s) + w \<le> MEMCACHED_MAX_BUFFER"
      using False wf by (auto simp: w_def output_wf_def)
    have s1: "accepting (n + length (drop w data) + write_buffer_offset (server s1)) s1" "queued s (take w data) s1"
      "write_buffer_offset (server s1) = write_buffer_offset (server s) + w" "length (write_buffer (server s1)) = MEMCACHED_MAX_BUFFER"
      using less.prems wf w append_to_buffer_waiting [of "server s" "take w data"]
      by (auto simp: s1_def ready_def accepting_def queued_def outgoing_def output_wf_def append_output_only)
    have step: "io_write_loop E data s =
       (if write_buffer_offset (server s1) = MEMCACHED_MAX_BUFFER
        then (case io_flush E s1 of None \<Rightarrow> None
              | Some (k, t) \<Rightarrow> if k = - 1 then Some (False, t) else io_write_loop E (drop w data) t)
        else io_write_loop E (drop w data) s1)"
      unfolding s1_def w_def
      using False tcp wf by (subst io_write_loop.simps) (simp add: Let_def output_wf_def)
    have less: "length (drop w data) < length data" using w by simp
    obtain t where t: "io_write_loop E data s = io_write_loop E (drop w data) t" "ready (n + length (drop w data)) t" "queued s (take w data) t"
    proof (cases "write_buffer_offset (server s1) = MEMCACHED_MAX_BUFFER")
      case full: True
      from io_flush_accepts [OF s1(1) _ s1(4), of E] full s1(4) obtain k t where
        "io_flush E s1 = Some (int k, t)" "ready (n + length (drop w data)) t" "queued s1 [] t" by auto
      with that [of t] step full queued_trans [OF s1(2), of "[]" t] show ?thesis by simp
    next
      case False
      with that [of s1] step s1 w show ?thesis by (simp add: ready_def output_wf_def)
    qed
    from less.hyps [OF less t(2)] obtain u where
      u: "io_write_loop E (drop w data) t = Some (True, u)" "ready n u" "queued t (drop w data) u" by blast
    with t(1) queued_trans [OF t(3) u(3)] show ?thesis by auto
  qed
qed

lemma ready_cork [simp]:
  "ready n (memcached_io_cork_push E s) = ready n s" "ready n (memcached_io_cork_pop E s) = ready n s"
  by (simp_all add: ready_def)

lemma queued_cork:
  "queued (memcached_io_cork_push E s) d t \<Longrightarrow> queued s d t" "queued s d t \<Longrightarrow> queued s d (memcached_io_cork_pop E t)"
  by (auto simp: queued_def intro: output_only_trans [OF cork_simps(1)] output_only_trans [OF _ cork_simps(2)])

lemma io_write_unflushed:
  assumes "ready (n + length data) s"
  shows "\<exists>t. io_write_bytes E data False s = Some (int (length data), t) \<and> ready n t \<and> queued s data t"
proof -
  from io_write_loop_accepts [of n data "memcached_io_cork_push E s" E] assms obtain t where
    "io_write_loop E data (memcached_io_cork_push E s) = Some (True, t)" "ready n t" "queued (memcached_io_cork_push E s) data t" by auto
  then show ?thesis by (auto simp: io_write_bytes_def dest: queued_cork(1))
qed

text \<open>What is written and flushed has been sent, behind all that waited before.\<close>

lemma io_write_accepts:
  assumes "ready (n + length data) s"
  shows "\<exists>t. memcached_io_write E data True s = Some (int (length data), t) \<and> ready n t \<and> queued s data t \<and>
     write_buffer_offset (server t) = 0 \<and> net_sent t = outgoing s @ data"
proof -
  from io_write_loop_accepts [OF assms, of E] obtain t where
    t: "io_write_loop E data s = Some (True, t)" "ready n t" "queued s data t" by blast
  from io_flush_accepts [of n t E] t(2) obtain k u where
    u: "io_flush E t = Some (int k, u)" "ready n u" "queued t [] u" "write_buffer_offset (server u) = 0"
    by (auto simp: ready_def output_wf_def)
  have "queued s data (memcached_io_cork_pop E u)" using queued_trans [OF t(3) u(3)] by (auto intro: queued_cork(2))
  moreover have "net_sent u = outgoing s @ data" "write_buffer_offset (server (memcached_io_cork_pop E u)) = 0"
    using queued_trans [OF t(3) u(3)] u(4) by (simp_all add: queued_def outgoing_def waiting_def)
  ultimately show ?thesis
    using t u by (auto simp: memcached_io_write_def io_write_bytes_def)
qed

text \<open>The pieces of a request written one after the other are their concatenation.\<close>

lemma writev_loop_accepts:
  assumes "ready (n + length (concat vs)) s"
  shows "\<exists>t. writev_loop E vs tot s = Some (tot + int (length (concat vs)), t) \<and> ready n t \<and> queued s (concat vs) t"
  using assms
proof (induction vs arbitrary: s tot)
  case Nil
  then show ?case by (simp add: queued_def)
next
  case (Cons v vs)
  have "ready ((n + length (concat vs)) + length v) s" using Cons.prems by (simp add: ac_simps)
  from io_write_unflushed [OF this, of E] obtain t where
    t: "io_write_bytes E v False s = Some (int (length v), t)" "ready (n + length (concat vs)) t" "queued s v t" by blast
  from Cons.IH [OF t(2), of "tot + int (length v)"] t(1,3) queued_trans [OF t(3)] show ?case by (auto simp: add.assoc)
qed

lemma io_writev_accepts:
  assumes "ready (n + length (concat vs)) s"
  shows "\<exists>t. memcached_io_writev E vs True s = Some (int (length (concat vs)), t) \<and> ready n t \<and> queued s (concat vs) t \<and>
     write_buffer_offset (server t) = 0 \<and> net_sent t = outgoing s @ concat vs"
proof -
  from writev_loop_accepts [OF assms, of E 0] obtain t where
    t: "writev_loop E vs 0 s = Some (int (length (concat vs)), t)" "ready n t" "queued s (concat vs) t" by auto
  from io_write_accepts [of n "[]" t E] t(2) obtain u where
    u: "memcached_io_write E [] True t = Some (0, u)" "ready n u" "queued t [] u" "write_buffer_offset (server u) = 0"
      "net_sent u = outgoing t" by auto
  with t queued_trans [OF t(3) u(3)] show ?thesis
    by (auto simp: memcached_io_writev_def queued_def)
qed

end
