(* ===== verification/Client_Resend.thy ===== *)
theory Client_Resend
  imports Client_Output Continuum
begin

text \<open>
  A purge that becomes due in the middle of a flush. The flush has sent a part of the buffer when the socket blocks; \<open>io_wait\<close>
  purges before it waits; and the purge flushes the buffer again from its start, because \<open>write_buffer_offset\<close> is only
  reset when a flush is complete. The outer flush then sends the rest once more.
\<close>

lemma poll_ready_or_timeout:
  assumes "set (net_polls s) \<subseteq> {Poll_ready}"
  shows "\<exists>rc polls. poll_loop E 4 0 s = (rc, s\<lparr>net_polls := polls\<rparr>) \<and> (rc = MEMCACHED_SUCCESS \<or> rc = MEMCACHED_TIMEOUT)"
proof (cases "net_polls s")
  case Nil
  then show ?thesis
    by (intro exI [of _ MEMCACHED_TIMEOUT] exI [of _ "[]"]) (simp add: eval_nat_numeral sys_poll_def)
next
  case (Cons a as)
  with assms show ?thesis
    by (intro exI [of _ MEMCACHED_SUCCESS] exI [of _ as]) (simp add: eval_nat_numeral sys_poll_def)
qed

text \<open>The answer to a storage command.\<close>

definition stored_line :: "byte list" where "stored_line = bytes ''STORED'' @ [13, 10]"

lemma length_stored_line [simp]: "length stored_line = 8"
  by (simp add: stored_line_def bytes_def)

lemma read_stored:
  assumes "healthy s" and "incoming s = stored_line @ rest" and "\<not> binary_protocol (flags (memc s))" and "8 < length buf"
  shows "\<exists>buf' t. memcached_read_one_response E buf res s = Some (MEMCACHED_STORED, buf', res, t) \<and> incoming t = rest \<and> healthy t \<and>
     input_only (on_server memcached_server_response_decrement s) t"
proof -
  define s1 where "s1 = on_server memcached_server_response_decrement s"
  have s1: "healthy s1" "incoming s1 = (bytes ''STORED'' @ [13]) @ 10 # rest"
    using assms(1,2) by (simp_all add: s1_def memcached_server_response_decrement_def healthy_def incoming_def buffered_def
        buffer_bytes_def stored_line_def)
  have "10 \<notin> set (bytes ''STORED'' @ [13])" "length (bytes ''STORED'' @ [13]) + 1 < length buf"
    using assms(4) by (simp_all add: bytes_def)
  from readline_total [OF s1 this, of E] obtain t where
    t: "memcached_io_readline E (length buf) s1 = (MEMCACHED_SUCCESS, stored_line, t)" "incoming t = rest" "healthy t" "input_only s1 t"
    by (auto simp: stored_line_def)
  have "textual_read_one_response E buf res s1 = Some (MEMCACHED_STORED, memcpy_at buf 0 stored_line, res, t)"
    using t(1) assms(4)
    by (simp add: textual_read_one_response_def Let_def memcpy_at_def stored_line_def bytes_def)
  with t assms(3) show ?thesis
    by (auto simp: memcached_read_one_response_def resets_io_def input_only_def s1_def memcached_server_response_decrement_def)
qed

text \<open>A round of the loop in which \<open>n\<close> bytes are taken.\<close>

definition after_write :: "nat \<Rightarrow> byte list \<Rightarrow> write_answer list \<Rightarrow> io_st \<Rightarrow> io_st" where
  "after_write n data ws s =
     on_server (\<lambda>p. p\<lparr>io_bytes_sent := io_bytes_sent p + of_nat n\<rparr>) (s\<lparr>net_writes := ws, net_sent := net_sent s @ data\<rparr>)"

lemma after_write_simps [simp]:
  "net_writes (after_write n data ws s) = ws" "net_sent (after_write n data ws s) = net_sent s @ data"
  "net_reads (after_write n data ws s) = net_reads s" "net_polls (after_write n data ws s) = net_polls s"
  "memc (after_write n data ws s) = memc s" "write_buffer (server (after_write n data ws s)) = write_buffer (server s)"
  "conn_type (server (after_write n data ws s)) = conn_type (server s)" "fd (server (after_write n data ws s)) = fd (server s)"
  "write_buffer_offset (server (after_write n data ws s)) = write_buffer_offset (server s)"
  "cursor_active (server (after_write n data ws s)) = cursor_active (server s)"
  "io_bytes_sent (server (after_write n data ws s)) = io_bytes_sent (server s) + of_nat n"
  "read_buffer_length (server (after_write n data ws s)) = read_buffer_length (server s)"
  "read_ptr (server (after_write n data ws s)) = read_ptr (server s)"
  "read_data_length (server (after_write n data ws s)) = read_data_length (server s)"
  "input_wf (server (after_write n data ws s)) = input_wf (server s)"
  "buffered (server (after_write n data ws s)) = buffered (server s)"
  by (simp_all add: after_write_def input_wf_def buffered_def buffer_bytes_def)

lemma flush_round_sent:
  assumes "conn_type (server s) = MEMCACHED_CONNECTION_TCP" and "fd (server s) \<noteq> - 1" and "net_writes s = Sent n # ws"
    and "n \<le> len" and "local + len \<le> length (write_buffer (server s))"
  shows "flush_round E purge local len s = Some (Flush_wrote n, after_write n (take n (drop local (write_buffer (server s)))) ws s)"
proof -
  have "length (take len (drop local (write_buffer (server s)))) = len" using assms(5) by simp
  with assms show ?thesis by (simp add: flush_round_def sys_write_def after_write_def min_def)
qed

text \<open>A purge with two responses pending: the buffer is sent whole, and one response is read.\<close>

lemma purge_flush:
  assumes "healthy s" and "conn_type (server s) = MEMCACHED_CONNECTION_TCP"
    and "net_writes s = Sent (write_buffer_offset (server s)) # ws" and "0 < write_buffer_offset (server s)"
    and "write_buffer_offset (server s) \<le> length (write_buffer (server s))"
  shows "write_nothing_purging E s =
     Some (0, memcached_io_cork_pop E (empty_write_buffer (after_write (write_buffer_offset (server s)) (waiting (server s)) ws s)))"
proof -
  let ?len = "write_buffer_offset (server s)"
  have "flush_round E no_purge 0 ?len s = Some (Flush_wrote ?len, after_write ?len (waiting (server s)) ws s)"
    using flush_round_sent [OF assms(2) _ assms(3), of ?len 0 E no_purge] assms(1,5) by (simp add: healthy_def waiting_def)
  then have "flush_loop_purging E 0 ?len 0 s = Some (int ?len, empty_write_buffer (after_write ?len (waiting (server s)) ws s))"
    using assms(4) by (subst flush_loop_purging.simps) (simp add: flush_loop_purging.simps [of E ?len 0])
  then show ?thesis
    using assms(2,4) by (simp add: write_nothing_purging_def io_flush_purging_def flush_with_def no_purge_def Let_def)
qed

lemma purge_two_pending:
  assumes "purge_needed s" and "healthy s" and "incoming s = stored_line @ rest" and "\<not> binary_protocol (flags (memc s))"
    and "cursor_active (server s) = 2" and "callbacks (memc s) = None" and "conn_type (server s) = MEMCACHED_CONNECTION_TCP"
    and "net_writes s = Sent (write_buffer_offset (server s)) # ws" and "0 < write_buffer_offset (server s)"
    and "write_buffer_offset (server s) \<le> length (write_buffer (server s))"
  shows "\<exists>t. memcached_purge E s = Some (MEMCACHED_SUCCESS, t) \<and> net_sent t = net_sent s @ waiting (server s) \<and> net_writes t = ws \<and>
     healthy t \<and> write_buffer (server t) = write_buffer (server s) \<and> conn_type (server t) = conn_type (server s)"
proof -
  define s1 where "s1 = memcached_set_purging True s"
  define u where "u = memcached_io_cork_pop E (empty_write_buffer (after_write (write_buffer_offset (server s)) (waiting (server s)) ws s1))"
  have "healthy s1" using assms(2) by (simp add: s1_def memcached_set_purging_def set_state_def healthy_def)
  with purge_flush [of s1 ws E] assms(7-10) have w: "write_nothing_purging E s1 = Some (0, u)" by (simp add: s1_def u_def memcached_set_purging_def set_state_def)
  define v where "v = set_poll_timeout 2000 u"
  have v: "healthy v" "incoming v = stored_line @ rest" "\<not> binary_protocol (flags (memc v))" "callbacks (memc v) = None"
    "net_sent v = net_sent s @ waiting (server s)" "net_writes v = ws" "write_buffer (server v) = write_buffer (server s)"
    "conn_type (server v) = conn_type (server s)" "cursor_active (server u) = 2"
    using assms(2-7)
    by (simp_all add: v_def u_def s1_def set_poll_timeout_def memcached_io_cork_pop_def empty_write_buffer_def healthy_def
        memcached_set_purging_def set_state_def incoming_def buffered_def buffer_bytes_def input_wf_def after_write_def)
  obtain res where res: "memcached_result_create (io_realloc E) None (Some (io_junk_result E)) = Some res"
    by (auto simp: memcached_result_create_def memcached_string_create_def string_check_def Let_def split: option.splits)
  from read_stored [OF v(1-3), of "local_buffer E SMALL_STRING_LEN" E "memcached_result_reset res"] obtain buf t where
    t: "memcached_read_one_response E (local_buffer E SMALL_STRING_LEN) (memcached_result_reset res) v =
          Some (MEMCACHED_STORED, buf, memcached_result_reset res, t)"
      "healthy t" "net_sent t = net_sent v" "net_writes t = net_writes v" "memc t = memc v"
      "write_buffer (server t) = write_buffer (server v)" "conn_type (server t) = conn_type (server v)" 
    by (auto simp: SMALL_STRING_LEN_def input_only_def memcached_server_response_decrement_def)
  have "memcached_purge E s = Some (MEMCACHED_SUCCESS, memcached_set_purging False (set_poll_timeout (poll_timeout (memc u)) t))"
    using assms(1) w v(4,9) res t(1,5)
    by (simp add: memcached_purge_def memcached_server_response_count_def Let_def flip: s1_def v_def)
  moreover have "healthy (memcached_set_purging False (set_poll_timeout (poll_timeout (memc u)) t))"
    using t(2) by (simp add: healthy_def memcached_set_purging_def set_state_def set_poll_timeout_def)
  ultimately show ?thesis using t v
    by (intro exI [of _ "memcached_set_purging False (set_poll_timeout (poll_timeout (memc u)) t)"])
       (simp add: memcached_set_purging_def set_state_def set_poll_timeout_def)
qed

text \<open>The socket blocks: the input has nothing yet, and the wait purges.\<close>

lemma blocked_flush:
  assumes "healthy s" and "read_buffer_length (server s) = 0" and "net_reads s = [Read_error EAGAIN, Received stored_line]"
    and "callbacks (memc s) = None" and "conn_type (server s) = MEMCACHED_CONNECTION_TCP"
    and "net_writes s = Write_error EAGAIN # Sent (write_buffer_offset (server s)) # ws" and "0 < write_buffer_offset (server s)"
    and "write_buffer_offset (server s) \<le> length (write_buffer (server s))"
    and "purge_needed s" and "\<not> binary_protocol (flags (memc s))" and "cursor_active (server s) = 2"
  shows "\<exists>t. flush_round E (memcached_purge E) local len s = Some (Flush_retry, t) \<and>
     net_sent t = net_sent s @ waiting (server s) \<and> net_writes t = ws \<and>
     write_buffer (server t) = write_buffer (server s) \<and> conn_type (server t) = conn_type (server s) \<and> fd (server t) \<noteq> - 1"
proof -
  define s1 where "s1 = set_cached_errno EAGAIN (s\<lparr>net_writes := Sent (write_buffer_offset (server s)) # ws\<rparr>)"
  define s2 where "s2 = snd (repack_input_buffer s1)"
  have fd: "fd (server s) \<noteq> - 1" using assms(1) by (simp add: healthy_def)
  have s1: "fd (server s1) \<noteq> - 1" "net_reads s1 = [Read_error EAGAIN, Received stored_line]" "read_buffer_length (server s1) = 0"
    using fd assms(2,3) by (simp_all add: s1_def set_cached_errno_def)
  then have r: "repack_input_buffer s1 = (False, s2)"
    by (simp add: s2_def repack_input_buffer_def sys_read_def MEMCACHED_MAX_BUFFER_def Let_def)
  have s2: "healthy s2" "incoming s2 = stored_line @ []" "purge_needed s2" "net_writes s2 = Sent (write_buffer_offset (server s2)) # ws"
    "callbacks (memc s2) = None" "\<not> binary_protocol (flags (memc s2))" "cursor_active (server s2) = 2"
    "conn_type (server s2) = MEMCACHED_CONNECTION_TCP" "write_buffer_offset (server s2) = write_buffer_offset (server s)"
    "write_buffer (server s2) = write_buffer (server s)" "net_sent s2 = net_sent s"
    using assms s1
    by (auto simp: s2_def repack_input_buffer_def sys_read_def MEMCACHED_MAX_BUFFER_def Let_def healthy_def s1_def
        set_cached_errno_def incoming_def buffered_def buffer_bytes_def input_wf_def memcpy_at_def purge_needed_def
        stored_line_def retried_def memcached_server_response_count_def)
  from purge_two_pending [OF s2(3,1,2,6,7,5,8,4)] s2(9,10) assms(7,8) obtain t where
    p: "memcached_purge E s2 = Some (MEMCACHED_SUCCESS, t)" and t: "net_sent t = net_sent s2 @ waiting (server s2)" "net_writes t = ws"
      "healthy t" "write_buffer (server t) = write_buffer (server s2)" "conn_type (server t) = conn_type (server s2)" by auto
  obtain rc polls where w: "poll_loop E 4 0 t = (rc, t\<lparr>net_polls := polls\<rparr>)" "rc = MEMCACHED_SUCCESS \<or> rc = MEMCACHED_TIMEOUT"
    using poll_ready_or_timeout [of t E] t(3) by (auto simp: healthy_def)
  have "process_input_buffer E s2 = Some (False, s2)" by (simp add: process_input_buffer_def s2(5))
  then have "flush_error E (memcached_purge E) EAGAIN (s\<lparr>net_writes := Sent (write_buffer_offset (server s)) # ws\<rparr>)
      = Some (Flush_retry, t\<lparr>net_polls := polls\<rparr>)"
    using r p w by (auto simp: flush_error_def io_wait_write_def Let_def simp flip: s1_def)
  then have "flush_round E (memcached_purge E) local len s = Some (Flush_retry, t\<lparr>net_polls := polls\<rparr>)"
    using assms(5,6) fd by (simp add: flush_round_def sys_write_def)
  with t s2 assms(5) show ?thesis by (auto simp: waiting_def healthy_def)
qed

text \<open>
  C38: a partial write that takes the number of bytes since the last read over \<open>io_bytes_watermark\<close>, followed by a
  full socket, makes the library send the buffer again from its start in the middle of the buffer: with \<open>k\<close> bytes written first,
  the server receives these \<open>k\<close> bytes, the whole buffer, and the bytes from \<open>k\<close> on a second time, and the flush reports success.
\<close>

lemma flush_resends:
  assumes "conn_type (server s) = MEMCACHED_CONNECTION_TCP" and "fd (server s) \<noteq> - 1" and "input_wf (server s)" and "output_wf (server s)"
    and "read_buffer_length (server s) = 0" and "0 < k" and "k < write_buffer_offset (server s)"
    and "\<not> is_purging (memc_state (memc s))" and "callbacks (memc s) = None" and "\<not> binary_protocol (flags (memc s))"
    and "cursor_active (server s) = 2" and "2 < io_msg_watermark (memc s)"
    and "io_bytes_sent (server s) < io_bytes_watermark (memc s)"
    and "io_bytes_watermark (memc s) \<le> io_bytes_sent (server s) + of_nat k"
    and "net_writes s = [Sent k, Write_error EAGAIN, Sent (write_buffer_offset (server s)), Sent (write_buffer_offset (server s) - k)]"
    and "net_reads s = [Read_error EAGAIN, Received stored_line]" and "net_polls s = [Poll_ready]"
  shows "\<exists>t. io_flush E s = Some (int (write_buffer_offset (server s)), t) \<and>
     net_sent t = net_sent s @ take k (waiting (server s)) @ waiting (server s) @ drop k (waiting (server s))"
proof -
  let ?len = "write_buffer_offset (server s)"
  have len: "?len \<le> length (write_buffer (server s))" using assms(4) by (simp add: output_wf_def)
  define s1 where "s1 = after_write k (take k (write_buffer (server s)))
    [Write_error EAGAIN, Sent ?len, Sent (?len - k)] s"
  have np: "memcached_purge E s = Some (MEMCACHED_SUCCESS, s)"
    using assms(8,11-13) by (simp add: memcached_purge_def purge_needed_def memcached_server_response_count_def Let_def not_le)
  have r1: "flush_round E (memcached_purge E) 0 ?len s = Some (Flush_wrote k, s1)"
    using flush_round_sent [OF assms(1,2,15), of ?len 0 E] assms(7) len by (simp add: s1_def)
  have s1: "healthy s1" "purge_needed s1"
    using assms(2,3,8,11-14,16,17)
    by (simp_all add: s1_def healthy_def retried_def stored_line_def purge_needed_def memcached_server_response_count_def Let_def bytes_def)
  from blocked_flush [OF s1(1) _ _ _ _ _ _ _ s1(2), of "[Sent (?len - k)]" E k "?len - k"] assms(1,5,7,9,10,11,16) len
  obtain t where r2: "flush_round E (memcached_purge E) k (?len - k) s1 = Some (Flush_retry, t)"
    and t: "net_sent t = net_sent s1 @ waiting (server s1)" "net_writes t = [Sent (?len - k)]"
      "write_buffer (server t) = write_buffer (server s1)" "conn_type (server t) = MEMCACHED_CONNECTION_TCP" "fd (server t) \<noteq> - 1"
    by (auto simp: s1_def)
  define u where "u = after_write (?len - k) (take (?len - k) (drop k (write_buffer (server t)))) [] t"
  have r3: "flush_round E (memcached_purge E) k (?len - k) t = Some (Flush_wrote (?len - k), u)"
    using flush_round_sent [OF t(4,5,2), of "?len - k" k E] len assms(7) t(3) by (simp add: u_def s1_def)
  have "flush_loop E 0 ?len 0 s = Some (int ?len, empty_write_buffer u)"
  proof -
    have "flush_loop E k (?len - k) k t = Some (int ?len, empty_write_buffer u)"
      using assms(7) r3 by (subst flush_loop.simps) (simp add: flush_loop.simps [of E ?len 0])
    then have "flush_loop E k (?len - k) k s1 = Some (int ?len, empty_write_buffer u)"
      using assms(7) r2 by (subst flush_loop.simps) simp
    then show ?thesis
      using assms(7) r1 by (subst flush_loop.simps) simp
  qed
  moreover have "net_sent (empty_write_buffer u) = net_sent s @ take k (waiting (server s)) @ waiting (server s) @ drop k (waiting (server s))"
    using t(1,3) assms(7) by (simp add: u_def s1_def waiting_def empty_write_buffer_def drop_take min_def)
  ultimately show ?thesis
    using np assms(1,6,7) by (auto simp: io_flush_def flush_with_def Let_def)
qed

definition full_socket_example :: io_st where
  "full_socket_example = \<lparr>server = zero_server\<lparr>fd := 3, conn_type := MEMCACHED_CONNECTION_TCP, cursor_active := 2,
      write_buffer := [11, 22, 33] @ replicate (MEMCACHED_MAX_BUFFER - 3) 0, write_buffer_offset := 3, read_buffer := replicate MEMCACHED_MAX_BUFFER 0\<rparr>,
    memc = zero_memcached\<lparr>io_msg_watermark := 500, io_bytes_watermark := 2\<rparr>,
    net_reads = [Read_error EAGAIN, Received stored_line], net_writes = [Sent 2, Write_error EAGAIN, Sent 3, Sent 1],
    net_polls = [Poll_ready], net_sent = [], net_log = []\<rparr>"

lemma flush_resends_witness:
  "\<forall>E. \<exists>t. io_flush E full_socket_example = Some (3, t) \<and> net_sent t = [11, 22] @ [11, 22, 33] @ [33]"
proof
  fix E
  show "\<exists>t. io_flush E full_socket_example = Some (3, t) \<and> net_sent t = [11, 22] @ [11, 22, 33] @ [33]"
    using flush_resends [of full_socket_example 2 E]
    by (simp add: full_socket_example_def zero_server_def zero_memcached_def input_wf_def output_wf_def waiting_def
        MEMCACHED_MAX_BUFFER_def global_copy_state_def global_copy_flags_def)
qed

end
