(* ===== verification/Client_Connect.thy ===== *)
theory Client_Connect
  imports Client_Resend Dispatch
begin

text \<open>
  The client with all of its servers: \<open>connect.c\<close>, \<open>do.c\<close>, \<open>quit.c\<close>, \<open>flush_buffers.c\<close> and the choice of a
  readable server in \<open>io.c\<close>, built without SASL. The state is the client object, which holds the servers, and the
  operating system: the sockets by descriptor, and the lists of what the next calls of \<open>getaddrinfo\<close>, of
  \<open>socket\<close> with \<open>connect\<close>, and of \<open>poll\<close> over several servers give. A pointer to a server is its position in the
  array. What the library does to one connection are the operations of the theories before; here they are run on
  the view of one server. \<open>None\<close> is undefined behaviour, as there.
\<close>

section \<open>The client and the operating system\<close>

record sock =
  sock_reads :: "read_answer list"
  sock_writes :: "write_answer list"
  sock_polls :: "poll_answer list"
  sock_sent :: "byte list"

text \<open>
  \<open>getaddrinfo\<close> gives an address list, fails for now, or fails. \<open>Socket d errnos err k\<close> is a new descriptor \<open>d\<close> on which
  the calls of \<open>connect\<close> fail with \<open>errnos\<close> and then succeed, with the option \<open>SO_ERROR\<close> and the traffic of the connection.
\<close>

datatype lookup_answer = Resolved nat | Lookup_again | Lookup_error
datatype socket_answer = Socket_error int | Socket nat "int list" int sock
datatype servers_poll = Servers_readable "nat list" | Servers_timeout | Servers_error int

record client_st =
  c_memc :: memcached_st
  c_socks :: "int \<Rightarrow> sock"
  c_lookups :: "lookup_answer list"
  c_sockets :: "socket_answer list"
  c_polls :: "servers_poll list"
  c_randoms :: "u32 list"
  c_log :: "memcached_result_st list"

text \<open>
  The environments of the parts; for an address list which of its entries are \<open>AF_INET\<close>; whether a block can be allocated, and the block for a result;
  what \<open>getsockopt\<close> gives for the size of the send or receive buffer; the errno of switching \<open>TCP_CORK\<close>;
  whether the library was built with the Hsieh hash; and the functions
  that the application has set for deletions and for keys that are not found.
\<close>

record client_env =
  ce_io :: io_env
  ce_memc :: memc_env
  ce_addrinfo :: "nat \<Rightarrow> bool list"
  ce_malloc :: "nat \<Rightarrow> bool"
  ce_malloc_result :: "memcached_result_st option"
  ce_buffer_size :: "bool \<Rightarrow> int \<Rightarrow> 32 word option"
  ce_cork :: "bool \<Rightarrow> int option"
  ce_hsieh :: bool
  ce_delete_trigger :: "nat \<Rightarrow> byte list \<Rightarrow> client_st \<Rightarrow> client_st option"
  ce_get_key_failure :: "nat \<Rightarrow> byte list \<Rightarrow> client_st \<Rightarrow> (memcached_return_t \<times> client_st) option"

abbreviation (input) EMFILE :: int where "EMFILE \<equiv> 24"
abbreviation (input) EISCONN :: int where "EISCONN \<equiv> 106"
abbreviation (input) EALREADY :: int where "EALREADY \<equiv> 114"
abbreviation (input) EINPROGRESS :: int where "EINPROGRESS \<equiv> 115"

definition server_of :: "nat \<Rightarrow> client_st \<Rightarrow> memcached_server_st" where
  "server_of i c = servers (c_memc c) ! i"

definition modify :: "nat \<Rightarrow> (memcached_server_st \<Rightarrow> memcached_server_st) \<Rightarrow> client_st \<Rightarrow> client_st" where
  "modify i f c = c\<lparr>c_memc := (c_memc c)\<lparr>servers := (servers (c_memc c))[i := f (server_of i c)]\<rparr>\<rparr>"

text \<open>The connection of a server, as the theories before have it, and what an operation on it leaves.\<close>

definition view :: "nat \<Rightarrow> client_st \<Rightarrow> io_st" where
  "view i c =
     (let p = server_of i c; k = c_socks c (fd p)
      in \<lparr>server = p, memc = c_memc c, net_reads = sock_reads k, net_writes = sock_writes k, net_polls = sock_polls k,
          net_sent = sock_sent k, net_log = c_log c\<rparr>)"

definition put :: "nat \<Rightarrow> int \<Rightarrow> io_st \<Rightarrow> client_st \<Rightarrow> client_st" where
  "put i d s c =
     c\<lparr>c_memc := (memc s)\<lparr>servers := (servers (c_memc c))[i := server s]\<rparr>,
       c_socks := (if d = - 1 then c_socks c
                   else (c_socks c)(d := \<lparr>sock_reads = net_reads s, sock_writes = net_writes s, sock_polls = net_polls s,
                                         sock_sent = net_sent s\<rparr>)),
       c_log := net_log s\<rparr>"

definition at_server :: "nat \<Rightarrow> (io_st \<Rightarrow> ('a \<times> io_st) option) \<Rightarrow> client_st \<Rightarrow> ('a \<times> client_st) option" where
  "at_server i f c =
     (if i < List.length (servers (c_memc c))
      then map_option (\<lambda>(a, s). (a, put i (fd (server_of i c)) s c)) (f (view i c)) else None)"

definition at_server_do :: "nat \<Rightarrow> (io_st \<Rightarrow> io_st) \<Rightarrow> client_st \<Rightarrow> client_st option" where
  "at_server_do i f c = map_option snd (at_server i (\<lambda>s. Some ((), f s)) c)"

section \<open>Looking up a host\<close>

datatype lookup = Found nat | Not_found | Not_set

fun lookup_loop :: "nat \<Rightarrow> lookup_answer list \<Rightarrow> lookup \<times> lookup_answer list" where
  "lookup_loop 0 as = (Not_set, as)"
| "lookup_loop (Suc n) [] = (Not_found, [])"
| "lookup_loop (Suc n) (Resolved a # as) = (Found a, as)"
| "lookup_loop (Suc n) (Lookup_again # as) = lookup_loop n as"
| "lookup_loop (Suc n) (Lookup_error # as) = (Not_found, as)"

text \<open>After four answers \<open>EAI_AGAIN\<close> the pointer \<open>ai\<close> is used without having been set.\<close>

definition set_hostinfo :: "nat \<Rightarrow> client_st \<Rightarrow> (memcached_return_t \<times> client_st) option" where
  "set_hostinfo i c =
     (case lookup_loop 4 (c_lookups c) of
        (Found a, as) \<Rightarrow> Some (MEMCACHED_SUCCESS, modify i (\<lambda>p. p\<lparr>address_info := Some a\<rparr>) (c\<lparr>c_lookups := as\<rparr>))
      | (Not_found, as) \<Rightarrow> Some (MEMCACHED_HOST_LOOKUP_FAILURE, c\<lparr>c_lookups := as\<rparr>)
      | (Not_set, as) \<Rightarrow> None)"

section \<open>Connecting\<close>

text \<open>
  \<open>connect_poll\<close>, where \<open>errno\<close> is what the last failed call left and \<open>err\<close> the option \<open>SO_ERROR\<close>; the answers of \<open>poll\<close> that
  are left, and the server.
\<close>

fun connect_poll ::
  "nat \<Rightarrow> int \<Rightarrow> int \<Rightarrow> poll_answer list \<Rightarrow> memcached_server_st \<Rightarrow> memcached_return_t \<times> poll_answer list \<times> memcached_server_st" where
  "connect_poll 0 errno err polls p = (MEMCACHED_ERRNO, polls, p\<lparr>cached_errno := errno\<rparr>)"
| "connect_poll (Suc loop_max) errno err polls p =
     (case polls of
        [] \<Rightarrow> (MEMCACHED_TIMEOUT, [], p)
      | Poll_ready # as \<Rightarrow>
          (if err = 0 then (MEMCACHED_SUCCESS, as, p) else (MEMCACHED_ERRNO, as, p\<lparr>cached_errno := errno\<rparr>))
      | Poll_timeout # as \<Rightarrow> (MEMCACHED_TIMEOUT, as, p)
      | Poll_error e pollerr so_error # as \<Rightarrow>
          (if e = ERESTART \<or> e = EINTR then connect_poll loop_max e err as p
           else (MEMCACHED_ERRNO, as,
                 p\<lparr>cached_errno := (if pollerr then (if so_error = 0 then e else so_error) else e), fd := - 1\<rparr>)))"

text \<open>
  The next call of \<open>socket\<close> and what the first call of \<open>connect\<close> on it does: the calls that are left, \<open>None\<close> when there is no
  socket, and otherwise \<open>errno\<close> or success. When the answers are used up there are no more descriptors.
\<close>

fun next_socket :: "socket_answer list \<Rightarrow> (int + nat \<times> int list \<times> int \<times> sock) \<times> socket_answer list" where
  "next_socket [] = (Inl EMFILE, [])"
| "next_socket (Socket_error e # as) = (Inl e, as)"
| "next_socket (Socket d errnos err k # as) = (Inr (d, errnos, err, k), as)"

text \<open>
  One round of the loop in \<open>network_connect\<close>: an early return, a connection, or the next address (the last call timed out or not),
  or the same address again when \<open>connect\<close> was interrupted.
\<close>

datatype attempt = Give_up memcached_return_t | Connected | Try_next bool | Try_again

definition connect_attempt :: "nat \<Rightarrow> client_st \<Rightarrow> attempt \<times> client_st" where
  "connect_attempt i c =
     (case next_socket (c_sockets c) of
        (Inl e, as) \<Rightarrow>
          (Give_up MEMCACHED_CONNECTION_SOCKET_CREATE_FAILURE, modify i (\<lambda>p. p\<lparr>fd := - 1, cached_errno := e\<rparr>) (c\<lparr>c_sockets := as\<rparr>))
      | (Inr (d, errnos, err, k), as) \<Rightarrow>
          let c = modify i (\<lambda>p. p\<lparr>fd := int d\<rparr>) (c\<lparr>c_sockets := as, c_socks := (c_socks c)(int d := k)\<rparr>)
          in case errnos of
               [] \<Rightarrow> (Connected, c)
             | e # _ \<Rightarrow>
                 let c = modify i (\<lambda>p. p\<lparr>cached_errno := e\<rparr>) c; closed = modify i (\<lambda>p. p\<lparr>fd := - 1\<rparr>)
                 in if e = EINPROGRESS \<or> e = EALREADY
                    then case connect_poll 4 e err (sock_polls k) (server_of i c) of
                           (rc, polls, p) \<Rightarrow>
                             let c = modify i (\<lambda>_. p) (c\<lparr>c_socks := (c_socks c)(int d := k\<lparr>sock_polls := polls\<rparr>)\<rparr>)
                             in if rc = MEMCACHED_SUCCESS then (Connected, c) else (Try_next (rc = MEMCACHED_TIMEOUT), closed c)
                    else if e = EISCONN then (Connected, c)
                    else if e = EINTR then (Try_again, closed c)
                    else (Try_next False, closed c))"

lemma next_socket_length: "next_socket as = (Inr x, as') \<Longrightarrow> List.length as' < List.length as"
  by (cases as rule: next_socket.cases) auto

lemma modify_simps [simp]:
  "c_socks (modify i f c) = c_socks c" "c_lookups (modify i f c) = c_lookups c" "c_sockets (modify i f c) = c_sockets c"
  "c_polls (modify i f c) = c_polls c" "c_randoms (modify i f c) = c_randoms c" "c_log (modify i f c) = c_log c"
  "flags (c_memc (modify i f c)) = flags (c_memc c)" "retry_timeout (c_memc (modify i f c)) = retry_timeout (c_memc c)"
  "List.length (servers (c_memc (modify i f c))) = List.length (servers (c_memc c))"
  by (simp_all add: modify_def)

lemma server_of_modify [simp]: "i < List.length (servers (c_memc c)) \<Longrightarrow> server_of i (modify i f c) = f (server_of i c)"
  by (simp add: modify_def server_of_def)

lemma connect_attempt_again: "connect_attempt i c = (Try_again, c') \<Longrightarrow> List.length (c_sockets c') < List.length (c_sockets c)"
  by (auto simp: connect_attempt_def Let_def split: prod.splits sum.splits list.splits if_splits dest: next_socket_length)

lemma connect_attempt_next: "connect_attempt i c = (Try_next t, c') \<Longrightarrow> List.length (c_sockets c') \<le> List.length (c_sockets c)"
  by (auto simp: connect_attempt_def Let_def split: prod.splits sum.splits list.splits if_splits dest!: next_socket_length)

text \<open>
  The loop over the addresses that are left, given as whether they are \<open>AF_INET\<close>; \<open>timed_out\<close> is the
  local \<open>timeout_error_occured\<close>. The first component is the value of an early return.
\<close>

function connect_loop :: "nat \<Rightarrow> bool \<Rightarrow> bool list \<Rightarrow> client_st \<Rightarrow> memcached_return_t option \<times> bool \<times> client_st" where
  "connect_loop i timed_out [] c = (None, timed_out, c)"
| "connect_loop i timed_out (inet # use) c =
     (if conn_type (server_of i c) = MEMCACHED_CONNECTION_UDP \<and> \<not> inet then connect_loop i timed_out use c
      else case connect_attempt i c of
             (Give_up rc, c) \<Rightarrow> (Some rc, timed_out, c)
           | (Connected, c) \<Rightarrow> (None, timed_out, c)
           | (Try_next t, c) \<Rightarrow> connect_loop i (timed_out \<or> t) use c
           | (Try_again, c) \<Rightarrow> connect_loop i timed_out (inet # use) c)"
  by pat_completeness auto
termination
  by (relation "measure (\<lambda>(i, t, use, c). List.length (c_sockets c) + List.length use)")
     (auto dest: connect_attempt_again [OF sym] connect_attempt_next [OF sym])

declare connect_loop.simps(2) [simp del]

definition network_connect :: "client_env \<Rightarrow> nat \<Rightarrow> client_st \<Rightarrow> (memcached_return_t \<times> client_st) option" where
  "network_connect E i c = do {
     (rc, c) \<leftarrow> (if \<not> sockaddr_inited (server_of i c) \<or> \<not> use_cache_lookups (flags (c_memc c))
               then do {
                 (rc, c) \<leftarrow> set_hostinfo i c;
                 Some (rc, if rc = MEMCACHED_SUCCESS then modify i (\<lambda>p. p\<lparr>sockaddr_inited := True\<rparr>) c else c)
               }
               else Some (MEMCACHED_SUCCESS, c));
     if rc \<noteq> MEMCACHED_SUCCESS then Some (rc, c)
     else
       let use = (case address_info (server_of i c) of None \<Rightarrow> [] | Some a \<Rightarrow> ce_addrinfo E a)
       in Some (case connect_loop i False use c of
                  (Some rc, _, c) \<Rightarrow> (rc, c)
                | (None, timed_out, c) \<Rightarrow>
                    if fd (server_of i c) = - 1
                    then
                      let c = (if retry_timeout (c_memc c) \<noteq> 0
                               then (case e_now (ce_memc E) of
                                       Inl _ \<Rightarrow> c
                                     | Inr now \<Rightarrow> modify i (\<lambda>p. p\<lparr>next_retry := now + sint (retry_timeout (c_memc c))\<rparr>) c)
                               else c)
                      in (if timed_out then MEMCACHED_TIMEOUT else MEMCACHED_ERRNO, c)
                    else (MEMCACHED_SUCCESS, c))
   }"

text \<open>
  The host name is a path. The calls of \<open>connect\<close> are repeated while they are in progress. A name that does not fit into the
  108 bytes of \<open>sun_path\<close> is written behind it.
\<close>

fun unix_connect_loop :: "int list \<Rightarrow> int option" where
  "unix_connect_loop [] = None"
| "unix_connect_loop (e # es) =
     (if e = EINPROGRESS \<or> e = EALREADY \<or> e = EINTR then unix_connect_loop es
      else if e = EISCONN then None
      else Some e)"

definition unix_socket_connect :: "nat \<Rightarrow> client_st \<Rightarrow> (memcached_return_t \<times> client_st) option" where
  "unix_socket_connect i c =
     (case next_socket (c_sockets c) of
        (Inl e, as) \<Rightarrow>
          Some (MEMCACHED_CONNECTION_SOCKET_CREATE_FAILURE, modify i (\<lambda>p. p\<lparr>fd := - 1, cached_errno := e\<rparr>) (c\<lparr>c_sockets := as\<rparr>))
      | (Inr (d, errnos, _, k), as) \<Rightarrow>
          let c = modify i (\<lambda>p. p\<lparr>fd := int d\<rparr>) (c\<lparr>c_sockets := as, c_socks := (c_socks c)(int d := k)\<rparr>)
          in if 108 \<le> List.length (c_str (hostname (server_of i c))) then None
             else case unix_connect_loop errnos of
                    None \<Rightarrow> Some (MEMCACHED_SUCCESS, c)
                  | Some e \<Rightarrow> Some (MEMCACHED_ERRNO, modify i (\<lambda>p. p\<lparr>cached_errno := e\<rparr>) c))"

text \<open>\<open>set_last_disconnected_host\<close>, and the distribution is run again when hosts are ejected.\<close>

definition last_disconnected :: "client_env \<Rightarrow> nat \<Rightarrow> client_st \<Rightarrow> client_st option" where
  "last_disconnected E i = at_server_do i (set_last_disconnected_host (ce_io E))"

definition marked_dead :: "client_env \<Rightarrow> nat \<Rightarrow> client_st \<Rightarrow> (memcached_return_t \<times> client_st) option" where
  "marked_dead E i c = do {
     c \<leftarrow> last_disconnected E i c;
     if is_auto_eject_host (c_memc c)
     then map_option (\<lambda>(_, m). (MEMCACHED_SERVER_MARKED_DEAD, c\<lparr>c_memc := m\<rparr>)) (run_distribution (ce_memc E) (c_memc c))
     else Some (MEMCACHED_SERVER_MARKED_DEAD, c)
   }"

text \<open>When \<open>gettimeofday\<close> fails the time it should have set is compared anyway.\<close>

definition retry_later :: "client_env \<Rightarrow> nat \<Rightarrow> client_st \<Rightarrow> bool option" where
  "retry_later E i c =
     (if retry_timeout (c_memc c) \<noteq> 0 \<and> next_retry (server_of i c) \<noteq> 0
      then (case e_now (ce_memc E) of Inl _ \<Rightarrow> None | Inr now \<Rightarrow> Some (now < next_retry (server_of i c)))
      else Some False)"

definition memcached_connect :: "client_env \<Rightarrow> nat \<Rightarrow> client_st \<Rightarrow> (memcached_return_t \<times> client_st) option" where
  "memcached_connect E i c =
     (if - 1 < fd (server_of i c) then Some (MEMCACHED_SUCCESS, c)
      else do {
        later \<leftarrow> retry_later E i c;
        if later then map_option (\<lambda>c. (MEMCACHED_SERVER_MARKED_DEAD, c)) (last_disconnected E i c)
        else if server_failure_limit (c_memc c) \<noteq> 0 \<and> server_failure_limit (c_memc c) \<le> server_failure_counter (server_of i c)
        then marked_dead E i c
        else do {
          (rc, c) \<leftarrow> (case conn_type (server_of i c) of
                      MEMCACHED_CONNECTION_UNKNOWN \<Rightarrow> Some (MEMCACHED_NOT_SUPPORTED, c)
                    | MEMCACHED_CONNECTION_UDP \<Rightarrow> network_connect E i c
                    | MEMCACHED_CONNECTION_TCP \<Rightarrow> network_connect E i c
                    | MEMCACHED_CONNECTION_UNIX_SOCKET \<Rightarrow> unix_socket_connect i c
                    | MEMCACHED_CONNECTION_MAX \<Rightarrow> Some (MEMCACHED_NO_SERVERS, c));
          if rc = MEMCACHED_SUCCESS
          then Some (rc, modify i (\<lambda>p. p\<lparr>server_failure_counter := 0, next_retry := 0\<rparr>) c)
          else map_option (\<lambda>c. (rc, c))
                 (last_disconnected E i (modify i (\<lambda>p. p\<lparr>server_failure_counter := server_failure_counter p + 1\<rparr>) c))
        }
      })"

end
