(* ===== verification/Client_Do.thy ===== *)
theory Client_Do
  imports Client_Connect
begin

text \<open>
  Sending a request and taking leave: \<open>do.c\<close>, \<open>quit.c\<close>, \<open>flush_buffers.c\<close> and
  \<open>memcached_io_get_readable_server\<close> of \<open>io.c\<close>. What happens on one connection that is open is an operation on its
  view, below; \<open>memcached_connect\<close> comes before it.
\<close>

section \<open>\<open>do.c\<close>\<close>

text \<open>A datagram that waits is sent before a request that is flushed, the result is not looked at.\<close>

definition clear_datagram :: "io_env \<Rightarrow> bool \<Rightarrow> io_st \<Rightarrow> io_st option" where
  "clear_datagram E with_flush s =
     (if conn_type (server s) = MEMCACHED_CONNECTION_UDP \<and> with_flush \<and> UDP_DATAGRAM_HEADER_LENGTH < write_buffer_offset (server s)
      then map_option snd (memcached_io_write E [] True s) else Some s)"

definition count_response :: "int \<Rightarrow> nat \<Rightarrow> io_st \<Rightarrow> memcached_return_t \<times> io_st" where
  "count_response sent_length command_length s =
     (if sent_length = - 1 \<or> sent_length \<noteq> int command_length then (MEMCACHED_WRITE_FAILURE, s)
      else (MEMCACHED_SUCCESS,
            if no_reply (flags (memc s)) then s else on_server memcached_server_response_increment s))"

definition do_connected :: "io_env \<Rightarrow> byte list \<Rightarrow> bool \<Rightarrow> io_st \<Rightarrow> (memcached_return_t \<times> io_st) option" where
  "do_connected E command with_flush s = do {
     s \<leftarrow> clear_datagram E with_flush s;
     (sent, s) \<leftarrow> memcached_io_write E command with_flush s;
     Some (count_response sent (length command) s)
   }"

definition vdo_connected :: "io_env \<Rightarrow> byte list list \<Rightarrow> bool \<Rightarrow> io_st \<Rightarrow> (memcached_return_t \<times> io_st) option" where
  "vdo_connected E vector with_flush s = do {
     s \<leftarrow> clear_datagram E with_flush s;
     (sent, s) \<leftarrow> memcached_io_writev E vector with_flush s;
     Some (count_response sent (length (concat vector)) s)
   }"

definition memcached_do :: "client_env \<Rightarrow> nat \<Rightarrow> byte list \<Rightarrow> bool \<Rightarrow> client_st \<Rightarrow> (memcached_return_t \<times> client_st) option" where
  "memcached_do E i command with_flush c = do {
     (rc, c) \<leftarrow> memcached_connect E i c;
     if rc \<noteq> MEMCACHED_SUCCESS then Some (rc, c)
     else at_server i (do_connected (ce_io E) command with_flush) c
   }"

definition memcached_vdo ::
  "client_env \<Rightarrow> nat \<Rightarrow> byte list list \<Rightarrow> bool \<Rightarrow> client_st \<Rightarrow> (memcached_return_t \<times> client_st) option" where
  "memcached_vdo E i vector with_flush c = do {
     (rc, c) \<leftarrow> memcached_connect E i c;
     if rc \<noteq> MEMCACHED_SUCCESS then Some (rc, c)
     else at_server i (vdo_connected (ce_io E) vector with_flush) c
   }"

section \<open>\<open>quit.c\<close>\<close>

text \<open>The input is read until there is no full buffer of it any more.\<close>

function drain_input :: "io_env \<Rightarrow> io_st \<Rightarrow> io_st" where
  "drain_input E s =
     (case memcached_io_read E MEMCACHED_MAX_BUFFER s of
        (rc, data, s) \<Rightarrow> if rc = MEMCACHED_SUCCESS then drain_input E s else s)"
  by pat_completeness auto
termination
  by (relation "measure (\<lambda>(E, s). avail s)") (auto dest!: io_read_avail [OF sym] simp: MEMCACHED_MAX_BUFFER_def)

declare drain_input.simps [simp del]

text \<open>The request for quitting; its opcode is the only byte besides the magic one.\<close>

definition quit_request :: "byte list" where
  "quit_request = [PROTOCOL_BINARY_REQ, PROTOCOL_BINARY_CMD_QUIT] @ replicate 22 0"

text \<open>
  The farewell of a server that is not dead: the connection exists, so that \<open>memcached_do\<close> does not connect.
\<close>

definition say_goodbye :: "io_env \<Rightarrow> io_st \<Rightarrow> io_st option" where
  "say_goodbye E s = do {
     let s = on_server (\<lambda>p. p\<lparr>is_shutting_down := True\<rparr>) s;
     (_, s) \<leftarrow> do_connected E (if binary_protocol (flags (memc s)) then quit_request else bytes ''quit'' @ [13, 10]) True s;
     let s = (if buffer_requests (flags (memc s)) \<or> number_of_replicas (memc s) \<noteq> 0 then drain_input E s else s);
     Some (on_server (\<lambda>p. p\<lparr>server_failure_counter := 0\<rparr>) s)
   }"

definition memcached_quit_server :: "io_env \<Rightarrow> bool \<Rightarrow> io_st \<Rightarrow> io_st option" where
  "memcached_quit_server E io_death s = do {
     s \<leftarrow> (if fd (server s) \<noteq> - 1
          then do {
            s \<leftarrow> (if \<not> io_death \<and> conn_type (server s) \<noteq> MEMCACHED_CONNECTION_UDP \<and> \<not> is_shutting_down (server s)
                 then say_goodbye E s else Some s);
            Some (snd (memcached_io_close s))
          }
          else Some s);
     let s = on_server disconnected s;
     Some (if io_death
           then set_last_disconnected_host E (on_server (\<lambda>p. p\<lparr>server_failure_counter := server_failure_counter p + 1\<rparr>) s)
           else s)
   }"

fun quit_servers :: "client_env \<Rightarrow> nat list \<Rightarrow> client_st \<Rightarrow> client_st option" where
  "quit_servers E [] c = Some c"
| "quit_servers E (i # is) c = do {
     (_, c) \<leftarrow> at_server i (\<lambda>s. map_option (Pair ()) (memcached_quit_server (ce_io E) False s)) c;
     quit_servers E is c
   }"

definition memcached_quit :: "client_env \<Rightarrow> client_st \<Rightarrow> client_st option" where
  "memcached_quit E c = quit_servers E [0 ..< unat (memcached_server_count (c_memc c))] c"

section \<open>\<open>flush_buffers.c\<close>\<close>

fun flush_servers ::
  "client_env \<Rightarrow> nat list \<Rightarrow> memcached_return_t \<Rightarrow> client_st \<Rightarrow> (memcached_return_t \<times> client_st) option" where
  "flush_servers E [] ret c = Some (ret, c)"
| "flush_servers E (i # is) ret c =
     (if write_buffer_offset (server_of i c) = 0 then flush_servers E is ret c
      else do {
        (failed, ret, c) \<leftarrow> (if fd (server_of i c) = - 1
                          then map_option (\<lambda>(rc, c). (rc \<noteq> MEMCACHED_SUCCESS, rc, c)) (memcached_connect E i c)
                          else Some (False, ret, c));
        if failed then Some (ret, c)
        else do {
          (sent, c) \<leftarrow> at_server i (memcached_io_write (ce_io E) [] True) c;
          flush_servers E is (if sent = - 1 then MEMCACHED_SOME_ERRORS else ret) c
        }
      })"

definition memcached_flush_buffers :: "client_env \<Rightarrow> client_st \<Rightarrow> (memcached_return_t \<times> client_st) option" where
  "memcached_flush_buffers E c = flush_servers E [0 ..< unat (memcached_server_count (c_memc c))] MEMCACHED_SUCCESS c"

section \<open>The next server with a response\<close>

definition MAX_SERVERS_TO_POLL :: nat where "MAX_SERVERS_TO_POLL = 100"

text \<open>The first server with buffered input, or the servers from which responses are expected, as many as can be polled.\<close>

fun poll_candidates :: "memcached_server_st list \<Rightarrow> nat \<Rightarrow> nat list \<Rightarrow> nat + nat list" where
  "poll_candidates [] x fds = Inr fds"
| "poll_candidates (p # ps) x fds =
     (if \<not> length fds < MAX_SERVERS_TO_POLL then Inr fds
      else if 0 < read_buffer_length p then Inl x
      else poll_candidates ps (x + 1) (if 0 < memcached_server_response_count p then fds @ [x] else fds))"

definition memcached_io_get_readable_server :: "client_st \<Rightarrow> nat option \<times> client_st" where
  "memcached_io_get_readable_server c =
     (let m = c_memc c; ps = take (unat (memcached_server_count m)) (servers m)
      in case poll_candidates ps 0 [] of
           Inl x \<Rightarrow> (Some x, c)
         | Inr fds \<Rightarrow>
             if length fds < 2
             then (List.find (\<lambda>x. 0 < memcached_server_response_count (ps ! x)) [0 ..< length ps], c)
             else case c_polls c of
                    [] \<Rightarrow> (None, c)
                  | Servers_timeout # as \<Rightarrow> (None, c\<lparr>c_polls := as\<rparr>)
                  | Servers_error e # as \<Rightarrow> (None, c\<lparr>c_polls := as, c_memc := m\<lparr>memc_cached_errno := e\<rparr>\<rparr>)
                  | Servers_readable xs # as \<Rightarrow>
                      (case List.find (\<lambda>k. k \<in> set xs) [0 ..< length fds] of
                         None \<Rightarrow> None
                       | Some k \<Rightarrow> List.find (\<lambda>y. fd (ps ! y) = fd (ps ! (fds ! k))) [0 ..< length ps],
                       c\<lparr>c_polls := as\<rparr>))"

end
