(* ===== verification/Client_Storage.thy ===== *)
theory Client_Storage
  imports Client_Do
begin

text \<open>
  \<open>storage.c\<close>: storing a value, in both protocols, with replicas and buffered requests. The text line is built in
  an array of 350 bytes; the copies into it are not checked against its length, so that writing behind it is \<open>None\<close>.
\<close>

section \<open>Choosing the server\<close>

text \<open>The hash picks the position of the server; \<open>random()\<close> gives the next of the random numbers.\<close>

definition locate :: "client_env \<Rightarrow> byte list \<Rightarrow> client_st \<Rightarrow> (nat \<times> client_st) option" where
  "locate E key c =
     (let r = (case c_randoms c of [] \<Rightarrow> 0 | r # _ \<Rightarrow> r)
      in map_option (\<lambda>(k, m). (unat k, c\<lparr>c_memc := m, c_randoms := tl (c_randoms c)\<rparr>))
           (memcached_generate_hash_with_redistribution (ce_memc E) r (c_memc c) key))"

section \<open>Operations on one server\<close>

definition io_reset_at :: "client_env \<Rightarrow> nat \<Rightarrow> client_st \<Rightarrow> client_st option" where
  "io_reset_at E i = at_server_do i (memcached_io_reset (ce_io E))"

definition flush_at :: "client_env \<Rightarrow> nat \<Rightarrow> client_st \<Rightarrow> (int \<times> client_st) option" where
  "flush_at E i = at_server i (memcached_io_write (ce_io E) [] True)"

text \<open>\<open>memcached_response\<close> with the result of the client object, which it looks up when it reads.\<close>

definition response_at_server ::
  "client_env \<Rightarrow> nat \<Rightarrow> byte list \<Rightarrow> client_st \<Rightarrow> ((memcached_return_t \<times> byte list) \<times> client_st) option" where
  "response_at_server E i buf =
     at_server i (\<lambda>s. do {
       s \<leftarrow> send_before_reading (ce_io E) s;
       (rc, buf, s) \<leftarrow> with_root_result (response_loop (ce_io E) buf) s;
       Some ((rc, buf), s)
     })"

text \<open>The buffer on the stack with a string at its start.\<close>

definition command_buffer :: "client_env \<Rightarrow> byte list \<Rightarrow> byte list" where
  "command_buffer E s = memcpy_at (local_buffer (ce_io E) MEMCACHED_DEFAULT_COMMAND_SIZE) 0 (take MEMCACHED_DEFAULT_COMMAND_SIZE (s @ [0]))"

section \<open>The request\<close>

datatype memcached_storage_action_t = SET_OP | REPLACE_OP | ADD_OP | PREPEND_OP | APPEND_OP | CAS_OP

fun storage_op_string :: "memcached_storage_action_t \<Rightarrow> byte list" where
  "storage_op_string SET_OP = bytes ''set ''"
| "storage_op_string REPLACE_OP = bytes ''replace ''"
| "storage_op_string ADD_OP = bytes ''add ''"
| "storage_op_string PREPEND_OP = bytes ''prepend ''"
| "storage_op_string APPEND_OP = bytes ''append ''"
| "storage_op_string CAS_OP = bytes ''cas ''"

text \<open>What \<open>%.*s\<close> prints, and the end of a line.\<close>

definition printed :: "nat \<Rightarrow> byte list \<Rightarrow> byte list" where
  "printed n s = c_str (take n s)"

definition prefix_of :: "memcached_st \<Rightarrow> byte list" where
  "prefix_of m = take (prefix_key_length m) (prefix_key m)"

definition line_end :: "memcached_st \<Rightarrow> byte list" where
  "line_end m = (if no_reply (flags m) then bytes '' noreply'' else []) @ [13, 10]"

text \<open>With a CAS value the line is printed by one call of \<open>snprintf\<close>, which cuts it to the array and returns its full length.\<close>

definition cas_line :: "memcached_st \<Rightarrow> byte list \<Rightarrow> nat \<Rightarrow> u64 \<Rightarrow> u32 \<Rightarrow> u64 \<Rightarrow> memcached_storage_action_t \<Rightarrow> byte list" where
  "cas_line m key n exptime fl cas verb =
     storage_op_string verb @ [32] @ printed (prefix_key_length m) (prefix_key m) @ printed (length key) key @ [32] @
     dec_digits (unat fl) @ [32] @ dec_digits (unat exptime) @ [32] @ dec_digits n @ [32] @ dec_digits (unat cas) @ line_end m"

text \<open>Without one, the words are copied into the array and the numbers are printed behind them.\<close>

definition plain_head :: "memcached_st \<Rightarrow> byte list \<Rightarrow> memcached_storage_action_t \<Rightarrow> byte list" where
  "plain_head m key verb = storage_op_string verb @ prefix_of m @ key @ [32]"

definition plain_tail :: "memcached_st \<Rightarrow> nat \<Rightarrow> u64 \<Rightarrow> u32 \<Rightarrow> byte list" where
  "plain_tail m n exptime fl =
     dec_digits (unat fl) @ [32] @ dec_digits (unat exptime) @ [32] @ dec_digits n @ line_end m"

text \<open>The line, or \<open>None\<close> when it is written behind the array with its NUL.\<close>

definition storage_line ::
  "memcached_st \<Rightarrow> byte list \<Rightarrow> nat \<Rightarrow> u64 \<Rightarrow> u32 \<Rightarrow> u64 \<Rightarrow> memcached_storage_action_t \<Rightarrow> byte list option" where
  "storage_line m key n exptime fl cas verb =
     (if cas \<noteq> 0 then Some (cas_line m key n exptime fl cas verb)
      else let line = plain_head m key verb @ plain_tail m n exptime fl
           in if MEMCACHED_DEFAULT_COMMAND_SIZE < length line + 1 then None else Some line)"

section \<open>The text protocol\<close>

definition send_text_line ::
  "client_env \<Rightarrow> nat \<Rightarrow> byte list \<Rightarrow> byte list \<Rightarrow> memcached_storage_action_t \<Rightarrow> client_st \<Rightarrow> (memcached_return_t \<times> client_st) option" where
  "send_text_line E i line data verb c = do {
     let to_write = (\<not> (buffer_requests (flags (c_memc c)) \<and> verb = SET_OP));
     (rc, c) \<leftarrow> memcached_vdo E i [line, data, [13, 10]] to_write c;
     if rc \<noteq> MEMCACHED_SUCCESS then Some (rc, c)
     else if no_reply (flags (c_memc c)) then Some (if to_write then MEMCACHED_SUCCESS else MEMCACHED_BUFFERED, c)
     else if \<not> to_write then Some (MEMCACHED_BUFFERED, c)
     else do {
       ((rc, buf), c) \<leftarrow> response_at_server E i (command_buffer E line) c;
       Some (if rc = MEMCACHED_STORED then MEMCACHED_SUCCESS else rc, c)
     }
   }"

definition memcached_send_text ::
  "client_env \<Rightarrow> nat \<Rightarrow> byte list \<Rightarrow> byte list \<Rightarrow> u64 \<Rightarrow> u32 \<Rightarrow> u64 \<Rightarrow> memcached_storage_action_t \<Rightarrow> client_st
   \<Rightarrow> (memcached_return_t \<times> client_st) option" where
  "memcached_send_text E i key data exptime fl cas verb c = do {
     line \<leftarrow> storage_line (c_memc c) key (length data) exptime fl cas verb;
     let datagrams = (use_udp (flags (c_memc c)) \<and> buffer_requests (flags (c_memc c)));
     let cmd_size = length line + length data + 2;
     if datagrams \<and> MAX_UDP_DATAGRAM_LENGTH - UDP_DATAGRAM_HEADER_LENGTH < cmd_size then Some (MEMCACHED_WRITE_FAILURE, c)
     else do {
       c \<leftarrow> (if datagrams \<and> MAX_UDP_DATAGRAM_LENGTH < cmd_size + write_buffer_offset (server_of i c)
            then map_option snd (flush_at E i c) else Some c);
       (rc, c) \<leftarrow> (if MEMCACHED_DEFAULT_COMMAND_SIZE \<le> length line then Some (MEMCACHED_WRITE_FAILURE, c)
                 else send_text_line E i line data verb c);
       c \<leftarrow> (if rc = MEMCACHED_WRITE_FAILURE then io_reset_at E i c else Some c);
       Some (rc, c)
     }
   }"

section \<open>The binary protocol\<close>

fun get_com_code :: "memcached_storage_action_t \<Rightarrow> bool \<Rightarrow> byte" where
  "get_com_code SET_OP noreply = (if noreply then PROTOCOL_BINARY_CMD_SETQ else PROTOCOL_BINARY_CMD_SET)"
| "get_com_code ADD_OP noreply = (if noreply then PROTOCOL_BINARY_CMD_ADDQ else PROTOCOL_BINARY_CMD_ADD)"
| "get_com_code CAS_OP noreply = (if noreply then PROTOCOL_BINARY_CMD_REPLACEQ else PROTOCOL_BINARY_CMD_REPLACE)"
| "get_com_code REPLACE_OP noreply = (if noreply then PROTOCOL_BINARY_CMD_REPLACEQ else PROTOCOL_BINARY_CMD_REPLACE)"
| "get_com_code APPEND_OP noreply = (if noreply then PROTOCOL_BINARY_CMD_APPENDQ else PROTOCOL_BINARY_CMD_APPEND)"
| "get_com_code PREPEND_OP noreply = (if noreply then PROTOCOL_BINARY_CMD_PREPENDQ else PROTOCOL_BINARY_CMD_PREPEND)"

definition has_extras :: "memcached_storage_action_t \<Rightarrow> bool" where
  "has_extras verb \<longleftrightarrow> \<not> (verb = APPEND_OP \<or> verb = PREPEND_OP)"

definition storage_header ::
  "memcached_st \<Rightarrow> nat \<Rightarrow> nat \<Rightarrow> u64 \<Rightarrow> memcached_storage_action_t \<Rightarrow> byte \<Rightarrow> protocol_binary_request_header" where
  "storage_header m klen value_length cas verb opcode =
     (let extlen = (if has_extras verb then 8 else 0)
      in \<lparr>req_magic = PROTOCOL_BINARY_REQ, req_opcode = opcode, req_keylen = htons (of_nat (klen + prefix_key_length m)),
          req_extlen = of_nat extlen, req_datatype = PROTOCOL_BINARY_RAW_BYTES, req_reserved = 0,
          req_bodylen = htonl (of_nat (klen + prefix_key_length m + value_length + extlen)), req_opaque = 0,
          req_cas = (if cas \<noteq> 0 then htonll cas else 0)\<rparr>)"

definition storage_vector ::
  "memcached_st \<Rightarrow> byte list \<Rightarrow> byte list \<Rightarrow> u64 \<Rightarrow> u32 \<Rightarrow> u64 \<Rightarrow> memcached_storage_action_t \<Rightarrow> byte \<Rightarrow> byte list list" where
  "storage_vector m key data exptime fl cas verb opcode =
     [request_bytes (storage_header m (length key) (length data) cas verb opcode) @
        (if has_extras verb then st_le32 (htonl fl) @ st_le32 (htonl (ucast exptime)) else []),
      prefix_of m, key, data]"

text \<open>Each replica gets a quiet request, and its response is not waited for.\<close>

fun send_replicas ::
  "client_env \<Rightarrow> byte list list \<Rightarrow> bool \<Rightarrow> nat \<Rightarrow> nat \<Rightarrow> client_st \<Rightarrow> client_st option" where
  "send_replicas E vector with_flush 0 k c = Some c"
| "send_replicas E vector with_flush (Suc n) k c = do {
     let k = (if k + 1 = unat (memcached_server_count (c_memc c)) then 0 else k + 1);
     (rc, c) \<leftarrow> memcached_vdo E k vector with_flush c;
     c \<leftarrow> (if rc \<noteq> MEMCACHED_SUCCESS then io_reset_at E k c
          else at_server_do k (on_server memcached_server_response_decrement) c);
     send_replicas E vector with_flush n k c
   }"

definition memcached_send_binary ::
  "client_env \<Rightarrow> nat \<Rightarrow> byte list \<Rightarrow> byte list \<Rightarrow> u64 \<Rightarrow> u32 \<Rightarrow> u64 \<Rightarrow> memcached_storage_action_t \<Rightarrow> client_st
   \<Rightarrow> (memcached_return_t \<times> client_st) option" where
  "memcached_send_binary E i key data exptime fl cas verb c = do {
     let m = c_memc c;
     let noreply = no_reply (flags m);
     let with_flush = (\<not> (buffer_requests (flags m) \<and> verb = SET_OP));
     let vector = storage_vector m key data exptime fl cas verb (get_com_code verb noreply);
     let datagrams = (use_udp (flags m) \<and> \<not> with_flush);
     let cmd_size = length (hd vector) + length key + length data;
     if datagrams \<and> MAX_UDP_DATAGRAM_LENGTH - UDP_DATAGRAM_HEADER_LENGTH < cmd_size then Some (MEMCACHED_WRITE_FAILURE, c)
     else do {
       c \<leftarrow> (if datagrams \<and> MAX_UDP_DATAGRAM_LENGTH < cmd_size + write_buffer_offset (server_of i c)
            then map_option snd (flush_at E i c) else Some c);
       (rc, c) \<leftarrow> memcached_vdo E i vector with_flush c;
       if rc \<noteq> MEMCACHED_SUCCESS then map_option (Pair rc) (io_reset_at E i c)
       else do {
         c \<leftarrow> (if verb = SET_OP \<and> number_of_replicas m \<noteq> 0
              then send_replicas E (storage_vector m key data exptime fl cas verb PROTOCOL_BINARY_CMD_SETQ) False
                     (unat (number_of_replicas m)) i c
              else Some c);
         if \<not> with_flush then Some (MEMCACHED_BUFFERED, c)
         else if noreply then Some (MEMCACHED_SUCCESS, c)
         else map_option (\<lambda>((rc, _), c). (rc, c)) (response_at_server E i [] c)
       }
     }
   }"

section \<open>The commands\<close>

definition memcached_send ::
  "client_env \<Rightarrow> byte list \<Rightarrow> byte list \<Rightarrow> byte list \<Rightarrow> u64 \<Rightarrow> u32 \<Rightarrow> u64 \<Rightarrow> memcached_storage_action_t \<Rightarrow> client_st
   \<Rightarrow> (memcached_return_t \<times> client_st) option" where
  "memcached_send E master_key key data exptime fl cas verb c =
     (let m = c_memc c; rc = memcached_validate_key_length (length key) (binary_protocol (flags m))
      in if rc \<noteq> MEMCACHED_SUCCESS then Some (rc, c)
         else if memcached_server_count m = 0 then Some (MEMCACHED_NO_SERVERS, c)
         else if verify_key (flags m) \<and> memcached_key_test [key] = MEMCACHED_BAD_KEY_PROVIDED
         then Some (MEMCACHED_BAD_KEY_PROVIDED, c)
         else do {
           (i, c) \<leftarrow> locate E master_key c;
           if binary_protocol (flags (c_memc c)) then memcached_send_binary E i key data exptime fl cas verb c
           else memcached_send_text E i key data exptime fl cas verb c
         })"

definition memcached_set where "memcached_set E key data exptime fl = memcached_send E key key data exptime fl 0 SET_OP"
definition memcached_add where "memcached_add E key data exptime fl = memcached_send E key key data exptime fl 0 ADD_OP"
definition memcached_replace where "memcached_replace E key data exptime fl = memcached_send E key key data exptime fl 0 REPLACE_OP"
definition memcached_prepend where "memcached_prepend E key data exptime fl = memcached_send E key key data exptime fl 0 PREPEND_OP"
definition memcached_append where "memcached_append E key data exptime fl = memcached_send E key key data exptime fl 0 APPEND_OP"
definition memcached_cas where "memcached_cas E key data exptime fl cas = memcached_send E key key data exptime fl cas CAS_OP"

definition memcached_set_by_key where
  "memcached_set_by_key E master key data exptime fl = memcached_send E master key data exptime fl 0 SET_OP"
definition memcached_add_by_key where
  "memcached_add_by_key E master key data exptime fl = memcached_send E master key data exptime fl 0 ADD_OP"
definition memcached_replace_by_key where
  "memcached_replace_by_key E master key data exptime fl = memcached_send E master key data exptime fl 0 REPLACE_OP"
definition memcached_prepend_by_key where
  "memcached_prepend_by_key E master key data exptime fl = memcached_send E master key data exptime fl 0 PREPEND_OP"
definition memcached_append_by_key where
  "memcached_append_by_key E master key data exptime fl = memcached_send E master key data exptime fl 0 APPEND_OP"
definition memcached_cas_by_key where
  "memcached_cas_by_key E master key data exptime fl cas = memcached_send E master key data exptime fl cas CAS_OP"

end
