(* ===== verification/Client_Send.thy ===== *)
theory Client_Send
  imports Client_Storage
begin

text \<open>
  A request on an open connection whose socket takes it: what is sent, and what the client makes of the
  answer. The lemmas lift the streams of input and output to the client with all of its servers.
\<close>

section \<open>The connection of a server\<close>

text \<open>What the streams of a connection depend on is not changed by the other servers.\<close>

lemma with_servers [simp]:
  "incoming (s\<lparr>memc := m\<rparr>) = incoming s" "outgoing (s\<lparr>memc := m\<rparr>) = outgoing s" "healthy (s\<lparr>memc := m\<rparr>) = healthy s"
  by (simp_all add: incoming_def outgoing_def healthy_def)

lemma ready_with_servers [simp]: "ready n (s\<lparr>memc := (memc s)\<lparr>servers := ps\<rparr>\<rparr>) = ready n s"
  by (simp add: ready_def accepting_def)

lemma server_of_put [simp]:
  "i < length (servers (c_memc c)) \<Longrightarrow> server_of i (put i d s c) = server s"
  by (simp add: put_def server_of_def)

lemma c_memc_put: "c_memc (put i d s c) = (memc s)\<lparr>servers := (servers (c_memc c))[i := server s]\<rparr>"
  by (simp add: put_def)

lemma view_put:
  assumes "i < length (servers (c_memc c))" and "fd (server s) = d" and "d \<noteq> - 1"
  shows "view i (put i d s c) = s\<lparr>memc := (memc s)\<lparr>servers := (servers (c_memc c))[i := server s]\<rparr>\<rparr>"
  using assms by (simp add: view_def put_def server_of_def Let_def)

lemma view_simps [simp]:
  "server (view i c) = server_of i c" "memc (view i c) = c_memc c" "net_log (view i c) = c_log c"
  by (simp_all add: view_def Let_def)

text \<open>A connected server, and a client whose server \<open>i\<close> is one.\<close>

definition connected :: "nat \<Rightarrow> client_st \<Rightarrow> bool" where
  "connected i c \<longleftrightarrow> i < length (servers (c_memc c)) \<and> - 1 < fd (server_of i c)"

lemma connect_connected [simp]: "connected i c \<Longrightarrow> memcached_connect E i c = Some (MEMCACHED_SUCCESS, c)"
  by (simp add: connected_def memcached_connect_def)

lemma at_server_connected:
  assumes "connected i c" and "f (view i c) = Some (a, s)" and "fd (server s) = fd (server_of i c)"
  shows "at_server i f c = Some (a, put i (fd (server_of i c)) s c) \<and> connected i (put i (fd (server_of i c)) s c) \<and>
     view i (put i (fd (server_of i c)) s c) = s\<lparr>memc := (memc s)\<lparr>servers := (servers (c_memc c))[i := server s]\<rparr>\<rparr>"
proof -
  have "fd (server_of i c) \<noteq> - 1" using assms(1) by (simp add: connected_def)
  with assms view_put [of i c s] show ?thesis by (simp add: at_server_def connected_def c_memc_put)
qed

section \<open>A request and its answer on one connection\<close>

lemma clear_datagram_tcp: "conn_type (server s) \<noteq> MEMCACHED_CONNECTION_UDP \<Longrightarrow> clear_datagram E b s = Some s"
  by (simp add: clear_datagram_def)

text \<open>The state behind a request that was sent whole.\<close>

definition requested :: "byte list \<Rightarrow> io_st \<Rightarrow> io_st \<Rightarrow> bool" where
  "requested data s t \<longleftrightarrow>
     net_sent t = outgoing s @ data \<and> write_buffer_offset (server t) = 0 \<and> incoming t = incoming s \<and> memc t = memc s \<and>
     fd (server t) = fd (server s) \<and> (healthy s \<longrightarrow> healthy t) \<and> net_log t = net_log s \<and>
     net_reads t = net_reads s \<and> buffered (server t) = buffered (server s) \<and>
     cursor_active (server t) = (if no_reply (flags (memc s)) then cursor_active (server s) else cursor_active (server s) + 1)"

lemma counted_request:
  assumes "queued s data t" and "write_buffer_offset (server t) = 0" and "net_sent t = outgoing s @ data"
    and "sent = int (length data)"
  shows "\<exists>u. count_response sent (length data) t = (MEMCACHED_SUCCESS, u) \<and> requested data s u"
proof -
  let ?u = "if no_reply (flags (memc t)) then t else on_server memcached_server_response_increment t"
  have "healthy s \<longrightarrow> healthy ?u" "incoming ?u = incoming s" "net_reads ?u = net_reads s" "buffered (server ?u) = buffered (server s)"
    using assms(1)
    by (auto simp: queued_def output_only_def healthy_def incoming_def memcached_server_response_increment_def
        buffered_def buffer_bytes_def input_wf_def)
  then have "requested data s ?u"
    using assms(1-3) by (simp add: requested_def queued_def output_only_def memcached_server_response_increment_def)
  then show ?thesis using assms(4) by (simp add: count_response_def)
qed

lemma vdo_connected_accepts:
  assumes "ready (length (concat vs)) s"
  shows "\<exists>u. vdo_connected E vs True s = Some (MEMCACHED_SUCCESS, u) \<and> requested (concat vs) s u"
proof -
  have tcp: "conn_type (server s) \<noteq> MEMCACHED_CONNECTION_UDP" using assms by (simp add: ready_def accepting_def)
  from io_writev_accepts [of 0 vs s E] assms obtain t where
    t: "memcached_io_writev E vs True s = Some (int (length (concat vs)), t)" "queued s (concat vs) t"
      "write_buffer_offset (server t) = 0" "net_sent t = outgoing s @ concat vs" by auto
  from counted_request [OF t(2-4) refl] t(1) clear_datagram_tcp [OF tcp] show ?thesis
    by (auto simp: vdo_connected_def)
qed

lemma do_connected_accepts:
  assumes "ready (length data) s"
  shows "\<exists>u. do_connected E data True s = Some (MEMCACHED_SUCCESS, u) \<and> requested data s u"
proof -
  have tcp: "conn_type (server s) \<noteq> MEMCACHED_CONNECTION_UDP" using assms by (simp add: ready_def accepting_def)
  from io_write_accepts [of 0 data s E] assms obtain t where
    t: "memcached_io_write E data True s = Some (int (length data), t)" "queued s data t"
      "write_buffer_offset (server t) = 0" "net_sent t = outgoing s @ data" by auto
  from counted_request [OF t(2-4) refl] t(1) clear_datagram_tcp [OF tcp] show ?thesis
    by (auto simp: do_connected_def)
qed

lemma memcached_vdo_accepts:
  assumes "connected i c" and "ready (length (concat vs)) (view i c)"
  shows "\<exists>c' s. memcached_vdo E i vs True c = Some (MEMCACHED_SUCCESS, c') \<and> connected i c' \<and> requested (concat vs) (view i c) s \<and>
     view i c' = s\<lparr>memc := c_memc c'\<rparr> \<and> c' = put i (fd (server_of i c)) s c"
proof -
  from vdo_connected_accepts [OF assms(2), of "ce_io E"] obtain s where
    s: "vdo_connected (ce_io E) vs True (view i c) = Some (MEMCACHED_SUCCESS, s)" "requested (concat vs) (view i c) s" by blast
  then have "fd (server s) = fd (server_of i c)" by (simp add: requested_def)
  from at_server_connected [where f = "vdo_connected (ce_io E) vs True", OF assms(1) s(1) this] s(2) assms(1) show ?thesis
    by (auto simp: memcached_vdo_def c_memc_put)
qed

lemma memcached_do_accepts:
  assumes "connected i c" and "ready (length data) (view i c)"
  shows "\<exists>c' s. memcached_do E i data True c = Some (MEMCACHED_SUCCESS, c') \<and> connected i c' \<and> requested data (view i c) s \<and>
     view i c' = s\<lparr>memc := c_memc c'\<rparr> \<and> c' = put i (fd (server_of i c)) s c"
proof -
  from do_connected_accepts [OF assms(2), of "ce_io E"] obtain s where
    s: "do_connected (ce_io E) data True (view i c) = Some (MEMCACHED_SUCCESS, s)" "requested data (view i c) s" by blast
  then have "fd (server s) = fd (server_of i c)" by (simp add: requested_def)
  from at_server_connected [where f = "do_connected (ce_io E) data True", OF assms(1) s(1) this] s(2) assms(1) show ?thesis
    by (auto simp: memcached_do_def c_memc_put)
qed

text \<open>One answer is expected: it is the one that is read.\<close>

lemma response_single:
  assumes "\<not> no_block (flags (memc s))" and "cursor_active (server s) = 1"
  shows "send_before_reading E s = Some s" and "response_loop E buf res s = memcached_read_one_response E buf res s"
  using assms by (simp_all add: send_before_reading_def response_loop.simps memcached_server_response_count_def)

lemma response_at_server_stored:
  assumes "connected i c" and "healthy (view i c)" and "incoming (view i c) = stored_line @ rest" and "8 < length buf"
    and "\<not> binary_protocol (flags (c_memc c))" and "\<not> no_block (flags (c_memc c))" and "cursor_active (server_of i c) = 1"
  shows "\<exists>buf' c'. response_at_server E i buf c = Some ((MEMCACHED_STORED, buf'), c') \<and> connected i c' \<and>
     incoming (view i c') = rest \<and> cursor_active (server_of i c') = 0 \<and> net_sent (view i c') = net_sent (view i c)"
proof -
  let ?s = "view i c"
  from read_stored [OF assms(2,3) _ assms(4), of "ce_io E" "result (memc ?s)"] assms(5) obtain buf' t where
    t: "memcached_read_one_response (ce_io E) buf (result (memc ?s)) ?s = Some (MEMCACHED_STORED, buf', result (memc ?s), t)"
      "incoming t = rest" "input_only (on_server memcached_server_response_decrement ?s) t" by auto
  define u where "u = t\<lparr>memc := (memc t)\<lparr>result := result (memc ?s)\<rparr>\<rparr>"
  have "send_before_reading (ce_io E) ?s = Some ?s" and
    "with_root_result (response_loop (ce_io E) buf) ?s = Some (MEMCACHED_STORED, buf', u)"
    using t(1) response_single [of ?s] assms(6,7) by (simp_all add: with_root_result_def u_def)
  moreover have u: "fd (server u) = fd (server_of i c)" "cursor_active (server u) = 0" "net_sent u = net_sent ?s" "incoming u = rest"
    using t(2,3) assms(7) by (simp_all add: u_def input_only_def memcached_server_response_decrement_def)
  ultimately show ?thesis
    using at_server_connected [OF assms(1), of _ "(MEMCACHED_STORED, buf')" u] assms(1)
    by (fastforce simp: response_at_server_def connected_def)
qed

end
