(* ===== verification/Client_Store.thy ===== *)
theory Client_Store
  imports Client_Send
begin

text \<open>
  Storing over an open connection: the bytes that leave the client, and the result. The replicas, the limits of the line
  buffer and the headers of the binary protocol are looked at as well.
\<close>

section \<open>An idle connection\<close>

text \<open>
  Nothing is pending on the connection of server \<open>i\<close>, it takes \<open>n\<close> bytes, and every request is sent and answered before
  the next one.
\<close>

definition one_by_one :: "memcached_flags \<Rightarrow> bool" where
  "one_by_one f \<longleftrightarrow> \<not> no_block f \<and> \<not> no_reply f \<and> \<not> buffer_requests f \<and> \<not> use_udp f"

definition idle :: "nat \<Rightarrow> nat \<Rightarrow> client_st \<Rightarrow> bool" where
  "idle i n c \<longleftrightarrow> connected i c \<and> healthy (view i c) \<and> ready n (view i c) \<and> cursor_active (server_of i c) = 0"

section \<open>The text protocol\<close>

lemma length_local_command [simp]: "length (command_buffer E s) = MEMCACHED_DEFAULT_COMMAND_SIZE"
  by (simp add: command_buffer_def memcpy_at_def MEMCACHED_DEFAULT_COMMAND_SIZE_def)

lemma send_text_line_stored:
  assumes "idle i (length (line @ data @ [13, 10])) c" and "one_by_one (flags (c_memc c))" and "\<not> binary_protocol (flags (c_memc c))"
    and "incoming (view i c) = stored_line @ rest"
  shows "\<exists>c'. send_text_line E i line data verb c = Some (MEMCACHED_SUCCESS, c') \<and> connected i c' \<and>
     net_sent (view i c') = outgoing (view i c) @ line @ data @ [13, 10] \<and> incoming (view i c') = rest \<and> cursor_active (server_of i c') = 0"
proof -
  from memcached_vdo_accepts [of i c "[line, data, [13, 10]]" E] assms(1) obtain c1 s where
    v: "memcached_vdo E i [line, data, [13, 10]] True c = Some (MEMCACHED_SUCCESS, c1)" "connected i c1"
      "requested (concat [line, data, [13, 10]]) (view i c) s" "view i c1 = s\<lparr>memc := c_memc c1\<rparr>" "c1 = put i (fd (server_of i c)) s c"
    by (auto simp: idle_def)
  have flags: "flags (c_memc c1) = flags (c_memc c)" using v(3,5) by (simp add: c_memc_put requested_def)
  have "server_of i c1 = server s" using v(4) by (metis view_simps(1) io_st.select_convs(1) io_st.simps(9) io_st.surjective io_st.update_convs(2))
  then have "cursor_active (server_of i c1) = 1" "healthy (view i c1)" "incoming (view i c1) = stored_line @ rest"
    "net_sent (view i c1) = outgoing (view i c) @ line @ data @ [13, 10]"
    using v(3,4) assms by (simp_all add: requested_def idle_def one_by_one_def)
  from response_at_server_stored [OF v(2) this(2,3), of "command_buffer E line" E] this(1,4) v(1) assms(2,3) flags
  show ?thesis
    by (auto simp: send_text_line_def one_by_one_def MEMCACHED_DEFAULT_COMMAND_SIZE_def)
qed

text \<open>The line, in words.\<close>

definition text_line :: "memcached_st \<Rightarrow> byte list \<Rightarrow> nat \<Rightarrow> u64 \<Rightarrow> u32 \<Rightarrow> memcached_storage_action_t \<Rightarrow> byte list" where
  "text_line m key n exptime fl verb = plain_head m key verb @ plain_tail m n exptime fl"

definition storage_message :: "memcached_st \<Rightarrow> byte list \<Rightarrow> byte list \<Rightarrow> u64 \<Rightarrow> u32 \<Rightarrow> memcached_storage_action_t \<Rightarrow> byte list" where
  "storage_message m key data exptime fl verb = text_line m key (length data) exptime fl verb @ data @ [13, 10]"

lemma storage_line_plain:
  assumes "length (text_line m key n exptime fl verb) < MEMCACHED_DEFAULT_COMMAND_SIZE"
  shows "storage_line m key n exptime fl 0 verb = Some (text_line m key n exptime fl verb)"
  using assms by (simp add: storage_line_def text_line_def Let_def)

lemma memcached_send_stored:
  assumes "memcached_validate_key_length (length key) False = MEMCACHED_SUCCESS" and "memcached_server_count (c_memc c) \<noteq> 0"
    and "verify_key (flags (c_memc c)) \<longrightarrow> memcached_key_test [key] = MEMCACHED_SUCCESS" and "\<not> binary_protocol (flags (c_memc c))"
    and "locate E master c = Some (i, c1)" and "flags (c_memc c1) = flags (c_memc c)" and "one_by_one (flags (c_memc c))"
    and "length (text_line (c_memc c1) key (length data) exptime fl verb) < MEMCACHED_DEFAULT_COMMAND_SIZE"
    and "idle i (length (storage_message (c_memc c1) key data exptime fl verb)) c1"
    and "incoming (view i c1) = stored_line @ rest"
  shows "\<exists>c'. memcached_send E master key data exptime fl 0 verb c = Some (MEMCACHED_SUCCESS, c') \<and> connected i c' \<and>
     net_sent (view i c') = outgoing (view i c1) @ storage_message (c_memc c1) key data exptime fl verb \<and>
     incoming (view i c') = rest \<and> cursor_active (server_of i c') = 0"
proof -
  let ?line = "text_line (c_memc c1) key (length data) exptime fl verb"
  from send_text_line_stored [OF assms(9) [unfolded storage_message_def] _ _ assms(10), of E verb] assms(4,6,7) obtain c' where
    "send_text_line E i ?line data verb c1 = Some (MEMCACHED_SUCCESS, c')" "connected i c'"
    "net_sent (view i c') = outgoing (view i c1) @ ?line @ data @ [13, 10]" "incoming (view i c') = rest" "cursor_active (server_of i c') = 0"
    by auto
  moreover from this(1) have "memcached_send_text E i key data exptime fl 0 verb c1 = Some (MEMCACHED_SUCCESS, c')"
    using storage_line_plain [OF assms(8)] assms(6,7,8) by (simp add: memcached_send_text_def one_by_one_def Let_def)
  ultimately show ?thesis
    using assms(1-6) by (auto simp: memcached_send_def storage_message_def Let_def)
qed

text \<open>A client with one server, for the examples; the server will answer with \<open>answer\<close>.\<close>

definition open_server :: memcached_server_st where
  "open_server = zero_server\<lparr>fd := 3, conn_type := MEMCACHED_CONNECTION_TCP, read_buffer := replicate MEMCACHED_MAX_BUFFER 0,
     write_buffer := replicate MEMCACHED_MAX_BUFFER 0\<rparr>"

definition example_socket :: "byte list \<Rightarrow> sock" where
  "example_socket answer = \<lparr>sock_reads = [Received answer], sock_writes = replicate 60 (Sent 1), sock_polls = [], sock_sent = []\<rparr>"

definition example_client :: "memcached_flags \<Rightarrow> memcached_server_st list \<Rightarrow> byte list \<Rightarrow> client_st" where
  "example_client fl ps answer =
     \<lparr>c_memc = zero_memcached\<lparr>flags := fl, memc_number_of_hosts := of_nat (length ps), servers := ps,
                distribution := MEMCACHED_DISTRIBUTION_MODULA, io_msg_watermark := 500\<rparr>,
      c_socks = (\<lambda>_. example_socket answer), c_lookups = [], c_sockets = [], c_polls = [], c_randoms = [], c_log = []\<rparr>"

lemma example_idle:
  assumes "answer \<noteq> []" and "n \<le> 60" and "i < length ps" and "ps ! i = open_server"
  shows "idle i n (example_client fl ps answer) \<and> incoming (view i (example_client fl ps answer)) = answer \<and>
     outgoing (view i (example_client fl ps answer)) = []"
  using assms
  by (simp add: idle_def connected_def view_def server_of_def example_client_def example_socket_def open_server_def zero_server_def
      zero_memcached_def healthy_def input_wf_def ready_def output_wf_def accepting_def incoming_def buffered_def buffer_bytes_def
      outgoing_def waiting_def MEMCACHED_MAX_BUFFER_def)

lemma example_client_simps [simp]:
  "flags (c_memc (example_client fl ps answer)) = fl"
  "memcached_server_count (c_memc (example_client fl ps answer)) = of_nat (length ps)"
  "servers (c_memc (example_client fl ps answer)) = ps" "prefix_of (c_memc (example_client fl ps answer)) = []"
  "server_of i (example_client fl ps answer) = ps ! i"
  by (simp_all add: example_client_def memcached_server_count_def zero_memcached_def prefix_of_def server_of_def)

text \<open>With one server the hash is not looked at.\<close>

lemma locate_single:
  "\<not> auto_eject_hosts fl \<Longrightarrow> locate E key (example_client fl [p] answer) = Some (0, example_client fl [p] answer)"
  by (simp add: locate_def memcached_generate_hash_with_redistribution_def regen_for_auto_eject_def is_auto_eject_host_def
      generate_hash_wrapper_def dispatch_host_def memcached_server_count_def example_client_def zero_memcached_def modulo_def)

section \<open>What the line buffer does not hold\<close>

lemma dec_digits_length: "1 \<le> length (dec_digits n)"
  by (cases "n < 10") (simp_all add: dec_digits.simps [of n])

lemma text_line_length:
  assumes "prefix_key_length m \<le> length (prefix_key m)" and "verb = SET_OP \<or> verb = ADD_OP \<or> verb = REPLACE_OP \<or> verb = APPEND_OP \<or> verb = PREPEND_OP"
  shows "prefix_key_length m + length key + 12 \<le> length (text_line m key n exptime fl verb)"
  using assms dec_digits_length [of "unat fl"] dec_digits_length [of "unat exptime"] dec_digits_length [of n]
  by (auto simp: text_line_def plain_head_def plain_tail_def line_end_def prefix_of_def bytes_def)

text \<open>
  the line of a storage command is copied into an array of 350 bytes without a check. A prefix and a key that are
  both accepted, but have 338 bytes or more together, are written behind the array.
\<close>

lemma storage_line_overruns:
  assumes "key \<noteq> []" and "length key \<le> 250" and "memcached_server_count (c_memc c) \<noteq> 0"
    and "verify_key (flags (c_memc c)) \<longrightarrow> memcached_key_test [key] = MEMCACHED_SUCCESS" and "\<not> binary_protocol (flags (c_memc c))"
    and "locate E master c = Some (i, c1)" and "\<not> binary_protocol (flags (c_memc c1))"
    and "prefix_key_length (c_memc c1) \<le> length (prefix_key (c_memc c1))"
    and "338 \<le> prefix_key_length (c_memc c1) + length key" and "verb \<noteq> CAS_OP"
  shows "memcached_send E master key data exptime fl 0 verb c = None"
proof -
  have "verb = SET_OP \<or> verb = ADD_OP \<or> verb = REPLACE_OP \<or> verb = APPEND_OP \<or> verb = PREPEND_OP"
    using assms(10) by (cases verb) simp_all
  from text_line_length [OF assms(8) this, of key "length data" exptime fl] assms(9)
  have "storage_line (c_memc c1) key (length data) exptime fl 0 verb = None"
    by (simp add: storage_line_def text_line_def MEMCACHED_DEFAULT_COMMAND_SIZE_def)
  with assms(1-7) show ?thesis
    by (simp add: memcached_send_def memcached_send_text_def memcached_validate_key_length_def MEMCACHED_MAX_KEY_def Let_def)
qed

definition long_prefix_client :: client_st where
  "long_prefix_client =
     (let c = example_client global_copy_flags [open_server] stored_line
      in c\<lparr>c_memc := (c_memc c)\<lparr>prefix_key_length := 100, prefix_key := replicate 128 112\<rparr>\<rparr>)"

lemma storage_line_overruns_witness:
  "\<forall>E. memcached_send E [107] (replicate 240 107) [97] 0 0 0 SET_OP long_prefix_client = None"
proof
  fix E
  have "locate E [107] long_prefix_client = Some (0, long_prefix_client)"
    by (simp add: long_prefix_client_def locate_def memcached_generate_hash_with_redistribution_def regen_for_auto_eject_def
        is_auto_eject_host_def generate_hash_wrapper_def dispatch_host_def memcached_server_count_def example_client_def
        zero_memcached_def modulo_def global_copy_flags_def Let_def)
  from storage_line_overruns [OF _ _ _ _ _ this, of "replicate 240 107" SET_OP]
  show "memcached_send E [107] (replicate 240 107) [97] 0 0 0 SET_OP long_prefix_client = None"
    by (simp add: long_prefix_client_def example_client_def memcached_server_count_def zero_memcached_def global_copy_flags_def Let_def)
qed

section \<open>Replicas\<close>

text \<open>A request that is buffered.\<close>

lemma vdo_connected_buffers:
  assumes "ready (length (concat vs)) s"
  shows "\<exists>u. vdo_connected E vs False s = Some (MEMCACHED_SUCCESS, u) \<and> outgoing u = outgoing s @ concat vs \<and>
     fd (server u) = fd (server s) \<and>
     cursor_active (server u) = (if no_reply (flags (memc s)) then cursor_active (server s) else cursor_active (server s) + 1)"
proof -
  have tcp: "conn_type (server s) \<noteq> MEMCACHED_CONNECTION_UDP" using assms by (simp add: ready_def accepting_def)
  from writev_loop_accepts [of 0 vs s E 0] assms obtain t where
    "writev_loop E vs 0 s = Some (int (length (concat vs)), t)" "queued s (concat vs) t" by auto
  then show ?thesis
    using clear_datagram_tcp [OF tcp]
    by (auto simp: vdo_connected_def memcached_io_writev_def count_response_def queued_def output_only_def outgoing_def waiting_def
        memcached_server_response_increment_def)
qed

text \<open>
  with \<open>no_reply\<close> a request is not counted as pending, but after the copy of a value has been queued for a replica the
  count is decremented all the same: a replica with nothing pending has 2^32 - 1 pending responses afterwards.
\<close>

lemma replica_count_wraps:
  assumes "no_reply (flags (c_memc c))" and "k = (if i + 1 = unat (memcached_server_count (c_memc c)) then 0 else i + 1)"
    and "idle k (length (concat vector)) c"
  shows "\<exists>c'. send_replicas E vector False 1 i c = Some c' \<and> cursor_active (server_of k c') = 2 ^ 32 - 1 \<and>
    outgoing (view k c') = outgoing (view k c) @ concat vector"
proof -
  have conn: "connected k c" and ready: "ready (length (concat vector)) (view k c)" and none: "cursor_active (server_of k c) = 0"
    using assms(3) by (simp_all add: idle_def)
  from vdo_connected_buffers [OF ready, of "ce_io E"] assms(1) none obtain u where
    u: "vdo_connected (ce_io E) vector False (view k c) = Some (MEMCACHED_SUCCESS, u)" "outgoing u = outgoing (view k c) @ concat vector"
      "fd (server u) = fd (server_of k c)" "cursor_active (server u) = 0" by auto
  let ?d = "fd (server_of k c)" and ?u = "on_server memcached_server_response_decrement"
  define c1 where "c1 = put k ?d u c"
  note v = at_server_connected [where f = "vdo_connected (ce_io E) vector False", OF conn u(1,3), folded c1_def]
  then have fd1: "fd (server_of k c1) = ?d" using conn u(3) by (simp add: c1_def connected_def)
  then have same: "fd (server (?u (view k c1))) = fd (server_of k c1)" by (simp add: memcached_server_response_decrement_def)
  define c2 where "c2 = put k (fd (server_of k c1)) (?u (view k c1)) c1"
  from at_server_connected [where f = "\<lambda>s. Some ((), ?u s)" and s = "?u (view k c1)" and i = k and c = c1, OF _ refl same] v
  have w: "at_server_do k ?u c1 = Some c2" "view k c2 = (?u (view k c1))\<lparr>memc :=
       (memc (?u (view k c1)))\<lparr>servers := (servers (c_memc c1))[k := server (?u (view k c1))]\<rparr>\<rparr>"
    by (auto simp: at_server_do_def c2_def)
  have "send_replicas E vector False 1 i c = Some c2"
    using v w(1) conn assms(2) by (simp add: memcached_vdo_def)
  moreover have "cursor_active (server_of k c2) = 2 ^ 32 - 1"
    using v u(4) conn by (simp add: connected_def c1_def c2_def memcached_server_response_decrement_def)
  moreover have "outgoing (view k c2) = outgoing (?u (view k c1))" by (simp only: w(2) with_servers)
  then have "outgoing (view k c2) = outgoing (view k c1)"
    by (simp add: outgoing_def waiting_def memcached_server_response_decrement_def)
  ultimately show ?thesis using v u(2) by auto
qed

lemma replica_count_wraps_witness:
  "\<forall>E. \<exists>c'. send_replicas E [[1, 2], [3]] False 1 1 (example_client (global_copy_flags\<lparr>no_reply := True\<rparr>) [open_server, open_server] [10])
     = Some c' \<and> cursor_active (server_of 0 c') = 2 ^ 32 - 1"
proof
  fix E
  show "\<exists>c'. send_replicas E [[1, 2], [3]] False 1 1 (example_client (global_copy_flags\<lparr>no_reply := True\<rparr>) [open_server, open_server] [10])
     = Some c' \<and> cursor_active (server_of 0 c') = 2 ^ 32 - 1"
    using replica_count_wraps [of "example_client (global_copy_flags\<lparr>no_reply := True\<rparr>) [open_server, open_server] [10]" 0 1 "[[1, 2], [3]]" E]
      example_idle [of "[10]" 3 0 "[open_server, open_server]" "global_copy_flags\<lparr>no_reply := True\<rparr>"]
    by (auto simp: numeral_3_eq_3)
qed

end
