(* ===== verification/Client_Server.thy ===== *)
theory Client_Server
  imports Client_Store Ascii_Protocol Binary_Execute
begin

text \<open>
  The client library and the protocol server of the same source tree: the bytes that a storage command of the client
  sends are what the server hands to the application.
\<close>

section \<open>The text protocol\<close>

fun ascii_cmd_of :: "memcached_storage_action_t \<Rightarrow> ascii_cmd" where
  "ascii_cmd_of SET_OP = SET_CMD"
| "ascii_cmd_of ADD_OP = ADD_CMD"
| "ascii_cmd_of REPLACE_OP = REPLACE_CMD"
| "ascii_cmd_of APPEND_OP = APPEND_CMD"
| "ascii_cmd_of PREPEND_OP = PREPEND_CMD"
| "ascii_cmd_of CAS_OP = CAS_CMD"

lemma ascii_cmd_of_plain: "verb \<noteq> CAS_OP \<Longrightarrow> ascii_cmd_of verb \<in> plain_storage"
  by (cases verb) (simp_all add: plain_storage_def)

lemma storage_op_name: "verb \<noteq> CAS_OP \<Longrightarrow> storage_op_string verb = bytes (command_name (ascii_cmd_of verb)) @ [32]"
  by (cases verb) (simp_all add: bytes_def)

text \<open>The line of the client is the line of the server's theory, and so is the message.\<close>

lemma text_line_words:
  assumes "verb \<noteq> CAS_OP" and "\<not> no_reply (flags m)"
  shows "storage_message m key data exptime fl verb =
    store_message (store_words (ascii_cmd_of verb) (prefix_of m @ key) (unat fl) (unat exptime) (length data)) data"
  using assms by (simp add: storage_message_def text_line_def plain_head_def plain_tail_def line_end_def storage_op_name store_message_def
      store_words_def joined_def crlf_def)

text \<open>
  C6: on an idle connection a storage command of the text protocol succeeds when the server answers \<open>STORED\<close>, its bytes are
  sent behind all that was sent before, and the protocol server that receives them calls the callback of the application
  with the prefixed key, the data, the flags and the expiration time that the client was given.
\<close>

lemma store_reaches_server:
  assumes "memcached_validate_key_length (length key) False = MEMCACHED_SUCCESS" and "memcached_server_count (c_memc c) \<noteq> 0"
    and "verify_key (flags (c_memc c)) \<longrightarrow> memcached_key_test [key] = MEMCACHED_SUCCESS" and "\<not> binary_protocol (flags (c_memc c))"
    and "locate E master c = Some (i, c1)" and "flags (c_memc c1) = flags (c_memc c)" and "one_by_one (flags (c_memc c))"
    and "length (text_line (c_memc c1) key (length data) exptime fl verb) < MEMCACHED_DEFAULT_COMMAND_SIZE"
    and "idle i (length (storage_message (c_memc c1) key data exptime fl verb)) c1"
    and "incoming (view i c1) = stored_line @ rest" and "verb \<noteq> CAS_OP" and "key_ok (prefix_of (c_memc c1) @ key)"
    and "unat exptime < 2 ^ 32" and "length data < 2 ^ 32" and "has_callback cb (ascii_cmd_of verb)" and "tidy cb"
  shows "\<exists>c'. memcached_send E master key data exptime fl 0 verb c = Some (MEMCACHED_SUCCESS, c') \<and>
    net_sent (view i c') = outgoing (view i c1) @ storage_message (c_memc c1) key data exptime fl verb \<and>
    incoming (view i c') = rest \<and> cursor_active (server_of i c') = 0 \<and>
    (\<forall>S s tail. buffer s = storage_message (c_memc c1) key data exptime fl verb @ tail \<longrightarrow>
      (\<exists>k d t. take (length (prefix_of (c_memc c1) @ key)) k = prefix_of (c_memc c1) @ key \<and> take (length data) d = data \<and>
        \<not> mute (snd t) \<and> fst t = fst s \<and>
        memcached_ascii_protocol_process_data S cb (length (storage_message (c_memc c1) key data exptime fl verb)) s =
        (case store_callback cb (ascii_cmd_of verb) k (of_nat (length (prefix_of (c_memc c1) @ key))) d (of_nat (length data))
                (of_nat (unat fl)) (of_nat (unat exptime)) 0 t of
           None \<Rightarrow> None
         | Some ((rval, cas), s) \<Rightarrow>
             Some (MEMCACHED_PROTOCOL_READ_EVENT, 0, length (storage_message (c_memc c1) key data exptime fl verb),
               say S (store_answer (ascii_cmd_of verb) rval) s))))"
proof -
  let ?key = "prefix_of (c_memc c1) @ key" and ?cmd = "ascii_cmd_of verb"
  let ?ws = "store_words ?cmd ?key (unat fl) (unat exptime) (length data)"
  have message: "storage_message (c_memc c1) key data exptime fl verb = store_message ?ws data"
    using text_line_words [OF assms(11)] assms(6,7) by (simp add: one_by_one_def)
  from memcached_send_stored [OF assms(1-10), unfolded message] obtain c' where
    c': "memcached_send E master key data exptime fl 0 verb c = Some (MEMCACHED_SUCCESS, c')"
      "net_sent (view i c') = outgoing (view i c1) @ store_message ?ws data" "incoming (view i c') = rest"
      "cursor_active (server_of i c') = 0" by blast
  have "length (text_line (c_memc c1) key (length data) exptime fl verb @ data @ [13, 10]) = length (joined ?ws) + length data + 3"
    by (simp only: message [unfolded storage_message_def] length_store_message)
  then have small: "length (joined ?ws) < 2 ^ 32" using assms(8) by (simp add: MEMCACHED_DEFAULT_COMMAND_SIZE_def)
  have fl: "unat fl < 2 ^ 32" using unsigned_less [of fl] by simp
  have server: "\<exists>k d t. take (length ?key) k = ?key \<and> take (length data) d = data \<and> \<not> mute (snd t) \<and> fst t = fst s \<and>
      memcached_ascii_protocol_process_data S cb (length (store_message ?ws data)) s =
      (case store_callback cb ?cmd k (of_nat (length ?key)) d (of_nat (length data)) (of_nat (unat fl)) (of_nat (unat exptime)) 0 t of
         None \<Rightarrow> None
       | Some ((rval, cas), s) \<Rightarrow>
           Some (MEMCACHED_PROTOCOL_READ_EVENT, 0, length (store_message ?ws data), say S (store_answer ?cmd rval) s))"
    if "buffer s = store_message ?ws data @ tail" for S s tail
    by (rule storage_executed [OF ascii_cmd_of_plain [OF assms(11)] assms(15,12,16) that fl assms(13,14) small])
  show ?thesis
    unfolding message by (rule exI [of _ c']) (use c' server in blast)
qed

lemma store_reaches_server_witness:
  "\<forall>E. \<exists>c'. memcached_send E [107] [107] [97] 0 0 0 SET_OP (example_client global_copy_flags [open_server] stored_line) =
       Some (MEMCACHED_SUCCESS, c') \<and> net_sent (view 0 c') = bytes ''set k 0 0 1'' @ [13, 10, 97, 13, 10]"
proof
  fix E
  let ?c = "example_client global_copy_flags [open_server] stored_line"
  have message: "storage_message (c_memc ?c) [107] [97] 0 0 SET_OP = bytes ''set k 0 0 1'' @ [13, 10, 97, 13, 10]"
    by (simp add: storage_message_def text_line_def plain_head_def plain_tail_def line_end_def global_copy_flags_def bytes_def
        dec_digits.simps)
  have sixteen: "length (storage_message (c_memc ?c) [107] [97] 0 0 SET_OP) = 16" by (simp only: message) (simp add: bytes_def)
  have nonempty: "stored_line \<noteq> []" by (simp add: stored_line_def)
  have line: "length (text_line (c_memc ?c) [107] (length [97 :: byte]) 0 0 SET_OP) = 13"
    by (simp add: text_line_def plain_head_def plain_tail_def line_end_def global_copy_flags_def bytes_def dec_digits.simps)
  have flags: "\<not> binary_protocol global_copy_flags" "one_by_one global_copy_flags" "\<not> verify_key global_copy_flags"
    "\<not> auto_eject_hosts global_copy_flags"
    by (simp_all add: global_copy_flags_def one_by_one_def)
  have idle: "idle 0 (length (storage_message (c_memc ?c) [107] [97] 0 0 SET_OP)) ?c" "incoming (view 0 ?c) = stored_line @ []"
      "outgoing (view 0 ?c) = []"
    using example_idle [of stored_line 16 0 "[open_server]" global_copy_flags] nonempty by (simp_all add: sixteen)
  show "\<exists>c'. memcached_send E [107] [107] [97] 0 0 0 SET_OP ?c = Some (MEMCACHED_SUCCESS, c') \<and>
     net_sent (view 0 c') = bytes ''set k 0 0 1'' @ [13, 10, 97, 13, 10]"
    using store_reaches_server [OF _ _ _ _ locate_single [OF flags(4), of E "[107]"] refl _ _ idle(1,2), of "v1 one_value"]
      flags line idle(3) one_value_has_set sample_key one_value_tidy
    by (auto simp: message memcached_validate_key_length_def MEMCACHED_MAX_KEY_def MEMCACHED_DEFAULT_COMMAND_SIZE_def)
qed

section \<open>The binary protocol\<close>

lemma request_of_vector:
  "request_at (concat (storage_vector m key data exptime fl cas verb opcode) @ tail) =
     storage_header m (length key) (length data) cas verb opcode"
  by (simp add: storage_vector_def)

lemma length_vector:
  assumes "prefix_key_length m \<le> length (prefix_key m)"
  shows "length (concat (storage_vector m key data exptime fl cas verb opcode)) =
     24 + (if has_extras verb then 8 else 0) + prefix_key_length m + length key + length data"
  using assms by (simp add: storage_vector_def prefix_of_def st_le32_def)

text \<open>The numbers of the header, as long as they fit into their fields.\<close>

lemma header_numbers:
  assumes "klen + prefix_key_length m < 2 ^ 16" and "klen + prefix_key_length m + n + 8 < 2 ^ 32"
  shows "unat (ntohs (req_keylen (storage_header m klen n cas verb opcode))) = klen + prefix_key_length m"
    and "unat (ntohl (req_bodylen (storage_header m klen n cas verb opcode))) =
      klen + prefix_key_length m + n + (if has_extras verb then 8 else 0)"
    and "req_extlen (storage_header m klen n cas verb opcode) = (if has_extras verb then 8 else 0)"
  using assms by (simp_all only: storage_header_def Let_def protocol_binary_request_header.select_convs byteorder_inverse)
    (auto simp: unat_of_nat simp del: of_nat_add)

lemma header_fits:
  assumes "klen + prefix_key_length m < 2 ^ 16" and "klen + prefix_key_length m + n + 8 < 2 ^ 32" and "0 < klen"
  shows "(ucast (ntohs (req_keylen (storage_header m klen n cas verb opcode))) :: u32) +
      ucast (req_extlen (storage_header m klen n cas verb opcode)) \<le> ntohl (req_bodylen (storage_header m klen n cas verb opcode))"
    and "0 < (ucast (ntohs (req_keylen (storage_header m klen n cas verb opcode))) :: u32)"
proof -
  let ?h = "storage_header m klen n cas verb opcode"
  note numbers = header_numbers [OF assms(1,2), where cas = cas and verb = verb and opcode = opcode]
  have key: "unat (ucast (ntohs (req_keylen ?h)) :: u32) = klen + prefix_key_length m"
    using assms(1) numbers(1) by (simp add: unsigned_ucast_eq take_bit_nat_eq_self)
  have ext: "unat (ucast (req_extlen ?h) :: u32) = (if has_extras verb then 8 else 0)" by (simp add: numbers(3))
  have "unat ((ucast (ntohs (req_keylen ?h)) :: u32) + ucast (req_extlen ?h)) = klen + prefix_key_length m + (if has_extras verb then 8 else 0)"
    unfolding unat_word_ariths key ext using assms(2) by simp
  then show "(ucast (ntohs (req_keylen ?h)) :: u32) + ucast (req_extlen ?h) \<le> ntohl (req_bodylen ?h)"
    unfolding word_le_nat_alt numbers(2) by simp
  show "0 < (ucast (ntohs (req_keylen ?h)) :: u32)"
    unfolding word_less_nat_alt key using assms(3) by simp
qed

text \<open>
  C25: the packet of every binary storage command has the length that its header says and passes the pedantic check of the
  protocol server, as long as the prefixed key has less than 2^16 bytes.
\<close>

lemma storage_packet_pedantic:
  assumes "key \<noteq> []" and "prefix_key_length m \<le> length (prefix_key m)" and "length key + prefix_key_length m < 2 ^ 16"
    and "length key + prefix_key_length m + length data + 8 < 2 ^ 32" and "verb = ADD_OP \<Longrightarrow> cas = 0"
  shows "pedantic_check_request (request_at (concat (storage_vector m key data exptime fl cas verb (get_com_code verb noreply)) @ tail)) \<and>
    packet_total (concat (storage_vector m key data exptime fl cas verb (get_com_code verb noreply)) @ tail) =
      length (concat (storage_vector m key data exptime fl cas verb (get_com_code verb noreply)))"
proof -
  let ?h = "storage_header m (length key) (length data) cas verb (get_com_code verb noreply)"
  note numbers = header_numbers [OF assms(3,4), where cas = cas and verb = verb and opcode = "get_com_code verb noreply"]
  have fits: "(ucast (ntohs (req_keylen ?h)) :: u32) + ucast (req_extlen ?h) \<le> ntohl (req_bodylen ?h)"
    "0 < (ucast (ntohs (req_keylen ?h)) :: u32)"
    using header_fits [OF assms(3,4)] assms(1) by simp_all
  have rest: "req_magic ?h = PROTOCOL_BINARY_REQ" "req_datatype ?h = PROTOCOL_BINARY_RAW_BYTES" "req_reserved ?h = 0"
    "req_opcode ?h = get_com_code verb noreply" "verb = ADD_OP \<Longrightarrow> req_cas ?h = 0"
    using assms(5) by (simp_all add: storage_header_def Let_def)
  have "pedantic_check_request ?h"
    using fits rest numbers(3)
    by (cases verb) (simp_all add: pedantic_check_request_def has_extras_def byte_of_def Let_def split: if_splits)
  then show ?thesis
    using numbers(2) by (simp add: request_of_vector packet_total_def length_vector [OF assms(2)])
qed

lemma storage_packet_pedantic_witness:
  "pedantic_check_request (request_at (concat (storage_vector zero_memcached [107] [97] 0 5 9 CAS_OP (get_com_code CAS_OP True)) @ []))"
proof -
  have "CAS_OP = ADD_OP \<Longrightarrow> (9 :: u64) = 0" by simp
  from storage_packet_pedantic [of "[107]" zero_memcached "[97]" CAS_OP 9 0 5 True "[]", OF _ _ _ _ this]
  show ?thesis by (simp add: zero_memcached_def)
qed

text \<open>
  C7: the binary packet of \<open>memcached_set\<close> makes the protocol server call the callback of the application with the prefixed
  key, the data, the flags, the expiration time and the CAS value that the client was given.
\<close>

lemma set_packet_executed:
  assumes "prefix_key_length m \<le> length (prefix_key m)" and "length key + prefix_key_length m < 2 ^ 16"
    and "length key + prefix_key_length m + length data + 8 < 2 ^ 32" and "v1_set (v1 cb) = Some set_cb"
  shows "set_command_handler cb (concat (storage_vector m key data exptime fl cas SET_OP PROTOCOL_BINARY_CMD_SET) @ tail) handler s = do {
    ((rval, result_cas), s) \<leftarrow> set_cb (prefix_of m @ key @ data @ tail) (of_nat (length (prefix_of m @ key))) (data @ tail)
       (of_nat (length data)) fl (ucast exptime) cas s;
    if rval = PROTOCOL_BINARY_RESPONSE_SUCCESS
    then on_client (handler (concat (storage_vector m key data exptime fl cas SET_OP PROTOCOL_BINARY_CMD_SET) @ tail)
           (no_extras PROTOCOL_BINARY_CMD_SET (concat (storage_vector m key data exptime fl cas SET_OP PROTOCOL_BINARY_CMD_SET) @ tail)
              result_cas)) s
    else Some (rval, s)
  }"
proof -
  let ?h = "storage_header m (length key) (length data) cas SET_OP PROTOCOL_BINARY_CMD_SET"
  let ?p = "concat (storage_vector m key data exptime fl cas SET_OP PROTOCOL_BINARY_CMD_SET) @ tail"
  note numbers = header_numbers [OF assms(2,3), where cas = cas and verb = SET_OP and opcode = PROTOCOL_BINARY_CMD_SET]
  have p: "?p = request_bytes ?h @ st_le32 (htonl fl) @ st_le32 (htonl (ucast exptime)) @ prefix_of m @ key @ data @ tail"
    by (simp add: storage_vector_def has_extras_def)
  have key: "drop 32 ?p = prefix_of m @ key @ data @ tail" by (simp add: p st_le32_def)
  have flags: "rd32 ?p 24 = Some (htonl fl)" "rd32 ?p 28 = Some (htonl (ucast exptime))"
    by (simp_all add: p rd32_def header_layout)
  have prefix: "length (prefix_of m) = prefix_key_length m" using assms(1) by (simp add: prefix_of_def)
  have keylen: "ntohs (req_keylen ?h) = of_nat (length (prefix_of m @ key))"
    by (simp add: storage_header_def prefix Let_def add.commute)
  have datalen: "ntohl (req_bodylen ?h) - ucast (ntohs (req_keylen ?h)) - 8 = (of_nat (length data) :: u32)"
  proof -
    have "of_nat (unat (ntohs (req_keylen ?h))) = (ucast (ntohs (req_keylen ?h)) :: u32)" by (rule of_nat_unat)
    then have "(ucast (ntohs (req_keylen ?h)) :: u32) = of_nat (length key + prefix_key_length m)"
      unfolding numbers(1) by (rule sym)
    then show ?thesis by (simp add: storage_header_def has_extras_def Let_def)
  qed
  have "unat (ntohs (req_keylen ?h)) = length (prefix_of m @ key)" using numbers(1) prefix by simp
  then have data: "drop (unat (ntohs (req_keylen ?h))) (prefix_of m @ key @ data @ tail) = data @ tail" by simp
  have "req_opcode ?h = PROTOCOL_BINARY_CMD_SET" "ntohll (req_cas ?h) = cas" by (simp_all add: storage_header_def Let_def)
  then show ?thesis
    using assms(4) key flags keylen datalen data
    by (simp add: set_command_handler_def request_of_vector Let_def)
qed

definition packet_example :: "byte list" where
  "packet_example = concat (storage_vector zero_memcached [107] [97] 0 0 7 SET_OP PROTOCOL_BINARY_CMD_SET) @ []"

lemma set_packet_executed_witness:
  "\<forall>handler s. set_command_handler one_value packet_example handler s = do {
    ((rval, result_cas), s) \<leftarrow> the (v1_set (v1 one_value)) [107, 97] 1 [97] 1 0 0 7 s;
    if rval = PROTOCOL_BINARY_RESPONSE_SUCCESS
    then on_client (handler packet_example (no_extras PROTOCOL_BINARY_CMD_SET packet_example result_cas)) s
    else Some (rval, s)
  }"
proof (intro allI)
  fix handler s
  have "prefix_of zero_memcached = []" by (simp add: prefix_of_def zero_memcached_def)
  moreover have "prefix_key_length zero_memcached = 0" by (simp add: zero_memcached_def)
  moreover obtain set_cb where "v1_set (v1 one_value) = Some set_cb"
    using one_value_has_set by (auto simp: has_callback_def)
  ultimately show "set_command_handler one_value packet_example handler s = do {
    ((rval, result_cas), s) \<leftarrow> the (v1_set (v1 one_value)) [107, 97] 1 [97] 1 0 0 7 s;
    if rval = PROTOCOL_BINARY_RESPONSE_SUCCESS
    then on_client (handler packet_example (no_extras PROTOCOL_BINARY_CMD_SET packet_example result_cas)) s
    else Some (rval, s)
  }"
    unfolding packet_example_def
    using set_packet_executed [of zero_memcached "[107]" "[97]" one_value set_cb 0 0 7 "[]" handler s] by simp
qed

end
