(* ===== verification/Client_Reach.thy ===== *)
theory Client_Reach
  imports Client_Store
begin

text \<open>
  What \<open>memcached_connect\<close> leaves behind: for TCP and UDP, success and a descriptor go together; for UNIX sockets they do
  not. A host whose name cannot be resolved for the moment is used without an address.
\<close>

section \<open>Success means a descriptor\<close>

lemma connect_poll_fd:
  "connect_poll n errno err polls p = (rc, polls', p') \<Longrightarrow> rc = MEMCACHED_SUCCESS \<Longrightarrow> fd p' = fd p"
  by (induction n errno err polls p rule: connect_poll.induct) (auto split: list.splits poll_answer.splits if_splits)

lemma server_of_env [simp]:
  "server_of i (c\<lparr>c_sockets := as\<rparr>) = server_of i c" "server_of i (c\<lparr>c_socks := k\<rparr>) = server_of i c"
  "server_of i (c\<lparr>c_lookups := ls\<rparr>) = server_of i c"
  by (simp_all add: server_of_def)

lemma connect_attempt_fd:
  assumes "connect_attempt i c = (a, c')" and "i < length (servers (c_memc c))"
  shows "length (servers (c_memc c')) = length (servers (c_memc c)) \<and>
    (case a of Give_up rc \<Rightarrow> rc \<noteq> MEMCACHED_SUCCESS \<and> fd (server_of i c') = - 1 | Connected \<Rightarrow> - 1 < fd (server_of i c')
     | Try_next t \<Rightarrow> fd (server_of i c') = - 1 | Try_again \<Rightarrow> fd (server_of i c') = - 1)"
  using assms
  by (auto simp: connect_attempt_def Let_def split: prod.splits sum.splits list.splits if_splits dest: connect_poll_fd)

lemma connect_loop_fd:
  assumes "connect_loop i timed_out use c = (r, t', c')" and "i < length (servers (c_memc c))" and "fd (server_of i c) = - 1"
  shows "length (servers (c_memc c')) = length (servers (c_memc c)) \<and>
    (case r of None \<Rightarrow> - 1 \<le> fd (server_of i c') | Some rc \<Rightarrow> rc \<noteq> MEMCACHED_SUCCESS \<and> fd (server_of i c') = - 1)"
  using assms
proof (induction i timed_out use c arbitrary: r t' c' rule: connect_loop.induct)
  case (2 i timed_out inet use c)
  show ?case
  proof (cases "conn_type (server_of i c) = MEMCACHED_CONNECTION_UDP \<and> \<not> inet")
    case False
    obtain a c1 where a: "connect_attempt i c = (a, c1)" by (cases "connect_attempt i c") auto
    from 2(4) False have "(case a of Give_up rc \<Rightarrow> (Some rc, timed_out, c1) | Connected \<Rightarrow> (None, timed_out, c1)
        | Try_next t \<Rightarrow> connect_loop i (timed_out \<or> t) use c1 | Try_again \<Rightarrow> connect_loop i timed_out (inet # use) c1) = (r, t', c')"
      by (simp add: connect_loop.simps(2) [of i timed_out inet use c] a)
    with connect_attempt_fd [OF a 2(5)] 2(2,3) [OF False a [symmetric]] 2(5) show ?thesis
      by (cases a) auto
  qed (use 2 in \<open>simp add: connect_loop.simps(2)\<close>)
qed simp

lemma set_hostinfo_fd:
  assumes "set_hostinfo i c = Some (rc, c')" and "i < length (servers (c_memc c))"
  shows "fd (server_of i c') = fd (server_of i c) \<and> length (servers (c_memc c')) = length (servers (c_memc c))"
  using assms by (auto simp: set_hostinfo_def split: lookup.splits prod.splits)

lemma network_connect_fd:
  assumes "network_connect E i c = Some (rc, c')" and "i < length (servers (c_memc c))" and "fd (server_of i c) = - 1"
  shows "length (servers (c_memc c')) = length (servers (c_memc c)) \<and> - 1 \<le> fd (server_of i c') \<and>
    (rc = MEMCACHED_SUCCESS \<longleftrightarrow> - 1 < fd (server_of i c'))"
proof -
  define found where "found = (if \<not> sockaddr_inited (server_of i c) \<or> \<not> use_cache_lookups (flags (c_memc c))
      then do { (rc, c) \<leftarrow> set_hostinfo i c; Some (rc, if rc = MEMCACHED_SUCCESS then modify i (\<lambda>p. p\<lparr>sockaddr_inited := True\<rparr>) c else c) }
      else Some (MEMCACHED_SUCCESS, c))"
  from assms(1) obtain rc1 c1 where f: "found = Some (rc1, c1)" unfolding network_connect_def found_def [symmetric] by (cases found) auto
  have c1: "fd (server_of i c1) = - 1" "length (servers (c_memc c1)) = length (servers (c_memc c))"
    using f assms(2,3) set_hostinfo_fd [of i c] by (auto simp: found_def bind_eq_Some_conv split: if_splits)
  let ?use = "case address_info (server_of i c1) of None \<Rightarrow> [] | Some a \<Rightarrow> ce_addrinfo E a"
  obtain r t c2 where l: "connect_loop i False ?use c1 = (r, t, c2)" by (cases "connect_loop i False ?use c1") auto
  show ?thesis
    using assms(1) connect_loop_fd [OF l] assms(2) c1 l f
    unfolding network_connect_def found_def [symmetric]
    by (auto simp: Let_def split: if_splits option.splits sum.splits)
qed

lemma at_server_do_servers:
  assumes "at_server_do i f c = Some c'" and "\<And>s. fd (server (f s)) = fd (server s)"
  shows "length (servers (c_memc c')) = length (servers (c_memc c)) \<and> fd (server_of i c') = fd (server_of i c)"
  using assms by (auto simp: at_server_do_def at_server_def c_memc_put split: if_splits)

lemma last_disconnected_fd:
  assumes "last_disconnected E i c = Some c'"
  shows "length (servers (c_memc c')) = length (servers (c_memc c)) \<and> fd (server_of i c') = fd (server_of i c)"
  using assms unfolding last_disconnected_def by (rule at_server_do_servers) (simp add: set_last_disconnected_host_def)

text \<open>
  C26: for a TCP or UDP server of a client that does not eject hosts, \<open>memcached_connect\<close> succeeds exactly when the
  server has a descriptor afterwards.
\<close>

lemma connect_iff_descriptor:
  assumes "memcached_connect E i c = Some (rc, c')" and "i < length (servers (c_memc c))" and "- 1 \<le> fd (server_of i c)"
    and "conn_type (server_of i c) = MEMCACHED_CONNECTION_TCP \<or> conn_type (server_of i c) = MEMCACHED_CONNECTION_UDP"
    and "\<not> auto_eject_hosts (flags (c_memc c))"
  shows "rc = MEMCACHED_SUCCESS \<longleftrightarrow> - 1 < fd (server_of i c')"
proof (cases "- 1 < fd (server_of i c)")
  case True
  with assms(1) show ?thesis by (auto simp: memcached_connect_def)
next
  case False
  with assms(3) have closed: "fd (server_of i c) = - 1" by simp
  have eject: "\<not> is_auto_eject_host (c_memc d)" if "last_disconnected E i c = Some d" for d
    using that assms(5)
    by (auto simp: is_auto_eject_host_def last_disconnected_def at_server_do_def at_server_def c_memc_put set_last_disconnected_host_def
        split: if_splits)
  show ?thesis
  proof (cases "retry_later E i c")
    case (Some later)
    show ?thesis
    proof (cases "later \<or> server_failure_limit (c_memc c) \<noteq> 0 \<and> server_failure_limit (c_memc c) \<le> server_failure_counter (server_of i c)")
      case True
      with assms(1) Some closed eject last_disconnected_fd [of E i c] show ?thesis
        by (auto simp: memcached_connect_def marked_dead_def bind_eq_Some_conv split: if_splits)
    next
      case no: False
      then obtain rc1 c1 where n: "network_connect E i c = Some (rc1, c1)"
        and r: "(if rc1 = MEMCACHED_SUCCESS then Some (rc1, modify i (\<lambda>p. p\<lparr>server_failure_counter := 0, next_retry := 0\<rparr>) c1)
           else map_option (Pair rc1) (last_disconnected E i
             (modify i (\<lambda>p. p\<lparr>server_failure_counter := server_failure_counter p + 1\<rparr>) c1))) = Some (rc, c')"
        using assms(1,4) Some closed by (auto simp: memcached_connect_def bind_eq_Some_conv split: if_splits)
      from network_connect_fd [OF n assms(2) closed] assms(2) r show ?thesis
        by (auto split: if_splits dest!: last_disconnected_fd)
    qed
  qed (use assms(1) closed in \<open>simp add: memcached_connect_def\<close>)
qed

definition example_io :: io_env where
  "example_io = \<lparr>io_realloc = libmemcached_realloc 65536, io_malloc_server = Some zero_server, io_stack = [],
     io_junk_result = result zero_memcached, io_cork_works = True, io_callbacks = (\<lambda>_. [])\<rparr>"

definition example_env :: client_env where
  "example_env = \<lparr>ce_io = example_io, ce_memc = zero_env, ce_addrinfo = (\<lambda>_. [False, True]),
     ce_malloc = (\<lambda>_. True), ce_malloc_result = None, ce_buffer_size = (\<lambda>_ _. Some 4096), ce_cork = (\<lambda>_. None), ce_hsieh = False,
     ce_delete_trigger = (\<lambda>_ _. Some), ce_get_key_failure = (\<lambda>_ _ c. Some (MEMCACHED_NOTFOUND, c))\<rparr>"

definition closed_client :: "memcached_connection_t \<Rightarrow> client_st" where
  "closed_client t = (example_client global_copy_flags [open_server\<lparr>fd := - 1, conn_type := t\<rparr>] [10])
     \<lparr>c_lookups := [Lookup_again, Resolved 5], c_sockets := [Socket 7 [111] 0 (example_socket [10]), Socket 8 [] 0 (example_socket [10])]\<rparr>"

lemma connect_iff_descriptor_witness:
  "\<exists>c'. memcached_connect example_env 0 (closed_client MEMCACHED_CONNECTION_TCP) = Some (MEMCACHED_SUCCESS, c') \<and>
     - 1 < fd (server_of 0 c')"
proof -
  let ?c = "closed_client MEMCACHED_CONNECTION_TCP"
  have "\<exists>c'. memcached_connect example_env 0 ?c = Some (MEMCACHED_SUCCESS, c')"
    by (simp add: memcached_connect_def retry_later_def closed_client_def example_client_def server_of_def zero_memcached_def
        open_server_def zero_server_def network_connect_def set_hostinfo_def modify_def connect_loop.simps(2) connect_attempt_def
        example_env_def eval_nat_numeral global_copy_flags_def)
  then obtain c' where c': "memcached_connect example_env 0 ?c = Some (MEMCACHED_SUCCESS, c')" by blast
  have "i = 0 \<Longrightarrow> MEMCACHED_SUCCESS = MEMCACHED_SUCCESS \<longleftrightarrow> - 1 < fd (server_of 0 c')" for i :: nat
    by (rule connect_iff_descriptor [OF c'])
       (simp_all add: closed_client_def example_client_def server_of_def zero_memcached_def open_server_def global_copy_flags_def)
  with c' show ?thesis by simp
qed

section \<open>UNIX sockets\<close>

text \<open>
  when a UNIX socket cannot be connected, its descriptor is kept: the next call of \<open>memcached_connect\<close> takes it for a
  connection and succeeds.
\<close>

lemma unix_failure_connects:
  assumes "i < length (servers (c_memc c))" and "fd (server_of i c) = - 1" and "conn_type (server_of i c) = MEMCACHED_CONNECTION_UNIX_SOCKET"
    and "retry_timeout (c_memc c) = 0" and "server_failure_limit (c_memc c) = 0"
    and "next_socket (c_sockets c) = (Inr (d, errnos, err, k), as)" and "unix_connect_loop errnos = Some e"
    and "length (c_str (hostname (server_of i c))) < 108"
  shows "\<exists>c1. memcached_connect E i c = Some (MEMCACHED_ERRNO, c1) \<and> memcached_connect E i c1 = Some (MEMCACHED_SUCCESS, c1)"
proof -
  define c0 where "c0 = modify i (\<lambda>p. p\<lparr>server_failure_counter := server_failure_counter p + 1\<rparr>)
    (modify i (\<lambda>p. p\<lparr>cached_errno := e\<rparr>)
      (modify i (\<lambda>p. p\<lparr>fd := int d\<rparr>) (c\<lparr>c_sockets := as, c_socks := (c_socks c)(int d := k)\<rparr>)))"
  have c0: "i < length (servers (c_memc c0))" "fd (server_of i c0) = int d" using assms(1) by (simp_all add: c0_def)
  then obtain c1 where c1: "last_disconnected E i c0 = Some c1"
    by (auto simp: last_disconnected_def at_server_do_def at_server_def)
  have "memcached_connect E i c = Some (MEMCACHED_ERRNO, c1)"
    using assms c1 by (simp add: memcached_connect_def retry_later_def unix_socket_connect_def Let_def flip: c0_def)
  moreover have "memcached_connect E i c1 = Some (MEMCACHED_SUCCESS, c1)"
    using last_disconnected_fd [OF c1] c0 by (simp add: memcached_connect_def)
  ultimately show ?thesis by blast
qed

lemma unix_failure_connects_witness:
  "\<exists>c1. memcached_connect example_env 0 (closed_client MEMCACHED_CONNECTION_UNIX_SOCKET) = Some (MEMCACHED_ERRNO, c1) \<and>
     memcached_connect example_env 0 c1 = Some (MEMCACHED_SUCCESS, c1)"
  using unix_failure_connects [of 0 "closed_client MEMCACHED_CONNECTION_UNIX_SOCKET" 7 "[111]" 0 "example_socket [10]"
      "[Socket 8 [] 0 (example_socket [10])]" 111 example_env]
  by (simp add: closed_client_def example_client_def server_of_def zero_memcached_def open_server_def zero_server_def c_str_def)

section \<open>Names that cannot be resolved for now\<close>

text \<open>
  after four temporary failures of \<open>getaddrinfo\<close> the loop of \<open>set_hostinfo\<close> ends as if it had succeeded: the
  pointer to the addresses, which was never set, is used.
\<close>

lemma lookup_again_undefined:
  assumes "fd (server_of i c) = - 1" and "conn_type (server_of i c) = MEMCACHED_CONNECTION_TCP \<or> conn_type (server_of i c) = MEMCACHED_CONNECTION_UDP"
    and "retry_timeout (c_memc c) = 0" and "server_failure_limit (c_memc c) = 0"
    and "\<not> sockaddr_inited (server_of i c) \<or> \<not> use_cache_lookups (flags (c_memc c))"
    and "c_lookups c = [Lookup_again, Lookup_again, Lookup_again, Lookup_again] @ as"
  shows "memcached_connect E i c = None"
  using assms
  by (auto simp: memcached_connect_def retry_later_def network_connect_def set_hostinfo_def eval_nat_numeral)

lemma lookup_again_undefined_witness:
  "memcached_connect example_env 0 ((closed_client MEMCACHED_CONNECTION_TCP)\<lparr>c_lookups := [Lookup_again, Lookup_again, Lookup_again, Lookup_again]\<rparr>) = None"
  using lookup_again_undefined [of 0 "(closed_client MEMCACHED_CONNECTION_TCP)\<lparr>c_lookups := [Lookup_again, Lookup_again, Lookup_again, Lookup_again]\<rparr>" "[]" example_env]
  by (simp add: closed_client_def example_client_def server_of_def zero_memcached_def open_server_def zero_server_def
      global_copy_flags_def)

end
