(* ===== verification/Client_Update.thy ===== *)
theory Client_Update
  imports Client_Store
begin

text \<open>
  \<open>delete.c\<close> and \<open>auto.c\<close>: deleting a value and counting with one, in both protocols.
\<close>

section \<open>\<open>delete.c\<close>\<close>

definition delete_line :: "memcached_st \<Rightarrow> byte list \<Rightarrow> u64 \<Rightarrow> bool \<Rightarrow> byte list" where
  "delete_line m key exptime noreply =
     bytes ''delete '' @ printed (prefix_key_length m) (prefix_key m) @ printed (length key) key @
     (if exptime \<noteq> 0 then [32] @ dec_digits (unat (ucast exptime :: u32)) else []) @
     (if noreply then bytes '' noreply'' else []) @ [13, 10]"

text \<open>
  Deleting at a later time is for old servers only. It makes sure of the connection, and with a server whose version is not known it
  asks for an answer whatever was set. An error, or the values of \<open>to_write\<close> and \<open>no_reply\<close>.
\<close>

definition delete_options ::
  "client_env \<Rightarrow> nat \<Rightarrow> u64 \<Rightarrow> client_st \<Rightarrow> ((memcached_return_t + bool \<times> bool) \<times> client_st) option" where
  "delete_options E i exptime c =
     (let to_write = (\<not> buffer_requests (flags (c_memc c))); noreply = no_reply (flags (c_memc c)); p = server_of i c
      in if exptime = 0 then Some (Inr (to_write, noreply), c)
         else if (major_version p = 1 \<and> 2 < minor_version p) \<or> 1 < major_version p
         then Some (Inl MEMCACHED_INVALID_ARGUMENTS, c)
         else do {
           (rc, c) \<leftarrow> memcached_connect E i c;
           if rc \<noteq> MEMCACHED_SUCCESS then Some (Inl rc, c)
           else if minor_version (server_of i c) = 0 \<and> (noreply \<or> \<not> to_write)
           then do {
             c \<leftarrow> (if noreply then at_server_do i (on_server memcached_server_response_increment) c else Some c);
             Some (Inr (True, False), c)
           }
           else Some (Inr (to_write, noreply), c)
         })"

definition delete_header :: "memcached_st \<Rightarrow> nat \<Rightarrow> byte \<Rightarrow> protocol_binary_request_header" where
  "delete_header m klen opcode =
     \<lparr>req_magic = PROTOCOL_BINARY_REQ, req_opcode = opcode, req_keylen = htons (of_nat (klen + prefix_key_length m)), req_extlen = 0,
      req_datatype = PROTOCOL_BINARY_RAW_BYTES, req_reserved = 0, req_bodylen = htonl (of_nat (klen + prefix_key_length m)),
      req_opaque = 0, req_cas = 0\<rparr>"

definition delete_vector :: "memcached_st \<Rightarrow> byte list \<Rightarrow> byte \<Rightarrow> byte list list" where
  "delete_vector m key opcode = [request_bytes (delete_header m (length key) opcode), prefix_of m, key]"

text \<open>A buffered datagram that does not fit any more is sent first; one that would never fit is refused.\<close>

definition fit_datagram :: "client_env \<Rightarrow> nat \<Rightarrow> bool \<Rightarrow> nat \<Rightarrow> client_st \<Rightarrow> (bool \<times> client_st) option" where
  "fit_datagram E i with_flush sz c =
     (if \<not> (use_udp (flags (c_memc c)) \<and> \<not> with_flush) then Some (True, c)
      else if MAX_UDP_DATAGRAM_LENGTH - UDP_DATAGRAM_HEADER_LENGTH < sz then Some (False, c)
      else if MAX_UDP_DATAGRAM_LENGTH < sz + write_buffer_offset (server_of i c)
      then map_option (\<lambda>(_, c). (True, c)) (flush_at E i c)
      else Some (True, c))"

definition binary_delete ::
  "client_env \<Rightarrow> nat \<Rightarrow> byte list \<Rightarrow> bool \<Rightarrow> client_st \<Rightarrow> (memcached_return_t \<times> client_st) option" where
  "binary_delete E i key with_flush c = do {
     let m = c_memc c;
     (fits, c) \<leftarrow> fit_datagram E i with_flush (24 + length key) c;
     if \<not> fits then Some (MEMCACHED_WRITE_FAILURE, c)
     else do {
       (rc, c) \<leftarrow> memcached_vdo E i
          (delete_vector m key (if no_reply (flags m) then PROTOCOL_BINARY_CMD_DELETEQ else PROTOCOL_BINARY_CMD_DELETE)) with_flush c;
       c \<leftarrow> (if rc \<noteq> MEMCACHED_SUCCESS then io_reset_at E i c else Some c);
       c \<leftarrow> send_replicas E (delete_vector m key PROTOCOL_BINARY_CMD_DELETEQ) with_flush (unat (number_of_replicas m)) i c;
       Some (rc, c)
     }
   }"

text \<open>The text request: an error, or \<open>to_write\<close> and \<open>no_reply\<close> for what follows, and the line.\<close>

definition text_delete ::
  "client_env \<Rightarrow> nat \<Rightarrow> byte list \<Rightarrow> u64 \<Rightarrow> client_st \<Rightarrow> ((memcached_return_t + bool \<times> bool \<times> byte list) \<times> client_st) option" where
  "text_delete E i key exptime c = do {
     (options, c) \<leftarrow> delete_options E i exptime c;
     case options of
       Inl rc \<Rightarrow> Some (Inl rc, c)
     | Inr (to_write, noreply) \<Rightarrow> do {
         let line = delete_line (c_memc c) key exptime noreply;
         if MEMCACHED_DEFAULT_COMMAND_SIZE \<le> length line then Some (Inl MEMCACHED_WRITE_FAILURE, c)
         else do {
           (fits, c) \<leftarrow> fit_datagram E i to_write (length line) c;
           if \<not> fits then Some (Inl MEMCACHED_WRITE_FAILURE, c)
           else do {
             (rc, c) \<leftarrow> memcached_do E i line to_write c;
             Some (if rc \<noteq> MEMCACHED_SUCCESS then Inl rc else Inr (to_write, noreply, line), c)
           }
         }
       }
   }"

definition memcached_delete_by_key ::
  "client_env \<Rightarrow> byte list \<Rightarrow> byte list \<Rightarrow> u64 \<Rightarrow> client_st \<Rightarrow> (memcached_return_t \<times> client_st) option" where
  "memcached_delete_by_key E master_key key exptime c =
     (let m = c_memc c; rc = memcached_validate_key_length (length key) (binary_protocol (flags m))
      in if rc \<noteq> MEMCACHED_SUCCESS then Some (rc, c)
         else if memcached_server_count m = 0 then Some (MEMCACHED_NO_SERVERS, c)
         else do {
           (i, c) \<leftarrow> locate E master_key c;
           let f = flags (c_memc c);
           (sent, c) \<leftarrow> (if \<not> binary_protocol f then text_delete E i key exptime c
              else if exptime \<noteq> 0 then Some (Inl MEMCACHED_INVALID_ARGUMENTS, c)
              else map_option (\<lambda>(rc, c). (if rc \<noteq> MEMCACHED_SUCCESS then Inl rc else Inr (\<not> buffer_requests f, no_reply f, []), c))
                     (binary_delete E i key (\<not> buffer_requests f) c));
           case sent of
             Inl rc \<Rightarrow> Some (rc, c)
           | Inr (to_write, noreply, line) \<Rightarrow> do {
               (rc, c) \<leftarrow> (if \<not> to_write then Some (MEMCACHED_BUFFERED, c)
                         else if noreply then Some (MEMCACHED_SUCCESS, c)
                         else map_option (\<lambda>((rc, _), c). (if rc = MEMCACHED_DELETED then MEMCACHED_SUCCESS else rc, c))
                                (response_at_server E i (command_buffer E line) c));
               c \<leftarrow> (case delete_trigger (c_memc c) of
                       None \<Rightarrow> Some c
                     | Some trigger \<Rightarrow> if rc = MEMCACHED_SUCCESS then ce_delete_trigger E trigger key c else Some c);
               Some (rc, c)
             }
         })"

definition memcached_delete where "memcached_delete E key = memcached_delete_by_key E key key"

section \<open>\<open>auto.c\<close>\<close>

definition MEMCACHED_EXPIRATION_NOT_ADD :: u32 where "MEMCACHED_EXPIRATION_NOT_ADD = 0xffffffff"

definition counter_line :: "memcached_st \<Rightarrow> byte list \<Rightarrow> byte list \<Rightarrow> u64 \<Rightarrow> byte list" where
  "counter_line m verb key off =
     verb @ [32] @ printed (prefix_key_length m) (prefix_key m) @ printed (length key) key @ [32] @ dec_digits (unat off) @ line_end m"

text \<open>
  The answer is looked at once more: what is not one of three messages is taken for the new value. The result of \<open>memcached_response\<close> is
  not used. The third component is what \<open>value\<close> points to.
\<close>

definition counter_answer :: "byte list \<Rightarrow> memcached_return_t \<times> u64" where
  "counter_answer buf =
     (if take 7 buf = bytes ''ERROR'' @ [13, 10] then (MEMCACHED_PROTOCOL_ERROR, 0)
      else if take 14 buf = bytes ''CLIENT_ERROR'' @ [13, 10] then (MEMCACHED_PROTOCOL_ERROR, 0)
      else if take 11 buf = bytes ''NOT_FOUND'' @ [13, 10] then (MEMCACHED_NOTFOUND, 0)
      else (MEMCACHED_SUCCESS, strtoul10 buf))"

definition text_incr_decr ::
  "client_env \<Rightarrow> byte list \<Rightarrow> byte list \<Rightarrow> byte list \<Rightarrow> u64 \<Rightarrow> u64 \<Rightarrow> client_st \<Rightarrow> ((memcached_return_t \<times> u64) \<times> client_st) option" where
  "text_incr_decr E verb master_key key off val c =
     (let m = c_memc c; noreply = no_reply (flags m)
      in if memcached_server_count m = 0 then Some ((MEMCACHED_NO_SERVERS, val), c)
         else if verify_key (flags m) \<and> memcached_key_test [key] = MEMCACHED_BAD_KEY_PROVIDED
         then Some ((MEMCACHED_BAD_KEY_PROVIDED, val), c)
         else do {
           (i, c) \<leftarrow> locate E master_key c;
           let line = counter_line (c_memc c) verb key off;
           if MEMCACHED_DEFAULT_COMMAND_SIZE \<le> length line then Some ((MEMCACHED_WRITE_FAILURE, val), c)
           else do {
             (rc, c) \<leftarrow> memcached_do E i line True c;
             if noreply \<or> rc \<noteq> MEMCACHED_SUCCESS then Some ((rc, val), c)
             else map_option (\<lambda>((_, buf), c). (counter_answer buf, c)) (response_at_server E i (command_buffer E line) c)
           }
         })"

definition counter_header :: "memcached_st \<Rightarrow> nat \<Rightarrow> byte \<Rightarrow> protocol_binary_request_header" where
  "counter_header m klen opcode =
     \<lparr>req_magic = PROTOCOL_BINARY_REQ, req_opcode = opcode, req_keylen = htons (of_nat (klen + prefix_key_length m)), req_extlen = 20,
      req_datatype = PROTOCOL_BINARY_RAW_BYTES, req_reserved = 0, req_bodylen = htonl (of_nat (klen + prefix_key_length m + 20)),
      req_opaque = 0, req_cas = 0\<rparr>"

definition counter_vector :: "memcached_st \<Rightarrow> byte list \<Rightarrow> byte \<Rightarrow> u64 \<Rightarrow> u64 \<Rightarrow> u32 \<Rightarrow> byte list list" where
  "counter_vector m key opcode off initial exptime =
     [request_bytes (counter_header m (length key) opcode) @ st_le64 (htonll off) @ st_le64 (htonll initial) @ st_le32 (htonl exptime),
      prefix_of m, key]"

definition quiet_counter :: "byte \<Rightarrow> byte" where
  "quiet_counter cmd =
     (if cmd = PROTOCOL_BINARY_CMD_DECREMENT then PROTOCOL_BINARY_CMD_DECREMENTQ
      else if cmd = PROTOCOL_BINARY_CMD_INCREMENT then PROTOCOL_BINARY_CMD_INCREMENTQ else cmd)"

definition binary_incr_decr ::
  "client_env \<Rightarrow> byte \<Rightarrow> byte list \<Rightarrow> byte list \<Rightarrow> u64 \<Rightarrow> u64 \<Rightarrow> u32 \<Rightarrow> u64 \<Rightarrow> client_st
   \<Rightarrow> ((memcached_return_t \<times> u64) \<times> client_st) option" where
  "binary_incr_decr E cmd master_key key off initial exptime val c =
     (let noreply = no_reply (flags (c_memc c))
      in if memcached_server_count (c_memc c) = 0 then Some ((MEMCACHED_NO_SERVERS, val), c)
         else do {
           (i, c) \<leftarrow> locate E master_key c;
           let cmd = (if noreply then quiet_counter cmd else cmd);
           (rc, c) \<leftarrow> memcached_vdo E i (counter_vector (c_memc c) key cmd off initial exptime) True c;
           if rc \<noteq> MEMCACHED_SUCCESS then map_option (\<lambda>c. ((rc, val), c)) (io_reset_at E i c)
           else if noreply then Some ((MEMCACHED_SUCCESS, val), c)
           else map_option (\<lambda>((rc, buf), c). ((rc, ld_le64 buf 0), c)) (response_at_server E i (st_le64 val) c)
         })"

definition memcached_increment_by_key ::
  "client_env \<Rightarrow> byte list \<Rightarrow> byte list \<Rightarrow> u64 \<Rightarrow> u64 \<Rightarrow> client_st \<Rightarrow> ((memcached_return_t \<times> u64) \<times> client_st) option" where
  "memcached_increment_by_key E master_key key off val c =
     (let f = flags (c_memc c); rc = memcached_validate_key_length (length key) (binary_protocol f)
      in if rc \<noteq> MEMCACHED_SUCCESS then Some ((rc, val), c)
         else if binary_protocol f
         then binary_incr_decr E PROTOCOL_BINARY_CMD_INCREMENT master_key key off 0 MEMCACHED_EXPIRATION_NOT_ADD val c
         else text_incr_decr E (bytes ''incr'') master_key key off val c)"

definition memcached_decrement_by_key ::
  "client_env \<Rightarrow> byte list \<Rightarrow> byte list \<Rightarrow> u64 \<Rightarrow> u64 \<Rightarrow> client_st \<Rightarrow> ((memcached_return_t \<times> u64) \<times> client_st) option" where
  "memcached_decrement_by_key E master_key key off val c =
     (let f = flags (c_memc c); rc = memcached_validate_key_length (length key) (binary_protocol f)
      in if rc \<noteq> MEMCACHED_SUCCESS then Some ((rc, val), c)
         else if binary_protocol f
         then binary_incr_decr E PROTOCOL_BINARY_CMD_DECREMENT master_key key off 0 MEMCACHED_EXPIRATION_NOT_ADD val c
         else text_incr_decr E (bytes ''decr'') master_key key off val c)"

definition memcached_increment where
  "memcached_increment E key (off :: u32) = memcached_increment_by_key E key key (ucast off)"

definition memcached_decrement where
  "memcached_decrement E key (off :: u32) = memcached_decrement_by_key E key key (ucast off)"

definition memcached_increment_with_initial_by_key ::
  "client_env \<Rightarrow> byte list \<Rightarrow> byte list \<Rightarrow> u64 \<Rightarrow> u64 \<Rightarrow> u64 \<Rightarrow> u64 \<Rightarrow> client_st \<Rightarrow> ((memcached_return_t \<times> u64) \<times> client_st) option" where
  "memcached_increment_with_initial_by_key E master_key key off initial exptime val c =
     (let f = flags (c_memc c); rc = memcached_validate_key_length (length key) (binary_protocol f)
      in if rc \<noteq> MEMCACHED_SUCCESS then Some ((rc, val), c)
         else if binary_protocol f
         then binary_incr_decr E PROTOCOL_BINARY_CMD_INCREMENT master_key key off initial (ucast exptime) val c
         else Some ((MEMCACHED_PROTOCOL_ERROR, val), c))"

definition memcached_decrement_with_initial_by_key ::
  "client_env \<Rightarrow> byte list \<Rightarrow> byte list \<Rightarrow> u64 \<Rightarrow> u64 \<Rightarrow> u64 \<Rightarrow> u64 \<Rightarrow> client_st \<Rightarrow> ((memcached_return_t \<times> u64) \<times> client_st) option" where
  "memcached_decrement_with_initial_by_key E master_key key off initial exptime val c =
     (let f = flags (c_memc c); rc = memcached_validate_key_length (length key) (binary_protocol f)
      in if rc \<noteq> MEMCACHED_SUCCESS then Some ((rc, val), c)
         else if binary_protocol f
         then binary_incr_decr E PROTOCOL_BINARY_CMD_DECREMENT master_key key off initial (ucast exptime) val c
         else Some ((MEMCACHED_PROTOCOL_ERROR, val), c))"

definition memcached_increment_with_initial where
  "memcached_increment_with_initial E key = memcached_increment_with_initial_by_key E key key"

definition memcached_decrement_with_initial where
  "memcached_decrement_with_initial E key = memcached_decrement_with_initial_by_key E key key"

section \<open>An answer that never comes\<close>

text \<open>The peer has closed the connection.\<close>

definition closed_by_peer :: "io_st \<Rightarrow> bool" where
  "closed_by_peer s \<longleftrightarrow> fd (server s) \<noteq> - 1 \<and> buffered (server s) = [] \<and> net_reads s = []"

lemma memcpy_at_empty [simp]: "memcpy_at b 0 [] = b"
  by (simp add: memcpy_at_def)

lemma response_closed:
  assumes "closed_by_peer s" and "\<not> binary_protocol (flags (memc s))" and "2 < length buf"
  shows "\<exists>t. memcached_read_one_response E buf res s = Some (MEMCACHED_UNKNOWN_READ_FAILURE, buf, res, t)"
proof -
  define s1 where "s1 = on_server memcached_server_response_decrement s"
  have memc: "memc s1 = memc s" by (simp add: s1_def)
  have empty: "read_buffer_length (server s1) = 0" "fd (server s1) \<noteq> - 1" "net_reads s1 = []"
    using assms(1) by (simp_all add: s1_def closed_by_peer_def buffered_def memcached_server_response_decrement_def)
  then have "fill_read_buffer E s1 = (MEMCACHED_UNKNOWN_READ_FAILURE, quit_dead_server E s1)"
    by (subst fill_read_buffer.simps) (simp add: sys_read_def)
  then have "memcached_io_read E 1 s1 = (MEMCACHED_UNKNOWN_READ_FAILURE, [], quit_dead_server E s1)"
    using empty(1) by (simp add: memcached_io_read.simps refill_def)
  then have "memcached_io_readline E (length buf) s1 = (MEMCACHED_UNKNOWN_READ_FAILURE, [], quit_dead_server E s1)"
    using empty(1) assms(3) by (subst memcached_io_readline_def, subst readline_loop.simps) auto
  then show ?thesis
    using assms(2) memc by (auto simp: memcached_read_one_response_def textual_read_one_response_def resets_io_def Let_def simp flip: s1_def)
qed

lemma command_buffer_prefix:
  assumes "n \<le> length s" and "n \<le> MEMCACHED_DEFAULT_COMMAND_SIZE"
  shows "take n (command_buffer E s) = take n s"
  using assms by (simp add: command_buffer_def memcpy_at_def min_def)

text \<open>
  with the text protocol an increment whose answer never comes, because the server has closed the connection, is
  reported as a success, and the new value of the counter as 0.
\<close>

lemma increment_without_answer:
  assumes "key \<noteq> []" and "length key \<le> 250" and "memcached_server_count (c_memc c) \<noteq> 0"
    and "verify_key (flags (c_memc c)) \<longrightarrow> memcached_key_test [key] = MEMCACHED_SUCCESS" and "\<not> binary_protocol (flags (c_memc c))"
    and "locate E master c = Some (i, c1)" and "flags (c_memc c1) = flags (c_memc c)" and "one_by_one (flags (c_memc c))"
    and "length (counter_line (c_memc c1) (bytes ''incr'') key off) < MEMCACHED_DEFAULT_COMMAND_SIZE"
    and "idle i (length (counter_line (c_memc c1) (bytes ''incr'') key off)) c1" and "closed_by_peer (view i c1)"
  shows "\<exists>c'. memcached_increment_by_key E master key off val c = Some ((MEMCACHED_SUCCESS, 0), c')"
proof -
  let ?line = "counter_line (c_memc c1) (bytes ''incr'') key off"
  from memcached_do_accepts [of i c1 ?line E] assms(10) obtain c2 s where
    d: "memcached_do E i ?line True c1 = Some (MEMCACHED_SUCCESS, c2)" "connected i c2" "requested ?line (view i c1) s"
      "view i c2 = s\<lparr>memc := c_memc c2\<rparr>" "c2 = put i (fd (server_of i c1)) s c1" by (auto simp: idle_def)
  define v where "v = view i c2"
  have v: "closed_by_peer v" "flags (memc v) = flags (c_memc c)" "cursor_active (server v) = 1"
    using d(3-5) assms(7,8,10,11) by (auto simp: v_def closed_by_peer_def requested_def c_memc_put idle_def one_by_one_def)
  let ?buf = "command_buffer E ?line"
  obtain t where "memcached_read_one_response (ce_io E) ?buf (result (memc v)) v = Some (MEMCACHED_UNKNOWN_READ_FAILURE, ?buf, result (memc v), t)"
    using response_closed [OF v(1), of ?buf] v(2) assms(5) by (auto simp: MEMCACHED_DEFAULT_COMMAND_SIZE_def)
  then have "\<exists>c3. response_at_server E i ?buf c2 = Some ((MEMCACHED_UNKNOWN_READ_FAILURE, ?buf), c3)"
    using response_single [of v] v(2,3) assms(8) d(2)
    by (simp add: response_at_server_def at_server_def with_root_result_def one_by_one_def connected_def flip: v_def)
  then obtain c3 where r: "response_at_server E i ?buf c2 = Some ((MEMCACHED_UNKNOWN_READ_FAILURE, ?buf), c3)" by blast
  have i: "take 1 ?buf = [105]"
    using command_buffer_prefix [of 1 ?line E] by (simp add: counter_line_def bytes_def MEMCACHED_DEFAULT_COMMAND_SIZE_def)
  then obtain rest where buf: "?buf = 105 # rest" by (cases ?buf) auto
  have "strtoul10 (105 # rest) = 0"
    by (simp add: strtoul10_def c_str_def isspace_def isdigit_def Let_def digits_value_def)
  then have "counter_answer ?buf = (MEMCACHED_SUCCESS, 0)"
    unfolding buf by (simp add: counter_answer_def bytes_def)
  then have "text_incr_decr E (bytes ''incr'') master key off val c = Some ((MEMCACHED_SUCCESS, 0), c3)"
    using assms(3-9) d(1) r by (simp add: text_incr_decr_def one_by_one_def Let_def)
  then show ?thesis
    using assms(1,2,5) by (simp add: memcached_increment_by_key_def memcached_validate_key_length_def MEMCACHED_MAX_KEY_def)
qed

definition gone_client :: client_st where
  "gone_client = (example_client global_copy_flags [open_server] [10])\<lparr>c_socks := (\<lambda>_. (example_socket [10])\<lparr>sock_reads := []\<rparr>)\<rparr>"

lemma increment_without_answer_witness:
  "\<forall>E. \<exists>c'. memcached_increment_by_key E [107] [107] 5 9 gone_client = Some ((MEMCACHED_SUCCESS, 0), c')"
proof
  fix E
  have loc: "locate E [107] gone_client = Some (0, gone_client)"
    by (simp add: gone_client_def locate_def memcached_generate_hash_with_redistribution_def regen_for_auto_eject_def is_auto_eject_host_def
      generate_hash_wrapper_def dispatch_host_def memcached_server_count_def example_client_def zero_memcached_def modulo_def
      global_copy_flags_def)
  have line: "length (counter_line (c_memc gone_client) (bytes ''incr'') [107] 5) = 10"
    by (simp add: gone_client_def example_client_def counter_line_def printed_def zero_memcached_def line_end_def global_copy_flags_def
        bytes_def c_str_def dec_digits.simps)
  have idle: "idle 0 10 gone_client" "closed_by_peer (view 0 gone_client)"
    by (simp_all add: idle_def connected_def view_def server_of_def gone_client_def example_client_def example_socket_def open_server_def zero_server_def
      zero_memcached_def healthy_def input_wf_def ready_def output_wf_def accepting_def closed_by_peer_def buffered_def buffer_bytes_def
      MEMCACHED_MAX_BUFFER_def)
  have flags: "\<not> binary_protocol (flags (c_memc gone_client))" "one_by_one (flags (c_memc gone_client))"
    "\<not> verify_key (flags (c_memc gone_client))" "memcached_server_count (c_memc gone_client) \<noteq> 0"
    by (simp_all add: gone_client_def global_copy_flags_def one_by_one_def)
  show "\<exists>c'. memcached_increment_by_key E [107] [107] 5 9 gone_client = Some ((MEMCACHED_SUCCESS, 0), c')"
    by (rule increment_without_answer [OF _ _ flags(4) _ flags(1) loc])
       (simp_all add: flags line idle MEMCACHED_DEFAULT_COMMAND_SIZE_def)
qed

end
