(* ===== verification/Client_Behavior.thy ===== *)
theory Client_Behavior
  imports Client_Store
begin

text \<open>
  \<open>behavior.c\<close> and \<open>callback.c\<close>: the settings of a client. A number of 64 bits is given for each of them; enumerations are
  their positions. Settings that concern the sockets close all connections.
\<close>

definition on_memc :: "(memcached_st \<Rightarrow> memcached_st) \<Rightarrow> client_st \<Rightarrow> client_st" where
  "on_memc f c = c\<lparr>c_memc := f (c_memc c)\<rparr>"

definition on_flags :: "(memcached_flags \<Rightarrow> memcached_flags) \<Rightarrow> client_st \<Rightarrow> client_st" where
  "on_flags f = on_memc (\<lambda>m. m\<lparr>flags := f (flags m)\<rparr>)"

lemma on_memc_simps [simp]:
  "c_memc (on_memc f c) = f (c_memc c)" "c_socks (on_memc f c) = c_socks c" "c_sockets (on_memc f c) = c_sockets c"
  by (simp_all add: on_memc_def)

lemma on_flags_simps [simp]: "c_memc (on_flags f c) = (c_memc c)\<lparr>flags := f (flags (c_memc c))\<rparr>"
  by (simp add: on_flags_def)

section \<open>Numbers of enumerations\<close>

definition set_flag :: "u64 \<Rightarrow> bool" where "set_flag data \<longleftrightarrow> data \<noteq> 0"

definition hash_algorithms :: "hashkit_hash_algorithm_t list" where
  "hash_algorithms =
     [HASHKIT_HASH_DEFAULT, HASHKIT_HASH_MD5, HASHKIT_HASH_CRC, HASHKIT_HASH_FNV1_64, HASHKIT_HASH_FNV1A_64, HASHKIT_HASH_FNV1_32,
      HASHKIT_HASH_FNV1A_32, HASHKIT_HASH_HSIEH, HASHKIT_HASH_MURMUR, HASHKIT_HASH_JENKINS, HASHKIT_HASH_CUSTOM, HASHKIT_HASH_MAX]"

definition distributions :: "memcached_server_distribution_t list" where
  "distributions =
     [MEMCACHED_DISTRIBUTION_MODULA, MEMCACHED_DISTRIBUTION_CONSISTENT, MEMCACHED_DISTRIBUTION_CONSISTENT_KETAMA,
      MEMCACHED_DISTRIBUTION_RANDOM, MEMCACHED_DISTRIBUTION_CONSISTENT_KETAMA_SPY]"

text \<open>The conversion of a number to an enumeration keeps 32 bits of it.\<close>

definition enumerated :: "'a list \<Rightarrow> u64 \<Rightarrow> 'a option" where
  "enumerated xs data = (let n = unat (ucast data :: u32) in if n < length xs then Some (xs ! n) else None)"

fun number_in :: "'a list \<Rightarrow> 'a \<Rightarrow> u64" where
  "number_in [] x = 0"
| "number_in (y # ys) x = (if x = y then 0 else 1 + number_in ys x)"

section \<open>Distribution and hashes\<close>

definition memcached_behavior_set_distribution ::
  "client_env \<Rightarrow> memcached_server_distribution_t option \<Rightarrow> client_st \<Rightarrow> (memcached_return_t \<times> client_st) option" where
  "memcached_behavior_set_distribution E type c =
     (case type of
        None \<Rightarrow> Some (MEMCACHED_FAILURE, c)
      | Some d \<Rightarrow> map_option (\<lambda>(_, m). (MEMCACHED_SUCCESS, c\<lparr>c_memc := m\<rparr>))
                    (run_distribution (ce_memc E) ((c_memc c)\<lparr>distribution := d\<rparr>)))"

definition memcached_behavior_get_distribution :: "client_st \<Rightarrow> memcached_server_distribution_t" where
  "memcached_behavior_get_distribution c = distribution (c_memc c)"

text \<open>A number behind the last algorithm fails, as the last one, which is none, does.\<close>

definition hash_result :: "hashkit_return_t \<Rightarrow> memcached_return_t" where
  "hash_result rc = (if rc = HASHKIT_SUCCESS then MEMCACHED_SUCCESS else MEMCACHED_FAILURE)"

definition algorithm_of :: "u64 \<Rightarrow> hashkit_hash_algorithm_t" where
  "algorithm_of data = (case enumerated hash_algorithms data of None \<Rightarrow> HASHKIT_HASH_MAX | Some a \<Rightarrow> a)"

definition memcached_behavior_set_key_hash ::
  "client_env \<Rightarrow> hashkit_hash_algorithm_t \<Rightarrow> client_st \<Rightarrow> memcached_return_t \<times> client_st" where
  "memcached_behavior_set_key_hash E type c =
     (case hashkit_set_function (ce_hsieh E) (hashkit (c_memc c)) type of
        (rc, h) \<Rightarrow> (hash_result rc, on_memc (\<lambda>m. m\<lparr>hashkit := h\<rparr>) c))"

definition memcached_behavior_get_key_hash :: "client_env \<Rightarrow> client_st \<Rightarrow> hashkit_hash_algorithm_t" where
  "memcached_behavior_get_key_hash E c = hashkit_get_function (ce_hsieh E) (hashkit (c_memc c))"

definition memcached_behavior_set_distribution_hash ::
  "client_env \<Rightarrow> hashkit_hash_algorithm_t \<Rightarrow> client_st \<Rightarrow> memcached_return_t \<times> client_st" where
  "memcached_behavior_set_distribution_hash E type c =
     (case hashkit_set_function (ce_hsieh E) (distribution_hashkit (c_memc c)) type of
        (rc, h) \<Rightarrow> (hash_result rc, on_memc (\<lambda>m. m\<lparr>distribution_hashkit := h\<rparr>) c))"

definition memcached_behavior_get_distribution_hash :: "client_env \<Rightarrow> client_st \<Rightarrow> hashkit_hash_algorithm_t" where
  "memcached_behavior_get_distribution_hash E c = hashkit_get_function (ce_hsieh E) (distribution_hashkit (c_memc c))"

text \<open>Both hashes, whatever becomes of them.\<close>

definition set_hashes :: "client_env \<Rightarrow> hashkit_hash_algorithm_t \<Rightarrow> client_st \<Rightarrow> client_st" where
  "set_hashes E a c = snd (memcached_behavior_set_distribution_hash E a (snd (memcached_behavior_set_key_hash E a c)))"

definition behavior_ketama :: "client_env \<Rightarrow> u64 \<Rightarrow> client_st \<Rightarrow> (memcached_return_t \<times> client_st) option" where
  "behavior_ketama E data c =
     map_option (\<lambda>(_, c). (MEMCACHED_SUCCESS, c))
       (if data \<noteq> 0
        then memcached_behavior_set_distribution E (Some MEMCACHED_DISTRIBUTION_CONSISTENT_KETAMA) (set_hashes E HASHKIT_HASH_MD5 c)
        else memcached_behavior_set_distribution E (Some MEMCACHED_DISTRIBUTION_MODULA) (set_hashes E HASHKIT_HASH_DEFAULT c))"

section \<open>Holding back packets\<close>

datatype memcached_ternary_t = MEM_NOT | MEM_FALSE | MEM_TRUE

definition test_cork :: "client_env \<Rightarrow> nat \<Rightarrow> bool \<Rightarrow> client_st \<Rightarrow> memcached_ternary_t \<times> client_st" where
  "test_cork E i enable c =
     (if conn_type (server_of i c) \<noteq> MEMCACHED_CONNECTION_TCP then (MEM_FALSE, c)
      else case ce_cork E enable of
             None \<Rightarrow> (MEM_TRUE, c)
           | Some e \<Rightarrow> (MEM_FALSE, modify i (\<lambda>p. p\<lparr>cached_errno := e\<rparr>) c))"

definition quit_at :: "client_env \<Rightarrow> nat \<Rightarrow> client_st \<Rightarrow> client_st option" where
  "quit_at E i c = map_option snd (at_server i (\<lambda>s. map_option (Pair ()) (memcached_quit_server (ce_io E) False s)) c)"

definition behavior_cork :: "client_env \<Rightarrow> u64 \<Rightarrow> client_st \<Rightarrow> (memcached_return_t \<times> client_st) option" where
  "behavior_cork E data c =
     (if data = 0 then Some (MEMCACHED_SUCCESS, on_flags (\<lambda>f. f\<lparr>cork := False\<rparr>) c)
      else if servers (c_memc c) = [] then Some (MEMCACHED_NO_SERVERS, c)
      else do {
        (rc, c) \<leftarrow> memcached_connect E 0 c;
        if rc \<noteq> MEMCACHED_SUCCESS then Some (rc, c)
        else case test_cork E 0 True c of
               (MEM_FALSE, c) \<Rightarrow> Some (if memc_cached_errno (c_memc c) \<noteq> 0 then MEMCACHED_ERRNO else MEMCACHED_FAILURE, c)
             | (MEM_NOT, c) \<Rightarrow> Some (MEMCACHED_NOT_SUPPORTED, c)
             | (MEM_TRUE, c) \<Rightarrow>
                 (case test_cork E 0 False c of
                    (enabled, c) \<Rightarrow>
                      if enabled = MEM_FALSE then map_option (Pair MEMCACHED_ERRNO) (quit_at E 0 c)
                      else map_option (Pair MEMCACHED_SUCCESS)
                             (memcached_quit E (on_flags (\<lambda>f. f\<lparr>cork := True, tcp_nodelay := True\<rparr>) c)))
      })"

section \<open>Setting a behavior\<close>

text \<open>The plain settings change the client object only; the ones of a socket close the connections.\<close>

definition done_with :: "client_st \<Rightarrow> (memcached_return_t \<times> client_st) option" where
  "done_with c = Some (MEMCACHED_SUCCESS, c)"

definition then_quit :: "client_env \<Rightarrow> client_st \<Rightarrow> (memcached_return_t \<times> client_st) option" where
  "then_quit E c = map_option (Pair MEMCACHED_SUCCESS) (memcached_quit E c)"

fun memcached_behavior_set ::
  "client_env \<Rightarrow> memcached_behavior_t \<Rightarrow> u64 \<Rightarrow> client_st \<Rightarrow> (memcached_return_t \<times> client_st) option" where
  "memcached_behavior_set E MEMCACHED_BEHAVIOR_NUMBER_OF_REPLICAS data c = done_with (on_memc (\<lambda>m. m\<lparr>number_of_replicas := ucast data\<rparr>) c)"
| "memcached_behavior_set E MEMCACHED_BEHAVIOR_IO_MSG_WATERMARK data c = done_with (on_memc (\<lambda>m. m\<lparr>io_msg_watermark := ucast data\<rparr>) c)"
| "memcached_behavior_set E MEMCACHED_BEHAVIOR_IO_BYTES_WATERMARK data c = done_with (on_memc (\<lambda>m. m\<lparr>io_bytes_watermark := ucast data\<rparr>) c)"
| "memcached_behavior_set E MEMCACHED_BEHAVIOR_IO_KEY_PREFETCH data c = done_with (on_memc (\<lambda>m. m\<lparr>io_key_prefetch := ucast data\<rparr>) c)"
| "memcached_behavior_set E MEMCACHED_BEHAVIOR_SND_TIMEOUT data c = done_with (on_memc (\<lambda>m. m\<lparr>snd_timeout := ucast data\<rparr>) c)"
| "memcached_behavior_set E MEMCACHED_BEHAVIOR_RCV_TIMEOUT data c = done_with (on_memc (\<lambda>m. m\<lparr>rcv_timeout := ucast data\<rparr>) c)"
| "memcached_behavior_set E MEMCACHED_BEHAVIOR_SERVER_FAILURE_LIMIT data c = done_with (on_memc (\<lambda>m. m\<lparr>server_failure_limit := ucast data\<rparr>) c)"
| "memcached_behavior_set E MEMCACHED_BEHAVIOR_BINARY_PROTOCOL data c = do {
     c \<leftarrow> memcached_quit E c;
     done_with (on_flags (\<lambda>f. f\<lparr>verify_key := verify_key f \<and> data = 0, binary_protocol := set_flag data\<rparr>) c)
   }"
| "memcached_behavior_set E MEMCACHED_BEHAVIOR_SUPPORT_CAS data c = done_with (on_flags (\<lambda>f. f\<lparr>support_cas := set_flag data\<rparr>) c)"
| "memcached_behavior_set E MEMCACHED_BEHAVIOR_NO_BLOCK data c = then_quit E (on_flags (\<lambda>f. f\<lparr>no_block := set_flag data\<rparr>) c)"
| "memcached_behavior_set E MEMCACHED_BEHAVIOR_BUFFER_REQUESTS data c = then_quit E (on_flags (\<lambda>f. f\<lparr>buffer_requests := set_flag data\<rparr>) c)"
| "memcached_behavior_set E MEMCACHED_BEHAVIOR_USE_UDP data c =
     (if memcached_server_count (c_memc c) \<noteq> 0 then Some (MEMCACHED_FAILURE, c)
      else done_with (on_flags (\<lambda>f. f\<lparr>use_udp := set_flag data, no_reply := no_reply f \<or> data \<noteq> 0\<rparr>) c))"
| "memcached_behavior_set E MEMCACHED_BEHAVIOR_TCP_NODELAY data c = then_quit E (on_flags (\<lambda>f. f\<lparr>tcp_nodelay := set_flag data\<rparr>) c)"
| "memcached_behavior_set E MEMCACHED_BEHAVIOR_TCP_KEEPALIVE data c = then_quit E (on_flags (\<lambda>f. f\<lparr>tcp_keepalive := set_flag data\<rparr>) c)"
| "memcached_behavior_set E MEMCACHED_BEHAVIOR_DISTRIBUTION data c = memcached_behavior_set_distribution E (enumerated distributions data) c"
| "memcached_behavior_set E MEMCACHED_BEHAVIOR_KETAMA data c = behavior_ketama E data c"
| "memcached_behavior_set E MEMCACHED_BEHAVIOR_KETAMA_WEIGHTED data c =
     memcached_behavior_set_distribution E (Some MEMCACHED_DISTRIBUTION_CONSISTENT_KETAMA)
       (on_flags (\<lambda>f. f\<lparr>ketama_weighted := set_flag data\<rparr>) (set_hashes E HASHKIT_HASH_MD5 c))"
| "memcached_behavior_set E MEMCACHED_BEHAVIOR_HASH data c = Some (memcached_behavior_set_key_hash E (algorithm_of data) c)"
| "memcached_behavior_set E MEMCACHED_BEHAVIOR_KETAMA_HASH data c = Some (memcached_behavior_set_distribution_hash E (algorithm_of data) c)"
| "memcached_behavior_set E MEMCACHED_BEHAVIOR_CACHE_LOOKUPS data c = then_quit E (on_flags (\<lambda>f. f\<lparr>use_cache_lookups := set_flag data\<rparr>) c)"
| "memcached_behavior_set E MEMCACHED_BEHAVIOR_VERIFY_KEY data c =
     (if binary_protocol (flags (c_memc c)) then Some (MEMCACHED_FAILURE, c)
      else done_with (on_flags (\<lambda>f. f\<lparr>verify_key := set_flag data\<rparr>) c))"
| "memcached_behavior_set E MEMCACHED_BEHAVIOR_SORT_HOSTS data c =
     map_option (\<lambda>(_, m). (MEMCACHED_SUCCESS, c\<lparr>c_memc := m\<rparr>))
       (run_distribution (ce_memc E) (c_memc (on_flags (\<lambda>f. f\<lparr>use_sort_hosts := set_flag data\<rparr>) c)))"
| "memcached_behavior_set E MEMCACHED_BEHAVIOR_POLL_TIMEOUT data c = done_with (on_memc (\<lambda>m. m\<lparr>poll_timeout := ucast data\<rparr>) c)"
| "memcached_behavior_set E MEMCACHED_BEHAVIOR_CONNECT_TIMEOUT data c = done_with (on_memc (\<lambda>m. m\<lparr>connect_timeout := ucast data\<rparr>) c)"
| "memcached_behavior_set E MEMCACHED_BEHAVIOR_RETRY_TIMEOUT data c = done_with (on_memc (\<lambda>m. m\<lparr>retry_timeout := ucast data\<rparr>) c)"
| "memcached_behavior_set E MEMCACHED_BEHAVIOR_SOCKET_SEND_SIZE data c = then_quit E (on_memc (\<lambda>m. m\<lparr>send_size := ucast data\<rparr>) c)"
| "memcached_behavior_set E MEMCACHED_BEHAVIOR_SOCKET_RECV_SIZE data c = then_quit E (on_memc (\<lambda>m. m\<lparr>recv_size := ucast data\<rparr>) c)"
| "memcached_behavior_set E MEMCACHED_BEHAVIOR_TCP_KEEPIDLE data c = then_quit E (on_memc (\<lambda>m. m\<lparr>tcp_keepidle := ucast data\<rparr>) c)"
| "memcached_behavior_set E MEMCACHED_BEHAVIOR_USER_DATA data c = Some (MEMCACHED_FAILURE, c)"
| "memcached_behavior_set E MEMCACHED_BEHAVIOR_HASH_WITH_PREFIX_KEY data c = done_with (on_flags (\<lambda>f. f\<lparr>hash_with_prefix_key := set_flag data\<rparr>) c)"
| "memcached_behavior_set E MEMCACHED_BEHAVIOR_NOREPLY data c = done_with (on_flags (\<lambda>f. f\<lparr>no_reply := set_flag data\<rparr>) c)"
| "memcached_behavior_set E MEMCACHED_BEHAVIOR_AUTO_EJECT_HOSTS data c = done_with (on_flags (\<lambda>f. f\<lparr>auto_eject_hosts := set_flag data\<rparr>) c)"
| "memcached_behavior_set E MEMCACHED_BEHAVIOR_RANDOMIZE_REPLICA_READ data c = done_with (on_flags (\<lambda>f. f\<lparr>randomize_replica_read := set_flag data\<rparr>) c)"
| "memcached_behavior_set E MEMCACHED_BEHAVIOR_CORK data c = behavior_cork E data c"
| "memcached_behavior_set E MEMCACHED_BEHAVIOR_MAX data c = Some (MEMCACHED_FAILURE, c)"

section \<open>Reading a behavior\<close>

definition as_number :: "bool \<Rightarrow> u64" where "as_number b = (if b then 1 else 0)"

text \<open>The size of a buffer of the first socket, when none was set; zero when it cannot be had.\<close>

definition socket_size ::
  "client_env \<Rightarrow> bool \<Rightarrow> 32 word \<Rightarrow> client_st \<Rightarrow> (u64 \<times> client_st) option" where
  "socket_size E sending sz c =
     (if sz \<noteq> - 1 then Some (scast sz, c)
      else if servers (c_memc c) = [] then Some (0, c)
      else do {
        (rc, c) \<leftarrow> memcached_connect E 0 c;
        if rc \<noteq> MEMCACHED_SUCCESS then Some (0, c)
        else Some (case ce_buffer_size E sending (fd (server_of 0 c)) of None \<Rightarrow> 0 | Some n \<Rightarrow> scast n, c)
      })"

fun behavior_number :: "client_env \<Rightarrow> memcached_behavior_t \<Rightarrow> memcached_st \<Rightarrow> u64" where
  "behavior_number E MEMCACHED_BEHAVIOR_NUMBER_OF_REPLICAS m = ucast (number_of_replicas m)"
| "behavior_number E MEMCACHED_BEHAVIOR_IO_MSG_WATERMARK m = ucast (io_msg_watermark m)"
| "behavior_number E MEMCACHED_BEHAVIOR_IO_BYTES_WATERMARK m = ucast (io_bytes_watermark m)"
| "behavior_number E MEMCACHED_BEHAVIOR_IO_KEY_PREFETCH m = ucast (io_key_prefetch m)"
| "behavior_number E MEMCACHED_BEHAVIOR_BINARY_PROTOCOL m = as_number (binary_protocol (flags m))"
| "behavior_number E MEMCACHED_BEHAVIOR_SUPPORT_CAS m = as_number (support_cas (flags m))"
| "behavior_number E MEMCACHED_BEHAVIOR_CACHE_LOOKUPS m = as_number (use_cache_lookups (flags m))"
| "behavior_number E MEMCACHED_BEHAVIOR_NO_BLOCK m = as_number (no_block (flags m))"
| "behavior_number E MEMCACHED_BEHAVIOR_BUFFER_REQUESTS m = as_number (buffer_requests (flags m))"
| "behavior_number E MEMCACHED_BEHAVIOR_USE_UDP m = as_number (use_udp (flags m))"
| "behavior_number E MEMCACHED_BEHAVIOR_TCP_NODELAY m = as_number (tcp_nodelay (flags m))"
| "behavior_number E MEMCACHED_BEHAVIOR_VERIFY_KEY m = as_number (verify_key (flags m))"
| "behavior_number E MEMCACHED_BEHAVIOR_KETAMA_WEIGHTED m = as_number (ketama_weighted (flags m))"
| "behavior_number E MEMCACHED_BEHAVIOR_DISTRIBUTION m = number_in distributions (distribution m)"
| "behavior_number E MEMCACHED_BEHAVIOR_KETAMA m = as_number (distribution m = MEMCACHED_DISTRIBUTION_CONSISTENT_KETAMA)"
| "behavior_number E MEMCACHED_BEHAVIOR_HASH m = number_in hash_algorithms (hashkit_get_function (ce_hsieh E) (hashkit m))"
| "behavior_number E MEMCACHED_BEHAVIOR_KETAMA_HASH m =
     number_in hash_algorithms (hashkit_get_function (ce_hsieh E) (distribution_hashkit m))"
| "behavior_number E MEMCACHED_BEHAVIOR_SERVER_FAILURE_LIMIT m = ucast (server_failure_limit m)"
| "behavior_number E MEMCACHED_BEHAVIOR_SORT_HOSTS m = as_number (use_sort_hosts (flags m))"
| "behavior_number E MEMCACHED_BEHAVIOR_POLL_TIMEOUT m = scast (poll_timeout m)"
| "behavior_number E MEMCACHED_BEHAVIOR_CONNECT_TIMEOUT m = scast (connect_timeout m)"
| "behavior_number E MEMCACHED_BEHAVIOR_RETRY_TIMEOUT m = scast (retry_timeout m)"
| "behavior_number E MEMCACHED_BEHAVIOR_SND_TIMEOUT m = scast (snd_timeout m)"
| "behavior_number E MEMCACHED_BEHAVIOR_RCV_TIMEOUT m = scast (rcv_timeout m)"
| "behavior_number E MEMCACHED_BEHAVIOR_TCP_KEEPIDLE m = ucast (tcp_keepidle m)"
| "behavior_number E MEMCACHED_BEHAVIOR_SOCKET_SEND_SIZE m = scast (send_size m)"
| "behavior_number E MEMCACHED_BEHAVIOR_SOCKET_RECV_SIZE m = scast (recv_size m)"
| "behavior_number E MEMCACHED_BEHAVIOR_USER_DATA m = 1"
| "behavior_number E MEMCACHED_BEHAVIOR_HASH_WITH_PREFIX_KEY m = as_number (hash_with_prefix_key (flags m))"
| "behavior_number E MEMCACHED_BEHAVIOR_NOREPLY m = as_number (no_reply (flags m))"
| "behavior_number E MEMCACHED_BEHAVIOR_AUTO_EJECT_HOSTS m = as_number (auto_eject_hosts (flags m))"
| "behavior_number E MEMCACHED_BEHAVIOR_RANDOMIZE_REPLICA_READ m = as_number (randomize_replica_read (flags m))"
| "behavior_number E MEMCACHED_BEHAVIOR_CORK m = as_number (cork (flags m))"
| "behavior_number E MEMCACHED_BEHAVIOR_TCP_KEEPALIVE m = as_number (tcp_keepalive (flags m))"
| "behavior_number E MEMCACHED_BEHAVIOR_MAX m = 0"

definition memcached_behavior_get ::
  "client_env \<Rightarrow> memcached_behavior_t \<Rightarrow> client_st \<Rightarrow> (u64 \<times> client_st) option" where
  "memcached_behavior_get E flag c =
     (if flag = MEMCACHED_BEHAVIOR_SOCKET_SEND_SIZE then socket_size E True (send_size (c_memc c)) c
      else if flag = MEMCACHED_BEHAVIOR_SOCKET_RECV_SIZE then socket_size E False (recv_size (c_memc c)) c
      else Some (behavior_number E flag (c_memc c), c))"

end
