(* ===== verification/Client_Fetch.thy ===== *)
theory Client_Fetch
  imports Client_Behavior
begin

text \<open>
  \<open>fetch.c\<close>: reading the values that were asked for. The results go into the result of the client, into one of the caller, or into
  a new one. The loops over the servers and over the results are partial functions: \<open>None\<close> also stands for not ending.
\<close>

section \<open>One response\<close>

text \<open>The result of the client object is \<open>None\<close> here, the one of the caller is carried along.\<close>

definition response_into ::
  "client_env \<Rightarrow> nat \<Rightarrow> memcached_result_st option \<Rightarrow> client_st
   \<Rightarrow> ((memcached_return_t \<times> memcached_result_st option) \<times> client_st) option" where
  "response_into E i own c =
     (let buf = local_buffer (ce_io E) MEMCACHED_DEFAULT_COMMAND_SIZE
      in case own of
           None \<Rightarrow> map_option (\<lambda>((rc, _), c). ((rc, None), c)) (response_at_server E i buf c)
         | Some res \<Rightarrow>
             at_server i (\<lambda>s. map_option (\<lambda>(rc, _, res, s). ((rc, Some res), s)) (memcached_response (ce_io E) buf res s)) c)"

section \<open>\<open>memcached_fetch_result\<close>\<close>

text \<open>Whether a result is returned, the value of \<open>error\<close>, and the result of the caller.\<close>

partial_function (option) fetch_loop ::
  "client_env \<Rightarrow> memcached_result_st option \<Rightarrow> memcached_return_t \<Rightarrow> client_st
   \<Rightarrow> ((bool \<times> memcached_return_t \<times> memcached_result_st option) \<times> client_st) option" where
  "fetch_loop E own error c =
     (case memcached_io_get_readable_server c of
        (None, c) \<Rightarrow> Some ((False, error, own), c)
      | (Some i, c) \<Rightarrow>
          Option.bind (response_into E i own c) (\<lambda>((error, own), c).
            if error = MEMCACHED_SUCCESS then Some ((True, error, own), c)
            else if error = MEMCACHED_END then fetch_loop E own error (modify i memcached_server_response_reset c)
            else if error = MEMCACHED_NOTFOUND then fetch_loop E own error c
            else Some ((False, error, own), c)))"

text \<open>The result of the client, one of the caller, or \<open>NULL\<close>.\<close>

datatype result_arg = Client_result | Caller_result memcached_result_st | No_result

text \<open>Without a value, an allocated result is freed and any other one is emptied.\<close>

definition fetch_ended :: "memcached_result_st option \<Rightarrow> client_st \<Rightarrow> memcached_result_st option \<times> client_st" where
  "fetch_ended own c =
     (let emptied = (\<lambda>r. r\<lparr>result_value_st := memcached_string_reset (result_value_st r)\<rparr>)
      in case own of
           None \<Rightarrow> (None, on_memc (\<lambda>m. m\<lparr>result := emptied (result m)\<rparr>) c)
         | Some r \<Rightarrow> (if result_is_allocated r then None else Some (emptied r), c))"

definition memcached_fetch_result ::
  "client_env \<Rightarrow> result_arg \<Rightarrow> memcached_return_t \<Rightarrow> client_st
   \<Rightarrow> ((bool \<times> memcached_return_t \<times> memcached_result_st option) \<times> client_st) option" where
  "memcached_fetch_result E arg error c =
     (let own = (case arg of Client_result \<Rightarrow> None | Caller_result r \<Rightarrow> Some r
                 | No_result \<Rightarrow> memcached_result_create (io_realloc (ce_io E)) (ce_malloc_result E) None)
      in if use_udp (flags (c_memc c))
         then Some ((False, MEMCACHED_NOT_SUPPORTED, if arg = No_result then None else own), c)
         else if arg = No_result \<and> own = None then Some ((False, error, None), c)
         else do {
           ((found, error, own), c) \<leftarrow> fetch_loop E own error c;
           Some (if found then ((True, error, own), c)
                 else case fetch_ended own c of (own, c) \<Rightarrow> ((False, error, own), c))
         })"

section \<open>\<open>memcached_fetch\<close>\<close>

text \<open>What the pointers of the caller point to; \<open>out_key\<close> is the array for the key, when there is one.\<close>

record fetch_out =
  out_key :: "byte list option"
  out_key_length :: nat
  out_length :: nat
  out_flags :: u32
  out_error :: memcached_return_t

text \<open>The copy of a value ends with a NUL, and is \<open>NULL\<close> for an empty value.\<close>

definition value_copy :: "client_env \<Rightarrow> client_st \<Rightarrow> byte list option" where
  "value_copy E c =
     (let s = result_value_st (result (c_memc c)) in memcached_string_c_copy (ce_malloc E (memcached_string_length s + 1)) s)"

definition memcached_fetch ::
  "client_env \<Rightarrow> fetch_out \<Rightarrow> client_st \<Rightarrow> ((byte list option \<times> fetch_out) \<times> client_st) option" where
  "memcached_fetch E out c =
     (if use_udp (flags (c_memc c)) then Some ((None, out\<lparr>out_error := MEMCACHED_NOT_SUPPORTED\<rparr>), c)
      else do {
        ((found, error, _), c) \<leftarrow> memcached_fetch_result E Client_result (out_error out) c;
        let res = result (c_memc c);
        let out = out\<lparr>out_error := error\<rparr>;
        if \<not> found \<or> error \<noteq> MEMCACHED_SUCCESS then Some ((None, out\<lparr>out_length := 0\<rparr>), c)
        else do {
          let out = out\<lparr>out_length := memcached_string_length (result_value_st res)\<rparr>;
          let given = out\<lparr>out_flags := item_flags res\<rparr>;
          case out_key out of
            None \<Rightarrow> Some ((value_copy E c, given), c)
          | Some key \<Rightarrow>
              if MEMCACHED_MAX_KEY < key_length res
              then Some ((None, out\<lparr>out_error := MEMCACHED_KEY_TOO_BIG, out_length := 0\<rparr>), c)
              else if length key < key_length res then None
              else Some ((value_copy E c,
                          given\<lparr>out_key := Some (strncpy key (item_key res) (key_length res)), out_key_length := key_length res\<rparr>), c)
        }
      })"

section \<open>\<open>memcached_fetch_execute\<close>\<close>

text \<open>
  Each callback sees the results so far and gives a return code; the first that is no success ends the round. A later call of
  \<open>memcached_fetch_result\<close> sets the code again, unless no server has a response left.
\<close>

fun execute_callbacks ::
  "(memcached_result_st list \<Rightarrow> memcached_return_t) list \<Rightarrow> memcached_return_t \<Rightarrow> client_st \<Rightarrow> memcached_return_t \<times> client_st" where
  "execute_callbacks [] rc c = (rc, c)"
| "execute_callbacks (cb # cbs) rc c =
     (let c = c\<lparr>c_log := c_log c @ [result (c_memc c)]\<rparr>; rc = cb (c_log c)
      in if rc \<noteq> MEMCACHED_SUCCESS then (rc, c) else execute_callbacks cbs rc c)"

partial_function (option) fetch_execute_loop ::
  "client_env \<Rightarrow> (memcached_result_st list \<Rightarrow> memcached_return_t) list \<Rightarrow> memcached_return_t \<Rightarrow> client_st
   \<Rightarrow> (memcached_return_t \<times> client_st) option" where
  "fetch_execute_loop E cbs rc c =
     Option.bind (memcached_fetch_result E Client_result rc c) (\<lambda>((found, rc, _), c).
       if \<not> found then Some (rc, c)
       else case (if rc = MEMCACHED_SUCCESS then execute_callbacks cbs rc c else (rc, c)) of
              (rc, c) \<Rightarrow> fetch_execute_loop E cbs rc c)"

definition memcached_fetch_execute ::
  "client_env \<Rightarrow> (memcached_result_st list \<Rightarrow> memcached_return_t) list \<Rightarrow> client_st \<Rightarrow> (memcached_return_t \<times> client_st) option" where
  "memcached_fetch_execute E cbs c = fetch_execute_loop E cbs MEMCACHED_FAILURE c"

end
