(* ===== verification/Client_Get.thy ===== *)
theory Client_Get
  imports Client_Fetch
begin

text \<open>
  \<open>get.c\<close>: asking for values, in both protocols, with replicas, and the function that asks for one value and waits for it. The
  master key is \<open>None\<close> when it is \<open>NULL\<close>. The list of keys has the lengths in it.
\<close>

section \<open>Old responses\<close>

text \<open>The responses that are still expected are read before new values are asked for.\<close>

partial_function (option) clear_pending :: "client_env \<Rightarrow> nat \<Rightarrow> byte list \<Rightarrow> client_st \<Rightarrow> client_st option" where
  "clear_pending E i buf c =
     (if memcached_server_response_count (server_of i c) = 0 then Some c
      else Option.bind (response_at_server E i buf c) (\<lambda>((_, buf), c). clear_pending E i buf c))"

fun clear_servers :: "client_env \<Rightarrow> nat list \<Rightarrow> client_st \<Rightarrow> client_st option" where
  "clear_servers E [] c = Some c"
| "clear_servers E (i # is) c =
     (if memcached_server_response_count (server_of i c) = 0 then clear_servers E is c
      else do {
        c \<leftarrow> (if no_block (flags (c_memc c)) then map_option snd (flush_at E i c) else Some c);
        c \<leftarrow> clear_pending E i (local_buffer (ce_io E) MEMCACHED_DEFAULT_COMMAND_SIZE) c;
        clear_servers E is c
      })"

section \<open>Sending the keys\<close>

definition all_servers :: "client_st \<Rightarrow> nat list" where
  "all_servers c = [0 ..< unat (memcached_server_count (c_memc c))]"

definition place_key :: "client_env \<Rightarrow> nat option \<Rightarrow> byte list \<Rightarrow> client_st \<Rightarrow> (nat \<times> client_st) option" where
  "place_key E master key c = (case master of Some i \<Rightarrow> Some (i, c) | None \<Rightarrow> locate E key c)"

definition writev_at :: "client_env \<Rightarrow> nat \<Rightarrow> byte list list \<Rightarrow> bool \<Rightarrow> client_st \<Rightarrow> (int \<times> client_st) option" where
  "writev_at E i vector with_flush = at_server i (memcached_io_writev (ce_io E) vector with_flush)"

definition write_at :: "client_env \<Rightarrow> nat \<Rightarrow> byte list \<Rightarrow> client_st \<Rightarrow> (int \<times> client_st) option" where
  "write_at E i data = at_server i (memcached_io_write (ce_io E) data True)"

text \<open>
  The text protocol: the first key of a server comes behind the command, the others are added to the line. A key that cannot be
  written is skipped.
\<close>

definition key_vector :: "memcached_st \<Rightarrow> byte list \<Rightarrow> byte list list" where
  "key_vector m key = [prefix_of m, key, [32]]"

fun text_keys ::
  "client_env \<Rightarrow> byte list \<Rightarrow> nat option \<Rightarrow> byte list list \<Rightarrow> memcached_return_t \<Rightarrow> client_st \<Rightarrow> (memcached_return_t \<times> client_st) option" where
  "text_keys E command master [] rc c = Some (rc, c)"
| "text_keys E command master (key # keys) rc c = do {
     (i, c) \<leftarrow> place_key E master key c;
     let vector = key_vector (c_memc c) key;
     (rc, c) \<leftarrow>
       (if memcached_server_response_count (server_of i c) = 0
        then do {
          (rc, c) \<leftarrow> memcached_connect E i c;
          if rc \<noteq> MEMCACHED_SUCCESS then Some (rc, c)
          else do {
            (sent, c) \<leftarrow> writev_at E i (command # vector) False c;
            Some (if sent = - 1 then (MEMCACHED_SOME_ERRORS, c) else (rc, modify i memcached_server_response_increment c))
          }
        }
        else do {
          (sent, c) \<leftarrow> writev_at E i vector False c;
          Some (if sent = - 1 then (MEMCACHED_SOME_ERRORS, modify i memcached_server_response_reset c) else (rc, c))
        });
     text_keys E command master keys rc c
   }"

fun end_lines :: "client_env \<Rightarrow> nat list \<Rightarrow> memcached_return_t \<Rightarrow> client_st \<Rightarrow> (memcached_return_t \<times> client_st) option" where
  "end_lines E [] rc c = Some (rc, c)"
| "end_lines E (i # is) rc c =
     (if memcached_server_response_count (server_of i c) = 0 then end_lines E is rc c
      else do {
        (sent, c) \<leftarrow> write_at E i [13, 10] c;
        end_lines E is (if sent = - 1 then MEMCACHED_SOME_ERRORS else rc) c
      })"

section \<open>The binary protocol\<close>

definition getk_header :: "memcached_st \<Rightarrow> nat \<Rightarrow> byte \<Rightarrow> protocol_binary_request_header" where
  "getk_header m klen opcode =
     \<lparr>req_magic = PROTOCOL_BINARY_REQ, req_opcode = opcode, req_keylen = htons (of_nat (klen + prefix_key_length m)), req_extlen = 0,
      req_datatype = PROTOCOL_BINARY_RAW_BYTES, req_reserved = 0, req_bodylen = htonl (of_nat (klen + prefix_key_length m)),
      req_opaque = 0, req_cas = 0\<rparr>"

definition getk_vector :: "memcached_st \<Rightarrow> byte list \<Rightarrow> byte \<Rightarrow> byte list list" where
  "getk_vector m key opcode = [request_bytes (getk_header m (length key) opcode), prefix_of m, key]"

definition noop_request :: "byte list" where
  "noop_request = [PROTOCOL_BINARY_REQ, PROTOCOL_BINARY_CMD_NOOP] @ replicate 22 0"

text \<open>
  The loop over the keys without replicas; \<open>x\<close> is the position of the key. \<open>Inl\<close> is an early return, for a key of a wrong length:
  unless it is the first one the connection is closed.
\<close>

fun simple_keys ::
  "client_env \<Rightarrow> nat option \<Rightarrow> byte \<Rightarrow> bool \<Rightarrow> nat \<Rightarrow> byte list list \<Rightarrow> memcached_return_t \<Rightarrow> client_st
   \<Rightarrow> ((memcached_return_t + memcached_return_t) \<times> client_st) option" where
  "simple_keys E master opcode with_flush x [] rc c = Some (Inr rc, c)"
| "simple_keys E master opcode with_flush x (key # keys) rc c = do {
     (i, c) \<leftarrow> place_key E master key c;
     (go_on, rc, c) \<leftarrow>
       (if memcached_server_response_count (server_of i c) = 0
        then map_option (\<lambda>(rc, c). (rc = MEMCACHED_SUCCESS, rc, c)) (memcached_connect E i c)
        else Some (True, rc, c));
     let vk = memcached_validate_key_length (length key) (binary_protocol (flags (c_memc c)));
     if \<not> go_on then simple_keys E master opcode with_flush (x + 1) keys rc c
     else if vk \<noteq> MEMCACHED_SUCCESS
     then map_option (Pair (Inl vk)) (if 0 < x then io_reset_at E i c else Some c)
     else do {
       (sent, c) \<leftarrow> writev_at E i (getk_vector (c_memc c) key opcode) with_flush c;
       if sent = - 1
       then simple_keys E master opcode with_flush (x + 1) keys MEMCACHED_SOME_ERRORS (modify i memcached_server_response_reset c)
       else do {
         let c = modify i (\<lambda>p. memcached_server_response_increment (memcached_server_response_reset p)) c;
         (rc, c) \<leftarrow>
           (if 0 < x \<and> x = unat (io_key_prefetch (c_memc c))
            then map_option (\<lambda>(flushed, c). (if flushed \<noteq> MEMCACHED_SUCCESS then MEMCACHED_SOME_ERRORS else rc, c)) (memcached_flush_buffers E c)
            else Some (rc, c));
         simple_keys E master opcode with_flush (x + 1) keys rc c
       }
     }
   }"

text \<open>A \<open>NOOP\<close> ends the values of each server. After a failed write the connection is closed.\<close>

definition noop_write :: "client_env \<Rightarrow> nat \<Rightarrow> byte list \<Rightarrow> memcached_return_t \<Rightarrow> client_st \<Rightarrow> (memcached_return_t \<times> client_st) option" where
  "noop_write E i data rc c = do {
     (sent, c) \<leftarrow> write_at E i data c;
     if sent = - 1
     then map_option (Pair MEMCACHED_SOME_ERRORS) (io_reset_at E i (modify i memcached_server_response_reset c))
     else Some (rc, c)
   }"

fun send_noops :: "client_env \<Rightarrow> nat list \<Rightarrow> memcached_return_t \<Rightarrow> client_st \<Rightarrow> (memcached_return_t \<times> client_st) option" where
  "send_noops E [] rc c = Some (rc, c)"
| "send_noops E (i # is) rc c =
     (if memcached_server_response_count (server_of i c) = 0 then send_noops E is rc c
      else do {
        (rc, c) \<leftarrow> noop_write E i [] rc c;
        (rc, c) \<leftarrow> noop_write E i noop_request rc c;
        send_noops E is rc c
      })"

definition simple_binary_mget ::
  "client_env \<Rightarrow> nat option \<Rightarrow> byte list list \<Rightarrow> bool \<Rightarrow> client_st \<Rightarrow> (memcached_return_t \<times> client_st) option" where
  "simple_binary_mget E master keys mget_mode c = do {
     (r, c) \<leftarrow> simple_keys E master (if mget_mode then PROTOCOL_BINARY_CMD_GETKQ else PROTOCOL_BINARY_CMD_GETK) (length keys = 1) 0 keys
                MEMCACHED_NOTFOUND c;
     case r of
       Inl rc \<Rightarrow> Some (rc, c)
     | Inr rc \<Rightarrow> if mget_mode then send_noops E (all_servers c) rc c else Some (rc, c)
   }"

section \<open>Replicas\<close>

text \<open>
  \<open>hash\<close> holds the first server of each key, or the number of servers when the key was sent. The server of a replica is
  computed with 32 bits.
\<close>

definition replica_server :: "memcached_st \<Rightarrow> u32 \<Rightarrow> u32 \<Rightarrow> u32 \<Rightarrow> u32" where
  "replica_server m start h replica =
     (let s = h + replica;
          s = (if randomize_replica_read (flags m) \<and> s + start \<le> h + number_of_replicas m then s + start else s)
      in s mod memcached_server_count m)"

text \<open>One key: whether it was sent, the server that is dead, and the return code of connecting.\<close>

definition replica_key ::
  "client_env \<Rightarrow> nat \<Rightarrow> byte list \<Rightarrow> memcached_return_t \<Rightarrow> client_st \<Rightarrow> ((bool \<times> memcached_return_t) \<times> client_st) option" where
  "replica_key E i key rc c = do {
     (go_on, rc, c) \<leftarrow>
       (if memcached_server_response_count (server_of i c) = 0
        then map_option (\<lambda>(rc, c). (rc = MEMCACHED_SUCCESS, rc, c)) (memcached_connect E i c)
        else Some (True, rc, c));
     if \<not> go_on then map_option (Pair (False, rc)) (io_reset_at E i c)
     else do {
       (sent, c) \<leftarrow> writev_at E i (getk_vector (c_memc c) key PROTOCOL_BINARY_CMD_GETK) True c;
       if sent = - 1 then map_option (Pair (False, rc)) (io_reset_at E i c)
       else Some ((True, rc), modify i memcached_server_response_increment c)
     }
   }"

fun replica_keys ::
  "client_env \<Rightarrow> u32 \<Rightarrow> u32 \<Rightarrow> byte list list \<Rightarrow> nat \<Rightarrow> u32 list \<times> bool list \<times> bool \<times> memcached_return_t \<Rightarrow> client_st
   \<Rightarrow> ((u32 list \<times> bool list \<times> bool \<times> memcached_return_t) \<times> client_st) option" where
  "replica_keys E start replica [] x t c = Some (t, c)"
| "replica_keys E start replica (key # keys) x (hash, dead, success, rc) c =
     (let n = memcached_server_count (c_memc c); i = unat (replica_server (c_memc c) start (hash ! x) replica)
      in if hash ! x = n \<or> dead ! i then replica_keys E start replica keys (x + 1) (hash, dead, success, rc) c
         else do {
           ((sent, rc), c) \<leftarrow> replica_key E i key rc c;
           replica_keys E start replica keys (x + 1)
             (if sent then (hash[x := n], dead, success, rc) else (hash, dead[i := True], False, rc)) c
         })"

text \<open>With \<open>2 ^ 32 - 1\<close> replicas the loop does not end before all keys are sent.\<close>

fun replica_loop ::
  "client_env \<Rightarrow> u32 \<Rightarrow> byte list list \<Rightarrow> nat list \<Rightarrow> u32 list \<times> bool list \<times> memcached_return_t \<Rightarrow> client_st
   \<Rightarrow> (memcached_return_t \<times> client_st) option" where
  "replica_loop E start keys [] (hash, dead, rc) c = (if number_of_replicas (c_memc c) = - 1 then None else Some (rc, c))"
| "replica_loop E start keys (replica # rs) (hash, dead, rc) c = do {
     ((hash, dead, success, rc), c) \<leftarrow> replica_keys E start (of_nat replica) keys 0 (hash, dead, True, rc) c;
     if success then Some (rc, c) else replica_loop E start keys rs (hash, dead, rc) c
   }"

definition replication_binary_mget ::
  "client_env \<Rightarrow> u32 list \<Rightarrow> bool list \<Rightarrow> byte list list \<Rightarrow> client_st \<Rightarrow> (memcached_return_t \<times> client_st) option" where
  "replication_binary_mget E hash dead keys c =
     (let n = number_of_replicas (c_memc c); replicas = [0 ..< unat n + 1]; r = (case c_randoms c of [] \<Rightarrow> 0 | r # _ \<Rightarrow> r)
      in if \<not> randomize_replica_read (flags (c_memc c)) then replica_loop E 0 keys replicas (hash, dead, MEMCACHED_NOTFOUND) c
         else if n + 1 = 0 then None
         else replica_loop E (r mod (n + 1)) keys replicas (hash, dead, MEMCACHED_NOTFOUND) (c\<lparr>c_randoms := tl (c_randoms c)\<rparr>))"

fun hash_keys :: "client_env \<Rightarrow> nat option \<Rightarrow> byte list list \<Rightarrow> client_st \<Rightarrow> (u32 list \<times> client_st) option" where
  "hash_keys E master [] c = Some ([], c)"
| "hash_keys E master (key # keys) c = do {
     (i, c) \<leftarrow> place_key E master key c;
     (hs, c) \<leftarrow> hash_keys E master keys c;
     Some (of_nat i # hs, c)
   }"

definition binary_mget_by_key ::
  "client_env \<Rightarrow> nat option \<Rightarrow> byte list list \<Rightarrow> bool \<Rightarrow> client_st \<Rightarrow> (memcached_return_t \<times> client_st) option" where
  "binary_mget_by_key E master keys mget_mode c =
     (let n = unat (memcached_server_count (c_memc c))
      in if number_of_replicas (c_memc c) = 0 then simple_binary_mget E master keys mget_mode c
         else if \<not> ce_malloc E (4 * length keys) \<or> \<not> ce_malloc E n then Some (MEMCACHED_MEMORY_ALLOCATION_FAILURE, c)
         else do {
           (hash, c) \<leftarrow> hash_keys E master keys c;
           (_, c) \<leftarrow> replication_binary_mget E hash (replicate n False) keys c;
           Some (MEMCACHED_SUCCESS, c)
         })"

section \<open>Asking for values\<close>

definition get_command :: "memcached_flags \<Rightarrow> byte list" where
  "get_command f = (if support_cas f then bytes ''gets '' else bytes ''get '')"

definition memcached_mget_by_key_real ::
  "client_env \<Rightarrow> byte list option \<Rightarrow> byte list list \<Rightarrow> bool \<Rightarrow> client_st \<Rightarrow> (memcached_return_t \<times> client_st) option" where
  "memcached_mget_by_key_real E master_key keys mget_mode c =
     (let f = flags (c_memc c); key = (case master_key of None \<Rightarrow> [] | Some k \<Rightarrow> k)
      in if use_udp f then Some (MEMCACHED_NOT_SUPPORTED, c)
         else if keys = [] then Some (MEMCACHED_NOTFOUND, c)
         else if memcached_server_count (c_memc c) = 0 then Some (MEMCACHED_NO_SERVERS, c)
         else if verify_key f \<and> memcached_key_test keys = MEMCACHED_BAD_KEY_PROVIDED then Some (MEMCACHED_BAD_KEY_PROVIDED, c)
         else if key \<noteq> [] \<and> verify_key f \<and> memcached_key_test [key] = MEMCACHED_BAD_KEY_PROVIDED
         then Some (MEMCACHED_BAD_KEY_PROVIDED, c)
         else do {
           (master, c) \<leftarrow> (if key \<noteq> [] then map_option (\<lambda>(i, c). (Some i, c)) (locate E key c) else Some (None, c));
           c \<leftarrow> clear_servers E (all_servers c) c;
           if binary_protocol (flags (c_memc c)) then binary_mget_by_key E master keys mget_mode c
           else do {
             (rc, c) \<leftarrow> text_keys E (get_command (flags (c_memc c))) master keys MEMCACHED_NOTFOUND c;
             end_lines E (all_servers c) rc c
           }
         })"

definition memcached_mget_by_key where
  "memcached_mget_by_key E master_key keys c = memcached_mget_by_key_real E master_key keys True c"

definition memcached_mget where "memcached_mget E keys c = memcached_mget_by_key E None keys c"

text \<open>The callbacks are at an address of the environment while the keys are sent.\<close>

definition memcached_mget_execute_by_key ::
  "client_env \<Rightarrow> byte list option \<Rightarrow> byte list list \<Rightarrow> nat \<Rightarrow> client_st \<Rightarrow> (memcached_return_t \<times> client_st) option" where
  "memcached_mget_execute_by_key E master_key keys cb c =
     (if \<not> binary_protocol (flags (c_memc c)) then Some (MEMCACHED_NOT_SUPPORTED, c)
      else do {
        let original = callbacks (c_memc c);
        (rc, c) \<leftarrow> memcached_mget_by_key E master_key keys (on_memc (\<lambda>m. m\<lparr>callbacks := Some cb\<rparr>) c);
        Some (rc, on_memc (\<lambda>m. m\<lparr>callbacks := original\<rparr>) c)
      })"

definition memcached_mget_execute where
  "memcached_mget_execute E keys cb c = memcached_mget_execute_by_key E None keys cb c"

section \<open>One value\<close>

text \<open>Storing what the function of the application has put into the result, buffered when it says so.\<close>

definition set_fetched :: "client_env \<Rightarrow> byte list \<Rightarrow> client_st \<Rightarrow> (memcached_return_t \<times> client_st) option" where
  "set_fetched E key c =
     (let res = result (c_memc c)
      in memcached_set E key (take (memcached_result_length res) (block (memcached_result_value res))) 0 (memcached_result_flags res) c)"

definition set_buffered :: "client_env \<Rightarrow> byte list \<Rightarrow> client_st \<Rightarrow> (memcached_return_t \<times> client_st) option" where
  "set_buffered E key c = do {
     (latch, c) \<leftarrow> memcached_behavior_get E MEMCACHED_BEHAVIOR_BUFFER_REQUESTS c;
     c \<leftarrow> (if latch = 0 then map_option snd (memcached_behavior_set E MEMCACHED_BEHAVIOR_BUFFER_REQUESTS 1 c) else Some c);
     (rc, c) \<leftarrow> set_fetched E key c;
     c \<leftarrow> (if rc = MEMCACHED_BUFFERED \<and> latch = 0
          then map_option snd (memcached_behavior_set E MEMCACHED_BEHAVIOR_BUFFER_REQUESTS 0 c) else Some c);
     Some (rc, c)
   }"

definition key_failure ::
  "client_env \<Rightarrow> byte list \<Rightarrow> fetch_out \<Rightarrow> client_st \<Rightarrow> ((byte list option \<times> fetch_out) \<times> client_st) option" where
  "key_failure E key out c =
     (case get_key_failure (c_memc c) of
        None \<Rightarrow> Some ((None, out), c)
      | Some fn \<Rightarrow>
          if out_error out \<noteq> MEMCACHED_NOTFOUND then Some ((None, out), c)
          else do {
            (rc, c) \<leftarrow> ce_get_key_failure E fn key (on_memc (\<lambda>m. m\<lparr>result := memcached_result_reset (result m)\<rparr>) c);
            (rc, c) \<leftarrow> (if rc = MEMCACHED_BUFFERED then set_buffered E key c
                      else if rc = MEMCACHED_SUCCESS then set_fetched E key c else Some (rc, c));
            if rc = MEMCACHED_SUCCESS \<or> rc = MEMCACHED_BUFFERED
            then Some ((value_copy E c,
                        out\<lparr>out_error := rc, out_length := memcached_result_length (result (c_memc c)),
                            out_flags := memcached_result_flags (result (c_memc c))\<rparr>), c)
            else Some ((None, out), c)
          })"

text \<open>
  The request is followed by reading the value and, when there is one, by reading what ends the values. The error of the request is
  lost as soon as a response sets another one.
\<close>

definition memcached_get_by_key ::
  "client_env \<Rightarrow> byte list option \<Rightarrow> byte list \<Rightarrow> fetch_out \<Rightarrow> client_st \<Rightarrow> ((byte list option \<times> fetch_out) \<times> client_st) option" where
  "memcached_get_by_key E master_key key out c =
     (if use_udp (flags (c_memc c)) then Some ((None, out\<lparr>out_error := MEMCACHED_NOT_SUPPORTED\<rparr>), c)
      else do {
        (rc, c) \<leftarrow> memcached_mget_by_key_real E master_key [key] False c;
        ((val, out), c) \<leftarrow> memcached_fetch E (out\<lparr>out_key := None, out_error := rc\<rparr>) c;
        let out = (if out_error out = MEMCACHED_END then out\<lparr>out_error := MEMCACHED_NOTFOUND\<rparr> else out);
        if val = None then key_failure E key out c
        else do {
          (_, c) \<leftarrow> memcached_fetch E (out\<lparr>out_error := MEMCACHED_FAILURE\<rparr>) c;
          Some ((val, out), c)
        }
      })"

definition memcached_get where "memcached_get E key out c = memcached_get_by_key E None key out c"

end
