(* ===== verification/Client_Value.thy ===== *)
theory Client_Value
  imports Client_Get
begin

text \<open>
  What a value is after the way through the text protocol: the answer to a request is read into the result of the client, and
  \<open>memcached_get\<close> returns the value, the length and the flags that the server sent.
\<close>

section \<open>Reading a value\<close>

lemma drop_prefix: "m = a @ r \<Longrightarrow> length a = p \<Longrightarrow> drop p m = r"
  by simp

lemma number_at:
  assumes "drop p m = dec_digits n @ c # rest" and "\<not> isdigit c" and "n < 2 ^ 64"
  shows "scan_number m p = Some (of_nat n, p + length (dec_digits n))"
proof -
  obtain d ds where d: "dec_digits n = d # ds" by (cases "dec_digits n") auto
  have dig: "isdigit x" if "x \<in> set (dec_digits n)" for x using that by (rule dec_digits_isdigit)
  then have hd: "isdigit d" by (simp add: d)
  have t: "takeWhile isdigit (dec_digits n @ c # rest) = dec_digits n"
    using dig assms(2) by (simp add: takeWhile_append2)
  let ?s = "dec_digits n @ c # rest"
  have s: "dropWhile isspace ?s = ?s" "takeWhile isspace ?s = []" "hd ?s = d"
    using isdigit_not [OF hd] by (simp_all add: d)
  then have digits: "number_digits ?s = dec_digits n" "number_end ?s = length (dec_digits n)"
    using isdigit_not [OF hd] unfolding number_digits_def number_end_def Let_def s by (simp_all only: t s) (simp_all add: t)
  have "strtoul10 ?s = of_nat n"
    using assms(2,3) by (intro strtoul10_dec_digits) auto
  then show ?thesis
    unfolding scan_number_def assms(1) Let_def digits by simp
qed

definition graphic :: "byte list \<Rightarrow> bool" where "graphic s \<longleftrightarrow> (\<forall>c \<in> set s. isgraph c)"

lemma graphic_char: "isgraph c \<Longrightarrow> \<not> (iscntrl c \<or> isspace c)"
  by (auto simp: isgraph_def iscntrl_def isspace_def word_le_nat_alt word_less_nat_alt)

text \<open>The line that announces a value.\<close>

definition value_line :: "byte list \<Rightarrow> u32 \<Rightarrow> nat \<Rightarrow> byte list" where
  "value_line word fl n = bytes ''VALUE '' @ word @ [32] @ dec_digits (unat fl) @ [32] @ dec_digits n @ [13, 10]"

lemma value_line_parts:
  assumes "graphic word" and "n < 2 ^ 64" and buf: "buf = memcpy_at b 0 (value_line word fl n)" and "length (value_line word fl n) < length b"
  defines "p \<equiv> 7 + length word" and "q \<equiv> 8 + length word + length (dec_digits (unat fl))"
  shows "key_word buf 6 = Some word" and "scan_number buf p = Some (ucast fl, q - 1)"
    and "scan_number buf q = Some (of_nat n, q + length (dec_digits n))" and "buf ! (q + length (dec_digits n)) = 13"
    and "q + length (dec_digits n) + 2 = length (value_line word fl n)" and "length buf = length b"
proof -
  obtain junk where b: "buf = value_line word fl n @ junk" using buf by (simp add: memcpy_at_def)
  have fl: "unat fl < 2 ^ 64" using order_less_trans [OF unsigned_less [of fl], of "2 ^ 64"] by simp
  have six: "length (bytes ''VALUE '') = 6" by (simp add: bytes_def)
  have "drop 6 buf = word @ 32 # (dec_digits (unat fl) @ [32] @ dec_digits n @ [13, 10] @ junk)"
    using six by (simp add: b value_line_def)
  moreover have "takeWhile (\<lambda>c. \<not> (iscntrl c \<or> isspace c)) (word @ 32 # r) = word" for r
    using assms(1) graphic_char by (subst takeWhile_append2) (auto simp: graphic_def isspace_def)
  ultimately show "key_word buf 6 = Some word" by (simp add: key_word_def Let_def)
  have "buf = (bytes ''VALUE '' @ word @ [32]) @ dec_digits (unat fl) @ 32 # (dec_digits n @ [13, 10] @ junk)"
    by (simp add: b value_line_def)
  then have p: "drop p buf = dec_digits (unat fl) @ 32 # (dec_digits n @ [13, 10] @ junk)"
    by (rule drop_prefix) (simp add: p_def six)
  have "\<not> isdigit 32" by (simp add: isdigit_def)
  from number_at [OF p this] fl show "scan_number buf p = Some (ucast fl, q - 1)"
    by (simp add: p_def q_def of_nat_unat)
  have "buf = (bytes ''VALUE '' @ word @ [32] @ dec_digits (unat fl) @ [32]) @ dec_digits n @ 13 # (10 # junk)"
    by (simp add: b value_line_def)
  moreover have "length (bytes ''VALUE '' @ word @ [32] @ dec_digits (unat fl) @ [32]) = q"
    using six by (simp add: q_def)
  ultimately have q: "drop q buf = dec_digits n @ 13 # (10 # junk)" by (metis append_eq_conv_conj)
  from number_at [OF q _ assms(2)] show "scan_number buf q = Some (of_nat n, q + length (dec_digits n))"
    by (simp add: isdigit_def)
  have "q \<le> length buf" using six by (simp add: b value_line_def q_def)
  then show "buf ! (q + length (dec_digits n)) = 13"
    using q by (metis nth_append_length nth_drop)
  show "q + length (dec_digits n) + 2 = length (value_line word fl n)"
    using six by (simp add: value_line_def q_def)
  show "length buf = length b" using assms(4) buf by simp
qed

text \<open>A result that holds a key without the prefix, a value and its flags.\<close>

definition holds_value :: "memcached_result_st \<Rightarrow> byte list \<Rightarrow> byte list \<Rightarrow> u32 \<Rightarrow> bool" where
  "holds_value res key data fl \<longleftrightarrow>
     string_wf (result_value_st res) \<and> string_contents (result_value_st res) = data \<and> item_flags res = fl \<and>
     key_length res = length key \<and> take (length key) (item_key res) = key"

text \<open>The allocator has room for a value in the string of a result.\<close>

definition room_for :: "io_env \<Rightarrow> nat \<Rightarrow> memcached_result_st \<Rightarrow> bool" where
  "room_for E n res \<longleftrightarrow> realloc_ok (io_realloc E) \<and> string_wf (result_value_st res) \<and> n + 2 < 2 ^ 64 \<and>
     fst (memcached_string_check (io_realloc E) (memcached_string_reset (result_value_st res)) (n + 2)) = MEMCACHED_SUCCESS"

lemma reset_wf: "string_wf s \<Longrightarrow> string_wf (memcached_string_reset s)"
  by (simp add: string_wf_def memcached_string_reset_def)

lemma value_read:
  assumes "healthy s" and "incoming s = data @ [13, 10] @ rest" and "room_for E (length data) res"
    and "result_value_st r = memcached_string_reset (result_value_st res)"
  shows "\<exists>r' t. read_value E buf (of_nat (length data)) r s = Some (MEMCACHED_SUCCESS, buf, r', t) \<and> incoming t = rest \<and> healthy t \<and>
     input_only s t \<and> string_wf (result_value_st r') \<and> string_contents (result_value_st r') = data \<and>
     r' = r\<lparr>result_value_st := result_value_st r'\<rparr>"
proof -
  let ?n = "length data" and ?str = "memcached_string_reset (result_value_st res)"
  have n: "?n + 2 < 2 ^ 64" "realloc_ok (io_realloc E)" "string_wf ?str"
    using assms(3) by (simp_all add: room_for_def reset_wf)
  obtain str where c: "memcached_string_check (io_realloc E) ?str (?n + 2) = (MEMCACHED_SUCCESS, str)"
    using assms(3) by (cases "memcached_string_check (io_realloc E) ?str (?n + 2)") (simp add: room_for_def)
  from string_check_cases [OF n(2,3,1) c [unfolded memcached_string_check_def]]
  have str: "string_wf str" "?n + 2 \<le> current_size str - str_end str" by auto
  have "unat (of_nat ?n + 2 :: u64) = ?n + 2"
  proof -
    have "of_nat ?n + 2 = (of_nat (?n + 2) :: u64)" by simp
    then show ?thesis using n(1) by (simp only: unat_of_nat) simp
  qed
  moreover have "unat (of_nat ?n :: u64) = ?n" using n(1) by (simp add: unat_of_nat)
  moreover have "take (?n + 2) (incoming s) = data @ [13, 10]" "drop (?n + 2) (incoming s) = rest" "?n + 2 \<le> length (incoming s)"
    using assms(2) by simp_all
  moreover from io_read_total [OF assms(1) this(3), of E] this(1,2) obtain t where
    t: "memcached_io_read E (?n + 2) s = (MEMCACHED_SUCCESS, data @ [13, 10], t)" "incoming t = rest" "healthy t" "input_only s t" by auto
  moreover obtain b where b: "str_buf str = Some b" "?n + 2 \<le> length b" "length b = current_size str"
    using str by (cases "str_buf str") (auto simp: string_wf_def)
  ultimately show ?thesis
    using c str assms(4)
    by (simp add: read_value_def Let_def string_wf_def string_contents_def memcached_string_set_length_def)
       (simp add: memcpy_at_def)
qed

lemma value_fetched:
  assumes "healthy s" and "incoming s = data @ [13, 10] @ rest" and "room_for E (length data) res" and "\<not> use_udp (flags (memc s))"
    and "graphic word" and "length word < MEMCACHED_MAX_KEY" and "prefix_key_length (memc s) \<le> length word"
    and "buf = memcpy_at b 0 (value_line word fl (length data))"
    and "length (value_line word fl (length data)) < length b" and "length b = MEMCACHED_DEFAULT_COMMAND_SIZE"
  shows "\<exists>res' t. textual_value_fetch E buf res s = Some (MEMCACHED_SUCCESS, buf, res', t) \<and> incoming t = rest \<and> healthy t \<and>
     input_only s t \<and> holds_value res' (drop (prefix_key_length (memc s)) word) data fl"
proof -
  let ?key = "drop (prefix_key_length (memc s)) word" and ?n = "length data"
  have "?n < 2 ^ 64" using assms(3) by (simp add: room_for_def)
  note line = value_line_parts [OF assms(5) this assms(8,9)]
  have fl: "(ucast (ucast fl :: u64) :: u32) = fl" by (rule bit_word_eqI) (simp add: bit_simps)
  have key: "\<not> MEMCACHED_MAX_KEY \<le> length word - prefix_key_length (memc s)" using assms(6) by simp
  define r where "r = (memcached_result_reset res)\<lparr>key_length := length ?key,
      item_key := memcpy_at (item_key (memcached_result_reset res)) 0 (?key @ [0]), item_flags := fl\<rparr>"
  have "result_value_st r = memcached_string_reset (result_value_st res)" by (simp add: r_def memcached_result_reset_def)
  from value_read [OF assms(1-3) this] obtain r' t where
    t: "read_value E buf (of_nat ?n) r s = Some (MEMCACHED_SUCCESS, buf, r', t)" "incoming t = rest" "healthy t" "input_only s t"
      "string_wf (result_value_st r')" "string_contents (result_value_st r') = data" "r' = r\<lparr>result_value_st := result_value_st r'\<rparr>"
    by blast
  from t(7) obtain v where r': "r' = r\<lparr>result_value_st := v\<rparr>" by blast
  have "item_flags r' = fl" "key_length r' = length ?key" "take (length ?key) (item_key r') = ?key"
    by (simp_all add: r' r_def memcpy_at_def)
  with t have "holds_value r' ?key data fl" by (simp add: holds_value_def)
  moreover have "textual_value_fetch E buf res s = read_value E buf (of_nat ?n) r s"
    using line key assms(4,9,10) fl
    by (simp add: textual_value_fetch_def Let_def r_def memcached_result_reset_def add.assoc)
  ultimately show ?thesis using t by auto
qed

section \<open>Answers on a connection\<close>

lemma healthy_count [simp]:
  "healthy (on_server memcached_server_response_decrement s) = healthy s" "healthy (on_server memcached_server_response_increment s) = healthy s"
  "incoming (on_server memcached_server_response_decrement s) = incoming s"
  "incoming (on_server memcached_server_response_increment s) = incoming s"
  by (simp_all add: healthy_def incoming_def input_wf_def buffered_def buffer_bytes_def memcached_server_response_decrement_def
      memcached_server_response_increment_def)

lemma value_line_10: "graphic word \<Longrightarrow> \<exists>xs. value_line word fl n = 86 # 65 # xs @ [10] \<and> 10 \<notin> set (86 # 65 # xs)"
  using dec_digits_isdigit [of 10 n] dec_digits_isdigit [of 10 "unat fl"]
  by (auto simp: value_line_def bytes_def graphic_def isgraph_def isdigit_def)

lemma value_response:
  assumes "healthy s" and "incoming s = value_line word fl (length data) @ data @ [13, 10] @ rest" and "room_for E (length data) res"
    and "\<not> use_udp (flags (memc s))" and "\<not> binary_protocol (flags (memc s))"
    and "graphic word" and "length word < MEMCACHED_MAX_KEY" and "prefix_key_length (memc s) \<le> length word"
    and "length (value_line word fl (length data)) < length b" and "length b = MEMCACHED_DEFAULT_COMMAND_SIZE"
  shows "\<exists>buf res' t. memcached_read_one_response E b res s = Some (MEMCACHED_SUCCESS, buf, res', t) \<and> incoming t = rest \<and> healthy t \<and>
     input_only s t \<and> holds_value res' (drop (prefix_key_length (memc s)) word) data fl"
proof -
  let ?line = "value_line word fl (length data)" and ?s = "on_server memcached_server_response_decrement s"
  obtain xs where xs: "?line = (86 # 65 # xs) @ [10]" "10 \<notin> set (86 # 65 # xs)" using value_line_10 [OF assms(6)] by auto
  have "incoming ?s = (86 # 65 # xs) @ 10 # (data @ [13, 10] @ rest)" "length (86 # 65 # xs) + 1 < length b"
    using assms(2,9) by (simp_all add: xs(1))
  from readline_total [of ?s, OF _ this(1) xs(2) this(2), of E] assms(1) obtain t where
    t: "memcached_io_readline E (length b) ?s = (MEMCACHED_SUCCESS, ?line, t)" "incoming t = data @ [13, 10] @ rest" "healthy t" "input_only ?s t"
    by (auto simp: xs(1))
  let ?t = "on_server memcached_server_response_increment t" and ?buf = "memcpy_at b 0 ?line"
  have t': "healthy ?t" "incoming ?t = data @ [13, 10] @ rest" "memc ?t = memc s" "input_only s ?t"
    using t by (simp_all add: input_only_def memcached_server_response_decrement_def memcached_server_response_increment_def)
  from value_fetched [OF t'(1,2) assms(3) _ assms(6,7) _ refl assms(9,10)] assms(4,8) t'(3) obtain res' u where
    u: "textual_value_fetch E ?buf res ?t = Some (MEMCACHED_SUCCESS, ?buf, res', u)" "incoming u = rest" "healthy u" "input_only ?t u"
      "holds_value res' (drop (prefix_key_length (memc s)) word) data fl" by auto
  have "?buf ! 0 = 86" "?buf ! 1 = 65" by (simp_all add: xs(1) memcpy_at_def)
  then have "textual_read_one_response E b res ?s = Some (MEMCACHED_SUCCESS, ?buf, res', u)"
    using t(1) u(1) by (simp add: textual_read_one_response_def Let_def)
  then have "memcached_read_one_response E b res s = Some (MEMCACHED_SUCCESS, ?buf, res', u)"
    using assms(5) by (simp add: memcached_read_one_response_def resets_io_def)
  with u input_only_trans [OF t'(4) u(4)] show ?thesis by blast
qed

definition end_line :: "byte list" where "end_line = bytes ''END'' @ [13, 10]"

lemma end_response:
  assumes "healthy s" and "incoming s = end_line @ rest" and "\<not> binary_protocol (flags (memc s))" and "length b = MEMCACHED_DEFAULT_COMMAND_SIZE"
  shows "\<exists>buf t. memcached_read_one_response E b res s = Some (MEMCACHED_END, buf, res, t) \<and> incoming t = rest \<and> healthy t \<and>
     input_only (on_server memcached_server_response_decrement s) t"
proof -
  let ?s = "on_server memcached_server_response_decrement s"
  have "incoming ?s = (bytes ''END'' @ [13]) @ 10 # rest" "10 \<notin> set (bytes ''END'' @ [13])" "length (bytes ''END'' @ [13]) + 1 < length b"
    using assms(2,4) by (simp_all add: end_line_def bytes_def MEMCACHED_DEFAULT_COMMAND_SIZE_def)
  from readline_total [of ?s, OF _ this, of E] assms(1) obtain t where
    t: "memcached_io_readline E (length b) ?s = (MEMCACHED_SUCCESS, end_line, t)" "incoming t = rest" "healthy t" "input_only ?s t"
    by (auto simp: end_line_def)
  have "textual_read_one_response E b res ?s = Some (MEMCACHED_END, memcpy_at b 0 end_line, res, t)"
    using t(1) by (simp add: textual_read_one_response_def Let_def memcpy_at_def end_line_def bytes_def)
  with t assms(3) show ?thesis by (simp add: memcached_read_one_response_def resets_io_def)
qed

section \<open>The client with one busy server\<close>

lemma server_of_put_other [simp]: "j \<noteq> i \<Longrightarrow> server_of j (put i d s c) = server_of j c"
  by (simp add: put_def server_of_def)

lemma server_of_modify_other [simp]: "j \<noteq> i \<Longrightarrow> server_of j (modify i f c) = server_of j c"
  by (simp add: modify_def server_of_def)

lemma view_modify:
  assumes "i < length (servers (c_memc c))" and "fd (f (server_of i c)) = fd (server_of i c)"
  shows "view i (modify i f c) = (on_server f (view i c))\<lparr>memc := c_memc (modify i f c)\<rparr>"
  using assms by (simp add: view_def Let_def on_server_def)

lemma response_count_0 [simp]: "memcached_server_response_count p = 0 \<longleftrightarrow> cursor_active p = 0"
  by (simp add: memcached_server_response_count_def)

text \<open>No server but number \<open>i\<close> has a response to read.\<close>

definition lone :: "nat \<Rightarrow> client_st \<Rightarrow> bool" where
  "lone i c \<longleftrightarrow> i < unat (memcached_server_count (c_memc c)) \<and> unat (memcached_server_count (c_memc c)) \<le> length (servers (c_memc c)) \<and>
     (\<forall>j < unat (memcached_server_count (c_memc c)). j \<noteq> i \<longrightarrow> cursor_active (server_of j c) = 0 \<and> read_buffer_length (server_of j c) = 0)"

lemma lone_put:
  assumes "lone i c" and "memcached_server_count (memc s) = memcached_server_count (c_memc c)"
  shows "lone i (put i d s c)"
  using assms by (simp add: lone_def) (simp add: put_def memcached_server_count_def)

lemma lone_modify: "lone i c \<Longrightarrow> lone i (modify i f c)"
  by (simp add: lone_def) (simp add: modify_def memcached_server_count_def)

lemma all_servers_split: "lone i c \<Longrightarrow> all_servers c = [0 ..< i] @ i # [Suc i ..< unat (memcached_server_count (c_memc c))]"
  unfolding all_servers_def lone_def by (metis le0 less_imp_le_nat upt_add_eq_append upt_conv_Cons le_add_diff_inverse)

lemma clear_servers_none: "(\<forall>j \<in> set is. cursor_active (server_of j c) = 0) \<Longrightarrow> clear_servers E is c = Some c"
  by (induction "is") auto

lemma end_lines_none: "(\<forall>j \<in> set is. cursor_active (server_of j c) = 0) \<Longrightarrow> end_lines E is rc c = Some (rc, c)"
  by (induction "is") auto

lemma end_lines_append: "end_lines E (xs @ ys) rc c = do { (rc, c) \<leftarrow> end_lines E xs rc c; end_lines E ys rc c }"
proof (induction xs arbitrary: rc c)
  case (Cons a xs)
  then show ?case by (cases "write_at E a [13, 10] c") auto
qed simp

text \<open>The next server with a response is number \<open>i\<close>, or there is none.\<close>

lemma poll_candidates_append:
  "(\<forall>p \<in> set ps. read_buffer_length p = 0 \<and> cursor_active p = 0) \<Longrightarrow> length fds < MAX_SERVERS_TO_POLL \<Longrightarrow>
   poll_candidates (ps @ qs) x fds = poll_candidates qs (x + length ps) fds"
  by (induction ps arbitrary: x) (auto simp: memcached_server_response_count_def)

lemma poll_candidates_none:
  "(\<forall>p \<in> set ps. read_buffer_length p = 0 \<and> cursor_active p = 0) \<Longrightarrow> poll_candidates ps x fds = Inr fds"
  by (induction ps arbitrary: x) (auto simp: memcached_server_response_count_def)

lemma readable_lone:
  assumes "lone i c" and "cursor_active (server_of i c) \<noteq> 0"
  shows "memcached_io_get_readable_server c = (Some i, c)"
proof -
  define n where "n = unat (memcached_server_count (c_memc c))"
  define ps where "ps = take n (servers (c_memc c))"
  have i: "i < n" "length ps = n" using assms(1) by (simp_all add: lone_def n_def ps_def)
  have at: "ps ! j = server_of j c" if "j < n" for j using that by (simp add: ps_def server_of_def)
  have others: "read_buffer_length (ps ! j) = 0 \<and> cursor_active (ps ! j) = 0" if "j < n" "j \<noteq> i" for j
    using that assms(1) at by (simp add: lone_def n_def)
  have split: "ps = take i ps @ ps ! i # drop (Suc i) ps" using i by (simp add: id_take_nth_drop)
  have "\<forall>p \<in> set (take i ps). read_buffer_length p = 0 \<and> cursor_active p = 0"
    using others i by (auto simp: in_set_conv_nth)
  from poll_candidates_append [OF this, of "[]" "ps ! i # drop (Suc i) ps" 0] i split
  have "poll_candidates ps 0 [] = poll_candidates (ps ! i # drop (Suc i) ps) i []" by (simp add: MAX_SERVERS_TO_POLL_def)
  moreover have "\<forall>p \<in> set (drop (Suc i) ps). read_buffer_length p = 0 \<and> cursor_active p = 0"
    using others i by (auto simp: in_set_conv_nth)
  ultimately have "poll_candidates ps 0 [] = (if 0 < read_buffer_length (ps ! i) then Inl i else Inr [i])"
    using assms(2) at [OF i(1)] poll_candidates_none [of "drop (Suc i) ps" "i + 1" "[i]"]
    by (simp add: MAX_SERVERS_TO_POLL_def memcached_server_response_count_def unat_gt_0 word_gt_0)
  moreover have "List.find (\<lambda>x. 0 < memcached_server_response_count (ps ! x)) [0 ..< n] = Some i"
    using assms(2) at others i by (auto simp: find_Some_iff memcached_server_response_count_def word_gt_0 intro!: exI [of _ i])
  ultimately show ?thesis
    using i by (simp add: memcached_io_get_readable_server_def Let_def flip: n_def ps_def)
qed

lemma readable_none:
  assumes "lone i c" and "cursor_active (server_of i c) = 0" and "read_buffer_length (server_of i c) = 0"
  shows "memcached_io_get_readable_server c = (None, c)"
proof -
  define n where "n = unat (memcached_server_count (c_memc c))"
  define ps where "ps = take n (servers (c_memc c))"
  have len: "length ps = n" using assms(1) by (simp add: lone_def n_def ps_def)
  have idle: "read_buffer_length (ps ! j) = 0 \<and> cursor_active (ps ! j) = 0" if "j < n" for j
    using that assms by (cases "j = i") (auto simp: lone_def n_def ps_def server_of_def)
  then have "poll_candidates ps 0 [] = Inr []" using len by (intro poll_candidates_none) (auto simp: in_set_conv_nth)
  moreover have "List.find (\<lambda>x. 0 < memcached_server_response_count (ps ! x)) [0 ..< n] = None"
    using idle by (auto simp: find_None_iff memcached_server_response_count_def)
  ultimately show ?thesis
    using len by (simp add: memcached_io_get_readable_server_def Let_def flip: n_def ps_def)
qed

section \<open>Sending the request\<close>

text \<open>The input of server \<open>i\<close>, the other servers and the settings are left alone.\<close>

definition kept :: "nat \<Rightarrow> client_st \<Rightarrow> client_st \<Rightarrow> bool" where
  "kept i c c' \<longleftrightarrow> connected i c' \<and> lone i c' \<and> incoming (view i c') = incoming (view i c) \<and> healthy (view i c') \<and>
     (\<exists>ps. c_memc c' = (c_memc c)\<lparr>servers := ps\<rparr>)"

lemma kept_trans: "kept i c d \<Longrightarrow> kept i d e \<Longrightarrow> kept i c e"
  by (auto simp: kept_def)

lemma queued_kept:
  assumes "connected i c" and "lone i c" and "healthy (view i c)" and "f (view i c) = Some (a, t)" and "queued (view i c) data t"
  shows "\<exists>c'. at_server i f c = Some (a, c') \<and> kept i c c' \<and> outgoing (view i c') = outgoing (view i c) @ data \<and>
     cursor_active (server_of i c') = cursor_active (server_of i c) \<and> (\<forall>n. ready n (view i c') = ready n t) \<and> net_sent (view i c') = net_sent t"
proof -
  let ?c = "put i (fd (server_of i c)) t c"
  have t: "memc t = c_memc c" "fd (server t) = fd (server_of i c)" "healthy t" "incoming t = incoming (view i c)"
    using assms(3,5) by (auto simp: queued_def output_only_def healthy_def incoming_def)
  note at = at_server_connected [where f = f, OF assms(1,4) t(2)]
  have "lone i ?c" using assms(2) t(1) by (intro lone_put) simp_all
  moreover have "c_memc ?c = (c_memc c)\<lparr>servers := (servers (c_memc c))[i := server t]\<rparr>" using t(1) by (simp add: c_memc_put)
  moreover have "server_of i ?c = server t" using assms(1) by (simp add: connected_def)
  ultimately show ?thesis
    using at t assms(5) by (auto simp: kept_def queued_def output_only_def ready_def accepting_def outgoing_def)
qed

lemma kept_increment:
  assumes "connected i c" and "lone i c" and "healthy (view i c)"
  shows "kept i c (modify i memcached_server_response_increment c) \<and>
     outgoing (view i (modify i memcached_server_response_increment c)) = outgoing (view i c)"
proof -
  let ?c = "modify i memcached_server_response_increment c"
  have i: "i < length (servers (c_memc c))" using assms(1) by (simp add: connected_def)
  have "view i ?c = (on_server memcached_server_response_increment (view i c))\<lparr>memc := c_memc ?c\<rparr>"
    by (rule view_modify [OF i]) (simp add: memcached_server_response_increment_def)
  moreover have "connected i ?c" using assms(1) i by (simp add: connected_def memcached_server_response_increment_def)
  moreover have "outgoing (on_server memcached_server_response_increment s) = outgoing s" for s
    by (simp add: outgoing_def waiting_def memcached_server_response_increment_def)
  ultimately show ?thesis using assms lone_modify [OF assms(2)] by (auto simp: kept_def modify_def)
qed

text \<open>The line for one key.\<close>

definition get_line :: "memcached_st \<Rightarrow> byte list \<Rightarrow> byte list" where
  "get_line m key = get_command (flags m) @ prefix_of m @ key @ [32, 13, 10]"

lemma get_line_sent:
  assumes "connected i c" and "lone i c" and "healthy (view i c)" and "cursor_active (server_of i c) = 0"
    and "ready (length (get_line (c_memc c) key)) (view i c)" and "1 < io_msg_watermark (c_memc c)"
    and "place_key E master key c0 = Some (i, c)"
  shows "\<exists>c1 c2. text_keys E (get_command (flags (c_memc c))) master [key] rc c0 = Some (MEMCACHED_SUCCESS, c1) \<and>
     end_lines E (all_servers c1) MEMCACHED_SUCCESS c1 = Some (MEMCACHED_SUCCESS, c2) \<and> kept i c c2 \<and>
     net_sent (view i c2) = outgoing (view i c) @ get_line (c_memc c) key \<and> cursor_active (server_of i c2) = 1"
proof -
  let ?vs = "get_command (flags (c_memc c)) # key_vector (c_memc c) key"
  have concat: "concat ?vs @ [13, 10] = get_line (c_memc c) key" by (simp add: key_vector_def get_line_def)
  then have "length (concat ?vs) + 2 = length (get_line (c_memc c) key)"
    by (metis length_append length_Cons list.size(3) numeral_2_eq_2)
  then have "ready (2 + length (concat ?vs)) (view i c)" using assms(5) by (simp add: add.commute)
  from writev_loop_accepts [OF this, of "ce_io E" 0] obtain t where
    t: "memcached_io_writev (ce_io E) ?vs False (view i c) = Some (int (length (concat ?vs)), t)" "ready 2 t" "queued (view i c) (concat ?vs) t"
    by (auto simp: memcached_io_writev_def)
  from queued_kept [where f = "memcached_io_writev (ce_io E) ?vs False", OF assms(1-3) t(1,3)] t(2) obtain c0' where
    c0: "writev_at E i ?vs False c = Some (int (length (concat ?vs)), c0')" "kept i c c0'" "ready 2 (view i c0')"
      "outgoing (view i c0') = outgoing (view i c) @ concat ?vs" "cursor_active (server_of i c0') = 0"
    using assms(4) by (auto simp: writev_at_def)
  define c1 where "c1 = modify i memcached_server_response_increment c0'"
  from kept_increment [of i c0'] c0(2) have c1: "kept i c0' c1" "outgoing (view i c1) = outgoing (view i c0')"
    by (simp_all add: kept_def c1_def)
  have len: "i < length (servers (c_memc c0'))" using c0(2) by (simp add: kept_def connected_def)
  then have one: "cursor_active (server_of i c1) = 1" using c0(5) by (simp add: c1_def memcached_server_response_increment_def)
  have keys: "text_keys E (get_command (flags (c_memc c))) master [key] rc c0 = Some (MEMCACHED_SUCCESS, c1)"
    using assms(1,4,7) c0(1) by (simp add: c1_def memcached_server_response_count_def Let_def)
  have "io_msg_watermark (c_memc c0') = io_msg_watermark (c_memc c)" using c0(2) by (auto simp: kept_def)
  moreover have "view i c1 = (on_server memcached_server_response_increment (view i c0'))\<lparr>memc := c_memc c1\<rparr>"
    unfolding c1_def by (rule view_modify [OF len]) (simp add: memcached_server_response_increment_def)
  moreover have "io_msg_watermark (c_memc c1) = io_msg_watermark (c_memc c0')" by (simp add: c1_def modify_def)
  ultimately have "ready (0 + length [13 :: byte, 10]) (view i c1)"
    using c0(3,5) assms(6)
    by (simp add: ready_def accepting_def output_wf_def memcached_server_response_increment_def)
  from io_write_accepts [OF this, of "ce_io E"] obtain u where
    u: "memcached_io_write (ce_io E) [13, 10] True (view i c1) = Some (2, u)" "queued (view i c1) [13, 10] u"
      "net_sent u = outgoing (view i c1) @ [13, 10]" by auto
  have k1: "connected i c1" "lone i c1" "healthy (view i c1)" using c1(1) by (simp_all add: kept_def)
  from queued_kept [where f = "memcached_io_write (ce_io E) [13, 10] True", OF k1 u(1,2)] u(3) one obtain c2 where
    c2: "write_at E i [13, 10] c1 = Some (2, c2)" "kept i c1 c2" "net_sent (view i c2) = outgoing (view i c1) @ [13, 10]"
      "cursor_active (server_of i c2) = 1" by (auto simp: write_at_def)
  have "lone i c2" using c2(2) by (simp add: kept_def)
  then have "end_lines E (all_servers c1) MEMCACHED_SUCCESS c1 = Some (MEMCACHED_SUCCESS, c2)"
    using k1(2) one c2(1,2) unfolding all_servers_split [OF k1(2)] end_lines_append
    by (auto simp: end_lines_none lone_def memcached_server_response_count_def kept_def memcached_server_count_def)
  moreover have "net_sent (view i c2) = outgoing (view i c) @ get_line (c_memc c) key"
    using c2(3) c1(2) c0(4) concat by simp
  ultimately show ?thesis
    using keys c2(4) kept_trans [OF kept_trans [OF c0(2) c1(1)] c2(2)] by blast
qed

section \<open>Receiving the answer\<close>

lemma response_at_one:
  assumes "connected i c" and "lone i c" and "\<not> no_block (flags (c_memc c))" and "cursor_active (server_of i c) = 1"
    and "memcached_read_one_response (ce_io E) buf (result (c_memc c)) (view i c) = Some (rc, buf', res', t)"
    and "memc t = c_memc c" and "fd (server t) = fd (server_of i c)"
  shows "\<exists>c'. response_at_server E i buf c = Some ((rc, buf'), c') \<and> connected i c' \<and> lone i c' \<and>
     view i c' = t\<lparr>memc := c_memc c'\<rparr> \<and> (\<exists>ps. c_memc c' = (c_memc c)\<lparr>servers := ps, result := res'\<rparr>)"
proof -
  define u where "u = t\<lparr>memc := (memc t)\<lparr>result := res'\<rparr>\<rparr>"
  let ?f = "\<lambda>s. do { s \<leftarrow> send_before_reading (ce_io E) s; (rc, buf, s) \<leftarrow> with_root_result (response_loop (ce_io E) buf) s; Some ((rc, buf), s) }"
  have f: "?f (view i c) = Some ((rc, buf'), u)"
    using response_single [of "view i c" "ce_io E"] assms(3,4,5) by (simp add: with_root_result_def u_def)
  have fd: "fd (server u) = fd (server_of i c)" using assms(7) by (simp add: u_def)
  note at = at_server_connected [where f = ?f, OF assms(1) f fd]
  let ?c = "put i (fd (server_of i c)) u c"
  have m: "c_memc ?c = (c_memc c)\<lparr>servers := (servers (c_memc c))[i := server u], result := res'\<rparr>"
    using assms(6) by (simp add: c_memc_put u_def)
  moreover have "lone i ?c"
    by (rule lone_put [OF assms(2)]) (simp add: u_def assms(6) memcached_server_count_def)
  moreover have "view i ?c = t\<lparr>memc := c_memc ?c\<rparr>" using at by (simp add: c_memc_put u_def)
  ultimately show ?thesis using at by (auto simp: response_at_server_def)
qed

lemma fetch_value:
  assumes "connected i c" and "lone i c" and "healthy (view i c)" and "cursor_active (server_of i c) = 1"
    and "one_by_one (flags (c_memc c))" and "\<not> binary_protocol (flags (c_memc c))"
    and "incoming (view i c) = value_line word fl (length data) @ data @ [13, 10] @ rest" and "room_for (ce_io E) (length data) (result (c_memc c))"
    and "graphic word" and "length word < MEMCACHED_MAX_KEY" and "prefix_key_length (c_memc c) \<le> length word"
    and "length (value_line word fl (length data)) < MEMCACHED_DEFAULT_COMMAND_SIZE" and "data \<noteq> []" and "ce_malloc E (length data + 1)"
    and "out_key out = None"
  shows "\<exists>c'. memcached_fetch E out c = Some ((Some (data @ [0]),
       out\<lparr>out_error := MEMCACHED_SUCCESS, out_length := length data, out_flags := fl\<rparr>), c') \<and>
     connected i c' \<and> lone i c' \<and> healthy (view i c') \<and> cursor_active (server_of i c') = 1 \<and> incoming (view i c') = rest \<and>
     net_sent (view i c') = net_sent (view i c) \<and> flags (c_memc c') = flags (c_memc c)"
proof -
  let ?b = "local_buffer (ce_io E) MEMCACHED_DEFAULT_COMMAND_SIZE"
  from value_response [OF assms(3,7,8) _ _ assms(9,10), of ?b] assms(5,6,11,12) obtain buf res' t where
    t: "memcached_read_one_response (ce_io E) ?b (result (c_memc c)) (view i c) = Some (MEMCACHED_SUCCESS, buf, res', t)" "incoming t = rest"
      "healthy t" "input_only (view i c) t" "holds_value res' (drop (prefix_key_length (c_memc c)) word) data fl"
    by (auto simp: one_by_one_def)
  have m: "memc t = c_memc c" "fd (server t) = fd (server_of i c)" "cursor_active (server t) = 1" "net_sent t = net_sent (view i c)"
    using t(4) assms(4) by (simp_all add: input_only_def)
  from response_at_one [OF assms(1,2) _ assms(4) t(1) m(1,2)] assms(5) obtain c' ps where
    c': "response_at_server E i ?b c = Some ((MEMCACHED_SUCCESS, buf), c')" "connected i c'" "lone i c'"
      "view i c' = t\<lparr>memc := c_memc c'\<rparr>" "c_memc c' = (c_memc c)\<lparr>servers := ps, result := res'\<rparr>" by (auto simp: one_by_one_def)
  have "fetch_loop E None error c = Some ((True, MEMCACHED_SUCCESS, None), c')" for error
    using readable_lone [OF assms(2)] assms(4) c'(1) by (subst fetch_loop.simps) (simp add: response_into_def Let_def)
  then have "memcached_fetch_result E Client_result (out_error out) c = Some ((True, MEMCACHED_SUCCESS, None), c')"
    using assms(5) by (simp add: memcached_fetch_result_def one_by_one_def)
  moreover have "str_end (result_value_st res') = length data" "take (str_end (result_value_st res')) (block (str_buf (result_value_st res'))) = data"
    "item_flags res' = fl"
    using t(5) by (auto simp: holds_value_def string_wf_def string_contents_def)
  moreover have "server_of i c' = server t" using c'(4) by (metis view_simps(1) io_st.select_convs(1) io_st.simps(9) io_st.surjective io_st.update_convs(2))
  ultimately show ?thesis
    using c' t m assms(5,13-15)
    by (simp add: memcached_fetch_def one_by_one_def Let_def value_copy_def memcached_string_c_copy_def memcached_string_length_def
        memcached_string_value_def)
qed

lemma fetch_end:
  assumes "connected i c" and "lone i c" and "healthy (view i c)" and "cursor_active (server_of i c) = 1"
    and "one_by_one (flags (c_memc c))" and "\<not> binary_protocol (flags (c_memc c))" and "incoming (view i c) = end_line"
  shows "\<exists>out' c'. memcached_fetch E out c = Some ((None, out'), c') \<and> out_error out' = MEMCACHED_END \<and> cursor_active (server_of i c') = 0 \<and>
     incoming (view i c') = [] \<and> net_sent (view i c') = net_sent (view i c)"
proof -
  let ?b = "local_buffer (ce_io E) MEMCACHED_DEFAULT_COMMAND_SIZE"
  from end_response [OF assms(3), of "[]" ?b "ce_io E" "result (c_memc c)"] assms(6,7) obtain buf t where
    t: "memcached_read_one_response (ce_io E) ?b (result (c_memc c)) (view i c) = Some (MEMCACHED_END, buf, result (c_memc c), t)"
      "incoming t = []" "healthy t" "input_only (on_server memcached_server_response_decrement (view i c)) t" by auto
  have m: "memc t = c_memc c" "fd (server t) = fd (server_of i c)" "net_sent t = net_sent (view i c)"
    using t(4) by (simp_all add: input_only_def memcached_server_response_decrement_def)
  from response_at_one [OF assms(1,2) _ assms(4) t(1) m(1,2)] assms(5) obtain c1 ps where
    c1: "response_at_server E i ?b c = Some ((MEMCACHED_END, buf), c1)" "connected i c1" "lone i c1"
      "view i c1 = t\<lparr>memc := c_memc c1\<rparr>" by (auto simp: one_by_one_def)
  let ?c2 = "modify i memcached_server_response_reset c1"
  have i: "i < length (servers (c_memc c1))" using c1(2) by (simp add: connected_def)
  have s1: "server_of i c1 = server t" using c1(4) by (metis view_simps(1) io_st.select_convs(1) io_st.simps(9) io_st.surjective io_st.update_convs(2))
  have "buffered (server t) = []" using t(2) by (simp add: incoming_def)
  then have "read_buffer_length (server t) = 0" by (simp add: buffered_def)
  then have c2: "cursor_active (server_of i ?c2) = 0" "read_buffer_length (server_of i ?c2) = 0"
    using i s1 by (simp_all add: memcached_server_response_reset_def)
  have v2: "view i ?c2 = (on_server memcached_server_response_reset (view i c1))\<lparr>memc := c_memc ?c2\<rparr>"
    by (rule view_modify [OF i]) (simp add: memcached_server_response_reset_def)
  have out: "incoming (view i ?c2) = []" "net_sent (view i ?c2) = net_sent (view i c)"
    using t(2) m(3) c1(4) by (simp_all add: v2 incoming_def buffered_def buffer_bytes_def memcached_server_response_reset_def)
  have "fetch_loop E None error c = Some ((False, MEMCACHED_END, None), ?c2)" for error
    using readable_lone [OF assms(2)] assms(4) c1(1) readable_none [OF lone_modify [OF c1(3)] c2]
    by (subst fetch_loop.simps) (simp add: response_into_def Let_def fetch_loop.simps [of E None MEMCACHED_END ?c2])
  then have "\<exists>c'. memcached_fetch_result E Client_result (out_error out) c = Some ((False, MEMCACHED_END, None), c') \<and>
      server_of i c' = server_of i ?c2 \<and> incoming (view i c') = incoming (view i ?c2) \<and> net_sent (view i c') = net_sent (view i ?c2)"
    using assms(5)
    by (simp add: memcached_fetch_result_def one_by_one_def fetch_ended_def Let_def server_of_def view_def incoming_def)
  with c2 out assms(5) show ?thesis
    by (auto simp: memcached_fetch_def one_by_one_def Let_def)
qed

section \<open>One value\<close>

text \<open>What the server sends for a key that it has.\<close>

definition value_answer :: "byte list \<Rightarrow> u32 \<Rightarrow> byte list \<Rightarrow> byte list" where
  "value_answer word fl data = value_line word fl (length data) @ data @ [13, 10] @ end_line"

text \<open>The request fits into one line of the client, and so does the answer.\<close>

definition word_fits :: "memcached_st \<Rightarrow> byte list \<Rightarrow> u32 \<Rightarrow> nat \<Rightarrow> bool" where
  "word_fits m key fl n \<longleftrightarrow> graphic (prefix_of m @ key) \<and> length (prefix_of m) = prefix_key_length m \<and>
     length (prefix_of m @ key) < MEMCACHED_MAX_KEY \<and> length (value_line (prefix_of m @ key) fl n) < MEMCACHED_DEFAULT_COMMAND_SIZE"

lemma memcached_get_value:
  assumes "memcached_server_count (c_memc c) \<noteq> 0" and "verify_key (flags (c_memc c)) \<longrightarrow> memcached_key_test [key] = MEMCACHED_SUCCESS"
    and "\<not> binary_protocol (flags (c_memc c))" and "one_by_one (flags (c_memc c))"
    and "locate E key c = Some (i, c1)" and "c_memc c1 = c_memc c" and "lone i c1" and "1 < io_msg_watermark (c_memc c)"
    and "idle i (length (get_line (c_memc c) key)) c1" and "incoming (view i c1) = value_answer (prefix_of (c_memc c) @ key) fl data"
    and "word_fits (c_memc c) key fl (length data)" and "room_for (ce_io E) (length data) (result (c_memc c))" and "data \<noteq> []"
    and "ce_malloc E (length data + 1)"
  shows "\<exists>out' c'. memcached_get E key out c = Some ((Some (data @ [0]), out'), c') \<and> out_error out' = MEMCACHED_SUCCESS \<and>
     out_length out' = length data \<and> out_flags out' = fl \<and> incoming (view i c') = [] \<and> cursor_active (server_of i c') = 0 \<and>
     net_sent (view i c') = outgoing (view i c1) @ get_line (c_memc c) key"
proof -
  let ?m = "c_memc c" and ?word = "prefix_of (c_memc c) @ key"
  have c1: "connected i c1" "healthy (view i c1)" "cursor_active (server_of i c1) = 0" "ready (length (get_line ?m key)) (view i c1)"
    using assms(9) by (simp_all add: idle_def)
  have servers: "server_of j c = server_of j c1" for j using assms(6) by (simp add: server_of_def)
  have "\<forall>j \<in> set (all_servers c). cursor_active (server_of j c) = 0"
    using assms(6,7) c1(3) by (auto simp: all_servers_def lone_def servers)
  then have clear: "clear_servers E (all_servers c) c = Some c" by (rule clear_servers_none)
  have place: "place_key E None key c = Some (i, c1)" using assms(5) by (simp add: place_key_def)
  from get_line_sent [OF c1(1) assms(7) c1(2,3), of key E None c MEMCACHED_NOTFOUND] c1(4) assms(6,8) place obtain d c2 where
    sent: "text_keys E (get_command (flags ?m)) None [key] MEMCACHED_NOTFOUND c = Some (MEMCACHED_SUCCESS, d)"
      "end_lines E (all_servers d) MEMCACHED_SUCCESS d = Some (MEMCACHED_SUCCESS, c2)" "kept i c1 c2"
      "net_sent (view i c2) = outgoing (view i c1) @ get_line ?m key" "cursor_active (server_of i c2) = 1" by auto
  from sent(3) obtain ps where m2: "c_memc c2 = ?m\<lparr>servers := ps\<rparr>" using assms(6) by (auto simp: kept_def)
  have k2: "connected i c2" "lone i c2" "healthy (view i c2)" "incoming (view i c2) = value_answer ?word fl data"
    using sent(3) assms(10) by (simp_all add: kept_def)
  have real: "memcached_mget_by_key_real E None [key] False c = Some (MEMCACHED_SUCCESS, c2)"
    using assms(1-4) clear sent(1,2)
    by (simp add: memcached_mget_by_key_real_def one_by_one_def Let_def)
  let ?out = "out\<lparr>out_key := None, out_error := MEMCACHED_SUCCESS\<rparr>"
  from fetch_value [OF k2(1-3) sent(5), where word = ?word and data = data and fl = fl and rest = end_line and E = E and out = ?out]
    k2(4) m2 assms(3,4,11-14) obtain c3 where
    f: "memcached_fetch E ?out c2 = Some ((Some (data @ [0]), ?out\<lparr>out_error := MEMCACHED_SUCCESS, out_length := length data, out_flags := fl\<rparr>), c3)"
      "connected i c3" "lone i c3" "healthy (view i c3)" "cursor_active (server_of i c3) = 1" "incoming (view i c3) = end_line"
      "net_sent (view i c3) = net_sent (view i c2)" "flags (c_memc c3) = flags ?m"
    by (auto simp: value_answer_def word_fits_def)
  from fetch_end [OF f(2-5) _ _ f(6), of E "out\<lparr>out_key := None, out_length := length data, out_flags := fl, out_error := MEMCACHED_FAILURE\<rparr>"] f(8) assms(3,4) obtain out' c4 where
    e: "memcached_fetch E (out\<lparr>out_key := None, out_length := length data, out_flags := fl, out_error := MEMCACHED_FAILURE\<rparr>) c3 = Some ((None, out'), c4)"
      "cursor_active (server_of i c4) = 0" "incoming (view i c4) = []" "net_sent (view i c4) = net_sent (view i c3)" by auto
  show ?thesis
    using real f(1,7) e sent(4) assms(4)
    by (simp add: memcached_get_def memcached_get_by_key_def one_by_one_def)
qed

end
