(* ===== verification/Client_Roundtrip.thy ===== *)
theory Client_Roundtrip
  imports Client_Value Client_Server Client_Reach
begin

text \<open>
  The retrieval of a value: the line that \<open>memcached_get\<close> sends is executed by the protocol server of the same source
  tree, and what the server puts into its output is what \<open>memcached_get\<close> reads.
\<close>

section \<open>Room in the output of the server\<close>

definition roomy :: "proto_env \<Rightarrow> nat \<Rightarrow> memcached_protocol_client_st \<Rightarrow> bool" where
  "roomy S n c \<longleftrightarrow> \<not> mute c \<and>
     (client_output c = [] \<and> n \<le> CHUNK_BUFFERSIZE \<and> fst (cache_alloc (env_malloc S) (buffer_cache (root c))) \<noteq> None \<or>
      (\<exists>ch. client_output c = [ch] \<and> chunk_ok ch \<and> n \<le> chunk_room ch))"

definition same_line :: "memcached_protocol_client_st \<Rightarrow> memcached_protocol_client_st \<Rightarrow> bool" where
  "same_line c c' \<longleftrightarrow> input_buffer (root c') = input_buffer (root c) \<and> ascii_command c' = ascii_command c"

lemma same_line_trans [trans]: "same_line a b \<Longrightarrow> same_line b c \<Longrightarrow> same_line a c"
  by (simp add: same_line_def)

lemma roomy_chunk:
  assumes "client_output c = [ch]" and "chunk_ok ch" and "length d + n \<le> chunk_room ch" and "\<not> mute c" and "d \<noteq> []"
  shows "spool_loop S d 0 0 c = (PROTOCOL_BINARY_RESPONSE_SUCCESS, c\<lparr>client_output := [ch\<lparr>chunk_data := chunk_data ch @ d\<rparr>]\<rparr>)"
    and "roomy S n (c\<lparr>client_output := [ch\<lparr>chunk_data := chunk_data ch @ d\<rparr>]\<rparr>)"
proof -
  have w: "writable_chunk S c 0 = (Some 0, c)" using assms(1,3,5) by (auto simp: writable_chunk_def)
  from spool_one_chunk [of c "[]" ch "[]" S c 0 d] w assms
  show "spool_loop S d 0 0 c = (PROTOCOL_BINARY_RESPONSE_SUCCESS, c\<lparr>client_output := [ch\<lparr>chunk_data := chunk_data ch @ d\<rparr>]\<rparr>)"
    by (simp add: write_chunk_def)
  show "roomy S n (c\<lparr>client_output := [ch\<lparr>chunk_data := chunk_data ch @ d\<rparr>]\<rparr>)"
    using assms by (auto simp: roomy_def chunk_ok_def chunk_room_def)
qed

lemma roomy_spool:
  assumes "roomy S (length d + n) c"
  shows "\<exists>c'. spool_output S c d = (PROTOCOL_BINARY_RESPONSE_SUCCESS, c') \<and> pending c' = pending c @ d \<and> roomy S n c' \<and> same_line c c'"
proof (cases "d = []")
  case True
  with assms show ?thesis by (simp add: spool_output_def roomy_def same_line_def)
next
  case False
  have mute: "\<not> mute c" using assms by (simp add: roomy_def)
  from assms consider (empty) "client_output c = []" "length d + n \<le> CHUNK_BUFFERSIZE"
      "fst (cache_alloc (env_malloc S) (buffer_cache (root c))) \<noteq> None"
    | (chunk) ch where "client_output c = [ch]" "chunk_ok ch" "length d + n \<le> chunk_room ch"
    by (auto simp: roomy_def)
  then show ?thesis
  proof cases
    case empty
    then obtain b p where a: "cache_alloc (env_malloc S) (buffer_cache (root c)) = (Some b, p)"
      by (cases "cache_alloc (env_malloc S) (buffer_cache (root c))") auto
    let ?ch = "\<lparr>chunk_block = b, chunk_data = [], chunk_offset = 0, chunk_size = CHUNK_BUFFERSIZE\<rparr>"
    let ?c = "(set_cache p c)\<lparr>client_output := [?ch]\<rparr>"
    have w: "writable_chunk S c 0 = (Some 0, ?c)" by (simp add: writable_chunk_new empty(1) a)
    have chunk: "chunk_ok ?ch" "length d + n \<le> chunk_room ?ch" using empty(2) by (simp_all add: chunk_ok_def chunk_room_def)
    from spool_one_chunk [of ?c "[]" ?ch "[]" S c 0 d] w chunk False
    have "spool_loop S d 0 0 c = (PROTOCOL_BINARY_RESPONSE_SUCCESS, ?c\<lparr>client_output := [?ch\<lparr>chunk_data := chunk_data ?ch @ d\<rparr>]\<rparr>)"
      by (simp add: write_chunk_def)
    moreover have "roomy S n (?c\<lparr>client_output := [?ch\<lparr>chunk_data := chunk_data ?ch @ d\<rparr>]\<rparr>)"
      using roomy_chunk(2) [of ?c ?ch d n S] chunk mute False by simp
    ultimately show ?thesis
      using mute empty(1)
      by (simp add: spool_output_def pending_def chunk_pending_def same_line_def) (simp add: set_cache_def)
  next
    case chunk
    with roomy_chunk [OF chunk mute False, of S] mute show ?thesis
      by (simp add: spool_output_def pending_def chunk_pending_def same_line_def chunk_ok_def)
  qed
qed

lemma roomy_mute: "roomy S n c \<Longrightarrow> \<not> mute c" by (simp add: roomy_def)

lemma roomy_say:
  assumes "roomy S (length d + n) (snd s)"
  shows "\<exists>c. say S d s = (fst s, c) \<and> pending c = pending (snd s) @ d \<and> roomy S n c \<and> same_line (snd s) c"
  using roomy_spool [OF assms] by (auto simp: say_def spool_string_def)

section \<open>A line of keys\<close>

lemma key_ok_graphic: "key_ok word \<Longrightarrow> takeWhile (\<lambda>b. b \<noteq> 0 \<and> \<not> isspace b \<and> \<not> iscntrl b) word = word"
  by (simp add: key_ok_def takeWhile_eq_all_conv)

text \<open>The header of a value fits into the buffer of the response handler.\<close>

definition header_fits_in :: "byte list \<Rightarrow> u32 \<Rightarrow> nat \<Rightarrow> bool" where
  "header_fits_in word fl n \<longleftrightarrow> length (value_line word fl n) < 300 \<and> n < 2 ^ 32"

definition answered :: "byte list \<Rightarrow> u32 \<Rightarrow> byte list \<Rightarrow> byte list" where
  "answered word fl data = value_line word fl (length data) @ data @ [13, 10]"

lemma get_answered:
  assumes "key_ok word" and "take (length word) k = word" and "header_fits_in word fl (length data)" and "ascii_command c = GET_CMD"
    and "roomy S (length (answered word fl data) + n) c"
  shows "\<exists>c'. ascii_get_response_handler S k (of_nat (length word)) data (of_nat (length data)) fl cas c =
      Some (PROTOCOL_BINARY_RESPONSE_SUCCESS, c') \<and> pending c' = pending c @ answered word fl data \<and> roomy S n c' \<and> same_line c c'"
proof -
  let ?head = "value_line word fl (length data)"
  have numbers: "unat (of_nat (length word) :: u16) = length word" "unat (of_nat (length data) :: u32) = length data"
    using assms(1,3) by (simp_all add: key_ok_def header_fits_in_def unat_of_nat)
  have six: "length (bytes ''VALUE '') = 6" by (simp add: bytes_def)
  have "300 - (6 + length word) - 1 \<ge> length ([32] @ dec_digits (unat fl) @ [32] @ dec_digits (length data) @ crlf)" "length word < 294"
    using assms(3) six by (auto simp: header_fits_in_def value_line_def crlf_def)
  then have header: "value_header word ([32] @ dec_digits (unat fl) @ [32] @ dec_digits (length data) @ crlf) = Some ?head"
    by (simp add: value_header_def Let_def value_line_def crlf_def)
  have room: "roomy S (length ?head + (length data + (length crlf + n))) c"
    using assms(5) by (simp add: answered_def crlf_def add.assoc)
  from roomy_spool [OF room] obtain c1 where
    c1: "spool_string S ?head c = c1" "pending c1 = pending c @ ?head" "roomy S (length data + (length crlf + n)) c1" "same_line c c1"
    by (auto simp: spool_string_def)
  from roomy_spool [OF c1(3)] obtain c2 where
    c2: "spool_mem S c1 data (length data) = Some (PROTOCOL_BINARY_RESPONSE_SUCCESS, c2)" "pending c2 = pending c1 @ data"
      "roomy S (length crlf + n) c2" "same_line c1 c2"
    by (auto simp: spool_mem_def)
  from roomy_spool [OF c2(3)] obtain c3 where
    c3: "spool_string S crlf c2 = c3" "pending c3 = pending c2 @ crlf" "roomy S n c3" "same_line c2 c3"
    by (auto simp: spool_string_def)
  have "ascii_get_response_handler S k (of_nat (length word)) data (of_nat (length data)) fl cas c = Some (PROTOCOL_BINARY_RESPONSE_SUCCESS, c3)"
    unfolding ascii_get_response_handler_def Let_def numbers assms(2) key_ok_graphic [OF assms(1)]
    using assms(1,4) header c1(1) c2(1) c3(1) by (simp add: key_ok_def)
  moreover have "same_line c c3" using c1(4) c2(4) c3(4) by (simp add: same_line_def)
  ultimately show ?thesis using c1(2) c2(2) c3(2,3) by (auto simp: answered_def crlf_def)
qed

text \<open>What the application, in the state \<open>app\<close>, promises of one key: that it hands out the value that is stored.\<close>

definition hands_out ::
  "'a \<Rightarrow> (byte list \<Rightarrow> u16 \<Rightarrow> get_response \<Rightarrow> ('a, status) act) \<Rightarrow> byte list \<Rightarrow> byte list \<Rightarrow> u32 \<Rightarrow> u64 \<Rightarrow> bool" where
  "hands_out app get word data fl cas \<longleftrightarrow> (\<forall>k resp s. fst s = app \<longrightarrow> take (length word) k = word \<longrightarrow>
     get k (of_nat (length word)) resp s =
       on_client (resp k (of_nat (length word)) data (of_nat (length data)) fl cas) s)"

lemma gets_step:
  assumes "key < fin" and "parse_ascii_key (buffer s) key = Some (of_nat (length word), p)" and "take (length word) (drop p (buffer s)) = word"
    and "key_ok word" and "hands_out (fst s) get word data fl cas" and "header_fits_in word fl (length data)" and "ascii_command (snd s) = GET_CMD"
    and "roomy S (length (answered word fl data) + n) (snd s)"
  shows "\<exists>t. gets_loop S get key fin k s = gets_loop S get (p + length word) fin (k + 1) t \<and> fst t = fst s \<and>
     pending (snd t) = pending (snd s) @ answered word fl data \<and> roomy S n (snd t) \<and> same_line (snd s) (snd t)"
proof -
  from get_answered [OF assms(4,3,6-8)] obtain c where
    c: "ascii_get_response_handler S (drop p (buffer s)) (of_nat (length word)) data (of_nat (length data)) fl cas (snd s) =
        Some (PROTOCOL_BINARY_RESPONSE_SUCCESS, c)"
      "pending c = pending (snd s) @ answered word fl data" "roomy S n c" "same_line (snd s) c" by blast
  have len: "unat (of_nat (length word) :: u16) = length word" using assms(4) by (simp add: key_ok_def unat_of_nat)
  have "get (drop p (buffer s)) (of_nat (length word)) (ascii_get_response_handler S) s = Some (PROTOCOL_BINARY_RESPONSE_SUCCESS, fst s, c)"
    using assms(3,5) c(1) by (cases s) (simp add: hands_out_def on_client_def)
  then have "gets_loop S get key fin k s = gets_loop S get (p + length word) fin (k + 1) (fst s, c)"
    using key_length_not_0 [OF assms(4)] assms(1,2) len by (subst gets_loop.simps) simp
  with c show ?thesis by (intro exI [of _ "(fst s, c)"]) simp
qed

lemma buffer_same: "same_line (snd s) (snd t) \<Longrightarrow> buffer t = buffer s" "same_line (snd s) (snd t) \<Longrightarrow> ascii_command (snd t) = ascii_command (snd s)"
  by (simp_all add: same_line_def buffer_def)

text \<open>Blanks in front of a word, or of the end of a string.\<close>

lemma skip_spaces:
  "(\<forall>b \<in> set sp. isspace b) \<Longrightarrow> \<not> isspace c \<Longrightarrow> skip_space (pre @ sp @ c # post) (length pre) = Some (length pre + length sp)"
proof (induction sp arbitrary: pre)
  case Nil
  then show ?case by (subst skip_space.simps) simp
next
  case (Cons b sp)
  from Cons.IH [of "pre @ [b]"] Cons.prems show ?case by (subst skip_space.simps) simp
qed

lemma parse_key_after:
  assumes "\<forall>b \<in> set sp. isspace b" and "key_ok word" and "c \<in> {0, 32, 13}"
  shows "parse_ascii_key (pre @ sp @ word @ c # post) (length pre) = Some (of_nat (length word), length pre + length sp)"
proof -
  obtain b ks where word: "word = b # ks" "\<not> isspace b" using assms(2) by (cases word) (auto simp: key_ok_def)
  have skip: "skip_space (pre @ sp @ word @ c # post) (length pre) = skip_space ((pre @ sp) @ word @ c # post) (length (pre @ sp))"
    using skip_spaces [OF assms(1) word(2), of pre "ks @ c # post"] skip_spaces [of "[]" b "pre @ sp" "ks @ c # post"] word by simp
  then have "parse_ascii_key (pre @ sp @ word @ c # post) (length pre) = parse_ascii_key ((pre @ sp) @ word @ c # post) (length (pre @ sp))"
    by (simp add: parse_ascii_key_def)
  with parse_key_ok [OF assms(2,3), of "pre @ sp" post] show ?thesis by simp
qed

lemma parse_key_none:
  assumes "\<forall>b \<in> set sp. isspace b"
  shows "parse_ascii_key (pre @ sp @ 0 # post) (length pre) = Some (0, length pre + length sp)"
proof -
  have "\<not> isspace 0" by (simp add: isspace_def)
  from skip_spaces [OF assms this, of pre post] have "skip_space (pre @ sp @ 0 # post) (length pre) = Some (length (pre @ sp))" by simp
  moreover have "scan_key (pre @ sp @ 0 # post) (length (pre @ sp)) 0 = Some (length (pre @ sp), 0)"
    by (subst scan_key.simps) (simp add: nth_append)
  ultimately show ?thesis by (simp add: parse_ascii_key_def)
qed

section \<open>The line of the client at the server\<close>

definition request_line :: "byte list \<Rightarrow> byte list" where
  "request_line word = bytes ''get '' @ word @ [32, 13, 10]"

lemma get_line_request: "\<not> support_cas (flags m) \<Longrightarrow> get_line m key = request_line (prefix_of m @ key)"
  by (simp add: get_line_def get_command_def request_line_def)

lemma get_bytes: "bytes ''get '' = [103, 101, 116, 32]"
  by (simp add: bytes_def)

lemma get_four [simp]: "length (bytes ''get '') = 4"
  by (simp add: get_bytes)

lemma length_request [simp]: "length (request_line word) = length word + 7"
  by (simp add: request_line_def get_bytes)

lemma request_executed:
  assumes "buffer s = request_line word @ tail" and "key_ok word" and "v1_get cb = Some get"
  shows "memcached_ascii_protocol_process_data S cb (length word + 7) s =
    (case gets_loop S get 4 (length word + 6) 0 (set_ascii_command GET_CMD s) of
       None \<Rightarrow> None
     | Some (n, t) \<Rightarrow> Some (MEMCACHED_PROTOCOL_READ_EVENT, 0, length word + 7,
         if n = 0 then send_command_usage S t else say S end_line t))"
proof -
  have line: "request_line word = (bytes ''get '' @ word @ [32, 13]) @ [10]" by (simp add: request_line_def)
  have "10 \<notin> set (bytes ''get '' @ word @ [32, 13])" using assms(2) by (auto simp: key_ok_def get_bytes isspace_def)
  moreover have "take (length word + 7) (buffer s) = (bytes ''get '' @ word @ [32, 13]) @ 10 # []"
    unfolding assms(1) line [symmetric] length_request [symmetric] take_append by (simp add: line)
  ultimately have index: "index_of 10 (take (length word + 7) (buffer s)) = Some (length word + 6)"
    using index_of_line [of "bytes ''get '' @ word @ [32, 13]" "[]"] by (simp add: get_bytes)
  have "ascii_to_cmd (buffer s) 0 (length word + 7) = GET_CMD"
    by (simp add: assms(1) request_line_def get_bytes ascii_to_cmd_def ascii_commands_def command_bytes isspace_def)
  then have "process_line S cb 0 (length word + 6) (length word + 7) s =
      map_option (Next (length word + 6)) (ascii_process_gets S get 0 (length word + 6) (set_ascii_command GET_CMD s))"
    by (simp add: process_line_def assms(3) Let_def)
  moreover have "bytes ''END'' @ crlf = end_line" by (simp add: end_line_def crlf_def)
  ultimately show ?thesis
    using index unfolding memcached_ascii_protocol_process_data_def
    by (subst ascii_loop.simps)
      (simp add: ascii_process_gets_def map_conv_bind_option set_ascii_command_def split: option.split prod.split)
qed

text \<open>The first key of the line is answered; then the server goes on at the blank behind it.\<close>

lemma request_first_key:
  assumes "buffer s = request_line word @ tail" and "key_ok word" and "hands_out (fst s) get word data fl cas"
    and "header_fits_in word fl (length data)" and "roomy S (length (answered word fl data) + n) (snd s)"
  shows "\<exists>t. gets_loop S get 4 (length word + 6) 0 (set_ascii_command GET_CMD s) = gets_loop S get (length word + 4) (length word + 6) 1 t \<and>
     fst t = fst s \<and> pending (snd t) = pending (snd s) @ answered word fl data \<and> roomy S n (snd t) \<and> buffer t = buffer s \<and>
     ascii_command (snd t) = GET_CMD"
proof -
  let ?s = "set_ascii_command GET_CMD s"
  have buf: "buffer ?s = bytes ''get '' @ word @ 32 # ([13, 10] @ tail)" by (simp add: assms(1) request_line_def)
  have four: "length (bytes ''get '') = 4" by (simp add: get_bytes)
  have parse: "parse_ascii_key (buffer ?s) 4 = Some (of_nat (length word), 4)"
    using parse_key_ok [OF assms(2), of 32 "bytes ''get ''" "[13, 10] @ tail"] four unfolding buf by simp
  have client: "ascii_command (snd ?s) = GET_CMD" "roomy S (length (answered word fl data) + n) (snd ?s)" "fst ?s = fst s"
      "pending (snd ?s) = pending (snd s)" "take (length word) (drop 4 (buffer ?s)) = word" "buffer ?s = buffer s"
    using assms(5) unfolding buf by (simp_all add: set_ascii_command_def roomy_def pending_def get_bytes assms(1) request_line_def)
  have "4 < length word + 6" by simp
  have app: "hands_out (fst ?s) get word data fl cas" using assms(3) client(3) by simp
  from gets_step [OF \<open>4 < length word + 6\<close> parse client(5) assms(2) app assms(4) client(1,2), of 0] obtain t where
    t: "gets_loop S get 4 (length word + 6) 0 ?s = gets_loop S get (4 + length word) (length word + 6) (0 + 1) t" "fst t = fst ?s"
      "pending (snd t) = pending (snd ?s) @ answered word fl data" "roomy S n (snd t)" "same_line (snd ?s) (snd t)"
    by blast
  from buffer_same [OF t(5)] client t(1-4) show ?thesis by (intro exI [of _ t]) (simp add: add.commute)
qed

lemma say_end:
  assumes "roomy S (length end_line) (snd t)"
  shows "fst (say S end_line t) = fst t \<and> pending (snd (say S end_line t)) = pending (snd t) @ end_line"
  using roomy_say [of S end_line 0 t] assms by auto

lemma get_served:
  assumes "buffer s = request_line word @ 0 # tail" and "key_ok word" and "v1_get cb = Some get" and "hands_out (fst s) get word data fl cas"
    and "header_fits_in word fl (length data)" and "roomy S (length (value_answer word fl data)) (snd s)"
  shows "\<exists>t. memcached_ascii_protocol_process_data S cb (length word + 7) s = Some (MEMCACHED_PROTOCOL_READ_EVENT, 0, length word + 7, t) \<and>
     fst t = fst s \<and> pending (snd t) = pending (snd s) @ value_answer word fl data"
proof -
  have answer: "value_answer word fl data = answered word fl data @ end_line" by (simp add: value_answer_def answered_def)
  then have "roomy S (length (answered word fl data) + length end_line) (snd s)" using assms(6) by simp
  from request_first_key [OF assms(1,2,4,5) this] obtain t where
    t: "gets_loop S get 4 (length word + 6) 0 (set_ascii_command GET_CMD s) = gets_loop S get (length word + 4) (length word + 6) 1 t"
      "fst t = fst s" "pending (snd t) = pending (snd s) @ answered word fl data" "roomy S (length end_line) (snd t)" "buffer t = buffer s"
    by blast
  have "buffer t = (bytes ''get '' @ word) @ [32, 13, 10] @ 0 # tail" by (simp add: t(5) assms(1) request_line_def)
  moreover have "\<forall>b \<in> set [32, 13, 10 :: byte]. isspace b" by (simp add: isspace_def)
  ultimately have "parse_ascii_key (buffer t) (length word + 4) = Some (0, length word + 4 + 3)"
    using parse_key_none [of "[32, 13, 10]" "bytes ''get '' @ word" tail] by (simp add: add.commute)
  then have "gets_loop S get (length word + 4) (length word + 6) 1 t = Some (1, t)" by (subst gets_loop.simps) simp
  then show ?thesis
    using t say_end [OF t(4)] by (simp add: request_executed [OF assms(1-3)] answer)
qed


text \<open>
  C39: the server does not stop at the end of the line. When a word follows it in the input buffer, the beginning of the next
  command of the connection, the application is asked for that word too and its value is sent with the others.
\<close>

lemma get_line_next_word:
  fixes s :: "'a conn"
  assumes "buffer s = get_line m key @ next_word @ c # tail" and "c \<in> {0, 32, 13}" and "\<not> support_cas (flags m)"
    and "key_ok (prefix_of m @ key)" and "key_ok next_word" and "v1_get cb = Some get"
    and "hands_out (fst s) get (prefix_of m @ key) data fl cas" and "header_fits_in (prefix_of m @ key) fl (length data)"
    and "hands_out (fst s) get next_word data' fl' cas'" and "header_fits_in next_word fl' (length data')"
    and "roomy S (length (answered (prefix_of m @ key) fl data) + length (answered next_word fl' data') + length end_line) (snd s)"
  shows "\<exists>t. memcached_ascii_protocol_process_data S cb (length (get_line m key)) s =
      Some (MEMCACHED_PROTOCOL_READ_EVENT, 0, length (get_line m key), t) \<and>
      pending (snd t) = pending (snd s) @ answered (prefix_of m @ key) fl data @ answered next_word fl' data' @ end_line"
proof -
  let ?word = "prefix_of m @ key"
  have line: "get_line m key = request_line ?word" by (rule get_line_request [OF assms(3)])
  have "roomy S (length (answered ?word fl data) + (length (answered next_word fl' data') + length end_line)) (snd s)"
    using assms(11) by (simp add: add.assoc)
  from request_first_key [OF assms(1) [unfolded line] assms(4,7,8) this] obtain t where
    t: "gets_loop S get 4 (length ?word + 6) 0 (set_ascii_command GET_CMD s) = gets_loop S get (length ?word + 4) (length ?word + 6) 1 t"
      "fst t = fst s" "pending (snd t) = pending (snd s) @ answered ?word fl data"
      "roomy S (length (answered next_word fl' data') + length end_line) (snd t)" "buffer t = buffer s" "ascii_command (snd t) = GET_CMD"
    by blast
  let ?p = "length ?word + 4" and ?pre = "bytes ''get '' @ prefix_of m @ key"
  have buf: "buffer t = ?pre @ [32, 13, 10] @ next_word @ c # tail" by (simp add: t(5) assms(1) line request_line_def)
  have p: "length ?pre = ?p" by (simp add: get_bytes)
  have "\<forall>b \<in> set [32, 13, 10 :: byte]. isspace b" by (simp add: isspace_def)
  from parse_key_after [OF this assms(5,2), of ?pre tail] have
    parse: "parse_ascii_key (buffer t) ?p = Some (of_nat (length next_word), ?p + 3)" unfolding buf p by simp
  have "buffer t = (?pre @ [32, 13, 10]) @ next_word @ c # tail" "length (?pre @ [32, 13, 10]) = ?p + 3" by (simp_all add: buf)
  then have "take (length next_word) (drop (?p + 3) (buffer t)) = next_word" by (simp only: append_eq_conv_conj) simp
  moreover have "?p < length ?word + 6" by simp
  moreover have "hands_out (fst t) get next_word data' fl' cas'" using assms(9) t(2) by simp
  ultimately obtain u where
    u: "gets_loop S get ?p (length ?word + 6) 1 t = gets_loop S get (?p + 3 + length next_word) (length ?word + 6) (1 + 1) u"
      "pending (snd u) = pending (snd t) @ answered next_word fl' data'" "roomy S (length end_line) (snd u)"
    using gets_step [OF _ parse _ assms(5) _ assms(10) t(6,4), where fin = "length ?word + 6" and k = 1] by blast
  moreover have "gets_loop S get (?p + 3 + length next_word) (length ?word + 6) (1 + 1) u = Some (2, u)" by (subst gets_loop.simps) simp
  ultimately show ?thesis
    using t say_end [OF u(3)] request_executed [OF assms(1) [unfolded line] assms(4,6), of S] by (simp add: line)
qed

section \<open>Witnesses\<close>

text \<open>An application that hands out the byte \<open>a\<close> for every key.\<close>

definition letter_get :: "byte list \<Rightarrow> u16 \<Rightarrow> get_response \<Rightarrow> (unit, status) act" where
  "letter_get k nkey resp = on_client (resp k nkey [97] 1 0 0)"

definition letters :: "unit callback_v1" where
  "letters = no_callbacks\<lparr>v1_get := Some letter_get\<rparr>"

definition asked :: "byte list \<Rightarrow> unit conn" where
  "asked m = set_buffer m ((), new_client)"

lemma asked_simps [simp]: "buffer (asked m) = m" "pending (snd (asked m)) = []"
  by (simp_all add: asked_def buffer_def set_buffer_def pending_def new_client_def)

lemma asked_roomy: "n \<le> CHUNK_BUFFERSIZE \<Longrightarrow> roomy all_memory n (snd (asked m))"
  by (simp add: roomy_def asked_def set_buffer_def new_client_def all_memory_def cache_create_def cache_alloc_def Let_def)

lemma letters_hand_out: "hands_out app letter_get word [97] 0 0"
  by (simp add: hands_out_def letter_get_def)

lemma letter_line: "value_line [107] 0 1 = bytes ''VALUE k 0 1'' @ [13, 10]"
  by (simp add: value_line_def bytes_def dec_digits.simps)

lemma letter_key: "key_ok [107]" "key_ok (bytes ''get'')"
  by (simp_all add: key_ok_def isspace_def iscntrl_def bytes_def)

lemma letter_fits: "header_fits_in [107] 0 1" "header_fits_in (bytes ''get'') 0 1"
  by (simp_all add: header_fits_in_def value_line_def bytes_def dec_digits.simps)

lemma letter_flags [simp]:
  "\<not> binary_protocol global_copy_flags" "one_by_one global_copy_flags" "\<not> verify_key global_copy_flags"
  "\<not> auto_eject_hosts global_copy_flags" "\<not> support_cas global_copy_flags"
  by (simp_all add: global_copy_flags_def one_by_one_def)

lemma letter_client:
  fixes a :: "byte list"
  defines "m \<equiv> c_memc (example_client global_copy_flags [open_server] a)"
  shows "get_line m [107] = bytes ''get k '' @ [13, 10]" "prefix_of m = []" "word_fits m [107] 0 1"
    "room_for (ce_io example_env) 1 (result m)" "memcached_server_count m \<noteq> 0" "1 < io_msg_watermark m" "flags m = global_copy_flags"
    "lone 0 (example_client global_copy_flags [open_server] a)"
proof -
  have m: "prefix_key_length m = 0" "flags m = global_copy_flags" "memc_number_of_hosts m = 1" "io_msg_watermark m = 500"
      "result m = result zero_memcached" "servers m = [open_server]"
    by (simp_all add: m_def example_client_def zero_memcached_def)
  show "prefix_of m = []" by (simp add: prefix_of_def m)
  then show "get_line m [107] = bytes ''get k '' @ [13, 10]" by (simp add: get_line_def get_command_def m bytes_def)
  show "word_fits m [107] 0 1"
    using letter_line \<open>prefix_of m = []\<close>
    by (simp add: word_fits_def m graphic_def isgraph_def MEMCACHED_MAX_KEY_def MEMCACHED_DEFAULT_COMMAND_SIZE_def bytes_def)
  show "room_for (ce_io example_env) 1 (result m)"
    by (simp add: room_for_def m example_env_def example_io_def libmemcached_realloc_ok zero_memcached_def string_wf_def
        memcached_string_reset_def memcached_string_check_def string_check_def size_sub_def MEMCACHED_BLOCK_SIZE_def libmemcached_realloc_def)
  show "memcached_server_count m \<noteq> 0" "1 < io_msg_watermark m" "flags m = global_copy_flags" by (simp_all add: m memcached_server_count_def)
  show "lone 0 (example_client global_copy_flags [open_server] a)"
    using m by (simp add: lone_def memcached_server_count_def flip: m_def)
qed


lemma get_line_next_word_witness:
  "\<exists>t. memcached_ascii_protocol_process_data all_memory letters 8 (asked (bytes ''get k '' @ [13, 10] @ bytes ''get l '' @ [13, 10])) =
      Some (MEMCACHED_PROTOCOL_READ_EVENT, 0, 8, t) \<and>
    pending (snd t) = bytes ''VALUE k 0 1'' @ [13, 10, 97, 13, 10] @ bytes ''VALUE get 0 1'' @ [13, 10, 97, 13, 10] @ bytes ''END'' @ [13, 10]"
proof -
  let ?m = "c_memc (example_client global_copy_flags [open_server] [])"
  let ?text = "bytes ''get k '' @ [13, 10] @ bytes ''get l '' @ [13, 10]"
  note client = letter_client [where a = "[]"]
  have eight: "length (get_line ?m [107]) = 8" by (simp add: client(1) bytes_def)
  have buf: "buffer (asked ?text) = get_line ?m [107] @ bytes ''get'' @ 32 # ([108, 32, 13, 10])"
    unfolding client(1) by (simp add: bytes_def)
  have answers: "answered [107] 0 [97] = bytes ''VALUE k 0 1'' @ [13, 10, 97, 13, 10]"
      "answered (bytes ''get'') 0 [97] = bytes ''VALUE get 0 1'' @ [13, 10, 97, 13, 10]"
    by (simp_all add: answered_def value_line_def bytes_def dec_digits.simps)
  have room: "roomy all_memory (length (answered [107] 0 [97]) + length (answered (bytes ''get'') 0 [97]) + length end_line) (snd (asked ?text))"
    unfolding answers by (rule asked_roomy) (simp add: end_line_def bytes_def CHUNK_BUFFERSIZE_def)
  show ?thesis
    using get_line_next_word [OF buf _ _ _ letter_key(2) _ _ _ letters_hand_out, where cb = letters and S = all_memory
        and data = "[97]" and fl = 0 and cas = 0] client(2,7) letter_key letter_fits letters_hand_out room answers
    by (simp add: eight letters_def end_line_def)
qed

end
