(* ===== verification/Client_Callback.thy ===== *)
theory Client_Callback
  imports Continuum "HOL-Library.Monad_Syntax"
begin

text \<open>
  Setting a client up: \<open>callback.c\<close> and \<open>memcached_clone\<close> of \<open>memcached.c\<close>.
  \<open>callback.c\<close>: the prefix of all keys, the data of the user and the functions that the library calls. What a
  \<open>void *\<close> points to is given by \<open>strings\<close>, the C string at an address; a function is its address. The three
  allocation functions of deprecated builds are not part of the configuration.
\<close>

section \<open>\<open>callback.c\<close>\<close>

definition set_prefix :: "byte list option \<Rightarrow> memcached_st \<Rightarrow> memcached_return_t \<times> memcached_st" where
  "set_prefix string ptr =
     (case string of
        Some key \<Rightarrow>
          let length = length (c_str key)
          in if memcached_key_test [c_str key] = MEMCACHED_BAD_KEY_PROVIDED then (MEMCACHED_BAD_KEY_PROVIDED, ptr)
             else if MEMCACHED_PREFIX_KEY_MAX_SIZE - 1 < length then (MEMCACHED_BAD_KEY_PROVIDED, ptr\<lparr>prefix_key_length := 0\<rparr>)
             else (MEMCACHED_SUCCESS,
                   ptr\<lparr>prefix_key_length := length, prefix_key := strncpy (prefix_key ptr) key MEMCACHED_PREFIX_KEY_MAX_SIZE\<rparr>)
      | None \<Rightarrow> (MEMCACHED_SUCCESS, ptr\<lparr>prefix_key_length := 0, prefix_key := (prefix_key ptr)[0 := 0]\<rparr>))"

definition memcached_callback_set ::
  "(nat \<Rightarrow> byte list) \<Rightarrow> memcached_callback_t \<Rightarrow> ptr \<Rightarrow> memcached_st \<Rightarrow> memcached_return_t \<times> memcached_st" where
  "memcached_callback_set strings flag data ptr =
     (case flag of
        MEMCACHED_CALLBACK_PREFIX_KEY \<Rightarrow> set_prefix (map_option strings data) ptr
      | MEMCACHED_CALLBACK_USER_DATA \<Rightarrow> (MEMCACHED_SUCCESS, ptr\<lparr>user_data := data\<rparr>)
      | MEMCACHED_CALLBACK_CLEANUP_FUNCTION \<Rightarrow> (MEMCACHED_SUCCESS, ptr\<lparr>on_cleanup := data\<rparr>)
      | MEMCACHED_CALLBACK_CLONE_FUNCTION \<Rightarrow> (MEMCACHED_SUCCESS, ptr\<lparr>on_clone := data\<rparr>)
      | MEMCACHED_CALLBACK_GET_FAILURE \<Rightarrow> (MEMCACHED_SUCCESS, ptr\<lparr>get_key_failure := data\<rparr>)
      | MEMCACHED_CALLBACK_DELETE_TRIGGER \<Rightarrow> (MEMCACHED_SUCCESS, ptr\<lparr>delete_trigger := data\<rparr>)
      | MEMCACHED_CALLBACK_MAX \<Rightarrow> (MEMCACHED_FAILURE, ptr))"

text \<open>What is returned: the prefix of the object itself, or an address.\<close>

datatype callback_value = Prefix_key "byte list" | Address ptr

definition found :: "ptr \<Rightarrow> callback_value \<times> memcached_return_t" where
  "found p = (Address p, if p \<noteq> None then MEMCACHED_SUCCESS else MEMCACHED_FAILURE)"

definition memcached_callback_get :: "memcached_st \<Rightarrow> memcached_callback_t \<Rightarrow> callback_value \<times> memcached_return_t" where
  "memcached_callback_get ptr flag =
     (case flag of
        MEMCACHED_CALLBACK_PREFIX_KEY \<Rightarrow>
          if prefix_key_length ptr \<noteq> 0 then (Prefix_key (prefix_key ptr), MEMCACHED_SUCCESS) else (Address None, MEMCACHED_FAILURE)
      | MEMCACHED_CALLBACK_USER_DATA \<Rightarrow> found (user_data ptr)
      | MEMCACHED_CALLBACK_CLEANUP_FUNCTION \<Rightarrow> found (on_cleanup ptr)
      | MEMCACHED_CALLBACK_CLONE_FUNCTION \<Rightarrow> found (on_clone ptr)
      | MEMCACHED_CALLBACK_GET_FAILURE \<Rightarrow> found (get_key_failure ptr)
      | MEMCACHED_CALLBACK_DELETE_TRIGGER \<Rightarrow> found (delete_trigger ptr)
      | MEMCACHED_CALLBACK_MAX \<Rightarrow> (Address None, MEMCACHED_FAILURE))"

text \<open>The prefix of an object: the array is large enough, and the length is that of the string in it.\<close>

definition prefix_ok :: "memcached_st \<Rightarrow> bool" where
  "prefix_ok m \<longleftrightarrow> length (prefix_key m) = MEMCACHED_PREFIX_KEY_MAX_SIZE \<and> prefix_key_length m < MEMCACHED_PREFIX_KEY_MAX_SIZE \<and>
     (prefix_key_length m \<noteq> 0 \<longrightarrow> length (c_str (prefix_key m)) = prefix_key_length m)"

lemma c_str_padded: "length (c_str s) < n \<Longrightarrow> c_str (take n (c_str s @ replicate n 0)) = c_str s"
proof -
  assume "length (c_str s) < n"
  then obtain k where n: "n = length (c_str s) + Suc k" by (metis less_imp_Suc_add add_Suc_right)
  have "0 \<notin> set (c_str s)" by (auto simp: c_str_def dest: set_takeWhileD)
  then have "takeWhile (\<lambda>c. c \<noteq> 0) (c_str s @ 0 # replicate k 0) = c_str s" by (subst takeWhile_append2) auto
  then show ?thesis by (simp add: n) (simp add: c_str_def)
qed

text \<open>
  C29: setting a prefix that can be a key and fits into the object makes it the prefix, and it can be read back; any other
  string is refused and the array stays, but the length stays only when the string cannot be a key: one of 128 to
  250 characters leaves the object without a prefix.
\<close>

lemma callback_prefix:
  assumes "prefix_ok m" and "strings p = key @ 0 # rest" and "0 \<notin> set key"
  shows "let (rc, m') = memcached_callback_set strings MEMCACHED_CALLBACK_PREFIX_KEY (Some p) m
    in prefix_ok m' \<and>
       (if memcached_key_test [key] = MEMCACHED_SUCCESS \<and> length key < MEMCACHED_PREFIX_KEY_MAX_SIZE
        then rc = MEMCACHED_SUCCESS \<and> take (prefix_key_length m') (prefix_key m') = key \<and>
             memcached_callback_get m' MEMCACHED_CALLBACK_PREFIX_KEY = (Prefix_key (prefix_key m'), MEMCACHED_SUCCESS)
        else rc = MEMCACHED_BAD_KEY_PROVIDED \<and> prefix_key m' = prefix_key m \<and>
             prefix_key_length m' = (if memcached_key_test [key] = MEMCACHED_SUCCESS then 0 else prefix_key_length m))"
proof -
  have key: "c_str (strings p) = key" using assms(3) unfolding c_str_def assms(2) by (subst takeWhile_append2) auto
  have test: "memcached_key_test [key] = MEMCACHED_SUCCESS \<or> memcached_key_test [key] = MEMCACHED_BAD_KEY_PROVIDED"
    by (simp add: memcached_validate_key_length_def Let_def)
  have nonempty: "memcached_key_test [key] = MEMCACHED_SUCCESS \<Longrightarrow> key \<noteq> []"
    by (auto simp: memcached_validate_key_length_def)
  show ?thesis
    using assms(1) test nonempty c_str_padded [of "strings p" MEMCACHED_PREFIX_KEY_MAX_SIZE] key
    by (auto simp: memcached_callback_set_def set_prefix_def Let_def prefix_ok_def memcached_callback_get_def strncpy_def
        MEMCACHED_PREFIX_KEY_MAX_SIZE_def simp del: memcached_key_test.simps)
qed

lemma callback_prefix_witness:
  "let (rc, m) = memcached_callback_set (\<lambda>_. [97, 58, 0]) MEMCACHED_CALLBACK_PREFIX_KEY (Some 4096) zero_memcached
   in rc = MEMCACHED_SUCCESS \<and> take (prefix_key_length m) (prefix_key m) = [97, 58]"
  using callback_prefix [of zero_memcached "\<lambda>_. [97, 58, 0]" 4096 "[97, 58]" "[]"]
  by (simp add: prefix_ok_def Let_def memcached_validate_key_length_def MEMCACHED_MAX_KEY_def MEMCACHED_PREFIX_KEY_MAX_SIZE_def
      isgraph_def zero_memcached_def case_prod_unfold)

section \<open>\<open>memcached_clone\<close>\<close>

text \<open>
  The hash objects lie inside of the new object, so that cloning them cannot fail. A clone that cannot be finished is freed
  and the result is \<open>NULL\<close>. \<open>hooks\<close> is what the function at an address does to the clone that it is called for; a
  build without SASL. The outer \<open>None\<close> is undefined behaviour in the distribution.
\<close>

definition clone_settings :: "memcached_st \<Rightarrow> memcached_st \<Rightarrow> memcached_st" where
  "clone_settings source p =
     p\<lparr>flags := flags source, send_size := send_size source, recv_size := recv_size source, poll_timeout := poll_timeout source,
       connect_timeout := connect_timeout source, retry_timeout := retry_timeout source, distribution := distribution source,
       hashkit := the (hashkit_clone None (Some (hashkit p)) (Some (hashkit source))),
       distribution_hashkit := the (hashkit_clone None (Some (distribution_hashkit p)) (Some (distribution_hashkit source))),
       user_data := user_data source, snd_timeout := snd_timeout source, rcv_timeout := rcv_timeout source,
       on_clone := on_clone source, on_cleanup := on_cleanup source, allocators := allocators source,
       get_key_failure := get_key_failure source, delete_trigger := delete_trigger source,
       server_failure_limit := server_failure_limit source, io_msg_watermark := io_msg_watermark source,
       io_bytes_watermark := io_bytes_watermark source, io_key_prefetch := io_key_prefetch source,
       number_of_replicas := number_of_replicas source, tcp_keepidle := tcp_keepidle source\<rparr>"

definition clone_prefix :: "memcached_st \<Rightarrow> memcached_st \<Rightarrow> memcached_st" where
  "clone_prefix source p =
     (if prefix_key_length source \<noteq> 0
      then p\<lparr>prefix_key := memcpy_at (prefix_key p) 0 (c_str (prefix_key source) @ [0]),
             prefix_key_length := prefix_key_length source\<rparr>
      else p)"

definition memcached_clone ::
  "memc_env \<Rightarrow> (nat \<Rightarrow> memcached_st \<Rightarrow> memcached_st) \<Rightarrow> realloc_fn \<Rightarrow> memcached_st option \<Rightarrow> memcached_st option \<Rightarrow>
   memcached_st option \<Rightarrow> memcached_st option option" where
  "memcached_clone E hooks realloc malloc clone source =
     (case source of
        None \<Rightarrow> Some (memcached_create realloc malloc clone)
      | Some source \<Rightarrow>
          if (case clone of Some c \<Rightarrow> memc_is_allocated c | None \<Rightarrow> False) then Some None
          else case memcached_create realloc malloc clone of
                 None \<Rightarrow> Some None
               | Some p \<Rightarrow> do {
                   (rc, p) \<leftarrow> (if memcached_server_count source \<noteq> 0 then memcached_push E (clone_settings source p) source
                              else Some (MEMCACHED_SUCCESS, clone_settings source p));
                   if rc \<noteq> MEMCACHED_SUCCESS then Some None
                   else do {
                     (rc, p) \<leftarrow> run_distribution E (clone_prefix source p);
                     if rc \<noteq> MEMCACHED_SUCCESS then Some None
                     else Some (Some (case on_clone source of Some f \<Rightarrow> hooks f p | None \<Rightarrow> p))
                   }
                 })"

subsection \<open>A clone sends keys where its source sends them\<close>

lemma server_init_c_str: "server_init self r (Some (c_str h)) p w t = server_init self r (Some h) p w t"
  by (simp add: server_init_def strncpy_def) (simp add: c_str_def)

lemma create_with_addr:
  assumes "host_ok (memcached_server_name s)"
  shows "\<exists>s'. memcached_server_create_with malloc r (Some j) (Some (hostname s)) (port s) (weight s) (conn_type s) = Some s' \<and>
     server_addr s' = server_addr s"
proof -
  have "memcached_server_create_with malloc r (Some j) (Some (hostname s)) p w t =
      memcached_server_create_with malloc r (Some j) (Some (memcached_server_name s)) p w t" for p w t
    by (simp add: memcached_server_create_with_def memcached_server_name_def server_init_c_str Let_def cong: option.case_cong)
  with server_addr_create_with [OF assms] show ?thesis by (simp add: server_addr_def)
qed

definition pushable :: "memcached_st \<Rightarrow> memcached_server_st \<Rightarrow> bool" where
  "pushable p s \<longleftrightarrow> \<not> protocol_mismatch p (conn_type s) \<and> host_ok (memcached_server_name s)"

lemma push_loop_appends:
  assumes "\<forall>s \<in> set ss. pushable p s" and "unat (memcached_server_count p) + length ss = length (servers p)"
    and "length (servers p) \<le> 1000000"
  shows "\<exists>arr. push_loop p ss = (MEMCACHED_SUCCESS, p\<lparr>servers := arr, memc_number_of_hosts := of_nat (length (servers p))\<rparr>) \<and>
     length arr = length (servers p) \<and> map server_addr arr = map server_addr (host_list p) @ map server_addr ss"
  using assms
proof (induction ss arbitrary: p)
  case Nil
  then have "(of_nat (unat (memcached_server_count p)) :: u32) = of_nat (length (servers p))" "host_list p = servers p"
    by (simp_all add: host_list_def)
  then have "memc_number_of_hosts p = of_nat (length (servers p))" "host_list p = servers p"
    by (simp_all add: memcached_server_count_def)
  then show ?case by (intro exI [of _ "servers p"]) simp
next
  case (Cons s ss)
  let ?n = "unat (memcached_server_count p)"
  obtain s' where s': "memcached_server_create_with None (Some (sint (retry_timeout p))) (Some (servers p ! ?n)) (Some (hostname s))
      (port s) (weight s) (conn_type s) = Some s'" "server_addr s' = server_addr s"
    using create_with_addr Cons.prems(1) by (meson list.set_intros(1) pushable_def)
  define q where "q = create_in_place p (hostname s) (port s) (weight s) (conn_type s)"
  have q: "q = p\<lparr>servers := (servers p)[?n := s'], memc_number_of_hosts := memc_number_of_hosts p + 1\<rparr>"
    by (simp add: q_def create_in_place_def s'(1))
  have n: "unat (memc_number_of_hosts p + 1) = ?n + 1"
    using Cons.prems(2,3) by (simp add: unat_word_ariths memcached_server_count_def)
  then have count: "unat (memcached_server_count q) = ?n + 1" by (simp add: q memcached_server_count_def)
  have "pushable q x = pushable p x" for x by (simp add: pushable_def protocol_mismatch_def q)
  moreover have "unat (memcached_server_count q) + length ss = length (servers q)"
    using Cons.prems(2) by (simp only: count) (simp add: q)
  ultimately obtain arr where arr:
    "push_loop q ss = (MEMCACHED_SUCCESS, q\<lparr>servers := arr, memc_number_of_hosts := of_nat (length (servers q))\<rparr>)"
    "length arr = length (servers q)" "map server_addr arr = map server_addr (host_list q) @ map server_addr ss"
    using Cons.IH [of q] Cons.prems(1,3) by (auto simp: q)
  have "host_list q = host_list p @ [s']"
    using Cons.prems(2) take_put [of ?n "servers p" s'] by (simp add: host_list_def count) (simp add: q take_update_swap)
  with arr Cons.prems(1) s'(2) show ?case
    by (intro exI [of _ arr]) (simp add: pushable_def flip: q_def, simp add: q)
qed

lemma memcached_create_created:
  assumes "memcached_create realloc malloc clone = Some p"
  shows "servers p = [] \<and> memcached_server_count p = 0 \<and> prefix_key_length p = 0"
  using assms by (auto simp: memcached_create_def memcached_init_def memcached_server_count_def Let_def split: option.splits)

text \<open>The push of all of the servers of a client into a fresh one.\<close>

lemma push_all:
  assumes "servers p = []" and "memcached_server_count p = 0" and "\<forall>n. e_alloc_servers E n"
    and "servers source \<noteq> []" and "length (servers source) \<le> 1000000"
    and "memcached_server_list_count (Some (servers source)) = of_nat (length (servers source))" and "\<forall>s \<in> set (servers source). pushable p s"
  shows "\<exists>arr. memcached_push E p source =
      run_distribution E (p\<lparr>memc_number_of_hosts := of_nat (length (servers source)), servers := arr\<rparr>) \<and>
      map server_addr arr = map server_addr (servers source)"
proof -
  let ?n = "length (servers source)" and ?junk = "replicate (length (servers source)) (e_junk_server E)"
  have n: "unat (of_nat ?n :: u32) = ?n" by (rule unat_small) (use assms(5) in simp)
  let ?p = "p\<lparr>servers := ?junk\<rparr>"
  have p: "memcached_server_count ?p = 0" "host_list ?p = []" using assms(2) by (simp_all add: memcached_server_count_def host_list_def)
  have "\<forall>s \<in> set (servers source). pushable ?p s" using assms(7) by (simp add: pushable_def protocol_mismatch_def)
  from push_loop_appends [OF this] p assms(5) obtain arr where arr:
    "push_loop ?p (servers source) = (MEMCACHED_SUCCESS, ?p\<lparr>servers := arr, memc_number_of_hosts := of_nat ?n\<rparr>)"
    "map server_addr arr = map server_addr (servers source)" by auto
  have "resize_servers E p ?n = Some ?p"
    using assms(1,3) by (simp add: resize_servers_def memcached_server_list_set_def)
  then have "memcached_push E p source =
      run_distribution E (p\<lparr>memc_number_of_hosts := of_nat ?n, servers := memcached_servers_set_count arr (of_nat ?n)\<rparr>)"
    using arr(1) assms(2,4,6) n
    by (simp add: memcached_push_def memcached_server_push_def set_host_count_def memcached_server_count_def Let_def)
  then show ?thesis
    using arr(2) by (auto simp: memcached_servers_set_count_def map_server_addr_update_hd)
qed

lemma result_create_in_place: "\<exists>r'. memcached_result_create realloc None (Some r) = Some r'"
  by (auto simp: memcached_result_create_def Let_def split: prod.split option.split)

lemma memcached_create_total:
  assumes "clone \<noteq> None \<or> malloc \<noteq> None"
  shows "\<exists>p. memcached_create realloc malloc clone = Some p"
proof -
  have "\<exists>p. (case clone of None \<Rightarrow> map_option (\<lambda>p. p\<lparr>memc_is_allocated := True\<rparr>) malloc
      | Some p \<Rightarrow> Some (p\<lparr>memc_is_allocated := False\<rparr>)) = Some p"
    using assms by (cases clone) auto
  then obtain p where p: "(case clone of None \<Rightarrow> map_option (\<lambda>p. p\<lparr>memc_is_allocated := True\<rparr>) malloc
      | Some p \<Rightarrow> Some (p\<lparr>memc_is_allocated := False\<rparr>)) = Some p" ..
  obtain r where "memcached_result_create realloc None (Some (result (memcached_init p))) = Some r"
    using result_create_in_place by blast
  then show ?thesis by (simp only: memcached_create_def p) (simp add: Let_def)
qed

lemma c_str_copy:
  assumes "length (c_str key) < length old"
  shows "c_str (memcpy_at old 0 (c_str key @ [0])) = c_str key"
proof -
  have "0 \<notin> set (c_str key)" by (auto simp: c_str_def dest: set_takeWhileD)
  then show ?thesis using assms by (simp add: memcpy_at_def c_str_append_nul)
qed

lemma digest_clone:
  "hashkit_digest c (the (hashkit_clone None (Some h) (Some k))) key = hashkit_digest c k key"
  by (simp add: hashkit_clone_def hashkit_alloc_def hashkit_digest_def)

text \<open>
  C27: the clone of a client whose distribution looks at the hash and the number of servers only has the servers of the source,
  in the same order, and every key goes to the server at the same position, also when the hash is taken with the prefix.
\<close>

lemma clone_dispatches_alike:
  assumes "case clone of Some c \<Rightarrow> \<not> memc_is_allocated c | None \<Rightarrow> malloc \<noteq> None" and "\<forall>n. e_alloc_servers E n"
    and "distribution source = MEMCACHED_DISTRIBUTION_MODULA" and "\<not> use_sort_hosts (flags source)" and "on_clone source = None"
    and "servers source \<noteq> []" and "length (servers source) \<le> 1000000"
    and "memcached_server_count source = of_nat (length (servers source))"
    and "memcached_server_list_count (Some (servers source)) = of_nat (length (servers source))"
    and "\<forall>s \<in> set (servers source). pushable source s" and "length (c_str (prefix_key source)) < MEMCACHED_PREFIX_KEY_MAX_SIZE"
    and "\<forall>p. memcached_create realloc malloc clone = Some p \<longrightarrow> length (prefix_key p) = MEMCACHED_PREFIX_KEY_MAX_SIZE"
  shows "\<exists>p. memcached_clone E hooks realloc malloc clone (Some source) = Some (Some p) \<and>
     map server_addr (servers p) = map server_addr (servers source) \<and> memcached_server_count p = memcached_server_count source \<and>
     (\<forall>key random. generate_hash_wrapper E p key = generate_hash_wrapper E source key \<and>
        dispatch_host random p (generate_hash_wrapper E p key) = dispatch_host random source (generate_hash_wrapper E source key))"
proof -
  have "clone \<noteq> None \<or> malloc \<noteq> None" using assms(1) by (cases clone) auto
  then obtain q where q: "memcached_create realloc malloc clone = Some q" using memcached_create_total by blast
  note fresh = memcached_create_created [OF q]
  let ?q = "clone_settings source q"
  have s: "servers ?q = []" "memcached_server_count ?q = 0" using fresh by (simp_all add: clone_settings_def memcached_server_count_def)
  have "\<forall>x \<in> set (servers source). pushable ?q x" using assms(10) by (simp add: pushable_def protocol_mismatch_def clone_settings_def)
  from push_all [OF s assms(2,6,7,9) this] obtain arr where
    arr: "memcached_push E ?q source = run_distribution E (?q\<lparr>memc_number_of_hosts := of_nat (length (servers source)), servers := arr\<rparr>)"
      "map server_addr arr = map server_addr (servers source)" by blast
  let ?p = "clone_prefix source (?q\<lparr>memc_number_of_hosts := of_nat (length (servers source)), servers := arr\<rparr>)"
  have run: "run_distribution E p = Some (MEMCACHED_SUCCESS, p)" if "distribution p = distribution source" "flags p = flags source" for p
    using that assms(3,4) by (simp add: run_distribution_def)
  have settings: "distribution ?p = distribution source" "flags ?p = flags source" "servers ?p = arr"
      "memcached_server_count ?p = memcached_server_count source" "prefix_key_length ?p = prefix_key_length source"
    using assms(8) fresh by (simp_all add: clone_prefix_def clone_settings_def memcached_server_count_def)
  have "memcached_server_count source \<noteq> 0"
    using unat_small [of "length (servers source)"] assms(6,7) by (auto simp: assms(8))
  then have "memcached_clone E hooks realloc malloc clone (Some source) = Some (Some ?p)"
    using assms(1,5) q arr(1) run [OF settings(1,2)]
      run [of "?q\<lparr>memc_number_of_hosts := of_nat (length (servers source)), servers := arr\<rparr>"]
    by (cases clone) (simp_all add: memcached_clone_def clone_settings_def)
  moreover have "generate_hash E ?p key = generate_hash E source key" for key
    by (simp add: generate_hash_def clone_prefix_def clone_settings_def digest_clone)
  moreover have "c_str (prefix_key ?p) = c_str (prefix_key source)" if "prefix_key_length source \<noteq> 0"
    using that assms(11,12) q by (simp add: clone_prefix_def clone_settings_def c_str_copy)
  ultimately show ?thesis
    using settings assms(3) arr(2)
    by (intro exI [of _ ?p], cases "prefix_key_length source = 0") (auto simp: generate_hash_wrapper_def dispatch_host_def Let_def)
qed

definition two_modula :: memcached_st where
  "two_modula = zero_memcached\<lparr>distribution := MEMCACHED_DISTRIBUTION_MODULA, memc_number_of_hosts := 2,
     servers := [zero_server\<lparr>number_of_hosts := 2\<rparr>, zero_server\<lparr>port := 11212\<rparr>]\<rparr>"

lemma memcached_create_prefix: "memcached_create realloc malloc (Some c) = Some p \<Longrightarrow> prefix_key p = prefix_key c"
  by (auto simp: memcached_create_def memcached_init_def Let_def split: option.splits)

lemma clone_dispatches_alike_witness:
  "\<exists>p. memcached_clone zero_env (\<lambda>_ p. p) (libmemcached_realloc 65536) None (Some zero_memcached) (Some two_modula) = Some (Some p) \<and>
     map server_addr (servers p) = map server_addr (servers two_modula)"
proof -
  have source: "distribution two_modula = MEMCACHED_DISTRIBUTION_MODULA" "\<not> use_sort_hosts (flags two_modula)" "on_clone two_modula = None"
      "servers two_modula \<noteq> []" "length (servers two_modula) = 2" "memcached_server_count two_modula = 2"
      "memcached_server_list_count (Some (servers two_modula)) = 2" "\<forall>s \<in> set (servers two_modula). pushable two_modula s"
      "c_str (prefix_key two_modula) = []"
    by (simp_all add: two_modula_def zero_memcached_def zero_server_def global_copy_flags_def memcached_server_count_def
        memcached_server_list_count_def pushable_def protocol_mismatch_def host_ok_def memcached_server_name_def c_str_def NI_MAXHOST_def)
  have "length (prefix_key zero_memcached) = MEMCACHED_PREFIX_KEY_MAX_SIZE" "\<not> memc_is_allocated zero_memcached" "\<forall>n. e_alloc_servers zero_env n"
    by (simp_all add: zero_memcached_def zero_env_def MEMCACHED_PREFIX_KEY_MAX_SIZE_def)
  with source memcached_create_prefix show ?thesis
    using clone_dispatches_alike [where clone = "Some zero_memcached" and malloc = None and E = zero_env and source = two_modula
        and realloc = "libmemcached_realloc 65536" and hooks = "\<lambda>_ p. p"]
    by (auto simp: MEMCACHED_PREFIX_KEY_MAX_SIZE_def)
qed

end
