(* ===== verification/Client_Admin.thy ===== *)
theory Client_Admin
  imports Client_Behavior
begin

text \<open>
  The commands for whole servers: \<open>flush.c\<close>, \<open>version.c\<close>, \<open>verbosity.c\<close>, \<open>dump.c\<close> and
  \<open>memcached_server_cursor\<close>. The answers are parsed in the array that they were read into: \<open>None\<close> stands for a scan that
  leaves the array and for the use of a pointer that \<open>index\<close> returned as \<open>NULL\<close>.
\<close>

section \<open>Scanning an answer\<close>

text \<open>\<open>strtol(s, &end, 10)\<close> saturates at both ends of \<open>long\<close>; the number is given as 64 bits.\<close>

definition strtol10 :: "byte list \<Rightarrow> u64" where
  "strtol10 s =
     (let s1 = dropWhile isspace s; neg = (s1 \<noteq> [] \<and> hd s1 = 45); v = digits_value (number_digits s)
      in if neg then of_int (- int (min v (2 ^ 63))) else of_nat (min v (2 ^ 63 - 1)))"

definition strtol_at :: "byte list \<Rightarrow> nat \<Rightarrow> (u64 \<times> nat) option" where
  "strtol_at m p =
     (let s = drop p m
      in if length s \<le> number_end s then None
         else if number_digits s = [] then Some (0, p)
         else Some (strtol10 s, p + number_end s))"

text \<open>\<open>index(s, c)\<close> on a string in an array, and its position plus one.\<close>

definition behind_char :: "byte \<Rightarrow> byte list \<Rightarrow> nat \<Rightarrow> nat option" where
  "behind_char ch m p =
     (case drop (length (takeWhile (\<lambda>b. b \<noteq> ch \<and> b \<noteq> 0) (drop p m))) (drop p m) of
        [] \<Rightarrow> None
      | b # _ \<Rightarrow> if b = ch then Some (p + length (takeWhile (\<lambda>b. b \<noteq> ch \<and> b \<noteq> 0) (drop p m)) + 1) else None)"

text \<open>A string in an array, which has to end there.\<close>

definition string_at :: "byte list \<Rightarrow> nat \<Rightarrow> byte list option" where
  "string_at m p = (if 0 \<in> set (drop p m) then Some (c_str (drop p m)) else None)"

text \<open>A word: the bytes for which the loop goes on. The byte behind it is set to NUL.\<close>

definition word_at :: "(byte \<Rightarrow> bool) \<Rightarrow> byte list \<Rightarrow> nat \<Rightarrow> nat option" where
  "word_at goes_on m p =
     (let n = length (takeWhile goes_on (drop p m)) in if p + n < length m then Some (p + n) else None)"

definition server_range :: "client_st \<Rightarrow> nat list" where
  "server_range c = [0 ..< unat (memcached_server_count (c_memc c))]"

definition small_request :: "byte \<Rightarrow> byte list" where
  "small_request opcode = [PROTOCOL_BINARY_REQ, opcode] @ replicate 22 0"

section \<open>\<open>flush.c\<close>\<close>

definition flush_line :: "memcached_flags \<Rightarrow> u64 \<Rightarrow> byte list" where
  "flush_line f expiration =
     bytes ''flush_all'' @ (if expiration \<noteq> 0 then [32] @ dec_digits (unat expiration) else []) @
     (if no_reply f then bytes '' noreply'' else []) @ [13, 10]"

fun flush_textual_loop :: "client_env \<Rightarrow> u64 \<Rightarrow> nat list \<Rightarrow> byte list \<Rightarrow> client_st \<Rightarrow> client_st option" where
  "flush_textual_loop E expiration [] buf c = Some c"
| "flush_textual_loop E expiration (i # is) buf c = do {
     let line = flush_line (flags (c_memc c)) expiration;
     let quiet = no_reply (flags (c_memc c));
     let buf = memcpy_at buf 0 (line @ [0]);
     (rc, c) \<leftarrow> memcached_do E i line True c;
     (buf, c) \<leftarrow> (if rc = MEMCACHED_SUCCESS \<and> \<not> quiet then map_option (\<lambda>((_, buf), c). (buf, c)) (response_at_server E i buf c)
                 else Some (buf, c));
     flush_textual_loop E expiration is buf c
   }"

definition memcached_flush_textual :: "client_env \<Rightarrow> u64 \<Rightarrow> client_st \<Rightarrow> (memcached_return_t \<times> client_st) option" where
  "memcached_flush_textual E expiration c =
     (if memcached_server_count (c_memc c) = 0 then Some (MEMCACHED_NO_SERVERS, c)
      else map_option (Pair MEMCACHED_SUCCESS)
             (flush_textual_loop E expiration (server_range c) (local_buffer (ce_io E) MEMCACHED_DEFAULT_COMMAND_SIZE) c))"

text \<open>The extras of the request hold 32 bits of the time.\<close>

definition flush_request :: "byte \<Rightarrow> u64 \<Rightarrow> byte list" where
  "flush_request opcode expiration =
     request_bytes \<lparr>req_magic = PROTOCOL_BINARY_REQ, req_opcode = opcode, req_keylen = 0, req_extlen = 4,
       req_datatype = PROTOCOL_BINARY_RAW_BYTES, req_reserved = 0, req_bodylen = htonl 4, req_opaque = 0, req_cas = 0\<rparr> @
     st_le32 (htonl (ucast expiration))"

fun flush_binary_send :: "client_env \<Rightarrow> u64 \<Rightarrow> nat list \<Rightarrow> client_st \<Rightarrow> (bool \<times> client_st) option" where
  "flush_binary_send E expiration [] c = Some (True, c)"
| "flush_binary_send E expiration (i # is) c = do {
     let opcode = (if no_reply (flags (c_memc c)) then PROTOCOL_BINARY_CMD_FLUSHQ else PROTOCOL_BINARY_CMD_FLUSH);
     (rc, c) \<leftarrow> memcached_do E i (flush_request opcode expiration) True c;
     if rc \<noteq> MEMCACHED_SUCCESS then map_option (Pair False) (io_reset_at E i c)
     else flush_binary_send E expiration is c
   }"

fun flush_binary_answers :: "client_env \<Rightarrow> nat list \<Rightarrow> client_st \<Rightarrow> client_st option" where
  "flush_binary_answers E [] c = Some c"
| "flush_binary_answers E (i # is) c = do {
     c \<leftarrow> (if 0 < memcached_server_response_count (server_of i c) then map_option snd (response_at_server E i [] c) else Some c);
     flush_binary_answers E is c
   }"

definition memcached_flush_binary :: "client_env \<Rightarrow> u64 \<Rightarrow> client_st \<Rightarrow> (memcached_return_t \<times> client_st) option" where
  "memcached_flush_binary E expiration c =
     (if memcached_server_count (c_memc c) = 0 then Some (MEMCACHED_NO_SERVERS, c)
      else do {
        (sent, c) \<leftarrow> flush_binary_send E expiration (server_range c) c;
        if sent then map_option (Pair MEMCACHED_SUCCESS) (flush_binary_answers E (server_range c) c)
        else Some (MEMCACHED_WRITE_FAILURE, c)
      })"

definition memcached_flush :: "client_env \<Rightarrow> u64 \<Rightarrow> client_st \<Rightarrow> (memcached_return_t \<times> client_st) option" where
  "memcached_flush E expiration c =
     (if binary_protocol (flags (c_memc c)) then memcached_flush_binary E expiration c else memcached_flush_textual E expiration c)"

section \<open>\<open>version.c\<close>\<close>

definition set_version :: "u64 \<Rightarrow> u64 \<Rightarrow> u64 \<Rightarrow> memcached_server_st \<Rightarrow> memcached_server_st" where
  "set_version major minor micro p =
     p\<lparr>major_version := ucast major, minor_version := ucast minor, micro_version := ucast micro\<rparr>"

text \<open>The three numbers behind the first space of a line.\<close>

definition version_of_line :: "byte list \<Rightarrow> (u64 \<times> u64 \<times> u64) option" where
  "version_of_line buf = do {
     p \<leftarrow> behind_char 32 buf 0;
     (major, _) \<leftarrow> strtol_at buf p;
     p \<leftarrow> behind_char 46 buf p;
     (minor, _) \<leftarrow> strtol_at buf p;
     p \<leftarrow> behind_char 46 buf p;
     (micro, _) \<leftarrow> strtol_at buf p;
     Some (major, minor, micro)
   }"

fun version_textual_loop ::
  "client_env \<Rightarrow> nat list \<Rightarrow> byte list \<Rightarrow> memcached_return_t \<Rightarrow> client_st \<Rightarrow> (memcached_return_t \<times> client_st) option" where
  "version_textual_loop E [] buf rc c = Some (rc, c)"
| "version_textual_loop E (i # is) buf rc c = do {
     (rrc, c) \<leftarrow> memcached_do E i (bytes ''version'' @ [13, 10]) True c;
     if rrc \<noteq> MEMCACHED_SUCCESS then version_textual_loop E is buf MEMCACHED_SOME_ERRORS c
     else do {
       ((rrc, buf), c) \<leftarrow> response_at_server E i buf c;
       if rrc \<noteq> MEMCACHED_SUCCESS then version_textual_loop E is buf MEMCACHED_SOME_ERRORS c
       else do {
         (major, minor, micro) \<leftarrow> version_of_line buf;
         version_textual_loop E is buf rc (modify i (set_version major minor micro) c)
       }
     }
   }"

definition memcached_version_textual :: "client_env \<Rightarrow> client_st \<Rightarrow> (memcached_return_t \<times> client_st) option" where
  "memcached_version_textual E c =
     version_textual_loop E (server_range c) (local_buffer (ce_io E) MEMCACHED_DEFAULT_COMMAND_SIZE) MEMCACHED_SUCCESS c"

fun version_binary_send ::
  "client_env \<Rightarrow> nat list \<Rightarrow> memcached_return_t \<Rightarrow> client_st \<Rightarrow> (memcached_return_t \<times> client_st) option" where
  "version_binary_send E [] rc c = Some (rc, c)"
| "version_binary_send E (i # is) rc c = do {
     (rrc, c) \<leftarrow> memcached_do E i (small_request PROTOCOL_BINARY_CMD_VERSION) True c;
     if rrc \<noteq> MEMCACHED_SUCCESS then do { c \<leftarrow> io_reset_at E i c; version_binary_send E is MEMCACHED_SOME_ERRORS c }
     else version_binary_send E is rc c
   }"

text \<open>Each number starts one byte behind the end of the one before, whatever that byte is.\<close>

definition version_of_body :: "byte list \<Rightarrow> (u64 \<times> u64 \<times> u64) option" where
  "version_of_body buf = do {
     (major, p) \<leftarrow> strtol_at buf 0;
     (minor, p) \<leftarrow> strtol_at buf (p + 1);
     (micro, _) \<leftarrow> strtol_at buf (p + 1);
     Some (major, minor, micro)
   }"

fun version_binary_answers ::
  "client_env \<Rightarrow> nat list \<Rightarrow> memcached_return_t \<Rightarrow> client_st \<Rightarrow> (memcached_return_t \<times> client_st) option" where
  "version_binary_answers E [] rc c = Some (rc, c)"
| "version_binary_answers E (i # is) rc c =
     (if 0 < memcached_server_response_count (server_of i c)
      then do {
        ((rrc, buf), c) \<leftarrow> response_at_server E i (local_buffer (ce_io E) 32) c;
        if rrc \<noteq> MEMCACHED_SUCCESS then do { c \<leftarrow> io_reset_at E i c; version_binary_answers E is MEMCACHED_SOME_ERRORS c }
        else do {
          (major, minor, micro) \<leftarrow> version_of_body buf;
          version_binary_answers E is rc (modify i (set_version major minor micro) c)
        }
      }
      else version_binary_answers E is rc c)"

definition memcached_version_binary :: "client_env \<Rightarrow> client_st \<Rightarrow> (memcached_return_t \<times> client_st) option" where
  "memcached_version_binary E c = do {
     (rc, c) \<leftarrow> version_binary_send E (server_range c) MEMCACHED_SUCCESS c;
     version_binary_answers E (server_range c) rc c
   }"

definition memcached_version :: "client_env \<Rightarrow> client_st \<Rightarrow> (memcached_return_t \<times> client_st) option" where
  "memcached_version E c =
     (if use_udp (flags (c_memc c)) then Some (MEMCACHED_NOT_SUPPORTED, c)
      else if binary_protocol (flags (c_memc c)) then memcached_version_binary E c else memcached_version_textual E c)"

section \<open>\<open>memcached_server_cursor\<close>\<close>

text \<open>Each callback is called for each server; what it returns is not used.\<close>

fun cursor_callbacks ::
  "(nat \<Rightarrow> client_st \<Rightarrow> (memcached_return_t \<times> client_st) option) list \<Rightarrow> nat \<Rightarrow> client_st \<Rightarrow> client_st option" where
  "cursor_callbacks [] i c = Some c"
| "cursor_callbacks (f # fs) i c = do { (_, c) \<leftarrow> f i c; cursor_callbacks fs i c }"

fun cursor_servers ::
  "(nat \<Rightarrow> client_st \<Rightarrow> (memcached_return_t \<times> client_st) option) list \<Rightarrow> nat list \<Rightarrow> client_st \<Rightarrow> client_st option" where
  "cursor_servers fs [] c = Some c"
| "cursor_servers fs (i # is) c = do { c \<leftarrow> cursor_callbacks fs i c; cursor_servers fs is c }"

definition memcached_server_cursor ::
  "(nat \<Rightarrow> client_st \<Rightarrow> (memcached_return_t \<times> client_st) option) list \<Rightarrow> client_st
   \<Rightarrow> (memcached_return_t \<times> client_st) option" where
  "memcached_server_cursor fs c = map_option (Pair MEMCACHED_SUCCESS) (cursor_servers fs (server_range c) c)"

section \<open>A client on the stack\<close>

text \<open>
  \<open>memcached_free\<close> closes the connections; the rest is memory. A client on the stack, of which \<open>junk\<close> is the contents, lives
  beside the one of the caller and uses other sockets; the caller's is put back when it is freed. The result of adding the
  one server is passed on.
\<close>

definition memcached_free :: "client_env \<Rightarrow> client_st \<Rightarrow> client_st option" where
  "memcached_free E c = memcached_quit E c"

definition with_local_client ::
  "client_env \<Rightarrow> memcached_st \<Rightarrow> byte list \<Rightarrow> u16 \<Rightarrow> (memcached_return_t \<Rightarrow> client_st \<Rightarrow> ('a \<times> client_st) option) \<Rightarrow> client_st
   \<Rightarrow> ('a \<times> client_st) option" where
  "with_local_client E junk host prt f c = do {
     m \<leftarrow> memcached_create (io_realloc (ce_io E)) None (Some junk);
     (rc, m) \<leftarrow> memcached_server_add (ce_memc E) m (Some host) prt;
     (r, d) \<leftarrow> f rc (c\<lparr>c_memc := m\<rparr>);
     d \<leftarrow> memcached_free E d;
     Some (r, d\<lparr>c_memc := c_memc c\<rparr>)
   }"

section \<open>\<open>verbosity.c\<close>\<close>

definition set_verbosity ::
  "client_env \<Rightarrow> memcached_st \<Rightarrow> byte list \<Rightarrow> nat \<Rightarrow> client_st \<Rightarrow> (memcached_return_t \<times> client_st) option" where
  "set_verbosity E junk line i c =
     with_local_client E junk (memcached_server_name (server_of i c)) (memcached_server_port (server_of i c))
       (\<lambda>rc c. if rc \<noteq> MEMCACHED_SUCCESS then Some (rc, c)
               else do {
                 (rc, c) \<leftarrow> memcached_do E 0 line True c;
                 if rc \<noteq> MEMCACHED_SUCCESS then Some (rc, c)
                 else map_option (\<lambda>((rc, _), c). (rc, c))
                        (response_at_server E 0 (local_buffer (ce_io E) MEMCACHED_DEFAULT_COMMAND_SIZE) c)
               }) c"

definition memcached_verbosity :: "client_env \<Rightarrow> memcached_st \<Rightarrow> u32 \<Rightarrow> client_st \<Rightarrow> (memcached_return_t \<times> client_st) option" where
  "memcached_verbosity E junk verbosity c =
     (let line = bytes ''verbosity '' @ dec_digits (unat verbosity) @ [13, 10]
      in if MEMCACHED_DEFAULT_COMMAND_SIZE \<le> length line then Some (MEMCACHED_WRITE_FAILURE, c)
         else memcached_server_cursor [set_verbosity E junk line] c)"

section \<open>\<open>dump.c\<close>\<close>

text \<open>
  The callbacks get the key and the caller's data, the context; the first that does not succeed ends the round for this
  key only. The answers are read until the line that ends them, or one that is an error.
\<close>

fun dump_callbacks :: "(byte list \<Rightarrow> 'a \<Rightarrow> memcached_return_t \<times> 'a) list \<Rightarrow> byte list \<Rightarrow> 'a \<Rightarrow> 'a" where
  "dump_callbacks [] key ctx = ctx"
| "dump_callbacks (f # fs) key ctx = (case f key ctx of (rc, ctx) \<Rightarrow> if rc \<noteq> MEMCACHED_SUCCESS then ctx else dump_callbacks fs key ctx)"

partial_function (option) dump_answers ::
  "client_env \<Rightarrow> nat \<Rightarrow> (byte list \<Rightarrow> 'a \<Rightarrow> memcached_return_t \<times> 'a) list \<Rightarrow> byte list \<Rightarrow> 'a \<Rightarrow> client_st
   \<Rightarrow> ((memcached_return_t \<times> byte list \<times> 'a) \<times> client_st) option" where
  "dump_answers E i fs buf ctx c =
     Option.bind (response_at_server E i buf c) (\<lambda>((rc, buf), c).
       if rc = MEMCACHED_ITEM
       then Option.bind (word_at isgraph buf 5) (\<lambda>e.
              let key = drop 5 (take e buf) in dump_answers E i fs (buf[e := 0]) (dump_callbacks fs key ctx) c)
       else if rc = MEMCACHED_SERVER_ERROR \<or> rc = MEMCACHED_CLIENT_ERROR then Some ((MEMCACHED_END, buf, ctx), c)
       else Some ((rc, buf, ctx), c))"

fun dump_slabs ::
  "client_env \<Rightarrow> nat \<Rightarrow> (byte list \<Rightarrow> 'a \<Rightarrow> memcached_return_t \<times> 'a) list \<Rightarrow> nat list \<Rightarrow> memcached_return_t \<times> byte list \<times> 'a \<Rightarrow> client_st
   \<Rightarrow> ((bool \<times> memcached_return_t \<times> byte list \<times> 'a) \<times> client_st) option" where
  "dump_slabs E i fs [] (rc, buf, ctx) c = Some ((True, rc, buf, ctx), c)"
| "dump_slabs E i fs (x # xs) (rc, buf, ctx) c = do {
     let line = bytes ''stats cachedump '' @ dec_digits x @ bytes '' 0 0'' @ [13, 10];
     let buf = memcpy_at buf 0 (line @ [0]);
     (rc, c) \<leftarrow> memcached_do E i line True c;
     if rc \<noteq> MEMCACHED_SUCCESS then Some ((False, rc, buf, ctx), c)
     else do {
       ((rc, buf, ctx), c) \<leftarrow> dump_answers E i fs buf ctx c;
       if rc = MEMCACHED_END then dump_slabs E i fs xs (rc, buf, ctx) c else Some ((False, rc, buf, ctx), c)
     }
   }"

fun dump_servers ::
  "client_env \<Rightarrow> (byte list \<Rightarrow> 'a \<Rightarrow> memcached_return_t \<times> 'a) list \<Rightarrow> nat list \<Rightarrow> memcached_return_t \<times> byte list \<times> 'a \<Rightarrow> client_st
   \<Rightarrow> ((memcached_return_t \<times> 'a) \<times> client_st) option" where
  "dump_servers E fs [] (rc, buf, ctx) c = Some ((rc, ctx), c)"
| "dump_servers E fs (i # is) (rc, buf, ctx) c = do {
     ((go_on, rc, buf, ctx), c) \<leftarrow> dump_slabs E i fs [0 ..< 256] (rc, buf, ctx) c;
     if go_on then dump_servers E fs is (rc, buf, ctx) c else Some ((rc, ctx), c)
   }"

definition ascii_dump ::
  "client_env \<Rightarrow> (byte list \<Rightarrow> 'a \<Rightarrow> memcached_return_t \<times> 'a) list \<Rightarrow> 'a \<Rightarrow> client_st \<Rightarrow> ((memcached_return_t \<times> 'a) \<times> client_st) option" where
  "ascii_dump E fs ctx c =
     (if memcached_server_count (c_memc c) = 0 then Some ((MEMCACHED_NO_SERVERS, ctx), c)
      else map_option (\<lambda>((rc, ctx), c). ((if rc = MEMCACHED_END then MEMCACHED_SUCCESS else rc, ctx), c))
             (dump_servers E fs (server_range c) (MEMCACHED_SUCCESS, local_buffer (ce_io E) MEMCACHED_DEFAULT_COMMAND_SIZE, ctx) c))"

definition memcached_dump ::
  "client_env \<Rightarrow> (byte list \<Rightarrow> 'a \<Rightarrow> memcached_return_t \<times> 'a) list \<Rightarrow> 'a \<Rightarrow> client_st \<Rightarrow> ((memcached_return_t \<times> 'a) \<times> client_st) option" where
  "memcached_dump E fs ctx c =
     (if binary_protocol (flags (c_memc c)) then Some ((MEMCACHED_FAILURE, ctx), c) else ascii_dump E fs ctx c)"

end
