(* ===== verification/Client_Stats.thy ===== *)
theory Client_Stats
  imports Client_Admin
begin

text \<open>
  \<open>stats.c\<close>: the statistics of the servers. A statistic is set from two strings in the array that the answer was read into;
  \<open>None\<close> stands for a string that does not end in it, for a scan that leaves it, and for a version that does not fit
  into the array for it. The pointer to the client in the structure is left out: it only tells \<open>memcached_stat_free\<close> who frees it.
\<close>

record memcached_stat_st =
  connection_structures :: u32
  curr_connections :: u32
  curr_items :: u32
  pid :: u32
  pointer_size :: u32
  rusage_system_microseconds :: u32
  rusage_system_seconds :: u32
  rusage_user_microseconds :: u32
  rusage_user_seconds :: u32
  threads :: u32
  time :: u32
  total_connections :: u32
  total_items :: u32
  uptime :: u32
  stat_bytes :: u64
  bytes_read :: u64
  bytes_written :: u64
  cmd_get :: u64
  cmd_set :: u64
  evictions :: u64
  get_hits :: u64
  get_misses :: u64
  limit_maxbytes :: u64
  stat_version :: "byte list"

definition MEMCACHED_VERSION_STRING_LENGTH :: nat where "MEMCACHED_VERSION_STRING_LENGTH = 24"

definition zero_stat :: memcached_stat_st where
  "zero_stat =
     \<lparr>connection_structures = 0, curr_connections = 0, curr_items = 0, pid = 0, pointer_size = 0, rusage_system_microseconds = 0,
      rusage_system_seconds = 0, rusage_user_microseconds = 0, rusage_user_seconds = 0, threads = 0, time = 0, total_connections = 0,
      total_items = 0, uptime = 0, stat_bytes = 0, bytes_read = 0, bytes_written = 0, cmd_get = 0, cmd_set = 0, evictions = 0,
      get_hits = 0, get_misses = 0, limit_maxbytes = 0, stat_version = replicate MEMCACHED_VERSION_STRING_LENGTH 0\<rparr>"

definition ispunct :: "byte \<Rightarrow> bool" where
  "ispunct c \<longleftrightarrow> isgraph c \<and> \<not> (isdigit c \<or> 65 \<le> c \<and> c \<le> 90 \<or> 97 \<le> c \<and> c \<le> 122)"

section \<open>Setting a statistic\<close>

text \<open>Names that are known but not kept.\<close>

definition swallowed_keys :: "byte list list" where
  "swallowed_keys =
     [bytes ''delete_misses'', bytes ''delete_hits'', bytes ''incr_misses'', bytes ''incr_hits'', bytes ''decr_misses'', bytes ''decr_hits'',
      bytes ''cas_misses'', bytes ''cas_hits'', bytes ''cas_badval'', bytes ''cmd_flush'', bytes ''accepting_conns'',
      bytes ''listen_disabled_num'', bytes ''conn_yields'', bytes ''auth_cmds'', bytes ''auth_errors'', bytes ''reclaimed'']"

text \<open>The statistics that are numbers. Those on the left are cast to 32 bits on the way into the structure.\<close>

definition number_fields_32 :: "(byte list \<times> (u32 \<Rightarrow> memcached_stat_st \<Rightarrow> memcached_stat_st)) list" where
  "number_fields_32 =
     [(bytes ''pid'', \<lambda>n s. s\<lparr>pid := n\<rparr>), (bytes ''uptime'', \<lambda>n s. s\<lparr>uptime := n\<rparr>), (bytes ''time'', \<lambda>n s. s\<lparr>time := n\<rparr>),
      (bytes ''pointer_size'', \<lambda>n s. s\<lparr>pointer_size := n\<rparr>), (bytes ''curr_items'', \<lambda>n s. s\<lparr>curr_items := n\<rparr>),
      (bytes ''total_items'', \<lambda>n s. s\<lparr>total_items := n\<rparr>), (bytes ''bytes_read'', \<lambda>n s. s\<lparr>bytes_read := ucast n\<rparr>),
      (bytes ''bytes_written'', \<lambda>n s. s\<lparr>bytes_written := ucast n\<rparr>), (bytes ''bytes'', \<lambda>n s. s\<lparr>stat_bytes := ucast n\<rparr>),
      (bytes ''curr_connections'', \<lambda>n s. s\<lparr>curr_connections := n\<rparr>), (bytes ''total_connections'', \<lambda>n s. s\<lparr>total_connections := n\<rparr>),
      (bytes ''connection_structures'', \<lambda>n s. s\<lparr>connection_structures := n\<rparr>), (bytes ''threads'', \<lambda>n s. s\<lparr>threads := n\<rparr>)]"

definition number_fields_64 :: "(byte list \<times> (u64 \<Rightarrow> memcached_stat_st \<Rightarrow> memcached_stat_st)) list" where
  "number_fields_64 =
     [(bytes ''cmd_get'', \<lambda>n s. s\<lparr>cmd_get := n\<rparr>), (bytes ''cmd_set'', \<lambda>n s. s\<lparr>cmd_set := n\<rparr>), (bytes ''get_hits'', \<lambda>n s. s\<lparr>get_hits := n\<rparr>),
      (bytes ''get_misses'', \<lambda>n s. s\<lparr>get_misses := n\<rparr>), (bytes ''evictions'', \<lambda>n s. s\<lparr>evictions := n\<rparr>),
      (bytes ''limit_maxbytes'', \<lambda>n s. s\<lparr>limit_maxbytes := n\<rparr>)]"

text \<open>
  Seconds and microseconds: the first punctuation character, which is looked for in all of the array, is overwritten, so that
  the first number ends before it.
\<close>

definition set_rusage ::
  "(u32 \<Rightarrow> u32 \<Rightarrow> memcached_stat_st \<Rightarrow> memcached_stat_st) \<Rightarrow> byte list \<Rightarrow> nat \<Rightarrow> memcached_stat_st
   \<Rightarrow> (memcached_return_t \<times> memcached_stat_st \<times> byte list) option" where
  "set_rusage both buf v st = do {
     w \<leftarrow> word_at (\<lambda>c. \<not> ispunct c) buf v;
     let buf = buf[w := 0];
     (seconds, _) \<leftarrow> strtol_at buf v;
     (microseconds, _) \<leftarrow> strtol_at buf (w + 1);
     Some (MEMCACHED_SUCCESS, both (ucast seconds) (ucast microseconds) st, buf)
   }"

definition set_data ::
  "memcached_stat_st \<Rightarrow> byte list \<Rightarrow> nat \<Rightarrow> nat \<Rightarrow> (memcached_return_t \<times> memcached_stat_st \<times> byte list) option" where
  "set_data st buf k v = do {
     key \<leftarrow> string_at buf k;
     if key = [] then Some (MEMCACHED_UNKNOWN_STAT_KEY, st, buf)
     else if key = bytes ''version''
     then do {
       value \<leftarrow> string_at buf v;
       if MEMCACHED_VERSION_STRING_LENGTH \<le> length value then None
       else Some (MEMCACHED_SUCCESS, st\<lparr>stat_version := memcpy_at (stat_version st) 0 (value @ [0])\<rparr>, buf)
     }
     else if key = bytes ''rusage_user''
     then set_rusage (\<lambda>a b s. s\<lparr>rusage_user_seconds := a, rusage_user_microseconds := b\<rparr>) buf v st
     else if key = bytes ''rusage_system''
     then set_rusage (\<lambda>a b s. s\<lparr>rusage_system_seconds := a, rusage_system_microseconds := b\<rparr>) buf v st
     else case map_of number_fields_32 key of
            Some f \<Rightarrow> do { (n, _) \<leftarrow> strtol_at buf v; Some (MEMCACHED_SUCCESS, f (ucast n) st, buf) }
          | None \<Rightarrow>
              (case map_of number_fields_64 key of
                 Some f \<Rightarrow> do { (n, _) \<leftarrow> strtol_at buf v; Some (MEMCACHED_SUCCESS, f n st, buf) }
               | None \<Rightarrow> Some (if key \<in> set swallowed_keys then MEMCACHED_SUCCESS else MEMCACHED_UNKNOWN_STAT_KEY, st, buf))
   }"

section \<open>Reading a statistic\<close>

definition memcached_stat_keys :: "byte list list" where
  "memcached_stat_keys =
     [bytes ''pid'', bytes ''uptime'', bytes ''time'', bytes ''version'', bytes ''pointer_size'', bytes ''rusage_user'', bytes ''rusage_system'',
      bytes ''curr_items'', bytes ''total_items'', bytes ''bytes'', bytes ''curr_connections'', bytes ''total_connections'',
      bytes ''connection_structures'', bytes ''cmd_get'', bytes ''cmd_set'', bytes ''get_hits'', bytes ''get_misses'', bytes ''evictions'',
      bytes ''bytes_read'', bytes ''bytes_written'', bytes ''limit_maxbytes'', bytes ''threads'']"

definition memcached_stat_get_keys :: "(nat \<Rightarrow> bool) \<Rightarrow> byte list list option \<times> memcached_return_t" where
  "memcached_stat_get_keys can_alloc =
     (if \<not> can_alloc (8 * (length memcached_stat_keys + 1)) then (None, MEMCACHED_MEMORY_ALLOCATION_FAILURE)
      else (Some memcached_stat_keys, MEMCACHED_SUCCESS))"

text \<open>The names in the order in which they are compared, with what is printed.\<close>

definition stat_texts :: "(byte list \<times> (memcached_stat_st \<Rightarrow> byte list)) list" where
  "stat_texts =
     (let number = (\<lambda>f s. dec_digits (unat (f s :: u32))); big = (\<lambda>f s. dec_digits (unat (f s :: u64)))
      in [(bytes ''pid'', number pid), (bytes ''uptime'', number uptime), (bytes ''time'', number time),
          (bytes ''version'', \<lambda>s. c_str (stat_version s)), (bytes ''pointer_size'', number pointer_size),
          (bytes ''rusage_user'', \<lambda>s. number rusage_user_seconds s @ [46] @ number rusage_user_microseconds s),
          (bytes ''rusage_system'', \<lambda>s. number rusage_system_seconds s @ [46] @ number rusage_system_microseconds s),
          (bytes ''curr_items'', number curr_items), (bytes ''total_items'', number total_items),
          (bytes ''curr_connections'', number curr_connections), (bytes ''total_connections'', number total_connections),
          (bytes ''connection_structures'', number connection_structures), (bytes ''cmd_get'', big cmd_get), (bytes ''cmd_set'', big cmd_set),
          (bytes ''get_hits'', big get_hits), (bytes ''get_misses'', big get_misses), (bytes ''evictions'', big evictions),
          (bytes ''bytes_read'', big bytes_read), (bytes ''bytes_written'', big bytes_written), (bytes ''bytes'', big stat_bytes),
          (bytes ''limit_maxbytes'', big limit_maxbytes), (bytes ''threads'', number threads)])"

text \<open>
  The comparison is over the length of the name in the source, so that every key that begins with it is accepted; \<open>key\<close> is
  given with its NUL. The copy is made without looking at the result of the allocation.
\<close>

definition memcached_stat_get_value ::
  "(nat \<Rightarrow> bool) \<Rightarrow> memcached_stat_st \<Rightarrow> byte list \<Rightarrow> (byte list option \<times> memcached_return_t) option" where
  "memcached_stat_get_value can_alloc st key =
     (case find (\<lambda>(name, _). take (length name) key = name) stat_texts of
        None \<Rightarrow> Some (None, MEMCACHED_NOTFOUND)
      | Some (_, f) \<Rightarrow>
          if can_alloc (length (f st) + 1) then Some (Some (f st @ [0]), MEMCACHED_SUCCESS) else None)"

section \<open>Asking the servers\<close>

definition stat_header :: "nat \<Rightarrow> byte list" where
  "stat_header len =
     request_bytes \<lparr>req_magic = PROTOCOL_BINARY_REQ, req_opcode = PROTOCOL_BINARY_CMD_STAT, req_keylen = htons (of_nat len),
       req_extlen = 0, req_datatype = PROTOCOL_BINARY_RAW_BYTES, req_reserved = 0, req_bodylen = htonl (of_nat len), req_opaque = 0,
       req_cas = 0\<rparr>"

text \<open>The answers up to the one that ends them, which sets \<open>cursor_active\<close> to 0. A name that is not known is passed over.\<close>

partial_function (option) binary_stats_loop ::
  "client_env \<Rightarrow> nat \<Rightarrow> byte list \<Rightarrow> memcached_stat_st \<Rightarrow> client_st \<Rightarrow> ((memcached_return_t \<times> memcached_stat_st) \<times> client_st) option" where
  "binary_stats_loop E i buf st c =
     Option.bind (response_at_server E i buf c) (\<lambda>((rc, buf), c).
       if rc = MEMCACHED_END then Some ((MEMCACHED_SUCCESS, st), modify i memcached_server_response_reset c)
       else if rc \<noteq> MEMCACHED_SUCCESS then map_option (Pair (rc, st)) (io_reset_at E i c)
       else Option.bind (string_at buf 0) (\<lambda>key. Option.bind (set_data st buf 0 (length key + 1)) (\<lambda>(_, st, buf).
              binary_stats_loop E i buf st c)))"

definition binary_stats_fetch ::
  "client_env \<Rightarrow> byte list option \<Rightarrow> nat \<Rightarrow> memcached_stat_st \<Rightarrow> client_st \<Rightarrow> ((memcached_return_t \<times> memcached_stat_st) \<times> client_st) option" where
  "binary_stats_fetch E args i st c =
     (let checked = (case args of Some a \<Rightarrow> memcached_validate_key_length (length a) True | None \<Rightarrow> MEMCACHED_SUCCESS)
      in if checked \<noteq> MEMCACHED_SUCCESS then Some ((checked, st), c)
         else do {
           (rc, c) \<leftarrow> (case args of Some a \<Rightarrow> memcached_vdo E i [stat_header (length a), a] True c
                       | None \<Rightarrow> memcached_do E i (stat_header 0) True c);
           if rc \<noteq> MEMCACHED_SUCCESS then map_option (Pair (MEMCACHED_WRITE_FAILURE, st)) (io_reset_at E i c)
           else binary_stats_loop E i (local_buffer (ce_io E) MEMCACHED_DEFAULT_COMMAND_SIZE) st
                  (modify i memcached_server_response_decrement c)
         })"

text \<open>A line of the text protocol: the name ends at the first byte that is no character, the value at the next white space.\<close>

definition stat_line :: "memcached_stat_st \<Rightarrow> byte list \<Rightarrow> (memcached_stat_st \<times> byte list) option" where
  "stat_line st buf = do {
     k \<leftarrow> word_at isgraph buf 5;
     let buf = buf[k := 0];
     v \<leftarrow> word_at (\<lambda>c. \<not> isspace c) buf (k + 1);
     let buf = buf[v := 0];
     (_, st, buf) \<leftarrow> set_data st buf 5 (k + 1);
     Some (st, buf)
   }"

partial_function (option) ascii_stats_loop ::
  "client_env \<Rightarrow> nat \<Rightarrow> byte list \<Rightarrow> memcached_stat_st \<Rightarrow> client_st \<Rightarrow> ((memcached_return_t \<times> memcached_stat_st) \<times> client_st) option" where
  "ascii_stats_loop E i buf st c =
     Option.bind (response_at_server E i buf c) (\<lambda>((rc, buf), c).
       if rc = MEMCACHED_STAT then Option.bind (stat_line st buf) (\<lambda>(st, buf). ascii_stats_loop E i buf st c)
       else Some ((rc, st), c))"

definition ascii_stats_fetch ::
  "client_env \<Rightarrow> byte list option \<Rightarrow> nat \<Rightarrow> memcached_stat_st \<Rightarrow> client_st \<Rightarrow> ((memcached_return_t \<times> memcached_stat_st) \<times> client_st) option" where
  "ascii_stats_fetch E args i st c =
     (let line = (case args of Some a \<Rightarrow> bytes ''stats '' @ a @ [13, 10] | None \<Rightarrow> bytes ''stats'' @ [13, 10]);
          buf = memcpy_at (local_buffer (ce_io E) MEMCACHED_DEFAULT_COMMAND_SIZE) 0 (line @ [0])
      in if MEMCACHED_DEFAULT_COMMAND_SIZE \<le> length line then Some ((MEMCACHED_WRITE_FAILURE, st), c)
         else do {
           (rc, c) \<leftarrow> memcached_do E i line True c;
           if rc \<noteq> MEMCACHED_SUCCESS then Some ((rc, st), c)
           else map_option (\<lambda>((rc, st), c). ((if rc = MEMCACHED_END then MEMCACHED_SUCCESS else rc, st), c)) (ascii_stats_loop E i buf st c)
         })"

definition stats_fetch ::
  "client_env \<Rightarrow> byte list option \<Rightarrow> nat \<Rightarrow> memcached_stat_st \<Rightarrow> client_st \<Rightarrow> ((memcached_return_t \<times> memcached_stat_st) \<times> client_st) option" where
  "stats_fetch E args i st c =
     (if binary_protocol (flags (c_memc c)) then binary_stats_fetch E args i st c else ascii_stats_fetch E args i st c)"

fun stat_servers ::
  "client_env \<Rightarrow> byte list option \<Rightarrow> nat list \<Rightarrow> memcached_return_t \<Rightarrow> client_st
   \<Rightarrow> ((memcached_return_t \<times> memcached_stat_st list) \<times> client_st) option" where
  "stat_servers E args [] rc c = Some ((rc, []), c)"
| "stat_servers E args (i # is) rc c = do {
     ((one, st), c) \<leftarrow> stats_fetch E args i zero_stat c;
     ((rc, sts), c) \<leftarrow> stat_servers E args is (if one \<noteq> MEMCACHED_SUCCESS then MEMCACHED_SOME_ERRORS else rc) c;
     Some ((rc, st # sts), c)
   }"

text \<open>The statistics of all servers, and the value of \<open>error\<close>; \<open>stat_size\<close> is the size of the structure.\<close>

definition memcached_stat ::
  "client_env \<Rightarrow> nat \<Rightarrow> byte list option \<Rightarrow> client_st \<Rightarrow> ((memcached_stat_st list option \<times> memcached_return_t) \<times> client_st) option" where
  "memcached_stat E stat_size args c =
     (if use_udp (flags (c_memc c)) then Some ((None, MEMCACHED_NOT_SUPPORTED), c)
      else if \<not> ce_malloc E (unat (memcached_server_count (c_memc c)) * stat_size) then Some ((None, MEMCACHED_MEMORY_ALLOCATION_FAILURE), c)
      else map_option (\<lambda>((rc, sts), c). ((Some sts, rc), c)) (stat_servers E args (server_range c) MEMCACHED_SUCCESS c))"

text \<open>The result of adding the server is not looked at: without it there is no first server, which is \<open>None\<close>.\<close>

definition memcached_stat_servername ::
  "client_env \<Rightarrow> memcached_st \<Rightarrow> byte list option \<Rightarrow> byte list \<Rightarrow> u16 \<Rightarrow> client_st
   \<Rightarrow> ((memcached_return_t \<times> memcached_stat_st) \<times> client_st) option" where
  "memcached_stat_servername E junk args host prt c =
     with_local_client E junk host prt (\<lambda>_ c. stats_fetch E args 0 zero_stat c) c"

section \<open>A line and the value that is reported\<close>

lemma word_at_ends:
  assumes "m = pre @ w @ c # rest" and "\<forall>b \<in> set w. goes_on b" and "\<not> goes_on c"
  shows "word_at goes_on m (length pre) = Some (length pre + length w)"
proof -
  have "takeWhile goes_on (w @ c # rest) = w" using assms(2,3) by (simp add: takeWhile_append2)
  then show ?thesis by (simp add: word_at_def assms(1))
qed

lemma string_at_ends: "m = pre @ w @ 0 # rest \<Longrightarrow> 0 \<notin> set w \<Longrightarrow> string_at m (length pre) = Some w"
  by (simp add: string_at_def c_str_append_nul)

lemma strtol_at_digits:
  assumes "m = pre @ dec_digits n @ c # rest" and "\<not> isdigit c" and "n < 2 ^ 63"
  shows "strtol_at m (length pre) = Some (of_nat n, length pre + length (dec_digits n))"
proof -
  let ?s = "dec_digits n @ c # rest"
  obtain d ds where d: "dec_digits n = d # ds" by (cases "dec_digits n") auto
  have dig: "isdigit x" if "x \<in> set (dec_digits n)" for x using that by (rule dec_digits_isdigit)
  then have hd: "isdigit d" by (simp add: d)
  have t: "takeWhile isdigit ?s = dec_digits n" using dig assms(2) by (simp add: takeWhile_append2)
  have s: "dropWhile isspace ?s = ?s" "takeWhile isspace ?s = []" "hd ?s = d" using isdigit_not [OF hd] by (simp_all add: d)
  have digits: "number_digits ?s = dec_digits n" "number_end ?s = length (dec_digits n)"
    using isdigit_not [OF hd] unfolding number_digits_def number_end_def Let_def s by (simp_all only: t s) (simp_all add: t)
  have "strtol10 ?s = of_nat n"
    unfolding strtol10_def Let_def s digits dec_digits_value using isdigit_not [OF hd] assms(3) by simp
  then show ?thesis unfolding strtol_at_def Let_def assms(1) by (simp add: digits)
qed

definition stat_answer :: "byte list \<Rightarrow> nat \<Rightarrow> byte list \<Rightarrow> byte list" where
  "stat_answer key n rest = bytes ''STAT '' @ key @ [32] @ dec_digits n @ [13, 10] @ rest"

lemma stat_bytes_five: "length (bytes ''STAT '') = 5"
  by (simp add: bytes_def)

lemma stat_line_parsed:
  assumes "\<forall>b \<in> set key. isgraph b" and "n < 2 ^ 63"
  shows "\<exists>buf. stat_line st (stat_answer key n rest) = map_option snd (set_data st buf 5 (6 + length key)) \<and>
     string_at buf 5 = Some key \<and> (\<exists>e. strtol_at buf (6 + length key) = Some (of_nat n, e))"
proof -
  let ?S = "bytes ''STAT ''" and ?d = "dec_digits n"
  have one: "stat_answer key n rest = ?S @ key @ 32 # (?d @ [13, 10] @ rest)" by (simp add: stat_answer_def)
  have not_graph: "\<not> isgraph 32" by (simp add: isgraph_def)
  have w1: "word_at isgraph (stat_answer key n rest) 5 = Some (5 + length key)"
    using word_at_ends [OF one assms(1) not_graph] stat_bytes_five by simp
  have "(stat_answer key n rest)[5 + length key := 0] = (?S @ key) @ 0 # (?d @ [13, 10] @ rest)"
    using list_update_length [of "?S @ key" 32 _ 0] stat_bytes_five by (simp add: one)
  then have two: "(stat_answer key n rest)[5 + length key := 0] = (?S @ key @ [0]) @ ?d @ 13 # (10 # rest)" by simp
  have "\<forall>b \<in> set ?d. \<not> isspace b" using dec_digits_isdigit isdigit_not by blast
  then have w2: "word_at (\<lambda>c. \<not> isspace c) ((stat_answer key n rest)[5 + length key := 0]) (6 + length key) =
      Some (6 + length key + length ?d)"
    using word_at_ends [OF two] stat_bytes_five by (simp add: isspace_def)
  define buf where "buf = (stat_answer key n rest)[5 + length key := 0, 6 + length key + length ?d := 0]"
  have "buf = ((?S @ key @ [0]) @ ?d) @ 0 # (10 # rest)"
    unfolding buf_def two using list_update_length [of "(?S @ key @ [0]) @ ?d" 13 "10 # rest" 0] stat_bytes_five by (simp add: add.assoc)
  then have buf: "buf = ?S @ key @ 0 # (?d @ 0 # (10 # rest))" "buf = (?S @ key @ [0]) @ ?d @ 0 # (10 # rest)" by simp_all
  have "0 \<notin> set key" using assms(1) by (auto simp: isgraph_def)
  then have "string_at buf 5 = Some key" using string_at_ends [OF buf(1)] stat_bytes_five by simp
  moreover have "strtol_at buf (6 + length key) = Some (of_nat n, 6 + length key + length ?d)"
    using strtol_at_digits [OF buf(2) _ assms(2)] stat_bytes_five by (simp add: isdigit_def)
  moreover have "stat_line st (stat_answer key n rest) = map_option snd (set_data st buf 5 (6 + length key))"
    using w1 w2 by (simp add: stat_line_def map_conv_bind_option buf_def case_prod_unfold comp_def)
  ultimately show ?thesis by blast
qed

definition names_64 :: "byte list set" where "names_64 = set (map fst number_fields_64)"
definition names_32 :: "byte list set" where "names_32 = set (map fst number_fields_32)"

lemma stat_name_bytes:
  "bytes ''pid'' = [112, 105, 100]"
  "bytes ''uptime'' = [117, 112, 116, 105, 109, 101]"
  "bytes ''time'' = [116, 105, 109, 101]"
  "bytes ''version'' = [118, 101, 114, 115, 105, 111, 110]"
  "bytes ''pointer_size'' = [112, 111, 105, 110, 116, 101, 114, 95, 115, 105, 122, 101]"
  "bytes ''rusage_user'' = [114, 117, 115, 97, 103, 101, 95, 117, 115, 101, 114]"
  "bytes ''rusage_system'' = [114, 117, 115, 97, 103, 101, 95, 115, 121, 115, 116, 101, 109]"
  "bytes ''curr_items'' = [99, 117, 114, 114, 95, 105, 116, 101, 109, 115]"
  "bytes ''total_items'' = [116, 111, 116, 97, 108, 95, 105, 116, 101, 109, 115]"
  "bytes ''bytes'' = [98, 121, 116, 101, 115]"
  "bytes ''curr_connections'' = [99, 117, 114, 114, 95, 99, 111, 110, 110, 101, 99, 116, 105, 111, 110, 115]"
  "bytes ''total_connections'' = [116, 111, 116, 97, 108, 95, 99, 111, 110, 110, 101, 99, 116, 105, 111, 110, 115]"
  "bytes ''connection_structures'' = [99, 111, 110, 110, 101, 99, 116, 105, 111, 110, 95, 115, 116, 114, 117, 99, 116, 117, 114, 101, 115]"
  "bytes ''cmd_get'' = [99, 109, 100, 95, 103, 101, 116]"
  "bytes ''cmd_set'' = [99, 109, 100, 95, 115, 101, 116]"
  "bytes ''get_hits'' = [103, 101, 116, 95, 104, 105, 116, 115]"
  "bytes ''get_misses'' = [103, 101, 116, 95, 109, 105, 115, 115, 101, 115]"
  "bytes ''evictions'' = [101, 118, 105, 99, 116, 105, 111, 110, 115]"
  "bytes ''bytes_read'' = [98, 121, 116, 101, 115, 95, 114, 101, 97, 100]"
  "bytes ''bytes_written'' = [98, 121, 116, 101, 115, 95, 119, 114, 105, 116, 116, 101, 110]"
  "bytes ''limit_maxbytes'' = [108, 105, 109, 105, 116, 95, 109, 97, 120, 98, 121, 116, 101, 115]"
  "bytes ''threads'' = [116, 104, 114, 101, 97, 100, 115]"
  by (simp_all add: bytes_def)

text \<open>What setting a field of either table does, and what is then printed for its name.\<close>

definition plain_name :: "byte list \<Rightarrow> bool" where
  "plain_name key \<longleftrightarrow> key \<noteq> [] \<and> key \<noteq> bytes ''version'' \<and> key \<noteq> bytes ''rusage_user'' \<and> key \<noteq> bytes ''rusage_system''"

lemma fields_64_set:
  "\<forall>(key, f) \<in> set number_fields_64. plain_name key \<and> map_of number_fields_32 key = None \<and> map_of number_fields_64 key = Some f"
  unfolding number_fields_64_def number_fields_32_def plain_name_def stat_name_bytes by simp

lemma fields_32_set:
  "\<forall>(key, f) \<in> set number_fields_32. plain_name key \<and> map_of number_fields_32 key = Some f"
  unfolding number_fields_32_def plain_name_def stat_name_bytes by simp

lemma fields_64_printed:
  "\<forall>(key, f) \<in> set number_fields_64. \<forall>n st.
     memcached_stat_get_value (\<lambda>_. True) (f n st) (key @ [0]) = Some (Some (dec_digits (unat n) @ [0]), MEMCACHED_SUCCESS)"
  unfolding number_fields_64_def memcached_stat_get_value_def stat_texts_def Let_def stat_name_bytes by simp

lemma widened: "unat (ucast (n :: u32) :: u64) = unat n"
proof -
  have "unat n < 2 ^ 32" using unsigned_less [of n, where 'a = nat] by simp
  then show ?thesis by (simp add: unsigned_ucast_eq take_bit_eq_mod)
qed

lemma fields_32_printed:
  "\<forall>(key, f) \<in> set number_fields_32. \<forall>n st.
     memcached_stat_get_value (\<lambda>_. True) (f n st) (key @ [0]) = Some (Some (dec_digits (unat n) @ [0]), MEMCACHED_SUCCESS)"
  unfolding number_fields_32_def memcached_stat_get_value_def stat_texts_def Let_def stat_name_bytes
  by (simp add: widened)

lemma set_data_64:
  assumes "string_at buf k = Some key" and "strtol_at buf v = Some (x, e)" and "key \<in> names_64"
  shows "\<exists>st'. set_data st buf k v = Some (MEMCACHED_SUCCESS, st', buf) \<and>
     memcached_stat_get_value (\<lambda>_. True) st' (key @ [0]) = Some (Some (dec_digits (unat x) @ [0]), MEMCACHED_SUCCESS)"
proof -
  obtain f where f: "(key, f) \<in> set number_fields_64" using assms(3) by (auto simp: names_64_def)
  then have "set_data st buf k v = Some (MEMCACHED_SUCCESS, f x st, buf)"
    using fields_64_set assms(1,2) by (fastforce simp: set_data_def plain_name_def)
  with f fields_64_printed show ?thesis by fastforce
qed

lemma set_data_32:
  assumes "string_at buf k = Some key" and "strtol_at buf v = Some (x, e)" and "key \<in> names_32"
  shows "\<exists>st'. set_data st buf k v = Some (MEMCACHED_SUCCESS, st', buf) \<and>
     memcached_stat_get_value (\<lambda>_. True) st' (key @ [0]) = Some (Some (dec_digits (unat x mod 2 ^ 32) @ [0]), MEMCACHED_SUCCESS)"
proof -
  obtain f where f: "(key, f) \<in> set number_fields_32" using assms(3) by (auto simp: names_32_def)
  then have "set_data st buf k v = Some (MEMCACHED_SUCCESS, f (ucast x) st, buf)"
    using fields_32_set assms(1,2) by (fastforce simp: set_data_def plain_name_def)
  moreover have "unat (ucast x :: u32) = unat x mod 2 ^ 32" by (simp add: unsigned_ucast_eq take_bit_eq_mod)
  ultimately show ?thesis using f fields_32_printed by fastforce
qed

text \<open>
  C28: a line \<open>STAT name number\<close> of the text protocol is reported as that number for the six statistics that are kept with 64
  bits; all others are cut to 32 bits on the way, \<open>bytes\<close>, \<open>bytes_read\<close> and \<open>bytes_written\<close> with them, whose fields have 64.
\<close>

lemma statistic_reported:
  assumes "key \<in> names_64 \<union> names_32" and "n < 2 ^ 63"
  shows "\<exists>st' buf. stat_line st (stat_answer key n rest) = Some (st', buf) \<and>
     memcached_stat_get_value (\<lambda>_. True) st' (key @ [0]) =
       Some (Some (dec_digits (if key \<in> names_64 then n else n mod 2 ^ 32) @ [0]), MEMCACHED_SUCCESS)"
proof -
  have "\<forall>b \<in> set key. isgraph b"
    using assms(1) by (auto simp: names_64_def names_32_def number_fields_64_def number_fields_32_def bytes_def isgraph_def)
  from stat_line_parsed [OF this assms(2)] obtain buf e where
    buf: "stat_line st (stat_answer key n rest) = map_option snd (set_data st buf 5 (6 + length key))" "string_at buf 5 = Some key"
      "strtol_at buf (6 + length key) = Some (of_nat n, e)" by blast
  have "unat (of_nat n :: u64) = n" using assms(2) by (simp add: unat_of_nat)
  with set_data_64 [OF buf(2,3), of st] set_data_32 [OF buf(2,3), of st] assms(1) buf(1) show ?thesis
    by (cases "key \<in> names_64") auto
qed

lemma statistic_reported_witness:
  "\<exists>st buf. stat_line zero_stat (bytes ''STAT bytes 4294967301'' @ [13, 10]) = Some (st, buf) \<and>
     memcached_stat_get_value (\<lambda>_. True) st (bytes ''bytes'' @ [0]) = Some (Some (bytes ''5'' @ [0]), MEMCACHED_SUCCESS)"
proof -
  have "stat_answer (bytes ''bytes'') 4294967301 [] = bytes ''STAT bytes 4294967301'' @ [13, 10]"
    by (simp add: stat_answer_def bytes_def dec_digits.simps)
  moreover have "bytes ''bytes'' \<in> names_32" "bytes ''bytes'' \<notin> names_64"
    by (simp_all add: names_32_def names_64_def number_fields_32_def number_fields_64_def bytes_def)
  moreover have "dec_digits 5 = bytes ''5''" by (simp add: dec_digits.simps bytes_def)
  ultimately show ?thesis using statistic_reported [of "bytes ''bytes''" 4294967301 zero_stat "[]"] by simp
qed

end
