(* ===== verification/Light_Storage.thy ===== *)
theory Light_Storage
  imports Prelude "HOL-Library.Monad_Syntax"
begin

text \<open>
  The storage of the example server, \<open>example/storage.c\<close>: items in a circular doubly linked list without a head, kept in an
  explicit store of entries by address. A block of memory is a list of bytes, so that \<open>nkey\<close> and \<open>size\<close> of an item are the lengths
  of its blocks; \<open>None\<close> is the use of a pointer that does not point to an entry, a read behind a block, or a walk that does not end.
\<close>

section \<open>The list of entries\<close>

record item =
  it_cas :: u64
  it_key :: "byte list"
  it_data :: "byte list"
  it_flags :: u32
  it_exp :: u64

record list_entry =
  e_item :: item
  e_next :: "nat option"
  e_prev :: "nat option"

record storage =
  st_entries :: "nat \<Rightarrow> list_entry option"
  st_root :: "nat option"
  st_cas :: u64

text \<open>What \<open>calloc\<close> and \<open>malloc\<close> give: an address for an entry, and a block with what is in it.\<close>

record storage_env =
  new_entry :: "(nat \<Rightarrow> list_entry option) \<Rightarrow> nat option"
  new_block :: "nat \<Rightarrow> byte list option"

definition storage_env_ok :: "storage_env \<Rightarrow> bool" where
  "storage_env_ok A \<longleftrightarrow> (\<forall>h a. new_entry A h = Some a \<longrightarrow> h a = None) \<and> (\<forall>n b. new_block A n = Some b \<longrightarrow> length b = n)"

text \<open>An assignment through a pointer.\<close>

definition assign :: "nat option \<Rightarrow> (list_entry \<Rightarrow> list_entry) \<Rightarrow> storage \<Rightarrow> storage option" where
  "assign p f S = do {
     a \<leftarrow> p;
     e \<leftarrow> st_entries S a;
     Some (S\<lparr>st_entries := (st_entries S)(a \<mapsto> f e)\<rparr>)
   }"

definition deref :: "nat option \<Rightarrow> storage \<Rightarrow> list_entry option" where
  "deref p S = Option.bind p (st_entries S)"

section \<open>The operations\<close>

definition initialize_storage :: bool where "initialize_storage = True"

definition update_cas :: "nat \<Rightarrow> storage \<Rightarrow> storage option" where
  "update_cas a S =
     (let cas = st_cas S + 1
      in assign (Some a) (\<lambda>e. e\<lparr>e_item := (e_item e)\<lparr>it_cas := cas\<rparr>\<rparr>) (S\<lparr>st_cas := cas\<rparr>))"

definition put_item :: "nat \<Rightarrow> storage \<Rightarrow> storage option" where
  "put_item a S = do {
     S \<leftarrow> update_cas a S;
     S \<leftarrow> (case st_root S of
            None \<Rightarrow> assign (Some a) (\<lambda>e. e\<lparr>e_next := Some a, e_prev := Some a\<rparr>) S
          | Some r \<Rightarrow> do {
              first \<leftarrow> deref (Some r) S;
              S \<leftarrow> assign (Some a) (\<lambda>e. e\<lparr>e_next := Some r, e_prev := e_prev first\<rparr>) S;
              S \<leftarrow> assign (e_prev first) (\<lambda>e. e\<lparr>e_next := Some a\<rparr>) S;
              assign (Some r) (\<lambda>e. e\<lparr>e_prev := Some a\<rparr>) S
            });
     Some (S\<lparr>st_root := Some a\<rparr>)
   }"

text \<open>\<open>memcmp\<close> is called for keys of the same length only; \<open>key\<close> is the memory from the key on.\<close>

partial_function (option) get_loop :: "storage \<Rightarrow> byte list \<Rightarrow> nat \<Rightarrow> nat \<Rightarrow> nat option option" where
  "get_loop S key nkey walker =
     Option.bind (st_entries S walker) (\<lambda>e.
       if length (it_key (e_item e)) = nkey \<and> length key < nkey then None
       else if length (it_key (e_item e)) = nkey \<and> it_key (e_item e) = take nkey key then Some (Some walker)
       else if e_next e = st_root S then Some None
       else Option.bind (e_next e) (get_loop S key nkey))"

definition get_item :: "byte list \<Rightarrow> nat \<Rightarrow> storage \<Rightarrow> nat option option" where
  "get_item key nkey S = (case st_root S of None \<Rightarrow> Some None | Some r \<Rightarrow> get_loop S key nkey r)"

text \<open>The new item is not in the list. Without \<open>data\<close> its block keeps what \<open>malloc\<close> gave.\<close>

definition create_item ::
  "storage_env \<Rightarrow> byte list \<Rightarrow> nat \<Rightarrow> byte list option \<Rightarrow> nat \<Rightarrow> u32 \<Rightarrow> u64 \<Rightarrow> storage \<Rightarrow> (nat option \<times> storage) option" where
  "create_item A key nkey data nbytes fl exp S =
     (case new_entry A (st_entries S) of
        None \<Rightarrow> Some (None, S)
      | Some a \<Rightarrow>
          (case (new_block A nkey, if 0 < nbytes then new_block A nbytes else Some []) of
             (Some k, Some d) \<Rightarrow>
               if length key < nkey \<or> (case data of None \<Rightarrow> False | Some m \<Rightarrow> length m < nbytes) then None
               else Some (Some a, S\<lparr>st_entries := (st_entries S)(a \<mapsto>
                      \<lparr>e_item = \<lparr>it_cas = 0, it_key = take nkey key, it_data = (case data of None \<Rightarrow> d | Some m \<Rightarrow> take nbytes m),
                                 it_flags = fl, it_exp = exp\<rparr>, e_next = None, e_prev = None\<rparr>)\<rparr>)
           | _ \<Rightarrow> Some (None, S)))"

definition delete_item :: "byte list \<Rightarrow> nat \<Rightarrow> storage \<Rightarrow> (bool \<times> storage) option" where
  "delete_item key nkey S =
     Option.bind (get_item key nkey S) (\<lambda>found. case found of
        None \<Rightarrow> Some (False, S)
      | Some a \<Rightarrow> do {
          e \<leftarrow> deref (Some a) S;
          S \<leftarrow> (if e_next e = Some a then Some (S\<lparr>st_root := None\<rparr>)
               else do {
                 let S = S\<lparr>st_root := e_next e\<rparr>;
                 S \<leftarrow> assign (e_prev e) (\<lambda>p. p\<lparr>e_next := e_next e\<rparr>) S;
                 assign (e_next e) (\<lambda>n. n\<lparr>e_prev := e_prev e\<rparr>) S
               });
          Some (True, S\<lparr>st_entries := (st_entries S)(a := None)\<rparr>)
        })"

partial_function (option) flush_walk :: "storage \<Rightarrow> storage option" where
  "flush_walk S =
     (case st_root S of
        None \<Rightarrow> Some S
      | Some r \<Rightarrow> Option.bind (st_entries S r) (\<lambda>e. flush_walk (S\<lparr>st_root := e_next e, st_entries := (st_entries S)(r := None)\<rparr>)))"

text \<open>\<open>when\<close> is not used.\<close>

definition flush_items :: "u32 \<Rightarrow> storage \<Rightarrow> storage option" where
  "flush_items when S =
     (case st_root S of
        None \<Rightarrow> Some S
      | Some r \<Rightarrow> do {
          first \<leftarrow> deref (Some r) S;
          S \<leftarrow> assign (e_prev first) (\<lambda>e. e\<lparr>e_next := None\<rparr>) S;
          flush_walk S
        })"

text \<open>\<open>release_item\<close> is empty. What the callers do with the pointer to an item:\<close>

definition item_at :: "nat \<Rightarrow> storage \<Rightarrow> item option" where
  "item_at a S = map_option e_item (st_entries S a)"

definition write_data :: "nat \<Rightarrow> nat \<Rightarrow> byte list \<Rightarrow> storage \<Rightarrow> storage option" where
  "write_data a offset src S = do {
     it \<leftarrow> item_at a S;
     if offset + length src \<le> length (it_data it)
     then assign (Some a) (\<lambda>e. e\<lparr>e_item := (e_item e)\<lparr>it_data := memcpy_at (it_data (e_item e)) offset src\<rparr>\<rparr>) S
     else None
   }"

end
