(* ===== verification/Light_Ring.thy ===== *)
theory Light_Ring
  imports Light_Storage
begin

text \<open>
  The list of \<open>example/storage.c\<close> as what it is meant to be: a ring of entries that a walk from the root visits once each. The
  operations keep the ring, the walks end, and on the level of keys and items they are lookup, insertion and deletion of a map.
\<close>

section \<open>Segments and cycles\<close>

text \<open>A segment behind \<open>p\<close> and in front of \<open>n\<close>.\<close>

fun segment :: "(nat \<Rightarrow> list_entry option) \<Rightarrow> nat \<Rightarrow> nat list \<Rightarrow> nat \<Rightarrow> bool" where
  "segment h p [] n \<longleftrightarrow> True"
| "segment h p (a # as) n \<longleftrightarrow>
     (\<exists>e. h a = Some e \<and> e_prev e = Some p \<and> e_next e = Some (hd (as @ [n])) \<and> segment h a as n)"

lemma segment_append: "segment h p (xs @ ys) n \<longleftrightarrow> segment h p xs (hd (ys @ [n])) \<and> segment h (last (p # xs)) ys n"
proof (induction xs arbitrary: p)
  case (Cons x xs)
  have "hd ((xs @ ys) @ [n]) = hd (xs @ [hd (ys @ [n])])" by (cases xs) simp_all
  with Cons show ?case by (cases xs) auto
qed simp

lemma segment_cong: "(\<And>a. a \<in> set as \<Longrightarrow> h a = g a) \<Longrightarrow> segment h p as n \<longleftrightarrow> segment g p as n"
  by (induction as arbitrary: p) auto

lemma segment_upd [simp]: "a \<notin> set as \<Longrightarrow> segment (h(a := v)) p as n \<longleftrightarrow> segment h p as n"
  by (rule segment_cong) auto

definition cycle :: "(nat \<Rightarrow> list_entry option) \<Rightarrow> nat list \<Rightarrow> bool" where
  "cycle h as \<longleftrightarrow> distinct as \<and> (as \<noteq> [] \<longrightarrow> segment h (last as) as (hd as))"

lemma cycle_rotate: "cycle h (xs @ ys) \<Longrightarrow> cycle h (ys @ xs)"
  by (cases "xs = []"; cases "ys = []") (auto simp: cycle_def segment_append)

lemma cycle_upd [simp]: "a \<notin> set as \<Longrightarrow> cycle (h(a := v)) as \<longleftrightarrow> cycle h as"
  by (simp add: cycle_def)

lemma segment_dom: "segment h p as n \<Longrightarrow> a \<in> set as \<Longrightarrow> \<exists>e. h a = Some e"
  by (induction as arbitrary: p) auto

lemma cycle_dom: "cycle h as \<Longrightarrow> a \<in> set as \<Longrightarrow> \<exists>e. h a = Some e"
  by (cases as) (auto simp: cycle_def dest: segment_dom)

text \<open>A change of the items of entries does not matter.\<close>

definition links :: "list_entry \<Rightarrow> nat option \<times> nat option" where
  "links e = (e_next e, e_prev e)"

lemma segment_links: "(\<And>a. a \<in> set as \<Longrightarrow> map_option links (h a) = map_option links (g a)) \<Longrightarrow> segment h p as n \<Longrightarrow> segment g p as n"
proof (induction as arbitrary: p)
  case (Cons a as)
  then obtain e where e: "h a = Some e" "e_prev e = Some p" "e_next e = Some (hd (as @ [n]))" "segment h a as n" by auto
  moreover obtain e' where "g a = Some e'" "links e' = links e" using Cons.prems(1) [of a] e(1) by (cases "g a") auto
  ultimately show ?case using Cons.IH [of a] Cons.prems(1) by (auto simp: links_def)
qed simp

lemma cycle_links: "(\<And>a. a \<in> set as \<Longrightarrow> map_option links (h a) = map_option links (g a)) \<Longrightarrow> cycle h as \<Longrightarrow> cycle g as"
  by (auto simp: cycle_def intro: segment_links)

section \<open>Linking and unlinking\<close>

abbreviation (input) set_next :: "nat \<Rightarrow> nat option \<Rightarrow> (nat \<Rightarrow> list_entry option) \<Rightarrow> nat \<Rightarrow> list_entry option" where
  "set_next a n h \<equiv> h(a := map_option (\<lambda>e. e\<lparr>e_next := n\<rparr>) (h a))"

abbreviation (input) set_prev :: "nat \<Rightarrow> nat option \<Rightarrow> (nat \<Rightarrow> list_entry option) \<Rightarrow> nat \<Rightarrow> list_entry option" where
  "set_prev a p h \<equiv> h(a := map_option (\<lambda>e. e\<lparr>e_prev := p\<rparr>) (h a))"

lemma link_front:
  assumes "cycle h (r # rs)" and "a \<notin> set (r # rs)" and "h a = Some e" and "e_next e = Some r" and "e_prev e = Some (last (r # rs))"
  shows "cycle (set_prev r (Some a) (set_next (last (r # rs)) (Some a) h)) (a # r # rs)"
proof (cases rs rule: rev_cases)
  case Nil
  then show ?thesis using assms by (auto simp: cycle_def)
next
  case (snoc ms l)
  then show ?thesis using assms by (auto simp: cycle_def segment_append split: if_splits)
qed

lemma unlink_first:
  assumes "cycle h (a # as)" and "as \<noteq> []"
  shows "cycle (set_prev (hd as) (Some (last as)) (set_next (last as) (Some (hd as)) h)) as"
proof (cases as)
  case (Cons r rs)
  then show ?thesis
  proof (cases rs rule: rev_cases)
    case Nil
    then show ?thesis using assms Cons by (auto simp: cycle_def)
  next
    case (snoc ms l)
    then show ?thesis using assms Cons by (auto simp: cycle_def segment_append split: if_splits)
  qed
qed (use assms in simp)

section \<open>The storage as a ring\<close>

definition key_at :: "storage \<Rightarrow> nat \<Rightarrow> byte list" where
  "key_at S a = it_key (e_item (the (st_entries S a)))"

definition ring :: "storage \<Rightarrow> nat list \<Rightarrow> bool" where
  "ring S as \<longleftrightarrow> cycle (st_entries S) as \<and> st_root S = (if as = [] then None else Some (hd as))"

text \<open>\<open>P\<close> are items that have been created and not yet been put into the list: there are no other entries.\<close>

definition holds :: "storage \<Rightarrow> nat list \<Rightarrow> nat set \<Rightarrow> bool" where
  "holds S as P \<longleftrightarrow> ring S as \<and> distinct (map (key_at S) as) \<and> dom (st_entries S) = set as \<union> P \<and> set as \<inter> P = {}"

lemma ring_dom: "ring S as \<Longrightarrow> a \<in> set as \<Longrightarrow> \<exists>e. st_entries S a = Some e"
  by (auto simp: ring_def dest: cycle_dom)

lemma assign_some [simp]: "st_entries S a = Some e \<Longrightarrow> assign (Some a) f S = Some (S\<lparr>st_entries := (st_entries S)(a \<mapsto> f e)\<rparr>)"
  by (simp add: assign_def)

text \<open>The walk finds the first entry with the key and ends.\<close>

lemma get_loop_finds:
  assumes "segment (st_entries S) p (w # as) r" and "st_root S = Some r" and "r \<notin> set as" and "nkey \<le> length key"
  shows "get_loop S key nkey w = Some (find (\<lambda>a. key_at S a = take nkey key) (w # as))"
  using assms
proof (induction as arbitrary: p w)
  case Nil
  then show ?case by (subst get_loop.simps) (auto simp: key_at_def)
next
  case (Cons b as)
  from Cons.prems(1) obtain e where e: "st_entries S w = Some e" "e_next e = Some b" "segment (st_entries S) w (b # as) r" by auto
  have "b \<noteq> r" using Cons.prems(3) by auto
  then show ?case
    using Cons.IH [OF e(3)] Cons.prems e by (subst get_loop.simps) (auto simp: key_at_def)
qed

lemma get_item_finds:
  "ring S as \<Longrightarrow> nkey \<le> length key \<Longrightarrow> get_item key nkey S = Some (find (\<lambda>a. key_at S a = take nkey key) as)"
  by (cases as) (auto simp: ring_def get_item_def cycle_def simp del: segment.simps find.simps(2) intro!: get_loop_finds)

lemma ring_cong: "ring S as \<Longrightarrow> (\<And>a. a \<in> set as \<Longrightarrow> map_option links (st_entries S a) = map_option links (st_entries T a)) \<Longrightarrow>
  st_root T = st_root S \<Longrightarrow> ring T as"
  by (auto simp: ring_def intro: cycle_links)

text \<open>Putting a new entry in front.\<close>

lemma put_item_ring:
  assumes "ring S as" and "a \<notin> set as" and "st_entries S a = Some e"
  obtains S' where "put_item a S = Some S'" and "ring S' (a # as)" and "dom (st_entries S') = dom (st_entries S)" and "st_cas S' = st_cas S + 1"
    and "\<And>b. item_at b S' = (if b = a then Some ((e_item e)\<lparr>it_cas := st_cas S + 1\<rparr>) else item_at b S)"
proof -
  let ?e = "e\<lparr>e_item := (e_item e)\<lparr>it_cas := st_cas S + 1\<rparr>\<rparr>"
  let ?S = "S\<lparr>st_cas := st_cas S + 1, st_entries := (st_entries S)(a \<mapsto> ?e)\<rparr>"
  have S: "update_cas a S = Some ?S" using assms(3) by (simp add: update_cas_def Let_def)
  show thesis
  proof (cases as)
    case Nil
    then show thesis
      using S assms by (intro that [of "?S\<lparr>st_entries := (st_entries S)(a \<mapsto> ?e\<lparr>e_next := Some a, e_prev := Some a\<rparr>), st_root := Some a\<rparr>"])
        (auto simp: put_item_def ring_def cycle_def item_at_def)
  next
    case (Cons r rs)
    let ?l = "last (r # rs)"
    let ?h = "(st_entries S)(a \<mapsto> ?e\<lparr>e_next := Some r, e_prev := Some ?l\<rparr>)"
    let ?h' = "set_prev r (Some a) (set_next ?l (Some a) ?h)"
    have r: "cycle (st_entries S) (r # rs)" "st_root S = Some r" "r \<noteq> a" "?l \<noteq> a"
      using assms(1,2) Cons last_in_set [of "r # rs"] by (auto simp: ring_def simp del: last.simps)
    obtain f where f: "st_entries S r = Some f" "e_prev f = Some ?l" using r(1) by (auto simp: cycle_def)
    obtain g where g: "st_entries S ?l = Some g" using cycle_dom [OF r(1) last_in_set] by blast
    have "cycle ?h' (a # r # rs)" by (rule link_front) (use assms(2) Cons r in auto)
    moreover have "put_item a S = Some (?S\<lparr>st_entries := ?h', st_root := Some a\<rparr>)"
      using S r f g by (auto simp: put_item_def deref_def assign_def fun_upd_twist)
    ultimately show thesis
      using f g r Cons by (intro that [of "?S\<lparr>st_entries := ?h', st_root := Some a\<rparr>"]) (auto simp: ring_def item_at_def assms(3) split: if_splits)
  qed
qed

text \<open>Taking one out: the walk goes on behind it.\<close>

lemma find_SomeD: "find P as = Some a \<Longrightarrow> a \<in> set as \<and> P a"
  by (induction as) (auto split: if_splits)

lemma find_unique: "distinct (map f as) \<Longrightarrow> a \<in> set as \<Longrightarrow> find (\<lambda>b. f b = f a) as = Some a"
  by (induction as) (auto simp: image_iff)

lemma find_NoneD: "find P as = None \<Longrightarrow> a \<in> set as \<Longrightarrow> \<not> P a"
  by (induction as) (auto split: if_splits)

lemma delete_item_ring:
  assumes "ring S as" and "nkey \<le> length key"
  shows "case find (\<lambda>a. key_at S a = take nkey key) as of
     None \<Rightarrow> delete_item key nkey S = Some (False, S)
   | Some a \<Rightarrow> \<exists>S' xs ys. as = xs @ a # ys \<and> delete_item key nkey S = Some (True, S') \<and> ring S' (ys @ xs) \<and> st_cas S' = st_cas S \<and>
       dom (st_entries S') = dom (st_entries S) - {a} \<and> (\<forall>b. b \<noteq> a \<longrightarrow> item_at b S' = item_at b S)"
proof (cases "find (\<lambda>a. key_at S a = take nkey key) as")
  case None
  then show ?thesis using get_item_finds [OF assms] by (simp add: delete_item_def)
next
  case (Some a)
  from find_SomeD [OF this] obtain xs ys where xs: "as = xs @ a # ys" by (auto dest: split_list)
  let ?zs = "ys @ xs"
  have cycle: "cycle (st_entries S) (a # ?zs)" using assms(1) xs cycle_rotate [of _ xs "a # ys"] by (simp add: ring_def)
  have found: "get_item key nkey S = Some (Some a)" using get_item_finds [OF assms] Some by simp
  show ?thesis
  proof (cases "?zs = []")
    case True
    then obtain e where "st_entries S a = Some e" "e_next e = Some a" using cycle by (auto simp: cycle_def)
    then show ?thesis using found xs Some True
      by (intro option.case_eq_if [THEN iffD2]) (auto simp: delete_item_def deref_def ring_def cycle_def item_at_def)
  next
    case False
    let ?n = "hd ?zs" and ?p = "last ?zs"
    let ?h = "set_prev ?n (Some ?p) (set_next ?p (Some ?n) (st_entries S))"
    have in_zs: "?n \<in> set ?zs" "?p \<in> set ?zs" "a \<notin> set ?zs" using False cycle hd_in_set [of ?zs] last_in_set [of ?zs] by (auto simp: cycle_def)
    obtain e where e: "st_entries S a = Some e" "e_next e = Some ?n" "e_prev e = Some ?p"
      using cycle False by (cases ?zs) (auto simp: cycle_def)
    obtain f g where f: "st_entries S ?n = Some f" "st_entries S ?p = Some g"
      using cycle_dom [OF cycle] in_zs by (metis list.set_intros(2))
    have "a \<noteq> ?n" "a \<noteq> ?p" using in_zs by auto
    let ?S = "S\<lparr>st_root := Some ?n, st_entries := ?h(a := None)\<rparr>"
    have "delete_item key nkey S = Some (True, ?S)"
      using found e f \<open>a \<noteq> ?n\<close> by (auto simp: delete_item_def deref_def assign_def)
    moreover have "ring ?S ?zs" using unlink_first [OF cycle False] in_zs False by (simp add: ring_def)
    moreover have "dom (st_entries ?S) = dom (st_entries S) - {a}" using f by auto
    moreover have "item_at b ?S = item_at b S" if "b \<noteq> a" for b using that f by (auto simp: item_at_def)
    ultimately show ?thesis using Some xs by auto
  qed
qed

text \<open>Flushing ends, and frees what was in the list.\<close>

fun chain_to :: "(nat \<Rightarrow> list_entry option) \<Rightarrow> nat option \<Rightarrow> nat list \<Rightarrow> bool" where
  "chain_to h p [] \<longleftrightarrow> p = None"
| "chain_to h p (a # as) \<longleftrightarrow> p = Some a \<and> a \<notin> set as \<and> (\<exists>e. h a = Some e \<and> chain_to h (e_next e) as)"

lemma chain_upd [simp]: "a \<notin> set as \<Longrightarrow> chain_to (h(a := v)) p as \<longleftrightarrow> chain_to h p as"
  by (induction as arbitrary: p) auto

lemma flush_loop_chain:
  "chain_to (st_entries S) (st_root S) as \<Longrightarrow>
   flush_walk S = Some (S\<lparr>st_root := None, st_entries := (\<lambda>b. if b \<in> set as then None else st_entries S b)\<rparr>)"
proof (induction as arbitrary: S)
  case Nil
  then show ?case by (subst flush_walk.simps) simp
next
  case (Cons a as)
  then obtain e where e: "st_root S = Some a" "a \<notin> set as" "st_entries S a = Some e" "chain_to (st_entries S) (e_next e) as" by auto
  let ?S = "S\<lparr>st_root := e_next e, st_entries := (st_entries S)(a := None)\<rparr>"
  have "flush_walk S = flush_walk ?S" using e by (subst flush_walk.simps) simp
  also have "\<dots> = Some (?S\<lparr>st_root := None, st_entries := (\<lambda>b. if b \<in> set as then None else st_entries ?S b)\<rparr>)"
    using e chain_upd [of a as "st_entries S" None] by (intro Cons.IH) (simp add: fun_upd_def)
  also have "\<dots> = Some (S\<lparr>st_root := None, st_entries := (\<lambda>b. if b \<in> set (a # as) then None else st_entries S b)\<rparr>)"
    by (simp add: fun_eq_iff)
  finally show ?case .
qed

lemma segment_chain:
  "segment h p as n \<Longrightarrow> distinct as \<Longrightarrow> as \<noteq> [] \<Longrightarrow> chain_to (set_next (last as) None h) (Some (hd as)) as"
proof (induction as arbitrary: p)
  case (Cons a as)
  then show ?case by (cases as) (auto split: if_splits)
qed simp

lemma flush_items_ring:
  assumes "ring S as"
  shows "flush_items when S = Some (S\<lparr>st_root := None, st_entries := (\<lambda>b. if b \<in> set as then None else st_entries S b)\<rparr>)"
proof (cases "as = []")
  case True
  then show ?thesis using assms by (simp add: flush_items_def ring_def)
next
  case False
  have "segment (st_entries S) (last as) as (hd as)" "distinct as" and r: "st_root S = Some (hd as)"
    using assms False by (auto simp: ring_def cycle_def)
  then have chain: "chain_to (set_next (last as) None (st_entries S)) (Some (hd as)) as" using False by (intro segment_chain)
  obtain f where f: "st_entries S (hd as) = Some f" "e_prev f = Some (last as)"
    using \<open>segment _ _ _ _\<close> False by (cases as) auto
  obtain g where g: "st_entries S (last as) = Some g" using ring_dom [OF assms last_in_set [OF False]] by blast
  let ?S = "S\<lparr>st_entries := (st_entries S)(last as \<mapsto> g\<lparr>e_next := None\<rparr>)\<rparr>"
  have "flush_items when S = flush_walk ?S" using r f g by (simp add: flush_items_def deref_def)
  also have "\<dots> = Some (?S\<lparr>st_root := None, st_entries := (\<lambda>b. if b \<in> set as then None else st_entries ?S b)\<rparr>)"
    using chain g r by (intro flush_loop_chain) simp
  also have "(\<lambda>b. if b \<in> set as then None else st_entries ?S b) = (\<lambda>b. if b \<in> set as then None else st_entries S b)"
    using last_in_set [OF False] by auto
  finally show ?thesis by simp
qed

section \<open>The storage as a map\<close>

definition contents :: "storage \<Rightarrow> byte list \<Rightarrow> item option" where
  "contents S k = (case get_item k (length k) S of Some (Some a) \<Rightarrow> item_at a S | _ \<Rightarrow> None)"

definition storage_inv :: "nat set \<Rightarrow> storage \<Rightarrow> bool" where
  "storage_inv P S \<longleftrightarrow> (\<exists>as. holds S as P)"

lemma item_key: "item_at a S = Some i \<Longrightarrow> key_at S a = it_key i"
  by (auto simp: item_at_def key_at_def)

lemma key_same: "item_at b S' = item_at b S \<Longrightarrow> item_at b S \<noteq> None \<Longrightarrow> key_at S' b = key_at S b"
  using item_key [of b S] item_key [of b S'] by auto

lemma item_dom: "a \<in> dom (st_entries S) \<longleftrightarrow> item_at a S \<noteq> None"
  by (auto simp: item_at_def)

lemma contents_some:
  assumes "holds S as P" and "a \<in> set as" and "item_at a S = Some i"
  shows "contents S (it_key i) = Some i"
proof -
  have "find (\<lambda>b. key_at S b = key_at S a) as = Some a" using assms(1,2) by (intro find_unique) (simp_all add: holds_def)
  then show ?thesis using assms get_item_finds [of S as "length (it_key i)" "it_key i"]
    by (simp add: contents_def holds_def item_key)
qed

lemma contents_iff:
  assumes "holds S as P"
  shows "contents S k = Some i \<longleftrightarrow> (\<exists>a \<in> set as. item_at a S = Some i \<and> it_key i = k)"
proof
  assume "contents S k = Some i"
  then obtain a where "find (\<lambda>a. key_at S a = k) as = Some a" "item_at a S = Some i"
    using assms get_item_finds [of S as "length k" k] by (auto simp: contents_def holds_def split: option.splits)
  then show "\<exists>a \<in> set as. item_at a S = Some i \<and> it_key i = k" using item_key [of a S i] by (auto dest: find_SomeD)
qed (use contents_some [OF assms] in auto)

lemma contents_eqI:
  assumes "holds S as P" and "\<And>i. T = Some i \<longleftrightarrow> (\<exists>a \<in> set as. item_at a S = Some i \<and> it_key i = k)"
  shows "contents S k = T"
  using contents_iff [OF assms(1), of k] assms(2) by (metis not_Some_eq)

text \<open>Lookup.\<close>

lemma get_item_contents:
  assumes "storage_inv P S" and "nkey \<le> length key"
  shows "\<exists>found. get_item key nkey S = Some found \<and> contents S (take nkey key) = Option.bind found (\<lambda>a. item_at a S) \<and>
     (\<forall>a. found = Some a \<longrightarrow> a \<notin> P \<and> item_at a S \<noteq> None)"
proof -
  obtain as where as: "holds S as P" using assms(1) by (auto simp: storage_inv_def)
  then have ring: "ring S as" by (simp add: holds_def)
  have "contents S (take nkey key) = Option.bind (find (\<lambda>a. key_at S a = take nkey key) as) (\<lambda>a. item_at a S)"
    using get_item_finds [OF ring, of nkey "take nkey key"] assms(2) by (simp add: contents_def split: option.split)
  moreover have "a \<notin> P \<and> item_at a S \<noteq> None" if "find (\<lambda>a. key_at S a = take nkey key) as = Some a" for a
    using find_SomeD [OF that] as item_dom [of a S] by (auto simp: holds_def)
  ultimately show ?thesis using get_item_finds [OF ring assms(2)] by auto
qed

text \<open>Insertion of an item that is pending, under a key that is not there.\<close>

lemma put_item_contents:
  assumes "storage_inv P S" and "a \<in> P" and "item_at a S = Some i" and "contents S (it_key i) = None"
  shows "\<exists>S'. put_item a S = Some S' \<and> storage_inv (P - {a}) S' \<and> st_cas S' = st_cas S + 1 \<and>
     contents S' = (contents S)(it_key i \<mapsto> i\<lparr>it_cas := st_cas S + 1\<rparr>) \<and>
     (\<forall>b. item_at b S' = (if b = a then Some (i\<lparr>it_cas := st_cas S + 1\<rparr>) else item_at b S))"
proof -
  obtain as where as: "holds S as P" using assms(1) by (auto simp: storage_inv_def)
  obtain e where e: "st_entries S a = Some e" "e_item e = i" using assms(3) by (auto simp: item_at_def)
  have "a \<notin> set as" using as assms(2) by (auto simp: holds_def)
  have "ring S as" using as by (simp add: holds_def)
  from put_item_ring [OF this \<open>a \<notin> set as\<close> e(1)] obtain S' where S':
    "put_item a S = Some S'" "ring S' (a # as)" "dom (st_entries S') = dom (st_entries S)" "st_cas S' = st_cas S + 1"
    "\<And>b. item_at b S' = (if b = a then Some (i\<lparr>it_cas := st_cas S + 1\<rparr>) else item_at b S)" using e(2) by metis
  have item: "item_at b S \<noteq> None" if "b \<in> set as" for b using as that item_dom [of b S] by (auto simp: holds_def)
  have keys: "key_at S' b = key_at S b" if "b \<in> set as" for b
    using \<open>a \<notin> set as\<close> that by (intro key_same item) (auto simp: S'(5))
  have new: "key_at S' a = it_key i" using S'(5) [of a] by (auto dest!: item_key)
  have "it_key i \<noteq> key_at S b" if "b \<in> set as" for b
    using contents_some [OF as that] item [OF that] assms(4) item_key [of b S] by auto
  then have "distinct (map (key_at S') (a # as))" using as keys new by (auto simp: holds_def cong: map_cong)
  then have holds: "holds S' (a # as) (P - {a})" using as S'(2,3) assms(2) \<open>a \<notin> set as\<close> by (auto simp: holds_def)
  have "contents S' k = ((contents S)(it_key i \<mapsto> i\<lparr>it_cas := st_cas S + 1\<rparr>)) k" for k
  proof (rule contents_eqI [OF holds])
    fix j
    have "it_key j' \<noteq> it_key i" if "b \<in> set as" "item_at b S = Some j'" for b j' using contents_some [OF as that] assms(4) by auto
    then show "((contents S)(it_key i \<mapsto> i\<lparr>it_cas := st_cas S + 1\<rparr>)) k = Some j \<longleftrightarrow>
        (\<exists>b \<in> set (a # as). item_at b S' = Some j \<and> it_key j = k)"
      using contents_iff [OF as, of k j] \<open>a \<notin> set as\<close> by (auto simp: S'(5))
  qed
  then have "contents S' = (contents S)(it_key i \<mapsto> i\<lparr>it_cas := st_cas S + 1\<rparr>)" by blast
  then show ?thesis using S' holds by (auto simp: storage_inv_def)
qed

text \<open>Deletion.\<close>

lemma delete_item_contents:
  assumes "storage_inv P S" and "nkey \<le> length key"
  shows "\<exists>S'. delete_item key nkey S = Some (contents S (take nkey key) \<noteq> None, S') \<and> storage_inv P S' \<and> st_cas S' = st_cas S \<and>
     contents S' = (contents S)(take nkey key := None) \<and> (\<forall>b \<in> P. item_at b S' = item_at b S)"
proof -
  obtain as where as: "holds S as P" using assms(1) by (auto simp: storage_inv_def)
  then have ring: "ring S as" by (simp add: holds_def)
  let ?k = "take nkey key" and ?found = "find (\<lambda>a. key_at S a = take nkey key) as"
  note del = delete_item_ring [OF ring assms(2)]
  show ?thesis
  proof (cases ?found)
    case None
    then have "contents S ?k = None" using get_item_finds [OF ring, of nkey ?k] assms(2) by (simp add: contents_def)
    then show ?thesis using None del assms(1) by (auto simp: fun_upd_idem)
  next
    case (Some a)
    from del [unfolded Some option.case] obtain S' xs ys where S':
      "as = xs @ a # ys" "delete_item key nkey S = Some (True, S')" "ring S' (ys @ xs)" "st_cas S' = st_cas S"
      "dom (st_entries S') = dom (st_entries S) - {a}" "\<forall>b. b \<noteq> a \<longrightarrow> item_at b S' = item_at b S" by blast
    have a: "key_at S a = ?k" "a \<in> set as" using find_SomeD [OF Some] by auto
    have distinct: "distinct as" "distinct (map (key_at S) as)" "set as \<inter> P = {}" "dom (st_entries S) = set as \<union> P"
      using as distinct_map by (auto simp: holds_def)
    have item: "item_at b S \<noteq> None" if "b \<in> set as" for b using distinct(4) that item_dom [of b S] by auto
    have keys: "key_at S' b = key_at S b" if "b \<in> set (ys @ xs)" for b
      using S'(1,6) that distinct(1) by (intro key_same item) auto
    have "distinct (map (key_at S) (ys @ xs))" using distinct(2) S'(1) by auto
    moreover have "map (key_at S') (ys @ xs) = map (key_at S) (ys @ xs)" using keys by (intro map_cong) auto
    ultimately have "distinct (map (key_at S') (ys @ xs))" by (simp only:)
    then have holds: "holds S' (ys @ xs) P" using S'(1,3,5) distinct by (auto simp: holds_def)
    have others: "key_at S b \<noteq> ?k" if "b \<in> set (ys @ xs)" for b
      using distinct(2) S'(1) a(1) that by (auto simp: image_iff)
    obtain i where i: "item_at a S = Some i" "it_key i = ?k" using item [OF a(2)] a(1) item_key [of a S] by auto
    have "contents S ?k = Some i" using contents_some [OF as a(2) i(1)] i(2) by simp
    moreover have "contents S' k = ((contents S)(?k := None)) k" for k
    proof (rule contents_eqI [OF holds])
      fix j
      show "((contents S)(?k := None)) k = Some j \<longleftrightarrow> (\<exists>b \<in> set (ys @ xs). item_at b S' = Some j \<and> it_key j = k)"
      proof -
        have "item_at b S' = item_at b S" if "b \<in> set (ys @ xs)" for b using S'(1,6) distinct(1) that by auto
        moreover have "it_key j \<noteq> ?k" if "b \<in> set (ys @ xs)" "item_at b S = Some j" for b
          using others [OF that(1)] item_key [OF that(2)] by simp
        ultimately have "(\<exists>b \<in> set (ys @ xs). item_at b S' = Some j \<and> it_key j = k) \<longleftrightarrow>
            k \<noteq> ?k \<and> (\<exists>b \<in> set as. item_at b S = Some j \<and> it_key j = k)"
          using i S'(1) by auto
        then show ?thesis using contents_iff [OF as, of k j] by auto
      qed
    qed
    then have "contents S' = (contents S)(?k := None)" by blast
    ultimately show ?thesis using S' holds distinct a(2) by (auto simp: storage_inv_def)
  qed
qed

text \<open>Entries outside of the list.\<close>

lemma holds_pending:
  assumes "holds S as P" and "a \<notin> set as" and "st_root T = st_root S" and "st_entries T = (st_entries S)(a \<mapsto> e)"
  shows "holds T as (insert a P)" and "contents T = contents S"
proof -
  have "ring T as" by (rule ring_cong [of S]) (use assms in \<open>auto simp: holds_def\<close>)
  moreover have "map (key_at T) as = map (key_at S) as" using assms(2,4) by (auto simp: key_at_def)
  then have "distinct (map (key_at T) as)" using assms(1) by (simp add: holds_def del: map_eq_conv)
  moreover have "dom (st_entries T) = set as \<union> insert a P" using assms(1,4) by (auto simp: holds_def)
  ultimately show T: "holds T as (insert a P)" using assms(1,2) by (simp add: holds_def)
  have "\<forall>b \<in> set as. item_at b T = item_at b S" using assms(2,4) by (auto simp: item_at_def)
  then have "contents T k = contents S k" for k
    by (intro contents_eqI [OF T]) (simp add: contents_iff [OF assms(1)])
  then show "contents T = contents S" by blast
qed

lemma create_item_contents:
  assumes "storage_inv P S" and "storage_env_ok A" and "nkey \<le> length key" and "\<forall>m. data = Some m \<longrightarrow> n \<le> length m"
  shows "create_item A key nkey data n fl exp S = Some (None, S) \<or>
    (\<exists>a S' d. create_item A key nkey data n fl exp S = Some (Some a, S') \<and> a \<notin> P \<and> storage_inv (insert a P) S' \<and>
       contents S' = contents S \<and> st_cas S' = st_cas S \<and> length d = n \<and> (\<forall>m. data = Some m \<longrightarrow> d = take n m) \<and>
       (\<forall>b. item_at b S' = (if b = a then Some \<lparr>it_cas = 0, it_key = take nkey key, it_data = d, it_flags = fl, it_exp = exp\<rparr>
                             else item_at b S)))"
proof -
  obtain as where as: "holds S as P" using assms(1) by (auto simp: storage_inv_def)
  show ?thesis
  proof (cases "new_entry A (st_entries S)")
    case None
    then show ?thesis by (simp add: create_item_def)
  next
    case (Some a)
    then have new: "st_entries S a = None" using assms(2) by (simp add: storage_env_ok_def)
    then have a: "a \<notin> set as" "a \<notin> P" using as by (auto simp: holds_def)
    define block where "block = (if 0 < n then new_block A n else Some [])"
    show ?thesis
    proof (cases "new_block A nkey = None \<or> block = None")
      case True
      then show ?thesis using Some assms(3) by (auto simp: create_item_def block_def split: option.split)
    next
      case False
      then obtain k d where kd: "new_block A nkey = Some k" "block = Some d" by auto
      have d: "length d = n" using kd(2) assms(2) by (auto simp: block_def storage_env_ok_def split: if_splits)
      let ?d = "case data of None \<Rightarrow> d | Some m \<Rightarrow> take n m"
      let ?e = "\<lparr>e_item = \<lparr>it_cas = 0, it_key = take nkey key, it_data = ?d, it_flags = fl, it_exp = exp\<rparr>, e_next = None, e_prev = None\<rparr>"
      let ?S = "S\<lparr>st_entries := (st_entries S)(a \<mapsto> ?e)\<rparr>"
      have "create_item A key nkey data n fl exp S = Some (Some a, ?S)"
        using Some kd assms(3,4) by (auto simp: create_item_def block_def split: option.splits)
      moreover have "holds ?S as (insert a P)" "contents ?S = contents S" by (rule holds_pending [OF as a(1)]; simp)+
      moreover have "length ?d = n" using d assms(4) by (auto split: option.split)
      ultimately show ?thesis using a by (auto simp: storage_inv_def item_at_def split: option.split)
    qed
  qed
qed

lemma write_data_contents:
  assumes "storage_inv P S" and "a \<in> P" and "item_at a S = Some i" and "offset + length src \<le> length (it_data i)"
  shows "\<exists>S'. write_data a offset src S = Some S' \<and> storage_inv P S' \<and> contents S' = contents S \<and> st_cas S' = st_cas S \<and>
    (\<forall>b. item_at b S' = (if b = a then Some (i\<lparr>it_data := memcpy_at (it_data i) offset src\<rparr>) else item_at b S))"
proof -
  obtain as where as: "holds S as P" using assms(1) by (auto simp: storage_inv_def)
  obtain e where e: "st_entries S a = Some e" "e_item e = i" using assms(3) by (auto simp: item_at_def)
  let ?e = "e\<lparr>e_item := i\<lparr>it_data := memcpy_at (it_data i) offset src\<rparr>\<rparr>"
  let ?S = "S\<lparr>st_entries := (st_entries S)(a \<mapsto> ?e)\<rparr>"
  have "write_data a offset src S = Some ?S" using e assms(3,4) by (simp add: write_data_def)
  moreover have "a \<notin> set as" using as assms(2) by (auto simp: holds_def)
  then have "holds ?S as (insert a P)" "contents ?S = contents S" by (rule holds_pending [OF as]; simp)+
  moreover have "insert a P = P" using assms(2) by auto
  ultimately show ?thesis by (auto simp: storage_inv_def item_at_def)
qed

lemma flush_items_contents:
  assumes "storage_inv P S"
  shows "\<exists>S'. flush_items when S = Some S' \<and> storage_inv P S' \<and> contents S' = (\<lambda>_. None) \<and> st_cas S' = st_cas S \<and>
    (\<forall>b \<in> P. item_at b S' = item_at b S)"
proof -
  obtain as where as: "holds S as P" using assms by (auto simp: storage_inv_def)
  let ?S = "S\<lparr>st_root := None, st_entries := (\<lambda>b. if b \<in> set as then None else st_entries S b)\<rparr>"
  have "flush_items when S = Some ?S" using as by (intro flush_items_ring) (simp add: holds_def)
  moreover have "dom (st_entries ?S) = dom (st_entries S) - set as" by (auto split: if_splits)
  then have "holds ?S [] P" using as by (auto simp: holds_def ring_def cycle_def)
  moreover have "contents ?S = (\<lambda>_. None)" by (simp add: fun_eq_iff contents_def get_item_def)
  moreover have "item_at b ?S = item_at b S" if "b \<in> P" for b using that as by (auto simp: holds_def item_at_def)
  ultimately show ?thesis by (auto simp: storage_inv_def)
qed

definition empty_storage :: storage where
  "empty_storage = \<lparr>st_entries = (\<lambda>_. None), st_root = None, st_cas = 0\<rparr>"

lemma empty_storage_inv [simp]: "storage_inv {} empty_storage" "contents empty_storage = (\<lambda>_. None)" "st_cas empty_storage = 0"
proof -
  have "holds empty_storage [] {}" by (simp add: holds_def ring_def cycle_def empty_storage_def)
  then show "storage_inv {} empty_storage" by (auto simp: storage_inv_def)
qed (simp_all add: fun_eq_iff contents_def get_item_def empty_storage_def)

end
