(* ===== verification/Light_Map.thy ===== *)
theory Light_Map
  imports Light_Ring
begin

text \<open>
  \<open>example/storage.h\<close> as an interface: what the two applications of the example server rely on, whichever storage they are linked
  with, and what follows for the sequences of calls that they make. The storage of \<open>example/storage.c\<close> keeps these promises.
\<close>

text \<open>The item that is stored, with its CAS value.\<close>

definition new_item :: "byte list \<Rightarrow> byte list \<Rightarrow> u32 \<Rightarrow> u64 \<Rightarrow> u64 \<Rightarrow> item" where
  "new_item k d fl e cas = \<lparr>it_cas = cas, it_key = k, it_data = d, it_flags = fl, it_exp = e\<rparr>"

lemma new_item_simps [simp]:
  "it_cas (new_item k d fl e cas) = cas" "it_key (new_item k d fl e cas) = k" "it_data (new_item k d fl e cas) = d"
  "it_flags (new_item k d fl e cas) = fl" "it_exp (new_item k d fl e cas) = e"
  "(new_item k d fl e cas)\<lparr>it_cas := cas'\<rparr> = new_item k d fl e cas'" "(new_item k d fl e cas)\<lparr>it_data := d'\<rparr> = new_item k d' fl e cas"
  by (simp_all add: new_item_def)

text \<open>
  \<open>inv P\<close> holds of a storage in which the items at the addresses \<open>P\<close> have been created and not yet put.
\<close>

locale item_store =
  fixes inv :: "nat set \<Rightarrow> 's \<Rightarrow> bool" and contents :: "'s \<Rightarrow> byte list \<Rightarrow> item option" and item_of :: "nat \<Rightarrow> 's \<Rightarrow> item option"
    and stamp :: "'s \<Rightarrow> u64" and lookup :: "byte list \<Rightarrow> nat \<Rightarrow> 's \<Rightarrow> nat option option"
    and erase :: "byte list \<Rightarrow> nat \<Rightarrow> 's \<Rightarrow> (bool \<times> 's) option" and insert_item :: "nat \<Rightarrow> 's \<Rightarrow> 's option"
    and create :: "byte list \<Rightarrow> nat \<Rightarrow> byte list option \<Rightarrow> nat \<Rightarrow> u32 \<Rightarrow> u64 \<Rightarrow> 's \<Rightarrow> (nat option \<times> 's) option"
    and fill :: "nat \<Rightarrow> nat \<Rightarrow> byte list \<Rightarrow> 's \<Rightarrow> 's option"
  assumes lookup_law: "inv P s \<Longrightarrow> n \<le> length key \<Longrightarrow>
      \<exists>found. lookup key n s = Some found \<and> contents s (take n key) = Option.bind found (\<lambda>a. item_of a s) \<and>
        (\<forall>a. found = Some a \<longrightarrow> a \<notin> P \<and> item_of a s \<noteq> None)"
    and erase_law: "inv P s \<Longrightarrow> n \<le> length key \<Longrightarrow>
      \<exists>t. erase key n s = Some (contents s (take n key) \<noteq> None, t) \<and> inv P t \<and> stamp t = stamp s \<and>
        contents t = (contents s)(take n key := None) \<and> (\<forall>b \<in> P. item_of b t = item_of b s)"
    and insert_law: "inv P s \<Longrightarrow> a \<in> P \<Longrightarrow> item_of a s = Some i \<Longrightarrow> contents s (it_key i) = None \<Longrightarrow>
      \<exists>t. insert_item a s = Some t \<and> inv (P - {a}) t \<and> stamp t = stamp s + 1 \<and>
        contents t = (contents s)(it_key i \<mapsto> i\<lparr>it_cas := stamp s + 1\<rparr>) \<and>
        (\<forall>b. item_of b t = (if b = a then Some (i\<lparr>it_cas := stamp s + 1\<rparr>) else item_of b s))"
    and create_law: "inv P s \<Longrightarrow> nkey \<le> length key \<Longrightarrow> \<forall>m. data = Some m \<longrightarrow> n \<le> length m \<Longrightarrow>
      create key nkey data n fl exp s = Some (None, s) \<or>
      (\<exists>a t d. create key nkey data n fl exp s = Some (Some a, t) \<and> a \<notin> P \<and> inv (insert a P) t \<and> contents t = contents s \<and>
         stamp t = stamp s \<and> length d = n \<and> (\<forall>m. data = Some m \<longrightarrow> d = take n m) \<and>
         (\<forall>b. item_of b t = (if b = a then Some \<lparr>it_cas = 0, it_key = take nkey key, it_data = d, it_flags = fl, it_exp = exp\<rparr>
                               else item_of b s)))"
    and fill_law: "inv P s \<Longrightarrow> a \<in> P \<Longrightarrow> item_of a s = Some i \<Longrightarrow> offset + length src \<le> length (it_data i) \<Longrightarrow>
      \<exists>t. fill a offset src s = Some t \<and> inv P t \<and> contents t = contents s \<and> stamp t = stamp s \<and>
        (\<forall>b. item_of b t = (if b = a then Some (i\<lparr>it_data := memcpy_at (it_data i) offset src\<rparr>) else item_of b s))"
begin

lemma lookup_cases:
  assumes "inv P s" and "n \<le> length key"
  obtains "lookup key n s = Some None" and "contents s (take n key) = None"
  | a i where "lookup key n s = Some (Some a)" and "item_of a s = Some i" and "contents s (take n key) = Some i"
  using lookup_law [OF assms] by (metis bind.bind_lunit bind.bind_lzero option.exhaust)

text \<open>A created item whose data is complete goes in under its key.\<close>

lemma insert_pending:
  assumes "inv {a} s" and "item_of a s = Some (new_item k d fl e c)" and "contents s k = None"
  shows "\<exists>t. insert_item a s = Some t \<and> item_of a t = Some (new_item k d fl e (stamp s + 1)) \<and> inv {} t \<and> stamp t = stamp s + 1 \<and>
    contents t = (contents s)(k \<mapsto> new_item k d fl e (stamp s + 1))"
  using insert_law [OF assms(1) _ assms(2)] assms(3) by auto

text \<open>\<open>create_item\<close> with the data, then \<open>put_item\<close>.\<close>

lemma create_insert:
  assumes "inv {} s" and "nkey \<le> length key" and "n \<le> length data" and "contents s (take nkey key) = None"
  shows "create key nkey (Some data) n fl e s = Some (None, s) \<or>
    (\<exists>a t u. create key nkey (Some data) n fl e s = Some (Some a, t) \<and> insert_item a t = Some u \<and>
       item_of a u = Some (new_item (take nkey key) (take n data) fl e (stamp s + 1)) \<and> inv {} u \<and> stamp u = stamp s + 1 \<and>
       contents u = (contents s)(take nkey key \<mapsto> new_item (take nkey key) (take n data) fl e (stamp s + 1)))"
proof (cases "create key nkey (Some data) n fl e s = Some (None, s)")
  case False
  with create_law [OF assms(1,2), of "Some data" n fl e] assms(3) obtain a t where
    t: "create key nkey (Some data) n fl e s = Some (Some a, t)" "inv {a} t" "contents t = contents s" "stamp t = stamp s"
      "item_of a t = Some (new_item (take nkey key) (take n data) fl e 0)"
    by (fastforce simp: new_item_def)
  from insert_pending [OF t(2,5)] assms(4) t show ?thesis by auto
qed simp

text \<open>\<open>create_item\<close> without data, which is then filled, in one piece or in two.\<close>

lemma create_head:
  assumes "inv {} s" and "nkey \<le> length key" and "length x \<le> n"
  shows "create key nkey None n fl e s = Some (None, s) \<or>
    (\<exists>a t u d. create key nkey None n fl e s = Some (Some a, t) \<and> fill a 0 x t = Some u \<and> length d = n - length x \<and>
       inv {a} u \<and> contents u = contents s \<and> stamp u = stamp s \<and> item_of a u = Some (new_item (take nkey key) (x @ d) fl e 0))"
proof (cases "create key nkey None n fl e s = Some (None, s)")
  case False
  with create_law [OF assms(1,2), of None n fl e] obtain a t d where
    t: "create key nkey None n fl e s = Some (Some a, t)" "inv {a} t" "contents t = contents s" "stamp t = stamp s" "length d = n"
      "item_of a t = Some (new_item (take nkey key) d fl e 0)"
    by (fastforce simp: new_item_def)
  from fill_law [OF t(2) _ t(6), of 0 x] t(5) assms(3) obtain u where
    u: "fill a 0 x t = Some u" "inv {a} u" "contents u = contents s" "stamp u = stamp s"
      "item_of a u = Some (new_item (take nkey key) (memcpy_at d 0 x) fl e 0)"
    using t by auto
  moreover have "memcpy_at d 0 x = x @ drop (length x) d" by (simp add: memcpy_at_def)
  ultimately show ?thesis using t(1,5) by (intro disjI2 exI [of _ a] exI [of _ t] exI [of _ u] exI [of _ "drop (length x) d"]) simp
qed simp

lemma create_fill:
  assumes "inv {} s" and "nkey \<le> length key" and "n = length x + length y"
  shows "create key nkey None n fl e s = Some (None, s) \<or>
    (\<exists>a t u v. create key nkey None n fl e s = Some (Some a, t) \<and> fill a 0 x t = Some u \<and> fill a (length x) y u = Some v \<and>
       inv {a} v \<and> contents v = contents s \<and> stamp v = stamp s \<and> item_of a v = Some (new_item (take nkey key) (x @ y) fl e 0))"
proof (cases "create key nkey None n fl e s = Some (None, s)")
  case False
  with create_head [OF assms(1,2), of x n fl e] assms(3) obtain a t u d where
    u: "create key nkey None n fl e s = Some (Some a, t)" "fill a 0 x t = Some u" "length d = length y" "inv {a} u"
      "contents u = contents s" "stamp u = stamp s" "item_of a u = Some (new_item (take nkey key) (x @ d) fl e 0)" by auto
  from fill_law [OF u(4) _ u(7), of "length x" y] u(3) obtain v where
    v: "fill a (length x) y u = Some v" "inv {a} v" "contents v = contents s" "stamp v = stamp s"
      "item_of a v = Some (new_item (take nkey key) (memcpy_at (x @ d) (length x) y) fl e 0)"
    using u by auto
  have "memcpy_at (x @ d) (length x) y = x @ y" using u(3) by (simp add: memcpy_at_def)
  with u v show ?thesis by auto
qed simp

lemma erase_insert:
  assumes "inv {a} s" and "nkey \<le> length key" and "item_of a s = Some (new_item (take nkey key) d fl e c)"
  shows "\<exists>t u. erase key nkey s = Some (contents s (take nkey key) \<noteq> None, t) \<and> insert_item a t = Some u \<and>
    item_of a u = Some (new_item (take nkey key) d fl e (stamp s + 1)) \<and> inv {} u \<and> stamp u = stamp s + 1 \<and>
    contents u = (contents s)(take nkey key \<mapsto> new_item (take nkey key) d fl e (stamp s + 1))"
proof -
  from erase_law [OF assms(1,2)] obtain t where
    t: "erase key nkey s = Some (contents s (take nkey key) \<noteq> None, t)" "inv {a} t" "stamp t = stamp s"
      "contents t = (contents s)(take nkey key := None)" "item_of a t = item_of a s" by auto
  from insert_pending [OF t(2), of "take nkey key" d fl e c] t assms(3) show ?thesis by auto
qed

end

section \<open>The storage of \<open>storage.c\<close>\<close>

definition store_inv :: "storage_env \<Rightarrow> nat set \<Rightarrow> storage \<Rightarrow> bool" where
  "store_inv A P S \<longleftrightarrow> storage_env_ok A \<and> storage_inv P S"

interpretation light: item_store "store_inv A" contents item_at st_cas get_item delete_item put_item "create_item A" write_data for A
proof (unfold_locales, unfold store_inv_def, goal_cases)
  case 1
  then show ?case by (blast intro: get_item_contents)
next
  case (2 P s n key)
  then show ?case using delete_item_contents [of P s n key] by auto
next
  case (3 P s a i)
  then show ?case using put_item_contents [of P s a i] by auto
next
  case (4 P s nkey key data n fl exp)
  then show ?case using create_item_contents [of P s A nkey key data n fl exp] by auto
next
  case (5 P s a i offset src)
  then show ?case using write_data_contents [of P s a i offset src] by auto
qed

end
