(* ===== verification/Light_V1.thy ===== *)
theory Light_V1
  imports Light_Map Binary_Handler
begin

text \<open>
  The application of the example server behind the logical interface, \<open>example/interface_v1.c\<close>: the state of the application is
  the storage. Keys and data are the memory from the pointer on. The CAS value that is given through a pointer only has a
  meaning for a success; it is 0 here otherwise.
\<close>

section \<open>The callbacks\<close>

definition on_app :: "(storage \<Rightarrow> ('r \<times> storage) option) \<Rightarrow> (storage, 'r) act" where
  "on_app f s = map_option (\<lambda>(r, S). (r, (S, snd s))) (f (fst s))"

text \<open>\<open>put_item(item); *cas= item->cas; release_item(item);\<close>\<close>

definition put_and_cas :: "nat \<Rightarrow> storage \<Rightarrow> ((status \<times> u64) \<times> storage) option" where
  "put_and_cas a S = do {
     S \<leftarrow> put_item a S;
     i \<leftarrow> item_at a S;
     Some ((PROTOCOL_BINARY_RESPONSE_SUCCESS, it_cas i), S)
   }"

definition create_and_put ::
  "storage_env \<Rightarrow> byte list \<Rightarrow> u16 \<Rightarrow> byte list \<Rightarrow> u32 \<Rightarrow> u32 \<Rightarrow> u32 \<Rightarrow> storage \<Rightarrow> ((status \<times> u64) \<times> storage) option" where
  "create_and_put A key keylen data datalen fl exptime S = do {
     (item, S) \<leftarrow> create_item A key (unat keylen) (Some data) (unat datalen) fl (ucast exptime) S;
     case item of
       None \<Rightarrow> Some ((PROTOCOL_BINARY_RESPONSE_ENOMEM, 0), S)
     | Some a \<Rightarrow> put_and_cas a S
   }"

definition add_handler ::
  "storage_env \<Rightarrow> byte list \<Rightarrow> u16 \<Rightarrow> byte list \<Rightarrow> u32 \<Rightarrow> u32 \<Rightarrow> u32 \<Rightarrow> (storage, status \<times> u64) act" where
  "add_handler A key keylen data datalen fl exptime = on_app (\<lambda>S.
     Option.bind (get_item key (unat keylen) S) (\<lambda>item. case item of
       None \<Rightarrow> create_and_put A key keylen data datalen fl exptime S
     | Some _ \<Rightarrow> Some ((PROTOCOL_BINARY_RESPONSE_KEY_EEXISTS, 0), S)))"

text \<open>\<open>append_handler\<close> and \<open>prepend_handler\<close> differ in the order of the two pieces.\<close>

definition concat_items ::
  "bool \<Rightarrow> storage_env \<Rightarrow> byte list \<Rightarrow> u16 \<Rightarrow> byte list \<Rightarrow> u32 \<Rightarrow> u64 \<Rightarrow> storage \<Rightarrow> ((status \<times> u64) \<times> storage) option" where
  "concat_items behind A key keylen val vallen cas S =
     Option.bind (get_item key (unat keylen) S) (\<lambda>found. case found of
       None \<Rightarrow> Some ((PROTOCOL_BINARY_RESPONSE_KEY_ENOENT, 0), S)
     | Some a \<Rightarrow> do {
         item \<leftarrow> item_at a S;
         if cas \<noteq> 0 \<and> cas \<noteq> it_cas item then Some ((PROTOCOL_BINARY_RESPONSE_KEY_EEXISTS, 0), S)
         else do {
           (nitem, S) \<leftarrow> create_item A key (unat keylen) None (length (it_data item) + unat vallen) (it_flags item) (it_exp item) S;
           case nitem of
             None \<Rightarrow> Some ((PROTOCOL_BINARY_RESPONSE_ENOMEM, 0), S)
           | Some n \<Rightarrow>
               if length val < unat vallen then None
               else do {
                 let new = take (unat vallen) val;
                 let old = it_data item;
                 S \<leftarrow> write_data n 0 (if behind then old else new) S;
                 S \<leftarrow> write_data n (if behind then length old else length new) (if behind then new else old) S;
                 (_, S) \<leftarrow> delete_item key (unat keylen) S;
                 put_and_cas n S
               }
         }
       })"

definition append_handler :: "storage_env \<Rightarrow> byte list \<Rightarrow> u16 \<Rightarrow> byte list \<Rightarrow> u32 \<Rightarrow> u64 \<Rightarrow> (storage, status \<times> u64) act" where
  "append_handler A key keylen val vallen cas = on_app (concat_items True A key keylen val vallen cas)"

definition prepend_handler :: "storage_env \<Rightarrow> byte list \<Rightarrow> u16 \<Rightarrow> byte list \<Rightarrow> u32 \<Rightarrow> u64 \<Rightarrow> (storage, status \<times> u64) act" where
  "prepend_handler A key keylen val vallen cas = on_app (concat_items False A key keylen val vallen cas)"

text \<open>
  The value of a counter is the eight bytes of the item as an integer of the machine, not its digits. An item is deleted before
  the new one is created.
\<close>

definition count_item ::
  "(u64 \<Rightarrow> u64) \<Rightarrow> bool \<Rightarrow> storage_env \<Rightarrow> byte list \<Rightarrow> u16 \<Rightarrow> u64 \<Rightarrow> u32 \<Rightarrow> storage
   \<Rightarrow> ((status \<times> u64 \<times> u64) \<times> storage) option" where
  "count_item next copy_key A key keylen initial expiration S = do {
     found \<leftarrow> get_item key (unat keylen) S;
     (val, expiration, S) \<leftarrow> (case found of
        None \<Rightarrow> Some (initial, expiration, S)
      | Some a \<Rightarrow> do {
          item \<leftarrow> item_at a S;
          old \<leftarrow> rd64 (it_data item) 0;
          (_, S) \<leftarrow> delete_item key (unat keylen) S;
          Some (next old, ucast (it_exp item), S)
        });
     (item, S) \<leftarrow> create_item A key (unat keylen) None 8 0 (ucast expiration) S;
     case item of
       None \<Rightarrow> Some ((PROTOCOL_BINARY_RESPONSE_ENOMEM, 0, 0), S)
     | Some a \<Rightarrow>
         if copy_key \<and> 1024 < unat keylen then None
         else do {
           S \<leftarrow> write_data a 0 (st_le64 val) S;
           ((rval, cas), S) \<leftarrow> put_and_cas a S;
           Some ((rval, val, cas), S)
         }
   }"

definition decrement_handler :: "storage_env \<Rightarrow> byte list \<Rightarrow> u16 \<Rightarrow> u64 \<Rightarrow> u64 \<Rightarrow> u32 \<Rightarrow> (storage, status \<times> u64 \<times> u64) act" where
  "decrement_handler A key keylen delta initial expiration =
     on_app (count_item (\<lambda>old. if old < delta then 0 else old - delta) False A key keylen initial expiration)"

text \<open>\<open>increment_handler\<close> also copies the key into an array of 1024 bytes, which it does not use.\<close>

definition increment_handler :: "storage_env \<Rightarrow> byte list \<Rightarrow> u16 \<Rightarrow> u64 \<Rightarrow> u64 \<Rightarrow> u32 \<Rightarrow> (storage, status \<times> u64 \<times> u64) act" where
  "increment_handler A key keylen delta initial expiration =
     on_app (count_item (\<lambda>old. old + delta) True A key keylen initial expiration)"

text \<open>A CAS value is compared with that of the item, when there is one.\<close>

definition cas_differs :: "byte list \<Rightarrow> u16 \<Rightarrow> u64 \<Rightarrow> storage \<Rightarrow> bool option" where
  "cas_differs key keylen cas S =
     (if cas = 0 then Some False
      else Option.bind (get_item key (unat keylen) S) (\<lambda>found. case found of
             None \<Rightarrow> Some False
           | Some a \<Rightarrow> map_option (\<lambda>i. it_cas i \<noteq> cas) (item_at a S)))"

definition delete_handler :: "byte list \<Rightarrow> u16 \<Rightarrow> u64 \<Rightarrow> (storage, status) act" where
  "delete_handler key keylen cas = on_app (\<lambda>S. do {
     differs \<leftarrow> cas_differs key keylen cas S;
     if differs then Some (PROTOCOL_BINARY_RESPONSE_KEY_EEXISTS, S)
     else do {
       (deleted, S) \<leftarrow> delete_item key (unat keylen) S;
       Some (if deleted then PROTOCOL_BINARY_RESPONSE_SUCCESS else PROTOCOL_BINARY_RESPONSE_KEY_ENOENT, S)
     }
   })"

definition flush_handler :: "u32 \<Rightarrow> (storage, status) act" where
  "flush_handler when = on_app (\<lambda>S. map_option (Pair PROTOCOL_BINARY_RESPONSE_SUCCESS) (flush_items when S))"

definition get_handler :: "byte list \<Rightarrow> u16 \<Rightarrow> get_response \<Rightarrow> (storage, status) act" where
  "get_handler key keylen response_handler s =
     Option.bind (get_item key (unat keylen) (fst s)) (\<lambda>found. case found of
       None \<Rightarrow> Some (PROTOCOL_BINARY_RESPONSE_KEY_ENOENT, s)
     | Some a \<Rightarrow> Option.bind (item_at a (fst s)) (\<lambda>i.
         on_client (response_handler key keylen (it_data i) (of_nat (length (it_data i))) (it_flags i) (it_cas i)) s))"

definition noop_handler :: "(storage, status) act" where
  "noop_handler s = Some (PROTOCOL_BINARY_RESPONSE_SUCCESS, s)"

definition quit_handler :: "(storage, status) act" where
  "quit_handler s = Some (PROTOCOL_BINARY_RESPONSE_SUCCESS, s)"

definition replace_handler ::
  "storage_env \<Rightarrow> byte list \<Rightarrow> u16 \<Rightarrow> byte list \<Rightarrow> u32 \<Rightarrow> u32 \<Rightarrow> u32 \<Rightarrow> u64 \<Rightarrow> (storage, status \<times> u64) act" where
  "replace_handler A key keylen data datalen fl exptime cas = on_app (\<lambda>S.
     Option.bind (get_item key (unat keylen) S) (\<lambda>found. case found of
       None \<Rightarrow> Some ((PROTOCOL_BINARY_RESPONSE_KEY_ENOENT, 0), S)
     | Some a \<Rightarrow> do {
         item \<leftarrow> item_at a S;
         if cas = 0 \<or> cas = it_cas item
         then do {
           (_, S) \<leftarrow> delete_item key (unat keylen) S;
           create_and_put A key keylen data datalen fl exptime S
         }
         else Some ((PROTOCOL_BINARY_RESPONSE_KEY_EEXISTS, 0), S)
       }))"

definition set_handler ::
  "storage_env \<Rightarrow> byte list \<Rightarrow> u16 \<Rightarrow> byte list \<Rightarrow> u32 \<Rightarrow> u32 \<Rightarrow> u32 \<Rightarrow> u64 \<Rightarrow> (storage, status \<times> u64) act" where
  "set_handler A key keylen data datalen fl exptime cas = on_app (\<lambda>S. do {
     differs \<leftarrow> cas_differs key keylen cas S;
     if differs then Some ((PROTOCOL_BINARY_RESPONSE_KEY_EEXISTS, 0), S)
     else do {
       (_, S) \<leftarrow> delete_item key (unat keylen) S;
       create_and_put A key keylen data datalen fl exptime S
     }
   })"

definition stat_handler :: "byte list \<Rightarrow> u16 \<Rightarrow> stat_response \<Rightarrow> (storage, status) act" where
  "stat_handler key keylen response_handler = on_client (response_handler None 0 [] 0)"

definition version_handler :: "version_response \<Rightarrow> (storage, status) act" where
  "version_handler response_handler = on_client (response_handler (bytes ''0.1.1'' @ [0]) 5)"

definition interface_v1_impl :: "storage_env \<Rightarrow> storage callback_st" where
  "interface_v1_impl A =
     \<lparr>interface_version = 1, pre_execute = None, post_execute = None, unknown = None, v0 = (\<lambda>_. None),
      v1 = \<lparr>v1_add = Some (add_handler A), v1_append = Some (append_handler A), v1_decrement = Some (decrement_handler A),
            v1_delete = Some delete_handler, v1_flush = Some flush_handler, v1_get = Some get_handler,
            v1_increment = Some (increment_handler A), v1_noop = Some noop_handler, v1_prepend = Some (prepend_handler A),
            v1_quit = Some quit_handler, v1_replace = Some (replace_handler A), v1_set = Some (set_handler A),
            v1_stat = Some stat_handler, v1_version = Some version_handler\<rparr>\<rparr>"

section \<open>What the application is meant to do\<close>

text \<open>
  A map from keys to items and the last CAS value. \<open>mem\<close> says whether there is memory for the new item: without it a command that
  replaces an item has already removed the old one, while appending keeps it.
\<close>

datatype app_call =
    Call_add "byte list" u16 "byte list" u32 u32 u32
  | Call_set "byte list" u16 "byte list" u32 u32 u32 u64
  | Call_replace "byte list" u16 "byte list" u32 u32 u32 u64
  | Call_append "byte list" u16 "byte list" u32 u64
  | Call_prepend "byte list" u16 "byte list" u32 u64
  | Call_increment "byte list" u16 u64 u64 u32
  | Call_decrement "byte list" u16 u64 u64 u32
  | Call_delete "byte list" u16 u64
  | Call_flush u32

type_synonym app_map = "(byte list \<Rightarrow> item option) \<times> u64"

definition spec_put ::
  "bool \<Rightarrow> byte list \<Rightarrow> byte list \<Rightarrow> u32 \<Rightarrow> u64 \<Rightarrow> u64 \<Rightarrow> app_map \<Rightarrow> (status \<times> u64 \<times> u64) \<times> app_map" where
  "spec_put mem k d fl e result = (\<lambda>(m, c).
     if mem then ((PROTOCOL_BINARY_RESPONSE_SUCCESS, result, c + 1), (m(k \<mapsto> new_item k d fl e (c + 1)), c + 1))
     else ((PROTOCOL_BINARY_RESPONSE_ENOMEM, 0, 0), (m, c)))"

definition spec_fail :: "status \<Rightarrow> app_map \<Rightarrow> (status \<times> u64 \<times> u64) \<times> app_map" where
  "spec_fail rval s = ((rval, 0, 0), s)"

definition spec_count ::
  "(u64 \<Rightarrow> u64) \<Rightarrow> bool \<Rightarrow> byte list \<Rightarrow> u64 \<Rightarrow> u32 \<Rightarrow> app_map \<Rightarrow> (status \<times> u64 \<times> u64) \<times> app_map" where
  "spec_count next mem k initial expiration = (\<lambda>(m, c).
     case m k of
       None \<Rightarrow> spec_put mem k (st_le64 initial) 0 (ucast expiration) initial (m, c)
     | Some i \<Rightarrow> (let val = next (ld_le64 (it_data i) 0)
                 in spec_put mem k (st_le64 val) 0 (ucast (ucast (it_exp i) :: u32)) val (m(k := None), c)))"

fun spec_call :: "bool \<Rightarrow> app_call \<Rightarrow> app_map \<Rightarrow> (status \<times> u64 \<times> u64) \<times> app_map" where
  "spec_call mem (Call_add key kl data n fl e) (m, c) =
     (let k = take (unat kl) key
      in if m k \<noteq> None then spec_fail PROTOCOL_BINARY_RESPONSE_KEY_EEXISTS (m, c)
         else spec_put mem k (take (unat n) data) fl (ucast e) 0 (m, c))"
| "spec_call mem (Call_set key kl data n fl e cas) (m, c) =
     (let k = take (unat kl) key
      in if cas \<noteq> 0 \<and> (case m k of None \<Rightarrow> False | Some i \<Rightarrow> it_cas i \<noteq> cas) then spec_fail PROTOCOL_BINARY_RESPONSE_KEY_EEXISTS (m, c)
         else spec_put mem k (take (unat n) data) fl (ucast e) 0 (m(k := None), c))"
| "spec_call mem (Call_replace key kl data n fl e cas) (m, c) =
     (let k = take (unat kl) key
      in case m k of
           None \<Rightarrow> spec_fail PROTOCOL_BINARY_RESPONSE_KEY_ENOENT (m, c)
         | Some i \<Rightarrow> if cas = 0 \<or> cas = it_cas i then spec_put mem k (take (unat n) data) fl (ucast e) 0 (m(k := None), c)
                     else spec_fail PROTOCOL_BINARY_RESPONSE_KEY_EEXISTS (m, c))"
| "spec_call mem (Call_append key kl data n cas) (m, c) =
     (let k = take (unat kl) key
      in case m k of
           None \<Rightarrow> spec_fail PROTOCOL_BINARY_RESPONSE_KEY_ENOENT (m, c)
         | Some i \<Rightarrow> if cas = 0 \<or> cas = it_cas i then spec_put mem k (it_data i @ take (unat n) data) (it_flags i) (it_exp i) 0 (m, c)
                     else spec_fail PROTOCOL_BINARY_RESPONSE_KEY_EEXISTS (m, c))"
| "spec_call mem (Call_prepend key kl data n cas) (m, c) =
     (let k = take (unat kl) key
      in case m k of
           None \<Rightarrow> spec_fail PROTOCOL_BINARY_RESPONSE_KEY_ENOENT (m, c)
         | Some i \<Rightarrow> if cas = 0 \<or> cas = it_cas i then spec_put mem k (take (unat n) data @ it_data i) (it_flags i) (it_exp i) 0 (m, c)
                     else spec_fail PROTOCOL_BINARY_RESPONSE_KEY_EEXISTS (m, c))"
| "spec_call mem (Call_increment key kl delta initial e) s = spec_count (\<lambda>old. old + delta) mem (take (unat kl) key) initial e s"
| "spec_call mem (Call_decrement key kl delta initial e) s =
     spec_count (\<lambda>old. if old < delta then 0 else old - delta) mem (take (unat kl) key) initial e s"
| "spec_call mem (Call_delete key kl cas) (m, c) =
     (let k = take (unat kl) key
      in case m k of
           None \<Rightarrow> spec_fail PROTOCOL_BINARY_RESPONSE_KEY_ENOENT (m, c)
         | Some i \<Rightarrow> if cas \<noteq> 0 \<and> it_cas i \<noteq> cas then spec_fail PROTOCOL_BINARY_RESPONSE_KEY_EEXISTS (m, c)
                     else spec_fail PROTOCOL_BINARY_RESPONSE_SUCCESS (m(k := None), c))"
| "spec_call mem (Call_flush when) (m, c) = spec_fail PROTOCOL_BINARY_RESPONSE_SUCCESS (\<lambda>_. None, c)"

text \<open>The same calls of the code, with the results put into one shape.\<close>

definition with_cas :: "(storage, status \<times> u64) act \<Rightarrow> (storage, status \<times> u64 \<times> u64) act" where
  "with_cas f s = map_option (\<lambda>((rval, cas), s). ((rval, 0, cas), s)) (f s)"

definition plain :: "(storage, status) act \<Rightarrow> (storage, status \<times> u64 \<times> u64) act" where
  "plain f s = map_option (\<lambda>(rval, s). ((rval, 0, 0), s)) (f s)"

fun run_call :: "storage_env \<Rightarrow> app_call \<Rightarrow> (storage, status \<times> u64 \<times> u64) act" where
  "run_call A (Call_add key kl data n fl e) = with_cas (add_handler A key kl data n fl e)"
| "run_call A (Call_set key kl data n fl e cas) = with_cas (set_handler A key kl data n fl e cas)"
| "run_call A (Call_replace key kl data n fl e cas) = with_cas (replace_handler A key kl data n fl e cas)"
| "run_call A (Call_append key kl data n cas) = with_cas (append_handler A key kl data n cas)"
| "run_call A (Call_prepend key kl data n cas) = with_cas (prepend_handler A key kl data n cas)"
| "run_call A (Call_increment key kl delta initial e) = increment_handler A key kl delta initial e"
| "run_call A (Call_decrement key kl delta initial e) = decrement_handler A key kl delta initial e"
| "run_call A (Call_delete key kl cas) = plain (delete_handler key kl cas)"
| "run_call A (Call_flush when) = plain (flush_handler when)"

text \<open>The memory that a call reads is there; a counter has eight bytes, and an incremented one a key that fits the array.\<close>

fun call_defined :: "app_call \<Rightarrow> (byte list \<Rightarrow> item option) \<Rightarrow> bool" where
  "call_defined (Call_add key kl data n fl e) m \<longleftrightarrow> unat kl \<le> length key \<and> unat n \<le> length data"
| "call_defined (Call_set key kl data n fl e cas) m \<longleftrightarrow> unat kl \<le> length key \<and> unat n \<le> length data"
| "call_defined (Call_replace key kl data n fl e cas) m \<longleftrightarrow> unat kl \<le> length key \<and> unat n \<le> length data"
| "call_defined (Call_append key kl data n cas) m \<longleftrightarrow> unat kl \<le> length key \<and> unat n \<le> length data"
| "call_defined (Call_prepend key kl data n cas) m \<longleftrightarrow> unat kl \<le> length key \<and> unat n \<le> length data"
| "call_defined (Call_increment key kl delta initial e) m \<longleftrightarrow>
     unat kl \<le> length key \<and> unat kl \<le> 1024 \<and> (case m (take (unat kl) key) of None \<Rightarrow> True | Some i \<Rightarrow> 8 \<le> length (it_data i))"
| "call_defined (Call_decrement key kl delta initial e) m \<longleftrightarrow>
     unat kl \<le> length key \<and> (case m (take (unat kl) key) of None \<Rightarrow> True | Some i \<Rightarrow> 8 \<le> length (it_data i))"
| "call_defined (Call_delete key kl cas) m \<longleftrightarrow> unat kl \<le> length key"
| "call_defined (Call_flush when) m \<longleftrightarrow> True"

definition app_map_of :: "storage \<Rightarrow> app_map" where
  "app_map_of S = (contents S, st_cas S)"

section \<open>The application is that map\<close>

text \<open>What a call has to do: one of the two outcomes that the memory allows.\<close>

definition does :: "storage_env \<Rightarrow> (bool \<Rightarrow> (status \<times> u64 \<times> u64) \<times> app_map) \<Rightarrow> ((status \<times> u64 \<times> u64) \<times> storage) option \<Rightarrow> bool" where
  "does A spec result \<longleftrightarrow> (\<exists>mem S'. result = Some (fst (spec mem), S') \<and> store_inv A {} S' \<and> app_map_of S' = snd (spec mem))"

lemma doesI: "result = Some (fst (spec mem), S') \<Longrightarrow> store_inv A {} S' \<Longrightarrow> app_map_of S' = snd (spec mem) \<Longrightarrow> does A spec result"
  by (auto simp: does_def)

definition result0 :: "(status \<times> u64) \<times> storage \<Rightarrow> (status \<times> u64 \<times> u64) \<times> storage" where
  "result0 = (\<lambda>((rval, cas), S). ((rval, 0, cas), S))"

lemma does_fail: "store_inv A {} S \<Longrightarrow> spec = (\<lambda>mem. spec_fail rval (app_map_of S)) \<Longrightarrow> does A spec (Some ((rval, 0, 0), S))"
  by (intro doesI [where mem = True]) (simp_all add: spec_fail_def)

lemma create_and_put_does:
  assumes "store_inv A {} S" and "unat kl \<le> length key" and "unat n \<le> length data" and "contents S (take (unat kl) key) = None"
    and "app_map_of S = mc"
  shows "does A (\<lambda>mem. spec_put mem (take (unat kl) key) (take (unat n) data) fl (ucast e) 0 mc)
    (map_option result0 (create_and_put A key kl data n fl e S))"
  using light.create_insert [OF assms(1-4), of fl "ucast e"]
proof (elim disjE exE conjE)
  assume "create_item A key (unat kl) (Some data) (unat n) fl (ucast e) S = Some (None, S)"
  then show ?thesis
    using assms(1,5) by (intro doesI [where mem = False]) (auto simp: create_and_put_def spec_put_def result0_def)
next
  fix a t u
  assume "create_item A key (unat kl) (Some data) (unat n) fl (ucast e) S = Some (Some a, t)" "put_item a t = Some u"
    "item_at a u = Some (new_item (take (unat kl) key) (take (unat n) data) fl (ucast e) (st_cas S + 1))" "store_inv A {} u"
    "st_cas u = st_cas S + 1"
    "contents u = (contents S)(take (unat kl) key \<mapsto> new_item (take (unat kl) key) (take (unat n) data) fl (ucast e) (st_cas S + 1))"
  then show ?thesis
    using assms(5) by (intro doesI [where mem = True])
      (auto simp: create_and_put_def put_and_cas_def spec_put_def result0_def app_map_of_def)
qed

text \<open>A handler on the storage of the connection.\<close>

lemma run_on_app: "with_cas (on_app f) (S, c) = map_option (\<lambda>(r, S'). (r, (S', c))) (map_option result0 (f S))"
  by (cases "f S") (auto simp: with_cas_def on_app_def result0_def split: prod.split)

lemma delete_then_put:
  assumes "store_inv A {} S" and "unat kl \<le> length key" and "unat n \<le> length data"
  shows "does A (\<lambda>mem. spec_put mem (take (unat kl) key) (take (unat n) data) fl (ucast e) 0
        ((contents S)(take (unat kl) key := None), st_cas S))
    (map_option result0 (Option.bind (delete_item key (unat kl) S) (\<lambda>(_, S). create_and_put A key kl data n fl e S)))"
proof -
  from light.erase_law [OF assms(1,2)] obtain t where
    t: "delete_item key (unat kl) S = Some (contents S (take (unat kl) key) \<noteq> None, t)" "store_inv A {} t" "st_cas t = st_cas S"
      "contents t = (contents S)(take (unat kl) key := None)" by auto
  then have "app_map_of t = ((contents S)(take (unat kl) key := None), st_cas S)" by (simp add: app_map_of_def)
  from create_and_put_does [OF t(2) assms(2,3) _ this] t(1,4) show ?thesis by simp
qed

lemma add_does:
  assumes "store_inv A {} S" and "call_defined (Call_add key kl data n fl e) m"
  shows "does A (\<lambda>mem. spec_call mem (Call_add key kl data n fl e) (app_map_of S))
    (map_option result0 (Option.bind (get_item key (unat kl) S) (\<lambda>item. case item of
       None \<Rightarrow> create_and_put A key kl data n fl e S
     | Some _ \<Rightarrow> Some ((PROTOCOL_BINARY_RESPONSE_KEY_EEXISTS, 0), S))))"
proof -
  have len: "unat kl \<le> length key" "unat n \<le> length data" using assms(2) by simp_all
  show ?thesis
  proof (rule light.lookup_cases [OF assms(1) len(1)], goal_cases)
    case 1
    then show ?thesis
      using create_and_put_does [OF assms(1) len, where mc = "(contents S, st_cas S)" and fl = fl and e = e]
      by (simp add: app_map_of_def Let_def)
  next
    case (2 a i)
    then show ?thesis using assms(1) by (auto intro!: does_fail simp: app_map_of_def result0_def)
  qed
qed

lemma cas_differs_contents:
  assumes "store_inv A {} S" and "unat kl \<le> length key"
  shows "cas_differs key kl cas S = Some (cas \<noteq> 0 \<and> (case contents S (take (unat kl) key) of None \<Rightarrow> False | Some i \<Rightarrow> it_cas i \<noteq> cas))"
  by (rule light.lookup_cases [OF assms]) (auto simp: cas_differs_def)

lemma set_does:
  assumes "store_inv A {} S" and "call_defined (Call_set key kl data n fl e cas) m"
  shows "does A (\<lambda>mem. spec_call mem (Call_set key kl data n fl e cas) (app_map_of S))
    (map_option result0 (do {
       differs \<leftarrow> cas_differs key kl cas S;
       if differs then Some ((PROTOCOL_BINARY_RESPONSE_KEY_EEXISTS, 0), S)
       else do { (_, S) \<leftarrow> delete_item key (unat kl) S; create_and_put A key kl data n fl e S }
     }))"
proof -
  have len: "unat kl \<le> length key" "unat n \<le> length data" using assms(2) by simp_all
  note differs = cas_differs_contents [OF assms(1) len(1), of cas]
  show ?thesis
  proof (cases "cas \<noteq> 0 \<and> (case contents S (take (unat kl) key) of None \<Rightarrow> False | Some i \<Rightarrow> it_cas i \<noteq> cas)")
    case True
    then show ?thesis using differs assms(1) by (auto intro!: does_fail simp: app_map_of_def result0_def)
  next
    case False
    then have "cas_differs key kl cas S = Some False" using differs by simp
    moreover have "(\<lambda>mem. spec_call mem (Call_set key kl data n fl e cas) (app_map_of S)) = (\<lambda>mem. spec_put mem (take (unat kl) key)
        (take (unat n) data) fl (ucast e) 0 ((contents S)(take (unat kl) key := None), st_cas S))"
      using False by (auto simp: app_map_of_def Let_def fun_eq_iff)
    ultimately show ?thesis using delete_then_put [OF assms(1) len, of fl e] by simp
  qed
qed

lemma replace_does:
  assumes "store_inv A {} S" and "call_defined (Call_replace key kl data n fl e cas) m"
  shows "does A (\<lambda>mem. spec_call mem (Call_replace key kl data n fl e cas) (app_map_of S))
    (map_option result0 (Option.bind (get_item key (unat kl) S) (\<lambda>found. case found of
       None \<Rightarrow> Some ((PROTOCOL_BINARY_RESPONSE_KEY_ENOENT, 0), S)
     | Some a \<Rightarrow> do {
         item \<leftarrow> item_at a S;
         if cas = 0 \<or> cas = it_cas item
         then do { (_, S) \<leftarrow> delete_item key (unat kl) S; create_and_put A key kl data n fl e S }
         else Some ((PROTOCOL_BINARY_RESPONSE_KEY_EEXISTS, 0), S)
       })))"
proof -
  have len: "unat kl \<le> length key" "unat n \<le> length data" using assms(2) by simp_all
  show ?thesis
  proof (rule light.lookup_cases [OF assms(1) len(1)], goal_cases)
    case 1
    then show ?thesis using assms(1) by (auto intro!: does_fail simp: app_map_of_def result0_def)
  next
    case (2 a i)
    show ?thesis
    proof (cases "cas = 0 \<or> cas = it_cas i")
      case True
      then show ?thesis using 2 delete_then_put [OF assms(1) len, of fl e] by (auto simp: app_map_of_def Let_def)
    next
      case False
      then show ?thesis using 2 assms(1) by (auto intro!: does_fail simp: app_map_of_def result0_def)
    qed
  qed
qed

lemma concat_does:
  assumes "store_inv A {} S" and "unat kl \<le> length key" and "unat n \<le> length data"
  shows "does A (\<lambda>mem. spec_call mem (if behind then Call_append key kl data n cas else Call_prepend key kl data n cas) (app_map_of S))
    (map_option result0 (concat_items behind A key kl data n cas S))"
proof (rule light.lookup_cases [OF assms(1,2)], goal_cases)
  case 1
  then show ?thesis using assms(1) by (auto intro!: does_fail simp: app_map_of_def result0_def concat_items_def)
next
  case (2 a i)
  let ?k = "take (unat kl) key" and ?new = "take (unat n) data" and ?old = "it_data i"
  let ?x = "if behind then ?old else ?new" and ?y = "if behind then ?new else ?old"
  have len: "length ?old + unat n = length ?x + length ?y" using assms(3) by simp
  show ?thesis
  proof (cases "cas = 0 \<or> cas = it_cas i")
    case True
    from light.create_fill [OF assms(1,2) len, of "it_flags i" "it_exp i"] show ?thesis
    proof (elim disjE exE conjE, goal_cases)
      case 1
      then show ?thesis using 2 True assms(1)
        by (intro doesI [where mem = False]) (auto simp: concat_items_def spec_put_def result0_def app_map_of_def)
    next
      case (2 b t u v)
      from light.erase_insert [OF 2(4) assms(2) 2(7)] obtain w z where
        "delete_item key (unat kl) v = Some (contents v ?k \<noteq> None, w)" "put_item b w = Some z"
        "item_at b z = Some (new_item ?k (?x @ ?y) (it_flags i) (it_exp i) (st_cas v + 1))" "store_inv A {} z" "st_cas z = st_cas v + 1"
        "contents z = (contents v)(?k \<mapsto> new_item ?k (?x @ ?y) (it_flags i) (it_exp i) (st_cas v + 1))" by auto
      then show ?thesis using 2 \<open>get_item key (unat kl) S = Some (Some a)\<close> \<open>item_at a S = Some i\<close> \<open>contents S ?k = Some i\<close> True assms(3)
        by (intro doesI [where mem = True])
          (auto simp: concat_items_def put_and_cas_def spec_put_def result0_def app_map_of_def Let_def min_def)
    qed
  next
    case False
    then show ?thesis using 2 assms(1) by (auto intro!: does_fail simp: app_map_of_def result0_def concat_items_def)
  qed
qed

lemma fill_counter:
  assumes "store_inv A {} S" and "unat kl \<le> length key" and "copy_key \<longrightarrow> unat kl \<le> 1024" and "contents S (take (unat kl) key) = None"
  shows "does A (\<lambda>mem. spec_put mem (take (unat kl) key) (st_le64 val) 0 e val (app_map_of S))
    (Option.bind (create_item A key (unat kl) None 8 0 e S) (\<lambda>(item, S). case item of
       None \<Rightarrow> Some ((PROTOCOL_BINARY_RESPONSE_ENOMEM, 0, 0), S)
     | Some a \<Rightarrow>
         if copy_key \<and> 1024 < unat kl then None
         else do {
           S \<leftarrow> write_data a 0 (st_le64 val) S;
           ((rval, cas), S) \<leftarrow> put_and_cas a S;
           Some ((rval, val, cas), S)
         }))"
proof -
  have "length (st_le64 val) \<le> 8" by simp
  from light.create_head [OF assms(1,2) this, of 0 e] show ?thesis
  proof (elim disjE exE conjE, goal_cases)
    case 1
    then show ?thesis using assms(1) by (intro doesI [where mem = False]) (auto simp: spec_put_def app_map_of_def)
  next
    case (2 a t u d)
    then have "item_at a u = Some (new_item (take (unat kl) key) (st_le64 val) 0 e 0)" "contents u (take (unat kl) key) = None"
      using assms(4) by simp_all
    from light.insert_pending [OF 2(4) this] obtain w where
      "put_item a u = Some w" "item_at a w = Some (new_item (take (unat kl) key) (st_le64 val) 0 e (st_cas u + 1))" "store_inv A {} w"
      "st_cas w = st_cas u + 1" "contents w = (contents u)(take (unat kl) key \<mapsto> new_item (take (unat kl) key) (st_le64 val) 0 e (st_cas u + 1))"
      by auto
    then show ?thesis using 2 assms(3)
      by (intro doesI [where mem = True]) (auto simp: put_and_cas_def spec_put_def app_map_of_def)
  qed
qed

lemma rd64_ld: "8 \<le> length b \<Longrightarrow> rd64 b 0 = Some (ld_le64 b 0)"
  by (simp add: rd64_def)

lemma count_does:
  assumes "store_inv A {} S" and "unat kl \<le> length key" and "copy_key \<longrightarrow> unat kl \<le> 1024"
    and "case contents S (take (unat kl) key) of None \<Rightarrow> True | Some i \<Rightarrow> 8 \<le> length (it_data i)"
  shows "does A (\<lambda>mem. spec_count step mem (take (unat kl) key) initial e (app_map_of S))
    (count_item step copy_key A key kl initial e S)"
proof (rule light.lookup_cases [OF assms(1,2)], goal_cases)
  case 1
  then show ?thesis using fill_counter [OF assms(1-3) 1(2), of initial "ucast e"]
    by (simp add: count_item_def spec_count_def app_map_of_def)
next
  case (2 a i)
  let ?k = "take (unat kl) key" and ?val = "step (ld_le64 (it_data i) 0)" and ?e = "ucast (it_exp i) :: u32"
  from light.erase_law [OF assms(1,2)] obtain t where
    t: "delete_item key (unat kl) S = Some (contents S ?k \<noteq> None, t)" "store_inv A {} t" "st_cas t = st_cas S"
      "contents t = (contents S)(?k := None)" by auto
  then have "contents t ?k = None" by simp
  from fill_counter [OF t(2) assms(2,3) this, of ?val "ucast ?e"] show ?thesis
    using 2 t assms(4) by (simp add: count_item_def spec_count_def app_map_of_def Let_def rd64_ld)
qed

lemma delete_does:
  assumes "store_inv A {} S" and "unat kl \<le> length key"
  shows "does A (\<lambda>mem. spec_call mem (Call_delete key kl cas) (app_map_of S))
    (map_option (\<lambda>(rval, S). ((rval, 0, 0), S)) (do {
       differs \<leftarrow> cas_differs key kl cas S;
       if differs then Some (PROTOCOL_BINARY_RESPONSE_KEY_EEXISTS, S)
       else do {
         (deleted, S) \<leftarrow> delete_item key (unat kl) S;
         Some (if deleted then PROTOCOL_BINARY_RESPONSE_SUCCESS else PROTOCOL_BINARY_RESPONSE_KEY_ENOENT, S)
       }
     }))"
proof -
  from light.erase_law [OF assms] obtain t where
    t: "delete_item key (unat kl) S = Some (contents S (take (unat kl) key) \<noteq> None, t)" "store_inv A {} t" "st_cas t = st_cas S"
      "contents t = (contents S)(take (unat kl) key := None)" by auto
  show ?thesis
  proof (cases "cas \<noteq> 0 \<and> (case contents S (take (unat kl) key) of None \<Rightarrow> False | Some i \<Rightarrow> it_cas i \<noteq> cas)")
    case True
    then show ?thesis using assms(1) unfolding cas_differs_contents [OF assms]
      by (auto intro!: does_fail simp: app_map_of_def split: option.splits)
  next
    case False
    have "contents S (take (unat kl) key) = None \<Longrightarrow> app_map_of t = app_map_of S" using t by (auto simp: app_map_of_def fun_upd_idem)
    then show ?thesis using t False unfolding cas_differs_contents [OF assms]
      by (intro doesI [where mem = True and S' = t]) (auto simp: spec_fail_def app_map_of_def Let_def split: option.splits)
  qed
qed

lemma flush_does:
  assumes "store_inv A {} S"
  shows "does A (\<lambda>mem. spec_call mem (Call_flush w) (app_map_of S))
    (map_option (\<lambda>(rval, S). ((rval, 0, 0), S)) (map_option (Pair PROTOCOL_BINARY_RESPONSE_SUCCESS) (flush_items w S)))"
  using flush_items_contents [of "{}" S w] assms
  by (intro doesI [where mem = True and S' = "the (flush_items w S)"]) (auto simp: store_inv_def spec_fail_def app_map_of_def)

lemma run_call_refines:
  assumes "storage_env_ok A" and "storage_inv {} S" and "call_defined call (contents S)"
  shows "\<exists>mem S'. run_call A call (S, c) = Some (fst (spec_call mem call (app_map_of S)), S', c) \<and> storage_inv {} S' \<and>
    app_map_of S' = snd (spec_call mem call (app_map_of S))"
proof -
  have inv: "store_inv A {} S" using assms(1,2) by (simp add: store_inv_def)
  have refines: "\<exists>mem S'. map_option (\<lambda>(r, S'). (r, (S', c))) result = Some (fst (spec_call mem call (app_map_of S)), S', c) \<and>
      storage_inv {} S' \<and> app_map_of S' = snd (spec_call mem call (app_map_of S))"
    if "does A (\<lambda>mem. spec_call mem call (app_map_of S)) result" for result
    using that unfolding does_def store_inv_def by (elim exE conjE) (rule exI, rule exI, auto)
  have plain: "plain (on_app f) (S, c) = map_option (\<lambda>(r, S'). (r, (S', c))) (map_option (\<lambda>(rval, S). ((rval, 0, 0), S)) (f S))" for f
    by (cases "f S") (auto simp: plain_def on_app_def)
  have count: "on_app f (S, c) = map_option (\<lambda>(r, S'). (r, (S', c))) (f S)" for f :: "storage \<Rightarrow> ((status \<times> u64 \<times> u64) \<times> storage) option"
    by (simp add: on_app_def)
  note ran = add_handler_def set_handler_def replace_handler_def append_handler_def prepend_handler_def increment_handler_def
    decrement_handler_def delete_handler_def flush_handler_def
  show ?thesis
  proof (cases call)
    case (Call_add key kl data n fl e)
    with refines [OF add_does [OF inv assms(3) [unfolded this], folded this]] show ?thesis by (simp add: ran run_on_app)
  next
    case (Call_set key kl data n fl e cas)
    with refines [OF set_does [OF inv assms(3) [unfolded this], folded this]] show ?thesis by (simp add: ran run_on_app)
  next
    case (Call_replace key kl data n fl e cas)
    with refines [OF replace_does [OF inv assms(3) [unfolded this], folded this]] show ?thesis by (simp add: ran run_on_app)
  next
    case (Call_append key kl data n cas)
    with refines [of "map_option result0 (concat_items True A key kl data n cas S)"] concat_does [OF inv, of kl key n data True cas] assms(3)
    show ?thesis by (simp add: ran run_on_app)
  next
    case (Call_prepend key kl data n cas)
    with refines [of "map_option result0 (concat_items False A key kl data n cas S)"] concat_does [OF inv, of kl key n data False cas] assms(3)
    show ?thesis by (simp add: ran run_on_app)
  next
    case (Call_increment key kl delta initial e)
    with refines [of "count_item (\<lambda>old. old + delta) True A key kl initial e S"] count_does [OF inv, where copy_key = True and step = "\<lambda>old. old + delta"] assms(3)
    show ?thesis by (simp add: ran count)
  next
    case (Call_decrement key kl delta initial e)
    with refines [of "count_item (\<lambda>old. if old < delta then 0 else old - delta) False A key kl initial e S"]
      count_does [OF inv, where copy_key = False and step = "\<lambda>old. if old < delta then 0 else old - delta"] assms(3)
    show ?thesis by (simp add: ran count)
  next
    case (Call_delete key kl cas)
    with refines [OF delete_does [OF inv, of kl key cas, folded this]] assms(3) [unfolded Call_delete] show ?thesis by (simp add: ran plain)
  next
    case (Call_flush w)
    with refines [OF flush_does [OF inv, of w, folded this]] show ?thesis by (simp add: ran plain)
  qed
qed


section \<open>The walks end\<close>

text \<open>The storages that calls lead to.\<close>

inductive reached :: "storage_env \<Rightarrow> storage \<Rightarrow> bool" for A where
  fresh: "reached A empty_storage"
| called: "reached A S \<Longrightarrow> call_defined call (contents S) \<Longrightarrow> run_call A call (S, c) = Some (r, S', c') \<Longrightarrow> reached A S'"

lemma reached_inv: "reached A S \<Longrightarrow> storage_env_ok A \<Longrightarrow> storage_inv {} S"
proof (induction rule: reached.induct)
  case (called S call c r S' c')
  then show ?case using run_call_refines [of A S call c] by auto
qed simp

text \<open>
  C19: on every storage that calls of the application lead to, the loops of the storage end: looking for a key, deleting it and flushing
  return, although the list is circular and a walk through an arbitrary memory need not end.
\<close>

lemma walks_end:
  assumes "storage_env_ok A" and "reached A S" and "n \<le> length key"
  shows "get_item key n S \<noteq> None \<and> delete_item key n S \<noteq> None \<and> flush_items w S \<noteq> None"
proof -
  have inv: "store_inv A {} S" using assms(1) reached_inv [OF assms(2,1)] by (simp add: store_inv_def)
  have "get_item key n S \<noteq> None" by (rule light.lookup_cases [OF inv assms(3)]) auto
  moreover have "delete_item key n S \<noteq> None" using light.erase_law [OF inv assms(3)] by auto
  moreover have "flush_items w S \<noteq> None" using flush_items_contents [of "{}" S w] inv by (auto simp: store_inv_def)
  ultimately show ?thesis by blast
qed

text \<open>A memory in which an entry leads to itself while the root is another: no walk ends there.\<close>

lemma walk_forever:
  assumes "st_root S = Some 0" and "st_entries S 0 = Some e" and "st_entries S 1 = Some e" and "e_next e = Some 1" and "it_key (e_item e) = []"
  shows "get_item [107] 1 S = None"
proof -
  have "T = S \<longrightarrow> key = [107] \<longrightarrow> n = 1 \<longrightarrow> w = 1 \<longrightarrow> False" if "get_loop T key n w = Some r" for T key n w r
  proof (rule get_loop.raw_induct [OF _ that, where P = "\<lambda>T key n w r. T = S \<longrightarrow> key = [107] \<longrightarrow> n = 1 \<longrightarrow> w = 1 \<longrightarrow> False"], goal_cases)
    case (1 loop T key n w r)
    show ?case
    proof (intro impI)
      assume "T = S" "key = [107]" "n = 1" "w = 1"
      with 1(2) have "loop S [107] 1 1 = Some r" using assms by (auto split: if_splits)
      with 1(1) show False by blast
    qed
  qed
  then have "get_loop S [107] 1 1 = None" by (metis option.exhaust)
  then show ?thesis using assms by (simp add: get_item_def get_loop.simps [of S _ _ 0])
qed


text \<open>After the value \<open>a\<close> has been stored under the key \<open>k\<close>.\<close>

lemma walks_end_witness:
  "\<exists>S. reached (\<lparr>new_entry = \<lambda>h. if h 0 = None then Some 0 else None, new_block = \<lambda>n. Some (replicate n 0)\<rparr>) S \<and> st_root S = Some 0 \<and>
     get_item [107] 1 S \<noteq> None \<and> delete_item [107] 1 S \<noteq> None \<and> flush_items 0 S \<noteq> None"
proof -
  let ?A = "\<lparr>new_entry = \<lambda>h. if h 0 = None then Some 0 else None, new_block = \<lambda>n. Some (replicate n 0)\<rparr>"
  have ok: "storage_env_ok ?A" by (auto simp: storage_env_ok_def split: if_splits)
  have "\<exists>r S c'. run_call ?A (Call_set [107] 1 [97] 1 5 0 0) (empty_storage, new_client) = Some (r, S, c') \<and> st_root S = Some 0"
    by (simp add: set_handler_def with_cas_def on_app_def cas_differs_def delete_item_def get_item_def create_and_put_def create_item_def
        empty_storage_def put_and_cas_def put_item_def update_cas_def assign_def deref_def item_at_def)
  then obtain r S c' where s: "run_call ?A (Call_set [107] 1 [97] 1 5 0 0) (empty_storage, new_client) = Some (r, S, c')" "st_root S = Some 0"
    by blast
  have reach: "reached ?A S" by (rule reached.called [OF reached.fresh _ s(1)]) simp
  from walks_end [OF ok reach, of 1 "[107]" 0] reach s(2) show ?thesis by auto
qed

end
