(* ===== verification/Light_V0.thy ===== *)
theory Light_V0
  imports Light_V1 Binary_Execute
begin

text \<open>
  The application of the example server behind the interface of packets, \<open>example/interface_v0.c\<close>, and the parts of
  \<open>example/memcached_light.c\<close> that the protocol server calls. A handler gets the memory from the header of the request on.
\<close>

section \<open>The handlers\<close>

text \<open>The packet without extras of the handlers, with its status and CAS value.\<close>

definition v0_response :: "byte \<Rightarrow> status \<Rightarrow> u64 \<Rightarrow> byte list \<Rightarrow> byte list" where
  "v0_response opcode rval cas header =
     response_bytes (zero_response
       \<lparr>res_magic := PROTOCOL_BINARY_RES, res_opcode := opcode, res_status := htons rval,
        res_opaque := req_opaque (request_at header), res_cas := htonll cas\<rparr>)"

definition answer_with :: "raw_response \<Rightarrow> byte list \<Rightarrow> status \<Rightarrow> u64 \<Rightarrow> (storage, status) act" where
  "answer_with response_handler header rval cas =
     on_client (response_handler header (v0_response (req_opcode (request_at header)) rval cas header))"

definition v0_noop_command_handler :: "storage command_handler" where
  "v0_noop_command_handler header response_handler =
     on_client (response_handler header (v0_response PROTOCOL_BINARY_CMD_NOOP PROTOCOL_BINARY_RESPONSE_SUCCESS 0 header))"

definition v0_quit_command_handler :: "storage command_handler" where
  "v0_quit_command_handler header response_handler s = do {
     s \<leftarrow> (if req_opcode (request_at header) = PROTOCOL_BINARY_CMD_QUIT
          then map_option snd (on_client (response_handler header
                 (v0_response PROTOCOL_BINARY_CMD_QUIT PROTOCOL_BINARY_RESPONSE_SUCCESS 0 header)) s)
          else Some s);
     Some (PROTOCOL_BINARY_RESPONSE_EIO, s)
   }"

text \<open>The response is put together in 4096 bytes, of which the header and the flags take 28.\<close>

definition get_packet :: "byte list \<Rightarrow> item \<Rightarrow> byte list option" where
  "get_packet header i =
     (let opcode = req_opcode (request_at header);
          key = (if opcode = PROTOCOL_BINARY_CMD_GETK \<or> opcode = PROTOCOL_BINARY_CMD_GETKQ then it_key i else []);
          body = key @ it_data i
      in if 4096 < 28 + length body then None
         else Some (response_bytes (zero_response
                \<lparr>res_magic := PROTOCOL_BINARY_RES, res_opcode := opcode, res_keylen := htons (of_nat (length key)), res_extlen := 4,
                 res_status := htons PROTOCOL_BINARY_RESPONSE_SUCCESS, res_bodylen := htonl (of_nat (4 + length body)),
                 res_opaque := req_opaque (request_at header), res_cas := htonll (it_cas i)\<rparr>)
              @ st_le32 (htonl (it_flags i)) @ body @ replicate (4096 - 28 - length body) 0))"

definition v0_get_command_handler :: "storage command_handler" where
  "v0_get_command_handler header response_handler s =
     (let opcode = req_opcode (request_at header)
      in Option.bind (get_item (drop 24 header) (unat (ntohs (req_keylen (request_at header)))) (fst s)) (\<lambda>found. case found of
           Some a \<Rightarrow> do {
             i \<leftarrow> item_at a (fst s);
             packet \<leftarrow> get_packet header i;
             on_client (response_handler header packet) s
           }
         | None \<Rightarrow>
             if opcode = PROTOCOL_BINARY_CMD_GET \<or> opcode = PROTOCOL_BINARY_CMD_GETK
             then on_client (response_handler header
                    (v0_response opcode PROTOCOL_BINARY_RESPONSE_KEY_ENOENT 0 header @ replicate 4072 0)) s
             else Some (PROTOCOL_BINARY_RESPONSE_SUCCESS, s)))"

definition v0_delete_command_handler :: "storage command_handler" where
  "v0_delete_command_handler header response_handler s = do {
     (deleted, S) \<leftarrow> delete_item (drop 24 header) (unat (ntohs (req_keylen (request_at header)))) (fst s);
     let s = (S, snd s);
     if \<not> deleted then answer_with response_handler header PROTOCOL_BINARY_RESPONSE_KEY_ENOENT 0 s
     else if req_opcode (request_at header) = PROTOCOL_BINARY_CMD_DELETE
     then answer_with response_handler header PROTOCOL_BINARY_RESPONSE_SUCCESS 0 s
     else Some (PROTOCOL_BINARY_RESPONSE_SUCCESS, s)
   }"

definition v0_flush_command_handler :: "storage command_handler" where
  "v0_flush_command_handler header response_handler s = do {
     S \<leftarrow> flush_items 0 (fst s);
     if req_opcode (request_at header) = PROTOCOL_BINARY_CMD_FLUSH
     then answer_with response_handler header PROTOCOL_BINARY_RESPONSE_SUCCESS 0 (S, snd s)
     else Some (PROTOCOL_BINARY_RESPONSE_SUCCESS, (S, snd s))
   }"

text \<open>The flags of the counter are kept, and the response has the eight bytes of its value behind the header.\<close>

definition counter_packet :: "byte list \<Rightarrow> status \<Rightarrow> (u64 \<times> u64) option \<Rightarrow> byte list" where
  "counter_packet header rval counter =
     (let res = zero_response\<lparr>res_magic := PROTOCOL_BINARY_RES, res_opcode := req_opcode (request_at header), res_status := htons rval,
                              res_opaque := req_opaque (request_at header)\<rparr>
      in case counter of
           None \<Rightarrow> response_bytes res @ st_le64 0
         | Some (val, cas) \<Rightarrow> response_bytes (res\<lparr>res_bodylen := ntohl 8, res_cas := ntohll cas\<rparr>) @ st_le64 (ntohll val))"

definition v0_arithmetic_command_handler :: "storage_env \<Rightarrow> storage command_handler" where
  "v0_arithmetic_command_handler A header response_handler s =
     (let opcode = req_opcode (request_at header); keylen = unat (ntohs (req_keylen (request_at header))); key = drop 44 header
      in do {
        delta \<leftarrow> map_option ntohll (rd64 header 24);
        initial \<leftarrow> map_option ntohll (rd64 header 32);
        expiration \<leftarrow> map_option ntohl (rd32 header 40);
        found \<leftarrow> get_item key keylen (fst s);
        (val, expiration, fl, S) \<leftarrow> (case found of
           None \<Rightarrow> Some (initial, expiration, 0, fst s)
         | Some a \<Rightarrow> do {
             item \<leftarrow> item_at a (fst s);
             old \<leftarrow> rd64 (it_data item) 0;
             let val = (if opcode = PROTOCOL_BINARY_CMD_INCREMENT \<or> opcode = PROTOCOL_BINARY_CMD_INCREMENTQ then old + delta
                        else if old < delta then 0 else old - delta);
             (_, S) \<leftarrow> delete_item key keylen (fst s);
             Some (val, ucast (it_exp item), it_flags item, S)
           });
        (item, S) \<leftarrow> create_item A key keylen None 8 fl (ucast expiration) S;
        case item of
          None \<Rightarrow> on_client (response_handler header (counter_packet header PROTOCOL_BINARY_RESPONSE_ENOMEM None)) (S, snd s)
        | Some a \<Rightarrow> do {
            S \<leftarrow> write_data a 0 (st_le64 val) S;
            S \<leftarrow> put_item a S;
            i \<leftarrow> item_at a S;
            new \<leftarrow> rd64 (it_data i) 0;
            if opcode = PROTOCOL_BINARY_CMD_INCREMENTQ \<or> opcode = PROTOCOL_BINARY_CMD_DECREMENTQ
            then Some (PROTOCOL_BINARY_RESPONSE_SUCCESS, (S, snd s))
            else on_client (response_handler header
                   (counter_packet header PROTOCOL_BINARY_RESPONSE_SUCCESS (Some (new, it_cas i)))) (S, snd s)
          }
      })"

definition v0_version_command_handler :: "storage command_handler" where
  "v0_version_command_handler header response_handler =
     on_client (response_handler header
       (response_bytes (zero_response
          \<lparr>res_magic := PROTOCOL_BINARY_RES, res_opcode := PROTOCOL_BINARY_CMD_VERSION,
           res_status := htons PROTOCOL_BINARY_RESPONSE_SUCCESS, res_bodylen := htonl 5, res_opaque := req_opaque (request_at header)\<rparr>)
        @ bytes ''1.0.0'' @ replicate 227 0))"

text \<open>The errors are returned, and answered by the protocol server.\<close>

definition v0_concat_command_handler :: "storage_env \<Rightarrow> storage command_handler" where
  "v0_concat_command_handler A header response_handler s =
     (let opcode = req_opcode (request_at header); keylen = ntohs (req_keylen (request_at header)); key = drop 24 header;
          vallen = ntohl (req_bodylen (request_at header)) - ucast keylen;
          behind = (opcode = PROTOCOL_BINARY_CMD_APPEND \<or> opcode = PROTOCOL_BINARY_CMD_APPENDQ)
      in do {
        ((rval, cas), S) \<leftarrow> concat_items behind A key keylen (drop (unat keylen) key) vallen (ntohll (req_cas (request_at header))) (fst s);
        if rval = PROTOCOL_BINARY_RESPONSE_SUCCESS \<and> (opcode = PROTOCOL_BINARY_CMD_APPEND \<or> opcode = PROTOCOL_BINARY_CMD_PREPEND)
        then answer_with response_handler header rval cas (S, snd s)
        else Some (rval, (S, snd s))
      })"

text \<open>The length of the data is computed in 64 bits; the flags and the expiration time are read from the packet first.\<close>

definition v0_datalen :: "byte list \<Rightarrow> nat" where
  "v0_datalen header = unat ((ucast (ntohl (req_bodylen (request_at header))) :: u64) - ucast (ntohs (req_keylen (request_at header))) - 8)"

definition v0_store :: "storage_env \<Rightarrow> byte \<Rightarrow> byte list \<Rightarrow> u32 \<Rightarrow> u32 \<Rightarrow> raw_response \<Rightarrow> (storage, status) act" where
  "v0_store A loud header fl timeout response_handler s =
     (let keylen = unat (ntohs (req_keylen (request_at header))); key = drop 32 header
      in do {
        (item, S) \<leftarrow> create_item A key keylen (Some (drop keylen key)) (v0_datalen header) fl (ucast timeout) (fst s);
        case item of
          None \<Rightarrow> answer_with response_handler header PROTOCOL_BINARY_RESPONSE_ENOMEM 0 (S, snd s)
        | Some a \<Rightarrow> do {
            S \<leftarrow> put_item a S;
            i \<leftarrow> item_at a S;
            if req_opcode (request_at header) = loud
            then answer_with response_handler header PROTOCOL_BINARY_RESPONSE_SUCCESS (it_cas i) (S, snd s)
            else Some (PROTOCOL_BINARY_RESPONSE_SUCCESS, (S, snd s))
          }
      })"

definition v0_set_command_handler :: "storage_env \<Rightarrow> storage command_handler" where
  "v0_set_command_handler A header response_handler s =
     (let keylen = ntohs (req_keylen (request_at header)); key = drop 32 header
      in do {
        fl \<leftarrow> map_option ntohl (rd32 header 24);
        timeout \<leftarrow> map_option ntohl (rd32 header 28);
        differs \<leftarrow> cas_differs key keylen (ntohll (req_cas (request_at header))) (fst s);
        if differs then answer_with response_handler header PROTOCOL_BINARY_RESPONSE_KEY_EEXISTS 0 s
        else do {
          (_, S) \<leftarrow> delete_item key (unat keylen) (fst s);
          v0_store A PROTOCOL_BINARY_CMD_SET header fl timeout response_handler (S, snd s)
        }
      })"

definition v0_add_command_handler :: "storage_env \<Rightarrow> storage command_handler" where
  "v0_add_command_handler A header response_handler s = do {
     fl \<leftarrow> map_option ntohl (rd32 header 24);
     timeout \<leftarrow> map_option ntohl (rd32 header 28);
     found \<leftarrow> get_item (drop 32 header) (unat (ntohs (req_keylen (request_at header)))) (fst s);
     case found of
       None \<Rightarrow> v0_store A PROTOCOL_BINARY_CMD_ADD header fl timeout response_handler s
     | Some _ \<Rightarrow> answer_with response_handler header PROTOCOL_BINARY_RESPONSE_KEY_EEXISTS 0 s
   }"

definition v0_replace_command_handler :: "storage_env \<Rightarrow> storage command_handler" where
  "v0_replace_command_handler A header response_handler s =
     (let keylen = unat (ntohs (req_keylen (request_at header))); key = drop 32 header; cas = req_cas (request_at header)
      in do {
        fl \<leftarrow> map_option ntohl (rd32 header 24);
        timeout \<leftarrow> map_option ntohl (rd32 header 28);
        found \<leftarrow> get_item key keylen (fst s);
        case found of
          None \<Rightarrow> answer_with response_handler header PROTOCOL_BINARY_RESPONSE_KEY_ENOENT 0 s
        | Some a \<Rightarrow> do {
            i \<leftarrow> item_at a (fst s);
            if cas = 0 \<or> ntohll cas = it_cas i
            then do {
              (_, S) \<leftarrow> delete_item key keylen (fst s);
              v0_store A PROTOCOL_BINARY_CMD_REPLACE header fl timeout response_handler (S, snd s)
            }
            else answer_with response_handler header PROTOCOL_BINARY_RESPONSE_KEY_EEXISTS 0 s
          }
      })"

text \<open>Only the packet that ends the statistics.\<close>

definition v0_stat_command_handler :: "storage command_handler" where
  "v0_stat_command_handler header response_handler =
     on_client (response_handler header (v0_response PROTOCOL_BINARY_CMD_STAT PROTOCOL_BINARY_RESPONSE_SUCCESS 0 header))"

section \<open>The table\<close>

definition interface_v0_impl :: "storage_env \<Rightarrow> storage callback_st" where
  "interface_v0_impl A =
     \<lparr>interface_version = 0, pre_execute = None, post_execute = None, unknown = None,
      v0 = (\<lambda>cc.
        if cc \<in> {PROTOCOL_BINARY_CMD_GET, PROTOCOL_BINARY_CMD_GETQ, PROTOCOL_BINARY_CMD_GETK, PROTOCOL_BINARY_CMD_GETKQ}
        then Some v0_get_command_handler
        else if cc \<in> {PROTOCOL_BINARY_CMD_SET, PROTOCOL_BINARY_CMD_SETQ} then Some (v0_set_command_handler A)
        else if cc \<in> {PROTOCOL_BINARY_CMD_ADD, PROTOCOL_BINARY_CMD_ADDQ} then Some (v0_add_command_handler A)
        else if cc \<in> {PROTOCOL_BINARY_CMD_REPLACE, PROTOCOL_BINARY_CMD_REPLACEQ} then Some (v0_replace_command_handler A)
        else if cc \<in> {PROTOCOL_BINARY_CMD_DELETE, PROTOCOL_BINARY_CMD_DELETEQ} then Some v0_delete_command_handler
        else if cc \<in> {PROTOCOL_BINARY_CMD_INCREMENT, PROTOCOL_BINARY_CMD_INCREMENTQ, PROTOCOL_BINARY_CMD_DECREMENT, PROTOCOL_BINARY_CMD_DECREMENTQ}
        then Some (v0_arithmetic_command_handler A)
        else if cc \<in> {PROTOCOL_BINARY_CMD_QUIT, PROTOCOL_BINARY_CMD_QUITQ} then Some v0_quit_command_handler
        else if cc \<in> {PROTOCOL_BINARY_CMD_FLUSH, PROTOCOL_BINARY_CMD_FLUSHQ} then Some v0_flush_command_handler
        else if cc = PROTOCOL_BINARY_CMD_NOOP then Some v0_noop_command_handler
        else if cc = PROTOCOL_BINARY_CMD_VERSION then Some v0_version_command_handler
        else if cc \<in> {PROTOCOL_BINARY_CMD_APPEND, PROTOCOL_BINARY_CMD_APPENDQ, PROTOCOL_BINARY_CMD_PREPEND, PROTOCOL_BINARY_CMD_PREPENDQ}
        then Some (v0_concat_command_handler A)
        else if cc = PROTOCOL_BINARY_CMD_STAT then Some v0_stat_command_handler
        else None),
      v1 = \<lparr>v1_add = None, v1_append = None, v1_decrement = None, v1_delete = None, v1_flush = None, v1_get = None, v1_increment = None,
            v1_noop = None, v1_prepend = None, v1_quit = None, v1_replace = None, v1_set = None, v1_stat = None, v1_version = None\<rparr>\<rparr>"

section \<open>The two interfaces\<close>

text \<open>What \<open>execute_command\<close> does with the result of a handler: an error is answered.\<close>

definition settled_codes :: "status set" where
  "settled_codes = {PROTOCOL_BINARY_RESPONSE_SUCCESS, PROTOCOL_BINARY_RESPONSE_EIO, PROTOCOL_BINARY_RESPONSE_PAUSE}"

definition then_answer :: "byte \<Rightarrow> byte list \<Rightarrow> raw_response \<Rightarrow> (status \<times> storage conn) option \<Rightarrow> (status \<times> storage conn) option" where
  "then_answer cc header response_handler result =
     Option.bind result (\<lambda>(rval, s).
       if rval \<in> settled_codes then Some (rval, s) else on_client (response_handler header (error_response cc rval header)) s)"

text \<open>Answering a failure does not fail itself, except for a broken connection.\<close>

definition settles :: "byte list \<Rightarrow> raw_response \<Rightarrow> memcached_protocol_client_st \<Rightarrow> bool" where
  "settles header response_handler c \<longleftrightarrow>
     (\<forall>rval r c'. rval \<notin> settled_codes \<longrightarrow>
        response_handler header (v0_response (req_opcode (request_at header)) rval 0 header) c = Some (r, c') \<longrightarrow> r \<in> settled_codes)"

definition same_commands :: "byte set" where
  "same_commands = {PROTOCOL_BINARY_CMD_SET, PROTOCOL_BINARY_CMD_SETQ, PROTOCOL_BINARY_CMD_ADD, PROTOCOL_BINARY_CMD_ADDQ,
     PROTOCOL_BINARY_CMD_REPLACE, PROTOCOL_BINARY_CMD_REPLACEQ, PROTOCOL_BINARY_CMD_DELETE, PROTOCOL_BINARY_CMD_DELETEQ,
     PROTOCOL_BINARY_CMD_APPEND, PROTOCOL_BINARY_CMD_APPENDQ, PROTOCOL_BINARY_CMD_PREPEND, PROTOCOL_BINARY_CMD_PREPENDQ,
     PROTOCOL_BINARY_CMD_FLUSH, PROTOCOL_BINARY_CMD_FLUSHQ, PROTOCOL_BINARY_CMD_NOOP, PROTOCOL_BINARY_CMD_QUIT, PROTOCOL_BINARY_CMD_QUITQ}"

lemma htonll_0 [simp]: "htonll 0 = 0"
  using ntohll_0 by (simp add: htonll_def ntohll_def)

lemma error_response_v0: "error_response cc rval header = v0_response cc rval 0 header"
  by (simp add: error_response_def v0_response_def zero_response_def)

lemma no_extras_v0: "no_extras cc header cas = v0_response cc PROTOCOL_BINARY_RESPONSE_SUCCESS cas header"
  by (simp add: no_extras_def v0_response_def ntohll_def htonll_def)

lemma then_answer_raw:
  assumes "settles header rh c" and "rval \<notin> settled_codes" and "req_opcode (request_at header) = cc"
  shows "then_answer cc header rh (on_client (rh header (v0_response cc rval 0 header)) (S, c)) =
    on_client (rh header (v0_response cc rval 0 header)) (S, c)"
proof (cases "rh header (v0_response cc rval 0 header) c")
  case None
  then show ?thesis by (simp add: then_answer_def on_client_def)
next
  case (Some p)
  then obtain r d where p: "rh header (v0_response cc rval 0 header) c = Some (r, d)" by (cases p) simp
  with assms have "r \<in> settled_codes" unfolding settles_def by blast
  with p show ?thesis by (simp add: then_answer_def on_client_def)
qed

lemma then_answer_some [simp]:
  "then_answer cc header rh (Some (rval, s)) =
     (if rval \<in> settled_codes then Some (rval, s) else on_client (rh header (error_response cc rval header)) s)"
  "then_answer cc header rh None = None"
  by (simp_all add: then_answer_def)

lemma settled_code_simps [simp]:
  "PROTOCOL_BINARY_RESPONSE_SUCCESS \<in> settled_codes" "PROTOCOL_BINARY_RESPONSE_EIO \<in> settled_codes"
  "PROTOCOL_BINARY_RESPONSE_KEY_EEXISTS \<notin> settled_codes" "PROTOCOL_BINARY_RESPONSE_KEY_ENOENT \<notin> settled_codes"
  "PROTOCOL_BINARY_RESPONSE_ENOMEM \<notin> settled_codes"
  by (simp_all add: settled_codes_def)

text \<open>The tail of the commands that store.\<close>

definition store_result ::
  "byte \<Rightarrow> byte list \<Rightarrow> raw_response \<Rightarrow> memcached_protocol_client_st \<Rightarrow> ((status \<times> u64) \<times> storage) option \<Rightarrow> (status \<times> storage conn) option" where
  "store_result loud header rh c result =
     Option.bind result (\<lambda>((rval, cas), S).
       if rval = PROTOCOL_BINARY_RESPONSE_SUCCESS \<and> req_opcode (request_at header) = loud
       then on_client (rh header (v0_response loud PROTOCOL_BINARY_RESPONSE_SUCCESS cas header)) (S, c)
       else Some (rval, S, c))"

lemma unat_wide: "unat (ucast (w :: u16) :: u32) = unat w" "unat (ucast (w :: u16) :: u64) = unat w" "unat (ucast (v :: u32) :: u64) = unat v"
  using unsigned_less [of w, where 'a = nat] unsigned_less [of v, where 'a = nat] by (simp_all add: unsigned_ucast_eq take_bit_nat_eq_self_iff)

lemma v0_datalen_short:
  assumes "unat (ntohs (req_keylen (request_at header))) + 8 \<le> unat (ntohl (req_bodylen (request_at header)))"
  shows "v0_datalen header = unat (ntohl (req_bodylen (request_at header)) - ucast (ntohs (req_keylen (request_at header))) - 8)"
proof -
  let ?b = "ntohl (req_bodylen (request_at header))" and ?k = "ntohs (req_keylen (request_at header))"
  have "unat (?b - ucast ?k - 8) = unat ?b - unat ?k - 8"
    using assms by (simp add: unat_sub word_le_nat_alt unat_wide)
  moreover have "unat ((ucast ?b :: u64) - ucast ?k - 8) = unat ?b - unat ?k - 8"
    using assms by (simp add: unat_sub word_le_nat_alt unat_wide)
  ultimately show ?thesis by (simp add: v0_datalen_def)
qed

lemma v0_store_answer:
  assumes "settles header rh c" and "unat (ntohs (req_keylen (request_at header))) + 8 \<le> unat (ntohl (req_bodylen (request_at header)))"
    and "req_opcode (request_at header) = cc"
  shows "then_answer cc header rh (v0_store A loud header fl timeout rh (S, c)) =
    then_answer cc header rh (store_result loud header rh c
      (create_and_put A (drop 32 header) (ntohs (req_keylen (request_at header))) (drop (unat (ntohs (req_keylen (request_at header)))) (drop 32 header))
         (ntohl (req_bodylen (request_at header)) - ucast (ntohs (req_keylen (request_at header))) - 8) fl timeout S))"
  unfolding v0_store_def store_result_def create_and_put_def put_and_cas_def Let_def v0_datalen_short [OF assms(2)] answer_with_def
  using assms(1,3) by (auto simp: then_answer_raw error_response_v0 Option.bind_assoc split: option.split Option.bind_split)

text \<open>The same commands behind the logical interface.\<close>

lemma answers_store:
  "Option.bind (on_app g (S, c)) (\<lambda>((rval, cas), s).
      if rval = PROTOCOL_BINARY_RESPONSE_SUCCESS \<and> req_opcode (request_at header) = loud
      then on_client (rh header (no_extras loud header cas)) s else Some (rval, s)) = store_result loud header rh c (g S)"
  by (cases "g S") (auto simp: on_app_def store_result_def no_extras_v0)

lemma store_result_simps [simp]:
  "store_result loud header rh c None = None"
  "rval \<noteq> PROTOCOL_BINARY_RESPONSE_SUCCESS \<Longrightarrow> store_result loud header rh c (Some ((rval, cas), S)) = Some (rval, S, c)"
  by (simp_all add: store_result_def)

lemma answer_failure:
  assumes "settles header rh c" and "req_opcode (request_at header) = cc" and "rval \<notin> settled_codes"
  shows "then_answer cc header rh (answer_with rh header rval 0 (S, c)) = then_answer cc header rh (Some (rval, S, c))"
  using assms by (simp add: answer_with_def then_answer_raw error_response_v0)

lemma then_answer_bind: "then_answer cc header rh (Option.bind x f) = Option.bind x (\<lambda>y. then_answer cc header rh (f y))"
  by (cases x) simp_all

lemma store_result_bind: "store_result loud header rh c (Option.bind x f) = Option.bind x (\<lambda>y. store_result loud header rh c (f y))"
  by (cases x) simp_all

text \<open>The requests on which the interfaces are compared: the lengths are not smaller than what they count.\<close>

definition sound_store :: "byte list \<Rightarrow> bool" where
  "sound_store header \<longleftrightarrow> 32 \<le> length header \<and>
     unat (ntohs (req_keylen (request_at header))) + 8 \<le> unat (ntohl (req_bodylen (request_at header)))"

lemma sound_storeD:
  assumes "sound_store header"
  shows "rd32 header 24 = Some (ld_le32 header 24)" "rd32 header 28 = Some (ld_le32 header 28)"
    "unat (ntohs (req_keylen (request_at header))) + 8 \<le> unat (ntohl (req_bodylen (request_at header)))"
  using assms by (simp_all add: sound_store_def rd32_def)

lemma set_agrees:
  assumes "settles header rh c" and "sound_store header" and "req_opcode (request_at header) = cc"
  shows "then_answer cc header rh (v0_set_command_handler A header rh (S, c)) =
    then_answer cc header rh (set_command_handler (interface_v1_impl A) header rh (S, c))"
proof -
  note store = v0_store_answer [OF assms(1) sound_storeD(3) [OF assms(2)] assms(3)]
  show ?thesis
    unfolding v0_set_command_handler_def Let_def sound_storeD(1,2) [OF assms(2)]
    apply (simp add: set_command_handler_def set_handler_def answers_store interface_v1_impl_def sound_storeD [OF assms(2)] Let_def
      then_answer_bind store_result_bind del: drop_drop)
    apply (rule Option.bind_cong [OF refl])
    apply (simp add: answer_failure [OF assms(1,3)] store then_answer_bind store_result_bind case_prod_beta del: drop_drop)
    done
qed

lemma replace_agrees:
  assumes "settles header rh c" and "sound_store header" and "req_opcode (request_at header) = cc"
  shows "then_answer cc header rh (v0_replace_command_handler A header rh (S, c)) =
    then_answer cc header rh (replace_command_handler (interface_v1_impl A) header rh (S, c))"
proof -
  note store = v0_store_answer [OF assms(1) sound_storeD(3) [OF assms(2)] assms(3)]
  show ?thesis
    unfolding v0_replace_command_handler_def Let_def sound_storeD(1,2) [OF assms(2)]
    apply (simp add: replace_command_handler_def replace_handler_def answers_store interface_v1_impl_def sound_storeD [OF assms(2)] Let_def
      then_answer_bind store_result_bind del: drop_drop)
    apply (rule Option.bind_cong [OF refl])
    apply (simp add: answer_failure [OF assms(1,3)] store then_answer_bind store_result_bind case_prod_beta del: drop_drop split: option.split)
    apply (intro allI impI Option.bind_cong refl)
    apply (simp add: answer_failure [OF assms(1,3)] store then_answer_bind store_result_bind case_prod_beta del: drop_drop)
    done
qed

lemma add_agrees:
  assumes "settles header rh c" and "sound_store header" and "req_opcode (request_at header) = cc"
  shows "then_answer cc header rh (v0_add_command_handler A header rh (S, c)) =
    then_answer cc header rh (add_command_handler (interface_v1_impl A) header rh (S, c))"
proof -
  note store = v0_store_answer [OF assms(1) sound_storeD(3) [OF assms(2)] assms(3)]
  show ?thesis
    unfolding v0_add_command_handler_def Let_def sound_storeD(1,2) [OF assms(2)]
    apply (simp add: add_command_handler_def add_handler_def answers_store interface_v1_impl_def sound_storeD [OF assms(2)] Let_def
      then_answer_bind store_result_bind del: drop_drop)
    apply (rule Option.bind_cong [OF refl])
    apply (simp add: answer_failure [OF assms(1,3)] store then_answer_bind store_result_bind case_prod_beta del: drop_drop split: option.split)
    done
qed

lemma bind_on_app: "Option.bind (on_app g (S, c)) f = Option.bind (g S) (\<lambda>(r, S'). f (r, (S', c)))"
  by (cases "g S") (auto simp: on_app_def)

lemma append_agrees:
  assumes "settles header rh c" and "req_opcode (request_at header) = cc"
    and "cc \<in> {PROTOCOL_BINARY_CMD_APPEND, PROTOCOL_BINARY_CMD_APPENDQ}"
  shows "then_answer cc header rh (v0_concat_command_handler A header rh (S, c)) =
    then_answer cc header rh (append_command_handler (interface_v1_impl A) header rh (S, c))"
  using assms(2,3)
  by (auto simp: append_command_handler_def append_handler_def bind_on_app interface_v1_impl_def Let_def v0_concat_command_handler_def
      answer_with_def no_extras_v0 intro!: arg_cong [where f = "then_answer _ header rh"] Option.bind_cong)

lemma prepend_agrees:
  assumes "settles header rh c" and "req_opcode (request_at header) = cc"
    and "cc \<in> {PROTOCOL_BINARY_CMD_PREPEND, PROTOCOL_BINARY_CMD_PREPENDQ}"
  shows "then_answer cc header rh (v0_concat_command_handler A header rh (S, c)) =
    then_answer cc header rh (prepend_command_handler (interface_v1_impl A) header rh (S, c))"
  using assms(2,3)
  by (auto simp: prepend_command_handler_def prepend_handler_def bind_on_app interface_v1_impl_def Let_def v0_concat_command_handler_def
      answer_with_def no_extras_v0 intro!: arg_cong [where f = "then_answer _ header rh"] Option.bind_cong)

lemma delete_agrees:
  assumes "settles header rh c" and "req_opcode (request_at header) = cc" and "req_cas (request_at header) = 0"
  shows "then_answer cc header rh (v0_delete_command_handler header rh (S, c)) =
    then_answer cc header rh (delete_command_handler (interface_v1_impl A) header rh (S, c))"
  unfolding v0_delete_command_handler_def delete_command_handler_def
  by (auto simp: delete_handler_def bind_on_app no_extras_v0 answer_with_def interface_v1_impl_def Let_def cas_differs_def assms(3) then_answer_bind
      then_answer_raw [OF assms(1) _ assms(2)] error_response_v0 assms(2) intro!: Option.bind_cong)

lemma flush_ignores_when: "flush_items w S = flush_items 0 S"
  by (simp add: flush_items_def)

lemma flush_agrees:
  assumes "settles header rh c" and "req_opcode (request_at header) = cc" and "28 \<le> length header"
  shows "then_answer cc header rh (v0_flush_command_handler header rh (S, c)) =
    then_answer cc header rh (flush_command_handler (interface_v1_impl A) header rh (S, c))"
  unfolding v0_flush_command_handler_def flush_command_handler_def
  using assms(3) by (cases "flush_items 0 S")
    (auto simp: flush_handler_def on_app_def interface_v1_impl_def Let_def rd32_def flush_ignores_when [of "ntohl _"] answer_with_def no_extras_v0)

lemma noop_agrees: "v0_noop_command_handler header rh s = noop_command_handler (interface_v1_impl A) header rh s"
  by (simp add: v0_noop_command_handler_def noop_command_handler_def interface_v1_impl_def noop_handler_def no_extras_v0)

lemma quit_agrees: "v0_quit_command_handler header rh s = quit_command_handler (interface_v1_impl A) header rh s"
  by (simp add: v0_quit_command_handler_def quit_command_handler_def interface_v1_impl_def quit_handler_def no_extras_v0)

lemma handlers_agree:
  assumes "settles header rh c" and "req_opcode (request_at header) = cc" and "cc \<in> same_commands" and "sound_store header"
    and "cc \<in> {PROTOCOL_BINARY_CMD_DELETE, PROTOCOL_BINARY_CMD_DELETEQ} \<longrightarrow> req_cas (request_at header) = 0"
  shows "\<exists>f g. v0 (interface_v0_impl A) cc = Some f \<and> comcode_v0_v1_remap E (interface_v1_impl A) cc = Some g \<and>
    then_answer cc header rh (f header rh (S, c)) = then_answer cc header rh (g header rh (S, c))"
proof -
  have len: "28 \<le> length header" using assms(4) by (simp add: sound_store_def)
  note [simp] = set_agrees [OF assms(1,4)] add_agrees [OF assms(1,4)] replace_agrees [OF assms(1,4)] append_agrees [OF assms(1)]
    prepend_agrees [OF assms(1)] noop_agrees [of header rh _ A] quit_agrees [of header rh _ A] delete_agrees [OF assms(1)]
    flush_agrees [OF assms(1)]
  show ?thesis
    using assms(2,3,5) len unfolding same_commands_def
    by (elim insertE emptyE) (auto simp: interface_v0_impl_def comcode_v0_v1_remap_def)
qed

text \<open>With enough memory an answer is spooled, whatever the socket does.\<close>

lemma cache_free_constructor: "cache_free realloc b p = Some q \<Longrightarrow> constructor q = constructor p"
  by (auto simp: cache_free_def free_block_def run_destructor_def Let_def split: if_splits option.splits prod.splits)

lemma accepted_root:
  "accepted E n c = Some d \<Longrightarrow> constructor (buffer_cache (root d)) = constructor (buffer_cache (root c))"
  by (auto simp: accepted_def Let_def set_cache_def dest!: cache_free_constructor split: list.splits if_splits)

lemma drain_root:
  "drain_output E c = Some (b, d) \<Longrightarrow> constructor (buffer_cache (root d)) = constructor (buffer_cache (root c))"
proof (induction "sends c" arbitrary: c)
  case Nil
  then show ?case by (subst (asm) drain_output.simps) (auto split: if_splits simp flip: Nil(1))
next
  case (Cons x xs)
  show ?case
  proof (cases "client_output c = []")
    case True
    with Cons.prems show ?thesis by (subst (asm) drain_output.simps) simp
  next
    case False
    then have step: "drain_output E c = (case x of
        Would_block \<Rightarrow> Some (True, c\<lparr>sends := xs\<rparr>)
      | Interrupted \<Rightarrow> drain_output E (c\<lparr>sends := xs\<rparr>)
      | Send_fails e \<Rightarrow> Some (False, c\<lparr>client_error := e, sends := xs\<rparr>)
      | Accepts n \<Rightarrow> (case accepted E n (c\<lparr>sends := xs\<rparr>) of None \<Rightarrow> None | Some c' \<Rightarrow> drain_output E c'))"
      by (subst drain_output.simps) (simp flip: Cons.hyps(2) split: send_outcome.split)
    show ?thesis
    proof (cases x)
      case (Accepts n)
      with Cons.prems step obtain e where e: "accepted E n (c\<lparr>sends := xs\<rparr>) = Some e" "drain_output E e = Some (b, d)"
        by (auto split: option.splits)
      with Cons.hyps(1) [of e] accepted_sends [OF e(1)] accepted_root [OF e(1)] show ?thesis by simp
    next
      case Interrupted
      with Cons.prems step Cons.hyps(1) [of "c\<lparr>sends := xs\<rparr>"] show ?thesis by simp
    qed (use Cons.prems step in auto)
  qed
qed

lemma direct_send_root: "root (snd (direct_send packet i c)) = root c"
proof (induction "sends c" arbitrary: c i)
  case Nil
  then show ?case by (subst direct_send.simps) (simp flip: Nil)
next
  case (Cons x xs)
  then show ?case by (subst direct_send.simps) (auto simp: Let_def simp flip: Cons.hyps(2) split: send_outcome.split)
qed

lemma spool_succeeds:
  assumes "\<And>n. env_malloc E n" and "constructor (buffer_cache (root c)) = None"
  shows "spool_mem E c data n = Some (r, d) \<Longrightarrow> r = PROTOCOL_BINARY_RESPONSE_SUCCESS"
  using spool_loop_succeeds [OF assms] by (auto simp: spool_mem_def spool_output_def split: if_splits dest: arg_cong [of _ _ fst])

lemma failure_pedantic:
  assumes "rval \<notin> settled_codes"
  shows "pedantic_check_response (request_at header) (response_at (v0_response opcode rval 0 header))"
  using assms by (simp add: pedantic_check_response_def v0_response_def zero_response_def settled_codes_def)

lemma raw_settles:
  assumes "\<And>n. env_malloc E n" and "constructor (buffer_cache (root c)) = None"
  shows "settles header (raw_response_handler E) c"
  unfolding settles_def
proof (intro allI impI)
  fix rval r c'
  let ?response = "v0_response (req_opcode (request_at header)) rval 0 header"
  assume "rval \<notin> settled_codes" and run: "raw_response_handler E header ?response c = Some (r, c')"
  then have check: "pedantic_check_response (request_at header) (response_at ?response)" by (intro failure_pedantic)
  from run check obtain ok d where drain: "drain_output E c = Some (ok, d)"
    by (cases "drain_output E c") (auto simp: raw_response_handler_def split: if_splits)
  have d: "constructor (buffer_cache (root d)) = None" using drain_root [OF drain] assms(2) by simp
  show "r \<in> settled_codes"
  proof (cases "ok \<and> client_output d = []")
    case True
    obtain sent e where send: "direct_send (take (24 + unat (htonl (res_bodylen (response_at ?response)))) ?response) 0 d = (sent, e)"
      by (cases "direct_send (take (24 + unat (htonl (res_bodylen (response_at ?response)))) ?response) 0 d")
    have e: "constructor (buffer_cache (root e)) = None" using d direct_send_root [of _ 0 d] send by (metis snd_conv)
    from run check drain True send show ?thesis
      by (cases sent) (auto simp: raw_response_handler_def Let_def dest: spool_succeeds [OF assms(1) e] split: if_splits)
  next
    case False
    with run check drain show ?thesis
      by (auto simp: raw_response_handler_def Let_def dest: spool_succeeds [OF assms(1) d] split: if_splits)
  qed
qed

lemma execute_then_answer:
  "v0 (interface_v0_impl A) (req_opcode (request_at header)) = Some f \<Longrightarrow> execute_command E (interface_v0_impl A) header s =
     then_answer (req_opcode (request_at header)) header (raw_response_handler E) (f header (raw_response_handler E) s)"
  "comcode_v0_v1_remap E (interface_v1_impl A) (req_opcode (request_at header)) = Some g \<Longrightarrow> execute_command E (interface_v1_impl A) header s =
     then_answer (req_opcode (request_at header)) header (raw_response_handler E) (g header (raw_response_handler E) s)"
proof -
  have "interface_version (interface_v0_impl A) = 0" "pre_execute (interface_v0_impl A) = None" "post_execute (interface_v0_impl A) = None"
    "unknown (interface_v0_impl A) = None" "interface_version (interface_v1_impl A) = 1" "pre_execute (interface_v1_impl A) = None"
    "post_execute (interface_v1_impl A) = None" "unknown (interface_v1_impl A) = None"
    by (simp_all add: interface_v0_impl_def interface_v1_impl_def)
  then show "v0 (interface_v0_impl A) (req_opcode (request_at header)) = Some f \<Longrightarrow> execute_command E (interface_v0_impl A) header s =
     then_answer (req_opcode (request_at header)) header (raw_response_handler E) (f header (raw_response_handler E) s)"
    "comcode_v0_v1_remap E (interface_v1_impl A) (req_opcode (request_at header)) = Some g \<Longrightarrow> execute_command E (interface_v1_impl A) header s =
     then_answer (req_opcode (request_at header)) header (raw_response_handler E) (g header (raw_response_handler E) s)"
    by (cases "f header (raw_response_handler E) s"; cases "g header (raw_response_handler E) s",
        auto simp: execute_command_def execute_handler_def then_answer_def settled_codes_def Let_def)+
qed



end
