(* ===== verification/Light_Server.thy ===== *)
theory Light_Server
  imports Light_V1 Client_Roundtrip
begin

text \<open>
  The whole system: the client of \<open>libmemcached\<close>, the protocol server of \<open>libmemcachedprotocol\<close> and the example application with its
  storage. A value that one client stores is the value that another client gets.
\<close>

section \<open>The application for the protocol server\<close>

lemma interface_v1_callbacks [simp]:
  "v1_set (v1 (interface_v1_impl A)) = Some (set_handler A)" "v1_add (v1 (interface_v1_impl A)) = Some (add_handler A)"
  "v1_replace (v1 (interface_v1_impl A)) = Some (replace_handler A)" "v1_append (v1 (interface_v1_impl A)) = Some (append_handler A)"
  "v1_prepend (v1 (interface_v1_impl A)) = Some (prepend_handler A)" "v1_get (v1 (interface_v1_impl A)) = Some get_handler"
  by (simp_all add: interface_v1_impl_def)

lemma on_app_client: "on_app f s = Some (r, s') \<Longrightarrow> snd s' = snd s"
  by (auto simp: on_app_def)

lemma interface_v1_tidy: "tidy (v1 (interface_v1_impl A))"
proof -
  have same: "buffer s' = buffer s \<and> ascii_command (snd s') = ascii_command (snd s)" if "snd s' = snd s" for s s' :: "storage conn"
    using that by (simp add: buffer_def)
  show ?thesis
    unfolding tidy_def
  proof (intro allI impI same)
    fix cmd key nkey data n fl timeout cas r and s s' :: "storage conn"
    assume "store_callback (v1 (interface_v1_impl A)) cmd key nkey data n fl timeout cas s = Some (r, s')"
    then show "snd s' = snd s"
      by (cases cmd) (auto simp: store_callback_def set_handler_def add_handler_def replace_handler_def append_handler_def prepend_handler_def
          dest: on_app_client)
  qed
qed

text \<open>What the storage holds is handed out.\<close>

lemma get_hands_out:
  assumes "storage_inv {} S" and "contents S word = Some i" and "length word < 2 ^ 16"
  shows "hands_out S get_handler word (it_data i) (it_flags i) (it_cas i)"
  unfolding hands_out_def
proof (intro allI impI)
  fix k resp and s :: "storage conn"
  assume s: "fst s = S" and k: "take (length word) k = word"
  have len: "unat (of_nat (length word) :: u16) = length word" using assms(3) by (simp add: unat_of_nat)
  have "length word \<le> length k" using k by (metis length_take min.cobounded1)
  from get_item_contents [OF assms(1) this] obtain r where
    r: "get_item k (length word) S = Some r" "contents S (take (length word) k) = Option.bind r (\<lambda>a. item_at a S)" by blast
  then obtain a where "r = Some a" "item_at a S = Some i" using assms(2) k by (cases r) auto
  with r have "get_item k (length word) S = Some (Some a)" "item_at a S = Some i" by auto
  then show "get_handler k (of_nat (length word)) resp s =
      on_client (resp k (of_nat (length word)) (it_data i) (of_nat (length (it_data i))) (it_flags i) (it_cas i)) s"
    by (simp add: get_handler_def s len)
qed

text \<open>There is memory: \<open>calloc\<close> and \<open>malloc\<close> do not fail.\<close>

definition plenty :: "storage_env \<Rightarrow> bool" where
  "plenty A \<longleftrightarrow> storage_env_ok A \<and> (\<forall>h. finite (dom h) \<longrightarrow> new_entry A h \<noteq> None) \<and> (\<forall>n. new_block A n \<noteq> None)"

lemma plenty_creates:
  assumes "plenty A" and "storage_inv {} S"
  shows "create_item A key nkey data n fl e S \<noteq> Some (None, S)"
proof -
  have "finite (dom (st_entries S))" using assms(2) by (auto simp: storage_inv_def holds_def)
  then obtain a where "new_entry A (st_entries S) = Some a" using assms(1) by (auto simp: plenty_def)
  moreover obtain k d where "new_block A nkey = Some k" "new_block A n = Some d" using assms(1) by (metis plenty_def not_None_eq)
  ultimately show ?thesis by (auto simp: create_item_def split: option.split if_splits)
qed

lemma set_stores:
  assumes "plenty A" and "storage_inv {} S" and "unat kl \<le> length key" and "unat n \<le> length data"
  shows "\<exists>S'. set_handler A key kl data n fl e 0 (S, c) = Some ((PROTOCOL_BINARY_RESPONSE_SUCCESS, st_cas S + 1), S', c) \<and> storage_inv {} S' \<and>
    contents S' = (contents S)(take (unat kl) key \<mapsto> new_item (take (unat kl) key) (take (unat n) data) fl (ucast e) (st_cas S + 1))"
proof -
  have inv: "store_inv A {} S" using assms(1,2) by (simp add: store_inv_def plenty_def)
  from light.erase_law [OF inv assms(3)] obtain t where
    t: "delete_item key (unat kl) S = Some (contents S (take (unat kl) key) \<noteq> None, t)" "store_inv A {} t" "st_cas t = st_cas S"
      "contents t = (contents S)(take (unat kl) key := None)" by auto
  then have "contents t (take (unat kl) key) = None" by simp
  from light.create_insert [OF t(2) assms(3,4) this, of fl "ucast e"] plenty_creates [OF assms(1), of t] t show ?thesis
    by (auto simp: set_handler_def on_app_def cas_differs_def create_and_put_def put_and_cas_def store_inv_def)
qed

section \<open>Storing and getting\<close>

text \<open>A client whose connection \<open>i\<close> is ready to store, and one that is ready to get.\<close>

definition ready_to_set :: "client_env \<Rightarrow> client_st \<Rightarrow> byte list \<Rightarrow> byte list \<Rightarrow> u64 \<Rightarrow> u32 \<Rightarrow> nat \<Rightarrow> client_st \<Rightarrow> bool" where
  "ready_to_set E c key data exptime fl i c1 \<longleftrightarrow>
     memcached_validate_key_length (length key) False = MEMCACHED_SUCCESS \<and> memcached_server_count (c_memc c) \<noteq> 0 \<and>
     (verify_key (flags (c_memc c)) \<longrightarrow> memcached_key_test [key] = MEMCACHED_SUCCESS) \<and> \<not> binary_protocol (flags (c_memc c)) \<and>
     locate E key c = Some (i, c1) \<and> flags (c_memc c1) = flags (c_memc c) \<and> one_by_one (flags (c_memc c)) \<and>
     length (text_line (c_memc c1) key (length data) exptime fl SET_OP) < MEMCACHED_DEFAULT_COMMAND_SIZE \<and>
     idle i (length (storage_message (c_memc c1) key data exptime fl SET_OP)) c1"

definition ready_to_get :: "client_env \<Rightarrow> client_st \<Rightarrow> byte list \<Rightarrow> byte list \<Rightarrow> u32 \<Rightarrow> nat \<Rightarrow> client_st \<Rightarrow> bool" where
  "ready_to_get E c key data fl i c1 \<longleftrightarrow>
     memcached_server_count (c_memc c) \<noteq> 0 \<and> (verify_key (flags (c_memc c)) \<longrightarrow> memcached_key_test [key] = MEMCACHED_SUCCESS) \<and>
     \<not> binary_protocol (flags (c_memc c)) \<and> one_by_one (flags (c_memc c)) \<and> \<not> support_cas (flags (c_memc c)) \<and>
     locate E key c = Some (i, c1) \<and> c_memc c1 = c_memc c \<and> lone i c1 \<and> 1 < io_msg_watermark (c_memc c) \<and>
     idle i (length (get_line (c_memc c) key)) c1 \<and> word_fits (c_memc c) key fl (length data) \<and>
     room_for (ce_io E) (length data) (result (c_memc c)) \<and> ce_malloc E (length data + 1)"

text \<open>The line of the client is executed by the server and stores the value.\<close>

lemma set_line_stores:
  assumes "plenty A" and "storage_inv {} (fst s)" and "\<not> no_reply (flags m)" and "key_ok (prefix_of m @ key)"
    and "buffer s = storage_message m key data exptime fl SET_OP @ tail" and "roomy S (length stored_line) (snd s)"
    and "unat exptime < 2 ^ 32" and "length data < 2 ^ 32" and "length (text_line m key (length data) exptime fl SET_OP) < MEMCACHED_DEFAULT_COMMAND_SIZE"
  shows "\<exists>t. memcached_ascii_protocol_process_data S (v1 (interface_v1_impl A)) (length (storage_message m key data exptime fl SET_OP)) s =
      Some (MEMCACHED_PROTOCOL_READ_EVENT, 0, length (storage_message m key data exptime fl SET_OP), t) \<and>
    pending (snd t) = pending (snd s) @ stored_line \<and> storage_inv {} (fst t) \<and>
    contents (fst t) = (contents (fst s))(prefix_of m @ key \<mapsto> new_item (prefix_of m @ key) data fl (ucast (ucast exptime :: u32)) (st_cas (fst s) + 1))"
proof -
  let ?word = "prefix_of m @ key" and ?cb = "v1 (interface_v1_impl A)"
  let ?ws = "store_words SET_CMD ?word (unat fl) (unat exptime) (length data)" and ?rest = "data @ crlf @ tail"
  let ?k = "key_memory ?word (unat fl) (unat exptime) (length data) ?rest"
  let ?s = "set_line_state SET_CMD (store_at [] SET_CMD ?word (unat fl) (unat exptime) (length data) ?rest) s"
  have message: "storage_message m key data exptime fl SET_OP = store_message ?ws data"
    using text_line_words [of SET_OP m key data exptime fl] assms(3) by simp
  have plain: "SET_CMD \<in> plain_storage" by (simp add: plain_storage_def)
  have fl: "unat fl < 2 ^ 32" using unsigned_less [of fl] by simp
  have "length (text_line m key (length data) exptime fl SET_OP @ data @ [13, 10]) = length (joined ?ws) + length data + 3"
    by (simp only: message [unfolded storage_message_def] length_store_message)
  then have "length (joined ?ws) < 2 ^ 32" using assms(9) by (simp add: MEMCACHED_DEFAULT_COMMAND_SIZE_def)
  note run = store_message_run [OF plain _ assms(4) interface_v1_tidy store_line_words [OF plain assms(4)] assms(5) [unfolded message]
      fl assms(7,8) this, of A S]
  have word: "take (length ?word) ?k = ?word" "length ?word \<le> length ?k" by (simp_all add: key_memory_def)
  have len: "unat (of_nat (length ?word) :: u16) = length ?word" "unat (of_nat (length data) :: u32) = length data"
    using assms(4,8) by (simp_all add: key_ok_def unat_of_nat del: length_append of_nat_add)
  obtain c where c: "?s = (fst s, c)" "pending c = pending (snd s)" "roomy S (length stored_line) c"
    using assms(6) by (auto simp: set_line_state_def set_mute_def set_buffer_def set_ascii_command_def pending_def roomy_def)
  from set_stores [OF assms(1,2), of "of_nat (length ?word)" ?k "of_nat (length data)" ?rest fl "ucast exptime" c] obtain S' where
    S': "set_handler A ?k (of_nat (length ?word)) ?rest (of_nat (length data)) fl (ucast exptime) 0 (fst s, c) =
        Some ((PROTOCOL_BINARY_RESPONSE_SUCCESS, st_cas (fst s) + 1), S', c)" "storage_inv {} S'"
      "contents S' = (contents (fst s))(?word \<mapsto> new_item ?word data fl (ucast (ucast exptime :: u32)) (st_cas (fst s) + 1))"
    using word unfolding len by auto
  have numbers: "of_nat (unat fl) = fl" "of_nat (unat exptime) = (ucast exptime :: u32)" by (simp_all add: unsigned_of_nat)
  have called: "store_callback ?cb SET_CMD ?k (of_nat (length ?word)) ?rest (of_nat (length data)) (of_nat (unat fl))
      (of_nat (unat exptime)) 0 ?s = Some ((PROTOCOL_BINARY_RESPONSE_SUCCESS, st_cas (fst s) + 1), S', c)"
    unfolding numbers c(1) by (simp add: store_callback_def S'(1) del: length_append of_nat_add)
  have answer: "store_answer SET_CMD PROTOCOL_BINARY_RESPONSE_SUCCESS = stored_line"
    by (simp add: store_answer_def stored_line_def crlf_def)
  have "roomy S (length stored_line + 0) (snd (S', c))" using c(3) by simp
  from roomy_say [OF this] obtain d where "say S stored_line (S', c) = (S', d)" "pending d = pending (snd s) @ stored_line"
    using c(2) by auto
  then show ?thesis
    unfolding message using run called S'(2,3) by (simp add: has_callback_def answer del: length_append of_nat_add)
qed


section \<open>Witness\<close>

text \<open>Entries at the first free address.\<close>

definition endless_memory :: storage_env where
  "endless_memory = \<lparr>new_entry = (\<lambda>h. if finite (dom h) then Some (LEAST a. h a = None) else None), new_block = (\<lambda>n. Some (replicate n 0))\<rparr>"

lemma endless_memory_plenty: "plenty endless_memory"
proof -
  have "h (LEAST a. h a = None) = None" if fin: "finite (dom h)" for h :: "nat \<Rightarrow> list_entry option"
  proof -
    obtain a where "a \<notin> dom h" using ex_new_if_finite [OF infinite_UNIV_nat fin] by blast
    then show ?thesis by (intro LeastI [of "\<lambda>a. h a = None" a]) auto
  qed
  then show ?thesis by (simp add: plenty_def storage_env_ok_def endless_memory_def)
qed


end
