(* ===== verification/Light_Faults.thy ===== *)
theory Light_Faults
  imports Light_V0 Light_Server
begin

text \<open>
  What stored data does to commands that expect other data: the counters of \<open>example/interface_v1.c\<close> and the packet of a value in
  \<open>example/interface_v0.c\<close>.
\<close>

lemma stored_item:
  assumes "storage_inv {} S" and "contents S (take n key) = Some i" and "n \<le> length key"
  shows "\<exists>a. get_item key n S = Some (Some a) \<and> item_at a S = Some i"
proof -
  have "store_inv (\<lparr>new_entry = \<lambda>h. None, new_block = \<lambda>n. None\<rparr>) {} S" using assms(1) by (simp add: store_inv_def storage_env_ok_def)
  from light.lookup_cases [OF this assms(3)] assms(2) show ?thesis by force
qed

lemma short_count:
  assumes "storage_inv {} S" and "contents S (take (unat kl) key) = Some i" and "unat kl \<le> length key" and "length (it_data i) < 8"
  shows "count_item step copy_key A key kl initial e S = None"
proof -
  from stored_item [OF assms(1-3)] obtain a where a: "get_item key (unat kl) S = Some (Some a)" "item_at a S = Some i" by blast
  then show ?thesis using assms(4) by (simp add: count_item_def rd64_def)
qed

text \<open>
  data of fewer than eight bytes that a client has stored is read as a counter of eight bytes: incrementing or decrementing it reads
  behind the block that was allocated for it.
\<close>

lemma short_counter_undefined:
  assumes "storage_inv {} S" and "contents S (take (unat kl) key) = Some i" and "unat kl \<le> length key" and "length (it_data i) < 8"
  shows "increment_handler A key kl delta initial e (S, c) = None \<and> decrement_handler A key kl delta initial e (S, c) = None"
  using short_count [OF assms] by (simp add: increment_handler_def decrement_handler_def on_app_def)

text \<open>
  a value that leaves no room for the header in 4096 bytes is copied behind the array in which the response is put together, so that
  any client can store a value that breaks the server when it is asked for.
\<close>

lemma long_value_overruns:
  assumes "storage_inv {} S" and "contents S (take (unat (ntohs (req_keylen (request_at header)))) (drop 24 header)) = Some i"
    and "unat (ntohs (req_keylen (request_at header))) \<le> length (drop 24 header)" and "4068 < length (it_data i)"
  shows "v0_get_command_handler header response_handler (S, c) = None"
proof -
  from stored_item [OF assms(1-3)] obtain a where
    a: "get_item (drop 24 header) (unat (ntohs (req_keylen (request_at header)))) S = Some (Some a)" "item_at a S = Some i" by blast
  moreover have "get_packet header i = None" using assms(4) by (simp add: get_packet_def Let_def)
  ultimately show ?thesis by (simp add: v0_get_command_handler_def)
qed

section \<open>Witnesses\<close>

text \<open>A client that has stored so many bytes under the key \<open>k\<close>.\<close>

lemma stored_under_k:
  assumes "n < 2 ^ 32"
  shows "\<exists>S c. set_handler endless_memory [107] 1 (replicate n 97) (of_nat n) 0 0 0 (empty_storage, new_client) =
      Some ((PROTOCOL_BINARY_RESPONSE_SUCCESS, 1), S, c) \<and> storage_inv {} S \<and>
    contents S [107] = Some (new_item [107] (replicate n 97) 0 0 1)"
proof -
  have "storage_inv {} empty_storage" "st_cas empty_storage = 0" by simp_all
  moreover have "unat (of_nat n :: u32) = n" using assms by (simp add: unsigned_of_nat take_bit_nat_eq_self)
  ultimately show ?thesis
    using set_stores [OF endless_memory_plenty, of empty_storage 1 "[107]" "of_nat n" "replicate n 97" 0 0 new_client] by force
qed

lemma short_counter_undefined_witness:
  "\<exists>S c. set_handler endless_memory [107] 1 (replicate 1 97) 1 0 0 0 (empty_storage, new_client) =
      Some ((PROTOCOL_BINARY_RESPONSE_SUCCESS, 1), S, c) \<and>
    increment_handler endless_memory [107] 1 1 0 0 (S, c) = None \<and> decrement_handler endless_memory [107] 1 1 0 0 (S, c) = None"
proof -
  from stored_under_k [of 1] obtain S c where
    s: "set_handler endless_memory [107] 1 (replicate 1 97) 1 0 0 0 (empty_storage, new_client) = Some ((PROTOCOL_BINARY_RESPONSE_SUCCESS, 1), S, c)"
      "storage_inv {} S" "contents S [107] = Some (new_item [107] (replicate 1 97) 0 0 1)" by auto
  have "contents S (take (unat (1 :: u16)) [107]) = Some (new_item [107] (replicate 1 97) 0 0 1)" using s(3) by simp
  from short_counter_undefined [OF s(2) this] s(1) show ?thesis by (auto simp: new_item_def)
qed

text \<open>The packet that asks for \<open>k\<close>.\<close>

lemma long_value_overruns_witness:
  "\<exists>S c. set_handler endless_memory [107] 1 (replicate 5000 97) 5000 0 0 0 (empty_storage, new_client) =
      Some ((PROTOCOL_BINARY_RESPONSE_SUCCESS, 1), S, c) \<and>
    v0_get_command_handler [0x80, 0, 0, 1, 0, 0, 0, 0, 0, 0, 0, 1, 0, 0, 0, 0, 0, 0, 0, 0, 0, 0, 0, 0, 107] (raw_response_handler all_memory) (S, c) = None"
proof -
  let ?h = "[0x80, 0, 0, 1, 0, 0, 0, 0, 0, 0, 0, 1, 0, 0, 0, 0, 0, 0, 0, 0, 0, 0, 0, 0, 107] :: byte list"
  from stored_under_k [of 5000] obtain S c where
    s: "set_handler endless_memory [107] 1 (replicate 5000 97) 5000 0 0 0 (empty_storage, new_client) = Some ((PROTOCOL_BINARY_RESPONSE_SUCCESS, 1), S, c)"
      "storage_inv {} S" "contents S [107] = Some (new_item [107] (replicate 5000 97) 0 0 1)" by auto
  have h: "unat (ntohs (req_keylen (request_at ?h))) = 1" "drop 24 ?h = [107]"
    by (simp_all add: request_at_def ld_le16_def le16_def ntohs_def bswap16_def byte_of_def)
  from long_value_overruns [OF s(2), of ?h] s(1,3) h show ?thesis by (auto simp: new_item_def)
qed

end
