(* ===== verification/Light_Main.thy ===== *)
theory Light_Main
  imports Light_V0 Protocol_Client
begin

text \<open>
  The event loop of the example server, \<open>example/memcached_light.c\<close>: the descriptors it waits for, the connections and the
  clients they lead to. A step delivers one event; what the sockets answer during the event, which allocations succeed and whether
  the event library takes a new event are given with it. What is printed is left out.
\<close>

section \<open>State\<close>

datatype callback = Accept_handler | Drive_client

record interest =
  int_callback :: callback
  int_read :: bool
  int_write :: bool

text \<open>What the data of a connection points to: the protocol handle, for a server socket, or a client.\<close>

datatype connection = Handle | Client nat

text \<open>
  The clients are kept in memory by address, where one that has been destroyed is missing, and share the protocol handle.
  \<open>open_sockets\<close> are the descriptors that are not closed.
\<close>

record light_st =
  handle :: memcached_protocol_st
  items :: storage
  socket_userdata_map :: "nat \<rightharpoonup> connection"
  clients :: "nat \<rightharpoonup> memcached_protocol_client_st"
  events :: "nat \<rightharpoonup> interest"
  open_sockets :: "nat set"

section \<open>The callbacks of the protocol server\<close>

definition comcode2str :: "byte \<Rightarrow> string option" where
  "comcode2str cmd =
     (let names = [''GET'', ''SET'', ''ADD'', ''REPLACE'', ''DELETE'', ''INCREMENT'', ''DECREMENT'', ''QUIT'', ''FLUSH'',
        ''GETQ'', ''NOOP'', ''VERSION'', ''GETK'', ''GETKQ'', ''APPEND'', ''PREPEND'', ''STAT'', ''SETQ'', ''ADDQ'',
        ''REPLACEQ'', ''DELETEQ'', ''INCREMENTQ'', ''DECREMENTQ'', ''QUITQ'', ''FLUSHQ'', ''APPENDQ'', ''PREPENDQ'']
      in if cmd \<le> PROTOCOL_BINARY_CMD_PREPENDQ then Some (names ! unat cmd) else None)"

definition unknown_command :: "storage command_handler" where
  "unknown_command header response_handler = answer_with response_handler header PROTOCOL_BINARY_RESPONSE_UNKNOWN_COMMAND 0"

text \<open>The table of the interface that was chosen, with the functions that trace the commands.\<close>

definition light_callbacks :: "bool \<Rightarrow> storage_env \<Rightarrow> storage callback_st" where
  "light_callbacks logical A =
     (if logical then interface_v1_impl A else interface_v0_impl A)
       \<lparr>pre_execute := Some (\<lambda>header s. s), post_execute := Some (\<lambda>header s. s), unknown := Some unknown_command\<rparr>"

section \<open>Connections\<close>

definition close_socket :: "nat \<Rightarrow> light_st \<Rightarrow> light_st" where
  "close_socket fd s = s\<lparr>open_sockets := open_sockets s - {fd}\<rparr>"

text \<open>\<open>memcached_protocol_client_destroy(c); close(fd);\<close> where the client at \<open>a\<close> must not have been destroyed before.\<close>

definition drop_client :: "nat \<Rightarrow> nat \<Rightarrow> light_st \<Rightarrow> light_st option" where
  "drop_client a fd s =
     (if clients s a = None then None else Some (close_socket fd (s\<lparr>clients := (clients s)(a := None)\<rparr>)))"

text \<open>What happens outside of the program during one event.\<close>

record light_env =
  le_proto :: proto_env
  le_recvs :: "recv_outcome list"
  le_sends :: "send_outcome list"
  le_added :: bool

definition wait_for :: "bool \<Rightarrow> interest \<Rightarrow> nat \<Rightarrow> nat \<Rightarrow> light_st \<Rightarrow> light_st option" where
  "wait_for added i a fd s =
     (if added then Some (s\<lparr>events := (events s)(fd \<mapsto> i)\<rparr>) else drop_client a fd s)"

text \<open>
  The event of a client is not persistent: it is not waited for again unless it is added. \<open>None\<close>: the assertion fails, the data of the
  connection is not a client or one that was destroyed, or the work of the client is undefined.
\<close>

definition drive_client :: "storage callback_st \<Rightarrow> light_env \<Rightarrow> nat \<Rightarrow> light_st \<Rightarrow> light_st option" where
  "drive_client cb E fd s =
     (case socket_userdata_map s fd of
        Some (Client a) \<Rightarrow>
          (case clients s a of
             Some c \<Rightarrow> do {
               (ev, S, c) \<leftarrow> memcached_protocol_client_work (le_proto E) cb
                  (items s, c\<lparr>root := handle s, recvs := le_recvs E, sends := le_sends E\<rparr>);
               let s = s\<lparr>items := S, handle := root c, clients := (clients s)(a \<mapsto> c)\<rparr>;
               if ev AND MEMCACHED_PROTOCOL_ERROR_EVENT \<noteq> 0 then drop_client a fd s
               else wait_for (le_added E)
                      (\<lparr>int_callback = Drive_client, int_read = (ev AND MEMCACHED_PROTOCOL_READ_EVENT \<noteq> 0),
                       int_write = (ev AND MEMCACHED_PROTOCOL_WRITE_EVENT \<noteq> 0)\<rparr>) a fd s
             }
           | None \<Rightarrow> None)
      | _ \<Rightarrow> None)"

text \<open>
  \<open>arrived\<close> is the descriptor of the new connection, and \<open>room\<close> the address of a new client, where there is memory for one.
  \<open>None\<close>: the data of the server socket is not the protocol handle.
\<close>

definition accept_handler :: "int \<Rightarrow> bool \<Rightarrow> nat option \<Rightarrow> nat option \<Rightarrow> nat \<Rightarrow> light_st \<Rightarrow> light_st option" where
  "accept_handler maxconns added arrived room fd s =
     (if socket_userdata_map s fd \<noteq> Some Handle then None
      else case arrived of
        None \<Rightarrow> Some s
      | Some sock \<Rightarrow>
          let s = s\<lparr>open_sockets := insert sock (open_sockets s)\<rparr>
          in if int sock \<ge> maxconns then Some (close_socket sock s)
             else case room of
               None \<Rightarrow> Some (close_socket sock s)
             | Some a \<Rightarrow> do {
                 c \<leftarrow> memcached_protocol_create_client True (handle s) [] [];
                 let s = s\<lparr>clients := (clients s)(a \<mapsto> c), socket_userdata_map := (socket_userdata_map s)(sock \<mapsto> Client a)\<rparr>;
                 wait_for added (\<lparr>int_callback = Drive_client, int_read = True, int_write = False\<rparr>) a sock s
               })"

section \<open>Starting\<close>

text \<open>
  What the operating system says about one address: the new socket, whether its flags can be read and whether they say that it does
  not block, whether that can be changed, the error of \<open>bind\<close> and whether \<open>listen\<close> succeeds. The options of the socket are set in
  between; their failure is printed only. \<open>None\<close>: the list of addresses is read after it has been freed, or the array is full.
\<close>

record address_answer =
  aa_socket :: "nat option"
  aa_flags :: "bool option"
  aa_set_nonblock :: bool
  aa_bind :: "int option"
  aa_listen :: bool

definition EADDRINUSE :: int where "EADDRINUSE = 98"

fun server_socket_loop :: "address_answer list \<Rightarrow> nat list \<Rightarrow> nat list option" where
  "server_socket_loop [] socks = Some socks"
| "server_socket_loop (x # xs) socks =
     (case aa_socket x of
        None \<Rightarrow> server_socket_loop xs socks
      | Some sock \<Rightarrow>
          case aa_flags x of
            None \<Rightarrow> server_socket_loop xs socks
          | Some nonblock \<Rightarrow>
              if \<not> nonblock \<and> \<not> aa_set_nonblock x then server_socket_loop xs socks
              else case aa_bind x of
                Some e \<Rightarrow> if e \<noteq> EADDRINUSE then None else server_socket_loop xs socks
              | None \<Rightarrow> if \<not> aa_listen x then server_socket_loop xs socks
                        else if length socks < 1024 then server_socket_loop xs (socks @ [sock]) else None)"

text \<open>\<open>answers\<close> is \<open>None\<close> when the name cannot be looked up. The result is whether there is no socket, and the array.\<close>

definition server_socket :: "address_answer list option \<Rightarrow> nat list \<Rightarrow> (bool \<times> nat list) option" where
  "server_socket answers socks =
     (case answers of
        None \<Rightarrow> Some (True, socks)
      | Some xs \<Rightarrow> map_option (\<lambda>socks. (socks = [], socks)) (server_socket_loop xs socks))"

text \<open>
  The end of \<open>main\<close>: the server sockets get their events, of which \<open>added\<close> tells which are taken. The table of the connections has
  \<open>maxconns\<close> entries; \<open>None\<close>: a server socket is not an index of it.
\<close>

definition listen_on :: "int \<Rightarrow> (nat \<Rightarrow> bool) \<Rightarrow> nat \<Rightarrow> light_st \<Rightarrow> light_st option" where
  "listen_on maxconns added fd s =
     (if int fd \<ge> maxconns then None
      else let s = s\<lparr>socket_userdata_map := (socket_userdata_map s)(fd \<mapsto> Handle)\<rparr>
           in if added fd then Some (s\<lparr>events := (events s)(fd \<mapsto> \<lparr>int_callback = Accept_handler, int_read = True, int_write = False\<rparr>)\<rparr>)
              else Some (close_socket fd s))"

fun listen_all :: "int \<Rightarrow> (nat \<Rightarrow> bool) \<Rightarrow> nat list \<Rightarrow> light_st \<Rightarrow> light_st option" where
  "listen_all maxconns added [] s = Some s"
| "listen_all maxconns added (fd # fds) s = Option.bind (listen_on maxconns added fd s) (listen_all maxconns added fds)"

text \<open>Without a server socket the program ends with status 1.\<close>

definition start_server :: "int \<Rightarrow> (nat \<Rightarrow> bool) \<Rightarrow> memcached_protocol_st \<Rightarrow> storage \<Rightarrow> nat list \<Rightarrow> (int + light_st) option" where
  "start_server maxconns added instance' S socks =
     (if socks = [] then Some (Inl 1)
      else map_option Inr (listen_all maxconns added socks
        (\<lparr>handle = memcached_binary_protocol_set_pedantic instance' True, items = S, socket_userdata_map = Map.empty,
          clients = Map.empty, events = Map.empty, open_sockets = set socks\<rparr>)))"

section \<open>Steps\<close>

text \<open>A new connection gets a descriptor that is not open, and a new client memory that is not in use.\<close>

inductive light_step :: "storage callback_st \<Rightarrow> int \<Rightarrow> light_st \<Rightarrow> light_st \<Rightarrow> bool" for cb maxconns where
  on_accept: "events s fd = Some i \<Longrightarrow> int_callback i = Accept_handler \<Longrightarrow>
    (\<forall>sock. arrived = Some sock \<longrightarrow> sock \<notin> open_sockets s) \<Longrightarrow> (\<forall>a. room = Some a \<longrightarrow> clients s a = None) \<Longrightarrow>
    accept_handler maxconns added arrived room fd s = Some t \<Longrightarrow> light_step cb maxconns s t"
| on_data: "events s fd = Some i \<Longrightarrow> int_callback i = Drive_client \<Longrightarrow>
    drive_client cb E fd (s\<lparr>events := (events s)(fd := None)\<rparr>) = Some t \<Longrightarrow> light_step cb maxconns s t"

inductive light_run :: "storage callback_st \<Rightarrow> int \<Rightarrow> light_st \<Rightarrow> light_st \<Rightarrow> bool" for cb maxconns where
  start: "light_run cb maxconns s s"
| more: "light_run cb maxconns s t \<Longrightarrow> light_step cb maxconns t u \<Longrightarrow> light_run cb maxconns s u"

inductive_cases light_stepE: "light_step cb maxconns s t"

section \<open>No connection is forgotten\<close>

text \<open>
  Every open descriptor is waited for, for reading. That of a client leads to a client, no two to the same one, and every client that
  exists is reached; that of a server socket leads to the protocol handle.
\<close>

definition leads_to :: "light_st \<Rightarrow> nat \<Rightarrow> interest \<Rightarrow> bool" where
  "leads_to s fd i \<longleftrightarrow>
     (case int_callback i of
        Accept_handler \<Rightarrow> socket_userdata_map s fd = Some Handle
      | Drive_client \<Rightarrow> \<exists>a. socket_userdata_map s fd = Some (Client a) \<and> clients s a \<noteq> None)"

definition driven :: "light_st \<Rightarrow> nat \<Rightarrow> nat \<Rightarrow> bool" where
  "driven s a fd \<longleftrightarrow> (\<exists>i. events s fd = Some i \<and> int_callback i = Drive_client) \<and> socket_userdata_map s fd = Some (Client a)"

definition served :: "light_st \<Rightarrow> bool" where
  "served s \<longleftrightarrow>
     dom (events s) = open_sockets s \<and>
     (\<forall>fd i. events s fd = Some i \<longrightarrow> int_read i \<and> \<not> int_write i \<and> leads_to s fd i) \<and>
     (\<forall>a. clients s a \<noteq> None \<longrightarrow> (\<exists>!fd. driven s a fd))"

lemma servedI:
  assumes "dom (events s) = open_sockets s"
    and "\<And>fd i. events s fd = Some i \<Longrightarrow> int_read i \<and> \<not> int_write i \<and> leads_to s fd i"
    and "\<And>a c. clients s a = Some c \<Longrightarrow> \<exists>!fd. driven s a fd"
  shows "served s"
  using assms unfolding served_def by blast

lemma servedD: "served s \<Longrightarrow> events s fd = Some i \<Longrightarrow> int_read i \<and> \<not> int_write i \<and> leads_to s fd i"
  by (simp add: served_def)

lemma driven_client: "served s \<Longrightarrow> driven s a fd \<Longrightarrow> clients s a \<noteq> None"
  using servedD by (fastforce simp: driven_def leads_to_def)

text \<open>A descriptor that is waited for with its client at \<open>a\<close>, which no other descriptor leads to, put back or given up.\<close>

definition pending_drive :: "nat \<Rightarrow> nat \<Rightarrow> light_st \<Rightarrow> bool" where
  "pending_drive a fd s \<longleftrightarrow>
     insert fd (dom (events s)) = open_sockets s \<and> events s fd = None \<and>
     (\<forall>fd' i. events s fd' = Some i \<longrightarrow> int_read i \<and> \<not> int_write i \<and> leads_to s fd' i) \<and>
     (\<forall>b. clients s b \<noteq> None \<longrightarrow> b \<noteq> a \<longrightarrow> (\<exists>!fd. driven s b fd)) \<and>
     socket_userdata_map s fd = Some (Client a) \<and> clients s a \<noteq> None \<and> (\<forall>fd'. \<not> driven s a fd')"

lemma drop_client_served:
  assumes "pending_drive a fd s"
  shows "\<exists>t. drop_client a fd s = Some t \<and> served t"
proof -
  let ?t = "close_socket fd (s\<lparr>clients := (clients s)(a := None)\<rparr>)"
  have same: "driven ?t b = driven s b" for b by (simp add: driven_def close_socket_def fun_eq_iff)
  have "served ?t"
  proof (rule servedI)
    show "dom (events ?t) = open_sockets ?t" using assms by (auto simp: pending_drive_def close_socket_def)
    show "\<exists>!fd'. driven ?t b fd'" if "clients ?t b = Some c" for b c
      using that assms unfolding same by (auto simp: pending_drive_def close_socket_def split: if_splits)
    show "int_read i \<and> \<not> int_write i \<and> leads_to ?t fd' i" if "events ?t fd' = Some i" for fd' i
    proof -
      have e: "events s fd' = Some i" using that by (simp add: close_socket_def)
      then have l: "int_read i" "\<not> int_write i" "leads_to s fd' i" "\<not> driven s a fd'" using assms by (auto simp: pending_drive_def)
      with e show ?thesis by (auto simp: leads_to_def driven_def close_socket_def split: callback.splits)
    qed
  qed
  then show ?thesis using assms by (simp add: drop_client_def pending_drive_def)
qed

lemma wait_for_served:
  assumes "pending_drive a fd s" and "int_callback i = Drive_client" and "int_read i" and "\<not> int_write i"
  shows "\<exists>t. wait_for added i a fd s = Some t \<and> served t"
proof (cases added)
  case True
  let ?t = "s\<lparr>events := (events s)(fd \<mapsto> i)\<rparr>"
  have other: "driven ?t b fd' = driven s b fd'" if "b \<noteq> a" for b fd'
    using that assms by (auto simp: driven_def pending_drive_def)
  have own: "driven ?t a fd' \<longleftrightarrow> fd' = fd" for fd'
    using assms by (auto simp: driven_def pending_drive_def)
  have "served ?t"
  proof (rule servedI)
    show "dom (events ?t) = open_sockets ?t" using assms by (auto simp: pending_drive_def)
    show "\<exists>!fd'. driven ?t b fd'" if "clients ?t b = Some c" for b c
      using that assms other own by (cases "b = a") (auto simp: pending_drive_def)
    show "int_read j \<and> \<not> int_write j \<and> leads_to ?t fd' j" if "events ?t fd' = Some j" for fd' j
      using that assms by (cases "fd' = fd") (auto simp: pending_drive_def leads_to_def split: callback.splits)
  qed
  with True show ?thesis by (simp add: wait_for_def)
next
  case False
  with drop_client_served [OF assms(1)] show ?thesis by (simp add: wait_for_def)
qed

lemma accept_served:
  assumes "served s" and "events s fd = Some i" and "int_callback i = Accept_handler"
    and "\<forall>sock. arrived = Some sock \<longrightarrow> sock \<notin> open_sockets s" and "\<forall>a. room = Some a \<longrightarrow> clients s a = None"
  shows "\<exists>t. accept_handler maxconns added arrived room fd s = Some t \<and> served t"
proof -
  have handle: "socket_userdata_map s fd = Some Handle" using servedD [OF assms(1,2)] assms(3) by (simp add: leads_to_def)
  show ?thesis
  proof (cases arrived)
    case None
    with assms(1) handle show ?thesis by (simp add: accept_handler_def)
  next
    case (Some sock)
    then have new: "sock \<notin> open_sockets s" "events s sock = None" using assms(1,4) by (auto simp: served_def)
    then have closed: "close_socket sock (s\<lparr>open_sockets := insert sock (open_sockets s)\<rparr>) = s" by (simp add: close_socket_def)
    show ?thesis
    proof (cases "int sock \<ge> maxconns \<or> room = None")
      case True
      with closed assms(1) handle Some show ?thesis by (cases room) (auto simp: accept_handler_def Let_def)
    next
      case False
      then obtain a where a: "room = Some a" "clients s a = None" using assms(5) by auto
      obtain c where c: "memcached_protocol_create_client True (handle s) [] [] = Some c" by (simp add: memcached_protocol_create_client_def)
      let ?t = "s\<lparr>open_sockets := insert sock (open_sockets s), clients := (clients s)(a \<mapsto> c),
        socket_userdata_map := (socket_userdata_map s)(sock \<mapsto> Client a)\<rparr>"
      have own: "\<not> driven ?t a fd'" for fd'
        using driven_client [OF assms(1), of a fd'] a new(2) by (cases "fd' = sock") (auto simp: driven_def)
      have other: "driven ?t b = driven s b" if "b \<noteq> a" for b using that new by (auto simp: driven_def fun_eq_iff)
      have leads: "int_read j \<and> \<not> int_write j \<and> leads_to ?t fd' j" if "events ?t fd' = Some j" for fd' j
        using servedD [OF assms(1), of fd' j] that new(2) a(2) by (cases "fd' = sock") (auto simp: leads_to_def split: callback.splits)
      have "dom (events s) = open_sockets s" using assms(1) by (simp add: served_def)
      moreover have "\<exists>!fd'. driven ?t b fd'" if "clients ?t b \<noteq> None" "b \<noteq> a" for b
        using that other [of b] assms(1) by (auto simp: served_def)
      ultimately have "pending_drive a sock ?t"
        using new own leads unfolding pending_drive_def by simp
      from wait_for_served [OF this] a c False Some handle show ?thesis by (simp add: accept_handler_def)
    qed
  qed
qed

lemma drive_served:
  assumes "served s" and "events s fd = Some i" and "int_callback i = Drive_client"
  shows "\<exists>a c. socket_userdata_map s fd = Some (Client a) \<and> clients s a = Some c \<and>
    (\<forall>E. drive_client cb E fd (s\<lparr>events := (events s)(fd := None)\<rparr>) = None \<longrightarrow>
       memcached_protocol_client_work (le_proto E) cb (items s, c\<lparr>root := handle s, recvs := le_recvs E, sends := le_sends E\<rparr>) = None) \<and>
    (\<forall>E t. drive_client cb E fd (s\<lparr>events := (events s)(fd := None)\<rparr>) = Some t \<longrightarrow> served t)"
proof -
  from servedD [OF assms(1,2)] assms(3) obtain a c where a: "socket_userdata_map s fd = Some (Client a)" "clients s a = Some c"
    by (auto simp: leads_to_def)
  have after: "\<exists>t. drive_client cb E fd (s\<lparr>events := (events s)(fd := None)\<rparr>) = Some t \<and> served t"
    if work: "memcached_protocol_client_work (le_proto E) cb (items s, c\<lparr>root := handle s, recvs := le_recvs E, sends := le_sends E\<rparr>) =
      Some (ev, S, d)" for E ev S d
  proof -
    let ?t = "s\<lparr>events := (events s)(fd := None), items := S, handle := root d, clients := (clients s)(a \<mapsto> d)\<rparr>"
    have one: "driven s a fd" using a(1) assms(2,3) by (simp add: driven_def)
    then have own: "\<not> driven ?t a fd'" for fd' using assms(1) a(2) by (cases "fd' = fd") (auto simp: served_def driven_def)
    have other: "driven ?t b = driven s b" if "b \<noteq> a" for b using that a(1) by (auto simp: driven_def fun_eq_iff)
    have leads: "int_read j \<and> \<not> int_write j \<and> leads_to ?t fd' j" if "events ?t fd' = Some j" for fd' j
      using servedD [OF assms(1), of fd' j] that by (auto simp: leads_to_def split: callback.splits if_splits)
    have "insert fd (dom (events s) - {fd}) = open_sockets s" using assms(1,2) by (auto simp: served_def)
    moreover have "\<exists>!fd'. driven ?t b fd'" if "clients ?t b \<noteq> None" "b \<noteq> a" for b
      using that other [of b] assms(1) by (auto simp: served_def)
    ultimately have "pending_drive a fd ?t"
      using a own leads unfolding pending_drive_def by simp
    note put = drop_client_served [OF this] wait_for_served [OF this]
    from client_work_events [OF work] show ?thesis using put a work by (elim disjE) (simp_all add: drive_client_def)
  qed
  have "drive_client cb E fd (s\<lparr>events := (events s)(fd := None)\<rparr>) = None \<Longrightarrow>
    memcached_protocol_client_work (le_proto E) cb (items s, c\<lparr>root := handle s, recvs := le_recvs E, sends := le_sends E\<rparr>) = None" for E
    using after [of E] by (cases "memcached_protocol_client_work (le_proto E) cb (items s, c\<lparr>root := handle s, recvs := le_recvs E, sends := le_sends E\<rparr>)") auto
  moreover have "drive_client cb E fd (s\<lparr>events := (events s)(fd := None)\<rparr>) = Some t \<Longrightarrow> served t" for E t
    using after [of E] a by (cases "memcached_protocol_client_work (le_proto E) cb (items s, c\<lparr>root := handle s, recvs := le_recvs E, sends := le_sends E\<rparr>)")
      (auto simp: drive_client_def)
  ultimately show ?thesis using a by blast
qed

text \<open>While the server sockets get their events.\<close>

definition listening :: "nat list \<Rightarrow> light_st \<Rightarrow> bool" where
  "listening fds s \<longleftrightarrow> distinct fds \<and> clients s = Map.empty \<and>
     (\<forall>fd. fd \<in> open_sockets s \<longleftrightarrow> fd \<in> dom (events s) \<or> fd \<in> set fds) \<and> (\<forall>fd \<in> set fds. events s fd = None) \<and>
     (\<forall>fd i. events s fd = Some i \<longrightarrow>
        i = \<lparr>int_callback = Accept_handler, int_read = True, int_write = False\<rparr> \<and> socket_userdata_map s fd = Some Handle)"

lemma listen_all_served:
  "listening fds s \<Longrightarrow> listen_all maxconns added fds s = Some t \<Longrightarrow> served t"
proof (induction fds arbitrary: s)
  case Nil
  then have s: "listening [] t" by simp
  have "int_read i \<and> \<not> int_write i \<and> leads_to t fd i" if "events t fd = Some i" for fd i
  proof -
    from s that have "i = \<lparr>int_callback = Accept_handler, int_read = True, int_write = False\<rparr>" "socket_userdata_map t fd = Some Handle"
      unfolding listening_def by blast+
    then show ?thesis by (simp add: leads_to_def)
  qed
  then show ?case using s by (intro servedI) (auto simp: listening_def)
next
  case (Cons fd fds)
  from Cons.prems(2) obtain u where u: "listen_on maxconns added fd s = Some u" "listen_all maxconns added fds u = Some t"
    by (cases "listen_on maxconns added fd s") auto
  with Cons.prems(1) have "listening fds u"
    by (auto simp: listening_def listen_on_def Let_def close_socket_def split: if_splits)
  with Cons.IH u(2) show ?case by blast
qed

text \<open>
  C15: whatever connections arrive, whatever the sockets answer and whichever allocations fail, every descriptor of the example server
  that is open is waited for, for reading and never for writing; an event of a client finds a client that has not been
  destroyed, so that it is undefined only when the work of the client is; and every client belongs to one descriptor, so that none is
  forgotten.
\<close>

lemma connections_served:
  assumes "distinct socks" and "start_server maxconns added instance' S socks = Some (Inr s)" and "light_run cb maxconns s t"
  shows "dom (events t) = open_sockets t \<and> (\<forall>a. clients t a \<noteq> None \<longrightarrow> (\<exists>!fd. driven t a fd)) \<and>
    (\<forall>fd i. events t fd = Some i \<longrightarrow> int_read i \<and> \<not> int_write i \<and>
      (int_callback i = Drive_client \<longrightarrow> (\<exists>a c. socket_userdata_map t fd = Some (Client a) \<and> clients t a = Some c \<and>
         (\<forall>E. drive_client cb E fd (t\<lparr>events := (events t)(fd := None)\<rparr>) = None \<longrightarrow>
            memcached_protocol_client_work (le_proto E) cb
              (items t, c\<lparr>root := handle t, recvs := le_recvs E, sends := le_sends E\<rparr>) = None))))"
proof -
  have "listen_all maxconns added socks (\<lparr>handle = memcached_binary_protocol_set_pedantic instance' True, items = S,
      socket_userdata_map = Map.empty, clients = Map.empty, events = Map.empty, open_sockets = set socks\<rparr>) = Some s"
    using assms(2) by (auto simp: start_server_def split: if_splits)
  from listen_all_served [OF _ this] assms(1) have start: "served s" by (simp add: listening_def)
  have "served t" using assms(3) start
  proof (induction rule: light_run.induct)
    case (more s t u)
    from more.hyps(2) more.IH [OF more.prems] show ?case
      by (elim light_stepE) (use accept_served drive_served in \<open>metis option.inject\<close>)+
  qed
  show ?thesis
  proof (intro conjI allI impI)
    fix fd i assume "events t fd = Some i" "int_callback i = Drive_client"
    from drive_served [OF \<open>served t\<close> this, of cb] show "\<exists>a c. socket_userdata_map t fd = Some (Client a) \<and> clients t a = Some c \<and>
       (\<forall>E. drive_client cb E fd (t\<lparr>events := (events t)(fd := None)\<rparr>) = None \<longrightarrow>
          memcached_protocol_client_work (le_proto E) cb (items t, c\<lparr>root := handle t, recvs := le_recvs E, sends := le_sends E\<rparr>) = None)"
      by blast
  qed (use \<open>served t\<close> in \<open>simp_all add: served_def\<close>)
qed

text \<open>One server socket, and one connection that has arrived.\<close>

lemma connections_served_witness:
  "\<exists>s t. start_server 1024 (\<lambda>_. True) (root new_client) empty_storage [3] = Some (Inr s) \<and>
     light_run (light_callbacks False (\<lparr>new_entry = \<lambda>h. None, new_block = \<lambda>n. None\<rparr>)) 1024 s t \<and>
     clients t 0 \<noteq> None \<and> dom (events t) = {3, 4} \<and> (\<exists>!fd. driven t 0 fd)"
proof -
  let ?cb = "light_callbacks False (\<lparr>new_entry = \<lambda>h. None, new_block = \<lambda>n. None\<rparr>)"
  let ?accept = "\<lparr>int_callback = Accept_handler, int_read = True, int_write = False\<rparr>"
    and ?drive = "\<lparr>int_callback = Drive_client, int_read = True, int_write = False\<rparr>"
  let ?s = "\<lparr>handle = memcached_binary_protocol_set_pedantic (root new_client) True, items = empty_storage,
    socket_userdata_map = [3 \<mapsto> Handle], clients = Map.empty, events = [3 \<mapsto> ?accept], open_sockets = {3}\<rparr>"
  obtain c where c: "memcached_protocol_create_client True (handle ?s) [] [] = Some c" by (simp add: memcached_protocol_create_client_def)
  let ?t = "?s\<lparr>open_sockets := {4, 3}, clients := [0 \<mapsto> c], socket_userdata_map := [3 \<mapsto> Handle, 4 \<mapsto> Client 0],
    events := [3 \<mapsto> ?accept, 4 \<mapsto> ?drive]\<rparr>"
  have start: "start_server 1024 (\<lambda>_. True) (root new_client) empty_storage [3] = Some (Inr ?s)"
    by (simp add: start_server_def listen_on_def)
  have "accept_handler 1024 True (Some 4) (Some 0) 3 ?s = Some ?t"
    using c by (simp add: accept_handler_def wait_for_def)
  then have "light_step ?cb 1024 ?s ?t"
    by (intro light_step.on_accept [of _ 3 ?accept "Some 4" "Some 0" 1024 True]) simp_all
  with light_run.start have run: "light_run ?cb 1024 ?s ?t" by (rule light_run.more)
  have "distinct [3 :: nat]" by simp
  note served = connections_served [OF this start run]
  have client: "clients ?t 0 \<noteq> None" by simp
  moreover have "\<exists>!fd. driven ?t 0 fd" using served client by blast
  moreover have "dom (events ?t) = {3, 4}" using served by auto
  ultimately show ?thesis using start run by blast
qed

end
