(* ===== verification/Client_Util.thy ===== *)
theory Client_Util
  imports Client_Stats
begin

text \<open>
  The utilities beside the commands: \<open>analyze.c\<close>, which sums up the statistics of the servers, \<open>util/ping.c\<close> and
  \<open>util/version.c\<close>. A \<open>double\<close> is the rational number that it stands for; the pointer to the client in the result
  of the analysis is left out.
\<close>

section \<open>\<open>analyze.c\<close>\<close>

record memcached_analysis_st =
  average_item_size :: u32
  longest_uptime :: u32
  least_free_server :: u32
  most_consumed_server :: u32
  oldest_server :: u32
  pool_hit_ratio :: rat
  most_used_bytes :: u64
  least_remaining_bytes :: u64

definition calc_largest_consumption :: "u32 \<Rightarrow> u64 \<Rightarrow> memcached_analysis_st \<Rightarrow> memcached_analysis_st" where
  "calc_largest_consumption server_num nbytes an =
     (if most_used_bytes an < nbytes then an\<lparr>most_used_bytes := nbytes, most_consumed_server := server_num\<rparr> else an)"

definition calc_oldest_node :: "u32 \<Rightarrow> u32 \<Rightarrow> memcached_analysis_st \<Rightarrow> memcached_analysis_st" where
  "calc_oldest_node server_num up an =
     (if longest_uptime an < up then an\<lparr>longest_uptime := up, oldest_server := server_num\<rparr> else an)"

definition calc_least_free_node :: "u32 \<Rightarrow> u64 \<Rightarrow> u64 \<Rightarrow> memcached_analysis_st \<Rightarrow> memcached_analysis_st" where
  "calc_least_free_node server_num max_allowed_bytes used_bytes an =
     (let remaining_bytes = max_allowed_bytes - used_bytes
      in if least_remaining_bytes an = 0 \<or> remaining_bytes < least_remaining_bytes an
         then an\<lparr>least_remaining_bytes := remaining_bytes, least_free_server := server_num\<rparr> else an)"

definition calc_average_item_size :: "u64 \<Rightarrow> u64 \<Rightarrow> memcached_analysis_st \<Rightarrow> memcached_analysis_st" where
  "calc_average_item_size items_sum bytes_sum an =
     (if 0 < items_sum \<and> 0 < bytes_sum then an\<lparr>average_item_size := ucast (bytes_sum div items_sum)\<rparr> else an)"

text \<open>The quotient is one of integers.\<close>

definition calc_hit_ratio :: "u64 \<Rightarrow> u64 \<Rightarrow> memcached_analysis_st \<Rightarrow> memcached_analysis_st" where
  "calc_hit_ratio total_get_hits total_get_cmds an =
     (if total_get_hits = 0 \<or> total_get_cmds = 0 then an\<lparr>pool_hit_ratio := 0\<rparr>
      else let temp = float64 (of_nat (unat (total_get_hits div total_get_cmds)))
           in an\<lparr>pool_hit_ratio := float64 (temp * 100)\<rparr>)"

record analysis_totals =
  tot_items :: u64
  tot_bytes :: u64
  tot_get_cmds :: u64
  tot_get_hits :: u64

text \<open>The round of the loop for the server \<open>x\<close>, and the loop from it on. \<open>None\<close>: there are fewer statistics than servers.\<close>

definition analyze_server ::
  "memcached_stat_st \<Rightarrow> u32 \<Rightarrow> memcached_analysis_st \<times> analysis_totals \<Rightarrow> memcached_analysis_st \<times> analysis_totals" where
  "analyze_server stat x = (\<lambda>(an, acc).
     (calc_least_free_node x (limit_maxbytes stat) (stat_bytes stat)
        (calc_oldest_node x (uptime stat) (calc_largest_consumption x (stat_bytes stat) an)),
      acc\<lparr>tot_get_hits := tot_get_hits acc + get_hits stat, tot_get_cmds := tot_get_cmds acc + cmd_get stat,
            tot_items := tot_items acc + ucast (curr_items stat), tot_bytes := tot_bytes acc + stat_bytes stat\<rparr>))"

fun analyze_loop ::
  "memcached_stat_st list \<Rightarrow> nat \<Rightarrow> nat \<Rightarrow> memcached_analysis_st \<times> analysis_totals \<Rightarrow> (memcached_analysis_st \<times> analysis_totals) option" where
  "analyze_loop stats x 0 s = Some s"
| "analyze_loop stats x (Suc n) s =
     (if x < length stats then analyze_loop stats (x + 1) n (analyze_server (stats ! x) (of_nat x) s) else None)"

text \<open>\<open>calloc_ok\<close>: the result could be allocated. There is one structure for every server, of which the first is used: without servers, none.\<close>

definition memcached_analyze ::
  "bool \<Rightarrow> memcached_st \<Rightarrow> memcached_stat_st list \<Rightarrow> (memcached_return_t \<times> memcached_analysis_st option) option" where
  "memcached_analyze calloc_ok p stats =
     (if \<not> calloc_ok then Some (MEMCACHED_MEMORY_ALLOCATION_FAILURE, None)
      else if memcached_server_count p = 0 then None
      else do {
        (an, acc) \<leftarrow> analyze_loop stats 0 (unat (memcached_server_count p))
          (\<lparr>average_item_size = 0, longest_uptime = 0, least_free_server = 0, most_consumed_server = 0, oldest_server = 0,
            pool_hit_ratio = 0, most_used_bytes = 0, least_remaining_bytes = 0\<rparr>,
           \<lparr>tot_items = 0, tot_bytes = 0, tot_get_cmds = 0, tot_get_hits = 0\<rparr>);
        Some (MEMCACHED_SUCCESS, Some (calc_hit_ratio (tot_get_hits acc) (tot_get_cmds acc)
          (calc_average_item_size (tot_items acc) (tot_bytes acc) an)))
      })"

section \<open>\<open>util/ping.c\<close> and \<open>util/version.c\<close>\<close>

text \<open>\<open>junk\<close> is the contents of the client on the stack.\<close>

definition libmemcached_util_ping ::
  "client_env \<Rightarrow> memcached_st \<Rightarrow> byte list \<Rightarrow> u16 \<Rightarrow> client_st \<Rightarrow> ((bool \<times> memcached_return_t) \<times> client_st) option" where
  "libmemcached_util_ping E junk host prt c =
     map_option (\<lambda>(rc, c). ((rc = MEMCACHED_SUCCESS, rc), c))
       (with_local_client E junk host prt (\<lambda>rc c. if rc = MEMCACHED_SUCCESS then memcached_version E c else Some (rc, c)) c)"

text \<open>What the callback leaves in the truth value of its context.\<close>

definition check_server_version :: "u8 \<Rightarrow> u8 \<Rightarrow> u8 \<Rightarrow> memcached_server_st \<Rightarrow> bool \<Rightarrow> bool" where
  "check_server_version major minor micro s truth =
     (if major \<le> major_version s \<and> minor \<le> minor_version s \<and> micro \<le> micro_version s then truth else False)"

definition libmemcached_util_version_check ::
  "client_env \<Rightarrow> u8 \<Rightarrow> u8 \<Rightarrow> u8 \<Rightarrow> client_st \<Rightarrow> (bool \<times> client_st) option" where
  "libmemcached_util_version_check E major minor micro c = do {
     (_, c) \<leftarrow> memcached_version E c;
     Some (foldl (\<lambda>truth i. check_server_version major minor micro (server_of i c) truth) True (server_range c), c)
   }"

section \<open>What the analysis finds\<close>

lemma analyze_loop_all:
  "x + n \<le> length stats \<Longrightarrow>
     analyze_loop stats x n s = Some (fold (\<lambda>j. analyze_server (stats ! j) (of_nat j)) [x ..< x + n] s)"
proof (induction n arbitrary: x s)
  case (Suc n)
  have "[x ..< x + Suc n] = x # [x + 1 ..< (x + 1) + n]" by (simp add: upt_conv_Cons)
  with Suc show ?case by (simp only: analyze_loop.simps fold.simps comp_def) simp
qed simp

text \<open>After \<open>n\<close> servers: the extremes with the first server that has them, and the totals.\<close>

definition extreme :: "('a \<Rightarrow> 'a \<Rightarrow> bool) \<Rightarrow> (nat \<Rightarrow> 'a) \<Rightarrow> nat \<Rightarrow> u32 \<Rightarrow> 'a :: zero \<Rightarrow> bool" where
  "extreme le f n i m \<longleftrightarrow> (\<forall>j < n. le (f j) m) \<and> (if n = 0 then i = 0 \<and> m = 0 else unat i < n \<and> m = f (unat i))"

definition unused :: "memcached_stat_st \<Rightarrow> u64" where
  "unused stat = limit_maxbytes stat - stat_bytes stat"

definition analyzed :: "memcached_stat_st list \<Rightarrow> nat \<Rightarrow> memcached_analysis_st \<times> analysis_totals \<Rightarrow> bool" where
  "analyzed stats n = (\<lambda>(an, acc).
     extreme (\<le>) (\<lambda>j. stat_bytes (stats ! j)) n (most_consumed_server an) (most_used_bytes an) \<and>
     extreme (\<le>) (\<lambda>j. uptime (stats ! j)) n (oldest_server an) (longest_uptime an) \<and>
     extreme (\<ge>) (\<lambda>j. unused (stats ! j)) n (least_free_server an) (least_remaining_bytes an) \<and>
     tot_get_hits acc = (\<Sum>j < n. get_hits (stats ! j)) \<and> tot_get_cmds acc = (\<Sum>j < n. cmd_get (stats ! j)))"

lemma extreme_step:
  fixes f :: "nat \<Rightarrow> 'a :: len word"
  assumes "extreme (\<le>) f n i m" and "n < 2 ^ 32"
  shows "extreme (\<le>) f (Suc n) (if m < f n then of_nat n else i) (if m < f n then f n else m)"
proof -
  have n: "unat (of_nat n :: u32) = n" using assms(2) by (simp add: unsigned_of_nat take_bit_nat_eq_self)
  show ?thesis
  proof (cases "m < f n")
    case True
    with assms n show ?thesis by (fastforce simp: extreme_def less_Suc_eq)
  next
    case False
    with assms show ?thesis by (cases "n = 0") (auto simp: extreme_def less_Suc_eq word_gt_0)
  qed
qed

lemma extreme_step_least:
  fixes f :: "nat \<Rightarrow> 'a :: len word"
  assumes "extreme (\<ge>) f n i m" and "n < 2 ^ 32" and "\<forall>j < Suc n. f j \<noteq> 0"
  shows "extreme (\<ge>) f (Suc n) (if m = 0 \<or> f n < m then of_nat n else i) (if m = 0 \<or> f n < m then f n else m)"
proof -
  have n: "unat (of_nat n :: u32) = n" using assms(2) by (simp add: unsigned_of_nat take_bit_nat_eq_self)
  show ?thesis
  proof (cases "m = 0 \<or> f n < m")
    case True
    with assms n show ?thesis by (cases "n = 0") (fastforce simp: extreme_def less_Suc_eq)+
  next
    case False
    with assms show ?thesis by (cases "n = 0") (auto simp: extreme_def less_Suc_eq)
  qed
qed

lemma analyze_server_fields:
  "analyze_server stat x (an, acc) = (an', acc') \<Longrightarrow>
     most_consumed_server an' = (if most_used_bytes an < stat_bytes stat then x else most_consumed_server an) \<and>
     most_used_bytes an' = (if most_used_bytes an < stat_bytes stat then stat_bytes stat else most_used_bytes an) \<and>
     oldest_server an' = (if longest_uptime an < uptime stat then x else oldest_server an) \<and>
     longest_uptime an' = (if longest_uptime an < uptime stat then uptime stat else longest_uptime an) \<and>
     least_free_server an' = (if least_remaining_bytes an = 0 \<or> unused stat < least_remaining_bytes an then x else least_free_server an) \<and>
     least_remaining_bytes an' = (if least_remaining_bytes an = 0 \<or> unused stat < least_remaining_bytes an then unused stat else least_remaining_bytes an) \<and>
     tot_get_hits acc' = tot_get_hits acc + get_hits stat \<and> tot_get_cmds acc' = tot_get_cmds acc + cmd_get stat"
  by (auto simp: analyze_server_def calc_largest_consumption_def calc_oldest_node_def calc_least_free_node_def unused_def Let_def)

lemma analyzed_step:
  assumes "analyzed stats n s" and "n < 2 ^ 32" and "\<forall>j < Suc n. unused (stats ! j) \<noteq> 0"
  shows "analyzed stats (Suc n) (analyze_server (stats ! n) (of_nat n) s)"
proof -
  obtain an acc where s: "s = (an, acc)" by (cases s)
  obtain an' acc' where step: "analyze_server (stats ! n) (of_nat n) s = (an', acc')"
    by (cases "analyze_server (stats ! n) (of_nat n) s")
  from extreme_step [of "\<lambda>j. stat_bytes (stats ! j)" n] extreme_step [of "\<lambda>j. uptime (stats ! j)" n]
    extreme_step_least [of "\<lambda>j. unused (stats ! j)" n] analyze_server_fields [OF step [unfolded s]] assms show ?thesis
    unfolding s step [unfolded s] analyzed_def by simp
qed

lemma some_missed: "hits < cmds \<Longrightarrow> pool_hit_ratio (calc_hit_ratio hits cmds an) = 0"
proof -
  assume "hits < cmds"
  then have "unat (hits div cmds) = 0" by (simp add: unat_div_distrib word_less_nat_alt)
  then have "hits div cmds = 0" by (simp only: unsigned_eq_0_iff)
  then show ?thesis by (simp add: calc_hit_ratio_def float64_def round_to_def)
qed

lemma analyzed_all:
  assumes "n \<le> 2 ^ 32" and "\<forall>j < n. unused (stats ! j) \<noteq> 0" and "analyzed stats 0 s"
  shows "analyzed stats n (fold (\<lambda>j. analyze_server (stats ! j) (of_nat j)) [0 ..< n] s)"
  using assms(1,2)
proof (induction n)
  case (Suc n)
  then show ?case using analyzed_step [of stats n] by simp
qed (simp add: assms(3))

text \<open>
  C30: when no server is full, the analysis of the statistics names a server that has most data, one that has been up longest and one that
  has the least room left, each with its number, and the ratio of hits is zero as soon as one of the gets missed, because the
  quotient is one of integers.
\<close>

lemma analysis_extremes:
  assumes "n = unat (memcached_server_count p)" and "0 < n" and "n \<le> length stats"
    and "\<forall>j < n. stat_bytes (stats ! j) \<noteq> limit_maxbytes (stats ! j)"
  shows "\<exists>an. memcached_analyze True p stats = Some (MEMCACHED_SUCCESS, Some an) \<and>
    unat (most_consumed_server an) < n \<and> most_used_bytes an = stat_bytes (stats ! unat (most_consumed_server an)) \<and>
    (\<forall>j < n. stat_bytes (stats ! j) \<le> most_used_bytes an) \<and>
    unat (oldest_server an) < n \<and> longest_uptime an = uptime (stats ! unat (oldest_server an)) \<and>
    (\<forall>j < n. uptime (stats ! j) \<le> longest_uptime an) \<and>
    unat (least_free_server an) < n \<and>
    (\<forall>j < n. limit_maxbytes (stats ! unat (least_free_server an)) - stat_bytes (stats ! unat (least_free_server an))
       \<le> limit_maxbytes (stats ! j) - stat_bytes (stats ! j)) \<and>
    ((\<Sum>j < n. get_hits (stats ! j)) < (\<Sum>j < n. cmd_get (stats ! j)) \<longrightarrow> pool_hit_ratio an = 0)"
proof -
  let ?s = "(\<lparr>average_item_size = 0, longest_uptime = 0, least_free_server = 0, most_consumed_server = 0, oldest_server = 0,
      pool_hit_ratio = 0, most_used_bytes = 0, least_remaining_bytes = 0\<rparr>,
    \<lparr>tot_items = 0, tot_bytes = 0, tot_get_cmds = 0, tot_get_hits = 0\<rparr>)"
  obtain an acc where run: "fold (\<lambda>j. analyze_server (stats ! j) (of_nat j)) [0 ..< n] ?s = (an, acc)"
    by (cases "fold (\<lambda>j. analyze_server (stats ! j) (of_nat j)) [0 ..< n] ?s")
  have "n \<le> 2 ^ 32" using assms(1) unsigned_less [of "memcached_server_count p", where 'a = nat] by simp
  moreover have "\<forall>j < n. unused (stats ! j) \<noteq> 0" using assms(4) by (auto simp: unused_def)
  moreover have "analyzed stats 0 ?s" by (simp add: analyzed_def extreme_def)
  ultimately have final: "analyzed stats n (an, acc)" using analyzed_all [of n stats ?s] unfolding run by blast
  let ?an = "calc_hit_ratio (tot_get_hits acc) (tot_get_cmds acc) (calc_average_item_size (tot_items acc) (tot_bytes acc) an)"
  have "memcached_server_count p \<noteq> 0" using assms(1,2) by auto
  then have "memcached_analyze True p stats = Some (MEMCACHED_SUCCESS, Some ?an)"
    using analyze_loop_all [of 0 n stats ?s] assms(1,3) run by (simp add: memcached_analyze_def)
  moreover have "most_consumed_server ?an = most_consumed_server an" "most_used_bytes ?an = most_used_bytes an"
    "oldest_server ?an = oldest_server an" "longest_uptime ?an = longest_uptime an" "least_free_server ?an = least_free_server an"
    by (simp_all add: calc_hit_ratio_def calc_average_item_size_def Let_def)
  moreover note some_missed [of "tot_get_hits acc" "tot_get_cmds acc"]
  ultimately show ?thesis using final assms(2) by (intro exI [of _ ?an]) (auto simp: analyzed_def extreme_def unused_def)
qed

text \<open>Two servers, of which the second has more data; a get has missed.\<close>

lemma analysis_extremes_witness:
  "\<exists>an. memcached_analyze True (zero_memcached\<lparr>memc_number_of_hosts := 2\<rparr>)
      [zero_stat\<lparr>stat_bytes := 5, limit_maxbytes := 64, uptime := 9, cmd_get := 1\<rparr>, zero_stat\<lparr>stat_bytes := 7, limit_maxbytes := 64\<rparr>] =
      Some (MEMCACHED_SUCCESS, Some an) \<and> 7 \<le> most_used_bytes an \<and> pool_hit_ratio an = 0"
proof -
  let ?stats = "[zero_stat\<lparr>stat_bytes := 5, limit_maxbytes := 64, uptime := 9, cmd_get := 1\<rparr>, zero_stat\<lparr>stat_bytes := 7, limit_maxbytes := 64\<rparr>]"
    and ?p = "zero_memcached\<lparr>memc_number_of_hosts := 2\<rparr>"
  have "2 = unat (memcached_server_count ?p)" by (simp add: memcached_server_count_def)
  moreover have "\<forall>j < 2. stat_bytes (?stats ! j) \<noteq> limit_maxbytes (?stats ! j)" by (simp add: less_2_cases_iff)
  ultimately obtain an where an: "memcached_analyze True ?p ?stats = Some (MEMCACHED_SUCCESS, Some an)"
      "\<forall>j < 2. stat_bytes (?stats ! j) \<le> most_used_bytes an"
      "(\<Sum>j < 2. get_hits (?stats ! j)) < (\<Sum>j < 2. cmd_get (?stats ! j)) \<longrightarrow> pool_hit_ratio an = 0"
    using analysis_extremes [of 2 ?p ?stats] by auto
  have "7 \<le> most_used_bytes an" using an(2) by (auto dest: spec [of _ 1])
  moreover have "pool_hit_ratio an = 0" using an(3) by (simp add: zero_stat_def numeral_2_eq_2)
  ultimately show ?thesis using an(1) by blast
qed

end
