(* ===== verification/Client_Pool.thy ===== *)
theory Client_Pool
  imports Client_Callback Client_Util Client_Reach
begin

text \<open>
  \<open>util/pool.c\<close>: a pool of clients that threads share. What happens between taking and giving back the mutex is one step; a
  thread that waits for the condition has given the mutex back. The clients are kept by address, and the array of the pool holds addresses
  or \<open>NULL\<close>. \<open>None\<close> stands for an access outside of the array and for the use of \<open>NULL\<close> or of a client that has been freed.
\<close>

section \<open>State\<close>

record memcached_pool_st =
  pool_master :: client_st
  pool_mmc :: "nat option list"
  pool_firstfree :: int
  pool_size :: u32
  pool_current_size :: u32
  pool_version :: nat
  pool_clients :: "nat \<rightharpoonup> client_st"

text \<open>
  The environment: that of the clients; the functions that the application has set for clones; where \<open>calloc\<close> puts a client, which has
  the view \<open>pe_kernel\<close> of the operating system; and what a clone that fails leaves in the memory that it was given.
\<close>

record pool_env =
  pe_client :: client_env
  pe_hooks :: "nat \<Rightarrow> memcached_st \<Rightarrow> memcached_st"
  pe_calloc :: "(nat \<rightharpoonup> client_st) \<Rightarrow> nat option"
  pe_kernel :: client_st
  pe_zero :: memcached_st
  pe_wreck :: memcached_st

definition pool_env_ok :: "pool_env \<Rightarrow> bool" where
  "pool_env_ok E \<longleftrightarrow> (\<forall>h a. pe_calloc E h = Some a \<longrightarrow> h a = None)"

text \<open>The version is a pointer that is counted up from \<open>NULL\<close>.\<close>

definition version_ptr :: "nat \<Rightarrow> ptr" where
  "version_ptr v = (if v = 0 then None else Some v)"

section \<open>Locking\<close>

text \<open>What the calls of \<open>pthread_mutex_lock\<close> or \<open>pthread_mutex_unlock\<close> return, with \<open>errno\<close>.\<close>

fun mutex_result :: "(int \<times> int) list \<Rightarrow> memcached_return_t" where
  "mutex_result [] = MEMCACHED_SUCCESS"
| "mutex_result ((ret, e) # rest) =
     (if ret = - 1 \<and> e = EINTR then mutex_result rest else if ret = - 1 then MEMCACHED_ERRNO else MEMCACHED_SUCCESS)"

section \<open>The operations, with the mutex held\<close>

text \<open>\<open>memcached_clone\<close> of the master into the client at \<open>a\<close>, which is zero.\<close>

definition clone_master :: "pool_env \<Rightarrow> memcached_pool_st \<Rightarrow> memcached_st option option" where
  "clone_master E p =
     memcached_clone (ce_memc (pe_client E)) (pe_hooks E) (io_realloc (ce_io (pe_client E))) None (Some (pe_zero E)) (Some (c_memc (pool_master p)))"

text \<open>\<open>pool->mmc[++pool->firstfree]= a\<close>\<close>

definition put_free :: "nat option \<Rightarrow> memcached_pool_st \<Rightarrow> memcached_pool_st option" where
  "put_free a p =
     (let i = pool_firstfree p + 1
      in if 0 \<le> i \<and> i < int (length (pool_mmc p))
         then Some (p\<lparr>pool_firstfree := i, pool_mmc := (pool_mmc p)[nat i := a]\<rparr>) else None)"

definition grow_pool :: "pool_env \<Rightarrow> memcached_pool_st \<Rightarrow> (bool \<times> memcached_pool_st) option" where
  "grow_pool E p =
     (case pe_calloc E (pool_clients p) of
        None \<Rightarrow> Some (False, p)
      | Some a \<Rightarrow> do {
          obj \<leftarrow> clone_master E p;
          case obj of
            None \<Rightarrow> Some (False, p)
          | Some m \<Rightarrow> do {
              p \<leftarrow> put_free (Some a) (p\<lparr>pool_clients := (pool_clients p)(a \<mapsto> (pe_kernel E)\<lparr>c_memc := m\<rparr>)\<rparr>);
              Some (True, p\<lparr>pool_current_size := pool_current_size p + 1\<rparr>)
            }
        })"

fun grow_initial :: "pool_env \<Rightarrow> nat \<Rightarrow> memcached_pool_st \<Rightarrow> memcached_pool_st option" where
  "grow_initial E 0 p = Some p"
| "grow_initial E (Suc n) p = do {
     (ok, p) \<leftarrow> grow_pool E p;
     if ok then grow_initial E n p else Some p
   }"

text \<open>The results of the two calls of \<open>calloc\<close> come first.\<close>

definition memcached_pool_create ::
  "pool_env \<Rightarrow> bool \<Rightarrow> bool \<Rightarrow> client_st \<Rightarrow> u32 \<Rightarrow> u32 \<Rightarrow> memcached_pool_st option option" where
  "memcached_pool_create E array_ok object_ok master initial maximum =
     (if \<not> array_ok \<or> \<not> object_ok then Some None
      else map_option Some (grow_initial E (unat initial)
        (\<lparr>pool_master = master, pool_mmc = replicate (unat maximum) None, pool_firstfree = - 1, pool_size = maximum,
          pool_current_size = 0, pool_version = 0, pool_clients = Map.empty\<rparr>)))"

datatype pop_result = Popped nat | Must_wait | Refused

text \<open>The loop of \<open>memcached_pool_pop\<close> up to its end or the next wait. A hole of the array is taken like a client, and the loop goes on.\<close>

partial_function (option) pop_loop :: "pool_env \<Rightarrow> bool \<Rightarrow> memcached_pool_st \<Rightarrow> (pop_result \<times> memcached_pool_st) option" where
  "pop_loop E blocking p =
     (if pool_firstfree p > - 1
      then if nat (pool_firstfree p) < length (pool_mmc p)
           then (case pool_mmc p ! nat (pool_firstfree p) of
                   Some a \<Rightarrow> Some (Popped a, p\<lparr>pool_firstfree := pool_firstfree p - 1\<rparr>)
                 | None \<Rightarrow> pop_loop E blocking (p\<lparr>pool_firstfree := pool_firstfree p - 1\<rparr>))
           else None
      else if pool_current_size p = pool_size p then Some (if blocking then Must_wait else Refused, p)
      else Option.bind (grow_pool E p) (\<lambda>(ok, p). if ok then pop_loop E blocking p else Some (Refused, p)))"

text \<open>The second result: whether the threads that wait are woken.\<close>

definition memcached_pool_push ::
  "pool_env \<Rightarrow> nat \<Rightarrow> memcached_pool_st \<Rightarrow> ((memcached_return_t \<times> bool) \<times> memcached_pool_st) option" where
  "memcached_pool_push E a p = do {
     c \<leftarrow> pool_clients p a;
     (rc, p) \<leftarrow> (if memcached_get_user_data (c_memc c) \<noteq> version_ptr (pool_version p)
       then do {
         c \<leftarrow> memcached_free (pe_client E) c;
         obj \<leftarrow> clone_master E p;
         Some (if obj = None then MEMCACHED_SOME_ERRORS else MEMCACHED_SUCCESS,
               p\<lparr>pool_clients := (pool_clients p)(a \<mapsto> c\<lparr>c_memc := (case obj of None \<Rightarrow> pe_wreck E | Some m \<Rightarrow> m)\<rparr>)\<rparr>)
       }
       else Some (MEMCACHED_SUCCESS, p));
     p \<leftarrow> put_free (Some a) p;
     Some ((rc, pool_firstfree p = 0 \<and> pool_current_size p = pool_size p), p)
   }"

definition stamp_version :: "nat \<Rightarrow> client_st \<Rightarrow> client_st" where
  "stamp_version v c = c\<lparr>c_memc := snd (memcached_set_user_data (c_memc c) (version_ptr v))\<rparr>"

text \<open>The round of the loop of \<open>memcached_pool_behavior_set\<close> for the client at the index \<open>i\<close>.\<close>

definition update_clone :: "pool_env \<Rightarrow> memcached_behavior_t \<Rightarrow> u64 \<Rightarrow> nat \<Rightarrow> memcached_pool_st \<Rightarrow> memcached_pool_st option" where
  "update_clone E flag data i p = do {
     a \<leftarrow> (if i < length (pool_mmc p) then pool_mmc p ! i else None);
     c \<leftarrow> pool_clients p a;
     (rc, c) \<leftarrow> memcached_behavior_set (pe_client E) flag data c;
     if rc = MEMCACHED_SUCCESS then Some (p\<lparr>pool_clients := (pool_clients p)(a \<mapsto> stamp_version (pool_version p) c)\<rparr>)
     else do {
       c \<leftarrow> memcached_free (pe_client E) c;
       obj \<leftarrow> clone_master E p;
       case obj of
         Some m \<Rightarrow> Some (p\<lparr>pool_clients := (pool_clients p)(a \<mapsto> c\<lparr>c_memc := m\<rparr>)\<rparr>)
       | None \<Rightarrow> Some (p\<lparr>pool_clients := (pool_clients p)(a := None), pool_mmc := (pool_mmc p)[i := None]\<rparr>)
     }
   }"

fun update_clones :: "pool_env \<Rightarrow> memcached_behavior_t \<Rightarrow> u64 \<Rightarrow> nat list \<Rightarrow> memcached_pool_st \<Rightarrow> memcached_pool_st option" where
  "update_clones E flag data [] p = Some p"
| "update_clones E flag data (i # is) p = Option.bind (update_clone E flag data i p) (update_clones E flag data is)"

definition memcached_pool_behavior_set ::
  "pool_env \<Rightarrow> memcached_behavior_t \<Rightarrow> u64 \<Rightarrow> memcached_pool_st \<Rightarrow> (memcached_return_t \<times> memcached_pool_st) option" where
  "memcached_pool_behavior_set E flag data p = do {
     (rc, master) \<leftarrow> memcached_behavior_set (pe_client E) flag data (pool_master p);
     let p = p\<lparr>pool_master := master\<rparr>;
     if rc \<noteq> MEMCACHED_SUCCESS then Some (rc, p)
     else do {
       let v = pool_version p + 1;
       p \<leftarrow> update_clones E flag data [0 ..< nat (pool_firstfree p + 1)]
              (p\<lparr>pool_version := v, pool_master := stamp_version v (pool_master p)\<rparr>);
       Some (MEMCACHED_SUCCESS, p)
     }
   }"

definition memcached_pool_behavior_get ::
  "pool_env \<Rightarrow> memcached_behavior_t \<Rightarrow> memcached_pool_st \<Rightarrow> (u64 \<times> memcached_pool_st) option" where
  "memcached_pool_behavior_get E flag p =
     map_option (\<lambda>(n, c). (n, p\<lparr>pool_master := c\<rparr>)) (memcached_behavior_get (pe_client E) flag (pool_master p))"

text \<open>The clients in the array are freed. Those that threads hold are not.\<close>

fun destroy_clients :: "pool_env \<Rightarrow> nat option list \<Rightarrow> (nat \<rightharpoonup> client_st) \<Rightarrow> (nat \<rightharpoonup> client_st) option" where
  "destroy_clients E [] h = Some h"
| "destroy_clients E (p # ps) h = do {
     a \<leftarrow> p;
     c \<leftarrow> h a;
     _ \<leftarrow> memcached_free (pe_client E) c;
     destroy_clients E ps (h(a := None))
   }"

definition memcached_pool_destroy :: "pool_env \<Rightarrow> memcached_pool_st \<Rightarrow> (client_st \<times> (nat \<rightharpoonup> client_st)) option" where
  "memcached_pool_destroy E p =
     map_option (Pair (pool_master p)) (destroy_clients E (take (nat (pool_firstfree p + 1)) (pool_mmc p)) (pool_clients p))"

section \<open>Threads\<close>

text \<open>
  The clients that threads have taken, the threads that wait for the condition, and those that have been woken but do not have the
  mutex yet.
\<close>

record pool_sys =
  sys_pool :: memcached_pool_st
  sys_held :: "nat set"
  sys_waiting :: "nat set"
  sys_woken :: "nat set"

definition after_pop :: "nat \<Rightarrow> pop_result \<Rightarrow> memcached_pool_st \<Rightarrow> pool_sys \<Rightarrow> pool_sys" where
  "after_pop t r p s =
     s\<lparr>sys_pool := p, sys_held := (case r of Popped a \<Rightarrow> insert a (sys_held s) | _ \<Rightarrow> sys_held s),
       sys_waiting := (if r = Must_wait then insert t (sys_waiting s) else sys_waiting s)\<rparr>"

inductive pool_step :: "pool_sys \<Rightarrow> pool_sys \<Rightarrow> bool" where
  pop: "pool_env_ok E \<Longrightarrow> t \<notin> sys_waiting s \<union> sys_woken s \<Longrightarrow> pop_loop E blocking (sys_pool s) = Some (r, p) \<Longrightarrow>
    pool_step s (after_pop t r p s)"
| resume: "pool_env_ok E \<Longrightarrow> t \<in> sys_woken s \<Longrightarrow> pop_loop E True (sys_pool s) = Some (r, p) \<Longrightarrow>
    pool_step s (after_pop t r p (s\<lparr>sys_woken := sys_woken s - {t}\<rparr>))"
| spurious: "t \<in> sys_waiting s \<Longrightarrow>
    pool_step s (s\<lparr>sys_waiting := sys_waiting s - {t}, sys_woken := insert t (sys_woken s)\<rparr>)"
| push: "a \<in> sys_held s \<Longrightarrow> memcached_pool_push E a (sys_pool s) = Some ((rc, wake), p) \<Longrightarrow>
    pool_step s (s\<lparr>sys_pool := p, sys_held := sys_held s - {a}, sys_waiting := (if wake then {} else sys_waiting s),
                   sys_woken := (if wake then sys_woken s \<union> sys_waiting s else sys_woken s)\<rparr>)"
| work: "a \<in> sys_held s \<Longrightarrow>
    pool_step s (s\<lparr>sys_pool := (sys_pool s)\<lparr>pool_clients := (pool_clients (sys_pool s))(a \<mapsto> c)\<rparr>\<rparr>)"
| behave: "memcached_pool_behavior_set E flag data (sys_pool s) = Some (rc, p) \<Longrightarrow> pool_step s (s\<lparr>sys_pool := p\<rparr>)"

inductive pool_run :: "pool_sys \<Rightarrow> pool_sys \<Rightarrow> bool" where
  start: "pool_run s s"
| more: "pool_run s t \<Longrightarrow> pool_step t u \<Longrightarrow> pool_run s u"

inductive_cases pool_stepE: "pool_step s t"

section \<open>What holds of a pool\<close>

definition free_at :: "memcached_pool_st \<Rightarrow> nat \<Rightarrow> nat \<Rightarrow> bool" where
  "free_at p i a \<longleftrightarrow> int i \<le> pool_firstfree p \<and> pool_mmc p ! i = Some a"

definition pool_ok :: "memcached_pool_st \<Rightarrow> nat set \<Rightarrow> bool" where
  "pool_ok p held \<longleftrightarrow>
     - 1 \<le> pool_firstfree p \<and> int (length (pool_mmc p)) = uint (pool_size p) \<and> finite held \<and>
     pool_firstfree p + 1 + int (card held) \<le> uint (pool_current_size p) \<and> uint (pool_current_size p) \<le> uint (pool_size p) \<and>
     (\<forall>i j a. free_at p i a \<longrightarrow> free_at p j a \<longrightarrow> i = j) \<and> (\<forall>i a. free_at p i a \<longrightarrow> a \<notin> held) \<and>
     dom (pool_clients p) = held \<union> {a. \<exists>i. free_at p i a}"

definition exhausted :: "memcached_pool_st \<Rightarrow> bool" where
  "exhausted p \<longleftrightarrow> pool_firstfree p = - 1 \<and> pool_current_size p = pool_size p"

text \<open>Taking the last entry of the array, a client or a hole.\<close>

lemma take_last:
  assumes "pool_ok p held" and "- 1 < pool_firstfree p"
  shows "nat (pool_firstfree p) < length (pool_mmc p)"
    and "pool_mmc p ! nat (pool_firstfree p) = Some a \<Longrightarrow>
      a \<notin> held \<and> pool_ok (p\<lparr>pool_firstfree := pool_firstfree p - 1\<rparr>) (insert a held)"
    and "pool_mmc p ! nat (pool_firstfree p) = None \<Longrightarrow> pool_ok (p\<lparr>pool_firstfree := pool_firstfree p - 1\<rparr>) held"
proof -
  let ?q = "p\<lparr>pool_firstfree := pool_firstfree p - 1\<rparr>"
  obtain n where n: "pool_firstfree p = int n" using assms(2) by (cases "pool_firstfree p" rule: int_cases) auto
  have "int n < int (length (pool_mmc p))" using assms n by (simp add: pool_ok_def)
  then show "nat (pool_firstfree p) < length (pool_mmc p)" by (simp add: n)
  have free: "free_at ?q i b \<longleftrightarrow> free_at p i b \<and> i \<noteq> n" for i b by (auto simp: free_at_def n)
  show "a \<notin> held \<and> pool_ok ?q (insert a held)" if a: "pool_mmc p ! nat (pool_firstfree p) = Some a"
  proof -
    have at: "free_at p n a" using a by (simp add: free_at_def n)
    then have "a \<notin> held" using assms(1) by (auto simp: pool_ok_def)
    moreover have "i = n" if "free_at p i a" for i using assms(1) at that by (auto simp: pool_ok_def)
    moreover have "b = a" if "free_at p n b" for b using at that by (simp add: free_at_def)
    ultimately have rest: "\<forall>i b. free_at ?q i b \<longrightarrow> b \<notin> insert a held" "insert a held \<union> {b. \<exists>i. free_at ?q i b} = held \<union> {b. \<exists>i. free_at p i b}"
      using assms(1) at unfolding pool_ok_def free by blast+
    have "\<forall>i j b. free_at ?q i b \<longrightarrow> free_at ?q j b \<longrightarrow> i = j" using assms(1) unfolding pool_ok_def free by blast
    with rest show ?thesis using assms \<open>a \<notin> held\<close> unfolding pool_ok_def by simp
  qed
  show "pool_ok ?q held" if "pool_mmc p ! nat (pool_firstfree p) = None"
  proof -
    have "free_at p i b \<longrightarrow> i \<noteq> n" for i b using that by (auto simp: free_at_def n)
    then have "free_at ?q i b \<longleftrightarrow> free_at p i b" for i b unfolding free by blast
    then show ?thesis using assms unfolding pool_ok_def by auto
  qed
qed

text \<open>Adding a client that is neither free nor held.\<close>

lemma put_free_ok:
  assumes "- 1 \<le> pool_firstfree p" and "pool_firstfree p + 1 < int (length (pool_mmc p))"
  shows "\<exists>q. put_free (Some a) p = Some q \<and> q = p\<lparr>pool_firstfree := pool_firstfree p + 1, pool_mmc := (pool_mmc p)[nat (pool_firstfree p + 1) := Some a]\<rparr> \<and>
    (\<forall>i b. free_at q i b \<longleftrightarrow> (if int i = pool_firstfree p + 1 then b = a else free_at p i b))"
proof -
  obtain n where n: "pool_firstfree p = int n - 1" using assms(1) zero_le_imp_eq_int [of "pool_firstfree p + 1"] by (auto simp: eq_diff_eq)
  with assms(2) have "n < length (pool_mmc p)" by simp
  then show ?thesis by (auto simp: put_free_def Let_def free_at_def n nth_list_update)
qed

lemma grow_pool_ok:
  assumes "pool_ok p held" and "pool_env_ok E" and "pool_current_size p \<noteq> pool_size p"
  shows "(grow_pool E p = None \<and> clone_master E p = None) \<or> grow_pool E p = Some (False, p) \<or>
    (\<exists>q. grow_pool E p = Some (True, q) \<and> pool_ok q held \<and> pool_firstfree q = pool_firstfree p + 1 \<and>
       pool_current_size q = pool_current_size p + 1 \<and> pool_size q = pool_size p \<and> pool_master q = pool_master p \<and>
       pool_mmc q ! nat (pool_firstfree q) \<noteq> None)"
proof (cases "pe_calloc E (pool_clients p)")
  case None
  then show ?thesis by (simp add: grow_pool_def)
next
  case (Some a)
  then have new: "pool_clients p a = None" using assms(2) by (simp add: pool_env_ok_def)
  show ?thesis
  proof (cases "clone_master E p")
    case None
    with Some show ?thesis by (simp add: grow_pool_def)
  next
    case obj: (Some obj)
    show ?thesis
    proof (cases obj)
      case None
      with Some obj show ?thesis by (simp add: grow_pool_def)
    next
      case m: (Some m)
      let ?p = "p\<lparr>pool_clients := (pool_clients p)(a \<mapsto> (pe_kernel E)\<lparr>c_memc := m\<rparr>)\<rparr>"
      have "uint (pool_current_size p) \<noteq> uint (pool_size p)" using assms(3) by (auto dest: unsigned_word_eqI)
      then have room: "uint (pool_current_size p) < uint (pool_size p)" using assms(1) by (simp add: pool_ok_def)
      then have cur: "uint (pool_current_size p + 1) = uint (pool_current_size p) + 1"
        using uint_bounded [of "pool_size p"] uint_nonnegative [of "pool_current_size p"] by (simp add: uint_word_ariths)
      have "- 1 \<le> pool_firstfree ?p" "pool_firstfree ?p + 1 < int (length (pool_mmc ?p))"
        using assms(1) room by (simp_all add: pool_ok_def)
      from put_free_ok [OF this, of a] obtain q where q: "put_free (Some a) ?p = Some q"
        "q = ?p\<lparr>pool_firstfree := pool_firstfree p + 1, pool_mmc := (pool_mmc p)[nat (pool_firstfree p + 1) := Some a]\<rparr>"
        "\<forall>i b. free_at q i b \<longleftrightarrow> (if int i = pool_firstfree p + 1 then b = a else free_at ?p i b)" by auto
      let ?q = "q\<lparr>pool_current_size := pool_current_size q + 1\<rparr>"
      have free: "free_at ?q i b \<longleftrightarrow> (if int i = pool_firstfree p + 1 then b = a else free_at p i b)" for i b
        using q(3) by (simp add: free_at_def)
      have "a \<notin> held \<union> {a. \<exists>i. free_at p i a}" using assms(1) new by (metis pool_ok_def domIff)
      then have fresh: "\<not> free_at p i a" "a \<notin> held" for i by auto
      obtain n where n: "pool_firstfree p + 1 = int n"
        using assms(1) zero_le_imp_eq_int [of "pool_firstfree p + 1"] by (auto simp: pool_ok_def)
      have e: "int i = pool_firstfree p + 1 \<longleftrightarrow> i = n" for i using n by simp
      have none: "\<not> free_at p n b" for b using n by (simp add: free_at_def)
      have at: "free_at ?q i b \<longleftrightarrow> (i = n \<and> b = a) \<or> free_at p i b" for i b
        unfolding free e using none by auto
      have "\<forall>i j b. free_at ?q i b \<longrightarrow> free_at ?q j b \<longrightarrow> i = j" "\<forall>i b. free_at ?q i b \<longrightarrow> b \<notin> held"
        "{b. \<exists>i. free_at ?q i b} = insert a {b. \<exists>i. free_at p i b}"
        using assms(1) fresh none unfolding at pool_ok_def by blast+
      then have "pool_ok ?q held"
        using assms(1) room cur unfolding pool_ok_def by (simp add: q(2))
      moreover have "pool_mmc ?q ! nat (pool_firstfree ?q) = Some a"
        using at [of n a] n by (simp add: free_at_def) (simp add: q(2))
      moreover have "grow_pool E p = Some (True, ?q)" using q(1) Some obj m by (simp add: grow_pool_def)
      moreover have "pool_firstfree ?q = pool_firstfree p + 1" "pool_current_size ?q = pool_current_size p + 1"
        "pool_size ?q = pool_size p" "pool_master ?q = pool_master p" by (simp_all add: q(2))
      ultimately show ?thesis by blast
    qed
  qed
qed

text \<open>The loop of \<open>memcached_pool_pop\<close> ends, unless cloning the master is undefined.\<close>

definition popped_well :: "bool \<Rightarrow> memcached_pool_st \<Rightarrow> nat set \<Rightarrow> pop_result \<times> memcached_pool_st \<Rightarrow> bool" where
  "popped_well blocking p held = (\<lambda>(r, q).
     (case r of
        Popped a \<Rightarrow> a \<notin> held \<and> pool_ok q (insert a held) \<and> \<not> exhausted p
      | Must_wait \<Rightarrow> blocking \<and> pool_ok q held \<and> exhausted q
      | Refused \<Rightarrow> pool_ok q held) \<and>
     pool_size q = pool_size p \<and> (exhausted p \<longrightarrow> exhausted q))"

lemma pop_ready:
  assumes "pool_ok p held" and "- 1 < pool_firstfree p" and "pool_mmc p ! nat (pool_firstfree p) = Some a"
  shows "pop_loop E blocking p = Some (Popped a, p\<lparr>pool_firstfree := pool_firstfree p - 1\<rparr>) \<and>
    popped_well blocking p held (Popped a, p\<lparr>pool_firstfree := pool_firstfree p - 1\<rparr>)"
  using take_last(1) [OF assms(1,2)] take_last(2) [OF assms(1,2), of a] assms(2,3)
  by (subst pop_loop.simps) (simp add: popped_well_def exhausted_def)

lemma pop_loop_ok:
  assumes "pool_ok p held" and "pool_env_ok E"
  shows "(pop_loop E blocking p = None \<and> clone_master E p = None) \<or>
    (\<exists>result. pop_loop E blocking p = Some result \<and> popped_well blocking p held result)"
  using assms(1)
proof (induction "nat (pool_firstfree p + 1)" arbitrary: p)
  case 0
  then have ff: "pool_firstfree p = - 1" by (simp add: pool_ok_def)
  show ?case
  proof (cases "pool_current_size p = pool_size p")
    case True
    with ff 0(2) show ?thesis by (subst (1 2) pop_loop.simps) (simp add: popped_well_def exhausted_def)
  next
    case False
    then have round: "pop_loop E blocking p = Option.bind (grow_pool E p) (\<lambda>(ok, p). if ok then pop_loop E blocking p else Some (Refused, p))"
      using ff by (subst pop_loop.simps) simp
    from grow_pool_ok [OF 0(2) assms(2) False] show ?thesis
    proof (elim disjE exE conjE)
      assume "grow_pool E p = Some (False, p)"
      with round 0(2) False show ?thesis by (simp add: popped_well_def exhausted_def)
    next
      fix q assume q: "grow_pool E p = Some (True, q)" "pool_ok q held" "pool_firstfree q = pool_firstfree p + 1"
        "pool_size q = pool_size p" "pool_mmc q ! nat (pool_firstfree q) \<noteq> None"
      then obtain a where "pool_mmc q ! nat (pool_firstfree q) = Some a" by blast
      from pop_ready [OF q(2) _ this, of E blocking] q ff False round show ?thesis
        by (auto simp: popped_well_def exhausted_def)
    qed (use round in simp)
  qed
next
  case (Suc n)
  then have ff: "- 1 < pool_firstfree p" by simp
  let ?q = "p\<lparr>pool_firstfree := pool_firstfree p - 1\<rparr>"
  show ?case
  proof (cases "pool_mmc p ! nat (pool_firstfree p)")
    case None
    then have step: "pop_loop E blocking p = pop_loop E blocking ?q"
      using take_last(1) [OF Suc(3) ff] ff by (subst pop_loop.simps) simp
    have "n = nat (pool_firstfree ?q + 1)" using Suc(2) by simp
    from Suc(1) [OF this take_last(3) [OF Suc(3) ff None]] show ?thesis
      using ff unfolding step by (auto simp: popped_well_def exhausted_def clone_master_def split: pop_result.splits)
  next
    case (Some a)
    with pop_ready [OF Suc(3) ff] show ?thesis by blast
  qed
qed

text \<open>Nothing depends on what a client is, on the master or the version.\<close>

lemma pool_ok_client:
  "pool_clients p a = Some c \<Longrightarrow> pool_ok (p\<lparr>pool_clients := (pool_clients p)(a \<mapsto> d)\<rparr>) held \<longleftrightarrow> pool_ok p held"
  by (auto simp: pool_ok_def free_at_def)

lemma pool_ok_master [simp]:
  "pool_ok (p\<lparr>pool_master := m\<rparr>) held \<longleftrightarrow> pool_ok p held" "pool_ok (p\<lparr>pool_version := v\<rparr>) held \<longleftrightarrow> pool_ok p held"
  by (simp_all add: pool_ok_def free_at_def)

lemma put_back:
  assumes "pool_ok p held" and "a \<in> held"
  shows "\<exists>q. put_free (Some a) p = Some q \<and> pool_ok q (held - {a}) \<and> pool_firstfree q = pool_firstfree p + 1 \<and>
    pool_size q = pool_size p \<and> pool_current_size q = pool_current_size p"
proof -
  have "finite held" using assms(1) by (simp add: pool_ok_def)
  then have held: "Suc (card (held - {a})) = card held" using assms(2) by (rule card_Suc_Diff1)
  have "- 1 \<le> pool_firstfree p" "pool_firstfree p + 1 + int (card held) \<le> uint (pool_current_size p)"
    "uint (pool_current_size p) \<le> uint (pool_size p)" "int (length (pool_mmc p)) = uint (pool_size p)"
    using assms(1) by (simp_all add: pool_ok_def)
  with held have "- 1 \<le> pool_firstfree p" "pool_firstfree p + 1 < int (length (pool_mmc p))" by linarith+
  from put_free_ok [OF this, of a] obtain q where q: "put_free (Some a) p = Some q"
    "q = p\<lparr>pool_firstfree := pool_firstfree p + 1, pool_mmc := (pool_mmc p)[nat (pool_firstfree p + 1) := Some a]\<rparr>"
    "\<forall>i b. free_at q i b \<longleftrightarrow> (if int i = pool_firstfree p + 1 then b = a else free_at p i b)" by auto
  obtain n where n: "pool_firstfree p + 1 = int n"
    using assms(1) zero_le_imp_eq_int [of "pool_firstfree p + 1"] by (auto simp: pool_ok_def)
  have e: "int i = pool_firstfree p + 1 \<longleftrightarrow> i = n" for i using n by simp
  have none: "\<not> free_at p n b" for b using n by (simp add: free_at_def)
  have at: "free_at q i b \<longleftrightarrow> (i = n \<and> b = a) \<or> free_at p i b" for i b
    using q(3) none unfolding e by auto
  have "\<forall>i j b. free_at q i b \<longrightarrow> free_at q j b \<longrightarrow> i = j" "\<forall>i b. free_at q i b \<longrightarrow> b \<notin> held - {a}"
    "held - {a} \<union> {b. \<exists>i. free_at q i b} = held \<union> {b. \<exists>i. free_at p i b}"
    using assms none unfolding at pool_ok_def by blast+
  moreover have "pool_firstfree p + 2 + int (card (held - {a})) \<le> uint (pool_current_size p)"
    using assms(1) held unfolding pool_ok_def by linarith
  ultimately have "pool_ok q (held - {a})" using assms(1) unfolding pool_ok_def by (simp add: q(2) del: card_Diff_insert card_Diff_singleton)
  then show ?thesis using q(1) by (simp add: q(2))
qed

lemma push_ok:
  assumes "pool_ok p held" and "a \<in> held"
  shows "memcached_pool_push E a p = None \<Longrightarrow>
      clone_master E p = None \<or> (\<exists>c. pool_clients p a = Some c \<and> memcached_free (pe_client E) c = None)"
    and "memcached_pool_push E a p = Some ((rc, wake), q) \<Longrightarrow>
      pool_ok q (held - {a}) \<and> pool_size q = pool_size p \<and> (exhausted p \<longrightarrow> wake)"
proof -
  have "a \<in> dom (pool_clients p)" using assms by (simp add: pool_ok_def)
  then obtain c where c: "pool_clients p a = Some c" by auto
  have put: "\<exists>r. put_free (Some a) (p\<lparr>pool_clients := (pool_clients p)(a \<mapsto> d)\<rparr>) = Some r \<and> pool_ok r (held - {a}) \<and>
      pool_firstfree r = pool_firstfree p + 1 \<and> pool_size r = pool_size p \<and> pool_current_size r = pool_current_size p" for d
    using put_back [of "p\<lparr>pool_clients := (pool_clients p)(a \<mapsto> d)\<rparr>" held a] assms pool_ok_client [OF c] by simp
  have same: "p\<lparr>pool_clients := (pool_clients p)(a \<mapsto> c)\<rparr> = p" using c by (simp add: fun_upd_idem)
  show "memcached_pool_push E a p = None \<Longrightarrow>
      clone_master E p = None \<or> (\<exists>c. pool_clients p a = Some c \<and> memcached_free (pe_client E) c = None)"
  proof (rule ccontr)
    assume none: "memcached_pool_push E a p = None"
      and "\<not> (clone_master E p = None \<or> (\<exists>c. pool_clients p a = Some c \<and> memcached_free (pe_client E) c = None))"
    with c obtain d obj where "memcached_free (pe_client E) c = Some d" "clone_master E p = Some obj" by auto
    with none c put [of "d\<lparr>c_memc := (case obj of None \<Rightarrow> pe_wreck E | Some m \<Rightarrow> m)\<rparr>"] put [of c, unfolded same] show False
      by (auto simp: memcached_pool_push_def split: if_splits)
  qed
  show "memcached_pool_push E a p = Some ((rc, wake), q) \<Longrightarrow>
      pool_ok q (held - {a}) \<and> pool_size q = pool_size p \<and> (exhausted p \<longrightarrow> wake)"
  proof -
    assume push: "memcached_pool_push E a p = Some ((rc, wake), q)"
    then obtain d where "put_free (Some a) (p\<lparr>pool_clients := (pool_clients p)(a \<mapsto> d)\<rparr>) = Some q"
        "wake \<longleftrightarrow> pool_firstfree q = 0 \<and> pool_current_size q = pool_size q"
      using c same by (auto simp: memcached_pool_push_def bind_eq_Some_conv split: if_splits prod.splits) metis+
    with put [of d] show ?thesis by (auto simp: exhausted_def)
  qed
qed

lemma update_clone_ok:
  assumes "pool_ok p held" and "int i \<le> pool_firstfree p" and "update_clone E flag data i p = Some q"
  shows "pool_ok q held \<and> pool_firstfree q = pool_firstfree p \<and> pool_size q = pool_size p \<and> pool_current_size q = pool_current_size p"
proof -
  obtain a c where a: "i < length (pool_mmc p)" "pool_mmc p ! i = Some a" "pool_clients p a = Some c"
    using assms(3) by (auto simp: update_clone_def bind_eq_Some_conv split: if_splits)
  consider d where "q = p\<lparr>pool_clients := (pool_clients p)(a \<mapsto> d)\<rparr>"
    | "q = p\<lparr>pool_clients := (pool_clients p)(a := None), pool_mmc := (pool_mmc p)[i := None]\<rparr>"
    using assms(3) a by (auto simp: update_clone_def bind_eq_Some_conv split: if_splits option.splits)
  then show ?thesis
  proof cases
    case 1
    with assms(1) pool_ok_client [OF a(3)] show ?thesis by simp
  next
    case 2
    have at: "free_at p i a" using a assms(2) by (simp add: free_at_def)
    have free: "free_at q j b \<longleftrightarrow> free_at p j b \<and> j \<noteq> i" for j b
      using a(1) by (cases "j = i") (auto simp: 2 free_at_def)
    have "b = a" if "free_at p i b" for b using that a(2) by (simp add: free_at_def)
    then have "(held \<union> {b. \<exists>j. free_at p j b}) - {a} = held \<union> {b. \<exists>j. free_at q j b}"
      using assms(1) at unfolding free pool_ok_def by blast
    moreover have "\<forall>j k b. free_at q j b \<longrightarrow> free_at q k b \<longrightarrow> j = k" "\<forall>j b. free_at q j b \<longrightarrow> b \<notin> held"
      using assms(1) unfolding free pool_ok_def by blast+
    ultimately have "pool_ok q held" using assms(1) unfolding pool_ok_def by (simp add: 2)
    then show ?thesis by (simp add: 2)
  qed
qed

lemma update_clones_ok:
  "pool_ok p held \<Longrightarrow> \<forall>i \<in> set is. int i \<le> pool_firstfree p \<Longrightarrow> update_clones E flag data is p = Some q \<Longrightarrow>
     pool_ok q held \<and> pool_firstfree q = pool_firstfree p \<and> pool_size q = pool_size p \<and> pool_current_size q = pool_current_size p"
proof (induction "is" arbitrary: p)
  case (Cons i "is")
  from Cons.prems(3) obtain r where r: "update_clone E flag data i p = Some r" "update_clones E flag data is r = Some q"
    by (auto simp: bind_eq_Some_conv)
  from update_clone_ok [OF Cons.prems(1) _ r(1)] Cons.prems(2) Cons.IH [of r] r(2) show ?case by simp
qed simp

lemma behavior_set_ok:
  assumes "pool_ok p held" and "memcached_pool_behavior_set E flag data p = Some (rc, q)"
  shows "pool_ok q held \<and> pool_size q = pool_size p \<and> (exhausted p \<longrightarrow> exhausted q)"
proof -
  obtain rc' m where m: "memcached_behavior_set (pe_client E) flag data (pool_master p) = Some (rc', m)"
    using assms(2) by (auto simp: memcached_pool_behavior_set_def bind_eq_Some_conv)
  show ?thesis
  proof (cases "rc' = MEMCACHED_SUCCESS")
    case False
    with m assms show ?thesis by (auto simp: memcached_pool_behavior_set_def exhausted_def)
  next
    case True
    let ?p = "p\<lparr>pool_version := pool_version p + 1, pool_master := stamp_version (pool_version p + 1) m\<rparr>"
    from True m assms(2) have "update_clones E flag data [0 ..< nat (pool_firstfree p + 1)] ?p = Some q"
      by (auto simp: memcached_pool_behavior_set_def Let_def bind_eq_Some_conv)
    moreover have "\<forall>i \<in> set [0 ..< nat (pool_firstfree p + 1)]. int i \<le> pool_firstfree ?p" by auto
    moreover have "pool_ok ?p held" using assms(1) by simp
    ultimately have "pool_ok q held \<and> pool_firstfree q = pool_firstfree ?p \<and> pool_size q = pool_size ?p \<and> pool_current_size q = pool_current_size ?p"
      by (intro update_clones_ok)
    then show ?thesis by (simp add: exhausted_def)
  qed
qed

lemma grow_initial_ok:
  assumes "pool_env_ok E"
  shows "pool_ok p {} \<Longrightarrow> unat (pool_current_size p) + n \<le> unat (pool_size p) \<Longrightarrow> grow_initial E n p = Some q \<Longrightarrow> pool_ok q {}"
proof (induction n arbitrary: p)
  case (Suc n)
  from Suc.prems(2) have neq: "pool_current_size p \<noteq> pool_size p" by auto
  from Suc.prems(3) obtain ok r where r: "grow_pool E p = Some (ok, r)" "(if ok then grow_initial E n r else Some r) = Some q"
    by (auto simp: bind_eq_Some_conv)
  from grow_pool_ok [OF Suc.prems(1) assms neq] show ?case
  proof (elim disjE exE conjE)
    fix u assume u: "grow_pool E p = Some (True, u)" "pool_ok u {}" "pool_current_size u = pool_current_size p + 1" "pool_size u = pool_size p"
    have "unat (pool_current_size p + 1) \<le> unat (pool_current_size p) + 1"
      by (simp add: unat_word_ariths mod_le_divisor [THEN order_trans])
    with u r Suc.prems(2) Suc.IH [of u] show ?case by simp
  qed (use r Suc.prems(1) in auto)
qed simp

definition pool_start :: "memcached_pool_st \<Rightarrow> pool_sys" where
  "pool_start p = \<lparr>sys_pool = p, sys_held = {}, sys_waiting = {}, sys_woken = {}\<rparr>"

text \<open>The invariant of the threads: none waits unless all clients are in use.\<close>

definition sys_ok :: "pool_sys \<Rightarrow> bool" where
  "sys_ok s \<longleftrightarrow> pool_ok (sys_pool s) (sys_held s) \<and> (sys_waiting s \<noteq> {} \<longrightarrow> exhausted (sys_pool s))"

lemma after_pop_ok:
  assumes "sys_ok s" and "popped_well blocking (sys_pool s) (sys_held s) (r, p)"
  shows "sys_ok (after_pop t r p s)"
  using assms by (cases r) (auto simp: sys_ok_def popped_well_def after_pop_def)

lemma pool_step_ok: "pool_step s t \<Longrightarrow> sys_ok s \<Longrightarrow> sys_ok t"
proof (induction rule: pool_step.induct)
  case (pop E t s blocking r p)
  then show ?case using pop_loop_ok [of "sys_pool s" "sys_held s" E blocking] after_pop_ok by (auto simp: sys_ok_def)
next
  case (resume E t s r p)
  then have "sys_ok (s\<lparr>sys_woken := sys_woken s - {t}\<rparr>)" by (simp add: sys_ok_def)
  with resume show ?case using pop_loop_ok [of "sys_pool s" "sys_held s" E True] after_pop_ok [of "s\<lparr>sys_woken := sys_woken s - {t}\<rparr>" True]
    by (auto simp: sys_ok_def)
next
  case (spurious t s)
  then show ?case by (auto simp: sys_ok_def)
next
  case (push a s E rc wake p)
  then show ?case using push_ok(2) [of "sys_pool s" "sys_held s" a E rc wake p] by (auto simp: sys_ok_def)
next
  case (work a s c)
  then have "a \<in> dom (pool_clients (sys_pool s))" by (simp add: sys_ok_def pool_ok_def)
  with work show ?case by (auto simp: sys_ok_def pool_ok_client exhausted_def)
next
  case (behave E flag data s rc p)
  then show ?case using behavior_set_ok [of "sys_pool s" "sys_held s"] by (auto simp: sys_ok_def)
qed

text \<open>
  C13: whatever threads do with a pool that was created with no more clients than it has room for, and however their calls interleave,
  fail and wait: a free client is not in use and is in the array once, so that no two threads have the same; there are never more
  clients than the pool allows; a thread sleeps only while all clients are in use; taking a client always ends, and neither
  taking nor giving back leaves the array.
\<close>

lemma pool_shared:
  assumes "memcached_pool_create E0 array_ok object_ok master initial maximum = Some (Some p0)" and "pool_env_ok E0"
    and "unat initial \<le> unat maximum" and "pool_run (pool_start p0) s"
  shows "(\<forall>i a. free_at (sys_pool s) i a \<longrightarrow> a \<notin> sys_held s) \<and> (\<forall>i j a. free_at (sys_pool s) i a \<longrightarrow> free_at (sys_pool s) j a \<longrightarrow> i = j) \<and>
    pool_firstfree (sys_pool s) + 1 + int (card (sys_held s)) \<le> uint (pool_size (sys_pool s)) \<and>
    (sys_waiting s \<noteq> {} \<longrightarrow> pool_firstfree (sys_pool s) = - 1 \<and> pool_current_size (sys_pool s) = pool_size (sys_pool s)) \<and>
    (\<forall>E blocking. pool_env_ok E \<longrightarrow> pop_loop E blocking (sys_pool s) = None \<longrightarrow> clone_master E (sys_pool s) = None) \<and>
    (\<forall>E a. a \<in> sys_held s \<longrightarrow> memcached_pool_push E a (sys_pool s) = None \<longrightarrow> clone_master E (sys_pool s) = None \<or>
       (\<exists>c. pool_clients (sys_pool s) a = Some c \<and> memcached_free (pe_client E) c = None))"
proof -
  let ?p = "\<lparr>pool_master = master, pool_mmc = replicate (unat maximum) None, pool_firstfree = - 1, pool_size = maximum,
    pool_current_size = 0, pool_version = 0, pool_clients = Map.empty\<rparr>"
  have "pool_ok ?p {}" by (simp add: pool_ok_def free_at_def)
  moreover have "grow_initial E0 (unat initial) ?p = Some p0" using assms(1) by (auto simp: memcached_pool_create_def split: if_splits)
  ultimately have "pool_ok p0 {}" using grow_initial_ok [OF assms(2), of ?p "unat initial" p0] assms(3) by simp
  then have start: "sys_ok (pool_start p0)" by (simp add: sys_ok_def pool_start_def)
  have "sys_ok s" using assms(4) start
    by (induction rule: pool_run.induct) (auto intro: pool_step_ok)
  then have ok: "pool_ok (sys_pool s) (sys_held s)" "sys_waiting s \<noteq> {} \<longrightarrow> exhausted (sys_pool s)" by (simp_all add: sys_ok_def)
  have "pop_loop E blocking (sys_pool s) = None \<Longrightarrow> clone_master E (sys_pool s) = None" if "pool_env_ok E" for E blocking
    using pop_loop_ok [OF ok(1) that, of blocking] by auto
  moreover note push_ok(1) [OF ok(1)]
  moreover have "pool_firstfree (sys_pool s) + 1 + int (card (sys_held s)) \<le> uint (pool_size (sys_pool s))"
    using ok(1) by (simp add: pool_ok_def)
  ultimately show ?thesis using ok unfolding pool_ok_def exhausted_def by blast
qed

section \<open>A pool that starts with more clients than it has room for\<close>

lemma grow_pool_overruns:
  assumes "pe_calloc E (pool_clients p) = Some a" and "clone_master E p = Some (Some m)" and "int (length (pool_mmc p)) \<le> pool_firstfree p + 1"
  shows "grow_pool E p = None"
  using assms by (simp add: grow_pool_def put_free_def Let_def)

text \<open>
  C40: the number of clients to start with is not compared with the size of the pool: when it is larger, and there is memory, creating
  the pool writes behind its array.
\<close>

lemma pool_initial_overruns:
  assumes "unat maximum < unat initial" and "\<And>h. finite (dom h) \<Longrightarrow> pe_calloc E h \<noteq> None"
    and "memcached_clone (ce_memc (pe_client E)) (pe_hooks E) (io_realloc (ce_io (pe_client E))) None (Some (pe_zero E)) (Some (c_memc master)) =
      Some (Some m)"
  shows "memcached_pool_create E True True master initial maximum = None"
proof -
  have "grow_initial E n p = None" if "pool_master p = master" "finite (dom (pool_clients p))" "- 1 \<le> pool_firstfree p"
    "pool_firstfree p + 1 \<le> int (length (pool_mmc p))" "int (length (pool_mmc p)) < pool_firstfree p + 1 + int n" for n p
    using that
  proof (induction n arbitrary: p)
    case (Suc n)
    obtain a where a: "pe_calloc E (pool_clients p) = Some a" using assms(2) Suc.prems(2) by blast
    have clone: "clone_master E p = Some (Some m)" using assms(3) Suc.prems(1) by (simp add: clone_master_def)
    show ?case
    proof (cases "pool_firstfree p + 1 < int (length (pool_mmc p))")
      case False
      with grow_pool_overruns [OF a clone] show ?thesis by simp
    next
      case True
      let ?p = "p\<lparr>pool_clients := (pool_clients p)(a \<mapsto> (pe_kernel E)\<lparr>c_memc := m\<rparr>)\<rparr>"
      from put_free_ok [of ?p a] True Suc.prems(3) obtain q where q: "put_free (Some a) ?p = Some q"
        "q = ?p\<lparr>pool_firstfree := pool_firstfree p + 1, pool_mmc := (pool_mmc p)[nat (pool_firstfree p + 1) := Some a]\<rparr>" by auto
      have "grow_initial E n (q\<lparr>pool_current_size := pool_current_size q + 1\<rparr>) = None"
      proof (rule Suc.IH)
        have "dom (pool_clients (q\<lparr>pool_current_size := pool_current_size q + 1\<rparr>)) = insert a (dom (pool_clients p))" by (auto simp: q(2))
        then show "finite (dom (pool_clients (q\<lparr>pool_current_size := pool_current_size q + 1\<rparr>)))" using Suc.prems(2) by simp
      qed (use Suc.prems True in \<open>simp_all add: q(2)\<close>)
      then show ?thesis using a clone q(1) by (simp add: grow_pool_def)
    qed
  qed simp
  from this [of "\<lparr>pool_master = master, pool_mmc = replicate (unat maximum) None, pool_firstfree = - 1, pool_size = maximum,
    pool_current_size = 0, pool_version = 0, pool_clients = Map.empty\<rparr>" "unat initial"]
  have "uint maximum < uint initial \<Longrightarrow> ?thesis" by (simp add: memcached_pool_create_def)
  moreover have "uint maximum < uint initial" using assms(1) by (metis word_less_nat_alt word_less_def)
  ultimately show ?thesis by blast
qed

section \<open>Witnesses\<close>

text \<open>A master without servers, and memory for any number of clients.\<close>

definition lonely_master :: client_st where
  "lonely_master = example_client global_copy_flags [] []"

definition example_pool_env :: pool_env where
  "example_pool_env = \<lparr>pe_client = example_env, pe_hooks = (\<lambda>_ p. p), pe_calloc = (\<lambda>h. if finite (dom h) then Some (LEAST a. h a = None) else None),
     pe_kernel = lonely_master, pe_zero = zero_memcached, pe_wreck = zero_memcached\<rparr>"

lemma example_pool_env_ok: "pool_env_ok example_pool_env" "finite (dom h) \<Longrightarrow> pe_calloc example_pool_env h \<noteq> None"
proof -
  have "h (LEAST a. h a = None) = None" if fin: "finite (dom h)" for h :: "nat \<Rightarrow> client_st option"
  proof -
    obtain a where "a \<notin> dom h" using ex_new_if_finite [OF infinite_UNIV_nat fin] by blast
    then show ?thesis by (intro LeastI [of "\<lambda>a. h a = None" a]) auto
  qed
  then show "pool_env_ok example_pool_env" by (simp add: pool_env_ok_def example_pool_env_def)
qed (simp add: example_pool_env_def)

lemma clone_without_servers:
  assumes "memcached_create realloc malloc (Some z) = Some q" and "\<not> memc_is_allocated z" and "memcached_server_count source = 0"
    and "distribution source = MEMCACHED_DISTRIBUTION_MODULA" and "\<not> use_sort_hosts (flags source)"
  shows "\<exists>m. memcached_clone E hooks realloc malloc (Some z) (Some source) = Some (Some m)"
proof -
  have "distribution (clone_prefix source (clone_settings source q)) = MEMCACHED_DISTRIBUTION_MODULA"
    "flags (clone_prefix source (clone_settings source q)) = flags source"
    using assms(4) by (simp_all add: clone_prefix_def clone_settings_def)
  then show ?thesis using assms by (auto simp: memcached_clone_def run_distribution_def split: option.split)
qed

lemma zero_creates: "\<exists>q. memcached_create (io_realloc example_io) None (Some zero_memcached) = Some q"
  using result_create_in_place [of "io_realloc example_io" "result (memcached_init (zero_memcached\<lparr>memc_is_allocated := False\<rparr>))"]
  by (auto simp: memcached_create_def Let_def)

lemma lonely_clone:
  "\<exists>m. memcached_clone (ce_memc (pe_client example_pool_env)) (pe_hooks example_pool_env) (io_realloc (ce_io (pe_client example_pool_env))) None
     (Some (pe_zero example_pool_env)) (Some (c_memc lonely_master)) = Some (Some m)"
proof -
  obtain q where "memcached_create (io_realloc (ce_io (pe_client example_pool_env))) None (Some (pe_zero example_pool_env)) = Some q"
    using zero_creates by (auto simp: example_pool_env_def example_env_def)
  then show ?thesis
    by (rule clone_without_servers) (simp_all add: example_pool_env_def lonely_master_def example_client_def zero_memcached_def
      memcached_server_count_def global_copy_flags_def)
qed

lemma pool_initial_overruns_witness: "memcached_pool_create example_pool_env True True lonely_master 2 1 = None"
proof -
  obtain m where "memcached_clone (ce_memc (pe_client example_pool_env)) (pe_hooks example_pool_env)
      (io_realloc (ce_io (pe_client example_pool_env))) None (Some (pe_zero example_pool_env)) (Some (c_memc lonely_master)) = Some (Some m)"
    using lonely_clone by blast
  then show ?thesis by (intro pool_initial_overruns example_pool_env_ok(2)) simp_all
qed

text \<open>A pool for one client: the first thread gets it, the second has to wait.\<close>

lemma pool_shared_witness:
  "\<exists>p0 s. memcached_pool_create example_pool_env True True lonely_master 0 1 = Some (Some p0) \<and> pool_run (pool_start p0) s \<and>
     sys_held s = {0} \<and> sys_waiting s = {7} \<and> pool_firstfree (sys_pool s) = - 1 \<and> pool_current_size (sys_pool s) = 1"
proof -
  let ?p0 = "\<lparr>pool_master = lonely_master, pool_mmc = [None], pool_firstfree = - 1, pool_size = 1,
    pool_current_size = 0, pool_version = 0, pool_clients = Map.empty\<rparr>"
  have create: "memcached_pool_create example_pool_env True True lonely_master 0 1 = Some (Some ?p0)"
    by (simp add: memcached_pool_create_def)
  obtain m where "clone_master example_pool_env ?p0 = Some (Some m)"
    using lonely_clone by (auto simp: clone_master_def)
  moreover have "pe_calloc example_pool_env Map.empty = Some 0" by (simp add: example_pool_env_def)
  ultimately have "grow_pool example_pool_env ?p0 = Some (True, ?p0\<lparr>pool_mmc := [Some 0], pool_firstfree := 0, pool_current_size := 1,
      pool_clients := [0 \<mapsto> (pe_kernel example_pool_env)\<lparr>c_memc := m\<rparr>]\<rparr>)"
    by (simp add: grow_pool_def put_free_def Let_def)
  then have "pop_loop example_pool_env True ?p0 = Some (Popped 0, ?p0\<lparr>pool_mmc := [Some 0], pool_current_size := 1,
      pool_clients := [0 \<mapsto> (pe_kernel example_pool_env)\<lparr>c_memc := m\<rparr>]\<rparr>)" (is "_ = Some (_, ?p1)")
    by (subst pop_loop.simps) (simp, subst pop_loop.simps, simp)
  then have one: "pool_step (pool_start ?p0) (after_pop 3 (Popped 0) ?p1 (pool_start ?p0))"
    by (intro pool_step.pop [OF example_pool_env_ok(1)]) (simp_all add: pool_start_def)
  let ?s1 = "after_pop 3 (Popped 0) ?p1 (pool_start ?p0)"
  have "pop_loop example_pool_env True (sys_pool ?s1) = Some (Must_wait, ?p1)"
    by (subst pop_loop.simps) (simp add: after_pop_def)
  then have two: "pool_step ?s1 (after_pop 7 Must_wait ?p1 ?s1)"
    by (intro pool_step.pop [OF example_pool_env_ok(1)]) (simp_all add: after_pop_def pool_start_def)
  let ?s2 = "after_pop 7 Must_wait ?p1 ?s1"
  have run: "pool_run (pool_start ?p0) ?s2" using pool_run.more [OF pool_run.more [OF pool_run.start one] two] .
  have s2: "sys_held ?s2 = {0}" "sys_waiting ?s2 = {7}" "pool_size (sys_pool ?s2) = 1" by (simp_all add: after_pop_def pool_start_def)
  moreover have "pool_firstfree (sys_pool ?s2) = - 1 \<and> pool_current_size (sys_pool ?s2) = pool_size (sys_pool ?s2)"
    using pool_shared [OF create example_pool_env_ok(1) _ run] s2 by simp
  ultimately show ?thesis using create run by metis
qed

end
