(* ===== verification/Spec2Isabelle.thy ===== *)
theory Spec2Isabelle
  imports Weighted Protocol_Client Client_Server Client_Reach Client_Update Client_Roundtrip
    Client_Callback Client_Stats Light_Faults Light_Main
    Client_Util Client_Pool
begin

text \<open>
  A model of libmemcached, the C client library for memcached that the Perl distribution
  Memcached-libmemcached bundles under \<open>src/src/libmemcached\<close>, with the protocol server that
  comes with it. File names below are relative to that directory.

  \<^bold>\<open>The program and the theories.\<close>
  A program holds a client object, which holds a list of servers and a table, the
  continuum, that maps hashes of keys to servers; it builds requests with the keys and strings of
  the library. A server program feeds bytes of its clients to the protocol server, which parses
  the binary or the text protocol, calls the functions of the application and buffers the answers.

  \<^item> \<open>Prelude\<close>: the machine integers of the x86-64 target (little endian loads and stores, byte
    swaps, wrap-around subtraction of sizes), the C library functions on bytes that the sources
    call (\<open>isspace\<close>, \<open>isgraph\<close>, \<open>strtoul\<close>, \<open>memcpy\<close>, decimal printing), and their lemmas. A C
    string or a packet is a \<open>byte list\<close>; \<open>None\<close> stands for an access outside of an object, a read
    of an undefined pointer, or a failed assertion, as each theory says.
  \<^item> \<open>Hashkit_Hashes\<close>, \<open>Hashkit_CRC32\<close>, \<open>Hashkit_Jenkins\<close>, \<open>Hashkit_MD5\<close>: the functions of
    \<open>libhashkit/*.c\<close> that map a key to 32 bits, loop by loop, with pointer alignment where Jenkins
    looks at it. \<open>Hashkit\<close>: \<open>hashkit_st\<close> and its operations (\<open>hashkit.c\<close>, \<open>function.c\<close>, \<open>digest.c\<close>).
  \<^item> \<open>Constants\<close>: \<open>constants.h\<close> and \<open>strerror.c\<close>.
  \<^item> \<open>Memc_String\<close>: \<open>string.c\<close>, \<open>result.c\<close>: growing strings over an allocator that may fail.
  \<^item> \<open>Servers\<close>: \<open>server.c\<close>, \<open>server_list.c\<close>, \<open>parse.c\<close>, \<open>key.c\<close> and the UDP header of \<open>io.c\<close>.
  \<^item> \<open>Memcached\<close>: \<open>memcached_st\<close> and its creation (\<open>memcached.c\<close>).
  \<^item> \<open>Float32\<close>, \<open>Hosts\<close>, \<open>Continuum\<close>, \<open>Weighted\<close>: \<open>hosts.c\<close>, that is the host list, its order and
    the construction of the continuum; single precision products and quotients are computed
    exactly and rounded to nearest even, as IEEE 754 has it. \<open>Dispatch\<close>: \<open>hash.c\<close>, from a key to a
    server index.
  \<^item> \<open>Protocol_Binary\<close>, \<open>Pedantic\<close>: packets of \<open>memcached/protocol_binary.h\<close>, \<open>byteorder.c\<close>, and
    \<open>protocol/pedantic.c\<close>. \<open>Cache\<close>: the object cache \<open>protocol/cache.c\<close>.
  \<^item> \<open>Protocol_Handler\<close>, \<open>Protocol_Client\<close>: \<open>protocol/protocol_handler.c\<close>, the output chunks of a
    client and the loop that receives, works on a buffer and sends. \<open>Binary_Handler\<close>,
    \<open>Binary_Process\<close>, \<open>Binary_Execute\<close>: \<open>protocol/binary_handler.c\<close>. \<open>Ascii_Handler\<close>, \<open>Ascii_Lines\<close>,
    \<open>Ascii_Protocol\<close>: \<open>protocol/ascii_handler.c\<close>.

  \<^item> \<open>Client_IO\<close>, \<open>Client_Stream\<close>: the input side of \<open>io.c\<close>, one server with its buffers and the
    answers of its socket. \<open>Client_Response\<close>: \<open>response.c\<close>, the answers of the server in both protocols.
    \<open>Client_Write\<close>, \<open>Client_Flush\<close>: the output side of \<open>io.c\<close> and \<open>purge.c\<close>, which call each other;
    \<open>Client_Output\<close>: what a socket that takes the output receives; \<open>Client_Resend\<close>: a purge in the
    middle of a flush.
  \<^item> \<open>Client_Connect\<close>, \<open>Client_Do\<close>: \<open>connect.c\<close>, \<open>do.c\<close>, \<open>quit.c\<close>, \<open>flush_buffers.c\<close> and the choice of
    a readable server. From here on the state is \<open>client_st\<close>: the client object with all servers and the sockets of the operating
    system by descriptor; an operation on one connection is run on the view of its server (\<open>at_server\<close>).
    \<open>Client_Storage\<close>: \<open>storage.c\<close>; \<open>Client_Send\<close>, \<open>Client_Store\<close>: what a stored value sends and how it is answered;
    \<open>Client_Server\<close>: the requests of the client executed by the protocol server. \<open>Client_Reach\<close>: properties of connecting.
    \<open>Client_Update\<close>: \<open>delete.c\<close> and \<open>auto.c\<close>.
  \<^item> \<open>Client_Behavior\<close>: \<open>behavior.c\<close>, the settings of a client by number. \<open>Client_Callback\<close>: \<open>callback.c\<close> and the clone of a
    client. \<open>Client_Fetch\<close>, \<open>Client_Get\<close>: \<open>fetch.c\<close> and \<open>get.c\<close>, asking for values and reading them, in both protocols and
    with replicas; \<open>Client_Value\<close>: what a value line becomes in the client; \<open>Client_Roundtrip\<close>: a value on its way from the
    application of the server to the caller of \<open>memcached_get\<close>. \<open>Client_Admin\<close>, \<open>Client_Stats\<close>: \<open>flush.c\<close>, \<open>version.c\<close>,
    \<open>verbosity.c\<close>, \<open>dump.c\<close> and \<open>stats.c\<close>, the commands that go to all servers and the parsing of their answers. \<open>Client_Util\<close>: \<open>analyze.c\<close>, \<open>util/ping.c\<close> and
    \<open>util/version.c\<close>. \<open>Client_Pool\<close>: \<open>util/pool.c\<close>, clients that threads share, as steps of any interleaving.

  \<^item> The example server \<open>example/\<close>, an application of the protocol server. \<open>Light_Storage\<close>: \<open>storage.c\<close>, a circular doubly linked
    list in an explicit memory of entries by address; \<open>Light_Ring\<close>: its shape and what its operations do to it; \<open>Light_Map\<close>: its
    contract. \<open>Light_V1\<close>: \<open>interface_v1.c\<close>; \<open>Light_V0\<close>: \<open>interface_v0.c\<close>; \<open>Light_Main\<close>: \<open>memcached_light.c\<close>, the event loop as steps
    over descriptors, connections and clients. \<open>Light_Server\<close>: a value on its way from one client through the server
    to another; \<open>Light_Faults\<close>: stored data that breaks later commands.

  \<^bold>\<open>State and effects.\<close>
  A C structure is a record with the fields of the structure; pointers that own memory are the
  list of what they point to, and operations return the updated record. What the environment
  does is data: an allocator is a function that may refuse, the answers of the socket to the calls
  of send and recv are the lists \<open>sends\<close> and \<open>recvs\<close> of the client (accept so many bytes,
  would block, interrupted, error, so many bytes received), the callbacks of the application are a
  record of functions that may be absent, and a custom hash function is a parameter. Hypotheses
  about them are named predicates (\<open>realloc_ok\<close>, \<open>cas_application\<close>, \<open>bare_application\<close>).

  \<^bold>\<open>What the lemmas show.\<close>
  For the client: a rebuilt continuum is the stable sort of the points of the live
  servers and is written within its array, a lookup finds the first point at or above the hash
  and wraps around, a new server only attracts keys, and weighted rings keep to 160 points for
  each live server whatever the roundings are; the hash functions agree with their reference
  definitions; printed server lists parse to the same servers; strings hold the concatenation of
  what was appended up to the first refused allocation. For the server: the output is neither
  lost nor reordered by draining, the loop over the binary packets of a buffer executes exactly
  the complete packets of the stream, a storage command of the text protocol reaches the
  application with its values even when it arrives in two pieces, the answers respect the pedantic
  mode, and the cache never hands out an object twice. For both: a value that the client stores, in the text or the binary
  protocol, reaches the application of the server as the caller gave it, and the answer makes the call succeed; a value that the
  application hands out for a get reaches the caller. For the example server: its linked list is a map from keys to items, its
  two interfaces have the same effect and output, its event loop forgets no connection, and with it a value that one client sets is
  what another client gets. For the pool: no two threads have the same client, and none sleeps while one is free. A last group proves what goes wrong:
  each property of this group runs the modelled code to the fault the manifest lists as a finding.

  \<^bold>\<open>Termination.\<close>
  There is no fuel. Loops over data recurse on lists or on a decreasing length; the loop over a
  buffer of packets decreases the length of the input, draining decreases the pending bytes and
  the answers left of the socket, and receiving decreases the list of answers of recv. The walks through the list of the storage
  need not end on an arbitrary memory: they are partial functions, and are shown to end on every list that the operations build. A list of
  socket answers that is used up stands for a socket that would block.

  \<^bold>\<open>Interfaces.\<close>
  The locales state what one part asks of another and are interpreted on the model:
  \<open>stream_hash\<close> (a hash that is a fold over the bytes; four hash functions), \<open>byte_buffer\<close> and
  \<open>heap_allocator\<close> (a growing string over an allocator; the strings of the library), \<open>object_pool\<close>
  (allocation and release; the cache of the server), \<open>byte_source\<close> (a read that takes the next bytes
  of a stream; the two reading functions of \<open>io.c\<close>, on which the line reader rests), \<open>item_store\<close> (what the handlers of an
  application ask of \<open>storage.h\<close>; the storage of \<open>storage.c\<close>) and \<open>flush_relation\<close> (what a purge may change; with it the flush and the purge, which call each other,
  are shown to end).

  \<^bold>\<open>Not modelled.\<close>
  The options of a new socket: their result is not used. \<open>sasl.c\<close>: it is not part of the configuration and calls a library that is
  not part of the repository. The mutexes of the cache have no counterpart because every operation is one critical section; those of the pool are the borders of
  its steps. The functions of \<open>libhashkit/ketama.c\<close> are not compiled. The command line tools
  and the tests are programs around the library, and the Perl part is glue. Of the example server the options of the command
  line and what is printed are left out, the event library is a parameter, and \<open>storage_innodb.c\<close> is an interface to an embedded
  database that is not part of the repository.
\<close>

end
